(* ===== verification/Prelude.thy ===== *)
theory Prelude
  imports Main "HOL-Library.List_Lexorder" "HOL-Library.Char_ord" "HOL-Library.Product_Lexorder"
begin

text \<open>
  The shared vocabulary of the development: Python's exceptions as values, the
  state-and-exception operations in which every stateful function of the program is
  written, the string methods the program uses, and the generic lemmas on lists that the
  components share.

  A Python \<open>str\<close> is a \<^typ>\<open>string\<close> whose characters are the code points U+0000 to
  U+00FF. Messages of exceptions are short ASCII tags in place of the Chinese texts.
\<close>

named_theorems op_defs \<open>the definitions of the exception and state combinators\<close>
named_theorems preserve \<open>rules for invariants that operations preserve\<close>

section \<open>Exceptions\<close>

text \<open>
  One constructor per exception class the modelled code raises or catches. The subclass
  relation of the source is in the predicates below: \<open>sqlite3.IntegrityError\<close> is a
  \<open>sqlite3.Error\<close>, the auto-peer and Kioubit errors are \<open>Dn42CtlError\<close>s, \<open>ValidationError\<close> is a
  \<open>ValueError\<close>.
\<close>

datatype exn =
    SqliteIntegrityError
  | SqliteError
  | DatabaseError string
  | Dn42CtlError string
  | AutoPeerError string
  | AutoPeerExpiredError string
  | AutoPeerSessionError string
  | ValidationError string
  | ValueError string
  | KeyError string
  | TypeError string
  | OSError string
  | EnvelopeError string
  | RecursionError
  | SocketError
  | ConfigError string
  | NodeConfigError string
  | KioubitAuthError string
  | KioubitExpiredError string
  | OverflowError
  | AttributeError string
  | NodeClientError string
  | Reconnect string

fun is_sqlite_error :: "exn \<Rightarrow> bool" where
  "is_sqlite_error SqliteIntegrityError = True"
| "is_sqlite_error SqliteError = True"
| "is_sqlite_error _ = False"

fun is_dn42ctl_error :: "exn \<Rightarrow> bool" where
  "is_dn42ctl_error (Dn42CtlError _) = True"
| "is_dn42ctl_error (AutoPeerError _) = True"
| "is_dn42ctl_error (AutoPeerExpiredError _) = True"
| "is_dn42ctl_error (AutoPeerSessionError _) = True"
| "is_dn42ctl_error (KioubitAuthError _) = True"
| "is_dn42ctl_error (KioubitExpiredError _) = True"
| "is_dn42ctl_error _ = False"

text \<open>\<open>str(exc)\<close>: the message an exception carries.\<close>

fun str_exn :: "exn \<Rightarrow> string" where
  "str_exn SqliteIntegrityError = ''integrity error''"
| "str_exn SqliteError = ''sqlite error''"
| "str_exn (DatabaseError m) = m"
| "str_exn (Dn42CtlError m) = m"
| "str_exn (AutoPeerError m) = m"
| "str_exn (AutoPeerExpiredError m) = m"
| "str_exn (AutoPeerSessionError m) = m"
| "str_exn (ValidationError m) = m"
| "str_exn (ValueError m) = m"
| "str_exn (KeyError m) = m"
| "str_exn (TypeError m) = m"
| "str_exn (OSError m) = m"
| "str_exn (EnvelopeError m) = m"
| "str_exn RecursionError = ''maximum recursion depth exceeded''"
| "str_exn SocketError = ''connection closed''"
| "str_exn (ConfigError m) = m"
| "str_exn (NodeConfigError m) = m"
| "str_exn (KioubitAuthError m) = m"
| "str_exn (KioubitExpiredError m) = m"
| "str_exn OverflowError = ''overflow''"
| "str_exn (AttributeError m) = m"
| "str_exn (NodeClientError m) = m"
| "str_exn (Reconnect m) = m"

section \<open>Pure code that may raise\<close>

type_synonym 'a result = "exn + 'a"

definition bindR :: "'a result \<Rightarrow> ('a \<Rightarrow> 'b result) \<Rightarrow> 'b result" where
  "bindR m f = (case m of Inl e \<Rightarrow> Inl e | Inr x \<Rightarrow> f x)"

fun mapR :: "('a \<Rightarrow> 'b result) \<Rightarrow> 'a list \<Rightarrow> 'b list result" where
  "mapR f [] = Inr []"
| "mapR f (x # xs) = bindR (f x) (\<lambda>y. bindR (mapR f xs) (\<lambda>ys. Inr (y # ys)))"

section \<open>Stateful code that may raise\<close>

text \<open>
  A stateful function takes the state and returns its result or the exception it raised,
  together with the state it leaves behind: an exception does not undo what was done
  before it.
\<close>

type_synonym ('s, 'a) op = "'s \<Rightarrow> 'a result \<times> 's"

definition ret :: "'a \<Rightarrow> ('s, 'a) op" where
  "ret x = (\<lambda>s. (Inr x, s))"

definition raise :: "exn \<Rightarrow> ('s, 'a) op" where
  "raise e = (\<lambda>s. (Inl e, s))"

definition bnd :: "('s, 'a) op \<Rightarrow> ('a \<Rightarrow> ('s, 'b) op) \<Rightarrow> ('s, 'b) op" where
  "bnd m f = (\<lambda>s. case m s of (Inl e, s') \<Rightarrow> (Inl e, s') | (Inr x, s') \<Rightarrow> f x s')"

text \<open>\<open>try: m except ...: h\<close>; a handler re-raises what it does not catch.\<close>

definition try_except :: "('s, 'a) op \<Rightarrow> (exn \<Rightarrow> ('s, 'a) op) \<Rightarrow> ('s, 'a) op" where
  "try_except m h = (\<lambda>s. case m s of (Inl e, s') \<Rightarrow> h e s' | (Inr x, s') \<Rightarrow> (Inr x, s'))"

text \<open>\<open>try: m finally: f\<close> for a clean-up that cannot fail.\<close>

definition try_finally :: "('s, 'a) op \<Rightarrow> ('s \<Rightarrow> 's) \<Rightarrow> ('s, 'a) op" where
  "try_finally m f = (\<lambda>s. case m s of (r, s') \<Rightarrow> (r, f s'))"

definition lift_result :: "'a result \<Rightarrow> ('s, 'a) op" where
  "lift_result r = (\<lambda>s. (r, s))"

fun for_each :: "('a \<Rightarrow> ('s, unit) op) \<Rightarrow> 'a list \<Rightarrow> ('s, unit) op" where
  "for_each f [] = ret ()"
| "for_each f (x # xs) = bnd (f x) (\<lambda>_. for_each f xs)"

definition read_state :: "('s \<Rightarrow> 'a) \<Rightarrow> ('s, 'a) op" where
  "read_state f = (\<lambda>s. (Inr (f s), s))"

definition modify_state :: "('s \<Rightarrow> 's) \<Rightarrow> ('s, unit) op" where
  "modify_state f = (\<lambda>s. (Inr (), f s))"

text \<open>\<open>except <class> as exc: raise <other>(str(exc)) from exc\<close>.\<close>

definition reraise_as :: "(exn \<Rightarrow> bool) \<Rightarrow> (string \<Rightarrow> exn) \<Rightarrow> ('s, 'a) op \<Rightarrow> ('s, 'a) op" where
  "reraise_as c k m = try_except m (\<lambda>e. if c e then raise (k (str_exn e)) else raise e)"

lemmas op_combinators [op_defs] =
  bindR_def ret_def raise_def bnd_def try_except_def try_finally_def lift_result_def
  read_state_def modify_state_def reraise_as_def

section \<open>Runs that return\<close>

named_theorems returns \<open>what a run that returns went through\<close>

lemma bindR_Inr: "bindR m f = Inr y \<longleftrightarrow> (\<exists>x. m = Inr x \<and> f x = Inr y)"
  by (auto simp: bindR_def split: sum.splits)

lemma bindR_Inl: "bindR m f = Inl e \<longleftrightarrow> m = Inl e \<or> (\<exists>x. m = Inr x \<and> f x = Inl e)"
  by (auto simp: bindR_def split: sum.splits)

lemma returns_bnd [returns]: "bnd m f s = (Inr y, s') \<longleftrightarrow> (\<exists>x s1. m s = (Inr x, s1) \<and> f x s1 = (Inr y, s'))"
  by (auto simp: bnd_def split: prod.splits sum.splits)

lemma returns_basic [returns]:
  "ret x s = (Inr y, s') \<longleftrightarrow> y = x \<and> s' = s"
  "raise e s = (Inr y, s') \<longleftrightarrow> False"
  "lift_result r s = (Inr y, s') \<longleftrightarrow> r = Inr y \<and> s' = s"
  "try_finally m g s = (Inr y, s') \<longleftrightarrow> (\<exists>s1. m s = (Inr y, s1) \<and> s' = g s1)"
  "reraise_as c k m s = (Inr y, s') \<longleftrightarrow> m s = (Inr y, s')"
  by (auto simp: op_defs split: prod.splits sum.splits if_splits)

section \<open>Preservation\<close>

text \<open>
  \<open>preserves P m\<close>: whatever \<open>m\<close> returns or raises, and from every state with \<open>P\<close>, the
  state it leaves has \<open>P\<close>. The rules follow the combinators, so an invariant of a whole
  service function is proved from the invariants of the statements it runs.
\<close>

definition preserves :: "('s \<Rightarrow> bool) \<Rightarrow> ('s, 'a) op \<Rightarrow> bool" where
  "preserves P m \<longleftrightarrow> (\<forall>s. P s \<longrightarrow> P (snd (m s)))"

lemma preservesI: "(\<And>s. P s \<Longrightarrow> P (snd (m s))) \<Longrightarrow> preserves P m"
  by (simp add: preserves_def)

lemma preservesD: "preserves P m \<Longrightarrow> P s \<Longrightarrow> P (snd (m s))"
  by (simp add: preserves_def)

lemma preserves_ret [preserve]: "preserves P (ret x)"
  by (simp add: preserves_def ret_def)

lemma preserves_raise [preserve]: "preserves P (raise e)"
  by (simp add: preserves_def raise_def)

lemma preserves_lift [preserve]: "preserves P (lift_result r)"
  by (simp add: preserves_def lift_result_def)

lemma preserves_read [preserve]: "preserves P (read_state f)"
  by (simp add: preserves_def read_state_def)

lemma preserves_bnd [preserve]:
  assumes "preserves P m" and "\<And>x. preserves P (f x)"
  shows "preserves P (bnd m f)"
proof (rule preservesI)
  fix s
  assume "P s"
  with assms(1) have "P (snd (m s))" by (rule preservesD)
  with assms(2) show "P (snd (bnd m f s))"
    by (auto simp: bnd_def preserves_def split: prod.splits sum.splits)
qed

lemma preserves_try [preserve]:
  assumes "preserves P m" and "\<And>e. preserves P (h e)"
  shows "preserves P (try_except m h)"
proof (rule preservesI)
  fix s
  assume "P s"
  with assms(1) have "P (snd (m s))" by (rule preservesD)
  with assms(2) show "P (snd (try_except m h s))"
    by (auto simp: try_except_def preserves_def split: prod.splits sum.splits)
qed

lemma preserves_finally [preserve]:
  assumes "preserves P m" and "\<And>s. P s \<Longrightarrow> P (f s)"
  shows "preserves P (try_finally m f)"
proof (rule preservesI)
  fix s
  assume "P s"
  with assms(1) have "P (snd (m s))" by (rule preservesD)
  with assms(2) show "P (snd (try_finally m f s))"
    by (auto simp: try_finally_def split: prod.splits)
qed

lemma preserves_modify [preserve]:
  "(\<And>s. P s \<Longrightarrow> P (f s)) \<Longrightarrow> preserves P (modify_state f)"
  by (simp add: preserves_def modify_state_def)

lemma preserves_reraise [preserve]: "preserves P m \<Longrightarrow> preserves P (reraise_as c k m)"
  unfolding reraise_as_def by (rule preserves_try) (auto intro: preserve)

lemma preserves_if [preserve]:
  "(b \<Longrightarrow> preserves P m) \<Longrightarrow> (\<not> b \<Longrightarrow> preserves P n) \<Longrightarrow> preserves P (if b then m else n)"
  by simp

lemma preserves_option [preserve]:
  "(x = None \<Longrightarrow> preserves P m) \<Longrightarrow> (\<And>y. x = Some y \<Longrightarrow> preserves P (f y)) \<Longrightarrow>
   preserves P (case x of None \<Rightarrow> m | Some y \<Rightarrow> f y)"
  by (cases x) auto

lemma preserves_sum [preserve]:
  "(\<And>y. x = Inl y \<Longrightarrow> preserves P (g y)) \<Longrightarrow> (\<And>y. x = Inr y \<Longrightarrow> preserves P (f y)) \<Longrightarrow>
   preserves P (case x of Inl y \<Rightarrow> g y | Inr y \<Rightarrow> f y)"
  by (cases x) auto

lemma preserves_prod [preserve]:
  "(\<And>a b. x = (a, b) \<Longrightarrow> preserves P (f a b)) \<Longrightarrow>
   preserves P (case x of (a, b) \<Rightarrow> f a b)"
  by (cases x) auto

lemma preserves_let [preserve]: "(\<And>y. y = x \<Longrightarrow> preserves P (f y)) \<Longrightarrow> preserves P (let y = x in f y)"
  by (simp add: Let_def)

lemma preserves_for_each [preserve]:
  "(\<And>x. x \<in> set xs \<Longrightarrow> preserves P (f x)) \<Longrightarrow> preserves P (for_each f xs)"
  by (induction xs) (auto intro: preserve)

section \<open>Strings\<close>

text \<open>\<open>str.isspace\<close> on U+0000 to U+00FF, the set \<open>str.strip\<close> removes.\<close>

definition code_point :: "char \<Rightarrow> nat" where
  "code_point c = of_char c"

definition is_space :: "char \<Rightarrow> bool" where
  "is_space c = (let n = code_point c in
     (9 \<le> n \<and> n \<le> 13) \<or> (28 \<le> n \<and> n \<le> 32) \<or> n = 133 \<or> n = 160)"

definition lstrip :: "string \<Rightarrow> string" where
  "lstrip s = dropWhile is_space s"

definition rstrip :: "string \<Rightarrow> string" where
  "rstrip s = rev (dropWhile is_space (rev s))"

definition strip :: "string \<Rightarrow> string" where
  "strip s = rstrip (lstrip s)"

definition strip_chars :: "char \<Rightarrow> string \<Rightarrow> string" where
  "strip_chars c s = rev (dropWhile (\<lambda>x. x = c) (rev (dropWhile (\<lambda>x. x = c) s)))"

text \<open>\<open>str.lower\<close> on U+0000 to U+00FF.\<close>

definition lower_char :: "char \<Rightarrow> char" where
  "lower_char c = (let n = code_point c in
     if (65 \<le> n \<and> n \<le> 90) \<or> (192 \<le> n \<and> n \<le> 222 \<and> n \<noteq> 215) then char_of (n + 32) else c)"

definition lower :: "string \<Rightarrow> string" where
  "lower s = map lower_char s"

definition startswith :: "string \<Rightarrow> string \<Rightarrow> bool" where
  "startswith s p = (take (length p) s = p)"

definition endswith :: "string \<Rightarrow> string \<Rightarrow> bool" where
  "endswith s p = (length p \<le> length s \<and> drop (length s - length p) s = p)"

definition is_digit :: "char \<Rightarrow> bool" where
  "is_digit c = (48 \<le> code_point c \<and> code_point c \<le> 57)"

definition is_alnum :: "char \<Rightarrow> bool" where
  "is_alnum c = (let n = code_point c in
     (48 \<le> n \<and> n \<le> 57) \<or> (65 \<le> n \<and> n \<le> 90) \<or> (97 \<le> n \<and> n \<le> 122))"

text \<open>\<open>str.split(c)\<close> for a single-character separator.\<close>

fun split_on :: "char \<Rightarrow> string \<Rightarrow> string list" where
  "split_on c [] = [[]]"
| "split_on c (x # xs) = (if x = c then [] # split_on c xs
     else (case split_on c xs of [] \<Rightarrow> [[x]] | y # ys \<Rightarrow> (x # y) # ys))"

text \<open>\<open>str.partition(c)\<close> and \<open>str.rpartition(c)\<close>; the middle component says whether the
  separator was found.\<close>

definition partition_at :: "char \<Rightarrow> string \<Rightarrow> string \<times> bool \<times> string" where
  "partition_at c s = (let h = takeWhile (\<lambda>x. x \<noteq> c) s in
     if h = s then (s, False, []) else (h, True, drop (Suc (length h)) s))"

definition rpartition_at :: "char \<Rightarrow> string \<Rightarrow> string \<times> bool \<times> string" where
  "rpartition_at c s = (let t = rev (takeWhile (\<lambda>x. x \<noteq> c) (rev s)) in
     if t = s then ([], False, s) else (take (length s - Suc (length t)) s, True, t))"

text \<open>\<open>re.sub(r"[...]+", r, s)\<close>: every maximal run of characters with \<open>p\<close> becomes one \<open>r\<close>.\<close>

function sub_runs :: "(char \<Rightarrow> bool) \<Rightarrow> char \<Rightarrow> string \<Rightarrow> string" where
  "sub_runs p r [] = []"
| "sub_runs p r (c # cs) =
     (if p c then r # sub_runs p r (dropWhile p cs) else c # sub_runs p r cs)"
  by pat_completeness auto
termination
  by (relation "measure (\<lambda>(p, r, s). length s)") (auto simp: le_imp_less_Suc length_dropWhile_le)

text \<open>\<open>str(n)\<close> and \<open>int(s)\<close> for decimal digits.\<close>

definition digit_char :: "nat \<Rightarrow> char" where
  "digit_char n = char_of (48 + n)"

fun show_nat :: "nat \<Rightarrow> string" where
  "show_nat n = (if n < 10 then [digit_char n] else show_nat (n div 10) @ [digit_char (n mod 10)])"

declare show_nat.simps [simp del]

definition show_int :: "int \<Rightarrow> string" where
  "show_int i = (if i < 0 then CHR ''-'' # show_nat (nat (- i)) else show_nat (nat i))"

definition digit_val :: "char \<Rightarrow> nat" where
  "digit_val c = code_point c - 48"

definition parse_nat :: "string \<Rightarrow> nat" where
  "parse_nat s = foldl (\<lambda>n c. 10 * n + digit_val c) 0 s"

definition truthy :: "string option \<Rightarrow> bool" where
  "truthy x = (case x of None \<Rightarrow> False | Some s \<Rightarrow> s \<noteq> [])"

section \<open>Lemmas on strings\<close>

lemma digit_char_eval [simp]:
  "digit_char 0 = CHR ''0''" "digit_char 1 = CHR ''1''" "digit_char (Suc 0) = CHR ''1''"
  "digit_char 2 = CHR ''2''"
  "digit_char 3 = CHR ''3''" "digit_char 4 = CHR ''4''" "digit_char 5 = CHR ''5''"
  "digit_char 6 = CHR ''6''" "digit_char 7 = CHR ''7''" "digit_char 8 = CHR ''8''"
  "digit_char 9 = CHR ''9''"
  by (simp_all add: digit_char_def char_of_def bit_0)

lemma code_point_digit_char: "n < 10 \<Longrightarrow> code_point (digit_char n) = 48 + n"
  by (simp add: code_point_def digit_char_def)

lemma is_digit_digit_char: "n < 10 \<Longrightarrow> is_digit (digit_char n)"
  by (simp add: is_digit_def code_point_digit_char)

lemma digit_val_digit_char: "n < 10 \<Longrightarrow> digit_val (digit_char n) = n"
  by (simp add: digit_val_def code_point_digit_char)

lemma parse_nat_append: "parse_nat (s @ [c]) = 10 * parse_nat s + digit_val c"
  by (simp add: parse_nat_def)

lemma show_nat_digits: "\<forall>c \<in> set (show_nat n). is_digit c"
proof (induction n rule: show_nat.induct)
  case (1 n)
  show ?case
  proof (cases "n < 10")
    case True
    then show ?thesis by (simp add: show_nat.simps [of n] is_digit_digit_char)
  next
    case False
    with "1.IH" show ?thesis by (auto simp: show_nat.simps [of n] is_digit_digit_char)
  qed
qed

lemma show_nat_nonempty: "show_nat n \<noteq> []"
  by (subst show_nat.simps) simp

lemma parse_show_nat: "parse_nat (show_nat n) = n"
proof (induction n rule: show_nat.induct)
  case (1 n)
  show ?case
  proof (cases "n < 10")
    case True
    then show ?thesis
      by (simp add: show_nat.simps [of n] parse_nat_def digit_val_digit_char)
  next
    case False
    with "1.IH" show ?thesis
      by (simp add: show_nat.simps [of n] parse_nat_append digit_val_digit_char)
  qed
qed

lemma length_show_nat: "n < 10 ^ k \<Longrightarrow> 0 < k \<Longrightarrow> length (show_nat n) \<le> k"
proof (induction n arbitrary: k rule: show_nat.induct)
  case (1 n)
  show ?case
  proof (cases "n < 10")
    case True
    with "1.prems" show ?thesis by (simp add: show_nat.simps [of n])
  next
    case False
    with "1.prems" obtain j where k: "k = Suc j" and "0 < j"
      by (cases k; cases "k - 1") auto
    moreover from "1.prems"(1) k have "n div 10 < 10 ^ j" by simp
    ultimately have "length (show_nat (n div 10)) \<le> j" using "1.IH" False by simp
    with False k show ?thesis by (simp add: show_nat.simps [of n])
  qed
qed

lemma dropWhile_id: "(xs \<noteq> [] \<Longrightarrow> \<not> p (hd xs)) \<Longrightarrow> dropWhile p xs = xs"
  by (cases xs) auto

lemma strip_trimmed: "(s \<noteq> [] \<Longrightarrow> \<not> is_space (hd s) \<and> \<not> is_space (last s)) \<Longrightarrow> strip s = s"
  by (cases "s = []")
    (simp_all add: strip_def lstrip_def rstrip_def dropWhile_id hd_rev)

lemma hd_dropWhile_not: "dropWhile p xs \<noteq> [] \<Longrightarrow> \<not> p (hd (dropWhile p xs))"
  by (induction xs) auto

lemma strip_ends:
  assumes "strip s \<noteq> []"
  shows "\<not> is_space (hd (strip s))" and "\<not> is_space (last (strip s))"
proof -
  let ?l = "lstrip s"
  have rl: "strip s = rev (dropWhile is_space (rev ?l))"
    by (simp add: strip_def rstrip_def)
  from assms rl have ne: "dropWhile is_space (rev ?l) \<noteq> []" by simp
  from hd_dropWhile_not [OF ne] rl show "\<not> is_space (last (strip s))"
    by (simp add: last_rev ne)
  have split: "?l = strip s @ rev (takeWhile is_space (rev ?l))"
    by (metis rl rev_append rev_rev_ident takeWhile_dropWhile_id)
  with assms have "hd ?l = hd (strip s)" and "?l \<noteq> []"
    by (metis hd_append2) (use assms split in auto)
  then show "\<not> is_space (hd (strip s))"
    using hd_dropWhile_not [of is_space s] by (simp add: lstrip_def)
qed

lemma strip_Nil [simp]: "strip [] = []"
  by (simp add: strip_def lstrip_def rstrip_def)

lemma strip_strip [simp]: "strip (strip s) = strip s"
  by (rule strip_trimmed) (auto simp: strip_ends)

lemma set_strip: "set (strip s) \<subseteq> set s"
  by (auto simp: strip_def rstrip_def lstrip_def dest!: set_dropWhileD)

lemma takeWhile_neq_eq: "takeWhile (\<lambda>x. x \<noteq> c) s = s \<longleftrightarrow> c \<notin> set s"
  by (auto simp: takeWhile_eq_all_conv)

lemma rpartition_last:
  assumes "c \<notin> set t"
  shows "rpartition_at c (h @ c # t) = (h, True, t)"
proof -
  have "takeWhile (\<lambda>x. x \<noteq> c) (rev t @ c # rev h) = rev t"
    using assms by (subst takeWhile_append2) auto
  then show ?thesis by (simp add: rpartition_at_def Let_def)
qed

lemma rpartition_none: "c \<notin> set s \<Longrightarrow> rpartition_at c s = ([], False, s)"
proof -
  assume "c \<notin> set s"
  then have all: "takeWhile (\<lambda>x. x \<noteq> c) (rev s) = rev s" by (auto simp: takeWhile_eq_all_conv)
  show ?thesis unfolding rpartition_at_def Let_def all by simp
qed

lemma rpartition_found:
  "rpartition_at c s = (h, True, t) \<Longrightarrow> s = h @ c # t \<and> c \<notin> set t"
proof -
  assume a: "rpartition_at c s = (h, True, t)"
  then have "c \<in> set s" using rpartition_none by fastforce
  then obtain h' t' where s: "s = h' @ c # t'" and t': "c \<notin> set t'"
    by (metis split_list_last)
  from rpartition_last [OF t', of h'] a s t' show ?thesis by simp
qed

section \<open>Lemmas on lists\<close>

lemma replicate_numeral [simp]: "replicate (numeral k) x = x # replicate (pred_numeral k) x"
  by (simp add: numeral_eq_Suc)

lemma find_Some_set: "List.find p xs = Some x \<Longrightarrow> x \<in> set xs \<and> p x"
  by (induction xs) (auto split: if_splits)

lemma find_None_set: "List.find p xs = None \<longleftrightarrow> (\<forall>x \<in> set xs. \<not> p x)"
  by (induction xs) auto

lemma find_append: "List.find p (xs @ ys) = (case List.find p xs of None \<Rightarrow> List.find p ys | Some x \<Rightarrow> Some x)"
  by (induction xs) auto

lemma find_distinct_key:
  "distinct (map k xs) \<Longrightarrow> x \<in> set xs \<Longrightarrow> List.find (\<lambda>y. k y = k x) xs = Some x"
  by (induction xs) (auto dest: imageI [where f = k])

lemma filter_key_single:
  "distinct (map k xs) \<Longrightarrow> x \<in> set xs \<Longrightarrow> filter (\<lambda>y. k y = k x) xs = [x]"
proof (induction xs)
  case (Cons y xs)
  show ?case
  proof (cases "y = x")
    case True
    with Cons.prems(1) have "filter (\<lambda>y. k y = k x) xs = []"
      by (simp add: filter_empty_conv) (metis imageI)
    with True show ?thesis by simp
  next
    case False
    with Cons.prems have "x \<in> set xs" and "k y \<noteq> k x" by auto
    with Cons show ?thesis by simp
  qed
qed simp

lemma distinct_map_filter_keys: "distinct (map k xs) \<Longrightarrow> distinct (map k (filter p xs))"
  by (induction xs) auto

lemma map_key_update:
  "(\<And>x. x \<in> set xs \<Longrightarrow> p x \<Longrightarrow> k (f x) = k x) \<Longrightarrow> map k (map (\<lambda>x. if p x then f x else x) xs) = map k xs"
  by auto

lemma find_map_update:
  "(\<And>x. q (f x) = q x) \<Longrightarrow> List.find q (map (\<lambda>x. if q x then f x else x) xs) = map_option f (List.find q xs)"
  by (induction xs) auto

lemma sorted_snoc_le: "sorted xs \<Longrightarrow> (\<forall>x \<in> set xs. x \<le> (y::nat)) \<Longrightarrow> sorted (xs @ [y])"
  by (simp add: sorted_append)

lemma filter_after_take:
  fixes f :: "'a \<Rightarrow> nat"
  assumes "sorted_wrt (<) (map f xs)" and "take l xs \<noteq> []"
  shows "filter (\<lambda>e. f (last (take l xs)) < f e) xs = drop l xs"
proof -
  let ?t = "take l xs" and ?d = "drop l xs"
  have s: "sorted_wrt (<) (map f ?t @ map f ?d)" using assms(1) by (simp flip: map_append)
  then have gt: "\<forall>x \<in> set ?d. f (last ?t) < f x" and st: "sorted_wrt (<) (map f ?t)"
    using assms(2) by (auto simp: sorted_wrt_append)
  have "?t = butlast ?t @ [last ?t]" using assms(2) by simp
  then obtain ys z where t: "?t = ys @ [z]" by blast
  with st have "\<forall>y \<in> set ys. f y < f z" by (simp add: sorted_wrt_append)
  then have le: "\<forall>x \<in> set ?t. f x \<le> f (last ?t)" using t by auto
  have "filter (\<lambda>e. f (last ?t) < f e) (?t @ ?d) = ?d"
    unfolding filter_append using le gt by (simp add: filter_empty_conv not_less)
  then show ?thesis by simp
qed

end
