(* ===== verification/Json.thy ===== *)
theory Json
  imports Prelude
begin

text \<open>
  JSON values as \<open>json.loads\<close> builds them, and the text \<open>json.dumps\<close> prints for them.
  A dict is an association list in insertion order with distinct keys; a float is kept by
  its \<open>repr\<close>. The database columns that hold JSON text are represented by the value they
  decode to: the program writes them with \<open>json.dumps\<close> only.
\<close>

datatype json =
    JNull
  | JBool bool
  | JInt int
  | JFloat string
  | JStr string
  | JArr "json list"
  | JObj "(string \<times> json) list"

type_synonym jdict = "(string \<times> json) list"

text \<open>\<open>d.get(k)\<close>, with \<open>None\<close> for an absent key, and \<open>d.get(k)\<close> read as a Python value,
  where an absent key and \<open>null\<close> are both \<open>None\<close>.\<close>

definition dict_get :: "jdict \<Rightarrow> string \<Rightarrow> json option" where
  "dict_get d k = map_of d k"

definition dict_get_value :: "jdict \<Rightarrow> string \<Rightarrow> json" where
  "dict_get_value d k = (case map_of d k of None \<Rightarrow> JNull | Some v \<Rightarrow> v)"

text \<open>\<open>d[k] = v\<close> keeps the position of a key that is present.\<close>

fun dict_set :: "('k \<times> 'v) list \<Rightarrow> 'k \<Rightarrow> 'v \<Rightarrow> ('k \<times> 'v) list" where
  "dict_set [] k v = [(k, v)]"
| "dict_set ((k', v') # d) k v = (if k' = k then (k, v) # d else (k', v') # dict_set d k v)"

text \<open>\<open>d.pop(k, None)\<close>.\<close>

definition dict_pop :: "('k \<times> 'v) list \<Rightarrow> 'k \<Rightarrow> ('k \<times> 'v) list" where
  "dict_pop d k = filter (\<lambda>kv. fst kv \<noteq> k) d"

section \<open>Printing\<close>

definition hex_digit :: "nat \<Rightarrow> char" where
  "hex_digit n = ''0123456789abcdef'' ! n"

definition escape_char :: "char \<Rightarrow> string" where
  "escape_char c = (let n = code_point c in
     if n = 34 then [CHR 0x5C, CHR 0x22]
     else if n = 92 then [CHR 0x5C, CHR 0x5C]
     else if n = 10 then [CHR 0x5C, CHR ''n'']
     else if n = 13 then [CHR 0x5C, CHR ''r'']
     else if n = 9 then [CHR 0x5C, CHR ''t'']
     else if n = 8 then [CHR 0x5C, CHR ''b'']
     else if n = 12 then [CHR 0x5C, CHR ''f'']
     else if n < 32 then [CHR 0x5C] @ ''u00'' @ [hex_digit (n div 16), hex_digit (n mod 16)]
     else [c])"

definition dumps_str :: "string \<Rightarrow> string" where
  "dumps_str s = [CHR 0x22] @ concat (map escape_char s) @ [CHR 0x22]"

fun sep_by :: "string list \<Rightarrow> string" where
  "sep_by [] = []"
| "sep_by [x] = x"
| "sep_by (x # xs) = x @ '', '' @ sep_by xs"

fun dumps :: "json \<Rightarrow> string" where
  "dumps JNull = ''null''"
| "dumps (JBool b) = (if b then ''true'' else ''false'')"
| "dumps (JInt i) = show_int i"
| "dumps (JFloat r) = r"
| "dumps (JStr s) = dumps_str s"
| "dumps (JArr xs) = ''['' @ sep_by (map dumps xs) @ '']''"
| "dumps (JObj kvs) = ''{'' @ sep_by (map (\<lambda>kv. dumps_str (fst kv) @ '': '' @ dumps (snd kv)) kvs) @ ''}''"

text \<open>\<open>sort_keys=True\<close> sorts every dict by key.\<close>

fun sort_keys :: "json \<Rightarrow> json" where
  "sort_keys (JArr xs) = JArr (map sort_keys xs)"
| "sort_keys (JObj kvs) = JObj (sort_key fst (map (\<lambda>kv. (fst kv, sort_keys (snd kv))) kvs))"
| "sort_keys j = j"

section \<open>Lemmas\<close>

lemma dict_set_get: "map_of (dict_set d k v) k' = (if k' = k then Some v else map_of d k')"
  by (induction d) auto

lemma dict_pop_get: "map_of (dict_pop d k) k' = (if k' = k then None else map_of d k')"
  by (induction d) (auto simp: dict_pop_def)

lemma dict_set_keys: "set (map fst (dict_set d k v)) = insert k (set (map fst d))"
proof (induction d)
  case (Cons kv d)
  then show ?case by (cases kv) auto
qed simp

lemma dict_set_distinct: "distinct (map fst d) \<Longrightarrow> distinct (map fst (dict_set d k v))"
proof (induction d)
  case (Cons kv d)
  then show ?case using dict_set_keys [of d k v] by (cases kv) auto
qed simp

lemma dict_pop_distinct: "distinct (map fst d) \<Longrightarrow> distinct (map fst (dict_pop d k))"
  by (simp add: dict_pop_def distinct_map_filter_keys)

lemma dict_set_new: "k \<notin> fst ` set d \<Longrightarrow> dict_set d k v = d @ [(k, v)]"
  by (induction d) auto

end
