(* ===== verification/Schema.thy ===== *)
theory Schema
  imports Json
begin

text \<open>
  The database of \<open>dn42ctl\<close> (the tables of \<open>migrations.py\<close> with the dataclasses that
  mirror them), the connection of \<open>sqlite3\<close> with its transactions, and the world the
  services run in.

  A table is the list of its rows in insertion order; the constraints of the schema
  (primary keys, \<open>UNIQUE\<close>, \<open>FOREIGN KEY\<close>) are checked by the statements that insert. Ids of
  the peer tables are never read by the program and are left out. A column of JSON text is
  the value it decodes to.
\<close>

section \<open>Rows\<close>

record peer_record_base =
  p_node_id :: string
  p_ifname :: string
  p_wg_private_key :: string
  p_wg_public_key :: string
  p_peer_public_key :: "string option"
  p_endpoint :: "string option"
  p_local_lla :: string
  p_peer_lla :: "string option"
  p_listen_port :: int
  p_allowed_ips :: "string list"
  p_net_backend :: string

record BgpPeerRecord = peer_record_base +
  p_peer_asn :: int

record bgp_peer_row = BgpPeerRecord +
  b_created_at :: string
  b_updated_at :: string

record IbgpPeerRecord = peer_record_base +
  p_name :: string
  p_babel_rxcost :: int
  p_peer_ip :: "string option"
  p_has_wg :: bool
  p_babel_type :: string
  p_remote_node_id :: "string option"

record ibgp_peer_row = IbgpPeerRecord +
  i_created_at :: string
  i_updated_at :: string

record node_row =
  n_node_id :: string
  n_created_at :: string
  n_updated_at :: string

type_synonym write_policy = "(string \<times> string) list"

record ManagedNode =
  mn_node_id :: string
  mn_name :: string
  mn_api_token_hash :: "string option"
  mn_write_policy :: write_policy
  mn_enabled :: bool
  mn_is_self :: bool
  mn_last_seen_at :: "string option"
  mn_created_at :: string
  mn_updated_at :: string
  mn_endpoint_host :: "string option"
  mn_own_ipv6 :: "string option"
  mn_router_id :: "string option"
  mn_auto_peer :: bool

record ConfigProposal =
  cp_id :: nat
  cp_node_id :: string
  cp_source :: string
  cp_kind :: string
  cp_payload :: jdict
  cp_status :: string
  cp_received_at :: string
  cp_decided_at :: "string option"
  cp_message :: "string option"

record NodeReport =
  nr_id :: nat
  nr_node_id :: string
  nr_kind :: string
  nr_payload :: jdict
  nr_received_at :: string
  nr_imported_at :: "string option"

record ConfigRevision =
  cr_id :: nat
  cr_node_id :: string
  cr_revision :: string
  cr_generated_at :: string
  cr_payload :: jdict

record desired_pin =
  dp_node_id :: string
  dp_revision :: string
  dp_pinned_at :: string

record SyncEvent =
  se_id :: nat
  se_node_id :: string
  se_kind :: string
  se_created_at :: string

section \<open>The database\<close>

text \<open>
  \<open>db_schema\<close> lists the tables with their columns and \<open>db_indexes\<close> the indexes by name;
  \<open>sqlite_sequence\<close> keeps the largest id every \<open>AUTOINCREMENT\<close> table has handed out.
\<close>

record database =
  db_schema :: "(string \<times> string list) list"
  db_indexes :: "string list"
  schema_migrations :: "nat list"
  nodes :: "node_row list"
  bgp_peers :: "bgp_peer_row list"
  ibgp_peers :: "ibgp_peer_row list"
  managed_nodes :: "ManagedNode list"
  config_proposals :: "ConfigProposal list"
  proposals_seq :: nat
  node_reports :: "NodeReport list"
  reports_seq :: nat
  config_revisions :: "ConfigRevision list"
  revisions_seq :: nat
  node_desired_pin :: "desired_pin list"
  sync_events :: "SyncEvent list"
  events_seq :: nat

definition empty_database :: database where
  "empty_database = \<lparr> db_schema = [], db_indexes = [], schema_migrations = [], nodes = [],
     bgp_peers = [], ibgp_peers = [], managed_nodes = [], config_proposals = [],
     proposals_seq = 0, node_reports = [], reports_seq = 0, config_revisions = [],
     revisions_seq = 0, node_desired_pin = [], sync_events = [], events_seq = 0 \<rparr>"

definition SELF_INDEX :: string where
  "SELF_INDEX = ''idx_managed_nodes_single_self''"

definition has_node :: "database \<Rightarrow> string \<Rightarrow> bool" where
  "has_node d n = (n \<in> set (map n_node_id (nodes d)))"

text \<open>\<open>UNIQUE(is_self) WHERE is_self = 1\<close>, once migration 13 has created it.\<close>

definition single_self :: "ManagedNode list \<Rightarrow> bool" where
  "single_self ms = (length (filter mn_is_self ms) \<le> 1)"

definition self_index_ok :: "database \<Rightarrow> bool" where
  "self_index_ok d = (SELF_INDEX \<in> set (db_indexes d) \<longrightarrow> single_self (managed_nodes d))"

section \<open>The world\<close>

text \<open>
  What the program does not control is a parameter: which SQL statements and file
  operations fail (by the number of effects performed before them), how much of a text a
  failing write has put into its file, the clock, SHA-256, the random source and the \<open>wg\<close>
  command.
\<close>

record environment =
  sql_fault :: "nat \<Rightarrow> bool"
  io_fault :: "nat \<Rightarrow> bool"
  io_partial :: "nat \<Rightarrow> nat"
  clock :: "nat \<Rightarrow> string"
  random_nat :: "nat \<Rightarrow> nat"
  wg_genkey :: "nat \<Rightarrow> string option"
  wg_pubkey :: "string \<Rightarrow> string option"
  sha256_hex :: "string \<Rightarrow> string"

record fs_file =
  f_content :: string
  f_mode :: nat
  f_group :: "string option"

text \<open>\<open>tx\<close> is the database as the open transaction sees it, \<open>None\<close> outside a transaction.\<close>

record world =
  disk :: database
  tx :: "database option"
  files :: "string \<Rightarrow> fs_file option"
  tick :: nat
  env :: environment

type_synonym 'a wop = "(world, 'a) op"

definition view :: "world \<Rightarrow> database" where
  "view w = (case tx w of None \<Rightarrow> disk w | Some d \<Rightarrow> d)"

definition next_tick :: "world \<Rightarrow> world" where
  "next_tick w = w\<lparr>tick := Suc (tick w)\<rparr>"

text \<open>A world for examples: nothing fails, and the clock stands still.\<close>

definition quiet_env :: environment where
  "quiet_env = \<lparr> sql_fault = (\<lambda>_. False), io_fault = (\<lambda>_. False), io_partial = (\<lambda>_. 0), clock = (\<lambda>_. ''2026-01-01T00:00:00+00:00''),
     random_nat = (\<lambda>n. n), wg_genkey = (\<lambda>_. Some ''priv''), wg_pubkey = (\<lambda>_. Some ''pub''),
     sha256_hex = (\<lambda>s. s) \<rparr>"

definition start_world :: "database \<Rightarrow> world" where
  "start_world d = \<lparr> disk = d, tx = None, files = (\<lambda>_. None), tick = 0, env = quiet_env \<rparr>"

lemma start_world_simps [simp]:
  "disk (start_world d) = d" "tx (start_world d) = None" "files (start_world d) = (\<lambda>_. None)"
  "tick (start_world d) = 0" "env (start_world d) = quiet_env"
  by (simp_all add: start_world_def)

lemma quiet_env_simps [simp]:
  "sql_fault quiet_env n = False" "io_fault quiet_env n = False" "io_partial quiet_env n = 0"
  "clock quiet_env n = ''2026-01-01T00:00:00+00:00''" "random_nat quiet_env n = n"
  "wg_genkey quiet_env n = Some ''priv''" "wg_pubkey quiet_env s = Some ''pub''" "sha256_hex quiet_env s = s"
  by (simp_all add: quiet_env_def)

section \<open>Statements and transactions\<close>

text \<open>
  \<open>conn.execute\<close> on a query reads what the connection sees. A statement that writes opens
  a transaction when none is open (the module's default isolation level) and a constraint
  violation undoes the statement, not the transaction. A schema statement opens none: outside
  a transaction it is durable at once. Any statement may fail with \<open>sqlite3.Error\<close>.
\<close>

definition sql_query :: "(database \<Rightarrow> 'a) \<Rightarrow> 'a wop" where
  "sql_query f = (\<lambda>w. if sql_fault (env w) (tick w) then (Inl SqliteError, next_tick w)
     else (Inr (f (view w)), next_tick w))"

definition sql_dml :: "(database \<Rightarrow> ('a \<times> database) result) \<Rightarrow> 'a wop" where
  "sql_dml f = (\<lambda>w. if sql_fault (env w) (tick w) then (Inl SqliteError, next_tick w)
     else case f (view w) of
       Inl e \<Rightarrow> (Inl e, (next_tick w)\<lparr>tx := Some (view w)\<rparr>)
     | Inr (x, d) \<Rightarrow> (Inr x, (next_tick w)\<lparr>tx := Some d\<rparr>))"

definition sql_ddl :: "(database \<Rightarrow> database result) \<Rightarrow> unit wop" where
  "sql_ddl f = (\<lambda>w. if sql_fault (env w) (tick w) then (Inl SqliteError, next_tick w)
     else case f (view w) of
       Inl e \<Rightarrow> (Inl e, next_tick w)
     | Inr d \<Rightarrow> (Inr (), case tx w of None \<Rightarrow> (next_tick w)\<lparr>disk := d\<rparr>
                          | Some _ \<Rightarrow> (next_tick w)\<lparr>tx := Some d\<rparr>))"

definition commit :: "unit wop" where
  "commit = (\<lambda>w. case tx w of
       None \<Rightarrow> (Inr (), next_tick w)
     | Some d \<Rightarrow>
         if sql_fault (env w) (tick w) then (Inl SqliteError, next_tick w)
         else (Inr (), (next_tick w)\<lparr>disk := d, tx := None\<rparr>))"

definition rollback :: "unit wop" where
  "rollback = modify_state (\<lambda>w. w\<lparr>tx := None\<rparr>)"

text \<open>\<open>conn.close()\<close> drops an uncommitted transaction.\<close>

definition close_conn :: "world \<Rightarrow> world" where
  "close_conn w = w\<lparr>tx := None\<rparr>"

text \<open>
  \<open>executescript\<close> commits an open transaction and then runs every statement in autocommit
  mode, so each statement is durable when it succeeds.
\<close>

definition executescript :: "(database \<Rightarrow> database result) list \<Rightarrow> unit wop" where
  "executescript stmts = bnd commit (\<lambda>_. for_each sql_ddl stmts)"

definition now_iso :: "string wop" where
  "now_iso = (\<lambda>w. (Inr (clock (env w) (tick w)), next_tick w))"

text \<open>
  The shape of every writing method of the stores:
  \<open>try: body; commit() except sqlite3.Error: rollback(); raise DatabaseError(msg)\<close>.
\<close>

definition with_tx :: "(exn \<Rightarrow> string) \<Rightarrow> 'a wop \<Rightarrow> 'a wop" where
  "with_tx msg body = try_except (bnd body (\<lambda>x. bnd commit (\<lambda>_. ret x)))
     (\<lambda>e. if is_sqlite_error e then bnd rollback (\<lambda>_. raise (DatabaseError (msg e))) else raise e)"

text \<open>\<open>try: query except sqlite3.Error: raise DatabaseError(msg)\<close>.\<close>

definition wrap_db :: "string \<Rightarrow> 'a wop \<Rightarrow> 'a wop" where
  "wrap_db msg m = try_except m (\<lambda>e. if is_sqlite_error e then raise (DatabaseError msg) else raise e)"

text \<open>\<open>except DatabaseError as exc: raise Dn42CtlError(str(exc))\<close>.\<close>

fun is_database_error :: "exn \<Rightarrow> bool" where
  "is_database_error (DatabaseError _) = True"
| "is_database_error _ = False"

definition as_ctl_error :: "'a wop \<Rightarrow> 'a wop" where
  "as_ctl_error m = reraise_as is_database_error Dn42CtlError m"

section \<open>Well-formed databases\<close>

text \<open>Ids of an \<open>AUTOINCREMENT\<close> table: increasing, and none above the sequence.\<close>

definition ids_ok :: "nat list \<Rightarrow> nat \<Rightarrow> bool" where
  "ids_ok ids seq = (sorted_wrt (<) ids \<and> (\<forall>i \<in> set ids. 0 < i \<and> i \<le> seq))"

definition wf_peers :: "database \<Rightarrow> bool" where
  "wf_peers d =
    (distinct (map n_node_id (nodes d))
     \<and> distinct (map (\<lambda>r. (p_node_id r, p_peer_asn r)) (bgp_peers d))
     \<and> distinct (map (\<lambda>r. (p_node_id r, p_ifname r)) (bgp_peers d))
     \<and> (\<forall>r \<in> set (bgp_peers d). has_node d (p_node_id r))
     \<and> distinct (map (\<lambda>r. (p_node_id r, p_name r)) (ibgp_peers d))
     \<and> distinct (map (\<lambda>r. (p_node_id r, p_ifname r)) (ibgp_peers d))
     \<and> (\<forall>r \<in> set (ibgp_peers d). has_node d (p_node_id r)))"

definition wf_managed :: "database \<Rightarrow> bool" where
  "wf_managed d =
    (distinct (map mn_node_id (managed_nodes d))
     \<and> (\<forall>m \<in> set (managed_nodes d). has_node d (mn_node_id m))
     \<and> self_index_ok d)"

definition wf_queues :: "database \<Rightarrow> bool" where
  "wf_queues d =
    (ids_ok (map cp_id (config_proposals d)) (proposals_seq d)
     \<and> (\<forall>p \<in> set (config_proposals d). has_node d (cp_node_id p))
     \<and> ids_ok (map nr_id (node_reports d)) (reports_seq d)
     \<and> (\<forall>r \<in> set (node_reports d). has_node d (nr_node_id r))
     \<and> ids_ok (map se_id (sync_events d)) (events_seq d))"

definition pins_ok :: "database \<Rightarrow> bool" where
  "pins_ok d = (\<forall>p \<in> set (node_desired_pin d).
     (dp_node_id p, dp_revision p) \<in> set (map (\<lambda>r. (cr_node_id r, cr_revision r)) (config_revisions d)))"

definition wf_revisions :: "database \<Rightarrow> bool" where
  "wf_revisions d =
    (ids_ok (map cr_id (config_revisions d)) (revisions_seq d)
     \<and> distinct (map (\<lambda>r. (cr_node_id r, cr_revision r)) (config_revisions d))
     \<and> (\<forall>r \<in> set (config_revisions d). has_node d (cr_node_id r))
     \<and> distinct (map dp_node_id (node_desired_pin d))
     \<and> (\<forall>p \<in> set (node_desired_pin d). has_node d (dp_node_id p))
     \<and> pins_ok d)"

definition wf_db :: "database \<Rightarrow> bool" where
  "wf_db d = (wf_peers d \<and> wf_managed d \<and> wf_queues d \<and> wf_revisions d)"

definition wf_world :: "world \<Rightarrow> bool" where
  "wf_world w = (wf_db (disk w) \<and> wf_db (view w))"

lemmas wf_defs = wf_db_def wf_peers_def wf_managed_def wf_queues_def wf_revisions_def

section \<open>Lemmas\<close>

lemma ids_ok_append: "ids_ok ids seq \<Longrightarrow> ids_ok (ids @ [Suc seq]) (Suc seq)"
  by (auto simp: ids_ok_def sorted_wrt_append less_Suc_eq_le)

lemma ids_ok_filter: "ids_ok (map f xs) seq \<Longrightarrow> ids_ok (map f (filter p xs)) seq"
  by (auto simp: ids_ok_def sorted_wrt_map sorted_wrt_filter)

lemma ids_ok_distinct: "ids_ok ids seq \<Longrightarrow> distinct ids"
  by (auto simp: ids_ok_def strict_sorted_iff)

lemma ids_ok_fresh: "ids_ok ids seq \<Longrightarrow> Suc seq \<notin> set ids"
  by (auto simp: ids_ok_def)

lemma tick_simps [simp]:
  "disk (next_tick w) = disk w" "tx (next_tick w) = tx w" "env (next_tick w) = env w"
  "files (next_tick w) = files w" "view (next_tick w) = view w"
  by (simp_all add: next_tick_def view_def split: option.splits)

lemma view_simps [simp]:
  "view (w\<lparr>tx := Some d\<rparr>) = d" "view (w\<lparr>tx := None\<rparr>) = disk w"
  "view (w\<lparr>disk := d, tx := None\<rparr>) = d"
  "view (w\<lparr>files := fs\<rparr>) = view w"
  by (simp_all add: view_def split: option.splits)

lemma view_no_tx: "tx w = None \<Longrightarrow> view w = disk w"
  by (simp add: view_def)

section \<open>Tables with a key\<close>

text \<open>
  What the stores rely on when they look a row up by its key: a table of the database, the
  operation that replaces its rows, and the key of a row.
\<close>

locale keyed_table =
  fixes rows :: "database \<Rightarrow> 'r list"
    and put :: "'r list \<Rightarrow> database \<Rightarrow> database"
    and key :: "'r \<Rightarrow> 'k"
  assumes rows_put: "rows (put rs d) = rs"
    and put_rows: "put (rows d) d = d"
begin

lemma lookup_inserted:
  assumes "key x \<notin> key ` set (rows d)"
  shows "List.find (\<lambda>r. key r = key x) (rows (put (rows d @ [x]) d)) = Some x"
proof -
  have "List.find (\<lambda>r. key r = key x) (rows d) = None"
    using assms by (simp add: find_None_set) (metis imageI)
  then show ?thesis by (simp add: rows_put find_append)
qed

lemma lookup_inserted_other:
  "k \<noteq> key x \<Longrightarrow> List.find (\<lambda>r. key r = k) (rows (put (rows d @ [x]) d)) = List.find (\<lambda>r. key r = k) (rows d)"
  by (auto simp: rows_put find_append split: option.splits)

lemma lookup_removed:
  "List.find (\<lambda>r. key r = k) (rows (put (filter (\<lambda>r. key r \<noteq> k) (rows d)) d)) = None"
  by (auto simp: rows_put find_None_set)

lemma lookup_removed_other:
  assumes "k' \<noteq> k"
  shows "List.find (\<lambda>r. key r = k') (rows (put (filter (\<lambda>r. key r \<noteq> k) (rows d)) d)) = List.find (\<lambda>r. key r = k') (rows d)"
proof -
  have "List.find (\<lambda>r. key r = k') (filter (\<lambda>r. key r \<noteq> k) xs) = List.find (\<lambda>r. key r = k') xs" for xs
    using assms by (induction xs) auto
  then show ?thesis by (simp add: rows_put)
qed

lemma lookup_updated:
  "(\<And>r. key (f r) = key r) \<Longrightarrow>
   List.find (\<lambda>r. key r = k) (rows (put (map (\<lambda>r. if key r = k then f r else r) (rows d)) d))
     = map_option f (List.find (\<lambda>r. key r = k) (rows d))"
  by (simp add: rows_put find_map_update)

lemma remove_absent: "k \<notin> key ` set (rows d) \<Longrightarrow> put (filter (\<lambda>r. key r \<noteq> k) (rows d)) d = d"
proof -
  assume "k \<notin> key ` set (rows d)"
  then have "filter (\<lambda>r. key r \<noteq> k) (rows d) = rows d" by (auto simp: filter_id_conv)
  then show ?thesis by (simp add: put_rows)
qed

end

text \<open>Invariants of the database are kept by the combinators when the statements keep them.\<close>

definition keeps :: "(database \<Rightarrow> bool) \<Rightarrow> (database \<Rightarrow> ('a \<times> database) result) \<Rightarrow> bool" where
  "keeps P f \<longleftrightarrow> (\<forall>d x d'. P d \<longrightarrow> f d = Inr (x, d') \<longrightarrow> P d')"

definition on_world :: "(database \<Rightarrow> bool) \<Rightarrow> world \<Rightarrow> bool" where
  "on_world P w = (P (disk w) \<and> P (view w))"

lemma wf_world_on: "wf_world = on_world wf_db"
  by (simp add: fun_eq_iff wf_world_def on_world_def)

lemma preserves_sql_query [preserve]: "preserves (on_world P) (sql_query f)"
  by (auto simp: preserves_def sql_query_def on_world_def)

lemma preserves_sql_dml [preserve]: "keeps P f \<Longrightarrow> preserves (on_world P) (sql_dml f)"
  by (auto simp: preserves_def sql_dml_def on_world_def keeps_def split: sum.splits)

lemma preserves_sql_ddl [preserve]:
  "(\<And>d d'. P d \<Longrightarrow> f d = Inr d' \<Longrightarrow> P d') \<Longrightarrow> preserves (on_world P) (sql_ddl f)"
  by (auto simp: preserves_def sql_ddl_def on_world_def view_def split: sum.splits option.splits)

lemma preserves_commit [preserve]: "preserves (on_world P) commit"
  by (auto simp: preserves_def commit_def on_world_def view_def split: option.splits)

lemma preserves_rollback [preserve]: "preserves (on_world P) rollback"
  by (auto simp: rollback_def on_world_def intro!: preserves_modify)

lemma preserves_now_iso [preserve]: "preserves (on_world P) now_iso"
  by (auto simp: preserves_def now_iso_def on_world_def)

lemma on_world_close [preserve]: "on_world P w \<Longrightarrow> on_world P (close_conn w)"
  by (simp add: on_world_def close_conn_def)

lemma with_tx_end:
  assumes "on_world P (snd (body w))"
  shows "on_world P (snd (with_tx msg body w))"
proof (cases "body w")
  case (Pair r w')
  with assms have w': "on_world P w'" by simp
  have c: "on_world P (snd (commit w'))" by (rule preservesD [OF preserves_commit w'])
  have rb: "on_world P (snd (rollback v))" if "on_world P v" for v
    by (rule preservesD [OF preserves_rollback that])
  have h: "on_world P (snd ((if is_sqlite_error e then bnd rollback (\<lambda>_. raise (DatabaseError (msg e))) else raise e) v))"
    if "on_world P v" for e v
    using rb [OF that] that by (simp add: bnd_def raise_def rollback_def modify_state_def)
  show ?thesis
  proof (cases r)
    case (Inl e)
    with Pair h [OF w', of e] show ?thesis by (simp add: with_tx_def try_except_def bnd_def)
  next
    case (Inr x)
    obtain s v where sv: "commit w' = (s, v)" by (cases "commit w'")
    with c have v: "on_world P v" by simp
    show ?thesis
    proof (cases s)
      case (Inl e)
      with Pair Inr sv h [OF v, of e] show ?thesis by (simp add: with_tx_def try_except_def bnd_def)
    next
      case (Inr y)
      with Pair \<open>r = Inr x\<close> sv v show ?thesis by (simp add: with_tx_def try_except_def bnd_def ret_def)
    qed
  qed
qed

lemma preserves_with_tx [preserve]:
  "preserves (on_world P) body \<Longrightarrow> preserves (on_world P) (with_tx msg body)"
  unfolding with_tx_def by (auto intro!: preserve)

lemma preserves_wrap_db [preserve]:
  "preserves P m \<Longrightarrow> preserves P (wrap_db msg m)"
  unfolding wrap_db_def by (auto intro!: preserve)

lemma preserves_as_ctl [preserve]:
  "preserves P m \<Longrightarrow> preserves P (as_ctl_error m)"
  unfolding as_ctl_error_def by (rule preserve)

section \<open>Transactions are atomic\<close>

text \<open>
  \<open>tx_body m\<close>: the statements of \<open>m\<close> leave the durable database alone, and an exception
  that is not a \<open>sqlite3.Error\<close> is raised only after a rollback. \<open>atomic_op m\<close>: started outside
  a transaction \<open>m\<close> ends outside one, and if it raises, the durable database is what it was.
\<close>

named_theorems atomic \<open>rules for transaction bodies and atomic operations\<close>

definition tx_body :: "'a wop \<Rightarrow> bool" where
  "tx_body m \<longleftrightarrow> (\<forall>w. disk (snd (m w)) = disk w \<and>
     (\<forall>e. fst (m w) = Inl e \<longrightarrow> is_sqlite_error e \<or> tx (snd (m w)) = None))"

definition atomic_op :: "'a wop \<Rightarrow> bool" where
  "atomic_op m \<longleftrightarrow> (\<forall>w. tx w = None \<longrightarrow> tx (snd (m w)) = None \<and>
     (\<forall>e. fst (m w) = Inl e \<longrightarrow> disk (snd (m w)) = disk w))"

text \<open>\<open>read_only m\<close>: neither the durable database nor the transaction changes.\<close>

definition read_only :: "'a wop \<Rightarrow> bool" where
  "read_only m \<longleftrightarrow> (\<forall>w. disk (snd (m w)) = disk w \<and> tx (snd (m w)) = tx w)"

lemma tx_body_query [atomic]: "tx_body (sql_query f)"
  by (simp add: tx_body_def sql_query_def)

lemma tx_body_now [atomic]: "tx_body now_iso"
  by (simp add: tx_body_def now_iso_def)

lemma tx_body_ret [atomic]: "tx_body (ret x)"
  by (simp add: tx_body_def ret_def)

definition sqlite_only :: "(database \<Rightarrow> 'a result) \<Rightarrow> bool" where
  "sqlite_only f \<longleftrightarrow> (\<forall>d e. f d = Inl e \<longrightarrow> is_sqlite_error e)"

lemma tx_body_dml [atomic]: "sqlite_only f \<Longrightarrow> tx_body (sql_dml f)"
  by (auto simp: tx_body_def sql_dml_def sqlite_only_def split: sum.splits)

lemma tx_body_rollback_raise [atomic]: "tx_body (bnd rollback (\<lambda>_. raise e))"
  by (simp add: tx_body_def rollback_def bnd_def modify_state_def raise_def)

lemma tx_body_bnd [atomic]:
  assumes "tx_body m" and "\<And>x. tx_body (f x)"
  shows "tx_body (bnd m f)"
  unfolding tx_body_def
proof (intro allI)
  fix w
  show "disk (snd (bnd m f w)) = disk w \<and>
    (\<forall>e. fst (bnd m f w) = Inl e \<longrightarrow> is_sqlite_error e \<or> tx (snd (bnd m f w)) = None)"
  proof (cases "m w")
    case (Pair r w')
    with assms(1) have m: "disk w' = disk w" "r = Inl e \<Longrightarrow> is_sqlite_error e \<or> tx w' = None" for e
      by (auto simp: tx_body_def dest: spec [where x = w])
    show ?thesis
    proof (cases r)
      case (Inl e)
      with Pair m show ?thesis by (simp add: bnd_def)
    next
      case (Inr x)
      with Pair m assms(2) [of x] show ?thesis by (simp add: bnd_def tx_body_def)
    qed
  qed
qed

lemma tx_body_if [atomic]: "(b \<Longrightarrow> tx_body m) \<Longrightarrow> (\<not> b \<Longrightarrow> tx_body n) \<Longrightarrow> tx_body (if b then m else n)"
  by simp

lemma tx_body_option [atomic]:
  "(x = None \<Longrightarrow> tx_body m) \<Longrightarrow> (\<And>y. x = Some y \<Longrightarrow> tx_body (f y)) \<Longrightarrow>
   tx_body (case x of None \<Rightarrow> m | Some y \<Rightarrow> f y)"
  by (cases x) auto

lemma tx_body_for_each [atomic]: "(\<And>x. x \<in> set xs \<Longrightarrow> tx_body (f x)) \<Longrightarrow> tx_body (for_each f xs)"
  by (induction xs) (auto intro: atomic)

lemma atomic_with_tx [atomic]:
  assumes "tx_body body"
  shows "atomic_op (with_tx msg body)"
  unfolding atomic_op_def
proof (intro allI impI)
  fix w :: world
  assume "tx w = None"
  obtain r w' where b: "body w = (r, w')" by (cases "body w")
  with assms have d: "disk w' = disk w" and e: "r = Inl e \<Longrightarrow> is_sqlite_error e \<or> tx w' = None" for e
    by (auto simp: tx_body_def dest: spec [where x = w])
  show "tx (snd (with_tx msg body w)) = None \<and>
      (\<forall>e. fst (with_tx msg body w) = Inl e \<longrightarrow> disk (snd (with_tx msg body w)) = disk w)"
  proof (cases r)
    case (Inl x)
    with b d e [OF Inl] show ?thesis
      by (auto simp: with_tx_def op_defs rollback_def)
  next
    case (Inr x)
    with b d show ?thesis
      by (auto simp: with_tx_def op_defs rollback_def commit_def split: option.splits)
  qed
qed

lemma atomic_read: "read_only m \<Longrightarrow> atomic_op m"
  by (auto simp: read_only_def atomic_op_def)

lemma read_onlyD:
  assumes "read_only m" and "m w = (x, w')"
  shows "disk w' = disk w" and "tx w' = tx w" and "view w' = view w"
proof -
  from assms show d: "disk w' = disk w" and t: "tx w' = tx w" by (metis read_only_def snd_conv)+
  show "view w' = view w" unfolding view_def d t ..
qed

lemma preserves_read_only: "read_only m \<Longrightarrow> preserves (on_world P) m"
  unfolding preserves_def on_world_def
proof (intro allI impI)
  fix w
  assume "read_only m" and "P (disk w) \<and> P (view w)"
  then show "P (disk (snd (m w))) \<and> P (view (snd (m w)))"
    using read_onlyD [of m w "fst (m w)" "snd (m w)"] by simp
qed

lemma read_only_query [atomic]: "read_only (sql_query f)"
  by (simp add: read_only_def sql_query_def)

lemma read_only_wrap [atomic]: "read_only m \<Longrightarrow> read_only (wrap_db msg m)"
  by (auto simp: read_only_def wrap_db_def try_except_def raise_def split: prod.splits sum.splits)
    (metis snd_conv)+

lemma read_only_now [atomic]: "read_only now_iso"
  by (simp add: read_only_def now_iso_def)

lemma read_only_ret [atomic]: "read_only (ret x)" "read_only (raise e)" "read_only (lift_result r)"
  by (simp_all add: read_only_def ret_def raise_def lift_result_def)

lemma atomic_ret [atomic]: "atomic_op (ret x)" "atomic_op (raise e)"
  by (simp_all add: atomic_op_def ret_def raise_def)

lemma atomic_if [atomic]:
  "(b \<Longrightarrow> atomic_op m) \<Longrightarrow> (\<not> b \<Longrightarrow> atomic_op n) \<Longrightarrow> atomic_op (if b then m else n)"
  by simp

lemma atomic_option [atomic]:
  "(x = None \<Longrightarrow> atomic_op m) \<Longrightarrow> (\<And>y. x = Some y \<Longrightarrow> atomic_op (f y)) \<Longrightarrow>
   atomic_op (case x of None \<Rightarrow> m | Some y \<Rightarrow> f y)"
  by (cases x) auto

lemma read_only_bnd [atomic]:
  "read_only m \<Longrightarrow> (\<And>x. read_only (f x)) \<Longrightarrow> read_only (bnd m f)"
  by (auto simp: read_only_def bnd_def split: prod.splits sum.splits) (metis snd_conv)+

lemma atomic_read_first [atomic]:
  assumes "read_only m" and "\<And>x. atomic_op (f x)"
  shows "atomic_op (bnd m f)"
  unfolding atomic_op_def
proof (intro allI impI)
  fix w :: world
  assume "tx w = None"
  moreover obtain r w' where m: "m w = (r, w')" by (cases "m w")
  moreover from m assms(1) have "disk w' = disk w" and "tx w' = tx w"
    by (metis read_only_def snd_conv)+
  ultimately show "tx (snd (bnd m f w)) = None \<and>
      (\<forall>e. fst (bnd m f w) = Inl e \<longrightarrow> disk (snd (bnd m f w)) = disk w)"
    using assms(2) by (cases r) (auto simp: bnd_def atomic_op_def)
qed

lemma atomic_then_ret:
  assumes "atomic_op m"
  shows "atomic_op (bnd m (\<lambda>x. ret (f x)))"
  unfolding atomic_op_def
proof (intro allI impI)
  fix w :: world
  assume "tx w = None"
  moreover obtain r w' where "m w = (r, w')" by (cases "m w")
  ultimately show "tx (snd (bnd m (\<lambda>x. ret (f x)) w)) = None \<and>
      (\<forall>e. fst (bnd m (\<lambda>x. ret (f x)) w) = Inl e \<longrightarrow> disk (snd (bnd m (\<lambda>x. ret (f x)) w)) = disk w)"
    using assms by (cases r) (auto simp: bnd_def ret_def atomic_op_def dest: spec [where x = w])
qed

section \<open>What an operation does when it returns\<close>

text \<open>
  \<open>op_spec m R\<close>: whenever \<open>m\<close> returns \<open>x\<close>, the databases the connection sees before and after
  are related by \<open>R\<close>.
\<close>

named_theorems specs \<open>rules for what operations do when they return\<close>

definition op_spec :: "'a wop \<Rightarrow> (database \<Rightarrow> 'a \<Rightarrow> database \<Rightarrow> bool) \<Rightarrow> bool" where
  "op_spec m R \<longleftrightarrow> (\<forall>w x. fst (m w) = Inr x \<longrightarrow> R (view w) x (view (snd (m w))))"

lemma op_specD: "op_spec m R \<Longrightarrow> m w = (Inr x, w') \<Longrightarrow> R (view w) x (view w')"
  by (metis fst_conv op_spec_def snd_conv)

lemma op_spec_conseq: "op_spec m R \<Longrightarrow> (\<And>d x d'. R d x d' \<Longrightarrow> S d x d') \<Longrightarrow> op_spec m S"
  by (auto simp: op_spec_def)

lemma op_spec_query [specs]: "op_spec (sql_query f) (\<lambda>d x d'. x = f d \<and> d' = d)"
  by (auto simp: op_spec_def sql_query_def)

lemma op_spec_dml [specs]: "op_spec (sql_dml f) (\<lambda>d x d'. f d = Inr (x, d'))"
  by (auto simp: op_spec_def sql_dml_def split: sum.splits)

lemma op_spec_now [specs]: "op_spec now_iso (\<lambda>d x d'. d' = d)"
  by (auto simp: op_spec_def now_iso_def)

lemma op_spec_ret [specs]: "op_spec (ret y) (\<lambda>d x d'. x = y \<and> d' = d)"
  by (auto simp: op_spec_def ret_def)

lemma op_spec_raise [specs]: "op_spec (raise e) (\<lambda>d x d'. False)"
  by (auto simp: op_spec_def raise_def)

lemma op_spec_lift [specs]: "op_spec (lift_result r) (\<lambda>d x d'. r = Inr x \<and> d' = d)"
  by (auto simp: op_spec_def lift_result_def)

lemma op_spec_bnd [specs]:
  assumes "op_spec m R" and "\<And>x. op_spec (f x) (S x)"
  shows "op_spec (bnd m f) (\<lambda>d y d''. \<exists>x d'. R d x d' \<and> S x d' y d'')"
  unfolding op_spec_def
proof (intro allI impI)
  fix w y
  assume a: "fst (bnd m f w) = Inr y"
  then obtain x w' where m: "m w = (Inr x, w')"
    by (auto simp: bnd_def split: prod.splits sum.splits)
  with a have f: "f x w' = (Inr y, snd (f x w'))" by (simp add: bnd_def prod_eq_iff)
  from op_specD [OF assms(1) m] op_specD [OF assms(2) f] m
  show "\<exists>x d'. R (view w) x d' \<and> S x d' y (view (snd (bnd m f w)))"
    by (auto simp: bnd_def)
qed

lemma op_spec_if [specs]:
  "op_spec m R \<Longrightarrow> op_spec n S \<Longrightarrow>
   op_spec (if b then m else n) (\<lambda>d x d'. if b then R d x d' else S d x d')"
  by simp

lemma op_spec_option [specs]:
  "op_spec m R \<Longrightarrow> (\<And>y. op_spec (f y) (S y)) \<Longrightarrow>
   op_spec (case z of None \<Rightarrow> m | Some y \<Rightarrow> f y)
     (\<lambda>d x d'. case z of None \<Rightarrow> R d x d' | Some y \<Rightarrow> S y d x d')"
  by (cases z) auto

lemma op_spec_rollback [specs]: "op_spec rollback (\<lambda>d x d'. True)"
  by (auto simp: op_spec_def)

lemma op_spec_rollback_raise: "op_spec (bnd rollback (\<lambda>_. raise e)) (\<lambda>d x d'. False)"
  by (auto simp: op_spec_def bnd_def raise_def rollback_def modify_state_def)

lemma op_spec_commit: "op_spec commit (\<lambda>d x d'. d' = d)"
  by (auto simp: op_spec_def commit_def view_def split: option.splits if_splits)

lemma op_spec_try [specs]:
  assumes "op_spec m R" and "\<And>e. op_spec (h e) (\<lambda>d x d'. False)"
  shows "op_spec (try_except m h) R"
  unfolding op_spec_def
proof (intro allI impI)
  fix w x
  assume "fst (try_except m h w) = Inr x"
  moreover have "fst (h e w') \<noteq> Inr x" for e w' using assms(2) by (auto simp: op_spec_def)
  ultimately have "m w = (Inr x, snd (try_except m h w))"
    by (auto simp: try_except_def split: prod.splits sum.splits)
  from op_specD [OF assms(1) this] show "R (view w) x (view (snd (try_except m h w)))" .
qed

lemma op_spec_with_tx [specs]: "op_spec body R \<Longrightarrow> op_spec (with_tx msg body) R"
  unfolding with_tx_def
  by (rule op_spec_try, rule op_spec_conseq, (rule op_spec_bnd op_spec_commit op_spec_ret | assumption)+)
    (auto intro!: op_spec_conseq [OF op_spec_raise] op_spec_rollback_raise)

lemma op_spec_wrap [specs]: "op_spec m R \<Longrightarrow> op_spec (wrap_db msg m) R"
  unfolding wrap_db_def by (rule op_spec_try) (auto intro: specs)

lemma op_spec_ctl [specs]: "op_spec m R \<Longrightarrow> op_spec (as_ctl_error m) R"
  unfolding as_ctl_error_def reraise_as_def by (rule op_spec_try) (auto intro: specs)

text \<open>The two together: the durable database after an atomic operation.\<close>

lemma atomic_outcome:
  assumes "atomic_op m" and "op_spec m R" and "tx w = None"
  shows "case m w of
     (Inl e, w') \<Rightarrow> disk w' = disk w \<and> tx w' = None
   | (Inr x, w') \<Rightarrow> R (disk w) x (disk w') \<and> tx w' = None"
proof (cases "m w")
  case (Pair r w')
  with assms(1,3) have tx: "tx w' = None" and err: "r = Inl e \<Longrightarrow> disk w' = disk w" for e
    by (auto simp: atomic_op_def dest: spec [where x = w])
  show ?thesis
  proof (cases r)
    case (Inl e)
    with Pair tx err show ?thesis by simp
  next
    case (Inr x)
    with Pair op_specD [OF assms(2), of w x w'] tx assms(3) show ?thesis by (simp add: view_no_tx)
  qed
qed

lemma atomic_returns:
  "atomic_op m \<Longrightarrow> op_spec m R \<Longrightarrow> tx w = None \<Longrightarrow> m w = (Inr x, w') \<Longrightarrow>
   R (disk w) x (disk w') \<and> tx w' = None"
  using atomic_outcome [of m R w] by simp

lemma atomic_raises:
  "atomic_op m \<Longrightarrow> tx w = None \<Longrightarrow> m w = (Inl e, w') \<Longrightarrow> disk w' = disk w \<and> tx w' = None"
  by (metis atomic_op_def fst_conv snd_conv)

text \<open>
  A write followed by a read that may raise: the durable database is either untouched or
  fully updated, and fully updated whenever the operation returns.
\<close>

definition all_or_nothing :: "'a wop \<Rightarrow> (database \<Rightarrow> database \<Rightarrow> bool) \<Rightarrow> bool" where
  "all_or_nothing m R \<longleftrightarrow> (\<forall>w. tx w = None \<longrightarrow> tx (snd (m w)) = None \<and>
     (R (disk w) (disk (snd (m w))) \<or> (\<exists>e. fst (m w) = Inl e) \<and> disk (snd (m w)) = disk w))"

lemma all_or_nothing_atomic:
  assumes "atomic_op m" and "op_spec m (\<lambda>d x d'. R d d')"
  shows "all_or_nothing m R"
  unfolding all_or_nothing_def
proof (intro allI impI)
  fix w :: world
  assume "tx w = None"
  from atomic_outcome [OF assms this]
  show "tx (snd (m w)) = None \<and>
     (R (disk w) (disk (snd (m w))) \<or> (\<exists>e. fst (m w) = Inl e) \<and> disk (snd (m w)) = disk w)"
    by (auto split: prod.splits sum.splits)
qed

lemma all_or_nothing_then_read:
  assumes "all_or_nothing m R" and "\<And>x. read_only (g x)"
  shows "all_or_nothing (bnd m g) R"
  unfolding all_or_nothing_def
proof (intro allI impI)
  fix w :: world
  assume "tx w = None"
  moreover obtain r w' where m: "m w = (r, w')" by (cases "m w")
  moreover have "disk (snd (g x w')) = disk w'" and "tx (snd (g x w')) = tx w'" for x
    using assms(2) by (auto simp: read_only_def)
  ultimately show "tx (snd (bnd m g w)) = None \<and>
     (R (disk w) (disk (snd (bnd m g w))) \<or> (\<exists>e. fst (bnd m g w) = Inl e) \<and> disk (snd (bnd m g w)) = disk w)"
    using assms(1) by (cases r) (auto simp: bnd_def all_or_nothing_def dest: spec [where x = w])
qed

lemma all_or_nothing_after_read:
  assumes "read_only g" and "\<And>x. all_or_nothing (m x) R"
  shows "all_or_nothing (bnd g m) R"
  unfolding all_or_nothing_def
proof (intro allI impI)
  fix w :: world
  assume "tx w = None"
  moreover obtain r w' where g: "g w = (r, w')" by (cases "g w")
  moreover have "disk w' = disk w" and "tx w' = tx w"
    using assms(1) g by (metis read_only_def snd_conv)+
  moreover have "tx w' = None \<longrightarrow> tx (snd (m x w')) = None \<and>
     (R (disk w') (disk (snd (m x w'))) \<or> (\<exists>e. fst (m x w') = Inl e) \<and> disk (snd (m x w')) = disk w')" for x
    using assms(2) unfolding all_or_nothing_def by blast
  ultimately show "tx (snd (bnd g m w)) = None \<and>
     (R (disk w) (disk (snd (bnd g m w))) \<or> (\<exists>e. fst (bnd g m w) = Inl e) \<and> disk (snd (bnd g m w)) = disk w)"
    by (cases r) (simp_all add: bnd_def)
qed

lemma all_or_nothingD:
  assumes "all_or_nothing m R" and "tx w = None" and "m w = (r, w')"
  shows "tx w' = None" and "R (disk w) (disk w') \<or> disk w' = disk w" and "r = Inr x \<Longrightarrow> R (disk w) (disk w')"
  using assms by (auto simp: all_or_nothing_def dest: spec [where x = w])

section \<open>Services\<close>

text \<open>
  \<open>outcome m R Q\<close>: started outside a transaction, \<open>m\<close> ends outside one; if it returns \<open>x\<close> the
  durable databases before and after are related by \<open>R\<close>, and if it raises, by \<open>Q\<close>. The rules
  compose the writes and reads of a service, which is not one transaction.
\<close>

named_theorems services \<open>rules for what services leave durable\<close>

definition outcome :: "'a wop \<Rightarrow> (database \<Rightarrow> 'a \<Rightarrow> database \<Rightarrow> bool) \<Rightarrow> (database \<Rightarrow> database \<Rightarrow> bool) \<Rightarrow> bool" where
  "outcome m R Q \<longleftrightarrow> (\<forall>w. tx w = None \<longrightarrow> tx (snd (m w)) = None \<and>
     (case fst (m w) of Inr x \<Rightarrow> R (disk w) x (disk (snd (m w))) | Inl e \<Rightarrow> Q (disk w) (disk (snd (m w)))))"

lemma outcomeI:
  "(\<And>w r w'. tx w = None \<Longrightarrow> m w = (r, w') \<Longrightarrow> tx w' = None \<and>
      (case r of Inr x \<Rightarrow> R (disk w) x (disk w') | Inl e \<Rightarrow> Q (disk w) (disk w'))) \<Longrightarrow> outcome m R Q"
  by (simp add: outcome_def) (metis prod.collapse)

lemma outcomeD:
  assumes "outcome m R Q" and "tx w = None" and "m w = (r, w')"
  shows "tx w' = None" and "r = Inr x \<Longrightarrow> R (disk w) x (disk w')" and "r = Inl e \<Longrightarrow> Q (disk w) (disk w')"
  using assms by (auto simp: outcome_def dest: spec [where x = w])

lemma outcome_conseq:
  "outcome m R Q \<Longrightarrow> (\<And>d x d'. R d x d' \<Longrightarrow> S d x d') \<Longrightarrow> (\<And>d d'. Q d d' \<Longrightarrow> T d d') \<Longrightarrow> outcome m S T"
  by (fastforce simp: outcome_def split: sum.splits)

lemma outcome_atomic: "atomic_op m \<Longrightarrow> op_spec m R \<Longrightarrow> outcome m R (\<lambda>d d'. d' = d)"
proof (rule outcomeI)
  fix w r w'
  assume a: "atomic_op m" "op_spec m R" "tx w = None" "m w = (r, w')"
  from atomic_outcome [OF a(1-3)] a(4) show "tx w' = None \<and>
      (case r of Inr x \<Rightarrow> R (disk w) x (disk w') | Inl e \<Rightarrow> disk w' = disk w)"
    by (cases r) auto
qed

lemma outcome_read: "read_only m \<Longrightarrow> op_spec m R \<Longrightarrow> outcome m R (\<lambda>d d'. d' = d)"
  by (rule outcome_atomic [OF atomic_read])

text \<open>A read about which only "nothing changes" matters.\<close>

lemma outcome_quiet: "read_only m \<Longrightarrow> outcome m (\<lambda>d x d'. d' = d) (\<lambda>d d'. d' = d)"
  by (auto simp: outcome_def read_only_def split: sum.splits)

lemma outcome_bnd [services]:
  assumes "outcome m R Q" and "\<And>x. outcome (f x) (S x) (T x)"
  shows "outcome (bnd m f) (\<lambda>d y d''. \<exists>x d'. R d x d' \<and> S x d' y d'')
     (\<lambda>d d''. Q d d'' \<or> (\<exists>x d'. R d x d' \<and> T x d' d''))"
proof (rule outcomeI)
  fix w r w'
  assume w: "tx w = None" and b: "bnd m f w = (r, w')"
  obtain r1 w1 where m: "m w = (r1, w1)" by (cases "m w")
  note d = outcomeD [OF assms(1) w m]
  show "tx w' = None \<and> (case r of Inr y \<Rightarrow> \<exists>x d'. R (disk w) x d' \<and> S x d' y (disk w')
      | Inl e \<Rightarrow> Q (disk w) (disk w') \<or> (\<exists>x d'. R (disk w) x d' \<and> T x d' (disk w')))"
  proof (cases r1)
    case (Inl e)
    with m b have "r = Inl e" "w' = w1" by (simp_all add: bnd_def)
    with d(1) d(3) [OF Inl] show ?thesis by simp
  next
    case (Inr x)
    with m b have f: "f x w1 = (r, w')" by (simp add: bnd_def)
    note d' = outcomeD [OF assms(2) d(1) f]
    from d(2) [OF Inr] d'(1) d'(2) d'(3) show ?thesis by (cases r) auto
  qed
qed

lemma outcome_ret [services]: "outcome (ret y) (\<lambda>d x d'. x = y \<and> d' = d) (\<lambda>d d'. False)"
  by (simp add: outcome_def ret_def)

lemma outcome_raise [services]: "outcome (raise e) (\<lambda>d x d'. False) (\<lambda>d d'. d' = d)"
  by (simp add: outcome_def raise_def)

lemma outcome_lift [services]: "outcome (lift_result r) (\<lambda>d x d'. r = Inr x \<and> d' = d) (\<lambda>d d'. d' = d)"
  by (simp add: outcome_def lift_result_def split: sum.splits)

lemma outcome_if [services]:
  "outcome m R Q \<Longrightarrow> outcome n S T \<Longrightarrow>
   outcome (if b then m else n) (\<lambda>d x d'. if b then R d x d' else S d x d') (\<lambda>d d'. if b then Q d d' else T d d')"
  by simp

lemma outcome_option [services]:
  "outcome m R Q \<Longrightarrow> (\<And>y. outcome (f y) (S y) (T y)) \<Longrightarrow>
   outcome (case z of None \<Rightarrow> m | Some y \<Rightarrow> f y)
     (\<lambda>d x d'. case z of None \<Rightarrow> R d x d' | Some y \<Rightarrow> S y d x d') (\<lambda>d d'. case z of None \<Rightarrow> Q d d' | Some y \<Rightarrow> T y d d')"
  by (cases z) auto

lemma outcome_prod [services]:
  "(\<And>a b. outcome (f a b) (R a b) (Q a b)) \<Longrightarrow>
   outcome (case p of (a, b) \<Rightarrow> f a b) (\<lambda>d x d'. case p of (a, b) \<Rightarrow> R a b d x d') (\<lambda>d d'. case p of (a, b) \<Rightarrow> Q a b d d')"
  by (cases p) auto

lemma outcome_try:
  assumes "outcome m R Q" and "\<And>e. outcome (h e) (S e) (T e)"
  shows "outcome (try_except m h) (\<lambda>d x d''. R d x d'' \<or> (\<exists>e d'. Q d d' \<and> S e d' x d''))
     (\<lambda>d d''. \<exists>e d'. Q d d' \<and> T e d' d'')"
proof (rule outcomeI)
  fix w r w'
  assume w: "tx w = None" and b: "try_except m h w = (r, w')"
  obtain r1 w1 where m: "m w = (r1, w1)" by (cases "m w")
  note d = outcomeD [OF assms(1) w m]
  show "tx w' = None \<and> (case r of Inr x \<Rightarrow> R (disk w) x (disk w') \<or> (\<exists>e d'. Q (disk w) d' \<and> S e d' x (disk w'))
      | Inl e \<Rightarrow> \<exists>e d'. Q (disk w) d' \<and> T e d' (disk w'))"
  proof (cases r1)
    case (Inr x)
    with m b have "r = Inr x" "w' = w1" by (simp_all add: try_except_def)
    with d(1) d(2) [OF Inr] show ?thesis by simp
  next
    case (Inl e)
    with m b have h: "h e w1 = (r, w')" by (simp add: try_except_def)
    note d' = outcomeD [OF assms(2) d(1) h]
    from d(3) [OF Inl] d'(1) d'(2) d'(3) show ?thesis by (cases r) auto
  qed
qed

lemma outcome_ctl [services]: "outcome m R Q \<Longrightarrow> outcome (as_ctl_error m) R Q"
  unfolding as_ctl_error_def reraise_as_def
  by (rule outcome_conseq, rule outcome_try, assumption, (rule services)+) (auto split: if_splits)

lemma outcome_finally_close [services]: "outcome m R Q \<Longrightarrow> outcome (try_finally m close_conn) R Q"
proof (rule outcomeI)
  fix w r w'
  assume a: "outcome m R Q" and w: "tx w = None" and b: "try_finally m close_conn w = (r, w')"
  then obtain w1 where m: "m w = (r, w1)" and "w' = close_conn w1"
    by (auto simp: try_finally_def split: prod.splits)
  with outcomeD [OF a w m] show "tx w' = None \<and>
      (case r of Inr x \<Rightarrow> R (disk w) x (disk w') | Inl e \<Rightarrow> Q (disk w) (disk w'))"
    by (cases r) (auto simp: close_conn_def)
qed

text \<open>
  The same with preconditions, for the long services: \<open>triple P m R E\<close> says that from a durable
  database with \<open>P\<close>, outside a transaction, \<open>m\<close> ends outside one with \<open>R x\<close> or, if it raises,
  with \<open>E\<close>. The rules compute the precondition backwards, so that a proof about a service is
  an implication between assertions with no case left to find.
\<close>

named_theorems wp \<open>backward rules for triples\<close>

definition triple :: "(database \<Rightarrow> bool) \<Rightarrow> 'a wop \<Rightarrow> ('a \<Rightarrow> database \<Rightarrow> bool) \<Rightarrow> (database \<Rightarrow> bool) \<Rightarrow> bool" where
  "triple P m R E \<longleftrightarrow> outcome m (\<lambda>d x d'. P d \<longrightarrow> R x d') (\<lambda>d d'. P d \<longrightarrow> E d')"

lemma outcome_triple: "(\<And>d. triple (\<lambda>d'. d' = d) m (R d) (Q d)) \<Longrightarrow> outcome m R Q"
proof (rule outcomeI)
  fix w r w'
  assume "\<And>d. triple (\<lambda>d'. d' = d) m (R d) (Q d)" and a: "tx w = None" "m w = (r, w')"
  then have "outcome m (\<lambda>d x d'. d = disk w \<longrightarrow> R (disk w) x d') (\<lambda>d d'. d = disk w \<longrightarrow> Q (disk w) d')"
    by (simp only: triple_def)
  from outcomeD [OF this a] show "tx w' = None \<and>
      (case r of Inr x \<Rightarrow> R (disk w) x (disk w') | Inl e \<Rightarrow> Q (disk w) (disk w'))"
    by (cases r) auto
qed

lemma triple_pre: "triple P m R E \<Longrightarrow> (\<And>d. P' d \<Longrightarrow> P d) \<Longrightarrow> triple P' m R E"
  unfolding triple_def by (erule outcome_conseq) auto

lemma triple_outcome:
  "outcome m R0 Q0 \<Longrightarrow> triple (\<lambda>d. (\<forall>x d'. R0 d x d' \<longrightarrow> R x d') \<and> (\<forall>d'. Q0 d d' \<longrightarrow> E d')) m R E"
  unfolding triple_def by (erule outcome_conseq) auto

lemma triple_bnd [wp]:
  assumes "\<And>x. triple (R x) (f x) S E" and "triple P m R E"
  shows "triple P (bnd m f) S E"
  unfolding triple_def
  by (rule outcome_conseq [OF outcome_bnd [OF assms(2) [unfolded triple_def] assms(1) [unfolded triple_def]]]) blast+

lemma triple_ret [wp]: "triple (R x) (ret x) R E"
  unfolding triple_def by (rule outcome_conseq [OF outcome_ret]) auto

lemma triple_raise [wp]: "triple E (raise e) R E"
  unfolding triple_def by (rule outcome_conseq [OF outcome_raise]) auto

lemma triple_if [wp]:
  "triple P m R E \<Longrightarrow> triple P' n R E \<Longrightarrow> triple (\<lambda>d. (b \<longrightarrow> P d) \<and> (\<not> b \<longrightarrow> P' d)) (if b then m else n) R E"
  by (auto intro: triple_pre)

lemma triple_option [wp]:
  "triple P m R E \<Longrightarrow> (\<And>y. triple (P' y) (f y) R E) \<Longrightarrow>
   triple (\<lambda>d. (z = None \<longrightarrow> P d) \<and> (\<forall>y. z = Some y \<longrightarrow> P' y d)) (case z of None \<Rightarrow> m | Some y \<Rightarrow> f y) R E"
  by (cases z) (auto intro: triple_pre)

lemma triple_prod [wp]:
  "(\<And>a b. triple (P a b) (f a b) R E) \<Longrightarrow>
   triple (\<lambda>d. \<forall>a b. p = (a, b) \<longrightarrow> P a b d) (case p of (a, b) \<Rightarrow> f a b) R E"
  by (cases p) (auto intro: triple_pre)

lemma triple_ctl [wp]: "triple P m R E \<Longrightarrow> triple P (as_ctl_error m) R E"
  unfolding triple_def by (rule outcome_ctl)

lemma triple_finally_close [wp]: "triple P m R E \<Longrightarrow> triple P (try_finally m close_conn) R E"
  unfolding triple_def by (rule outcome_finally_close)

text \<open>What holds of the durable database whether the service returns or raises.\<close>

lemma outcome_always:
  assumes "outcome m R Q" and "tx w = None"
    and "\<And>x. R (disk w) x d' \<Longrightarrow> P" and "Q (disk w) d' \<Longrightarrow> P" and "d' = disk (snd (m w))"
  shows P
proof -
  obtain r w' where m: "m w = (r, w')" by (cases "m w")
  with outcomeD [OF assms(1,2) m] assms(3-) show P by (cases r) auto
qed

lemmas run_defs = op_defs with_tx_def wrap_db_def as_ctl_error_def now_iso_def sql_query_def sql_dml_def
  sql_ddl_def commit_def rollback_def view_no_tx Let_def

end
