(* ===== verification/Database.thy ===== *)
theory Database
  imports Schema
begin

text \<open>
  \<open>dn42ctl/db.py\<close>: the change-notification queue's write side and the peer tables. Every
  SQL statement is a function on the database; a method composes its statements in a
  transaction, the way the source does.
\<close>

section \<open>Constants\<close>

definition SYNC_EVENT_DESIRED :: string where "SYNC_EVENT_DESIRED = ''desired''"
definition SYNC_EVENT_ACCESS_REVOKED :: string where "SYNC_EVENT_ACCESS_REVOKED = ''access_revoked''"
definition SYNC_EVENTS_KEEP :: nat where "SYNC_EVENTS_KEEP = 1000"
definition SYNC_EVENTS_TRIM_EVERY :: nat where "SYNC_EVENTS_TRIM_EVERY = 256"

text \<open>\<open>_Unset\<close>: a keyword argument that was not given, as opposed to one given as \<open>None\<close>.\<close>

datatype 'a unset = UNSET | Given 'a

fun given :: "'a unset \<Rightarrow> bool" where
  "given UNSET = False"
| "given (Given _) = True"

section \<open>Change notifications\<close>

definition insert_sync_event :: "string \<Rightarrow> string \<Rightarrow> string \<Rightarrow> database \<Rightarrow> (nat \<times> database) result" where
  "insert_sync_event node_id kind now d = (let new_id = Suc (events_seq d) in
     Inr (new_id, d\<lparr> sync_events := sync_events d @
            [\<lparr> se_id = new_id, se_node_id = node_id, se_kind = kind, se_created_at = now \<rparr>],
          events_seq := new_id \<rparr>))"

definition delete_sync_events_upto :: "int \<Rightarrow> database \<Rightarrow> (nat \<times> database) result" where
  "delete_sync_events_upto bound d =
     Inr (length (filter (\<lambda>e. int (se_id e) \<le> bound) (sync_events d)),
          d\<lparr> sync_events := filter (\<lambda>e. \<not> int (se_id e) \<le> bound) (sync_events d) \<rparr>)"

definition emit_sync_event :: "string \<Rightarrow> string \<Rightarrow> unit wop" where
  "emit_sync_event node_id kind = bnd now_iso (\<lambda>now.
     bnd (sql_dml (insert_sync_event node_id kind now)) (\<lambda>new_id.
       if new_id mod SYNC_EVENTS_TRIM_EVERY = 0
       then bnd (sql_dml (delete_sync_events_upto (int new_id - int SYNC_EVENTS_KEEP))) (\<lambda>_. ret ())
       else ret ()))"

section \<open>Nodes\<close>

definition upsert_node_row :: "string \<Rightarrow> string \<Rightarrow> database \<Rightarrow> (unit \<times> database) result" where
  "upsert_node_row node_id now d =
     (if has_node d node_id
      then Inr ((), d\<lparr> nodes := map (\<lambda>r. if n_node_id r = node_id then r\<lparr> n_updated_at := now \<rparr> else r) (nodes d) \<rparr>)
      else Inr ((), d\<lparr> nodes := nodes d @
             [\<lparr> n_node_id = node_id, n_created_at = now, n_updated_at = now \<rparr>] \<rparr>))"

definition ensure_node :: "string \<Rightarrow> unit wop" where
  "ensure_node node_id = bnd now_iso (\<lambda>now.
     with_tx (\<lambda>_. ''Failed to upsert node'') (sql_dml (upsert_node_row node_id now)))"

section \<open>BGP peers\<close>

definition bgp_key :: "string \<Rightarrow> int \<Rightarrow> bgp_peer_row \<Rightarrow> bool" where
  "bgp_key node_id peer_asn r = (p_node_id r = node_id \<and> p_peer_asn r = peer_asn)"

definition find_bgp :: "string \<Rightarrow> int \<Rightarrow> database \<Rightarrow> bgp_peer_row option" where
  "find_bgp node_id peer_asn d = List.find (bgp_key node_id peer_asn) (bgp_peers d)"

definition get_bgp_peer :: "string \<Rightarrow> int \<Rightarrow> bgp_peer_row option wop" where
  "get_bgp_peer node_id peer_asn = wrap_db ''Failed to query BGP peer'' (sql_query (find_bgp node_id peer_asn))"

definition select_bgp :: "string \<Rightarrow> database \<Rightarrow> bgp_peer_row list" where
  "select_bgp node_id d = sort_key p_peer_asn (filter (\<lambda>r. p_node_id r = node_id) (bgp_peers d))"

definition list_bgp_peers :: "string \<Rightarrow> bgp_peer_row list wop" where
  "list_bgp_peers node_id = wrap_db ''Failed to list BGP peers'' (sql_query (select_bgp node_id))"

definition bgp_row_of :: "BgpPeerRecord \<Rightarrow> string \<Rightarrow> bgp_peer_row" where
  "bgp_row_of rec now = BgpPeerRecord.extend rec (bgp_peer_row.fields now now)"

text \<open>
  SQLite holds integers of 64 bits and \<open>execute\<close> raises \<open>OverflowError\<close> for others. The statements
  here are about records that can be bound: the services validate the ranges of AS numbers, ports and costs
  before they insert, and the scan, which does not, has the check as a step of its own (\<open>bind_int\<close>).
\<close>

definition insert_bgp_row :: "BgpPeerRecord \<Rightarrow> string \<Rightarrow> database \<Rightarrow> (unit \<times> database) result" where
  "insert_bgp_row rec now d =
     (if \<not> has_node d (p_node_id rec)
         \<or> (\<exists>r \<in> set (bgp_peers d). p_node_id r = p_node_id rec \<and>
              (p_peer_asn r = p_peer_asn rec \<or> p_ifname r = p_ifname rec))
      then Inl SqliteIntegrityError
      else Inr ((), d\<lparr> bgp_peers := bgp_peers d @ [bgp_row_of rec now] \<rparr>))"

definition insert_bgp_peer :: "BgpPeerRecord \<Rightarrow> unit wop" where
  "insert_bgp_peer rec = bnd now_iso (\<lambda>now.
     with_tx (\<lambda>e. if e = SqliteIntegrityError then ''BGP peer already exists'' else ''Failed to insert BGP peer'')
       (bnd (sql_dml (insert_bgp_row rec now)) (\<lambda>_.
          emit_sync_event (p_node_id rec) SYNC_EVENT_DESIRED)))"

definition update_bgp_rows ::
  "string \<Rightarrow> int \<Rightarrow> string option \<Rightarrow> string option \<Rightarrow> string option \<Rightarrow> int \<Rightarrow> string list \<Rightarrow> string \<Rightarrow> string
   \<Rightarrow> database \<Rightarrow> (nat \<times> database) result" where
  "update_bgp_rows node_id peer_asn pk ep lla port ips backend now d =
     Inr (length (filter (bgp_key node_id peer_asn) (bgp_peers d)),
          d\<lparr> bgp_peers := map (\<lambda>r. if bgp_key node_id peer_asn r
               then r\<lparr> p_peer_public_key := pk, p_endpoint := ep, p_peer_lla := lla,
                       p_listen_port := port, p_allowed_ips := ips, p_net_backend := backend,
                       b_updated_at := now \<rparr>
               else r) (bgp_peers d) \<rparr>)"

definition update_bgp_peer ::
  "string \<Rightarrow> int \<Rightarrow> string option \<Rightarrow> string option \<Rightarrow> string option \<Rightarrow> int \<Rightarrow> string list \<Rightarrow> string
   \<Rightarrow> unit wop" where
  "update_bgp_peer node_id peer_asn pk ep lla port ips backend = bnd now_iso (\<lambda>now.
     with_tx (\<lambda>_. ''Failed to update BGP peer'')
       (bnd (sql_dml (update_bgp_rows node_id peer_asn pk ep lla port ips backend now)) (\<lambda>rowcount.
        bnd (if rowcount = 0
             then bnd (sql_query (find_bgp node_id peer_asn)) (\<lambda>ex. case ex of
                    None \<Rightarrow> bnd rollback (\<lambda>_. raise (DatabaseError ''BGP peer not found''))
                  | Some _ \<Rightarrow> ret ())
             else ret ()) (\<lambda>_.
        emit_sync_event node_id SYNC_EVENT_DESIRED))))"

section \<open>iBGP peers\<close>

definition ibgp_key :: "string \<Rightarrow> string \<Rightarrow> ibgp_peer_row \<Rightarrow> bool" where
  "ibgp_key node_id name r = (p_node_id r = node_id \<and> p_name r = name)"

definition find_ibgp :: "string \<Rightarrow> string \<Rightarrow> database \<Rightarrow> ibgp_peer_row option" where
  "find_ibgp node_id name d = List.find (ibgp_key node_id name) (ibgp_peers d)"

definition select_ibgp :: "string \<Rightarrow> database \<Rightarrow> ibgp_peer_row list" where
  "select_ibgp node_id d = sort_key p_name (filter (\<lambda>r. p_node_id r = node_id) (ibgp_peers d))"

definition list_ibgp_peers :: "string \<Rightarrow> ibgp_peer_row list wop" where
  "list_ibgp_peers node_id = wrap_db ''Failed to list iBGP peers'' (sql_query (select_ibgp node_id))"

definition select_ibgp_by_remote :: "string \<Rightarrow> database \<Rightarrow> ibgp_peer_row list" where
  "select_ibgp_by_remote remote d =
     sort_key (\<lambda>r. (p_node_id r, p_name r)) (filter (\<lambda>r. p_remote_node_id r = Some remote) (ibgp_peers d))"

definition list_ibgp_peers_by_remote :: "string \<Rightarrow> ibgp_peer_row list wop" where
  "list_ibgp_peers_by_remote remote =
     wrap_db ''Failed to list iBGP peers by remote node'' (sql_query (select_ibgp_by_remote remote))"

definition get_ibgp_peer :: "string \<Rightarrow> string \<Rightarrow> ibgp_peer_row option wop" where
  "get_ibgp_peer node_id name = wrap_db ''Failed to query iBGP peer'' (sql_query (find_ibgp node_id name))"

definition ibgp_row_of :: "IbgpPeerRecord \<Rightarrow> string \<Rightarrow> ibgp_peer_row" where
  "ibgp_row_of rec now = IbgpPeerRecord.extend rec (ibgp_peer_row.fields now now)"

definition insert_ibgp_row :: "IbgpPeerRecord \<Rightarrow> string \<Rightarrow> database \<Rightarrow> (unit \<times> database) result" where
  "insert_ibgp_row rec now d =
     (if \<not> has_node d (p_node_id rec)
         \<or> (\<exists>r \<in> set (ibgp_peers d). p_node_id r = p_node_id rec \<and>
              (p_name r = p_name rec \<or> p_ifname r = p_ifname rec))
      then Inl SqliteIntegrityError
      else Inr ((), d\<lparr> ibgp_peers := ibgp_peers d @ [ibgp_row_of rec now] \<rparr>))"

definition insert_ibgp_peer :: "IbgpPeerRecord \<Rightarrow> unit wop" where
  "insert_ibgp_peer rec = bnd now_iso (\<lambda>now.
     with_tx (\<lambda>e. if e = SqliteIntegrityError then ''iBGP peer already exists'' else ''Failed to insert iBGP peer'')
       (bnd (sql_dml (insert_ibgp_row rec now)) (\<lambda>_.
          emit_sync_event (p_node_id rec) SYNC_EVENT_DESIRED)))"

definition update_ibgp_rows ::
  "string \<Rightarrow> string \<Rightarrow> string option \<Rightarrow> string option \<Rightarrow> string option \<Rightarrow> int \<Rightarrow> string list \<Rightarrow> string
   \<Rightarrow> int \<Rightarrow> string option \<Rightarrow> string \<Rightarrow> string option unset \<Rightarrow> string
   \<Rightarrow> database \<Rightarrow> (nat \<times> database) result" where
  "update_ibgp_rows node_id name pk ep lla port ips backend rxcost peer_ip btype remote now d =
     Inr (length (filter (ibgp_key node_id name) (ibgp_peers d)),
          d\<lparr> ibgp_peers := map (\<lambda>r. if ibgp_key node_id name r
               then r\<lparr> p_peer_public_key := pk, p_endpoint := ep, p_peer_lla := lla,
                       p_listen_port := port, p_allowed_ips := ips, p_net_backend := backend,
                       p_babel_rxcost := rxcost, p_peer_ip := peer_ip, p_babel_type := btype,
                       p_remote_node_id := (case remote of UNSET \<Rightarrow> p_remote_node_id r | Given v \<Rightarrow> v),
                       i_updated_at := now \<rparr>
               else r) (ibgp_peers d) \<rparr>)"

definition update_ibgp_peer ::
  "string \<Rightarrow> string \<Rightarrow> string option \<Rightarrow> string option \<Rightarrow> string option \<Rightarrow> int \<Rightarrow> string list \<Rightarrow> string
   \<Rightarrow> int \<Rightarrow> string option \<Rightarrow> string \<Rightarrow> string option unset \<Rightarrow> unit wop" where
  "update_ibgp_peer node_id name pk ep lla port ips backend rxcost peer_ip btype remote = bnd now_iso (\<lambda>now.
     with_tx (\<lambda>_. ''Failed to update iBGP peer'')
       (bnd (sql_dml (update_ibgp_rows node_id name pk ep lla port ips backend rxcost peer_ip btype remote now)) (\<lambda>rowcount.
        bnd (if rowcount = 0
             then bnd (sql_query (find_ibgp node_id name)) (\<lambda>ex. case ex of
                    None \<Rightarrow> bnd rollback (\<lambda>_. raise (DatabaseError ''iBGP peer not found''))
                  | Some _ \<Rightarrow> ret ())
             else ret ()) (\<lambda>_.
        emit_sync_event node_id SYNC_EVENT_DESIRED))))"

section \<open>Deleting peers\<close>

text \<open>
  \<open>_delete_peer\<close>: the read raises \<open>DatabaseError\<close>, which the handler of the surrounding \<open>try\<close>
  lets through, so the handler concerns the statements after it only.
\<close>

definition delete_peer ::
  "'r option wop \<Rightarrow> (database \<Rightarrow> (nat \<times> database) result) \<Rightarrow> string \<Rightarrow> string \<Rightarrow> 'r option wop" where
  "delete_peer get_fn del label node_id = bnd get_fn (\<lambda>row. case row of
     None \<Rightarrow> ret None
   | Some r \<Rightarrow> with_tx (\<lambda>_. ''Failed to delete '' @ label)
       (bnd (sql_dml del) (\<lambda>_. bnd (emit_sync_event node_id SYNC_EVENT_DESIRED) (\<lambda>_. ret (Some r)))))"

definition delete_bgp_rows :: "string \<Rightarrow> int \<Rightarrow> database \<Rightarrow> (nat \<times> database) result" where
  "delete_bgp_rows node_id peer_asn d =
     Inr (length (filter (bgp_key node_id peer_asn) (bgp_peers d)),
          d\<lparr> bgp_peers := filter (\<lambda>r. \<not> bgp_key node_id peer_asn r) (bgp_peers d) \<rparr>)"

definition db_delete_bgp_peer :: "string \<Rightarrow> int \<Rightarrow> bgp_peer_row option wop" where
  "db_delete_bgp_peer node_id peer_asn =
     delete_peer (get_bgp_peer node_id peer_asn) (delete_bgp_rows node_id peer_asn) ''BGP peer'' node_id"

definition delete_ibgp_rows :: "string \<Rightarrow> string \<Rightarrow> database \<Rightarrow> (nat \<times> database) result" where
  "delete_ibgp_rows node_id name d =
     Inr (length (filter (ibgp_key node_id name) (ibgp_peers d)),
          d\<lparr> ibgp_peers := filter (\<lambda>r. \<not> ibgp_key node_id name r) (ibgp_peers d) \<rparr>)"

definition db_delete_ibgp_peer :: "string \<Rightarrow> string \<Rightarrow> ibgp_peer_row option wop" where
  "db_delete_ibgp_peer node_id name =
     delete_peer (get_ibgp_peer node_id name) (delete_ibgp_rows node_id name) ''iBGP peer'' node_id"

section \<open>Ports\<close>

definition get_used_listen_ports :: "string \<Rightarrow> int list wop" where
  "get_used_listen_ports node_id = wrap_db ''Failed to query listen ports''
     (bnd (sql_query (\<lambda>d. map p_listen_port (filter (\<lambda>r. p_node_id r = node_id) (bgp_peers d)))) (\<lambda>ps.
      bnd (sql_query (\<lambda>d. map p_listen_port (filter (\<lambda>r. p_node_id r = node_id) (ibgp_peers d)))) (\<lambda>qs.
      ret (ps @ qs))))"

section \<open>The queue of notifications\<close>

text \<open>What one call of \<open>emit_sync_event\<close> does to the database the transaction sees.\<close>

definition after_event :: "string \<Rightarrow> string \<Rightarrow> string \<Rightarrow> database \<Rightarrow> database" where
  "after_event node_id kind now d =
     (let new_id = Suc (events_seq d);
          evs = sync_events d @ [\<lparr> se_id = new_id, se_node_id = node_id, se_kind = kind, se_created_at = now \<rparr>]
      in d\<lparr> sync_events := (if new_id mod 256 = 0 then filter (\<lambda>e. int new_id - 1000 < int (se_id e)) evs else evs),
            events_seq := new_id \<rparr>)"

text \<open>
  \<open>emit_sync_event\<close> trims whenever the id is a multiple of 256, to the 1000 newest: every
  event is younger than 1000 before the last multiple.
\<close>

definition events_trimmed :: "database \<Rightarrow> bool" where
  "events_trimmed d = (\<forall>e \<in> set (sync_events d).
     int (256 * (events_seq d div 256)) - 1000 < int (se_id e))"

lemma emit_at_spec:
  "op_spec (bnd (sql_dml (insert_sync_event n k now)) (\<lambda>new_id.
       if new_id mod SYNC_EVENTS_TRIM_EVERY = 0
       then bnd (sql_dml (delete_sync_events_upto (int new_id - int SYNC_EVENTS_KEEP))) (\<lambda>_. ret ())
       else ret ())) (\<lambda>d _ d'. d' = after_event n k now d)"
  by (rule op_spec_conseq, (rule specs)+)
    (auto simp: insert_sync_event_def delete_sync_events_upto_def after_event_def Let_def
      SYNC_EVENTS_TRIM_EVERY_def SYNC_EVENTS_KEEP_def not_le)

lemma emit_spec [specs]: "op_spec (emit_sync_event n k) (\<lambda>d _ d'. \<exists>now. d' = after_event n k now d)"
  unfolding emit_sync_event_def
  by (rule op_spec_conseq, rule op_spec_bnd, rule op_spec_now, rule emit_at_spec) blast

lemma after_event_frame [simp]:
  "db_schema (after_event n k now d) = db_schema d"
  "db_indexes (after_event n k now d) = db_indexes d"
  "schema_migrations (after_event n k now d) = schema_migrations d"
  "nodes (after_event n k now d) = nodes d"
  "bgp_peers (after_event n k now d) = bgp_peers d"
  "ibgp_peers (after_event n k now d) = ibgp_peers d"
  "managed_nodes (after_event n k now d) = managed_nodes d"
  "config_proposals (after_event n k now d) = config_proposals d"
  "proposals_seq (after_event n k now d) = proposals_seq d"
  "node_reports (after_event n k now d) = node_reports d"
  "reports_seq (after_event n k now d) = reports_seq d"
  "config_revisions (after_event n k now d) = config_revisions d"
  "revisions_seq (after_event n k now d) = revisions_seq d"
  "node_desired_pin (after_event n k now d) = node_desired_pin d"
  "events_seq (after_event n k now d) = Suc (events_seq d)"
  by (simp_all add: after_event_def Let_def)

lemma after_event_in:
  "\<exists>e \<in> set (sync_events (after_event n k now d)).
     se_id e = Suc (events_seq d) \<and> se_node_id e = n \<and> se_kind e = k"
  by (auto simp: after_event_def Let_def)

lemma after_event_announces:
  "\<exists>e \<in> set (sync_events (after_event n k now d)). se_node_id e = n \<and> se_kind e = k \<and> events_seq d < se_id e"
  by (auto simp: after_event_def Let_def)

lemma keeps_insert_event: "keeps (\<lambda>d. ids_ok (map se_id (sync_events d)) (events_seq d)) (insert_sync_event n k now)"
  by (auto simp: keeps_def insert_sync_event_def Let_def ids_ok_append)

lemma div_Suc_not_dvd: "Suc n mod 256 \<noteq> 0 \<Longrightarrow> Suc n div 256 = n div (256::nat)"
  by (metis div_Suc)

lemma after_event_ids:
  assumes "ids_ok (map se_id (sync_events d)) (events_seq d)"
  shows "ids_ok (map se_id (sync_events (after_event n k now d))) (Suc (events_seq d))"
proof -
  let ?evs = "sync_events d @ [\<lparr> se_id = Suc (events_seq d), se_node_id = n, se_kind = k, se_created_at = now \<rparr>]"
  from ids_ok_append [OF assms] have "ids_ok (map se_id ?evs) (Suc (events_seq d))" by simp
  from this ids_ok_filter [OF this, of "\<lambda>e. int (Suc (events_seq d)) - 1000 < int (se_id e)"]
  show ?thesis by (simp add: after_event_def Let_def)
qed

lemma after_event_queue:
  assumes "ids_ok (map se_id (sync_events d)) (events_seq d)" and "events_trimmed d"
  shows "ids_ok (map se_id (sync_events (after_event n k now d))) (Suc (events_seq d))"
    and "events_trimmed (after_event n k now d)"
proof -
  let ?evs = "sync_events d @ [\<lparr> se_id = Suc (events_seq d), se_node_id = n, se_kind = k, se_created_at = now \<rparr>]"
  show "ids_ok (map se_id (sync_events (after_event n k now d))) (Suc (events_seq d))"
    by (rule after_event_ids [OF assms(1)])
  show "events_trimmed (after_event n k now d)"
  proof (cases "Suc (events_seq d) mod 256 = 0")
    case True
    then have "256 * (Suc (events_seq d) div 256) = Suc (events_seq d)" by auto
    with True show ?thesis by (auto simp: events_trimmed_def after_event_def Let_def)
  next
    case False
    with assms(2) show ?thesis
      by (auto simp: events_trimmed_def after_event_def Let_def div_Suc_not_dvd [OF False])
  qed
qed

text \<open>Several notifications in one transaction.\<close>

fun emitted :: "(string \<times> string) list \<Rightarrow> database \<Rightarrow> database \<Rightarrow> bool" where
  "emitted [] d d' = (d' = d)"
| "emitted (ev # evs) d d' = (\<exists>now. emitted evs (after_event (fst ev) (snd ev) now d) d')"

lemma emit_all_spec [specs]:
  "op_spec (for_each (\<lambda>ev. emit_sync_event (fst ev) (snd ev)) evs) (\<lambda>d _ d'. emitted evs d d')"
proof (induction evs)
  case Nil
  show ?case by (simp, rule op_spec_conseq, rule op_spec_ret) simp
next
  case (Cons ev evs)
  show ?case
    by (simp, rule op_spec_conseq, (rule op_spec_bnd emit_spec Cons)+) auto
qed

lemma emitted_frame:
  "emitted evs d d' \<Longrightarrow> nodes d' = nodes d \<and> bgp_peers d' = bgp_peers d \<and> ibgp_peers d' = ibgp_peers d
     \<and> managed_nodes d' = managed_nodes d \<and> config_proposals d' = config_proposals d
     \<and> node_reports d' = node_reports d \<and> config_revisions d' = config_revisions d
     \<and> node_desired_pin d' = node_desired_pin d \<and> events_seq d' = events_seq d + length evs"
  by (induction evs arbitrary: d) fastforce+

lemma after_event_keeps:
  "e \<in> set (sync_events d) \<Longrightarrow> Suc (events_seq d) < se_id e + 1000 \<Longrightarrow> e \<in> set (sync_events (after_event n k now d))"
  by (auto simp: after_event_def Let_def)

lemma emitted_keeps:
  "emitted evs d d' \<Longrightarrow> e \<in> set (sync_events d) \<Longrightarrow> events_seq d + length evs < se_id e + 1000 \<Longrightarrow>
   e \<in> set (sync_events d')"
proof (induction evs arbitrary: d)
  case (Cons ev evs)
  then obtain now where "emitted evs (after_event (fst ev) (snd ev) now d) d'" by auto
  moreover from Cons.prems have "e \<in> set (sync_events (after_event (fst ev) (snd ev) now d))"
    by (intro after_event_keeps) auto
  ultimately show ?case using Cons by simp
qed simp

lemma emitted_announces:
  "emitted evs d d' \<Longrightarrow> length evs \<le> 1000 \<Longrightarrow> (n, k) \<in> set evs \<Longrightarrow>
   \<exists>e \<in> set (sync_events d'). se_node_id e = n \<and> se_kind e = k \<and> events_seq d < se_id e"
proof (induction evs arbitrary: d)
  case (Cons ev evs)
  then obtain now where em: "emitted evs (after_event (fst ev) (snd ev) now d) d'" by auto
  show ?case
  proof (cases "ev = (n, k)")
    case True
    then obtain e where e: "e \<in> set (sync_events (after_event (fst ev) (snd ev) now d))"
      "se_id e = Suc (events_seq d)" "se_node_id e = n" "se_kind e = k"
      using after_event_in [of n k now d] by auto
    from emitted_keeps [OF em e(1)] e(2) Cons.prems(2) have "e \<in> set (sync_events d')" by simp
    with e show ?thesis by auto
  next
    case False
    with Cons.IH [OF em] Cons.prems show ?thesis by fastforce
  qed
qed simp

section \<open>The methods are atomic and keep the database well-formed\<close>

lemma sqlite_only_stmts [atomic]:
  "sqlite_only (insert_sync_event n k now)"
  "sqlite_only (delete_sync_events_upto b)"
  "sqlite_only (upsert_node_row n now)"
  "sqlite_only (insert_bgp_row rec now)"
  "sqlite_only (update_bgp_rows n a pk ep lla port ips be now)"
  "sqlite_only (delete_bgp_rows n a)"
  "sqlite_only (insert_ibgp_row rec' now)"
  "sqlite_only (update_ibgp_rows n m pk ep lla port ips be rx ip bt rm now)"
  "sqlite_only (delete_ibgp_rows n m)"
  by (auto simp: sqlite_only_def insert_sync_event_def delete_sync_events_upto_def upsert_node_row_def
      insert_bgp_row_def update_bgp_rows_def delete_bgp_rows_def insert_ibgp_row_def
      update_ibgp_rows_def delete_ibgp_rows_def Let_def split: if_splits)

lemma tx_body_emit [atomic]: "tx_body (emit_sync_event n k)"
  unfolding emit_sync_event_def by (auto intro!: atomic)

lemma atomic_peer_methods [atomic]:
  "atomic_op (ensure_node n)"
  "atomic_op (insert_bgp_peer rec)"
  "atomic_op (update_bgp_peer n a pk ep lla port ips be)"
  "atomic_op (db_delete_bgp_peer n a)"
  "atomic_op (insert_ibgp_peer rec')"
  "atomic_op (update_ibgp_peer n m pk ep lla port ips be rx ip bt rm)"
  "atomic_op (db_delete_ibgp_peer n m)"
  unfolding ensure_node_def insert_bgp_peer_def update_bgp_peer_def db_delete_bgp_peer_def
    insert_ibgp_peer_def update_ibgp_peer_def db_delete_ibgp_peer_def delete_peer_def
    get_bgp_peer_def get_ibgp_peer_def
  by (auto intro!: atomic)

lemma read_only_methods [atomic]:
  "read_only (get_bgp_peer n a)" "read_only (list_bgp_peers n)" "read_only (get_ibgp_peer n m)"
  "read_only (list_ibgp_peers n)" "read_only (list_ibgp_peers_by_remote n)"
  "read_only (get_used_listen_ports n)"
  unfolding get_bgp_peer_def list_bgp_peers_def get_ibgp_peer_def list_ibgp_peers_def
    list_ibgp_peers_by_remote_def get_used_listen_ports_def
  by (auto intro!: atomic)

lemmas wf_frame = wf_defs has_node_def self_index_ok_def pins_ok_def

lemma keeps_wf_event [preserve]:
  "keeps wf_db (insert_sync_event n k now)" "keeps wf_db (delete_sync_events_upto b)"
  by (auto simp: keeps_def insert_sync_event_def delete_sync_events_upto_def Let_def wf_frame
      ids_ok_append intro: ids_ok_filter)

lemma wf_same_nodes: "map n_node_id ns = map n_node_id (nodes d) \<Longrightarrow> wf_db (d\<lparr> nodes := ns \<rparr>) = wf_db d"
  by (simp add: wf_frame del: set_map)

lemma wf_more_nodes: "wf_db d \<Longrightarrow> \<not> has_node d (n_node_id r) \<Longrightarrow> wf_db (d\<lparr> nodes := nodes d @ [r] \<rparr>)"
  by (auto simp: wf_frame)

lemma touched_node_ids:
  "map n_node_id (map (\<lambda>r. if n_node_id r = n then r\<lparr> n_updated_at := now \<rparr> else r) ns) = map n_node_id ns"
  by simp

lemma keeps_wf_node [preserve]: "keeps wf_db (upsert_node_row n now)"
  by (auto simp: keeps_def upsert_node_row_def wf_same_nodes [OF touched_node_ids] wf_more_nodes split: if_splits)

lemma keeps_wf_bgp [preserve]:
  "keeps wf_db (insert_bgp_row rec now)"
  "keeps wf_db (update_bgp_rows n a pk ep lla port ips be now)"
  "keeps wf_db (delete_bgp_rows n a)"
proof -
  show "keeps wf_db (insert_bgp_row rec now)"
    by (auto simp: keeps_def insert_bgp_row_def wf_frame bgp_row_of_def BgpPeerRecord.defs split: if_splits)
  show "keeps wf_db (update_bgp_rows n a pk ep lla port ips be now)"
    by (auto simp: keeps_def update_bgp_rows_def wf_frame comp_def if_distrib cong: if_cong)
  show "keeps wf_db (delete_bgp_rows n a)"
    by (auto simp: keeps_def delete_bgp_rows_def wf_frame distinct_map_filter_keys)
qed

lemma keeps_wf_ibgp [preserve]:
  "keeps wf_db (insert_ibgp_row rec now)"
  "keeps wf_db (update_ibgp_rows n m pk ep lla port ips be rx ip bt rm now)"
  "keeps wf_db (delete_ibgp_rows n m)"
proof -
  show "keeps wf_db (insert_ibgp_row rec now)"
    by (auto simp: keeps_def insert_ibgp_row_def wf_frame ibgp_row_of_def IbgpPeerRecord.defs split: if_splits)
  show "keeps wf_db (update_ibgp_rows n m pk ep lla port ips be rx ip bt rm now)"
    by (auto simp: keeps_def update_ibgp_rows_def wf_frame comp_def if_distrib cong: if_cong)
  show "keeps wf_db (delete_ibgp_rows n m)"
    by (auto simp: keeps_def delete_ibgp_rows_def wf_frame distinct_map_filter_keys)
qed

lemma preserves_wf_emit [preserve]: "preserves (on_world wf_db) (emit_sync_event n k)"
  unfolding emit_sync_event_def by (auto intro!: preserve)

lemma preserves_wf_peer_methods [preserve]:
  "preserves (on_world wf_db) (ensure_node n)"
  "preserves (on_world wf_db) (insert_bgp_peer rec)"
  "preserves (on_world wf_db) (update_bgp_peer n a pk ep lla port ips be)"
  "preserves (on_world wf_db) (db_delete_bgp_peer n a)"
  "preserves (on_world wf_db) (insert_ibgp_peer rec')"
  "preserves (on_world wf_db) (update_ibgp_peer n m pk ep lla port ips be rx ip bt rm)"
  "preserves (on_world wf_db) (db_delete_ibgp_peer n m)"
  unfolding ensure_node_def insert_bgp_peer_def update_bgp_peer_def db_delete_bgp_peer_def
    insert_ibgp_peer_def update_ibgp_peer_def db_delete_ibgp_peer_def delete_peer_def
    get_bgp_peer_def get_ibgp_peer_def
  by (auto intro!: preserve)

section \<open>What the methods do\<close>

interpretation bgp_table: keyed_table bgp_peers "\<lambda>rs d. d\<lparr> bgp_peers := rs \<rparr>"
  "\<lambda>r. (p_node_id r, p_peer_asn r)"
  by unfold_locales simp_all

interpretation ibgp_table: keyed_table ibgp_peers "\<lambda>rs d. d\<lparr> ibgp_peers := rs \<rparr>"
  "\<lambda>r. (p_node_id r, p_name r)"
  by unfold_locales simp_all

lemma bgp_key_eq: "bgp_key n a = (\<lambda>r. (p_node_id r, p_peer_asn r) = (n, a))"
  by (auto simp: bgp_key_def)

lemma ibgp_key_eq: "ibgp_key n m = (\<lambda>r. (p_node_id r, p_name r) = (n, m))"
  by (auto simp: ibgp_key_def)

lemma ensure_node_spec [specs]:
  "op_spec (ensure_node n) (\<lambda>d _ d'. \<exists>now. upsert_node_row n now d = Inr ((), d'))"
  unfolding ensure_node_def by (rule op_spec_conseq, (rule specs)+) auto

lemma insert_bgp_peer_spec [specs]:
  "op_spec (insert_bgp_peer rec) (\<lambda>d _ d'. \<exists>now now' d1.
     insert_bgp_row rec now d = Inr ((), d1) \<and> d' = after_event (p_node_id rec) SYNC_EVENT_DESIRED now' d1)"
  unfolding insert_bgp_peer_def by (rule op_spec_conseq, (rule specs)+) auto

lemma insert_ibgp_peer_spec [specs]:
  "op_spec (insert_ibgp_peer rec) (\<lambda>d _ d'. \<exists>now now' d1.
     insert_ibgp_row rec now d = Inr ((), d1) \<and> d' = after_event (p_node_id rec) SYNC_EVENT_DESIRED now' d1)"
  unfolding insert_ibgp_peer_def by (rule op_spec_conseq, (rule specs)+) auto

text \<open>An \<open>UPDATE\<close> that touches no row ends in "not found"; otherwise the event follows it.\<close>

lemma update_or_not_found_spec:
  fixes upd :: "database \<Rightarrow> (nat \<times> database) result"
  assumes none: "\<And>d d1. upd d = Inr (0, d1) \<Longrightarrow> look d1 = None"
  shows "op_spec (bnd (sql_dml upd) (\<lambda>rowcount.
        bnd (if rowcount = 0
             then bnd (sql_query look) (\<lambda>ex. case ex of
                    None \<Rightarrow> bnd rollback (\<lambda>_. raise err)
                  | Some _ \<Rightarrow> ret ())
             else ret ()) (\<lambda>_. emit_sync_event n k)))
     (\<lambda>d _ d'. \<exists>now c d1. upd d = Inr (c, d1) \<and> 0 < c \<and> d' = after_event n k now d1)"
proof -
  have pos: "upd d = Inr (c, d1) \<Longrightarrow> look d1 = Some y \<Longrightarrow> 0 < c" for d c d1 y
    using none [of d d1] by (cases c) auto
  show ?thesis
    by (rule op_spec_conseq, (rule specs)+) (auto dest: none pos split: if_splits option.splits)
qed

lemma update_bgp_rows_none:
  "update_bgp_rows n a pk ep lla port ips be now d = Inr (0, d1) \<Longrightarrow> find_bgp n a d1 = None"
  by (auto simp: update_bgp_rows_def find_bgp_def find_None_set filter_empty_conv bgp_key_def)

lemma update_ibgp_rows_none:
  "update_ibgp_rows n m pk ep lla port ips be rx ip bt rm now d = Inr (0, d1) \<Longrightarrow> find_ibgp n m d1 = None"
  by (auto simp: update_ibgp_rows_def find_ibgp_def find_None_set filter_empty_conv ibgp_key_def)

lemma update_bgp_peer_spec [specs]:
  "op_spec (update_bgp_peer n a pk ep lla port ips be) (\<lambda>d _ d'. \<exists>now now' c d1.
     update_bgp_rows n a pk ep lla port ips be now d = Inr (c, d1) \<and> 0 < c
     \<and> d' = after_event n SYNC_EVENT_DESIRED now' d1)"
  unfolding update_bgp_peer_def
  by (rule op_spec_conseq, (rule op_spec_bnd op_spec_now op_spec_with_tx update_or_not_found_spec)+)
    (auto dest: update_bgp_rows_none)

lemma update_ibgp_peer_spec [specs]:
  "op_spec (update_ibgp_peer n m pk ep lla port ips be rx ip bt rm) (\<lambda>d _ d'. \<exists>now now' c d1.
     update_ibgp_rows n m pk ep lla port ips be rx ip bt rm now d = Inr (c, d1) \<and> 0 < c
     \<and> d' = after_event n SYNC_EVENT_DESIRED now' d1)"
  unfolding update_ibgp_peer_def
  by (rule op_spec_conseq, (rule op_spec_bnd op_spec_now op_spec_with_tx update_or_not_found_spec)+)
    (auto dest: update_ibgp_rows_none)

lemma delete_peer_spec:
  assumes "op_spec get_fn (\<lambda>d x d'. x = look d \<and> d' = d)"
  shows "op_spec (delete_peer get_fn del label n) (\<lambda>d x d'. x = look d \<and>
     (case look d of None \<Rightarrow> d' = d
      | Some _ \<Rightarrow> \<exists>c now d1. del d = Inr (c, d1) \<and> d' = after_event n SYNC_EVENT_DESIRED now d1))"
  unfolding delete_peer_def
  by (rule op_spec_conseq, (rule assms specs)+) (auto split: option.splits)

lemma db_delete_bgp_peer_spec [specs]:
  "op_spec (db_delete_bgp_peer n a) (\<lambda>d x d'. x = find_bgp n a d \<and>
     (case find_bgp n a d of None \<Rightarrow> d' = d
      | Some _ \<Rightarrow> \<exists>c now d1. delete_bgp_rows n a d = Inr (c, d1) \<and> d' = after_event n SYNC_EVENT_DESIRED now d1))"
  unfolding db_delete_bgp_peer_def get_bgp_peer_def by (rule delete_peer_spec) (rule specs)+

lemma db_delete_ibgp_peer_spec [specs]:
  "op_spec (db_delete_ibgp_peer n m) (\<lambda>d x d'. x = find_ibgp n m d \<and>
     (case find_ibgp n m d of None \<Rightarrow> d' = d
      | Some _ \<Rightarrow> \<exists>c now d1. delete_ibgp_rows n m d = Inr (c, d1) \<and> d' = after_event n SYNC_EVENT_DESIRED now d1))"
  unfolding db_delete_ibgp_peer_def get_ibgp_peer_def by (rule delete_peer_spec) (rule specs)+

lemma read_specs [specs]:
  "op_spec (get_bgp_peer n a) (\<lambda>d x d'. x = find_bgp n a d \<and> d' = d)"
  "op_spec (get_ibgp_peer n m) (\<lambda>d x d'. x = find_ibgp n m d \<and> d' = d)"
  "op_spec (list_bgp_peers n) (\<lambda>d x d'. x = select_bgp n d \<and> d' = d)"
  "op_spec (list_ibgp_peers n) (\<lambda>d x d'. x = select_ibgp n d \<and> d' = d)"
  "op_spec (list_ibgp_peers_by_remote n) (\<lambda>d x d'. x = select_ibgp_by_remote n d \<and> d' = d)"
  unfolding get_bgp_peer_def get_ibgp_peer_def list_bgp_peers_def list_ibgp_peers_def
    list_ibgp_peers_by_remote_def
  by (rule specs)+

lemma used_ports_spec [specs]:
  "op_spec (get_used_listen_ports n) (\<lambda>d x d'. d' = d \<and> set x =
     p_listen_port ` {r \<in> set (bgp_peers d). p_node_id r = n} \<union>
     p_listen_port ` {r \<in> set (ibgp_peers d). p_node_id r = n})"
  unfolding get_used_listen_ports_def by (rule op_spec_conseq, (rule specs)+) auto

text \<open>Lookups after a write.\<close>

lemma find_inserted_bgp:
  assumes "insert_bgp_row rec now d = Inr ((), d')"
  shows "find_bgp (p_node_id rec) (p_peer_asn rec) d' = Some (bgp_row_of rec now)"
proof -
  let ?x = "bgp_row_of rec now"
  have key: "(p_node_id ?x, p_peer_asn ?x) = (p_node_id rec, p_peer_asn rec)"
    by (simp add: bgp_row_of_def BgpPeerRecord.defs)
  from assms have "(p_node_id ?x, p_peer_asn ?x) \<notin> (\<lambda>r. (p_node_id r, p_peer_asn r)) ` set (bgp_peers d)"
    and d': "d' = d\<lparr> bgp_peers := bgp_peers d @ [?x] \<rparr>"
    unfolding key by (auto simp: insert_bgp_row_def split: if_splits)
  from bgp_table.lookup_inserted [OF this(1)] show ?thesis
    unfolding find_bgp_def bgp_key_eq d' key .
qed

lemma find_deleted_bgp: "delete_bgp_rows n a d = Inr (c, d') \<Longrightarrow> find_bgp n a d' = None"
  using bgp_table.lookup_removed [of "(n, a)" d]
  by (auto simp: delete_bgp_rows_def find_bgp_def bgp_key_eq)

lemma find_deleted_ibgp: "delete_ibgp_rows n m d = Inr (c, d') \<Longrightarrow> find_ibgp n m d' = None"
  using ibgp_table.lookup_removed [of "(n, m)" d]
  by (auto simp: delete_ibgp_rows_def find_ibgp_def ibgp_key_eq)

section \<open>Properties\<close>

text \<open>A database with one node, and a peer record, for examples.\<close>

definition sample_db :: database where
  "sample_db = empty_database\<lparr> nodes := [\<lparr> n_node_id = ''n1'', n_created_at = ''t0'', n_updated_at = ''t0'' \<rparr>] \<rparr>"

definition sample_bgp :: BgpPeerRecord where
  "sample_bgp = \<lparr> p_node_id = ''n1'', p_ifname = ''dn42_1234'', p_wg_private_key = ''priv'',
     p_wg_public_key = ''pub'', p_peer_public_key = None, p_endpoint = None, p_local_lla = ''fe80::1'',
     p_peer_lla = None, p_listen_port = 21234, p_allowed_ips = [''fe80::/64''], p_net_backend = ''networkd'',
     p_peer_asn = 4242421234 \<rparr>"

lemma sample_insert:
  "\<exists>w'. insert_bgp_peer sample_bgp (start_world sample_db) = (Inr (), w') \<and> tx w' = None \<and> env w' = quiet_env
     \<and> bgp_peers (disk w') = [bgp_row_of sample_bgp ''2026-01-01T00:00:00+00:00'']"
  by (simp add: insert_bgp_peer_def emit_sync_event_def run_defs insert_sync_event_def insert_bgp_row_def
      sample_db_def sample_bgp_def has_node_def empty_database_def SYNC_EVENTS_TRIM_EVERY_def)

definition queue_ok :: "database \<Rightarrow> bool" where
  "queue_ok d = (ids_ok (map se_id (sync_events d)) (events_seq d) \<and> events_trimmed d)"

lemma queue_length: "queue_ok d \<Longrightarrow> length (sync_events d) \<le> 1255"
proof -
  assume q: "queue_ok d"
  let ?lo = "256 * (events_seq d div 256) - 1000"
  have "set (map se_id (sync_events d)) \<subseteq> {?lo <.. events_seq d} \<union> {x. x = 0 \<and> False}"
    using q by (fastforce simp: queue_ok_def ids_ok_def events_trimmed_def)
  then have "set (map se_id (sync_events d)) \<subseteq> {?lo <.. events_seq d}" by auto
  then have "card (set (map se_id (sync_events d))) \<le> card {?lo <.. events_seq d}"
    by (rule card_mono [rotated]) simp
  moreover have "card (set (map se_id (sync_events d))) = length (sync_events d)"
    using q ids_ok_distinct [of "map se_id (sync_events d)" "events_seq d"]
    by (metis distinct_card length_map queue_ok_def)
  moreover have "events_seq d = 256 * (events_seq d div 256) + events_seq d mod 256" by simp
  moreover have "events_seq d mod 256 < 256" by simp
  ultimately show ?thesis by simp
qed

text \<open>
  C22. The change notification is atomic with the row it announces: started outside a
  transaction and whichever statement fails, \<open>insert_bgp_peer\<close> either raises and leaves the
  durable database as it was, or returns and the durable database has exactly the new row
  and the event for its node.
\<close>

theorem insert_bgp_peer_outcome:
  assumes "tx w = None"
  shows "case insert_bgp_peer rec w of
     (Inl e, w') \<Rightarrow> disk w' = disk w \<and> tx w' = None
   | (Inr _, w') \<Rightarrow> tx w' = None \<and> (\<exists>now now'. disk w' =
       after_event (p_node_id rec) SYNC_EVENT_DESIRED now'
         ((disk w)\<lparr> bgp_peers := bgp_peers (disk w) @ [bgp_row_of rec now] \<rparr>))"
  using atomic_outcome [OF atomic_peer_methods(2) insert_bgp_peer_spec assms, of rec]
  by (auto simp: insert_bgp_row_def split: prod.splits sum.splits if_splits)

theorem insert_bgp_peer_outcome_witness:
  "\<exists>w'. insert_bgp_peer sample_bgp (start_world sample_db) = (Inr (), w') \<and> tx w' = None
     \<and> (\<exists>now now'. disk w' = after_event ''n1'' SYNC_EVENT_DESIRED now'
          (sample_db\<lparr> bgp_peers := [bgp_row_of sample_bgp now] \<rparr>))"
proof -
  obtain w' where w': "insert_bgp_peer sample_bgp (start_world sample_db) = (Inr (), w')"
    using sample_insert by blast
  with insert_bgp_peer_outcome [of "start_world sample_db" sample_bgp] show ?thesis
    by (simp add: sample_db_def sample_bgp_def empty_database_def)
qed

text \<open>
  C34. The notification queue: a call of \<open>emit_sync_event\<close> that returns hands out an id above
  every id the table ever had, keeps each event among the 1000 newest ids, and leaves at most
  1255 rows, however many calls there were before.
\<close>

theorem emit_sync_event_queue:
  assumes "queue_ok (view w)" and "emit_sync_event n k w = (Inr (), w')"
  shows "queue_ok (view w') \<and> length (sync_events (view w')) \<le> 1255
    \<and> events_seq (view w') = Suc (events_seq (view w))
    \<and> (\<exists>e \<in> set (sync_events (view w')). se_node_id e = n \<and> se_kind e = k \<and> se_id e = events_seq (view w')
         \<and> (\<forall>e' \<in> set (sync_events (view w)). se_id e' < se_id e))
    \<and> (\<forall>e \<in> set (sync_events (view w)). events_seq (view w') < se_id e + 1000 \<longrightarrow> e \<in> set (sync_events (view w')))"
proof -
  from op_specD [OF emit_spec assms(2)] obtain now where v: "view w' = after_event n k now (view w)" by blast
  from assms(1) have q: "queue_ok (view w')"
    unfolding v queue_ok_def using after_event_queue [of "view w" n k now] by simp
  obtain e where "e \<in> set (sync_events (view w'))" and "se_id e = Suc (events_seq (view w))"
    and "se_node_id e = n" and "se_kind e = k"
    using after_event_in [where n = n and k = k and now = now and d = "view w"] unfolding v by blast
  moreover from assms(1) have "\<forall>e' \<in> set (sync_events (view w)). se_id e' < Suc (events_seq (view w))"
    by (auto simp: queue_ok_def ids_ok_def less_Suc_eq_le)
  moreover have "\<forall>e \<in> set (sync_events (view w)). Suc (events_seq (view w)) < se_id e + 1000 \<longrightarrow> e \<in> set (sync_events (view w'))"
    unfolding v by (auto simp: after_event_def Let_def)
  ultimately show ?thesis using q queue_length [OF q] by (auto simp: v)
qed

theorem emit_sync_event_queue_witness:
  "\<exists>w'. emit_sync_event ''n1'' SYNC_EVENT_DESIRED (start_world empty_database) = (Inr (), w')
     \<and> length (sync_events (view w')) \<le> 1255 \<and> events_seq (view w') = 1"
proof -
  let ?w = "start_world empty_database"
  have q: "queue_ok (view ?w)"
    by (simp add: queue_ok_def view_def ids_ok_def events_trimmed_def empty_database_def)
  obtain w' where "emit_sync_event ''n1'' SYNC_EVENT_DESIRED ?w = (Inr (), w')"
    by (simp add: emit_sync_event_def op_defs now_iso_def sql_dml_def insert_sync_event_def
        view_def empty_database_def SYNC_EVENTS_TRIM_EVERY_def Let_def)
  with emit_sync_event_queue [OF q this] show ?thesis
    by (auto simp: view_no_tx empty_database_def)
qed

text \<open>
  Insert, look up, delete: after an \<open>insert_bgp_peer\<close> that returned, the peer is found
  under its node and AS number with the inserted fields; after a \<open>delete_bgp_peer\<close> that
  returned a row, it is not found any more.
\<close>

theorem bgp_insert_lookup_delete:
  assumes "tx w = None" and "insert_bgp_peer rec w = (Inr (), w1)"
    and "db_delete_bgp_peer (p_node_id rec) (p_peer_asn rec) w1 = (Inr r, w2)"
  shows "(\<exists>now. find_bgp (p_node_id rec) (p_peer_asn rec) (disk w1) = Some (bgp_row_of rec now) \<and> r = Some (bgp_row_of rec now))
    \<and> find_bgp (p_node_id rec) (p_peer_asn rec) (disk w2) = None"
proof -
  let ?find = "find_bgp (p_node_id rec) (p_peer_asn rec)"
  from atomic_returns [OF atomic_peer_methods(2) insert_bgp_peer_spec assms(1,2)]
  obtain now now' d1 where tx1: "tx w1 = None" and ins: "insert_bgp_row rec now (disk w) = Inr ((), d1)"
    and d: "disk w1 = after_event (p_node_id rec) SYNC_EVENT_DESIRED now' d1"
    by blast
  from find_inserted_bgp [OF ins] have f1: "?find (disk w1) = Some (bgp_row_of rec now)"
    by (simp add: d find_bgp_def)
  with atomic_returns [OF atomic_peer_methods(4) db_delete_bgp_peer_spec tx1 assms(3)]
  obtain c now'' d2 where r: "r = Some (bgp_row_of rec now)"
    and del: "delete_bgp_rows (p_node_id rec) (p_peer_asn rec) (disk w1) = Inr (c, d2)"
    and d2: "disk w2 = after_event (p_node_id rec) SYNC_EVENT_DESIRED now'' d2"
    by auto
  from find_deleted_bgp [OF del] have "?find (disk w2) = None" by (simp add: d2 find_bgp_def)
  with f1 r show ?thesis by auto
qed

theorem bgp_insert_lookup_delete_witness:
  "\<exists>w1 w2. insert_bgp_peer sample_bgp (start_world sample_db) = (Inr (), w1)
     \<and> db_delete_bgp_peer ''n1'' 4242421234 w1 = (Inr (find_bgp ''n1'' 4242421234 (disk w1)), w2)
     \<and> find_bgp ''n1'' 4242421234 (disk w2) = None"
proof -
  obtain w1 where w1: "insert_bgp_peer sample_bgp (start_world sample_db) = (Inr (), w1)"
    and p: "tx w1 = None" "env w1 = quiet_env"
      "bgp_peers (disk w1) = [bgp_row_of sample_bgp ''2026-01-01T00:00:00+00:00'']"
    using sample_insert by blast
  obtain r w2 where w2: "db_delete_bgp_peer ''n1'' 4242421234 w1 = (Inr r, w2)"
    by (cases "db_delete_bgp_peer ''n1'' 4242421234 w1")
      (auto simp: db_delete_bgp_peer_def delete_peer_def get_bgp_peer_def find_bgp_def bgp_key_def p
        bgp_row_of_def BgpPeerRecord.defs sample_bgp_def delete_bgp_rows_def emit_sync_event_def
        insert_sync_event_def delete_sync_events_upto_def run_defs split: if_splits)
  from bgp_insert_lookup_delete [OF _ w1, of r w2] w1 w2 show ?thesis
    by (auto simp: sample_bgp_def)
qed

text \<open>
  An \<open>update_ibgp_peer\<close> that returned changed the one row of that node and name, and only
  its mutable fields: key, interface, WireGuard keys and local address stay, the link to the
  managed node stays unless it was given, and every other row of the table is untouched.
\<close>

theorem update_ibgp_peer_outcome:
  assumes "tx w = None"
    and "update_ibgp_peer n m pk ep lla port ips be rx ip bt rm w = (Inr (), w')"
  shows "(\<exists>r now. find_ibgp n m (disk w) = Some r \<and> find_ibgp n m (disk w') = Some
      (r\<lparr> p_peer_public_key := pk, p_endpoint := ep, p_peer_lla := lla, p_listen_port := port,
          p_allowed_ips := ips, p_net_backend := be, p_babel_rxcost := rx, p_peer_ip := ip,
          p_babel_type := bt,
          p_remote_node_id := (case rm of UNSET \<Rightarrow> p_remote_node_id r | Given v \<Rightarrow> v),
          i_updated_at := now \<rparr>))
    \<and> filter (\<lambda>r. \<not> ibgp_key n m r) (ibgp_peers (disk w')) = filter (\<lambda>r. \<not> ibgp_key n m r) (ibgp_peers (disk w))"
proof -
  let ?f = "\<lambda>now r. r\<lparr> p_peer_public_key := pk, p_endpoint := ep, p_peer_lla := lla, p_listen_port := port,
          p_allowed_ips := ips, p_net_backend := be, p_babel_rxcost := rx, p_peer_ip := ip,
          p_babel_type := bt,
          p_remote_node_id := (case rm of UNSET \<Rightarrow> p_remote_node_id r | Given v \<Rightarrow> v),
          i_updated_at := now \<rparr>"
  from atomic_returns [OF atomic_peer_methods(6) update_ibgp_peer_spec assms]
  obtain now now' c d1 where u: "update_ibgp_rows n m pk ep lla port ips be rx ip bt rm now (disk w) = Inr (c, d1)"
    and c: "0 < c" and d: "disk w' = after_event n SYNC_EVENT_DESIRED now' d1"
    by blast
  from u have rows: "ibgp_peers (disk w') = map (\<lambda>r. if ibgp_key n m r then ?f now r else r) (ibgp_peers (disk w))"
    by (auto simp: d update_ibgp_rows_def)
  have "find_ibgp n m (disk w) \<noteq> None"
    using u c by (auto simp: update_ibgp_rows_def find_ibgp_def find_None_set filter_empty_conv)
  moreover have "find_ibgp n m (disk w') = map_option (?f now) (find_ibgp n m (disk w))"
    unfolding find_ibgp_def rows by (rule find_map_update) (simp add: ibgp_key_def)
  moreover have "filter (\<lambda>r. \<not> ibgp_key n m r) (map (\<lambda>r. if ibgp_key n m r then ?f now r else r) rs)
      = filter (\<lambda>r. \<not> ibgp_key n m r) rs" for rs
    by (induction rs) (auto simp: ibgp_key_def)
  ultimately show ?thesis unfolding rows by auto
qed

definition sample_ibgp :: IbgpPeerRecord where
  "sample_ibgp = \<lparr> p_node_id = ''n1'', p_ifname = ''wg_b'', p_wg_private_key = ''priv'',
     p_wg_public_key = ''pub'', p_peer_public_key = None, p_endpoint = None, p_local_lla = ''fe80::1'',
     p_peer_lla = None, p_listen_port = 30000, p_allowed_ips = [''fe80::/64''], p_net_backend = ''networkd'',
     p_name = ''b'', p_babel_rxcost = 20, p_peer_ip = Some ''fd00::2'', p_has_wg = True,
     p_babel_type = ''tunnel'', p_remote_node_id = Some ''n2'' \<rparr>"

theorem update_ibgp_peer_outcome_witness:
  "\<exists>w' r. update_ibgp_peer ''n1'' ''b'' None None None 30001 [] ''networkd'' 20 None ''wired'' UNSET
       (start_world (sample_db\<lparr> ibgp_peers := [ibgp_row_of sample_ibgp ''t0''] \<rparr>)) = (Inr (), w')
     \<and> find_ibgp ''n1'' ''b'' (disk w') = Some r \<and> p_listen_port r = 30001 \<and> p_remote_node_id r = Some ''n2''"
proof -
  let ?w = "start_world (sample_db\<lparr> ibgp_peers := [ibgp_row_of sample_ibgp ''t0''] \<rparr>)"
  obtain w' where w': "update_ibgp_peer ''n1'' ''b'' None None None 30001 [] ''networkd'' 20 None ''wired'' UNSET ?w
      = (Inr (), w')"
    by (simp add: update_ibgp_peer_def update_ibgp_rows_def emit_sync_event_def run_defs insert_sync_event_def
        ibgp_key_def ibgp_row_of_def IbgpPeerRecord.defs sample_ibgp_def sample_db_def empty_database_def
        SYNC_EVENTS_TRIM_EVERY_def)
  with update_ibgp_peer_outcome [OF _ w'] show ?thesis
    by (auto simp: find_ibgp_def ibgp_key_def ibgp_row_of_def IbgpPeerRecord.defs sample_ibgp_def)
qed

end
