(* ===== verification/Managed.thy ===== *)
theory Managed
  imports Database
begin

text \<open>
  \<open>dn42ctl/db_managed.py\<close>, the registry of managed nodes: write policies, tokens, the self
  node, and the node fields with the peer rows an address change propagates to.
\<close>

section \<open>Write policies\<close>

definition DEFAULT_WRITE_POLICY :: write_policy where
  "DEFAULT_WRITE_POLICY =
     [(''peer_add'', ''review''), (''peer_modify'', ''review''), (''peer_delete'', ''review''), (''report'', ''auto'')]"

definition VALID_WRITE_POLICY_KEYS :: "string list" where
  "VALID_WRITE_POLICY_KEYS = map fst DEFAULT_WRITE_POLICY"

definition VALID_POLICY_PEER_ADD :: "string list" where
  "VALID_POLICY_PEER_ADD = [''review'', ''auto_accept'']"

definition VALID_POLICY_PEER_MODIFY :: "string list" where "VALID_POLICY_PEER_MODIFY = [''review'']"
definition VALID_POLICY_PEER_DELETE :: "string list" where "VALID_POLICY_PEER_DELETE = [''review'']"
definition VALID_POLICY_REPORT :: "string list" where "VALID_POLICY_REPORT = [''review'', ''auto'']"

fun merge_policy :: "write_policy \<Rightarrow> write_policy \<Rightarrow> write_policy result" where
  "merge_policy merged [] = Inr merged"
| "merge_policy merged ((k, v) # policy) =
     (if k \<notin> set VALID_WRITE_POLICY_KEYS then Inl (ValueError ''unknown write_policy field'')
      else merge_policy (dict_set merged k v) policy)"

definition policy_value :: "write_policy \<Rightarrow> string \<Rightarrow> string" where
  "policy_value p k = (case map_of p k of None \<Rightarrow> [] | Some v \<Rightarrow> v)"

definition validate_write_policy :: "write_policy \<Rightarrow> write_policy result" where
  "validate_write_policy policy = bindR (merge_policy DEFAULT_WRITE_POLICY policy) (\<lambda>merged.
     if policy_value merged ''peer_add'' \<notin> set VALID_POLICY_PEER_ADD then Inl (ValueError ''peer_add'')
     else if policy_value merged ''peer_modify'' \<notin> set VALID_POLICY_PEER_MODIFY then Inl (ValueError ''peer_modify'')
     else if policy_value merged ''peer_delete'' \<notin> set VALID_POLICY_PEER_DELETE then Inl (ValueError ''peer_delete'')
     else if policy_value merged ''report'' \<notin> set VALID_POLICY_REPORT then Inl (ValueError ''report'')
     else Inr merged)"

section \<open>Tokens\<close>

definition TOKEN_HASH_PREFIX :: string where "TOKEN_HASH_PREFIX = ''sha256$''"

definition hash_token :: "(string \<Rightarrow> string) \<Rightarrow> string \<Rightarrow> string" where
  "hash_token sha token = TOKEN_HASH_PREFIX @ sha token"

definition verify_token :: "(string \<Rightarrow> string) \<Rightarrow> string \<Rightarrow> string \<Rightarrow> bool" where
  "verify_token sha stored token = (stored = hash_token sha token)"

section \<open>Reading nodes\<close>

definition find_managed :: "string \<Rightarrow> database \<Rightarrow> ManagedNode option" where
  "find_managed node_id d = List.find (\<lambda>m. mn_node_id m = node_id) (managed_nodes d)"

definition managed_get :: "string \<Rightarrow> ManagedNode option wop" where
  "managed_get node_id = wrap_db ''query managed_node failed'' (sql_query (find_managed node_id))"

definition order_nodes :: "ManagedNode list \<Rightarrow> ManagedNode list" where
  "order_nodes ms = sort_key (\<lambda>m. (\<not> mn_is_self m, mn_name m)) ms"

definition managed_list_all :: "ManagedNode list wop" where
  "managed_list_all = wrap_db ''list managed_nodes failed'' (sql_query (\<lambda>d. order_nodes (managed_nodes d)))"

definition managed_list_auto_peer :: "ManagedNode list wop" where
  "managed_list_auto_peer = wrap_db ''list auto-peer nodes failed''
     (sql_query (\<lambda>d. order_nodes (filter (\<lambda>m. mn_auto_peer m \<and> mn_enabled m) (managed_nodes d))))"

definition select_self :: "database \<Rightarrow> ManagedNode option" where
  "select_self d = (case rev (sort_key (\<lambda>m. (mn_updated_at m, mn_node_id m)) (filter mn_is_self (managed_nodes d))) of
     [] \<Rightarrow> None | m # _ \<Rightarrow> Some m)"

definition managed_get_self :: "ManagedNode option wop" where
  "managed_get_self = wrap_db ''query self node failed'' (sql_query select_self)"

definition managed_authenticate :: "string \<Rightarrow> ManagedNode option wop" where
  "managed_authenticate token = bnd (read_state (\<lambda>w. sha256_hex (env w))) (\<lambda>sha.
     bnd (wrap_db ''query managed_nodes (auth) failed''
            (sql_query (\<lambda>d. filter (\<lambda>m. mn_api_token_hash m \<noteq> None \<and> mn_enabled m) (managed_nodes d)))) (\<lambda>rows.
     ret (List.find (\<lambda>m. verify_token sha (the (mn_api_token_hash m)) token) rows)))"

section \<open>Registering nodes\<close>

definition new_managed :: "string \<Rightarrow> string \<Rightarrow> bool \<Rightarrow> string \<Rightarrow> ManagedNode" where
  "new_managed node_id name is_self now = \<lparr> mn_node_id = node_id, mn_name = name, mn_api_token_hash = None,
     mn_write_policy = DEFAULT_WRITE_POLICY, mn_enabled = True, mn_is_self = is_self, mn_last_seen_at = None,
     mn_created_at = now, mn_updated_at = now, mn_endpoint_host = None, mn_own_ipv6 = None,
     mn_router_id = None, mn_auto_peer = False \<rparr>"

text \<open>The constraints of \<open>managed_nodes\<close>, checked on the table a statement would leave.\<close>

definition put_managed :: "ManagedNode list \<Rightarrow> database \<Rightarrow> (unit \<times> database) result" where
  "put_managed ms d =
     (if distinct (map mn_node_id ms) \<and> (\<forall>m \<in> set ms. has_node d (mn_node_id m))
         \<and> self_index_ok (d\<lparr> managed_nodes := ms \<rparr>)
      then Inr ((), d\<lparr> managed_nodes := ms \<rparr>) else Inl SqliteIntegrityError)"

definition insert_managed :: "string \<Rightarrow> string \<Rightarrow> string \<Rightarrow> database \<Rightarrow> (unit \<times> database) result" where
  "insert_managed node_id name now d = put_managed (managed_nodes d @ [new_managed node_id name False now]) d"

text \<open>After the write, the row is read back; the read may fail with the write already durable.\<close>

definition read_back :: "string \<Rightarrow> string \<Rightarrow> ManagedNode wop" where
  "read_back node_id msg = bnd (managed_get node_id) (\<lambda>n. case n of
     None \<Rightarrow> raise (DatabaseError msg) | Some m \<Rightarrow> ret m)"

definition managed_add :: "string \<Rightarrow> string \<Rightarrow> ManagedNode wop" where
  "managed_add node_id name = bnd now_iso (\<lambda>now.
     bnd (with_tx (\<lambda>e. if e = SqliteIntegrityError then ''node already exists'' else ''insert managed_node failed'')
            (bnd (sql_dml (upsert_node_row node_id now)) (\<lambda>_. sql_dml (insert_managed node_id name now)))) (\<lambda>_.
     read_back node_id ''managed_node missing after insert''))"

definition demote_others :: "string \<Rightarrow> string \<Rightarrow> database \<Rightarrow> (nat \<times> database) result" where
  "demote_others node_id now d =
     Inr (length (filter (\<lambda>m. mn_is_self m \<and> mn_node_id m \<noteq> node_id) (managed_nodes d)),
          d\<lparr> managed_nodes := map (\<lambda>m. if mn_is_self m \<and> mn_node_id m \<noteq> node_id
               then m\<lparr> mn_is_self := False, mn_updated_at := now \<rparr> else m) (managed_nodes d) \<rparr>)"

definition upsert_self_row :: "string \<Rightarrow> string \<Rightarrow> string \<Rightarrow> database \<Rightarrow> (unit \<times> database) result" where
  "upsert_self_row node_id name now d =
     (if find_managed node_id d \<noteq> None
      then put_managed (map (\<lambda>m. if mn_node_id m = node_id
             then m\<lparr> mn_is_self := True, mn_enabled := True, mn_updated_at := now \<rparr> else m) (managed_nodes d)) d
      else put_managed (managed_nodes d @ [new_managed node_id name True now]) d)"

definition managed_upsert_self :: "string \<Rightarrow> string \<Rightarrow> ManagedNode wop" where
  "managed_upsert_self node_id name = bnd now_iso (\<lambda>now.
     bnd (with_tx (\<lambda>_. ''upsert self node failed'')
            (bnd (sql_dml (demote_others node_id now)) (\<lambda>_.
             bnd (sql_dml (upsert_node_row node_id now)) (\<lambda>_.
             sql_dml (upsert_self_row node_id name now))))) (\<lambda>_.
     read_back node_id ''self node missing after upsert''))"

section \<open>Changing nodes\<close>

definition delete_managed_row :: "string \<Rightarrow> database \<Rightarrow> (unit \<times> database) result" where
  "delete_managed_row node_id d =
     Inr ((), d\<lparr> managed_nodes := filter (\<lambda>m. mn_node_id m \<noteq> node_id) (managed_nodes d) \<rparr>)"

definition managed_delete :: "string \<Rightarrow> bool \<Rightarrow> ManagedNode option wop" where
  "managed_delete node_id force = bnd (managed_get node_id) (\<lambda>existing. case existing of
     None \<Rightarrow> ret None
   | Some m \<Rightarrow>
       if mn_is_self m \<and> \<not> force then raise (DatabaseError ''refusing to delete the self node'')
       else bnd (with_tx (\<lambda>_. ''delete managed_node failed'')
              (bnd (sql_dml (delete_managed_row node_id)) (\<lambda>_.
               emit_sync_event node_id SYNC_EVENT_ACCESS_REVOKED))) (\<lambda>_. ret (Some m)))"

text \<open>\<open>UPDATE managed_nodes SET ... WHERE node_id = ?\<close> with the number of rows it touched.\<close>

definition update_managed ::
  "string \<Rightarrow> (ManagedNode \<Rightarrow> ManagedNode) \<Rightarrow> database \<Rightarrow> (nat \<times> database) result" where
  "update_managed node_id f d =
     Inr (length (filter (\<lambda>m. mn_node_id m = node_id) (managed_nodes d)),
          d\<lparr> managed_nodes := map (\<lambda>m. if mn_node_id m = node_id then f m else m) (managed_nodes d) \<rparr>)"

definition require_row :: "nat \<Rightarrow> string \<Rightarrow> unit wop" where
  "require_row rowcount msg =
     (if rowcount = 0 then bnd rollback (\<lambda>_. raise (DatabaseError msg)) else ret ())"

definition managed_set_token_hash :: "string \<Rightarrow> string \<Rightarrow> unit wop" where
  "managed_set_token_hash node_id h = bnd now_iso (\<lambda>now.
     with_tx (\<lambda>_. ''update token hash failed'')
       (bnd (sql_dml (update_managed node_id (\<lambda>m. m\<lparr> mn_api_token_hash := Some h, mn_updated_at := now \<rparr>))) (\<lambda>c.
        bnd (require_row c ''node not found'') (\<lambda>_.
        emit_sync_event node_id SYNC_EVENT_ACCESS_REVOKED))))"

definition managed_rotate_token :: "string \<Rightarrow> string \<Rightarrow> unit wop" where
  "managed_rotate_token node_id new_plaintext = bnd (read_state (\<lambda>w. sha256_hex (env w))) (\<lambda>sha.
     managed_set_token_hash node_id (hash_token sha new_plaintext))"

definition managed_set_write_policy :: "string \<Rightarrow> write_policy \<Rightarrow> ManagedNode wop" where
  "managed_set_write_policy node_id policy = bnd (lift_result (validate_write_policy policy)) (\<lambda>normalized.
     bnd now_iso (\<lambda>now.
     bnd (with_tx (\<lambda>_. ''update write_policy failed'')
            (bnd (sql_dml (update_managed node_id (\<lambda>m. m\<lparr> mn_write_policy := normalized, mn_updated_at := now \<rparr>))) (\<lambda>c.
             require_row c ''node not found''))) (\<lambda>_.
     read_back node_id ''managed_node missing after update'')))"

definition managed_touch_last_seen :: "string \<Rightarrow> unit wop" where
  "managed_touch_last_seen node_id = bnd now_iso (\<lambda>now.
     with_tx (\<lambda>_. ''update last_seen_at failed'')
       (bnd (sql_dml (update_managed node_id (\<lambda>m. m\<lparr> mn_last_seen_at := Some now \<rparr>))) (\<lambda>_. ret ())))"

section \<open>Fields and propagation\<close>

text \<open>
  The \<open>fields\<close> dict of \<open>_update_fields\<close>: one constructor per column of
  \<open>_UPDATABLE_NODE_COLUMNS\<close>, so the defensive check for other columns has nothing to refuse.
\<close>

datatype node_field =
    FName string
  | FEnabled bool
  | FAutoPeer bool
  | FEndpointHost "string option"
  | FOwnIpv6 "string option"
  | FRouterId "string option"

fun set_field :: "node_field \<Rightarrow> ManagedNode \<Rightarrow> ManagedNode" where
  "set_field (FName v) m = m\<lparr> mn_name := v \<rparr>"
| "set_field (FEnabled v) m = m\<lparr> mn_enabled := v \<rparr>"
| "set_field (FAutoPeer v) m = m\<lparr> mn_auto_peer := v \<rparr>"
| "set_field (FEndpointHost v) m = m\<lparr> mn_endpoint_host := v \<rparr>"
| "set_field (FOwnIpv6 v) m = m\<lparr> mn_own_ipv6 := v \<rparr>"
| "set_field (FRouterId v) m = m\<lparr> mn_router_id := v \<rparr>"

record PropagatedChange =
  pc_node_id :: string
  pc_name :: string
  pc_field :: string
  pc_old :: "string option"
  pc_new :: string

definition PROPAGATABLE_PEER_COLUMNS :: "string list" where
  "PROPAGATABLE_PEER_COLUMNS = [''peer_ip'', ''endpoint'']"

definition address_fields ::
  "string option unset \<Rightarrow> string option unset \<Rightarrow> string option unset \<Rightarrow> node_field list" where
  "address_fields endpoint_host own_ipv6 router_id =
     (case endpoint_host of UNSET \<Rightarrow> [] | Given v \<Rightarrow> [FEndpointHost v]) @
     (case own_ipv6 of UNSET \<Rightarrow> [] | Given v \<Rightarrow> [FOwnIpv6 v]) @
     (case router_id of UNSET \<Rightarrow> [] | Given v \<Rightarrow> [FRouterId v])"

definition propagate_row :: "string \<Rightarrow> PropagatedChange \<Rightarrow> database \<Rightarrow> (nat \<times> database) result" where
  "propagate_row now c d =
     Inr (length (filter (ibgp_key (pc_node_id c) (pc_name c)) (ibgp_peers d)),
          d\<lparr> ibgp_peers := map (\<lambda>r. if ibgp_key (pc_node_id c) (pc_name c) r
               then (if pc_field c = ''peer_ip'' then r\<lparr> p_peer_ip := Some (pc_new c), i_updated_at := now \<rparr>
                     else r\<lparr> p_endpoint := Some (pc_new c), i_updated_at := now \<rparr>)
               else r) (ibgp_peers d) \<rparr>)"

definition apply_change :: "string \<Rightarrow> PropagatedChange \<Rightarrow> unit wop" where
  "apply_change now c =
     (if pc_field c \<notin> set PROPAGATABLE_PEER_COLUMNS
      then bnd rollback (\<lambda>_. raise (DatabaseError ''column cannot be propagated''))
      else bnd (sql_dml (propagate_row now c)) (\<lambda>_. ret ()))"

definition managed_update_fields ::
  "string \<Rightarrow> node_field list \<Rightarrow> (string \<times> string) list \<Rightarrow> PropagatedChange list \<Rightarrow> ManagedNode wop" where
  "managed_update_fields node_id fs events changes = bnd now_iso (\<lambda>now.
     bnd (with_tx (\<lambda>_. ''update managed_node failed'')
            (bnd (sql_dml (update_managed node_id (\<lambda>m. (fold set_field fs m)\<lparr> mn_updated_at := now \<rparr>))) (\<lambda>c.
             bnd (require_row c ''node not found'') (\<lambda>_.
             bnd (for_each (apply_change now) changes) (\<lambda>_.
             for_each (\<lambda>ev. emit_sync_event (fst ev) (snd ev)) events))))) (\<lambda>_.
     read_back node_id ''managed_node missing after update''))"

definition managed_set_name :: "string \<Rightarrow> string \<Rightarrow> ManagedNode wop" where
  "managed_set_name node_id name = managed_update_fields node_id [FName name] [] []"

definition managed_set_enabled :: "string \<Rightarrow> bool \<Rightarrow> ManagedNode wop" where
  "managed_set_enabled node_id enabled = managed_update_fields node_id [FEnabled enabled]
     (if enabled then [] else [(node_id, SYNC_EVENT_ACCESS_REVOKED)]) []"

definition managed_set_addresses ::
  "string \<Rightarrow> string option unset \<Rightarrow> string option unset \<Rightarrow> string option unset \<Rightarrow> ManagedNode wop" where
  "managed_set_addresses node_id endpoint_host own_ipv6 router_id =
     (let fs = address_fields endpoint_host own_ipv6 router_id in
      if fs = [] then read_back node_id ''node not found''
      else managed_update_fields node_id fs
             (if given own_ipv6 \<or> given router_id then [(node_id, SYNC_EVENT_DESIRED)] else []) [])"

text \<open>The nodes whose rows were rewritten, each once and without the edited node itself.\<close>

fun changed_nodes :: "string list \<Rightarrow> PropagatedChange list \<Rightarrow> string list" where
  "changed_nodes seen [] = []"
| "changed_nodes seen (c # cs) =
     (if pc_node_id c \<in> set seen then changed_nodes seen cs
      else pc_node_id c # changed_nodes (pc_node_id c # seen) cs)"

definition address_events ::
  "string \<Rightarrow> bool unset \<Rightarrow> string option unset \<Rightarrow> string option unset \<Rightarrow> PropagatedChange list
   \<Rightarrow> (string \<times> string) list" where
  "address_events node_id enabled own_ipv6 router_id changes =
     (if given own_ipv6 \<or> given router_id then [(node_id, SYNC_EVENT_DESIRED)] else []) @
     map (\<lambda>n. (n, SYNC_EVENT_DESIRED)) (changed_nodes [node_id] changes) @
     (if enabled = Given False then [(node_id, SYNC_EVENT_ACCESS_REVOKED)] else [])"

definition managed_apply_address_update ::
  "string \<Rightarrow> string unset \<Rightarrow> bool unset \<Rightarrow> bool unset \<Rightarrow> string option unset \<Rightarrow> string option unset
   \<Rightarrow> string option unset \<Rightarrow> PropagatedChange list \<Rightarrow> ManagedNode wop" where
  "managed_apply_address_update node_id name enabled auto_peer endpoint_host own_ipv6 router_id changes =
     managed_update_fields node_id
       (address_fields endpoint_host own_ipv6 router_id @
        (case name of UNSET \<Rightarrow> [] | Given v \<Rightarrow> [FName v]) @
        (case enabled of UNSET \<Rightarrow> [] | Given v \<Rightarrow> [FEnabled v]) @
        (case auto_peer of UNSET \<Rightarrow> [] | Given v \<Rightarrow> [FAutoPeer v]))
       (address_events node_id enabled own_ipv6 router_id changes) changes"

section \<open>Lemmas\<close>

interpretation managed_table: keyed_table managed_nodes "\<lambda>rs d. d\<lparr> managed_nodes := rs \<rparr>" mn_node_id
  by unfold_locales simp_all

lemma set_field_key [simp]: "mn_node_id (set_field f m) = mn_node_id m" "mn_is_self (set_field f m) = mn_is_self m"
  by (cases f; simp)+

lemma fold_set_field_key [simp]:
  "mn_node_id (fold set_field fs m) = mn_node_id m" "mn_is_self (fold set_field fs m) = mn_is_self m"
  by (induction fs arbitrary: m) simp_all

lemma sqlite_only_managed [atomic]:
  "sqlite_only (insert_managed n nm now)" "sqlite_only (demote_others n now)"
  "sqlite_only (upsert_self_row n nm now)" "sqlite_only (delete_managed_row n)"
  "sqlite_only (update_managed n f)" "sqlite_only (propagate_row now c)"
  by (auto simp: sqlite_only_def insert_managed_def put_managed_def demote_others_def upsert_self_row_def
      delete_managed_row_def update_managed_def propagate_row_def split: if_splits)

lemma tx_body_require [atomic]: "tx_body (require_row c msg)"
  unfolding require_row_def by (auto intro!: atomic)

lemma tx_body_apply_change [atomic]: "tx_body (apply_change now c)"
  unfolding apply_change_def by (auto intro!: atomic)

lemma read_only_managed [atomic]:
  "read_only (managed_get n)" "read_only managed_list_all" "read_only managed_list_auto_peer"
  "read_only managed_get_self" "read_only (managed_authenticate t)" "read_only (read_back n msg)"
proof -
  have rs: "read_only (read_state f)" for f :: "world \<Rightarrow> 'x" by (simp add: read_only_def read_state_def)
  show g: "read_only (managed_get n)" unfolding managed_get_def by (auto intro!: atomic)
  show "read_only managed_list_all" "read_only managed_list_auto_peer" "read_only managed_get_self"
    unfolding managed_list_all_def managed_list_auto_peer_def managed_get_self_def by (auto intro!: atomic)
  show "read_only (managed_authenticate t)"
    unfolding managed_authenticate_def by (auto intro!: atomic rs)
  show "read_only (read_back n msg)"
    unfolding read_back_def by (rule read_only_bnd [OF g]) (auto split: option.splits intro: atomic)
qed

lemma put_managed_wf: "wf_db d \<Longrightarrow> put_managed ms d = Inr (x, d') \<Longrightarrow> wf_db d'"
  by (auto simp: put_managed_def wf_defs has_node_def pins_ok_def simp del: set_map split: if_splits)

lemma keeps_wf_managed [preserve]:
  "keeps wf_db (insert_managed n nm now)" "keeps wf_db (upsert_self_row n nm now)"
  unfolding keeps_def insert_managed_def upsert_self_row_def
  by (auto simp del: split_paired_All dest: put_managed_wf split: if_splits)

lemma single_self_filter: "single_self ms \<Longrightarrow> single_self (filter p ms)"
proof -
  have "length (filter mn_is_self (filter p ms)) \<le> length (filter mn_is_self ms)"
    by (induction ms) auto
  then show "single_self ms \<Longrightarrow> single_self (filter p ms)" by (simp add: single_self_def)
qed

lemma single_self_map:
  "(\<And>m. m \<in> set ms \<Longrightarrow> mn_is_self (f m) \<Longrightarrow> mn_is_self m) \<Longrightarrow> single_self ms \<Longrightarrow> single_self (map f ms)"
proof -
  assume a: "\<And>m. m \<in> set ms \<Longrightarrow> mn_is_self (f m) \<Longrightarrow> mn_is_self m"
  then have "length (filter mn_is_self (map f ms)) \<le> length (filter mn_is_self ms)"
    by (induction ms) auto
  then show "single_self ms \<Longrightarrow> single_self (map f ms)" by (simp add: single_self_def)
qed

lemma wf_managed_map:
  assumes "wf_db d" and "\<And>m. mn_node_id (f m) = mn_node_id m" and "\<And>m. mn_is_self (f m) \<Longrightarrow> mn_is_self m"
  shows "wf_db (d\<lparr> managed_nodes := map f (managed_nodes d) \<rparr>)"
  using assms(1) single_self_map [of "managed_nodes d" f] assms(2,3)
  by (auto simp: wf_frame comp_def)

lemma keeps_wf_managed_updates [preserve]:
  "keeps wf_db (demote_others n now)"
  "keeps wf_db (delete_managed_row n)"
  "(\<And>m. mn_node_id (f m) = mn_node_id m) \<Longrightarrow> (\<And>m. mn_is_self (f m) = mn_is_self m) \<Longrightarrow>
     keeps wf_db (update_managed n f)"
proof -
  show "keeps wf_db (demote_others n now)"
    by (auto simp: keeps_def demote_others_def intro!: wf_managed_map split: if_splits)
  show "keeps wf_db (delete_managed_row n)"
    by (auto simp: keeps_def delete_managed_row_def wf_frame distinct_map_filter_keys single_self_filter)
  show "keeps wf_db (update_managed n f)"
    if "\<And>m. mn_node_id (f m) = mn_node_id m" "\<And>m. mn_is_self (f m) = mn_is_self m"
    using that by (auto simp: keeps_def update_managed_def intro!: wf_managed_map split: if_splits)
qed

lemma keeps_wf_propagate [preserve]: "keeps wf_db (propagate_row now c)"
proof -
  have "wf_db (d\<lparr> ibgp_peers := map f (ibgp_peers d) \<rparr>)"
    if "wf_db d" "\<And>r. p_node_id (f r) = p_node_id r" "\<And>r. p_name (f r) = p_name r" "\<And>r. p_ifname (f r) = p_ifname r" for f d
    using that by (auto simp: wf_frame comp_def)
  then show ?thesis by (auto simp: keeps_def propagate_row_def)
qed

lemma preserves_wf_managed [preserve]:
  "preserves (on_world wf_db) (managed_add n nm)"
  "preserves (on_world wf_db) (managed_upsert_self n nm)"
  "preserves (on_world wf_db) (managed_delete n fc)"
  "preserves (on_world wf_db) (managed_set_token_hash n h)"
  "preserves (on_world wf_db) (managed_rotate_token n t)"
  "preserves (on_world wf_db) (managed_set_write_policy n p)"
  "preserves (on_world wf_db) (managed_touch_last_seen n)"
  "preserves (on_world wf_db) (managed_update_fields n fs evs cs)"
  unfolding managed_add_def managed_upsert_self_def managed_delete_def managed_rotate_token_def
    managed_set_token_hash_def managed_set_write_policy_def managed_touch_last_seen_def
    managed_update_fields_def apply_change_def require_row_def read_back_def managed_get_def
  by (auto intro!: preserve)

lemma managed_read_specs [specs]:
  "op_spec (managed_get n) (\<lambda>d x d'. x = find_managed n d \<and> d' = d)"
  "op_spec (managed_get_self) (\<lambda>d x d'. x = select_self d \<and> d' = d)"
  unfolding managed_get_def managed_get_self_def by (rule specs)+

lemma read_back_spec [specs]: "op_spec (read_back n msg) (\<lambda>d x d'. find_managed n d = Some x \<and> d' = d)"
  unfolding read_back_def by (rule op_spec_conseq, (rule specs)+) (auto split: option.splits)

lemma require_row_spec [specs]: "op_spec (require_row c msg) (\<lambda>d _ d'. d' = d \<and> 0 < c)"
  unfolding require_row_def by (rule op_spec_conseq, (rule specs)+) (auto split: if_splits)

lemma apply_change_spec [specs]:
  "op_spec (apply_change now c) (\<lambda>d _ d'. \<exists>k. propagate_row now c d = Inr (k, d') \<and> pc_field c \<in> set PROPAGATABLE_PEER_COLUMNS)"
  unfolding apply_change_def by (rule op_spec_conseq, (rule specs)+) (auto split: if_splits)

lemma managed_set_token_hash_spec [specs]:
  "op_spec (managed_set_token_hash n h) (\<lambda>d _ d'. \<exists>now now' c d1.
     update_managed n (\<lambda>m. m\<lparr> mn_api_token_hash := Some h, mn_updated_at := now \<rparr>) d = Inr (c, d1)
     \<and> 0 < c \<and> d' = after_event n SYNC_EVENT_ACCESS_REVOKED now' d1)"
  unfolding managed_set_token_hash_def by (rule op_spec_conseq, (rule specs)+) blast

lemma atomic_set_token_hash [atomic]: "atomic_op (managed_set_token_hash n h)"
  unfolding managed_set_token_hash_def by (auto intro!: atomic)

text \<open>The propagated changes, one after the other.\<close>

definition propagate_all :: "string \<Rightarrow> PropagatedChange list \<Rightarrow> database \<Rightarrow> database" where
  "propagate_all now cs d = fold (\<lambda>c d. snd (projr (propagate_row now c d))) cs d"

lemma propagate_frame:
  "managed_nodes (propagate_all now cs d) = managed_nodes d \<and> events_seq (propagate_all now cs d) = events_seq d
   \<and> bgp_peers (propagate_all now cs d) = bgp_peers d \<and> sync_events (propagate_all now cs d) = sync_events d"
  by (induction cs arbitrary: d) (simp_all add: propagate_all_def propagate_row_def)

lemma apply_changes_spec [specs]:
  "op_spec (for_each (apply_change now) cs) (\<lambda>d _ d'. d' = propagate_all now cs d)"
proof (induction cs)
  case Nil
  show ?case by (simp, rule op_spec_conseq, rule op_spec_ret) (simp add: propagate_all_def)
next
  case (Cons c cs)
  show ?case
    by (simp, rule op_spec_conseq, (rule op_spec_bnd apply_change_spec Cons)+)
      (auto simp: propagate_all_def)
qed

definition fields_written ::
  "string \<Rightarrow> node_field list \<Rightarrow> (string \<times> string) list \<Rightarrow> PropagatedChange list \<Rightarrow> database \<Rightarrow> database \<Rightarrow> bool" where
  "fields_written n fs evs cs d d' \<longleftrightarrow> (\<exists>now c d1.
     update_managed n (\<lambda>m. (fold set_field fs m)\<lparr> mn_updated_at := now \<rparr>) d = Inr (c, d1) \<and> 0 < c
     \<and> emitted evs (propagate_all now cs d1) d')"

lemma managed_update_fields_outcome:
  "all_or_nothing (managed_update_fields n fs evs cs) (fields_written n fs evs cs)"
  unfolding managed_update_fields_def
proof (rule all_or_nothing_after_read [OF read_only_now], rule all_or_nothing_then_read, rule all_or_nothing_atomic)
  fix now
  let ?body = "bnd (sql_dml (update_managed n (\<lambda>m. (fold set_field fs m)\<lparr> mn_updated_at := now \<rparr>))) (\<lambda>c.
             bnd (require_row c ''node not found'') (\<lambda>_.
             bnd (for_each (apply_change now) cs) (\<lambda>_.
             for_each (\<lambda>ev. emit_sync_event (fst ev) (snd ev)) evs)))"
  show "atomic_op (with_tx (\<lambda>_. ''update managed_node failed'') ?body)"
    by (auto intro!: atomic)
  show "op_spec (with_tx (\<lambda>_. ''update managed_node failed'') ?body) (\<lambda>d x d'. fields_written n fs evs cs d d')"
    by (rule op_spec_conseq, (rule specs)+) (auto simp: fields_written_def)
qed (auto intro!: atomic)

lemma managed_update_fields_spec [specs]:
  "op_spec (managed_update_fields n fs evs cs) (\<lambda>d x d'. fields_written n fs evs cs d d' \<and> find_managed n d' = Some x)"
  unfolding managed_update_fields_def
  by (rule op_spec_conseq, (rule specs)+) (auto simp: fields_written_def)

lemma managed_delete_spec [specs]:
  "op_spec (managed_delete n force) (\<lambda>d x d'. x = find_managed n d \<and> (case x of None \<Rightarrow> d' = d
     | Some m \<Rightarrow> (mn_is_self m \<longrightarrow> force) \<and> (\<exists>d1 now. delete_managed_row n d = Inr ((), d1)
         \<and> d' = after_event n SYNC_EVENT_ACCESS_REVOKED now d1)))"
  unfolding managed_delete_def
  by (rule op_spec_conseq, (rule specs)+) (auto split: option.splits if_splits)

lemma atomic_managed_delete [atomic]: "atomic_op (managed_delete n force)"
  unfolding managed_delete_def
  by (auto intro!: atomic_read_first read_only_managed atomic_option atomic_if atomic_ret atomic_then_ret
      atomic_with_tx tx_body_bnd tx_body_dml sqlite_only_managed tx_body_emit)

section \<open>Properties of write policies\<close>

definition policy_safe :: "write_policy \<Rightarrow> bool" where
  "policy_safe p =
     (map fst p = VALID_WRITE_POLICY_KEYS
      \<and> policy_value p ''peer_add'' \<in> {''review'', ''auto_accept''}
      \<and> policy_value p ''peer_modify'' = ''review'' \<and> policy_value p ''peer_delete'' = ''review''
      \<and> policy_value p ''report'' \<in> {''review'', ''auto''})"

definition policies_ok :: "database \<Rightarrow> bool" where
  "policies_ok d = (\<forall>m \<in> set (managed_nodes d). policy_safe (mn_write_policy m))"

lemma dict_set_same_keys: "k \<in> set (map fst d) \<Longrightarrow> map fst (dict_set d k v) = map fst d"
proof (induction d)
  case (Cons kv d)
  then show ?case by (cases kv) auto
qed simp

lemma merge_policy_keys:
  "merge_policy m p = Inr q \<Longrightarrow> map fst m = VALID_WRITE_POLICY_KEYS \<Longrightarrow> map fst q = VALID_WRITE_POLICY_KEYS"
proof (induction m p rule: merge_policy.induct)
  case (2 m k v p)
  then show ?case by (auto simp: dict_set_same_keys simp del: set_map split: if_splits)
qed simp

lemma validate_write_policy_safe: "validate_write_policy p = Inr q \<Longrightarrow> policy_safe q"
  by (auto simp: validate_write_policy_def bindR_def policy_safe_def VALID_POLICY_PEER_ADD_def
      VALID_POLICY_PEER_MODIFY_def VALID_POLICY_PEER_DELETE_def VALID_POLICY_REPORT_def
      dest: merge_policy_keys simp: VALID_WRITE_POLICY_KEYS_def split: sum.splits if_splits)

lemma default_policy_safe: "policy_safe DEFAULT_WRITE_POLICY"
  by (simp add: policy_safe_def policy_value_def DEFAULT_WRITE_POLICY_def VALID_WRITE_POLICY_KEYS_def)

lemma set_field_policy [simp]: "mn_write_policy (fold set_field fs m) = mn_write_policy m"
proof (induction fs arbitrary: m)
  case (Cons f fs)
  then show ?case by (cases f) simp_all
qed simp

lemma keeps_policies [preserve]:
  "keeps policies_ok (insert_managed n nm now)" "keeps policies_ok (upsert_self_row n nm now)"
  "keeps policies_ok (demote_others n now)" "keeps policies_ok (delete_managed_row n)"
  "(\<And>m. policy_safe (mn_write_policy m) \<Longrightarrow> policy_safe (mn_write_policy (f m))) \<Longrightarrow> keeps policies_ok (update_managed n f)"
  "keeps policies_ok (upsert_node_row n now)" "keeps policies_ok (propagate_row now c)"
  "keeps policies_ok (insert_sync_event n k now)" "keeps policies_ok (delete_sync_events_upto b)"
  by (auto simp: keeps_def policies_ok_def insert_managed_def upsert_self_row_def put_managed_def new_managed_def
      default_policy_safe demote_others_def delete_managed_row_def update_managed_def upsert_node_row_def
      propagate_row_def insert_sync_event_def delete_sync_events_upto_def Let_def split: if_splits)

lemma preserves_policies_emit [preserve]: "preserves (on_world policies_ok) (emit_sync_event n k)"
  unfolding emit_sync_event_def by (auto intro!: preserve)

lemma preserves_policies_set_policy:
  "preserves (on_world policies_ok) (managed_set_write_policy n p)"
proof (cases "validate_write_policy p")
  case (Inl e)
  then show ?thesis
    by (simp add: managed_set_write_policy_def bnd_def lift_result_def preserves_def)
next
  case (Inr q)
  from validate_write_policy_safe [OF Inr] have "preserves (on_world policies_ok)
     (bnd now_iso (\<lambda>now.
     bnd (with_tx (\<lambda>_. ''update write_policy failed'')
            (bnd (sql_dml (update_managed n (\<lambda>m. m\<lparr> mn_write_policy := q, mn_updated_at := now \<rparr>))) (\<lambda>c.
             require_row c ''node not found''))) (\<lambda>_.
     read_back n ''managed_node missing after update'')))"
    unfolding require_row_def read_back_def managed_get_def by (auto intro!: preserve)
  with Inr show ?thesis by (simp add: managed_set_write_policy_def bnd_def lift_result_def)
qed

text \<open>
  C4. No node ever holds a policy that applies its change or delete requests without review:
  every operation of the registry, whatever it returns or raises and whichever statement
  fails, keeps all stored policies complete, with \<open>peer_modify\<close> and \<open>peer_delete\<close> at
  \<open>review\<close>.
\<close>

theorem policies_stay_safe:
  "preserves (on_world policies_ok) (managed_add n nm)
   \<and> preserves (on_world policies_ok) (managed_upsert_self n nm)
   \<and> preserves (on_world policies_ok) (managed_delete n fc)
   \<and> preserves (on_world policies_ok) (managed_set_token_hash n h)
   \<and> preserves (on_world policies_ok) (managed_rotate_token n t)
   \<and> preserves (on_world policies_ok) (managed_set_write_policy n p)
   \<and> preserves (on_world policies_ok) (managed_touch_last_seen n)
   \<and> preserves (on_world policies_ok) (managed_set_name n nm)
   \<and> preserves (on_world policies_ok) (managed_set_enabled n en')
   \<and> preserves (on_world policies_ok) (managed_set_addresses n eh ip rid)
   \<and> preserves (on_world policies_ok) (managed_apply_address_update n nm' en ap eh ip rid cs)"
proof (intro conjI)
  show "preserves (on_world policies_ok) (managed_set_write_policy n p)"
    by (rule preserves_policies_set_policy)
qed (unfold managed_add_def managed_upsert_self_def managed_delete_def managed_rotate_token_def
    managed_set_token_hash_def managed_touch_last_seen_def managed_apply_address_update_def
    managed_set_name_def managed_set_enabled_def managed_set_addresses_def Let_def
    managed_update_fields_def apply_change_def require_row_def read_back_def managed_get_def,
  (auto intro!: preserve)+)

section \<open>Properties of tokens and revocation\<close>

lemma managed_authenticate_sound:
  assumes "managed_authenticate t w = (Inr (Some m), w')"
  shows "m \<in> set (managed_nodes (view w))" and "mn_enabled m"
    and "mn_api_token_hash m = Some (hash_token (sha256_hex (env w)) t)"
  using assms
  by (auto simp: managed_authenticate_def op_defs wrap_db_def sql_query_def verify_token_def
      split: if_splits dest!: find_Some_set)

lemma update_managed_rows:
  "update_managed n f d = Inr (c, d') \<Longrightarrow>
   managed_nodes d' = map (\<lambda>m. if mn_node_id m = n then f m else m) (managed_nodes d)"
  by (auto simp: update_managed_def)

lemma update_managed_find:
  "update_managed n f d = Inr (c, d') \<Longrightarrow> (\<And>m. mn_node_id (f m) = mn_node_id m) \<Longrightarrow>
   find_managed n d' = map_option f (find_managed n d)"
  using managed_table.lookup_updated [of f n d] by (auto simp: update_managed_def find_managed_def)

lemma find_managed_mem: "wf_db d \<Longrightarrow> m \<in> set (managed_nodes d) \<Longrightarrow> find_managed (mn_node_id m) d = Some m"
  by (auto simp: find_managed_def wf_defs intro: find_distinct_key)

text \<open>
  C15. Authentication and rotation: the node a token is accepted for is registered, enabled and
  stores that token's hash; and once \<open>rotate_token\<close> has returned, no other token is accepted
  for that node, provided SHA-256 has no collision between the two tokens.
\<close>

theorem rotate_token_revokes_old:
  assumes "wf_db (disk w)" and "tx w = None"
    and "managed_rotate_token n t w = (Inr (), w1)"
    and "managed_authenticate t' w1 = (Inr (Some m), w2)"
    and "sha256_hex (env w1) t' \<noteq> sha256_hex (env w) t"
  shows "mn_node_id m \<noteq> n \<and> mn_enabled m \<and> m \<in> set (managed_nodes (disk w1))
    \<and> mn_api_token_hash m = Some (hash_token (sha256_hex (env w1)) t')"
proof -
  let ?h = "hash_token (sha256_hex (env w)) t"
  have "managed_set_token_hash n ?h w = (Inr (), w1)"
    using assms(3) by (simp add: managed_rotate_token_def bnd_def read_state_def)
  from atomic_returns [OF atomic_set_token_hash managed_set_token_hash_spec assms(2) this]
  obtain now now' c d1 where tx1: "tx w1 = None"
    and u: "update_managed n (\<lambda>m. m\<lparr> mn_api_token_hash := Some ?h, mn_updated_at := now \<rparr>) (disk w) = Inr (c, d1)"
    and d: "disk w1 = after_event n SYNC_EVENT_ACCESS_REVOKED now' d1"
    by blast
  note auth = managed_authenticate_sound [OF assms(4)]
  from auth(1) tx1 have m: "m \<in> set (managed_nodes (disk w1))" by (simp add: view_no_tx)
  have "mn_node_id m \<noteq> n"
  proof
    assume n: "mn_node_id m = n"
    from m have "m \<in> set (managed_nodes d1)" by (simp add: d)
    then obtain x where x: "m = (if mn_node_id x = n
        then x\<lparr> mn_api_token_hash := Some ?h, mn_updated_at := now \<rparr> else x)"
      unfolding update_managed_rows [OF u] set_map by blast
    have "mn_api_token_hash m = Some ?h"
    proof (cases "mn_node_id x = n")
      case True
      with x show ?thesis by simp
    next
      case False
      with x n show ?thesis by simp
    qed
    with auth(3) assms(5) show False by (simp add: hash_token_def)
  qed
  with auth m show ?thesis by blast
qed

definition sample_managed :: database where
  "sample_managed = sample_db\<lparr> managed_nodes :=
     [(new_managed ''n1'' ''alpha'' False ''t0'')\<lparr> mn_api_token_hash := Some ''sha256$old'' \<rparr>,
      (new_managed ''n2'' ''beta'' False ''t0'')\<lparr> mn_api_token_hash := Some ''sha256$tok2'' \<rparr>],
     nodes := [\<lparr> n_node_id = ''n1'', n_created_at = ''t0'', n_updated_at = ''t0'' \<rparr>,
               \<lparr> n_node_id = ''n2'', n_created_at = ''t0'', n_updated_at = ''t0'' \<rparr>] \<rparr>"

lemma sample_managed_wf: "wf_db sample_managed"
  by (simp add: sample_managed_def sample_db_def empty_database_def wf_frame ids_ok_def new_managed_def single_self_def)

lemma sample_rotate:
  "\<exists>w1. managed_rotate_token ''n1'' ''new'' (start_world sample_managed) = (Inr (), w1) \<and> tx w1 = None
     \<and> env w1 = quiet_env \<and> managed_nodes (disk w1) =
       [(new_managed ''n1'' ''alpha'' False ''t0'')\<lparr> mn_api_token_hash := Some ''sha256$new'', mn_updated_at := ''2026-01-01T00:00:00+00:00'' \<rparr>,
        (new_managed ''n2'' ''beta'' False ''t0'')\<lparr> mn_api_token_hash := Some ''sha256$tok2'' \<rparr>]"
  by (simp add: managed_rotate_token_def managed_set_token_hash_def emit_sync_event_def run_defs
      insert_sync_event_def update_managed_def require_row_def hash_token_def TOKEN_HASH_PREFIX_def
      sample_managed_def sample_db_def empty_database_def new_managed_def SYNC_EVENTS_TRIM_EVERY_def)

theorem rotate_token_revokes_old_witness:
  "\<exists>w1 w2 m. managed_rotate_token ''n1'' ''new'' (start_world sample_managed) = (Inr (), w1)
     \<and> managed_authenticate ''tok2'' w1 = (Inr (Some m), w2) \<and> mn_node_id m \<noteq> ''n1'' \<and> mn_enabled m"
proof -
  obtain w1 where w1: "managed_rotate_token ''n1'' ''new'' (start_world sample_managed) = (Inr (), w1)"
    and p: "tx w1 = None" "env w1 = quiet_env" "managed_nodes (disk w1) =
       [(new_managed ''n1'' ''alpha'' False ''t0'')\<lparr> mn_api_token_hash := Some ''sha256$new'', mn_updated_at := ''2026-01-01T00:00:00+00:00'' \<rparr>,
        (new_managed ''n2'' ''beta'' False ''t0'')\<lparr> mn_api_token_hash := Some ''sha256$tok2'' \<rparr>]"
    using sample_rotate by blast
  obtain m w2 where w2: "managed_authenticate ''tok2'' w1 = (Inr (Some m), w2)"
    using p by (simp add: managed_authenticate_def run_defs verify_token_def hash_token_def
        TOKEN_HASH_PREFIX_def new_managed_def)
  from rotate_token_revokes_old [OF _ _ w1 w2] w1 w2 show ?thesis
    by (auto simp: sample_managed_wf p)
qed

definition announced :: "string \<Rightarrow> database \<Rightarrow> database \<Rightarrow> bool" where
  "announced n d d' \<longleftrightarrow> (\<exists>e \<in> set (sync_events d'). se_node_id e = n \<and> se_kind e = SYNC_EVENT_ACCESS_REVOKED \<and> events_seq d < se_id e)"

definition node_changed :: "string \<Rightarrow> (ManagedNode \<Rightarrow> ManagedNode) \<Rightarrow> database \<Rightarrow> database \<Rightarrow> bool" where
  "node_changed n f d d' \<longleftrightarrow> (\<exists>m \<in> set (managed_nodes d). mn_node_id m = n)
     \<and> managed_nodes d' = map (\<lambda>m. if mn_node_id m = n then f m else m) (managed_nodes d)"

lemma announced_after_event: "events_seq d1 = events_seq d \<Longrightarrow> announced n d (after_event n SYNC_EVENT_ACCESS_REVOKED now d1)"
  using after_event_announces [of n SYNC_EVENT_ACCESS_REVOKED now d1] by (auto simp: announced_def)

lemma delete_announced:
  assumes "tx w = None" and "managed_delete n force w = (r, w')"
  shows "tx w' = None \<and> (case r of
     Inr (Some m) \<Rightarrow> find_managed n (disk w) = Some m \<and> managed_nodes (disk w') = filter (\<lambda>m. mn_node_id m \<noteq> n) (managed_nodes (disk w))
       \<and> announced n (disk w) (disk w')
   | _ \<Rightarrow> disk w' = disk w)"
proof (cases r)
  case (Inl e)
  with atomic_raises [OF atomic_managed_delete assms(1)] assms(2) show ?thesis by auto
next
  case (Inr x)
  from atomic_returns [OF atomic_managed_delete managed_delete_spec assms(1) assms(2) [unfolded Inr]] Inr show ?thesis
    by (auto simp: delete_managed_row_def intro!: announced_after_event split: option.splits)
qed

lemma token_hash_announced:
  assumes "tx w = None" and "managed_set_token_hash n h w = (r, w')"
  shows "tx w' = None \<and> (case r of
     Inr _ \<Rightarrow> (\<exists>now. node_changed n (\<lambda>m. m\<lparr> mn_api_token_hash := Some h, mn_updated_at := now \<rparr>) (disk w) (disk w')) \<and> announced n (disk w) (disk w')
   | Inl _ \<Rightarrow> disk w' = disk w)"
proof (cases r)
  case (Inl e)
  with atomic_raises [OF atomic_set_token_hash assms(1)] assms(2) show ?thesis by auto
next
  case (Inr x)
  from atomic_returns [OF atomic_set_token_hash managed_set_token_hash_spec assms(1) assms(2) [unfolded Inr]]
  obtain now now' c d1 where "tx w' = None" "0 < c"
    and u: "update_managed n (\<lambda>m. m\<lparr> mn_api_token_hash := Some h, mn_updated_at := now \<rparr>) (disk w) = Inr (c, d1)"
    and d: "disk w' = after_event n SYNC_EVENT_ACCESS_REVOKED now' d1" by blast
  moreover have "announced n (disk w) (disk w')" unfolding d by (rule announced_after_event) (use u in \<open>auto simp: update_managed_def\<close>)
  ultimately show ?thesis using Inr by (auto simp: update_managed_def node_changed_def filter_empty_conv)
qed

lemma disable_announced:
  assumes "tx w = None" and "managed_set_enabled n False w = (r, w')"
  shows "tx w' = None \<and> ((\<exists>now. node_changed n (\<lambda>m. m\<lparr> mn_enabled := False, mn_updated_at := now \<rparr>) (disk w) (disk w')) \<and> announced n (disk w) (disk w')
     \<or> (\<exists>e. r = Inl e) \<and> disk w' = disk w)"
proof -
  note aon = managed_update_fields_outcome [of n "[FEnabled False]" "[(n, SYNC_EVENT_ACCESS_REVOKED)]" "[]"]
  have e: "managed_update_fields n [FEnabled False] [(n, SYNC_EVENT_ACCESS_REVOKED)] [] w = (r, w')"
    using assms(2) by (simp add: managed_set_enabled_def)
  have "(\<exists>now. node_changed n (\<lambda>m. m\<lparr> mn_enabled := False, mn_updated_at := now \<rparr>) (disk w) (disk w')) \<and> announced n (disk w) (disk w')"
    if w: "fields_written n [FEnabled False] [(n, SYNC_EVENT_ACCESS_REVOKED)] [] (disk w) (disk w')"
  proof -
    from w obtain now c d1 where "0 < c"
      and u: "update_managed n (\<lambda>m. (fold set_field [FEnabled False] m)\<lparr> mn_updated_at := now \<rparr>) (disk w) = Inr (c, d1)"
      and em: "emitted [(n, SYNC_EVENT_ACCESS_REVOKED)] d1 (disk w')"
      by (auto simp: fields_written_def propagate_all_def)
    from u have s: "events_seq d1 = events_seq (disk w)" by (auto simp: update_managed_def)
    from em have "managed_nodes (disk w') = managed_nodes d1" using emitted_frame by blast
    moreover have "announced n (disk w) (disk w')"
      using emitted_announces [OF em, of n SYNC_EVENT_ACCESS_REVOKED] s by (auto simp: announced_def)
    ultimately show ?thesis using u \<open>0 < c\<close> by (auto simp: update_managed_def node_changed_def filter_empty_conv)
  qed
  with all_or_nothingD [OF aon assms(1) e] show ?thesis by (cases r) auto
qed

text \<open>
  C37. Taking access away and announcing it are one change. A deletion or a token rotation that
  returns has removed the row, or given it the new hash, and has committed an
  \<open>access_revoked\<close> event for the node with a fresh id; if it raises, or there was nothing to delete, the
  database is as before. Disabling a node has durably done both or neither, and both if it
  returns. No other row of the registry changes.
\<close>

theorem revocation_is_announced:
  assumes "tx w = None"
  shows "(case managed_delete n force w of (r, w') \<Rightarrow> tx w' = None \<and> (case r of
            Inr (Some m) \<Rightarrow> find_managed n (disk w) = Some m
              \<and> managed_nodes (disk w') = filter (\<lambda>m. mn_node_id m \<noteq> n) (managed_nodes (disk w)) \<and> announced n (disk w) (disk w')
          | _ \<Rightarrow> disk w' = disk w))
    \<and> (case managed_rotate_token n t w of (r, w') \<Rightarrow> tx w' = None \<and> (case r of
            Inr _ \<Rightarrow> (\<exists>now. node_changed n (\<lambda>m. m\<lparr> mn_api_token_hash := Some (hash_token (sha256_hex (env w)) t), mn_updated_at := now \<rparr>) (disk w) (disk w'))
              \<and> announced n (disk w) (disk w')
          | Inl _ \<Rightarrow> disk w' = disk w))
    \<and> (case managed_set_enabled n False w of (r, w') \<Rightarrow> tx w' = None \<and>
          ((\<exists>now. node_changed n (\<lambda>m. m\<lparr> mn_enabled := False, mn_updated_at := now \<rparr>) (disk w) (disk w')) \<and> announced n (disk w) (disk w')
           \<or> (\<exists>e. r = Inl e) \<and> disk w' = disk w))"
proof (intro conjI)
  show "case managed_delete n force w of (r, w') \<Rightarrow> tx w' = None \<and> (case r of
            Inr (Some m) \<Rightarrow> find_managed n (disk w) = Some m
              \<and> managed_nodes (disk w') = filter (\<lambda>m. mn_node_id m \<noteq> n) (managed_nodes (disk w)) \<and> announced n (disk w) (disk w')
          | _ \<Rightarrow> disk w' = disk w)"
    using delete_announced [OF assms, of n force] by (auto split: prod.split)
  have "managed_rotate_token n t w = managed_set_token_hash n (hash_token (sha256_hex (env w)) t) w"
    by (simp add: managed_rotate_token_def bnd_def read_state_def)
  then show "case managed_rotate_token n t w of (r, w') \<Rightarrow> tx w' = None \<and> (case r of
            Inr _ \<Rightarrow> (\<exists>now. node_changed n (\<lambda>m. m\<lparr> mn_api_token_hash := Some (hash_token (sha256_hex (env w)) t), mn_updated_at := now \<rparr>) (disk w) (disk w'))
              \<and> announced n (disk w) (disk w')
          | Inl _ \<Rightarrow> disk w' = disk w)"
    using token_hash_announced [OF assms, of n] by (auto split: prod.split)
  show "case managed_set_enabled n False w of (r, w') \<Rightarrow> tx w' = None \<and>
          ((\<exists>now. node_changed n (\<lambda>m. m\<lparr> mn_enabled := False, mn_updated_at := now \<rparr>) (disk w) (disk w')) \<and> announced n (disk w) (disk w')
           \<or> (\<exists>e. r = Inl e) \<and> disk w' = disk w)"
    using disable_announced [OF assms, of n] by (auto split: prod.split)
qed

theorem revocation_is_announced_witness:
  "\<exists>w'. managed_rotate_token ''n1'' ''new'' (start_world sample_managed) = (Inr (), w')
     \<and> announced ''n1'' sample_managed (disk w') \<and> map mn_api_token_hash (managed_nodes (disk w')) = [Some ''sha256$new'', Some ''sha256$tok2'']"
proof -
  obtain w1 where w1: "managed_rotate_token ''n1'' ''new'' (start_world sample_managed) = (Inr (), w1)"
    using sample_rotate by blast
  with revocation_is_announced [of "start_world sample_managed" "''n1''" False "''new''"] show ?thesis
    by (auto simp: node_changed_def sample_managed_def new_managed_def hash_token_def TOKEN_HASH_PREFIX_def)
qed

section \<open>Properties of the self node\<close>

definition self_upserted :: "string \<Rightarrow> string \<Rightarrow> string \<Rightarrow> database \<Rightarrow> database \<Rightarrow> bool" where
  "self_upserted n nm now d d' \<longleftrightarrow> (\<exists>c d1 d2. demote_others n now d = Inr (c, d1)
     \<and> upsert_node_row n now d1 = Inr ((), d2) \<and> upsert_self_row n nm now d2 = Inr ((), d'))"

lemma managed_upsert_self_outcome:
  "all_or_nothing (managed_upsert_self n nm) (\<lambda>d d'. \<exists>now. self_upserted n nm now d d')"
  unfolding managed_upsert_self_def
proof (rule all_or_nothing_after_read [OF read_only_now], rule all_or_nothing_then_read, rule all_or_nothing_atomic)
  fix now
  let ?body = "bnd (sql_dml (demote_others n now)) (\<lambda>_. bnd (sql_dml (upsert_node_row n now)) (\<lambda>_.
             sql_dml (upsert_self_row n nm now)))"
  show "atomic_op (with_tx (\<lambda>_. ''upsert self node failed'') ?body)"
    by (auto intro!: atomic)
  show "op_spec (with_tx (\<lambda>_. ''upsert self node failed'') ?body) (\<lambda>d x d'. \<exists>now. self_upserted n nm now d d')"
    by (rule op_spec_conseq, (rule specs)+) (auto simp: self_upserted_def)
qed (auto intro!: atomic)

lemma managed_upsert_self_reads:
  "op_spec (managed_upsert_self n nm) (\<lambda>d x d'. find_managed n d' = Some x)"
  unfolding managed_upsert_self_def by (rule op_spec_conseq, (rule specs)+) auto

definition promote :: "string \<Rightarrow> string \<Rightarrow> ManagedNode \<Rightarrow> ManagedNode" where
  "promote n now m = (if mn_node_id m = n then m\<lparr> mn_is_self := True, mn_enabled := True, mn_updated_at := now \<rparr>
     else if mn_is_self m then m\<lparr> mn_is_self := False, mn_updated_at := now \<rparr> else m)"

lemma promote_simps [simp]:
  "mn_node_id (promote n now m) = mn_node_id m" "mn_is_self (promote n now m) = (mn_node_id m = n)"
  "mn_name (promote n now m) = mn_name m" "mn_api_token_hash (promote n now m) = mn_api_token_hash m"
  "mn_write_policy (promote n now m) = mn_write_policy m"
  by (simp_all add: promote_def)

lemma self_upserted_rows:
  assumes "self_upserted n nm now d d'"
  shows "managed_nodes d' = (case find_managed n d of
       None \<Rightarrow> map (promote n now) (managed_nodes d) @ [new_managed n nm True now]
     | Some _ \<Rightarrow> map (promote n now) (managed_nodes d))"
    and "bgp_peers d' = bgp_peers d" and "ibgp_peers d' = ibgp_peers d"
proof -
  let ?f = "\<lambda>m. if mn_is_self m \<and> mn_node_id m \<noteq> n then m\<lparr> mn_is_self := False, mn_updated_at := now \<rparr> else m"
  let ?g = "\<lambda>m. if mn_node_id m = n then m\<lparr> mn_is_self := True, mn_enabled := True, mn_updated_at := now \<rparr> else m"
  from assms obtain c d1 d2 where s: "demote_others n now d = Inr (c, d1)" "upsert_node_row n now d1 = Inr ((), d2)"
    and up: "upsert_self_row n nm now d2 = Inr ((), d')"
    unfolding self_upserted_def by blast
  from s have d2: "managed_nodes d2 = map ?f (managed_nodes d)" "bgp_peers d2 = bgp_peers d" "ibgp_peers d2 = ibgp_peers d"
    by (auto simp: demote_others_def upsert_node_row_def split: if_splits)
  have "(find_managed n d2 = None) = (find_managed n d = None)"
    by (auto simp: find_managed_def d2 find_None_set)
  moreover have "map ?g (map ?f ms) = map (promote n now) ms" for ms
    by (auto simp: promote_def)
  moreover have "map ?f (managed_nodes d) = map (promote n now) (managed_nodes d)" if "find_managed n d = None"
    using that by (auto simp: promote_def find_managed_def find_None_set)
  ultimately show "managed_nodes d' = (case find_managed n d of
       None \<Rightarrow> map (promote n now) (managed_nodes d) @ [new_managed n nm True now]
     | Some _ \<Rightarrow> map (promote n now) (managed_nodes d))"
    using up by (auto simp: upsert_self_row_def put_managed_def d2 split: if_splits option.splits)
  show "bgp_peers d' = bgp_peers d" and "ibgp_peers d' = ibgp_peers d"
    using up by (auto simp: upsert_self_row_def put_managed_def d2 split: if_splits)
qed

lemma promoted_selves:
  assumes "distinct (map mn_node_id ms)" and "m \<in> set ms" and "mn_node_id m = n"
  shows "filter mn_is_self (map (promote n now) ms) = [promote n now m]"
proof -
  have "filter (mn_is_self \<circ> promote n now) ms = [m]"
    using filter_key_single [OF assms(1,2)] assms(3) by (simp add: comp_def)
  then show ?thesis by (simp add: filter_map)
qed

lemma promoted_none:
  "n \<notin> mn_node_id ` set ms \<Longrightarrow> filter mn_is_self (map (promote n now) ms) = []"
  by (auto simp: filter_empty_conv)

text \<open>
  \<open>upsert_self\<close> leaves exactly one self row, the one asked for and enabled, whichever rows
  were marked before; a row that existed keeps its name, token and write policy, and no peer
  row changes.
\<close>

theorem upsert_self_unique:
  assumes "wf_db (disk w)" and "tx w = None" and "managed_upsert_self n nm w = (Inr m, w')"
  shows "filter mn_is_self (managed_nodes (disk w')) = [m] \<and> mn_node_id m = n \<and> mn_enabled m
    \<and> (case find_managed n (disk w) of
         None \<Rightarrow> mn_name m = nm
       | Some m0 \<Rightarrow> mn_name m = mn_name m0 \<and> mn_api_token_hash m = mn_api_token_hash m0
           \<and> mn_write_policy m = mn_write_policy m0)
    \<and> bgp_peers (disk w') = bgp_peers (disk w) \<and> ibgp_peers (disk w') = ibgp_peers (disk w)"
proof -
  from all_or_nothingD(1,3) [OF managed_upsert_self_outcome assms(2,3)]
  obtain now where tx: "tx w' = None" and up: "self_upserted n nm now (disk w) (disk w')" by blast
  note rows = self_upserted_rows [OF up]
  from op_specD [OF managed_upsert_self_reads assms(3)] tx have f: "find_managed n (disk w') = Some m"
    by (simp add: view_no_tx)
  have dist: "distinct (map mn_node_id (managed_nodes (disk w)))" using assms(1) by (simp add: wf_defs)
  show ?thesis
  proof (cases "find_managed n (disk w)")
    case None
    then have fresh: "n \<notin> mn_node_id ` set (managed_nodes (disk w))"
      by (auto simp: find_managed_def find_None_set)
    have "List.find (\<lambda>m. mn_node_id m = n) (map (promote n now) (managed_nodes (disk w))) = None"
      using fresh by (auto simp: find_None_set)
    then have "m = new_managed n nm True now"
      using f None rows(1) by (simp add: find_managed_def find_append new_managed_def)
    with None rows promoted_none [OF fresh] show ?thesis by (simp add: new_managed_def)
  next
    case (Some m0)
    then have m0: "m0 \<in> set (managed_nodes (disk w))" "mn_node_id m0 = n"
      by (auto simp: find_managed_def dest: find_Some_set)
    have "m = promote n now m0"
    proof -
      have "List.find (\<lambda>m. mn_node_id m = n) (map (promote n now) xs) = map_option (promote n now) (List.find (\<lambda>m. mn_node_id m = n) xs)" for xs
        by (induction xs) auto
      with f Some rows(1) show ?thesis by (simp add: find_managed_def)
    qed
    with Some rows promoted_selves [OF dist m0] m0 show ?thesis by (simp add: promote_def)
  qed
qed

theorem upsert_self_unique_witness:
  "\<exists>m w'. managed_upsert_self ''n2'' ''self'' (start_world sample_managed) = (Inr m, w')
     \<and> filter mn_is_self (managed_nodes (disk w')) = [m] \<and> mn_name m = ''beta''"
proof -
  obtain m w' where w': "managed_upsert_self ''n2'' ''self'' (start_world sample_managed) = (Inr m, w')"
    by (simp add: managed_upsert_self_def run_defs demote_others_def upsert_node_row_def upsert_self_row_def
        put_managed_def has_node_def self_index_ok_def read_back_def managed_get_def find_managed_def
        sample_managed_def sample_db_def empty_database_def new_managed_def)
  have "find_managed ''n2'' sample_managed
      = Some ((new_managed ''n2'' ''beta'' False ''t0'')\<lparr> mn_api_token_hash := Some ''sha256$tok2'' \<rparr>)"
    by (simp add: find_managed_def sample_managed_def new_managed_def)
  with upsert_self_unique [OF _ _ w'] w' show ?thesis
    by (auto simp: sample_managed_wf new_managed_def)
qed

end
