(* ===== verification/Stores.thy ===== *)
theory Stores
  imports Managed
begin

text \<open>
  The other stores of \<open>dn42ctl/db_managed.py\<close>: configuration proposals, node reports, the
  revision history with its rollback pin, and the read side of the notification queue.
\<close>

section \<open>Proposals\<close>

definition VALID_PROPOSAL_SOURCES :: "string list" where "VALID_PROPOSAL_SOURCES = [''push'', ''scan'']"
definition VALID_PROPOSAL_KINDS :: "string list" where
  "VALID_PROPOSAL_KINDS = [''peer_add'', ''peer_modify'', ''peer_delete'']"
definition VALID_PROPOSAL_STATUSES :: "string list" where
  "VALID_PROPOSAL_STATUSES = [''pending'', ''accepted'', ''rejected'']"

definition find_proposal :: "nat \<Rightarrow> database \<Rightarrow> ConfigProposal option" where
  "find_proposal i d = List.find (\<lambda>p. cp_id p = i) (config_proposals d)"

definition proposal_get :: "nat \<Rightarrow> ConfigProposal option wop" where
  "proposal_get i = wrap_db ''query proposal failed'' (sql_query (find_proposal i))"

definition proposal_read_back :: "nat \<Rightarrow> string \<Rightarrow> ConfigProposal wop" where
  "proposal_read_back i msg = bnd (proposal_get i) (\<lambda>p. case p of
     None \<Rightarrow> raise (DatabaseError msg) | Some x \<Rightarrow> ret x)"

definition insert_proposal ::
  "string \<Rightarrow> string \<Rightarrow> string \<Rightarrow> jdict \<Rightarrow> string \<Rightarrow> database \<Rightarrow> (nat \<times> database) result" where
  "insert_proposal node_id source kind payload now d = (let i = Suc (proposals_seq d) in
     if \<not> has_node d node_id then Inl SqliteIntegrityError
     else Inr (i, d\<lparr> config_proposals := config_proposals d @
            [\<lparr> cp_id = i, cp_node_id = node_id, cp_source = source, cp_kind = kind, cp_payload = payload,
               cp_status = ''pending'', cp_received_at = now, cp_decided_at = None, cp_message = None \<rparr>],
          proposals_seq := i \<rparr>))"

definition proposal_add :: "string \<Rightarrow> string \<Rightarrow> string \<Rightarrow> jdict \<Rightarrow> ConfigProposal wop" where
  "proposal_add node_id source kind payload =
     (if source \<notin> set VALID_PROPOSAL_SOURCES then raise (DatabaseError ''invalid source'')
      else if kind \<notin> set VALID_PROPOSAL_KINDS then raise (DatabaseError ''invalid kind'')
      else bnd now_iso (\<lambda>now.
        bnd (with_tx (\<lambda>_. ''insert config_proposal failed'')
               (sql_dml (insert_proposal node_id source kind payload now))) (\<lambda>i.
        proposal_read_back i ''proposal missing after insert'')))"

definition proposal_list_for_node :: "string \<Rightarrow> string option \<Rightarrow> nat \<Rightarrow> ConfigProposal list wop" where
  "proposal_list_for_node node_id status limit =
     (if (case status of None \<Rightarrow> False | Some s \<Rightarrow> s \<notin> set VALID_PROPOSAL_STATUSES)
      then raise (DatabaseError ''invalid status filter'')
      else wrap_db ''list proposals failed'' (sql_query (\<lambda>d. take limit
        (rev (sort_key cp_id (filter (\<lambda>p. cp_node_id p = node_id
           \<and> (case status of None \<Rightarrow> True | Some s \<Rightarrow> cp_status p = s)) (config_proposals d)))))))"

definition update_proposal ::
  "nat \<Rightarrow> string \<Rightarrow> string \<Rightarrow> string option \<Rightarrow> database \<Rightarrow> (nat \<times> database) result" where
  "update_proposal i status now message d =
     Inr (length (filter (\<lambda>p. cp_id p = i) (config_proposals d)),
          d\<lparr> config_proposals := map (\<lambda>p. if cp_id p = i
               then p\<lparr> cp_status := status, cp_decided_at := Some now, cp_message := message \<rparr> else p)
             (config_proposals d) \<rparr>)"

definition proposal_set_status :: "nat \<Rightarrow> string \<Rightarrow> string option \<Rightarrow> ConfigProposal wop" where
  "proposal_set_status i status message =
     (if status \<notin> set VALID_PROPOSAL_STATUSES then raise (DatabaseError ''invalid status'')
      else bnd now_iso (\<lambda>now.
        bnd (with_tx (\<lambda>_. ''update proposal status failed'')
               (bnd (sql_dml (update_proposal i status now message)) (\<lambda>c. require_row c ''proposal not found''))) (\<lambda>_.
        proposal_read_back i ''proposal missing after update'')))"

section \<open>Reports\<close>

definition VALID_REPORT_KINDS :: "string list" where
  "VALID_REPORT_KINDS = [''apply_result'', ''scan_result'', ''live_status'', ''error'']"

definition find_report :: "nat \<Rightarrow> database \<Rightarrow> NodeReport option" where
  "find_report i d = List.find (\<lambda>r. nr_id r = i) (node_reports d)"

definition report_get :: "nat \<Rightarrow> NodeReport option wop" where
  "report_get i = wrap_db ''query report failed'' (sql_query (find_report i))"

definition report_read_back :: "nat \<Rightarrow> string \<Rightarrow> NodeReport wop" where
  "report_read_back i msg = bnd (report_get i) (\<lambda>r. case r of
     None \<Rightarrow> raise (DatabaseError msg) | Some x \<Rightarrow> ret x)"

definition insert_report :: "string \<Rightarrow> string \<Rightarrow> jdict \<Rightarrow> string \<Rightarrow> database \<Rightarrow> (nat \<times> database) result" where
  "insert_report node_id kind payload now d = (let i = Suc (reports_seq d) in
     if \<not> has_node d node_id then Inl SqliteIntegrityError
     else Inr (i, d\<lparr> node_reports := node_reports d @
            [\<lparr> nr_id = i, nr_node_id = node_id, nr_kind = kind, nr_payload = payload,
               nr_received_at = now, nr_imported_at = None \<rparr>],
          reports_seq := i \<rparr>))"

definition report_add :: "string \<Rightarrow> string \<Rightarrow> jdict \<Rightarrow> NodeReport wop" where
  "report_add node_id kind payload =
     (if kind \<notin> set VALID_REPORT_KINDS then raise (DatabaseError ''invalid report kind'')
      else bnd now_iso (\<lambda>now.
        bnd (with_tx (\<lambda>_. ''insert node_report failed'') (sql_dml (insert_report node_id kind payload now))) (\<lambda>i.
        report_read_back i ''report missing after insert'')))"

definition report_list_for_node :: "string \<Rightarrow> string option \<Rightarrow> nat \<Rightarrow> NodeReport list wop" where
  "report_list_for_node node_id kind limit =
     (if (case kind of None \<Rightarrow> False | Some k \<Rightarrow> k \<notin> set VALID_REPORT_KINDS)
      then raise (DatabaseError ''invalid kind filter'')
      else wrap_db ''list reports failed'' (sql_query (\<lambda>d. take limit
        (rev (sort_key nr_id (filter (\<lambda>r. nr_node_id r = node_id
           \<and> (case kind of None \<Rightarrow> True | Some k \<Rightarrow> nr_kind r = k)) (node_reports d)))))))"

definition mark_report :: "nat \<Rightarrow> string \<Rightarrow> database \<Rightarrow> (nat \<times> database) result" where
  "mark_report i now d =
     Inr (length (filter (\<lambda>r. nr_id r = i) (node_reports d)),
          d\<lparr> node_reports := map (\<lambda>r. if nr_id r = i then r\<lparr> nr_imported_at := Some now \<rparr> else r) (node_reports d) \<rparr>)"

definition report_mark_imported :: "nat \<Rightarrow> NodeReport wop" where
  "report_mark_imported i = bnd now_iso (\<lambda>now.
     bnd (with_tx (\<lambda>_. ''update report imported_at failed'')
            (bnd (sql_dml (mark_report i now)) (\<lambda>c. require_row c ''report not found''))) (\<lambda>_.
     report_read_back i ''report missing after update''))"

section \<open>Revisions\<close>

definition find_revision :: "string \<Rightarrow> string \<Rightarrow> database \<Rightarrow> ConfigRevision option" where
  "find_revision node_id revision d =
     List.find (\<lambda>r. cr_node_id r = node_id \<and> cr_revision r = revision) (config_revisions d)"

definition revision_get :: "nat \<Rightarrow> ConfigRevision option wop" where
  "revision_get i = wrap_db ''query revision failed''
     (sql_query (\<lambda>d. List.find (\<lambda>r. cr_id r = i) (config_revisions d)))"

definition get_by_revision :: "string \<Rightarrow> string \<Rightarrow> ConfigRevision option wop" where
  "get_by_revision node_id revision = wrap_db ''query revision failed'' (sql_query (find_revision node_id revision))"

definition insert_revision ::
  "string \<Rightarrow> string \<Rightarrow> string \<Rightarrow> jdict \<Rightarrow> database \<Rightarrow> (nat \<times> database) result" where
  "insert_revision node_id revision generated_at payload d = (let i = Suc (revisions_seq d) in
     if \<not> has_node d node_id \<or> find_revision node_id revision d \<noteq> None then Inl SqliteIntegrityError
     else Inr (i, d\<lparr> config_revisions := config_revisions d @
            [\<lparr> cr_id = i, cr_node_id = node_id, cr_revision = revision, cr_generated_at = generated_at,
               cr_payload = payload \<rparr>],
          revisions_seq := i \<rparr>))"

definition revision_record :: "string \<Rightarrow> string \<Rightarrow> string \<Rightarrow> jdict \<Rightarrow> ConfigRevision wop" where
  "revision_record node_id revision generated_at payload =
     bnd (get_by_revision node_id revision) (\<lambda>existing. case existing of
       Some r \<Rightarrow> ret r
     | None \<Rightarrow>
         bnd (with_tx (\<lambda>_. ''insert config_revision failed'')
                (sql_dml (insert_revision node_id revision generated_at payload))) (\<lambda>i.
         bnd (revision_get i) (\<lambda>r. case r of
           None \<Rightarrow> raise (DatabaseError ''revision missing after insert'') | Some x \<Rightarrow> ret x)))"

definition newest_revisions :: "string \<Rightarrow> database \<Rightarrow> ConfigRevision list" where
  "newest_revisions node_id d =
     rev (sort_key cr_id (filter (\<lambda>r. cr_node_id r = node_id) (config_revisions d)))"

definition revision_list_for_node :: "string \<Rightarrow> nat \<Rightarrow> ConfigRevision list wop" where
  "revision_list_for_node node_id limit = wrap_db ''list revisions failed''
     (sql_query (\<lambda>d. take limit (newest_revisions node_id d)))"

definition select_latest :: "string \<Rightarrow> database \<Rightarrow> string option" where
  "select_latest node_id d = (case newest_revisions node_id d of [] \<Rightarrow> None | r # _ \<Rightarrow> Some (cr_revision r))"

definition latest_revision :: "string \<Rightarrow> string option wop" where
  "latest_revision node_id = wrap_db ''query latest revision failed'' (sql_query (select_latest node_id))"

text \<open>The \<open>WHERE\<close> clause of the trim: not among the newest, and not the pinned revision.\<close>

definition trimmed_out :: "string \<Rightarrow> nat \<Rightarrow> database \<Rightarrow> ConfigRevision \<Rightarrow> bool" where
  "trimmed_out node_id keep_latest d r =
     (cr_node_id r = node_id
      \<and> cr_id r \<notin> set (map cr_id (take keep_latest (newest_revisions node_id d)))
      \<and> cr_revision r \<notin> set (map dp_revision (filter (\<lambda>p. dp_node_id p = node_id) (node_desired_pin d))))"

definition trim_revisions :: "string \<Rightarrow> nat \<Rightarrow> database \<Rightarrow> (nat \<times> database) result" where
  "trim_revisions node_id keep_latest d =
     Inr (length (filter (trimmed_out node_id keep_latest d) (config_revisions d)),
          d\<lparr> config_revisions := filter (\<lambda>r. \<not> trimmed_out node_id keep_latest d r) (config_revisions d) \<rparr>)"

definition revision_trim :: "string \<Rightarrow> nat \<Rightarrow> nat wop" where
  "revision_trim node_id keep_latest = with_tx (\<lambda>_. ''trim revisions failed'')
     (sql_dml (trim_revisions node_id keep_latest))"

definition upsert_pin :: "string \<Rightarrow> string \<Rightarrow> string \<Rightarrow> database \<Rightarrow> (unit \<times> database) result" where
  "upsert_pin node_id revision now d =
     (if \<not> has_node d node_id then Inl SqliteIntegrityError
      else if node_id \<in> set (map dp_node_id (node_desired_pin d))
      then Inr ((), d\<lparr> node_desired_pin := map (\<lambda>p. if dp_node_id p = node_id
             then p\<lparr> dp_revision := revision, dp_pinned_at := now \<rparr> else p) (node_desired_pin d) \<rparr>)
      else Inr ((), d\<lparr> node_desired_pin := node_desired_pin d @
             [\<lparr> dp_node_id = node_id, dp_revision = revision, dp_pinned_at = now \<rparr>] \<rparr>))"

definition revision_pin :: "string \<Rightarrow> string \<Rightarrow> unit wop" where
  "revision_pin node_id revision = bnd (get_by_revision node_id revision) (\<lambda>existing. case existing of
     None \<Rightarrow> raise (DatabaseError ''revision not found'')
   | Some _ \<Rightarrow> bnd now_iso (\<lambda>now.
       with_tx (\<lambda>_. ''pin revision failed'')
         (bnd (sql_dml (upsert_pin node_id revision now)) (\<lambda>_.
          emit_sync_event node_id SYNC_EVENT_DESIRED))))"

definition delete_pin :: "string \<Rightarrow> database \<Rightarrow> (unit \<times> database) result" where
  "delete_pin node_id d =
     Inr ((), d\<lparr> node_desired_pin := filter (\<lambda>p. dp_node_id p \<noteq> node_id) (node_desired_pin d) \<rparr>)"

definition revision_unpin :: "string \<Rightarrow> unit wop" where
  "revision_unpin node_id = with_tx (\<lambda>_. ''unpin revision failed'')
     (bnd (sql_dml (delete_pin node_id)) (\<lambda>_. emit_sync_event node_id SYNC_EVENT_DESIRED))"

definition find_pin :: "string \<Rightarrow> database \<Rightarrow> desired_pin option" where
  "find_pin node_id d = List.find (\<lambda>p. dp_node_id p = node_id) (node_desired_pin d)"

definition get_pin :: "string \<Rightarrow> ConfigRevision option wop" where
  "get_pin node_id = bnd (wrap_db ''query pin failed'' (sql_query (find_pin node_id))) (\<lambda>pin_row. case pin_row of
     None \<Rightarrow> ret None
   | Some p \<Rightarrow> get_by_revision node_id (dp_revision p))"

section \<open>Reading the notification queue\<close>

definition latest_id :: "nat wop" where
  "latest_id = wrap_db ''query sync_events cursor failed''
     (sql_query (\<lambda>d. fold max (map se_id (sync_events d)) 0))"

definition select_since :: "nat \<Rightarrow> nat \<Rightarrow> database \<Rightarrow> SyncEvent list" where
  "select_since last_id limit d =
     take limit (sort_key se_id (filter (\<lambda>e. last_id < se_id e) (sync_events d)))"

definition fetch_since :: "nat \<Rightarrow> nat \<Rightarrow> SyncEvent list wop" where
  "fetch_since last_id limit = wrap_db ''query sync_events failed'' (sql_query (select_since last_id limit))"

section \<open>Well-formedness and atomicity\<close>

lemma sqlite_only_stores [atomic]:
  "sqlite_only (insert_proposal n s k pl now)" "sqlite_only (update_proposal i st now msg)"
  "sqlite_only (insert_report n k pl now)" "sqlite_only (mark_report i now)"
  "sqlite_only (insert_revision n r g pl)" "sqlite_only (trim_revisions n kp)"
  "sqlite_only (upsert_pin n r now)" "sqlite_only (delete_pin n)"
  by (auto simp: sqlite_only_def insert_proposal_def update_proposal_def insert_report_def mark_report_def
      insert_revision_def trim_revisions_def upsert_pin_def delete_pin_def Let_def split: if_splits)

lemma keeps_wf_proposals [preserve]:
  "keeps wf_db (insert_proposal n s k pl now)" "keeps wf_db (update_proposal i st now msg)"
proof -
  show "keeps wf_db (insert_proposal n s k pl now)"
    by (auto simp: keeps_def insert_proposal_def Let_def wf_frame ids_ok_append split: if_splits)
  show "keeps wf_db (update_proposal i st now msg)"
    by (auto simp: keeps_def update_proposal_def wf_frame comp_def if_distrib cong: if_cong)
qed

lemma keeps_wf_reports [preserve]:
  "keeps wf_db (insert_report n k pl now)" "keeps wf_db (mark_report i now)"
proof -
  show "keeps wf_db (insert_report n k pl now)"
    by (auto simp: keeps_def insert_report_def Let_def wf_frame ids_ok_append split: if_splits)
  show "keeps wf_db (mark_report i now)"
    by (auto simp: keeps_def mark_report_def wf_frame comp_def if_distrib cong: if_cong)
qed

lemma find_revision_None:
  "find_revision n r d = None \<longleftrightarrow> (n, r) \<notin> (\<lambda>x. (cr_node_id x, cr_revision x)) ` set (config_revisions d)"
  by (auto simp: find_revision_def find_None_set)

lemma keeps_wf_insert_revision [preserve]: "keeps wf_db (insert_revision n r g pl)"
  by (auto simp: keeps_def insert_revision_def find_revision_None Let_def wf_frame ids_ok_append split: if_splits)

lemma trim_keeps_pinned:
  "p \<in> set (node_desired_pin d) \<Longrightarrow> dp_node_id p = cr_node_id r \<Longrightarrow> dp_revision p = cr_revision r \<Longrightarrow>
   \<not> trimmed_out n k d r"
  by (force simp: trimmed_out_def)

lemma keeps_wf_trim [preserve]: "keeps wf_db (trim_revisions n kp)"
  unfolding keeps_def
proof (intro allI impI)
  fix d c d'
  assume wf: "wf_db d" and "trim_revisions n kp d = Inr (c, d')"
  then have d': "d' = d\<lparr> config_revisions := filter (\<lambda>r. \<not> trimmed_out n kp d r) (config_revisions d) \<rparr>"
    by (simp add: trim_revisions_def)
  have "pins_ok d'"
    unfolding pins_ok_def
  proof
    fix p
    assume p: "p \<in> set (node_desired_pin d')"
    with wf obtain r where r: "r \<in> set (config_revisions d)" "dp_node_id p = cr_node_id r" "dp_revision p = cr_revision r"
      by (auto simp: wf_defs pins_ok_def d')
    with trim_keeps_pinned [of p d r n kp] p show "(dp_node_id p, dp_revision p) \<in>
        set (map (\<lambda>r. (cr_node_id r, cr_revision r)) (config_revisions d'))"
      by (force simp: d')
  qed
  with wf show "wf_db d'"
    by (auto simp: d' wf_defs has_node_def self_index_ok_def distinct_map_filter_keys intro: ids_ok_filter)
qed

lemma pin_key_update: "map dp_node_id (map (\<lambda>p. if dp_node_id p = n then p\<lparr> dp_revision := r, dp_pinned_at := now \<rparr> else p) ps)
    = map dp_node_id ps"
  by simp

text \<open>The pin is only written after the revision was found, which the statement alone does not check.\<close>

lemma keeps_wf_delete_pin [preserve]: "keeps wf_db (delete_pin n)"
  by (auto simp: keeps_def delete_pin_def wf_frame distinct_map_filter_keys)

lemma upsert_pin_wf:
  assumes "wf_db d" and "find_revision n r d \<noteq> None" and "upsert_pin n r now d = Inr (u, d')"
  shows "wf_db d'"
proof -
  have r: "(n, r) \<in> (\<lambda>x. (cr_node_id x, cr_revision x)) ` set (config_revisions d)"
    using assms(2) by (simp add: find_revision_None)
  show ?thesis
  proof (cases "n \<in> set (map dp_node_id (node_desired_pin d))")
    case True
    with assms(3) have d': "d' = d\<lparr> node_desired_pin := map (\<lambda>p. if dp_node_id p = n
             then p\<lparr> dp_revision := r, dp_pinned_at := now \<rparr> else p) (node_desired_pin d) \<rparr>" and "has_node d n"
      by (auto simp: upsert_pin_def split: if_splits)
    with assms(1) r show ?thesis
      by (auto simp: wf_defs has_node_def self_index_ok_def pins_ok_def comp_def if_distrib cong: if_cong)
  next
    case False
    with assms(3) have d': "d' = d\<lparr> node_desired_pin := node_desired_pin d @
             [\<lparr> dp_node_id = n, dp_revision = r, dp_pinned_at = now \<rparr>] \<rparr>" and "has_node d n"
      by (auto simp: upsert_pin_def split: if_splits)
    with assms(1) r False show ?thesis
      by (auto simp: wf_defs has_node_def self_index_ok_def pins_ok_def)
  qed
qed

lemma read_only_stores [atomic]:
  "read_only (proposal_get i)" "read_only (proposal_read_back i msg)" "read_only (report_get i)"
  "read_only (report_read_back i msg)" "read_only (revision_get i)" "read_only (get_by_revision n r)"
  "read_only (latest_revision n)" "read_only (get_pin n)" "read_only latest_id" "read_only (fetch_since l k)"
  unfolding proposal_get_def proposal_read_back_def report_get_def report_read_back_def revision_get_def
    get_by_revision_def latest_revision_def get_pin_def latest_id_def fetch_since_def
  by (auto intro!: atomic split: option.splits)

lemma get_by_revision_spec [specs]: "op_spec (get_by_revision n r) (\<lambda>d x d'. x = find_revision n r d \<and> d' = d)"
  unfolding get_by_revision_def by (rule specs)+

lemma preserves_wf_pin [preserve]: "preserves (on_world wf_db) (revision_pin n r)"
proof (rule preservesI)
  fix w
  assume w: "on_world wf_db w"
  obtain x w1 where g: "get_by_revision n r w = (x, w1)" by (cases "get_by_revision n r w")
  have w1: "on_world wf_db w1" "view w1 = view w"
    using w read_onlyD [OF read_only_stores(6) g] by (simp_all add: on_world_def)
  show "on_world wf_db (snd (revision_pin n r w))"
  proof (cases x)
    case (Inl e)
    with g w1 show ?thesis by (simp add: revision_pin_def bnd_def)
  next
    case (Inr y)
    have y: "y = find_revision n r (view w)"
      using op_specD [OF get_by_revision_spec g [unfolded Inr]] by simp
    show ?thesis
    proof (cases y)
      case None
      with g w1 Inr show ?thesis by (simp add: revision_pin_def bnd_def raise_def)
    next
      case (Some z)
      let ?now = "clock (env w1) (tick w1)"
      let ?body = "bnd (sql_dml (upsert_pin n r ?now)) (\<lambda>_. emit_sync_event n SYNC_EVENT_DESIRED)"
      have "on_world wf_db (snd (sql_dml (upsert_pin n r ?now) (next_tick w1)))"
        using w1 Some y upsert_pin_wf [of "view w" n r ?now]
        by (auto simp: sql_dml_def on_world_def split: sum.splits)
      then have "on_world wf_db (snd (?body (next_tick w1)))"
        using preservesD [OF preserves_wf_emit [of n SYNC_EVENT_DESIRED]]
        by (auto simp: bnd_def split: prod.splits sum.splits)
      from with_tx_end [of wf_db ?body "next_tick w1", OF this] Some Inr g show ?thesis
        by (auto simp: revision_pin_def bnd_def now_iso_def)
    qed
  qed
qed

lemma preserves_wf_stores [preserve]:
  "preserves (on_world wf_db) (proposal_add n s k pl)"
  "preserves (on_world wf_db) (proposal_set_status i st msg)"
  "preserves (on_world wf_db) (report_add n k pl)"
  "preserves (on_world wf_db) (report_mark_imported i)"
  "preserves (on_world wf_db) (revision_record n r g pl)"
  "preserves (on_world wf_db) (revision_trim n kp)"
  "preserves (on_world wf_db) (revision_unpin n)"
  unfolding proposal_add_def proposal_set_status_def report_add_def report_mark_imported_def
    revision_record_def revision_trim_def revision_unpin_def require_row_def proposal_read_back_def
    report_read_back_def proposal_get_def report_get_def revision_get_def get_by_revision_def
  by (auto intro!: preserve)

section \<open>What the stores do\<close>

lemma store_specs [specs]:
  "op_spec (proposal_get i) (\<lambda>d x d'. x = find_proposal i d \<and> d' = d)"
  "op_spec (report_get i) (\<lambda>d x d'. x = find_report i d \<and> d' = d)"
  "op_spec (latest_revision n) (\<lambda>d x d'. x = select_latest n d \<and> d' = d)"
  "op_spec (fetch_since c l) (\<lambda>d x d'. x = select_since c l d \<and> d' = d)"
  "op_spec (revision_get j) (\<lambda>d x d'. x = List.find (\<lambda>r. cr_id r = j) (config_revisions d) \<and> d' = d)"
  unfolding proposal_get_def report_get_def latest_revision_def fetch_since_def revision_get_def
  by (rule specs)+

lemma read_back_specs [specs]:
  "op_spec (proposal_read_back i msg) (\<lambda>d x d'. find_proposal i d = Some x \<and> d' = d)"
  "op_spec (report_read_back i msg) (\<lambda>d x d'. find_report i d = Some x \<and> d' = d)"
proof -
  show "op_spec (proposal_read_back i msg) (\<lambda>d x d'. find_proposal i d = Some x \<and> d' = d)"
    unfolding proposal_read_back_def by (rule op_spec_conseq, (rule specs)+) (auto split: option.splits)
  show "op_spec (report_read_back i msg) (\<lambda>d x d'. find_report i d = Some x \<and> d' = d)"
    unfolding report_read_back_def by (rule op_spec_conseq, (rule specs)+) (auto split: option.splits)
qed

definition find_pinned :: "string \<Rightarrow> database \<Rightarrow> ConfigRevision option" where
  "find_pinned n d = (case find_pin n d of None \<Rightarrow> None | Some p \<Rightarrow> find_revision n (dp_revision p) d)"

lemma get_pin_spec [specs]: "op_spec (get_pin n) (\<lambda>d x d'. x = find_pinned n d \<and> d' = d)"
  unfolding get_pin_def find_pinned_def by (rule op_spec_conseq, (rule specs)+) (auto split: option.splits)

lemma atomic_revisions [atomic]:
  "atomic_op (revision_trim n k)" "atomic_op (revision_unpin n)" "atomic_op (revision_pin n r)"
  unfolding revision_trim_def revision_unpin_def revision_pin_def by (auto intro!: atomic)

lemma revision_trim_spec [specs]: "op_spec (revision_trim n k) (\<lambda>d c d'. trim_revisions n k d = Inr (c, d'))"
  unfolding revision_trim_def by (rule specs)+

lemma revision_pin_spec [specs]:
  "op_spec (revision_pin n r) (\<lambda>d _ d'. find_revision n r d \<noteq> None \<and> (\<exists>now now' d1.
     upsert_pin n r now d = Inr ((), d1) \<and> d' = after_event n SYNC_EVENT_DESIRED now' d1))"
  unfolding revision_pin_def by (rule op_spec_conseq, (rule specs)+) (auto split: option.splits)

lemma revision_unpin_spec [specs]:
  "op_spec (revision_unpin n) (\<lambda>d _ d'. \<exists>now d1. delete_pin n d = Inr ((), d1) \<and> d' = after_event n SYNC_EVENT_DESIRED now d1)"
  unfolding revision_unpin_def by (rule op_spec_conseq, (rule specs)+) auto

text \<open>A revision row, once written, is found; in a well-formed database a pin resolves.\<close>

lemma find_pin_upserted: "upsert_pin n r now d = Inr (u, d') \<Longrightarrow> \<exists>p. find_pin n d' = Some p \<and> dp_revision p = r"
proof -
  assume u: "upsert_pin n r now d = Inr (u, d')"
  show ?thesis
  proof (cases "find_pin n d")
    case None
    then have "n \<notin> set (map dp_node_id (node_desired_pin d))" by (auto simp: find_pin_def find_None_set)
    with u None show ?thesis
      by (auto simp: upsert_pin_def find_pin_def find_append split: if_splits)
  next
    case (Some p)
    then have "n \<in> set (map dp_node_id (node_desired_pin d))" by (auto simp: find_pin_def dest: find_Some_set)
    with u Some show ?thesis
      by (auto simp: upsert_pin_def find_pin_def find_map_update split: if_splits)
  qed
qed

lemma pin_resolves: "wf_db d \<Longrightarrow> find_pin n d = Some p \<Longrightarrow> find_revision n (dp_revision p) d \<noteq> None"
  by (auto simp: find_revision_None wf_defs pins_ok_def find_pin_def dest!: find_Some_set)

lemma newest_revisions_eq:
  "wf_db d \<Longrightarrow> newest_revisions n d = rev (filter (\<lambda>r. cr_node_id r = n) (config_revisions d))"
proof -
  assume "wf_db d"
  then have "ids_ok (map cr_id (filter (\<lambda>r. cr_node_id r = n) (config_revisions d))) (revisions_seq d)"
    by (auto simp: wf_defs intro: ids_ok_filter)
  then have "sorted (map cr_id (filter (\<lambda>r. cr_node_id r = n) (config_revisions d)))"
    by (auto simp: ids_ok_def strict_sorted_iff)
  then show ?thesis by (simp add: newest_revisions_def sort_key_id_if_sorted)
qed

lemma revision_unique:
  "wf_db d \<Longrightarrow> r \<in> set (config_revisions d) \<Longrightarrow> find_revision (cr_node_id r) (cr_revision r) d = Some r"
  using find_distinct_key [of "\<lambda>r. (cr_node_id r, cr_revision r)" "config_revisions d" r]
  by (simp add: find_revision_def wf_defs)

lemma select_since_eq:
  assumes "ids_ok (map se_id (sync_events d)) (events_seq d)"
  shows "select_since c l d = take l (filter (\<lambda>e. c < se_id e) (sync_events d))"
proof -
  have "ids_ok (map se_id (filter (\<lambda>e. c < se_id e) (sync_events d))) (events_seq d)"
    using assms by (rule ids_ok_filter)
  then have "sorted (map se_id (filter (\<lambda>e. c < se_id e) (sync_events d)))"
    by (auto simp: ids_ok_def strict_sorted_iff)
  then show ?thesis by (simp add: select_since_def sort_key_id_if_sorted)
qed

section \<open>Properties\<close>

lemma trim_revisions_rows:
  assumes "trim_revisions n k d = Inr (c, d')"
  shows "config_revisions d' = filter (\<lambda>r. \<not> trimmed_out n k d r) (config_revisions d)"
    and "node_desired_pin d' = node_desired_pin d"
    and "c = length (filter (trimmed_out n k d) (config_revisions d))"
  using assms by (auto simp: trim_revisions_def)

lemma kept_revisions_bound:
  assumes "wf_db d" and "trim_revisions n k d = Inr (c, d')"
  shows "length (filter (\<lambda>r. cr_node_id r = n) (config_revisions d')) \<le> Suc k"
proof -
  let ?kept = "filter (\<lambda>r. cr_node_id r = n) (config_revisions d')"
  let ?new = "take k (newest_revisions n d)"
  let ?pin = "case find_pinned n d of None \<Rightarrow> {} | Some r \<Rightarrow> {r}"
  have d': "config_revisions d' = filter (\<lambda>r. \<not> trimmed_out n k d r) (config_revisions d)"
    using assms(2) by (auto simp: trim_revisions_def)
  have ids: "distinct (map cr_id (config_revisions d))"
    using assms(1) by (auto simp: wf_defs intro: ids_ok_distinct)
  then have inj: "inj_on cr_id (set (config_revisions d))" and dk: "distinct ?kept"
    by (auto simp: distinct_map d')
  have "set ?kept \<subseteq> set ?new \<union> ?pin"
  proof
    fix r
    assume r: "r \<in> set ?kept"
    then have mem: "r \<in> set (config_revisions d)" and n: "cr_node_id r = n" and nt: "\<not> trimmed_out n k d r"
      by (auto simp: d')
    show "r \<in> set ?new \<union> ?pin"
    proof (cases "cr_id r \<in> set (map cr_id ?new)")
      case True
      then obtain s where s: "s \<in> set ?new" "cr_id s = cr_id r" by auto
      then have "s \<in> set (config_revisions d)"
        by (auto simp: newest_revisions_def dest: in_set_takeD)
      with inj mem s(2) have "s = r" by (auto simp: inj_on_def)
      with s show ?thesis by simp
    next
      case False
      with nt n obtain p where p: "p \<in> set (node_desired_pin d)" "dp_node_id p = n" "dp_revision p = cr_revision r"
        by (auto simp: trimmed_out_def)
      with assms(1) have "find_pin n d = Some p"
        using find_distinct_key [of dp_node_id "node_desired_pin d" p] by (simp add: find_pin_def wf_defs)
      with p n revision_unique [OF assms(1) mem] have "find_pinned n d = Some r"
        by (simp add: find_pinned_def)
      then show ?thesis by simp
    qed
  qed
  then have "card (set ?kept) \<le> card (set ?new \<union> ?pin)"
    by (rule card_mono [rotated]) (auto split: option.splits)
  also have "\<dots> \<le> card (set ?new) + card ?pin" by (rule card_Un_le)
  also have "\<dots> \<le> k + 1"
    using card_length [of ?new] by (auto intro!: add_mono split: option.splits)
  finally show ?thesis using distinct_card [OF dk] by simp
qed

text \<open>
  Trimming the history: a \<open>trim\<close> that returned leaves at most \<open>keep_latest\<close> revisions of the
  node and the pinned one, keeps each of the \<open>keep_latest\<close> newest and the pinned one, leaves
  the other nodes' revisions alone and returns the number of rows it deleted.
\<close>

theorem trim_keeps_newest_and_pin:
  assumes "wf_db (disk w)" and "tx w = None" and "revision_trim n k w = (Inr c, w')"
  shows "length (filter (\<lambda>r. cr_node_id r = n) (config_revisions (disk w'))) \<le> Suc k
    \<and> set (take k (newest_revisions n (disk w))) \<subseteq> set (config_revisions (disk w'))
    \<and> find_pinned n (disk w') = find_pinned n (disk w)
    \<and> filter (\<lambda>r. cr_node_id r \<noteq> n) (config_revisions (disk w')) = filter (\<lambda>r. cr_node_id r \<noteq> n) (config_revisions (disk w))
    \<and> length (config_revisions (disk w')) + c = length (config_revisions (disk w))"
proof -
  let ?d = "disk w" and ?d' = "disk w'"
  from atomic_returns [OF atomic_revisions(1) revision_trim_spec assms(2,3)]
  have t: "trim_revisions n k ?d = Inr (c, ?d')" by blast
  then have d': "config_revisions ?d' = filter (\<lambda>r. \<not> trimmed_out n k ?d r) (config_revisions ?d)"
    and pin: "node_desired_pin ?d' = node_desired_pin ?d"
    and c: "c = length (filter (trimmed_out n k ?d) (config_revisions ?d))"
    using trim_revisions_rows by simp_all
  have "set (take k (newest_revisions n ?d)) \<subseteq> set (config_revisions ?d')"
    by (auto simp: d' trimmed_out_def newest_revisions_def dest: in_set_takeD)
  moreover have "find_pinned n ?d' = find_pinned n ?d"
  proof (cases "find_pin n ?d")
    case None
    with pin show ?thesis by (simp add: find_pinned_def find_pin_def)
  next
    case (Some p)
    then have p: "p \<in> set (node_desired_pin ?d)" "dp_node_id p = n"
      by (auto simp: find_pin_def dest: find_Some_set)
    have "List.find (\<lambda>r. cr_node_id r = n \<and> cr_revision r = dp_revision p) (filter (\<lambda>r. \<not> trimmed_out n k ?d r) xs)
        = List.find (\<lambda>r. cr_node_id r = n \<and> cr_revision r = dp_revision p) xs" for xs
      using trim_keeps_pinned [OF p(1)] p(2) by (induction xs) (auto simp: eq_commute)
    with Some pin show ?thesis by (simp add: find_pinned_def find_pin_def find_revision_def d')
  qed
  moreover have "filter (\<lambda>r. cr_node_id r \<noteq> n) (filter (\<lambda>r. \<not> trimmed_out n k ?d r) xs) = filter (\<lambda>r. cr_node_id r \<noteq> n) xs" for xs
    by (induction xs) (auto simp: trimmed_out_def)
  moreover have "length (config_revisions ?d') + c = length (config_revisions ?d)"
    unfolding d' c using sum_length_filter_compl [of "trimmed_out n k ?d" "config_revisions ?d"] by simp
  ultimately show ?thesis using kept_revisions_bound [OF assms(1) t] d' by simp
qed

text \<open>A database with three revisions, the oldest of them pinned, for examples.\<close>

definition sample_revisions :: database where
  "sample_revisions = sample_db\<lparr> config_revisions :=
     [\<lparr> cr_id = 1, cr_node_id = ''n1'', cr_revision = ''r1'', cr_generated_at = ''t1'', cr_payload = [(''revision'', JStr ''r1'')] \<rparr>,
      \<lparr> cr_id = 2, cr_node_id = ''n1'', cr_revision = ''r2'', cr_generated_at = ''t2'', cr_payload = [] \<rparr>,
      \<lparr> cr_id = 3, cr_node_id = ''n1'', cr_revision = ''r3'', cr_generated_at = ''t3'', cr_payload = [] \<rparr>],
     revisions_seq := 3,
     node_desired_pin := [\<lparr> dp_node_id = ''n1'', dp_revision = ''r1'', dp_pinned_at = ''t4'' \<rparr>] \<rparr>"

lemma sample_revisions_wf: "wf_db sample_revisions"
  by (simp add: sample_revisions_def sample_db_def empty_database_def wf_frame ids_ok_def single_self_def)

theorem trim_keeps_newest_and_pin_witness:
  "\<exists>c w'. revision_trim ''n1'' 1 (start_world sample_revisions) = (Inr c, w')
     \<and> length (filter (\<lambda>r. cr_node_id r = ''n1'') (config_revisions (disk w'))) \<le> 2
     \<and> find_pinned ''n1'' (disk w') = find_pinned ''n1'' sample_revisions"
proof -
  obtain c w' where w': "revision_trim ''n1'' 1 (start_world sample_revisions) = (Inr c, w')"
    by (simp add: revision_trim_def run_defs trim_revisions_def)
  from trim_keeps_newest_and_pin [OF _ _ w'] w' show ?thesis by (auto simp: sample_revisions_wf)
qed

text \<open>
  Reading the queue in batches misses nothing and repeats nothing: resuming at the id of
  the last event of a batch gives exactly the events that a larger limit would have given.
\<close>

lemma select_since_resumes:
  assumes "ids_ok (map se_id (sync_events d)) (events_seq d)"
    and "select_since cursor l d \<noteq> []"
  shows "select_since cursor (l + l') d
     = select_since cursor l d @ select_since (se_id (last (select_since cursor l d))) l' d"
proof -
  let ?xs = "filter (\<lambda>e. cursor < se_id e) (sync_events d)"
  have sel: "select_since c k d = take k (filter (\<lambda>e. c < se_id e) (sync_events d))" for c k
    using assms(1) by (rule select_since_eq)
  let ?last = "se_id (last (take l ?xs))"
  have ne: "take l ?xs \<noteq> []" using assms(2) by (simp add: sel)
  have "ids_ok (map se_id ?xs) (events_seq d)" using assms(1) by (rule ids_ok_filter)
  then have "filter (\<lambda>e. ?last < se_id e) ?xs = drop l ?xs"
    using filter_after_take [OF _ ne] by (simp add: ids_ok_def)
  moreover have "cursor < ?last"
    using in_set_takeD [OF last_in_set [OF ne]] by auto
  then have "filter (\<lambda>e. ?last < se_id e) (sync_events d) = filter (\<lambda>e. ?last < se_id e) ?xs"
    by (auto simp: filter_filter intro!: filter_cong)
  ultimately show ?thesis by (simp add: sel take_add)
qed

end
