(* ===== verification/Migrations.thy ===== *)
theory Migrations
  imports Stores
begin

text \<open>
  \<open>dn42ctl/migrations.py\<close> and \<open>Database.migrate\<close>/\<open>Database.open\<close>: the versions, each a script
  run in autocommit mode or a callable run on the connection, and the loop that applies the
  ones not recorded yet.
\<close>

section \<open>Schema statements\<close>

definition has_table :: "database \<Rightarrow> string \<Rightarrow> bool" where
  "has_table d t = (t \<in> set (map fst (db_schema d)))"

definition table_columns :: "database \<Rightarrow> string \<Rightarrow> string list" where
  "table_columns d t = (case map_of (db_schema d) t of None \<Rightarrow> [] | Some cs \<Rightarrow> cs)"

definition create_table :: "string \<Rightarrow> string list \<Rightarrow> database \<Rightarrow> database result" where
  "create_table t cols d = Inr (if has_table d t then d else d\<lparr> db_schema := db_schema d @ [(t, cols)] \<rparr>)"

text \<open>
  An index fails without its table. Its columns are not looked at: each index is on columns its table
  is created with, or on \<open>remote_node_id\<close>, which the step before it adds.
\<close>

definition create_index :: "string \<Rightarrow> string \<Rightarrow> database \<Rightarrow> database result" where
  "create_index i t d =
     (if \<not> has_table d t then Inl SqliteError
      else Inr (if i \<in> set (db_indexes d) then d else d\<lparr> db_indexes := db_indexes d @ [i] \<rparr>))"

text \<open>\<open>ALTER TABLE ... ADD COLUMN\<close>: existing rows read the default, a second addition fails.\<close>

definition default_column :: "string \<Rightarrow> string \<Rightarrow> database \<Rightarrow> database" where
  "default_column t c d =
     (if (t, c) = (''managed_nodes'', ''endpoint_host'')
        then d\<lparr> managed_nodes := map (\<lambda>m. m\<lparr> mn_endpoint_host := None \<rparr>) (managed_nodes d) \<rparr>
      else if (t, c) = (''managed_nodes'', ''own_ipv6'')
        then d\<lparr> managed_nodes := map (\<lambda>m. m\<lparr> mn_own_ipv6 := None \<rparr>) (managed_nodes d) \<rparr>
      else if (t, c) = (''managed_nodes'', ''router_id'')
        then d\<lparr> managed_nodes := map (\<lambda>m. m\<lparr> mn_router_id := None \<rparr>) (managed_nodes d) \<rparr>
      else if (t, c) = (''managed_nodes'', ''auto_peer'')
        then d\<lparr> managed_nodes := map (\<lambda>m. m\<lparr> mn_auto_peer := False \<rparr>) (managed_nodes d) \<rparr>
      else if (t, c) = (''ibgp_peers'', ''remote_node_id'')
        then d\<lparr> ibgp_peers := map (\<lambda>r. r\<lparr> p_remote_node_id := None \<rparr>) (ibgp_peers d) \<rparr>
      else d)"

definition add_column :: "string \<Rightarrow> string \<Rightarrow> database \<Rightarrow> database result" where
  "add_column t c d =
     (if \<not> has_table d t \<or> c \<in> set (table_columns d t) then Inl SqliteError
      else Inr ((default_column t c d)\<lparr> db_schema :=
             map (\<lambda>tc. if fst tc = t then (t, snd tc @ [c]) else tc) (db_schema d) \<rparr>))"

definition ensure_column :: "string \<Rightarrow> string \<Rightarrow> unit wop" where
  "ensure_column t c = bnd (sql_query (\<lambda>d. table_columns d t)) (\<lambda>existing.
     if c \<in> set existing then ret () else sql_ddl (add_column t c))"

section \<open>Data statements\<close>

definition require_table :: "string \<Rightarrow> (database \<Rightarrow> database result) \<Rightarrow> database \<Rightarrow> database result" where
  "require_table t f d = (if has_table d t then f d else Inl SqliteError)"

definition nm_to_networkd_bgp :: "database \<Rightarrow> database result" where
  "nm_to_networkd_bgp d = Inr (d\<lparr> bgp_peers := map (\<lambda>r. if p_net_backend r = ''nm''
     then r\<lparr> p_net_backend := ''networkd'' \<rparr> else r) (bgp_peers d) \<rparr>)"

definition nm_to_networkd_ibgp :: "database \<Rightarrow> database result" where
  "nm_to_networkd_ibgp d = Inr (d\<lparr> ibgp_peers := map (\<lambda>r. if p_net_backend r = ''nm''
     then r\<lparr> p_net_backend := ''networkd'' \<rparr> else r) (ibgp_peers d) \<rparr>)"

text \<open>\<open>LIKE 'sha256$%'\<close> ignores the case of ASCII letters.\<close>

definition drop_old_hashes :: "database \<Rightarrow> database result" where
  "drop_old_hashes d = Inr (d\<lparr> managed_nodes := map (\<lambda>m. case mn_api_token_hash m of
       None \<Rightarrow> m
     | Some h \<Rightarrow> if startswith (lower h) ''sha256$'' then m else m\<lparr> mn_api_token_hash := None \<rparr>) (managed_nodes d) \<rparr>)"

definition keep_newest_self :: "database \<Rightarrow> database result" where
  "keep_newest_self d = Inr (d\<lparr> managed_nodes := map (\<lambda>m.
       if mn_is_self m \<and> Some (mn_node_id m) \<noteq> map_option mn_node_id (select_self d)
       then m\<lparr> mn_is_self := False \<rparr> else m) (managed_nodes d) \<rparr>)"

definition create_self_index :: "database \<Rightarrow> database result" where
  "create_self_index d =
     (if SELF_INDEX \<in> set (db_indexes d) then Inr d
      else if single_self (managed_nodes d) then Inr (d\<lparr> db_indexes := db_indexes d @ [SELF_INDEX] \<rparr>)
      else Inl SqliteIntegrityError)"

section \<open>The versions\<close>

datatype migration_step = Script "(database \<Rightarrow> database result) list" | Callable "unit wop"

definition peer_columns :: "string list" where
  "peer_columns = [''ifname'', ''wg_private_key'', ''wg_public_key'', ''peer_public_key'', ''endpoint'',
     ''local_lla'', ''peer_lla'', ''listen_port'', ''allowed_ips_json'', ''net_backend'']"

definition migration_1 :: "(database \<Rightarrow> database result) list" where
  "migration_1 =
    [create_table ''schema_migrations'' [''version''],
     create_table ''nodes'' [''node_id'', ''created_at'', ''updated_at''],
     create_table ''bgp_peers'' ([''id'', ''node_id'', ''peer_asn''] @ peer_columns @ [''created_at'', ''updated_at'']),
     create_table ''ibgp_peers'' ([''id'', ''node_id'', ''name''] @ peer_columns @
       [''babel_rxcost'', ''peer_ip'', ''has_wg'', ''babel_type'', ''created_at'', ''updated_at'']),
     create_table ''managed_nodes'' [''node_id'', ''name'', ''api_token_hash'', ''write_policy'', ''enabled'',
       ''is_self'', ''last_seen_at'', ''created_at'', ''updated_at''],
     create_table ''config_proposals'' [''id'', ''node_id'', ''source'', ''kind'', ''payload_json'', ''status'',
       ''received_at'', ''decided_at'', ''message''],
     create_index ''idx_config_proposals_node_status'' ''config_proposals'',
     create_table ''node_reports'' [''id'', ''node_id'', ''kind'', ''payload_json'', ''received_at'', ''imported_at''],
     create_index ''idx_node_reports_node_kind'' ''node_reports'',
     create_table ''config_revisions'' [''id'', ''node_id'', ''revision'', ''generated_at'', ''payload_json''],
     create_index ''idx_config_revisions_node_time'' ''config_revisions'',
     create_table ''node_desired_pin'' [''node_id'', ''revision'', ''pinned_at'']]"

definition migration_9 :: "(database \<Rightarrow> database result) list" where
  "migration_9 = [create_table ''sync_events'' [''id'', ''node_id'', ''kind'', ''created_at''],
     create_index ''idx_sync_events_node'' ''sync_events'']"

definition migration_10 :: "unit wop" where
  "migration_10 =
     bnd (ensure_column ''managed_nodes'' ''endpoint_host'') (\<lambda>_.
     bnd (ensure_column ''managed_nodes'' ''own_ipv6'') (\<lambda>_.
     bnd (ensure_column ''managed_nodes'' ''router_id'') (\<lambda>_.
     bnd (ensure_column ''ibgp_peers'' ''remote_node_id'') (\<lambda>_.
     sql_ddl (create_index ''idx_ibgp_peers_remote'' ''ibgp_peers'')))))"

definition migration_14 :: "unit wop" where
  "migration_14 = ensure_column ''managed_nodes'' ''auto_peer''"

definition MIGRATIONS :: "(nat \<times> migration_step) list" where
  "MIGRATIONS =
    [(1, Script migration_1),
     (8, Script [require_table ''bgp_peers'' nm_to_networkd_bgp, require_table ''ibgp_peers'' nm_to_networkd_ibgp]),
     (9, Script migration_9),
     (10, Callable migration_10),
     (11, Script [require_table ''managed_nodes'' drop_old_hashes]),
     (12, Script [require_table ''managed_nodes'' keep_newest_self]),
     (13, Script [require_table ''managed_nodes'' create_self_index]),
     (14, Callable migration_14)]"

section \<open>The loop\<close>

definition record_version :: "nat \<Rightarrow> database \<Rightarrow> (unit \<times> database) result" where
  "record_version v d =
     (if v \<in> set (schema_migrations d) then Inl SqliteIntegrityError
      else Inr ((), d\<lparr> schema_migrations := schema_migrations d @ [v] \<rparr>))"

fun run_step :: "migration_step \<Rightarrow> unit wop" where
  "run_step (Script stmts) = executescript stmts"
| "run_step (Callable f) = f"

definition apply_version :: "nat list \<Rightarrow> nat \<times> migration_step \<Rightarrow> unit wop" where
  "apply_version applied vs =
     (if fst vs \<in> set applied then ret ()
      else with_tx (\<lambda>_. ''Migration failed'')
             (bnd (run_step (snd vs)) (\<lambda>_. sql_dml (record_version (fst vs)))))"

definition migrate :: "unit wop" where
  "migrate = bnd (sql_ddl (create_table ''schema_migrations'' [''version''])) (\<lambda>_.
     bnd (sql_query schema_migrations) (\<lambda>applied.
     for_each (apply_version applied) MIGRATIONS))"

text \<open>
  \<open>Database.open\<close>: a new connection, on which no transaction is open, is migrated; the
  best-effort \<open>chmod\<close> of the file afterwards is not seen by the database.
\<close>

definition db_open :: "unit wop" where
  "db_open = migrate"

section \<open>A migrated database\<close>

definition all_versions :: "nat list" where "all_versions = [1, 8, 9, 10, 11, 12, 13, 14]"

lemma all_versions_eq: "map fst MIGRATIONS = all_versions"
  by (simp add: MIGRATIONS_def all_versions_def)

definition migrated :: "database \<Rightarrow> bool" where
  "migrated d = (has_table d ''schema_migrations'' \<and> set all_versions \<subseteq> set (schema_migrations d))"

lemma for_each_skip: "(\<And>x. x \<in> set xs \<Longrightarrow> f x = ret ()) \<Longrightarrow> for_each f xs = ret ()"
  by (induction xs) (simp_all add: bnd_def ret_def)

lemma apply_versions_skip: "set all_versions \<subseteq> set applied \<Longrightarrow> for_each (apply_version applied) MIGRATIONS = ret ()"
proof (rule for_each_skip)
  fix vs
  assume a: "set all_versions \<subseteq> set applied" and "vs \<in> set MIGRATIONS"
  then have "fst vs \<in> set all_versions" by (metis all_versions_eq image_eqI set_map)
  with a show "apply_version applied vs = ret ()" by (auto simp: apply_version_def)
qed

text \<open>On a migrated database, opening reads and changes nothing.\<close>

lemma db_open_migrated:
  assumes "migrated (disk w)" and "tx w = None"
  shows "disk (snd (db_open w)) = disk w \<and> tx (snd (db_open w)) = None \<and> files (snd (db_open w)) = files w
      \<and> env (snd (db_open w)) = env w \<and> (fst (db_open w) = Inr () \<or> fst (db_open w) = Inl SqliteError)"
  using assms apply_versions_skip [of "schema_migrations (disk w)"]
  by (auto simp: db_open_def migrate_def migrated_def bnd_def sql_ddl_def sql_query_def
      create_table_def ret_def view_def split: if_splits)

text \<open>Migrating keeps the database well-formed, wherever it stops.\<close>

lemma wf_schema [simp]: "wf_db (d\<lparr> db_schema := s \<rparr>) = wf_db d" "wf_db (d\<lparr> schema_migrations := v \<rparr>) = wf_db d"
  by (simp_all add: wf_frame)

lemma wf_index: "i \<noteq> SELF_INDEX \<Longrightarrow> wf_db (d\<lparr> db_indexes := db_indexes d @ [i] \<rparr>) = wf_db d"
  by (auto simp: wf_frame)

lemma wf_ibgp_map:
  "wf_db d \<Longrightarrow> (\<And>r. p_node_id (f r) = p_node_id r) \<Longrightarrow> (\<And>r. p_name (f r) = p_name r) \<Longrightarrow> (\<And>r. p_ifname (f r) = p_ifname r) \<Longrightarrow>
   wf_db (d\<lparr> ibgp_peers := map f (ibgp_peers d) \<rparr>)"
  by (auto simp: wf_frame comp_def)

lemma wf_bgp_map:
  "wf_db d \<Longrightarrow> (\<And>r. p_node_id (f r) = p_node_id r) \<Longrightarrow> (\<And>r. p_peer_asn (f r) = p_peer_asn r) \<Longrightarrow> (\<And>r. p_ifname (f r) = p_ifname r) \<Longrightarrow>
   wf_db (d\<lparr> bgp_peers := map f (bgp_peers d) \<rparr>)"
  by (auto simp: wf_frame comp_def)

lemma wf_create_table: "wf_db d \<Longrightarrow> create_table t cs d = Inr d' \<Longrightarrow> wf_db d'"
  by (auto simp: create_table_def split: if_splits)

lemma wf_create_index: "wf_db d \<Longrightarrow> i \<noteq> SELF_INDEX \<Longrightarrow> create_index i t d = Inr d' \<Longrightarrow> wf_db d'"
  by (auto simp: create_index_def wf_index split: if_splits)

lemma wf_add_column: "wf_db d \<Longrightarrow> add_column t c d = Inr d' \<Longrightarrow> wf_db d'"
  by (auto simp: add_column_def default_column_def intro!: wf_managed_map wf_ibgp_map split: if_splits)

lemma wf_data_statements:
  "wf_db d \<Longrightarrow> nm_to_networkd_bgp d = Inr d' \<Longrightarrow> wf_db d'"
  "wf_db d \<Longrightarrow> nm_to_networkd_ibgp d = Inr d' \<Longrightarrow> wf_db d'"
  "wf_db d \<Longrightarrow> drop_old_hashes d = Inr d' \<Longrightarrow> wf_db d'"
  "wf_db d \<Longrightarrow> keep_newest_self d = Inr d' \<Longrightarrow> wf_db d'"
  by (auto simp: nm_to_networkd_bgp_def nm_to_networkd_ibgp_def drop_old_hashes_def keep_newest_self_def
      intro!: wf_managed_map wf_ibgp_map wf_bgp_map split: if_splits option.splits)

lemma wf_create_self_index: "wf_db d \<Longrightarrow> create_self_index d = Inr d' \<Longrightarrow> wf_db d'"
  by (auto simp: create_self_index_def wf_defs has_node_def pins_ok_def self_index_ok_def split: if_splits)

lemma keeps_record_version [preserve]: "keeps wf_db (record_version v)"
  by (auto simp: keeps_def record_version_def split: if_splits)

lemma preserves_ensure_column [preserve]: "preserves (on_world wf_db) (ensure_column t c)"
  unfolding ensure_column_def by (auto intro!: preserve intro: wf_add_column)

lemma preserves_script: "(\<And>f d d'. f \<in> set fs \<Longrightarrow> wf_db d \<Longrightarrow> f d = Inr d' \<Longrightarrow> wf_db d') \<Longrightarrow>
    preserves (on_world wf_db) (executescript fs)"
  unfolding executescript_def by (auto intro!: preserve)

lemma preserves_versions:
  "vs \<in> set MIGRATIONS \<Longrightarrow> preserves (on_world wf_db) (run_step (snd vs))"
proof -
  have 1: "preserves (on_world wf_db) (executescript migration_1)"
    by (rule preserves_script)
      (auto simp: migration_1_def SELF_INDEX_def elim!: wf_create_table [rotated] wf_create_index [rotated 2])
  have 9: "preserves (on_world wf_db) (executescript migration_9)"
    by (rule preserves_script)
      (auto simp: migration_9_def SELF_INDEX_def elim!: wf_create_table [rotated] wf_create_index [rotated 2])
  have 10: "preserves (on_world wf_db) migration_10" "preserves (on_world wf_db) migration_14"
    unfolding migration_10_def migration_14_def
    by (auto intro!: preserve dest!: wf_create_index [rotated -1] simp: SELF_INDEX_def)
  assume "vs \<in> set MIGRATIONS"
  then show ?thesis
    using 1 9 10
    by (auto simp: MIGRATIONS_def require_table_def intro!: preserves_script split: if_splits)
      (blast intro: wf_data_statements wf_create_self_index)+
qed

lemma preserves_wf_open [preserve]: "preserves (on_world wf_db) db_open"
  unfolding db_open_def migrate_def apply_version_def
  by (auto intro!: preserve intro: wf_create_table simp: preserves_versions simp del: fst_conv snd_conv)

text \<open>A migration raises only database errors, so it always ends with its transaction closed.\<close>

named_theorems sqlite_errs \<open>operations that raise only database errors\<close>

definition errs_sqlite :: "'a wop \<Rightarrow> bool" where
  "errs_sqlite m \<longleftrightarrow> (\<forall>w e. fst (m w) = Inl e \<longrightarrow> is_sqlite_error e)"

lemma errs_sqlite_basic [sqlite_errs]:
  "errs_sqlite (sql_query f)" "errs_sqlite commit" "errs_sqlite (ret x)"
  by (auto simp: errs_sqlite_def sql_query_def commit_def ret_def split: option.splits)

lemma errs_sqlite_ddl [sqlite_errs]: "sqlite_only f \<Longrightarrow> errs_sqlite (sql_ddl f)"
  by (auto simp: errs_sqlite_def sql_ddl_def sqlite_only_def split: sum.splits if_splits)

lemma errs_sqlite_dml [sqlite_errs]: "sqlite_only f \<Longrightarrow> errs_sqlite (sql_dml f)"
  by (auto simp: errs_sqlite_def sql_dml_def sqlite_only_def split: sum.splits if_splits)

lemma errs_sqlite_bnd [sqlite_errs]: "errs_sqlite m \<Longrightarrow> (\<And>x. errs_sqlite (f x)) \<Longrightarrow> errs_sqlite (bnd m f)"
  unfolding errs_sqlite_def
proof (intro allI impI)
  fix w e
  assume a: "\<forall>w e. fst (m w) = Inl e \<longrightarrow> is_sqlite_error e" "\<And>x. \<forall>w e. fst (f x w) = Inl e \<longrightarrow> is_sqlite_error e"
    and e: "fst (bnd m f w) = Inl e"
  obtain r w' where "m w = (r, w')" by (cases "m w")
  with a e show "is_sqlite_error e" by (cases r) (auto simp: bnd_def dest: spec [where x = w])
qed

lemma errs_sqlite_if [sqlite_errs]: "errs_sqlite m \<Longrightarrow> errs_sqlite n \<Longrightarrow> errs_sqlite (if b then m else n)"
  by simp

lemma errs_sqlite_for_each [sqlite_errs]: "(\<And>x. x \<in> set xs \<Longrightarrow> errs_sqlite (f x)) \<Longrightarrow> errs_sqlite (for_each f xs)"
  by (induction xs) (auto intro: sqlite_errs)

lemma sqlite_only_migrations [sqlite_errs]:
  "sqlite_only (create_table t cs)" "sqlite_only (create_index i t)" "sqlite_only (add_column t c)"
  "sqlite_only (require_table t nm_to_networkd_bgp)" "sqlite_only (require_table t nm_to_networkd_ibgp)"
  "sqlite_only (require_table t drop_old_hashes)" "sqlite_only (require_table t keep_newest_self)"
  "sqlite_only (require_table t create_self_index)" "sqlite_only (record_version v)"
  by (auto simp: sqlite_only_def create_table_def create_index_def add_column_def require_table_def
      nm_to_networkd_bgp_def nm_to_networkd_ibgp_def drop_old_hashes_def keep_newest_self_def create_self_index_def
      record_version_def split: if_splits)

lemma errs_sqlite_versions [sqlite_errs]: "vs \<in> set MIGRATIONS \<Longrightarrow> errs_sqlite (run_step (snd vs))"
  by (auto simp: MIGRATIONS_def executescript_def migration_1_def migration_9_def migration_10_def migration_14_def
      ensure_column_def intro!: sqlite_errs)

lemma with_tx_closes: "errs_sqlite body \<Longrightarrow> tx (snd (with_tx msg body w)) = None"
proof -
  assume e: "errs_sqlite body"
  obtain r w' where b: "body w = (r, w')" by (cases "body w")
  with e have "r = Inl x \<Longrightarrow> is_sqlite_error x" for x by (auto simp: errs_sqlite_def dest: spec [where x = w])
  with b show ?thesis
    by (cases r) (auto simp: with_tx_def op_defs commit_def rollback_def split: option.splits)
qed

lemma for_each_closes:
  "(\<And>x w. x \<in> set xs \<Longrightarrow> tx w = None \<Longrightarrow> tx (snd (f x w)) = None) \<Longrightarrow> tx w = None \<Longrightarrow> tx (snd (for_each f xs w)) = None"
proof (induction xs arbitrary: w)
  case (Cons x xs)
  obtain r w' where "f x w = (r, w')" by (cases "f x w")
  with Cons.prems(1) [of x w] Cons.prems(2) have "tx w' = None" and "for_each f (x # xs) w = (case r of Inl e \<Rightarrow> (Inl e, w') | Inr y \<Rightarrow> for_each f xs w')"
    by (auto simp: bnd_def split: sum.splits)
  with Cons show ?case by (auto split: sum.splits)
qed (simp add: ret_def)

lemma migrate_closes: "tx w = None \<Longrightarrow> tx (snd (migrate w)) = None"
proof -
  have v: "tx (snd (apply_version a vs w)) = None" if "vs \<in> set MIGRATIONS" "tx w = None" for a vs w
    using that by (auto simp: apply_version_def ret_def intro!: with_tx_closes sqlite_errs)
  have l: "tx (snd (for_each (apply_version a) MIGRATIONS w)) = None" if "tx w = None" for a w
    using that by (auto intro!: for_each_closes v)
  assume "tx w = None"
  then show ?thesis
    using l by (auto simp: migrate_def bnd_def sql_ddl_def sql_query_def create_table_def split: prod.splits sum.splits if_splits)
qed

lemma outcome_open [services]:
  "outcome db_open (\<lambda>d _ d'. migrated d \<longrightarrow> d' = d) (\<lambda>d d'. migrated d \<longrightarrow> d' = d)"
  unfolding outcome_def using migrate_closes db_open_migrated by (auto simp: db_open_def split: sum.splits)

text \<open>Without failing statements, opening a migrated database only takes time.\<close>

definition no_faults :: "world \<Rightarrow> bool" where
  "no_faults w \<longleftrightarrow> (\<forall>n. \<not> sql_fault (env w) n) \<and> (\<forall>n. \<not> io_fault (env w) n)"

lemma db_open_quiet:
  assumes "migrated (disk w)" and "tx w = None" and "no_faults w"
  shows "db_open w = (Inr (), next_tick (next_tick w))"
  using assms apply_versions_skip [of "schema_migrations (disk w)"]
  by (simp add: db_open_def migrate_def migrated_def no_faults_def bnd_def sql_ddl_def sql_query_def
      create_table_def ret_def view_def next_tick_def)

definition ready :: "database \<Rightarrow> database" where
  "ready d = d\<lparr> db_schema := [(''schema_migrations'', [''version''])], schema_migrations := all_versions \<rparr>"

lemma ready_migrated [simp]: "migrated (ready d)"
  by (simp add: ready_def migrated_def has_table_def)

lemma ready_simps [simp]: "bgp_peers (ready d) = bgp_peers d" "ibgp_peers (ready d) = ibgp_peers d"
  "nodes (ready d) = nodes d" "managed_nodes (ready d) = managed_nodes d" "sync_events (ready d) = sync_events d"
  "events_seq (ready d) = events_seq d"
  by (simp_all add: ready_def)

end
