(* ===== verification/Upgrades.thy ===== *)
theory Upgrades
  imports Migrations
begin

text \<open>
  What the migration loop of \<open>Database.migrate\<close> guarantees: a database that is up to date is
  left alone, an interrupted migration completes on the next attempt, and what a failing
  callable step leaves behind.
\<close>

section \<open>What every statement keeps\<close>

definition base_tables :: "string list" where
  "base_tables = [''schema_migrations'', ''nodes'', ''bgp_peers'', ''ibgp_peers'', ''managed_nodes'', ''config_proposals'',
     ''node_reports'', ''config_revisions'', ''node_desired_pin'']"

definition self_count :: "database \<Rightarrow> nat" where
  "self_count d = length (filter mn_is_self (managed_nodes d))"

text \<open>Tables stay, the recorded versions stay, nodes keep their ids and none becomes the self node.\<close>

definition kept :: "database \<Rightarrow> database \<Rightarrow> bool" where
  "kept d d' \<longleftrightarrow> schema_migrations d' = schema_migrations d \<and> (\<forall>t. has_table d t \<longrightarrow> has_table d' t)
     \<and> map mn_node_id (managed_nodes d') = map mn_node_id (managed_nodes d) \<and> self_count d' \<le> self_count d"

definition benign :: "(database \<Rightarrow> database result) \<Rightarrow> bool" where
  "benign f \<longleftrightarrow> (\<forall>d d'. f d = Inr d' \<longrightarrow> kept d d')"

lemma kept_refl [simp]: "kept d d"
  by (simp add: kept_def)

lemma kept_trans: "kept a b \<Longrightarrow> kept b c \<Longrightarrow> kept a c"
  by (auto simp: kept_def)

lemma kept_managed_map:
  assumes "\<And>m. mn_node_id (f m) = mn_node_id m" and "\<And>m. mn_is_self (f m) \<Longrightarrow> mn_is_self m"
  shows "kept d (d\<lparr> managed_nodes := map f (managed_nodes d) \<rparr>)"
proof -
  have "length (filter mn_is_self (map f ms)) \<le> length (filter mn_is_self ms)" for ms
    using assms(2) by (induction ms) auto
  with assms(1) show ?thesis by (simp add: kept_def self_count_def has_table_def comp_def)
qed

lemma kept_ibgp: "kept d (d\<lparr> ibgp_peers := rs \<rparr>)"
  by (simp add: kept_def has_table_def self_count_def)

lemma kept_schema: "kept d e \<Longrightarrow> map fst s = map fst (db_schema d) \<Longrightarrow> kept d (e\<lparr> db_schema := s \<rparr>)"
  by (simp add: kept_def has_table_def self_count_def flip: set_map)

lemma benign_statements:
  "benign (create_table t cs)" "benign (create_index i t)" "benign (add_column t c)"
  "benign (require_table t nm_to_networkd_bgp)" "benign (require_table t nm_to_networkd_ibgp)"
  "benign (require_table t drop_old_hashes)" "benign (require_table t keep_newest_self)"
  "benign (require_table t create_self_index)"
proof -
  show "benign (create_table t cs)" "benign (create_index i t)" "benign (require_table t nm_to_networkd_bgp)"
    "benign (require_table t nm_to_networkd_ibgp)" "benign (require_table t create_self_index)"
    by (auto simp: benign_def kept_def create_table_def create_index_def require_table_def nm_to_networkd_bgp_def
        nm_to_networkd_ibgp_def create_self_index_def has_table_def self_count_def split: if_splits)
  have dh: "kept d d'" if "drop_old_hashes d = Inr d'" for d d'
    using that unfolding drop_old_hashes_def by (auto split: option.splits if_splits simp del: o_apply intro!: kept_managed_map)
  have kn: "kept d d'" if "keep_newest_self d = Inr d'" for d d'
  proof -
    from that have d': "d' = d\<lparr> managed_nodes := map (\<lambda>m. if mn_is_self m \<and> Some (mn_node_id m) \<noteq> map_option mn_node_id (select_self d)
        then m\<lparr> mn_is_self := False \<rparr> else m) (managed_nodes d) \<rparr>"
      by (simp add: keep_newest_self_def)
    show ?thesis unfolding d' by (rule kept_managed_map) (simp_all split: if_splits)
  qed
  show "benign (require_table t drop_old_hashes)"
    unfolding benign_def require_table_def by (auto split: if_splits dest: dh)
  show "benign (require_table t keep_newest_self)"
    unfolding benign_def require_table_def by (auto split: if_splits dest: kn)
  have "kept d (default_column t c d)" for d
    unfolding default_column_def by (simp add: kept_ibgp) (intro conjI impI kept_managed_map; simp)
  moreover have "map fst (map (\<lambda>tc. if fst tc = t then (t, snd tc @ [c]) else tc) s) = map fst s" for s :: "(string \<times> string list) list"
    by auto
  ultimately show "benign (add_column t c)"
    by (auto simp: benign_def add_column_def has_table_def simp del: map_map intro!: kept_schema split: if_splits)
qed

section \<open>Interrupted migrations\<close>

text \<open>
  What holds of the durable database between two attempts: the effects of versions 1 and 12
  are there whenever they are recorded.
\<close>

definition resumable :: "database \<Rightarrow> bool" where
  "resumable d \<longleftrightarrow> distinct (map mn_node_id (managed_nodes d))
     \<and> (1 \<in> set (schema_migrations d) \<longrightarrow> (\<forall>t \<in> set base_tables. has_table d t))
     \<and> (12 \<in> set (schema_migrations d) \<longrightarrow> self_count d \<le> 1)"

lemma resumable_kept: "resumable d \<Longrightarrow> kept d d' \<Longrightarrow> resumable d'"
  by (auto simp: resumable_def kept_def)

lemma preserves_ddl_benign: "benign f \<Longrightarrow> (\<And>d d'. P d \<Longrightarrow> kept d d' \<Longrightarrow> P d') \<Longrightarrow> preserves (on_world P) (sql_ddl f)"
  by (rule preserves_sql_ddl) (auto simp: benign_def)

lemma benign_scripts: "Script fs \<in> set (map snd MIGRATIONS) \<Longrightarrow> f \<in> set fs \<Longrightarrow> benign f"
proof -
  have "\<forall>s \<in> set (map snd MIGRATIONS). case s of Script fs \<Rightarrow> list_all benign fs | Callable _ \<Rightarrow> True"
    by (simp add: MIGRATIONS_def migration_1_def migration_9_def benign_statements)
  moreover assume "Script fs \<in> set (map snd MIGRATIONS)" and "f \<in> set fs"
  ultimately show ?thesis by (fastforce simp: list_all_iff simp del: set_map)
qed

lemma preserves_callables:
  assumes P: "\<And>d d'. P d \<Longrightarrow> kept d d' \<Longrightarrow> P d'"
  shows "preserves (on_world P) migration_10" and "preserves (on_world P) migration_14"
proof -
  have d: "benign f \<Longrightarrow> preserves (on_world P) (sql_ddl f)" for f by (rule preserves_ddl_benign [OF _ P])
  have e: "preserves (on_world P) (ensure_column t c)" for t c
    unfolding ensure_column_def by (intro preserve d benign_statements)
  show "preserves (on_world P) migration_10" and "preserves (on_world P) migration_14"
    unfolding migration_10_def migration_14_def by (intro preserves_bnd e d benign_statements)+
qed

lemma preserves_step:
  assumes "vs \<in> set MIGRATIONS" and P: "\<And>d d'. P d \<Longrightarrow> kept d d' \<Longrightarrow> P d'"
  shows "preserves (on_world P) (run_step (snd vs))"
proof (cases "snd vs")
  case (Script fs)
  with assms(1) have "Script fs \<in> set (map snd MIGRATIONS)" by force
  then have "preserves (on_world P) (sql_ddl f)" if "f \<in> set fs" for f
    using that by (intro preserves_ddl_benign [OF _ P] benign_scripts)
  then show ?thesis using Script by (auto simp: executescript_def intro!: preserves_bnd preserves_commit preserves_for_each)
next
  case (Callable f)
  with assms(1) have "f = migration_10 \<or> f = migration_14" by (auto simp: MIGRATIONS_def)
  with Callable preserves_callables [of P, OF P] show ?thesis by auto
qed

text \<open>A script runs its statements one after the other on the database.\<close>

fun run_script :: "(database \<Rightarrow> database result) list \<Rightarrow> database \<Rightarrow> database result" where
  "run_script [] d = Inr d"
| "run_script (f # fs) d = bindR (f d) (run_script fs)"

lemma script_spec: "op_spec (executescript fs) (\<lambda>d _ d'. run_script fs d = Inr d')"
proof -
  have ddl: "op_spec (sql_ddl f) (\<lambda>d _ d'. f d = Inr d')" for f
    by (auto simp: op_spec_def sql_ddl_def view_def split: sum.splits option.splits if_splits)
  have "op_spec (for_each sql_ddl fs) (\<lambda>d _ d'. run_script fs d = Inr d')"
  proof (induction fs)
    case Nil
    show ?case by (auto simp: op_spec_def ret_def)
  next
    case (Cons f fs)
    show ?case
      unfolding for_each.simps by (rule op_spec_conseq [OF op_spec_bnd [OF ddl Cons.IH]]) (auto simp: bindR_def)
  qed
  then show ?thesis
    unfolding executescript_def by (rule op_spec_conseq [OF op_spec_bnd [OF op_spec_commit]]) auto
qed

lemma script_quiet:
  assumes "no_faults w" and "tx w = None" and "run_script fs (disk w) = Inr d"
  shows "\<exists>k. executescript fs w = (Inr (), w\<lparr> disk := d, tick := k \<rparr>)"
proof -
  have "\<exists>k. for_each sql_ddl fs w = (Inr (), w\<lparr> disk := d, tick := k \<rparr>)"
    if "no_faults w" "tx w = None" "run_script fs (disk w) = Inr d" for w
    using that
  proof (induction fs arbitrary: w)
    case Nil
    then show ?case by (intro exI [of _ "tick w"]) (simp add: ret_def)
  next
    case (Cons f fs)
    then obtain d1 where f: "f (disk w) = Inr d1" and r: "run_script fs d1 = Inr d"
      by (auto simp: bindR_def split: sum.splits)
    from f Cons.prems have "sql_ddl f w = (Inr (), (next_tick w)\<lparr> disk := d1 \<rparr>)"
      by (simp add: sql_ddl_def no_faults_def view_def)
    moreover obtain k where "for_each sql_ddl fs ((next_tick w)\<lparr> disk := d1 \<rparr>) = (Inr (), w\<lparr> disk := d, tick := k \<rparr>)"
      using Cons.IH [of "(next_tick w)\<lparr> disk := d1 \<rparr>"] Cons.prems r by (auto simp: no_faults_def next_tick_def)
    ultimately show ?case by (auto simp: bnd_def)
  qed
  from this [of "next_tick w"] assms show ?thesis
    by (auto simp: executescript_def commit_def bnd_def no_faults_def next_tick_def)
qed

section \<open>Every step succeeds\<close>

definition put_table :: "string \<Rightarrow> string list \<Rightarrow> database \<Rightarrow> database" where
  "put_table t cs d = (if has_table d t then d else d\<lparr> db_schema := db_schema d @ [(t, cs)] \<rparr>)"

definition put_index :: "string \<Rightarrow> database \<Rightarrow> database" where
  "put_index i d = (if i \<in> set (db_indexes d) then d else d\<lparr> db_indexes := db_indexes d @ [i] \<rparr>)"

lemma run_create:
  "run_script (create_table t cs # fs) d = run_script fs (put_table t cs d)"
  "has_table d t \<Longrightarrow> run_script (create_index i t # fs) d = run_script fs (put_index i d)"
  "has_table (put_table t cs d) t' \<longleftrightarrow> t' = t \<or> has_table d t'"
  "has_table (put_index i d) t' \<longleftrightarrow> has_table d t'"
  by (auto simp: create_table_def create_index_def put_table_def put_index_def bindR_def has_table_def)

lemma run_script_kept: "\<forall>f \<in> set fs. benign f \<Longrightarrow> run_script fs d = Inr d' \<Longrightarrow> kept d d'"
  by (induction fs arbitrary: d) (auto simp: bindR_def benign_def split: sum.splits intro: kept_trans)

lemma run_migration_1: "\<exists>d'. run_script migration_1 d = Inr d' \<and> (\<forall>t \<in> set base_tables. has_table d' t)"
  by (simp add: migration_1_def run_create base_tables_def del: run_script.simps(2))

lemma run_migration_9: "\<exists>d'. run_script migration_9 d = Inr d'"
  by (simp add: migration_9_def run_create del: run_script.simps(2))

lemma select_self_self: "select_self d = Some m \<Longrightarrow> m \<in> set (managed_nodes d)"
proof -
  assume "select_self d = Some m"
  then have "m \<in> set (rev (sort_key (\<lambda>m. (mn_updated_at m, mn_node_id m)) (filter mn_is_self (managed_nodes d))))"
    unfolding select_self_def by (cases "rev (sort_key (\<lambda>m. (mn_updated_at m, mn_node_id m)) (filter mn_is_self (managed_nodes d)))") auto
  then show ?thesis by simp
qed

text \<open>Version 12 leaves at most one self node, so that version 13 can create its index.\<close>

lemma keep_newest_self_count:
  assumes "distinct (map mn_node_id (managed_nodes d))" and "keep_newest_self d = Inr d'"
  shows "self_count d' \<le> 1"
proof -
  let ?f = "\<lambda>m. if mn_is_self m \<and> Some (mn_node_id m) \<noteq> map_option mn_node_id (select_self d)
       then m\<lparr> mn_is_self := False \<rparr> else m"
  have d': "managed_nodes d' = map ?f (managed_nodes d)" using assms(2) by (auto simp: keep_newest_self_def)
  have le: "length (filter mn_is_self (map ?f ms)) \<le> length (filter (\<lambda>m. Some (mn_node_id m) = map_option mn_node_id (select_self d)) ms)" for ms
    by (induction ms) auto
  moreover have "length (filter (\<lambda>m. Some (mn_node_id m) = map_option mn_node_id (select_self d)) (managed_nodes d)) \<le> 1"
  proof (cases "select_self d")
    case (Some s)
    with select_self_self have "s \<in> set (managed_nodes d)" by blast
    from filter_key_single [OF assms(1) this] Some show ?thesis by simp
  qed simp
  ultimately show ?thesis using le [of "managed_nodes d"] unfolding self_count_def d' by linarith
qed

lemma ensure_column_quiet:
  assumes "no_faults w" and "tx w = None" and "has_table (disk w) t"
  shows "\<exists>d k. ensure_column t c w = (Inr (), w\<lparr> disk := d, tick := k \<rparr>) \<and> kept (disk w) d"
proof (cases "c \<in> set (table_columns (disk w) t)")
  case True
  with assms have "ensure_column t c w = (Inr (), w\<lparr> disk := disk w, tick := Suc (tick w) \<rparr>)"
    by (simp add: ensure_column_def bnd_def sql_query_def no_faults_def view_def ret_def next_tick_def)
  then show ?thesis using kept_refl by blast
next
  case False
  with assms obtain d where d: "add_column t c (disk w) = Inr d" by (auto simp: add_column_def)
  with assms False have "ensure_column t c w = (Inr (), w\<lparr> disk := d, tick := Suc (Suc (tick w)) \<rparr>)"
    by (simp add: ensure_column_def bnd_def sql_query_def sql_ddl_def no_faults_def view_def next_tick_def)
  moreover have "kept (disk w) d" using benign_statements(3) d by (simp add: benign_def)
  ultimately show ?thesis by blast
qed

text \<open>One operation after another, each successful and keeping what is there.\<close>

definition quiet_run :: "unit wop \<Rightarrow> (database \<Rightarrow> bool) \<Rightarrow> bool" where
  "quiet_run m P \<longleftrightarrow> (\<forall>w. no_faults w \<and> tx w = None \<and> P (disk w) \<longrightarrow>
     (\<exists>d k. m w = (Inr (), w\<lparr> disk := d, tick := k \<rparr>) \<and> kept (disk w) d))"

lemma quiet_run_bnd:
  assumes "quiet_run m P" and "quiet_run n P" and "\<And>d d'. P d \<Longrightarrow> kept d d' \<Longrightarrow> P d'"
  shows "quiet_run (bnd m (\<lambda>_. n)) P"
  unfolding quiet_run_def
proof (intro allI impI)
  fix w
  assume w: "no_faults w \<and> tx w = None \<and> P (disk w)"
  then obtain d k where m: "m w = (Inr (), w\<lparr> disk := d, tick := k \<rparr>)" and d: "kept (disk w) d"
    using assms(1) by (auto simp: quiet_run_def)
  let ?w = "w\<lparr> disk := d, tick := k \<rparr>"
  from w d assms(3) have "no_faults ?w \<and> tx ?w = None \<and> P (disk ?w)" by (auto simp: no_faults_def)
  then obtain d' k' where "n ?w = (Inr (), ?w\<lparr> disk := d', tick := k' \<rparr>)" and "kept d d'"
    using assms(2) by (force simp: quiet_run_def)
  with m d show "\<exists>d k. bnd m (\<lambda>_. n) w = (Inr (), w\<lparr> disk := d, tick := k \<rparr>) \<and> kept (disk w) d"
    by (auto simp: bnd_def intro: kept_trans)
qed

lemma quiet_callables:
  "quiet_run migration_10 (\<lambda>d. has_table d ''managed_nodes'' \<and> has_table d ''ibgp_peers'')"
  "quiet_run migration_14 (\<lambda>d. has_table d ''managed_nodes'')"
proof -
  have i: "quiet_run (sql_ddl (create_index i t)) P" if "\<And>d. P d \<Longrightarrow> has_table d t" for i t P
    unfolding quiet_run_def
  proof (intro allI impI)
    fix w
    assume w: "no_faults w \<and> tx w = None \<and> P (disk w)"
    with that obtain d where d: "create_index i t (disk w) = Inr d" by (auto simp: create_index_def)
    with w have "sql_ddl (create_index i t) w = (Inr (), w\<lparr> disk := d, tick := Suc (tick w) \<rparr>)"
      by (simp add: sql_ddl_def no_faults_def view_def next_tick_def)
    with benign_statements(2) d show "\<exists>d k. sql_ddl (create_index i t) w = (Inr (), w\<lparr> disk := d, tick := k \<rparr>) \<and> kept (disk w) d"
      by (auto simp: benign_def)
  qed
  have e: "quiet_run (ensure_column t c) P" if "\<And>d. P d \<Longrightarrow> has_table d t" for t c P
    using ensure_column_quiet that by (auto simp: quiet_run_def)
  show "quiet_run migration_14 (\<lambda>d. has_table d ''managed_nodes'')" unfolding migration_14_def by (rule e)
  show "quiet_run migration_10 (\<lambda>d. has_table d ''managed_nodes'' \<and> has_table d ''ibgp_peers'')"
    unfolding migration_10_def
    by (intro quiet_run_bnd e i) (auto simp: kept_def)
qed

definition effect :: "nat \<Rightarrow> database \<Rightarrow> bool" where
  "effect v d \<longleftrightarrow> (v = 1 \<longrightarrow> (\<forall>t \<in> set base_tables. has_table d t)) \<and> (v = 12 \<longrightarrow> self_count d \<le> 1)"

text \<open>What a version needs: the tables of version 1, and version 12 before version 13.\<close>

definition possible :: "nat \<Rightarrow> database \<Rightarrow> bool" where
  "possible v d \<longleftrightarrow> (v \<noteq> 1 \<longrightarrow> 1 \<in> set (schema_migrations d)) \<and> (v = 13 \<longrightarrow> 12 \<in> set (schema_migrations d))"

lemma script_succeeds:
  assumes "(v, Script fs) \<in> set MIGRATIONS" and "resumable d" and "possible v d"
  shows "\<exists>d'. run_script fs d = Inr d' \<and> effect v d'"
proof -
  have "has_table d t" if "v \<noteq> 1" "t \<in> set base_tables" for t
    using assms(2,3) that by (auto simp: resumable_def possible_def)
  then have t: "v \<noteq> 1 \<Longrightarrow> has_table d ''bgp_peers'' \<and> has_table d ''ibgp_peers'' \<and> has_table d ''managed_nodes''"
    by (simp add: base_tables_def)
  from assms(1) consider (v1) "v = 1" "fs = migration_1"
    | (v8) "v = 8" "fs = [require_table ''bgp_peers'' nm_to_networkd_bgp, require_table ''ibgp_peers'' nm_to_networkd_ibgp]"
    | (v9) "v = 9" "fs = migration_9" | (v11) "v = 11" "fs = [require_table ''managed_nodes'' drop_old_hashes]"
    | (v12) "v = 12" "fs = [require_table ''managed_nodes'' keep_newest_self]"
    | (v13) "v = 13" "fs = [require_table ''managed_nodes'' create_self_index]"
    by (auto simp: MIGRATIONS_def)
  then show ?thesis
  proof cases
    case v1
    with run_migration_1 show ?thesis by (simp add: effect_def)
  next
    case v8
    with t show ?thesis
      by (simp add: require_table_def nm_to_networkd_bgp_def nm_to_networkd_ibgp_def bindR_def effect_def has_table_def)
  next
    case v9
    with run_migration_9 show ?thesis by (simp add: effect_def)
  next
    case v11
    with t show ?thesis by (simp add: require_table_def drop_old_hashes_def bindR_def effect_def)
  next
    case v12
    with t obtain d' where "keep_newest_self d = Inr d'" by (auto simp: keep_newest_self_def)
    with v12 t keep_newest_self_count [of d d'] assms(2) show ?thesis
      by (simp add: require_table_def bindR_def effect_def resumable_def)
  next
    case v13
    with assms(2,3) have "single_self (managed_nodes d)"
      by (simp add: possible_def resumable_def self_count_def single_self_def)
    with v13 t show ?thesis by (simp add: require_table_def create_self_index_def bindR_def effect_def)
  qed
qed

lemma step_succeeds:
  assumes "(v, s) \<in> set MIGRATIONS" and "no_faults w" and "tx w = None" and "resumable (disk w)" and "possible v (disk w)"
  shows "\<exists>d k. run_step s w = (Inr (), w\<lparr> disk := d, tick := k \<rparr>) \<and> kept (disk w) d \<and> effect v d"
proof (cases s)
  case (Script fs)
  with assms script_succeeds obtain d where d: "run_script fs (disk w) = Inr d" "effect v d" by blast
  have "Script fs \<in> set (map snd MIGRATIONS)" using assms(1) Script by force
  then have "kept (disk w) d" using d(1) benign_scripts by (intro run_script_kept) auto
  with script_quiet [OF assms(2,3) d(1)] d(2) Script show ?thesis by auto
next
  case (Callable f)
  with assms(1) have v: "v = 10 \<and> f = migration_10 \<or> v = 14 \<and> f = migration_14" by (auto simp: MIGRATIONS_def)
  have t: "has_table (disk w) ''managed_nodes''" "has_table (disk w) ''ibgp_peers''"
    using assms(4,5) v by (auto simp: resumable_def possible_def base_tables_def)
  obtain d k where "f w = (Inr (), w\<lparr> disk := d, tick := k \<rparr>)" "kept (disk w) d"
    using v quiet_callables t assms(2,3) unfolding quiet_run_def by blast
  with v Callable show ?thesis by (auto simp: effect_def)
qed

lemma resumable_recorded:
  "resumable d \<Longrightarrow> effect v d \<Longrightarrow> resumable (d\<lparr> schema_migrations := schema_migrations d @ [v] \<rparr>)"
  by (auto simp: resumable_def effect_def has_table_def self_count_def)

lemma apply_succeeds:
  assumes "(v, s) \<in> set MIGRATIONS" and "no_faults w" and "tx w = None" and "resumable (disk w)" and "possible v (disk w)"
    and "v \<notin> set (schema_migrations (disk w))" and "v \<notin> set applied"
  shows "\<exists>d k. apply_version applied (v, s) w = (Inr (), w\<lparr> disk := d, tick := k \<rparr>) \<and> resumable d
     \<and> set (schema_migrations d) = insert v (set (schema_migrations (disk w)))"
proof -
  obtain d k where r: "run_step s w = (Inr (), w\<lparr> disk := d, tick := k \<rparr>)" and d: "kept (disk w) d" "effect v d"
    using step_succeeds [OF assms(1-5)] by blast
  let ?d = "d\<lparr> schema_migrations := schema_migrations d @ [v] \<rparr>"
  from d(1) have sm: "schema_migrations d = schema_migrations (disk w)" by (simp add: kept_def)
  have "apply_version applied (v, s) w = (Inr (), w\<lparr> disk := ?d, tick := Suc (Suc k) \<rparr>)"
    using r assms(2,3,6,7) by (simp add: apply_version_def with_tx_def op_defs sql_dml_def record_version_def sm
        commit_def no_faults_def view_def next_tick_def)
  moreover have "resumable ?d"
    using resumable_kept [OF assms(4) d(1)] d(2) by (rule resumable_recorded)
  ultimately show ?thesis using sm by auto
qed

lemma versions_sorted: "sorted_wrt (<) (map fst MIGRATIONS)"
  by (simp add: all_versions_eq all_versions_def)

lemma loop_succeeds:
  assumes "MIGRATIONS = ps @ rest" and "no_faults w" and "tx w = None" and "resumable (disk w)"
    and "fst ` set ps \<subseteq> set (schema_migrations (disk w))"
    and "set (schema_migrations (disk w)) \<subseteq> set applied \<union> fst ` set ps" and "set applied \<subseteq> set (schema_migrations (disk w))"
  shows "\<exists>d k. for_each (apply_version applied) rest w = (Inr (), w\<lparr> disk := d, tick := k \<rparr>) \<and> resumable d
     \<and> set all_versions \<subseteq> set (schema_migrations d)"
  using assms
proof (induction rest arbitrary: ps w)
  case Nil
  then have "set all_versions \<subseteq> set (schema_migrations (disk w))" by (simp flip: all_versions_eq)
  with Nil.prems(4) show ?case by (intro exI [of _ "disk w"] exI [of _ "tick w"]) (simp add: ret_def)
next
  case (Cons vs rest)
  obtain v s where vs: "vs = (v, s)" by (cases vs)
  have earlier: "u \<in> fst ` set ps" if "u \<in> set all_versions" "u < v" for u
  proof -
    have "\<forall>u \<in> fst ` set rest. v < u" using versions_sorted unfolding Cons.prems(1) vs by (auto simp: sorted_wrt_append)
    moreover have "set all_versions = fst ` set ps \<union> {v} \<union> fst ` set rest"
      unfolding all_versions_eq [symmetric] Cons.prems(1) vs by auto
    ultimately show ?thesis using that by fastforce
  qed
  have mem: "(v, s) \<in> set MIGRATIONS" unfolding Cons.prems(1) vs by simp
  have new: "v \<notin> fst ` set ps" using versions_sorted unfolding Cons.prems(1) vs by (force simp: sorted_wrt_append)
  have next_step: ?case if step: "apply_version applied vs w = (Inr (), w\<lparr> disk := d, tick := k \<rparr>)" "resumable d"
    "set (schema_migrations d) = insert v (set (schema_migrations (disk w)))" for d k
  proof -
    let ?w = "w\<lparr> disk := d, tick := k \<rparr>"
    have "\<exists>d' k'. for_each (apply_version applied) rest ?w = (Inr (), ?w\<lparr> disk := d', tick := k' \<rparr>) \<and> resumable d'
        \<and> set all_versions \<subseteq> set (schema_migrations d')"
      by (rule Cons.IH [of "ps @ [vs]" ?w]) (use Cons.prems step vs in \<open>auto simp: no_faults_def\<close>)
    with step(1) show ?thesis by (auto simp: bnd_def)
  qed
  show ?case
  proof (cases "v \<in> set applied")
    case True
    then have "apply_version applied vs w = (Inr (), w\<lparr> disk := disk w, tick := tick w \<rparr>)"
      by (simp add: apply_version_def vs ret_def)
    moreover have "v \<in> set (schema_migrations (disk w))" using True Cons.prems(7) by blast
    ultimately show ?thesis using next_step Cons.prems(4) by blast
  next
    case False
    with new Cons.prems(6) have "v \<notin> set (schema_migrations (disk w))" by blast
    moreover have "possible v (disk w)"
    proof -
      have "v \<in> set all_versions" using mem by (metis all_versions_eq fst_conv image_eqI set_map)
      then have "v \<noteq> 1 \<Longrightarrow> 1 < v" by (auto simp: all_versions_def)
      then show ?thesis
        using earlier [of 1] earlier [of 12] Cons.prems(5) by (auto simp: possible_def all_versions_def)
    qed
    ultimately show ?thesis
      using apply_succeeds [OF mem Cons.prems(2-4) _ _ False] next_step vs by blast
  qed
qed

lemma migrate_succeeds:
  assumes "no_faults w" and "tx w = None" and "resumable (disk w)"
  shows "\<exists>w'. migrate w = (Inr (), w') \<and> migrated (disk w') \<and> resumable (disk w') \<and> tx w' = None"
proof -
  let ?d = "put_table ''schema_migrations'' [''version''] (disk w)"
  let ?w = "w\<lparr> disk := ?d, tick := tick w + 2 \<rparr>"
  have k: "kept (disk w) ?d" by (simp add: kept_def put_table_def has_table_def self_count_def)
  have "\<exists>d k. for_each (apply_version (schema_migrations ?d)) MIGRATIONS ?w = (Inr (), ?w\<lparr> disk := d, tick := k \<rparr>) \<and> resumable d
      \<and> set all_versions \<subseteq> set (schema_migrations d)"
    by (rule loop_succeeds [of "[]"]) (use assms resumable_kept [OF _ k] in \<open>auto simp: no_faults_def\<close>)
  moreover have "migrate w = for_each (apply_version (schema_migrations ?d)) MIGRATIONS ?w"
    using assms(1,2) by (simp add: migrate_def bnd_def sql_ddl_def sql_query_def create_table_def put_table_def no_faults_def
        view_def next_tick_def)
  ultimately obtain d n where m: "migrate w = (Inr (), ?w\<lparr> disk := d, tick := n \<rparr>)" and d: "resumable d"
    "set all_versions \<subseteq> set (schema_migrations d)" by auto
  have "1 \<in> set (schema_migrations d)" using d(2) by (auto simp: all_versions_def)
  with d have "migrated d" by (auto simp: migrated_def resumable_def base_tables_def)
  with m d assms(2) show ?thesis by auto
qed

section \<open>Whatever fails\<close>

lemma step_effect:
  assumes "(v, s) \<in> set MIGRATIONS" and "run_step s w = (Inr (), w')" and "resumable (view w)"
  shows "effect v (view w')"
proof (cases "v = 1 \<or> v = 12")
  case False
  then show ?thesis by (simp add: effect_def)
next
  case True
  with assms(1) have s: "v = 1 \<and> s = Script migration_1 \<or> v = 12 \<and> s = Script [require_table ''managed_nodes'' keep_newest_self]"
    by (auto simp: MIGRATIONS_def)
  then obtain fs where fs: "s = Script fs" by blast
  with op_specD [OF script_spec, of fs w "()" w'] assms(2) have r: "run_script fs (view w) = Inr (view w')" by simp
  from s show ?thesis
  proof
    assume "v = 1 \<and> s = Script migration_1"
    with fs r run_migration_1 [of "view w"] show ?thesis by (auto simp: effect_def)
  next
    assume v: "v = 12 \<and> s = Script [require_table ''managed_nodes'' keep_newest_self]"
    with fs r have "keep_newest_self (view w) = Inr (view w')"
      by (auto simp: bindR_def require_table_def split: sum.splits if_splits)
    with v keep_newest_self_count assms(3) show ?thesis by (auto simp: effect_def resumable_def)
  qed
qed

lemma apply_resumable: "vs \<in> set MIGRATIONS \<Longrightarrow> preserves (on_world resumable) (apply_version applied vs)"
proof (rule preservesI)
  fix w
  assume mem: "vs \<in> set MIGRATIONS" and w: "on_world resumable w"
  obtain v s where vs: "vs = (v, s)" by (cases vs)
  let ?body = "bnd (run_step s) (\<lambda>_. sql_dml (record_version v))"
  obtain r w1 where r: "run_step s w = (r, w1)" by (cases "run_step s w")
  have w1: "on_world resumable w1"
    using preservesD [OF preserves_step [OF mem resumable_kept] w] by (simp add: vs r)
  have "on_world resumable (snd (?body w))"
  proof (cases r)
    case (Inl e)
    with r w1 show ?thesis by (simp add: bnd_def)
  next
    case (Inr u)
    from step_effect [of v s w w1] mem vs r Inr w have "effect v (view w1)" by (simp add: on_world_def)
    with w1 resumable_recorded [of "view w1" v] have
      "resumable ((view w1)\<lparr> schema_migrations := schema_migrations (view w1) @ [v] \<rparr>)" by (simp add: on_world_def)
    with r Inr w1 show ?thesis
      by (simp add: bnd_def sql_dml_def record_version_def on_world_def)
  qed
  from with_tx_end [where body = ?body and P = resumable and w = w, OF this] w show "on_world resumable (snd (apply_version applied vs w))"
    by (simp add: apply_version_def vs ret_def)
qed

lemma migrate_resumable: "preserves (on_world resumable) migrate"
  unfolding migrate_def
  by (intro preserves_bnd preserves_ddl_benign benign_statements preserves_sql_query preserves_for_each apply_resumable)
    (auto intro: resumable_kept)

section \<open>Properties\<close>

text \<open>
  C10. A migration that was interrupted anywhere, by any failing statement, completes when it
  is run again on what it left and nothing fails: every version is recorded then. Version 12
  leaves at most one self node, which is what lets version 13 create its unique index. The
  condition on the database holds of the empty one.
\<close>

theorem interrupted_migration_completes:
  assumes "tx w = None" and "resumable (disk w)"
    and "disk w2 = disk (snd (migrate w))" and "tx w2 = None" and "no_faults w2"
  shows "\<exists>w3. migrate w2 = (Inr (), w3) \<and> migrated (disk w3) \<and> resumable (disk w3) \<and> tx w3 = None"
proof -
  from assms(1,2) have "on_world resumable w" by (simp add: on_world_def view_def)
  from preservesD [OF migrate_resumable this] assms(3) have "resumable (disk w2)" by (simp add: on_world_def)
  with migrate_succeeds [OF assms(5,4)] show ?thesis .
qed

theorem interrupted_migration_completes_witness:
  "let w = (start_world empty_database)\<lparr> env := quiet_env\<lparr> sql_fault := (\<lambda>n. n = 20) \<rparr> \<rparr> in
     \<exists>w3. migrate (start_world (disk (snd (migrate w)))) = (Inr (), w3) \<and> migrated (disk w3)"
proof -
  let ?w = "(start_world empty_database)\<lparr> env := quiet_env\<lparr> sql_fault := (\<lambda>n. n = 20) \<rparr> \<rparr>"
  have "resumable (disk ?w)" by (simp add: resumable_def empty_database_def)
  from interrupted_migration_completes [of ?w "start_world (disk (snd (migrate ?w)))", OF _ this]
  show ?thesis by (auto simp: no_faults_def Let_def)
qed

text \<open>
  Opening a database that is up to date changes neither the database nor a file, and either
  succeeds or raises a database error.
\<close>

theorem reopen_changes_nothing:
  assumes "migrated (disk w)" and "tx w = None"
  shows "disk (snd (db_open w)) = disk w \<and> tx (snd (db_open w)) = None \<and> files (snd (db_open w)) = files w
    \<and> (fst (db_open w) = Inr () \<or> fst (db_open w) = Inl SqliteError)"
  using db_open_migrated [OF assms] by blast

theorem reopen_changes_nothing_witness:
  "disk (snd (db_open (start_world (ready empty_database)))) = ready empty_database"
  using reopen_changes_nothing [of "start_world (ready empty_database)"] by simp

definition before_10 :: database where
  "before_10 = empty_database\<lparr> db_schema := [(''managed_nodes'', [''node_id'']), (''ibgp_peers'', [''id''])],
     schema_migrations := [1, 8, 9] \<rparr>"

text \<open>
  A callable step is not one transaction with the record of its version: when the
  \<open>INSERT\<close> after the four \<open>ALTER TABLE\<close> of version 10 fails, the columns are durable and the
  version is not recorded (the module opens no transaction for a schema statement).
\<close>

theorem callable_step_not_atomic:
  "let w = (start_world before_10)\<lparr> env := quiet_env\<lparr> sql_fault := (\<lambda>n. n = 9) \<rparr> \<rparr>;
       (r, w') = apply_version [1, 8, 9] (10, Callable migration_10) w
   in r = Inl (DatabaseError ''Migration failed'') \<and> 10 \<notin> set (schema_migrations (disk w'))
     \<and> ''router_id'' \<in> set (table_columns (disk w') ''managed_nodes'')
     \<and> ''remote_node_id'' \<in> set (table_columns (disk w') ''ibgp_peers'')"
  by (simp add: before_10_def empty_database_def apply_version_def migration_10_def ensure_column_def table_columns_def
      add_column_def has_table_def default_column_def create_index_def record_version_def with_tx_def op_defs
      sql_query_def sql_ddl_def sql_dml_def rollback_def commit_def view_def next_tick_def start_world_def)

end
