(* ===== verification/Ipaddr.thy ===== *)
theory Ipaddr
  imports Prelude
begin

text \<open>
  What the program uses of Python's \<open>ipaddress\<close> and \<open>base64\<close> modules (CPython 3.11):
  \<open>IPv4Address\<close>, \<open>IPv6Address\<close>, \<open>IPv6Interface\<close>, \<open>IPv6Network(strict=False)\<close> with its
  \<open>str\<close>, \<open>ip_address\<close>, and \<open>b64decode(validate=True)\<close>. A constructor that raises is
  \<open>None\<close>. An IPv6 address is its eight hextets together with its scope id.
\<close>

section \<open>IPv4\<close>

definition parse_octet :: "string \<Rightarrow> nat option" where
  "parse_octet s = (if s = [] \<or> \<not> list_all is_digit s \<or> length s > 3
       \<or> (s \<noteq> ''0'' \<and> hd s = CHR ''0'') \<or> parse_nat s > 255
     then None else Some (parse_nat s))"

definition all_some :: "'a option list \<Rightarrow> 'a list option" where
  "all_some xs = (if None \<in> set xs then None else Some (map the xs))"

definition ipv4_address :: "string \<Rightarrow> nat list option" where
  "ipv4_address s = (if CHR ''/'' \<in> set s then None
     else let octets = split_on CHR ''.'' s
       in if length octets \<noteq> 4 then None else all_some (map parse_octet octets))"

section \<open>IPv6\<close>

definition hex_val :: "char \<Rightarrow> nat option" where
  "hex_val c = (let n = code_point c in
     if 48 \<le> n \<and> n \<le> 57 then Some (n - 48)
     else if 65 \<le> n \<and> n \<le> 70 then Some (n - 55)
     else if 97 \<le> n \<and> n \<le> 102 then Some (n - 87)
     else None)"

text \<open>\<open>int('', 16)\<close> raises, so an empty hextet is refused as well.\<close>

definition parse_hextet :: "string \<Rightarrow> nat option" where
  "parse_hextet s = (if s = [] \<or> length s > 4 then None
     else map_option (foldl (\<lambda>n d. 16 * n + d) 0) (all_some (map hex_val s)))"

datatype hextet = Part string | Value nat

fun hextet_value :: "hextet \<Rightarrow> nat option" where
  "hextet_value (Part s) = parse_hextet s"
| "hextet_value (Value n) = Some n"

definition empty_part :: "hextet \<Rightarrow> bool" where
  "empty_part h = (h = Part [])"

text \<open>An IPv4-style suffix is two hextets.\<close>

definition ipv6_parts :: "string \<Rightarrow> hextet list option" where
  "ipv6_parts s = (let parts = split_on CHR '':'' s in
     if length parts < 3 then None
     else if CHR ''.'' \<in> set (last parts) then
       (case ipv4_address (last parts) of
          Some [a, b, c, d] \<Rightarrow>
            Some (map Part (butlast parts) @ [Value (256 * a + b), Value (256 * c + d)])
        | _ \<Rightarrow> None)
     else Some (map Part parts))"

definition skip_indices :: "hextet list \<Rightarrow> nat list" where
  "skip_indices parts = filter (\<lambda>i. empty_part (parts ! i)) [1..<length parts - 1]"

definition ipv6_hextets :: "string \<Rightarrow> nat list option" where
  "ipv6_hextets s = (case ipv6_parts s of None \<Rightarrow> None | Some parts \<Rightarrow>
     if length parts > 9 then None
     else (case skip_indices parts of
       [] \<Rightarrow> if length parts \<noteq> 8 then None else all_some (map hextet_value parts)
     | [k] \<Rightarrow>
         (let lead = empty_part (hd parts); trail = empty_part (last parts);
              hi = (if lead then k - 1 else k);
              lo = (if trail then length parts - k - 2 else length parts - k - 1)
          in if (lead \<and> hi \<noteq> 0) \<or> (trail \<and> lo \<noteq> 0) \<or> hi + lo > 7 then None
             else (case (all_some (map hextet_value (take hi parts)),
                         all_some (map hextet_value (drop (length parts - lo) parts))) of
                 (Some hs, Some ls) \<Rightarrow> Some (hs @ replicate (8 - (hi + lo)) 0 @ ls)
               | _ \<Rightarrow> None))
     | _ \<Rightarrow> None))"

text \<open>The scope id after \<open>%\<close> is any non-empty text without another \<open>%\<close>.\<close>

definition split_scope_id :: "string \<Rightarrow> (string \<times> string option) option" where
  "split_scope_id s = (case partition_at CHR ''%'' s of
     (addr, False, _) \<Rightarrow> Some (addr, None)
   | (addr, True, scope) \<Rightarrow>
       if scope = [] \<or> CHR ''%'' \<in> set scope then None else Some (addr, Some scope))"

type_synonym ipv6 = "nat list \<times> string option"

definition ipv6_address :: "string \<Rightarrow> ipv6 option" where
  "ipv6_address s = (if CHR ''/'' \<in> set s then None
     else case split_scope_id s of None \<Rightarrow> None
     | Some (addr, scope) \<Rightarrow> map_option (\<lambda>h. (h, scope)) (ipv6_hextets addr))"

definition prefix_from_string :: "string \<Rightarrow> nat option" where
  "prefix_from_string s = (if s = [] \<or> \<not> list_all is_digit s \<or> parse_nat s > 128
     then None else Some (parse_nat s))"

definition split_addr_prefix :: "string \<Rightarrow> (string \<times> string option) option" where
  "split_addr_prefix s = (case split_on CHR ''/'' s of
     [addr] \<Rightarrow> Some (addr, None) | [addr, pfx] \<Rightarrow> Some (addr, Some pfx) | _ \<Rightarrow> None)"

definition mask_hextet :: "nat \<Rightarrow> nat \<Rightarrow> nat \<Rightarrow> nat" where
  "mask_hextet p i h = (let k = 2 ^ (16 - min 16 (p - 16 * i)) in h div k * k)"

definition mask_hextets :: "nat \<Rightarrow> nat list \<Rightarrow> nat list" where
  "mask_hextets p hs = map (\<lambda>i. mask_hextet p i (hs ! i)) [0..<length hs]"

text \<open>\<open>IPv6Network(s, strict=False)\<close>: clearing host bits drops the scope id.\<close>

definition ipv6_network :: "string \<Rightarrow> (ipv6 \<times> nat) option" where
  "ipv6_network s = (case split_addr_prefix s of None \<Rightarrow> None
   | Some (addr, pfx) \<Rightarrow>
       (case (ipv6_address addr, case pfx of None \<Rightarrow> Some 128 | Some m \<Rightarrow> prefix_from_string m) of
          (Some (hs, scope), Some p) \<Rightarrow>
            let ms = mask_hextets p hs
            in Some (if ms = hs then (hs, scope) else (ms, None), p)
        | _ \<Rightarrow> None))"

text \<open>\<open>IPv6Interface(s)\<close> parses the address and the network of the same text.\<close>

definition ipv6_interface :: "string \<Rightarrow> (ipv6 \<times> nat) option" where
  "ipv6_interface s = ipv6_network s"

datatype ip_kind = IPv4 | IPv6

definition ip_address :: "string \<Rightarrow> ip_kind option" where
  "ip_address s = (if ipv4_address s \<noteq> None then Some IPv4
     else if ipv6_address s \<noteq> None then Some IPv6 else None)"

section \<open>Printing an IPv6 network\<close>

definition hex_char :: "nat \<Rightarrow> char" where
  "hex_char n = (if n < 10 then char_of (48 + n) else char_of (87 + n))"

fun show_hex :: "nat \<Rightarrow> string" where
  "show_hex n = (if n < 16 then [hex_char n] else show_hex (n div 16) @ [hex_char (n mod 16)])"

declare show_hex.simps [simp del]

text \<open>The first longest run of zero hextets, as start and length.\<close>

fun zero_run :: "nat list \<Rightarrow> nat" where
  "zero_run (0 # hs) = Suc (zero_run hs)"
| "zero_run _ = 0"

fun best_run :: "nat \<Rightarrow> nat list \<Rightarrow> nat \<times> nat \<Rightarrow> nat \<times> nat" where
  "best_run i [] best = best"
| "best_run i (h # hs) best =
     best_run (Suc i) hs (if zero_run (h # hs) > snd best then (i, zero_run (h # hs)) else best)"

fun join_with :: "string \<Rightarrow> string list \<Rightarrow> string" where
  "join_with sep [] = []"
| "join_with sep [x] = x"
| "join_with sep (x # xs) = x @ sep @ join_with sep xs"

definition show_ipv6 :: "nat list \<Rightarrow> string" where
  "show_ipv6 hs = (case best_run 0 hs (0, 0) of (i, n) \<Rightarrow>
     if n > 1 then join_with '':'' (map show_hex (take i hs)) @ ''::''
       @ join_with '':'' (map show_hex (drop (i + n) hs))
     else join_with '':'' (map show_hex hs))"

definition show_ipv6_network :: "ipv6 \<times> nat \<Rightarrow> string" where
  "show_ipv6_network n = (case n of ((hs, scope), p) \<Rightarrow>
     show_ipv6 hs @ (case scope of None \<Rightarrow> [] | Some z \<Rightarrow> CHR ''%'' # z) @ ''/'' @ show_nat p)"

section \<open>Base64\<close>

definition b64_val :: "char \<Rightarrow> nat option" where
  "b64_val c = (let n = code_point c in
     if 65 \<le> n \<and> n \<le> 90 then Some (n - 65)
     else if 97 \<le> n \<and> n \<le> 122 then Some (n - 71)
     else if 48 \<le> n \<and> n \<le> 57 then Some (n + 4)
     else if n = 43 then Some 62
     else if n = 47 then Some 63
     else None)"

text \<open>
  Groups of four characters. A group may end in one or two \<open>=\<close> if nothing follows it;
  after complete groups, CPython also ignores any number of \<open>=\<close>, but not in front of
  everything else.
\<close>

definition all_pad :: "string \<Rightarrow> bool" where
  "all_pad s = list_all (\<lambda>c. c = CHR ''='') s"

fun b64_groups :: "string \<Rightarrow> nat list option" where
  "b64_groups (a # b # c # d # s) =
     (if a = CHR ''='' then (if all_pad (b # c # d # s) then Some [] else None)
      else case (b64_val a, b64_val b) of
        (Some x, Some y) \<Rightarrow>
          (if c = CHR ''='' then
             (if d = CHR ''='' \<and> s = [] then Some [4 * x + y div 16] else None)
           else (case b64_val c of None \<Rightarrow> None | Some z \<Rightarrow>
             (if d = CHR ''='' then
                (if s = [] then Some [4 * x + y div 16, 16 * (y mod 16) + z div 4] else None)
              else (case b64_val d of None \<Rightarrow> None | Some w \<Rightarrow>
                 map_option (\<lambda>bs. [4 * x + y div 16, 16 * (y mod 16) + z div 4, 64 * (z mod 4) + w] @ bs)
                   (b64_groups s)))))
      | _ \<Rightarrow> None)"
| "b64_groups s = (if all_pad s then Some [] else None)"

definition b64decode :: "string \<Rightarrow> nat list option" where
  "b64decode s = (if startswith s ''='' then None else b64_groups s)"

section \<open>Lemmas\<close>

lemma all_some_length: "all_some xs = Some ys \<Longrightarrow> length ys = length xs"
  by (auto simp: all_some_def split: if_splits)

lemma split_on_nonempty [simp]: "split_on c s \<noteq> []"
  by (induction s) (auto split: list.splits)

lemma split_on_join: "join_with [c] (split_on c s) = s"
proof (induction s)
  case Nil
  then show ?case by simp
next
  case (Cons x s)
  then obtain y ys where s: "split_on c s = y # ys"
    by (cases "split_on c s") auto
  with Cons show ?case by (cases ys) auto
qed

lemma split_on_no_sep: "c \<notin> set s \<Longrightarrow> split_on c s = [s]"
  by (induction s) auto

lemma length_split_on: "length (split_on c s) = Suc (length (filter (\<lambda>x. x = c) s))"
  by (induction s) (auto split: list.splits)

text \<open>Colons tell the two address families apart.\<close>

lemma set_split_on: "(\<Union>p \<in> set (split_on c s). set p) = set s - {c}"
proof (induction s)
  case (Cons x s)
  then obtain y ys where s: "split_on c s = y # ys"
    by (cases "split_on c s") auto
  with Cons have "set y \<union> (\<Union>p \<in> set ys. set p) = set s - {c}" by simp
  with s show ?case by auto
qed simp

lemma parse_octet_digits: "parse_octet s = Some n \<Longrightarrow> list_all is_digit s"
  by (auto simp: parse_octet_def split: if_splits)

lemma ipv4_address_chars:
  assumes "ipv4_address s = Some os" and "c \<in> set s"
  shows "is_digit c \<or> c = CHR ''.''"
proof (cases "c = CHR ''.''")
  case False
  with assms(2) have "c \<in> (\<Union>p \<in> set (split_on CHR ''.'' s). set p)" by (simp add: set_split_on)
  then obtain p where p: "p \<in> set (split_on CHR ''.'' s)" and c: "c \<in> set p" by blast
  from assms(1) have "None \<notin> parse_octet ` set (split_on CHR ''.'' s)"
    by (auto simp: ipv4_address_def all_some_def Let_def split: if_splits)
  with p obtain n where "parse_octet p = Some n" by (metis image_eqI not_None_eq)
  from parse_octet_digits [OF this] c show ?thesis by (auto simp: list_all_iff)
qed simp

lemma ipv4_no_colon: "ipv4_address s = Some os \<Longrightarrow> CHR '':'' \<notin> set s"
  using ipv4_address_chars [of s os "CHR '':''"] by (auto simp: is_digit_def code_point_def)

lemma partition_at_split:
  "partition_at c s = (h, b, t) \<Longrightarrow> (b \<longrightarrow> s = h @ c # t) \<and> (\<not> b \<longrightarrow> h = s)"
proof -
  let ?h = "takeWhile (\<lambda>x. x \<noteq> c) s"
  assume a: "partition_at c s = (h, b, t)"
  have "?h \<noteq> s \<Longrightarrow> s = ?h @ c # drop (Suc (length ?h)) s"
  proof -
    assume "?h \<noteq> s"
    then have "length ?h < length s"
      by (metis length_takeWhile_le nat_less_le takeWhile_eq_take take_all order_refl)
    then have "s = ?h @ s ! length ?h # drop (Suc (length ?h)) s"
      by (metis id_take_nth_drop takeWhile_eq_take)
    moreover from \<open>length ?h < length s\<close> have "s ! length ?h = c"
      using nth_length_takeWhile by blast
    ultimately show ?thesis by simp
  qed
  with a show ?thesis by (auto simp: partition_at_def Let_def split: if_splits)
qed

lemma ipv6_address_colon:
  assumes "ipv6_address s \<noteq> None"
  shows "CHR '':'' \<in> set s"
proof -
  from assms obtain addr scope h where sc: "split_scope_id s = Some (addr, scope)"
    and h: "ipv6_hextets addr = Some h"
    by (auto simp: ipv6_address_def split: if_splits option.splits)
  from h have "ipv6_parts addr \<noteq> None"
    by (auto simp: ipv6_hextets_def split: option.splits)
  then have "3 \<le> length (split_on CHR '':'' addr)"
    by (auto simp: ipv6_parts_def Let_def not_less split: if_splits)
  then have "filter (\<lambda>x. x = CHR '':'') addr \<noteq> []" by (auto simp: length_split_on)
  then have "CHR '':'' \<in> set addr" by (auto simp: filter_empty_conv)
  moreover from sc have "set addr \<subseteq> set s"
    by (auto simp: split_scope_id_def split: prod.splits bool.splits if_splits
        dest!: partition_at_split)
  ultimately show ?thesis by blast
qed

end
