(* ===== verification/Render.thy ===== *)
theory Render
  imports Schema Ipaddr
begin

text \<open>
  The rendered files: the functions of \<open>dn42ctl/render.py\<close> with the templates of
  \<open>dn42ctl/templates\<close>, the permissions of \<open>file_policy.py\<close> with \<open>fs.py\<close>, and the file
  operations of \<open>services/core.py\<close>.
\<close>

section \<open>Configuration\<close>

record AppConfig =
  ac_node_id :: string
  ac_own_asn :: int
  ac_router_id :: string
  ac_own_ipv6 :: string
  ac_ownnet_v6 :: string
  ac_ownnetset_v6 :: string
  ac_bird_conf_path :: string
  ac_bird_peers_dir :: string
  ac_bird_babel_conf_path :: string
  ac_bird_roa_v6_conf_path :: string
  ac_bird_extra_conf_path :: string
  ac_networkd_dir :: string
  ac_nm_system_connections_dir :: string
  ac_dummy_backend :: string

text \<open>\<open>Path(d) / f\<close> for a directory without a trailing slash.\<close>

definition path_join :: "string \<Rightarrow> string \<Rightarrow> string" where
  "path_join d f = d @ ''/'' @ f"

section \<open>Templates\<close>

definition line :: "string \<Rightarrow> string" where
  "line s = s @ [CHR 0x0A]"

text \<open>\<open>bird_bgp_peer.conf.j2\<close>\<close>

definition render_bird_bgp_peer_conf :: "string \<Rightarrow> string \<Rightarrow> int \<Rightarrow> string result" where
  "render_bird_bgp_peer_conf ifname peer_lla peer_asn =
     (if peer_lla = [] then Inl (ValueError ''peer_lla must not be empty'')
      else Inr (concat (map line
        [''protocol bgp '' @ ifname @ '' from dnpeers {'',
         ''    bfd graceful;'',
         ''    bfd {'',
         ''        interval 10s;'',
         ''    };'',
         ''    neighbor '' @ peer_lla @ ''%'' @ ifname @ '' as '' @ show_int peer_asn @ '';'',
         ''}''])))"

text \<open>\<open>bird_ibgp_peer.conf.j2\<close>\<close>

definition render_bird_ibgp_peer_conf :: "string \<Rightarrow> string \<Rightarrow> string \<Rightarrow> string result" where
  "render_bird_ibgp_peer_conf name ifname peer_ip =
     (if peer_ip = [] then Inl (ValueError ''peer_ip must not be empty'')
      else Inr (concat (map line
        [''protocol bgp ibgp_'' @ name @ '' from ibgp_template {'',
         ''    neighbor '' @ peer_ip @ '' as OWNAS;'',
         ''};''])))"

text \<open>\<open>babel.conf.j2\<close>; the loop body starts with the line break after its tag.\<close>

definition babel_interface :: "string \<times> int \<times> string \<Rightarrow> string" where
  "babel_interface x = (case x of (ifname, rxcost, btype) \<Rightarrow> concat (map line
     [[], ''    interface '' @ [CHR 0x22] @ ifname @ [CHR 0x22] @ '' {'',
      ''        type '' @ btype @ '';'',
      ''        rxcost '' @ show_int rxcost @ '';'',
      ''        rtt cost 192;'',
      ''        rtt max 394ms; # 4*96+10ms'',
      ''        rtt decay 64;'',
      ''    };'']))"

definition render_babel_conf :: "(string \<times> int \<times> string) list \<Rightarrow> string" where
  "render_babel_conf interfaces =
     concat (map line
       [''protocol direct {'', ''    ipv4;'', ''    ipv6;'',
        ''    interface '' @ [CHR 0x22] @ ''dn42-dummy'' @ [CHR 0x22] @ '';'', ''};'', [],
        ''protocol babel intra_babel {'', ''    ipv6 {'',
        ''        import where source != RTS_BGP && is_self_net_v6();'',
        ''        export where source != RTS_BGP && is_self_net_v6();'', ''    };''])
     @ concat (map babel_interface interfaces) @ line [] @ line ''};''"

text \<open>\<open>networkd_netdev.j2\<close>\<close>

definition render_networkd_netdev ::
  "string \<Rightarrow> string \<Rightarrow> int \<Rightarrow> string \<Rightarrow> string \<Rightarrow> string list \<Rightarrow> string" where
  "render_networkd_netdev ifname private_key listen_port peer_public_key endpoint allowed_ips =
     concat (map line ([''[NetDev]'', ''Name='' @ ifname, ''Kind=wireguard'', [], ''[WireGuard]'', ''PrivateKey='' @ private_key]
       @ (if listen_port > 0 then [''ListenPort='' @ show_int listen_port] else [])
       @ [''RouteTable=off'', [], ''[WireGuardPeer]'', ''PublicKey='' @ peer_public_key]
       @ (if endpoint \<noteq> [] then [''Endpoint='' @ endpoint] else [])
       @ map (\<lambda>cidr. ''AllowedIPs='' @ cidr) allowed_ips))"

text \<open>\<open>networkd_network.j2\<close>\<close>

definition render_networkd_network :: "string \<Rightarrow> string \<Rightarrow> string \<Rightarrow> string" where
  "render_networkd_network ifname local_lla peer_lla = concat (map line
     [''[Match]'', ''Name='' @ ifname, [], ''[Network]'', ''DHCP=no'', ''IPv6AcceptRA=false'', ''IPForward=yes'',
      ''IPv4ReversePathFilter=no'', [], ''KeepConfiguration=yes'', [], ''[Address]'',
      ''Address='' @ local_lla @ ''/128'', ''Peer='' @ peer_lla])"

section \<open>Permissions\<close>

record FilePolicy =
  fp_mode :: nat
  fp_group :: "string option"

definition NETDEV :: FilePolicy where "NETDEV = \<lparr> fp_mode = 6 * 64 + 4 * 8, fp_group = Some ''systemd-network'' \<rparr>"
definition NETWORK :: FilePolicy where "NETWORK = \<lparr> fp_mode = 6 * 64 + 4 * 8 + 4, fp_group = None \<rparr>"
definition BIRD :: FilePolicy where "BIRD = \<lparr> fp_mode = 6 * 64 + 4 * 8 + 4, fp_group = None \<rparr>"
definition PRIVATE :: FilePolicy where "PRIVATE = \<lparr> fp_mode = 6 * 64, fp_group = None \<rparr>"

text \<open>A file operation fails with \<open>OSError\<close> when the environment says so.\<close>

definition io_step :: "(world \<Rightarrow> world) \<Rightarrow> unit wop" where
  "io_step f = (\<lambda>w. if io_fault (env w) (tick w) then (Inl (OSError ''io''), next_tick w)
     else (Inr (), f (next_tick w)))"

definition ignore_os_error :: "unit wop \<Rightarrow> unit wop" where
  "ignore_os_error m = try_except m (\<lambda>e. case e of OSError _ \<Rightarrow> ret () | _ \<Rightarrow> raise e)"

definition update_file :: "string \<Rightarrow> (fs_file \<Rightarrow> fs_file) \<Rightarrow> world \<Rightarrow> world" where
  "update_file path f w = (case files w path of None \<Rightarrow> w | Some x \<Rightarrow> w\<lparr> files := (files w)(path := Some (f x)) \<rparr>)"

definition chmod_best_effort :: "string \<Rightarrow> nat \<Rightarrow> unit wop" where
  "chmod_best_effort path mode = ignore_os_error (io_step (update_file path (\<lambda>f. f\<lparr> f_mode := mode \<rparr>)))"

definition chown_best_effort :: "string \<Rightarrow> string \<Rightarrow> unit wop" where
  "chown_best_effort path grp = ignore_os_error (io_step (update_file path (\<lambda>f. f\<lparr> f_group := Some grp \<rparr>)))"

definition apply_policy :: "string \<Rightarrow> FilePolicy \<Rightarrow> unit wop" where
  "apply_policy path policy = bnd (chmod_best_effort path (fp_mode policy)) (\<lambda>_.
     case fp_group policy of None \<Rightarrow> ret () | Some g \<Rightarrow> chown_best_effort path g)"

section \<open>Writing and deleting files\<close>

text \<open>
  Opening a file for writing truncates it; an existing file keeps its permissions, a new one gets
  the default. A write that raises leaves a prefix of the text, as long as the environment says.
\<close>

definition DEFAULT_MODE :: nat where "DEFAULT_MODE = 6 * 64 + 4 * 8 + 4"

definition put_content :: "string \<Rightarrow> string \<Rightarrow> world \<Rightarrow> world" where
  "put_content path content w = w\<lparr> files := (files w)(path := Some (case files w path of
       None \<Rightarrow> \<lparr> f_content = content, f_mode = DEFAULT_MODE, f_group = None \<rparr>
     | Some f \<Rightarrow> f\<lparr> f_content := content \<rparr>)) \<rparr>"

definition put_text :: "string \<Rightarrow> string \<Rightarrow> unit wop" where
  "put_text path content = (\<lambda>w.
     if io_fault (env w) (tick w) then (Inl (OSError ''io''), put_content path (take (io_partial (env w) (tick w)) content) (next_tick w))
     else (Inr (), put_content path content (next_tick w)))"

definition write_file :: "string \<Rightarrow> string \<Rightarrow> unit wop" where
  "write_file path content = bnd (io_step (put_content path [])) (\<lambda>_. put_text path content)"

definition mkdir_parent :: "string \<Rightarrow> unit wop" where
  "mkdir_parent path = io_step (\<lambda>w. w)"

definition write_text :: "string \<Rightarrow> string \<Rightarrow> FilePolicy option \<Rightarrow> unit wop" where
  "write_text path content policy =
     bnd (try_except (bnd (mkdir_parent path) (\<lambda>_. write_file path content))
            (\<lambda>e. case e of OSError _ \<Rightarrow> raise (Dn42CtlError ''write failed'') | _ \<Rightarrow> raise e)) (\<lambda>_.
     case policy of None \<Rightarrow> ret () | Some p \<Rightarrow> apply_policy path p)"

text \<open>\<open>p.exists()\<close> that raises counts as absent; a failing \<open>unlink\<close> is reported, not raised.\<close>

definition path_exists :: "string \<Rightarrow> bool wop" where
  "path_exists p = (\<lambda>w. (Inr (\<not> io_fault (env w) (tick w) \<and> files w p \<noteq> None), next_tick w))"

definition unlink :: "string \<Rightarrow> unit wop" where
  "unlink p = io_step (\<lambda>w. w\<lparr> files := (files w)(p := None) \<rparr>)"

fun delete_files_and_collect_status :: "string list \<Rightarrow> (string list \<times> string list \<times> string list) wop" where
  "delete_files_and_collect_status [] = ret ([], [], [])"
| "delete_files_and_collect_status (p # ps) = bnd (path_exists p) (\<lambda>existed.
     bnd (try_except (bnd (unlink p) (\<lambda>_. ret True)) (\<lambda>e. case e of OSError _ \<Rightarrow> ret False | _ \<Rightarrow> raise e)) (\<lambda>ok.
     bnd (delete_files_and_collect_status ps) (\<lambda>r. case r of (deleted, missing, failed) \<Rightarrow>
       ret (if \<not> ok then (deleted, missing, p # failed)
            else if existed then (p # deleted, missing, failed)
            else (deleted, p # missing, failed)))))"

section \<open>Lemmas\<close>

text \<open>File operations do not touch the database.\<close>

named_theorems fileop \<open>operations that leave the database and the transaction alone\<close>

lemma read_only_io [fileop]: "(\<And>w. disk (f w) = disk w) \<Longrightarrow> (\<And>w. tx (f w) = tx w) \<Longrightarrow> read_only (io_step f)"
  by (simp add: read_only_def io_step_def)

lemma update_file_db [simp]: "disk (update_file p f w) = disk w" "tx (update_file p f w) = tx w"
  "env (update_file p f w) = env w"
  by (simp_all add: update_file_def split: option.splits)

lemma put_content_db [simp]: "disk (put_content p c w) = disk w" "tx (put_content p c w) = tx w"
  "env (put_content p c w) = env w"
  by (simp_all add: put_content_def)

lemma read_only_try [fileop]:
  assumes "read_only m" and "\<And>e. read_only (h e)"
  shows "read_only (try_except m h)"
  unfolding read_only_def
proof
  fix w
  obtain r w' where m: "m w = (r, w')" by (cases "m w")
  from read_onlyD [OF assms(1) m] show "disk (snd (try_except m h w)) = disk w \<and> tx (snd (try_except m h w)) = tx w"
    using assms(2) by (cases r) (simp_all add: try_except_def m read_only_def)
qed

lemma read_only_case_exn [fileop]:
  "read_only (case e of OSError x \<Rightarrow> m | _ \<Rightarrow> raise e)" if "read_only m"
  using that by (cases e) (auto intro: atomic)

lemma read_only_files [fileop]:
  "read_only (chmod_best_effort p m)" "read_only (chown_best_effort p g)" "read_only (apply_policy p pol)"
  "read_only (put_text p c)" "read_only (write_file p c)" "read_only (mkdir_parent p)"
  "read_only (write_text p c pol')" "read_only (path_exists p)" "read_only (unlink p)"
proof -
  show t: "read_only (put_text p c)" for p c by (simp add: read_only_def put_text_def)
  show f: "read_only (write_file p c)" for p c unfolding write_file_def by (auto intro!: fileop atomic t)
  show d: "read_only (mkdir_parent p)" for p unfolding mkdir_parent_def by (auto intro!: fileop)
  show c: "read_only (chmod_best_effort p m)" for p m
    unfolding chmod_best_effort_def ignore_os_error_def by (auto intro!: fileop atomic)
  show g: "read_only (chown_best_effort p g)" for p g
    unfolding chown_best_effort_def ignore_os_error_def by (auto intro!: fileop atomic)
  show a: "read_only (apply_policy p pol)" for p pol
    unfolding apply_policy_def by (auto intro!: atomic c g split: option.splits)
  show "read_only (write_text p c pol')" for p c pol'
    unfolding write_text_def by (auto intro!: fileop atomic a f d split: option.splits)
  show "read_only (path_exists p)" by (simp add: read_only_def path_exists_def)
  show "read_only (unlink p)" unfolding unlink_def by (auto intro!: fileop)
qed

lemma read_only_delete_files [fileop]: "read_only (delete_files_and_collect_status ps)"
  by (induction ps) (auto intro!: fileop atomic split: prod.splits)

end
