(* ===== verification/Validators.thy ===== *)
theory Validators
  imports Ipaddr Json
begin

text \<open>
  \<open>dn42ctl/validators.py\<close> and the constants of \<open>dn42ctl/constants.py\<close> it uses: the checks
  every address, port, key and endpoint passes before it reaches the database or a
  rendered configuration file. A validator returns its normalised argument or raises
  \<open>ValidationError\<close>.
\<close>

section \<open>Constants\<close>

definition MAX_PORT :: int where "MAX_PORT = 65535"
definition MAX_ASN :: int where "MAX_ASN = 4294967295"
definition WG_KEY_BYTES :: nat where "WG_KEY_BYTES = 32"

definition BABEL_VALID_TYPES :: "string list" where
  "BABEL_VALID_TYPES = [''wired'', ''wireless'', ''tunnel'']"

definition MAX_PORT_DIGITS :: nat where
  "MAX_PORT_DIGITS = length (show_int MAX_PORT)"

section \<open>Numbers\<close>

definition validate_listen_port :: "bool \<Rightarrow> int \<Rightarrow> int result" where
  "validate_listen_port allow_zero v = (let lo = (if allow_zero then 0 else 1) in
     if v < lo \<or> v > MAX_PORT then Inl (ValidationError ''ListenPort out of range'') else Inr v)"

definition validate_rxcost :: "int \<Rightarrow> int result" where
  "validate_rxcost v =
     (if v < 0 \<or> v > MAX_PORT then Inl (ValidationError ''rxcost out of range'') else Inr v)"

definition validate_asn :: "int \<Rightarrow> int result" where
  "validate_asn v =
     (if v \<le> 0 then Inl (ValidationError ''ASN must be positive'')
      else if v > MAX_ASN then Inl (ValidationError ''ASN exceeds 32 bits'')
      else Inr v)"

section \<open>Keys and endpoints\<close>

definition validate_pubkey :: "string \<Rightarrow> string result" where
  "validate_pubkey value = (let v = strip value in
     if v = [] then Inl (ValidationError ''empty public key'')
     else case b64decode v of
       None \<Rightarrow> Inl (ValidationError ''public key is not base64'')
     | Some raw \<Rightarrow>
         if length raw \<noteq> WG_KEY_BYTES then Inl (ValidationError ''public key length'') else Inr v)"

text \<open>
  \<open>_ENDPOINT_RE = ^(\[.+\]|[^:]+):(\d+)$\<close>. The digits hold no colon, so the second group is
  what follows the last colon; \<open>.\<close> does not match a newline. Both alternatives of the
  first group are the same text when both match.
\<close>

definition endpoint_host_ok :: "string \<Rightarrow> bool" where
  "endpoint_host_ok h =
     ((3 \<le> length h \<and> hd h = CHR ''['' \<and> last h = CHR '']''
         \<and> CHR 0x0A \<notin> set (butlast (tl h)))
      \<or> (h \<noteq> [] \<and> CHR '':'' \<notin> set h))"

definition endpoint_match :: "string \<Rightarrow> (string \<times> string) option" where
  "endpoint_match v = (case rpartition_at CHR '':'' v of
     (h, found, d) \<Rightarrow>
       if found \<and> endpoint_host_ok h \<and> d \<noteq> [] \<and> list_all is_digit d then Some (h, d) else None)"

definition validate_endpoint :: "bool \<Rightarrow> string \<Rightarrow> string result" where
  "validate_endpoint allow_empty value = (let v = strip value in
     if v = [] then (if allow_empty then Inr v else Inl (ValidationError ''empty endpoint''))
     else case endpoint_match v of
       None \<Rightarrow> Inl (ValidationError ''endpoint format'')
     | Some (h, digits) \<Rightarrow>
         if length digits > MAX_PORT_DIGITS then Inl (ValidationError ''endpoint port out of range'')
         else if \<not> (1 \<le> int (parse_nat digits) \<and> int (parse_nat digits) \<le> MAX_PORT)
           then Inl (ValidationError ''endpoint port out of range'')
         else Inr v)"

definition unbracket :: "string \<Rightarrow> string" where
  "unbracket h = (if startswith h ''['' \<and> endswith h '']'' then butlast (tl h) else h)"

definition split_endpoint :: "string \<Rightarrow> (string \<times> nat) result" where
  "split_endpoint value = bindR (validate_endpoint False value) (\<lambda>v.
     case endpoint_match v of
       None \<Rightarrow> Inl (ValidationError ''endpoint format'')
     | Some (h, digits) \<Rightarrow> Inr (unbracket h, parse_nat digits))"

definition format_endpoint :: "string \<Rightarrow> nat \<Rightarrow> string" where
  "format_endpoint host port = (let h = unbracket (strip host) in
     if ip_address h = Some IPv6 then ''['' @ h @ '']:'' @ show_nat port
     else h @ '':'' @ show_nat port)"

section \<open>Addresses\<close>

definition validate_ipv6_address :: "string \<Rightarrow> string result" where
  "validate_ipv6_address value = (let v = strip value in
     if v = [] then Inl (ValidationError ''empty IPv6 address'')
     else if (if CHR ''/'' \<in> set v then ipv6_interface v = None else ipv6_address v = None)
       then Inl (ValidationError ''not an IPv6 address'')
     else Inr v)"

definition validate_ipv4_address :: "string \<Rightarrow> string result" where
  "validate_ipv4_address value = (let v = strip value in
     if v = [] then Inl (ValidationError ''empty IPv4 address'')
     else if ipv4_address v = None then Inl (ValidationError ''not an IPv4 address'')
     else Inr v)"

definition validate_router_id :: "string \<Rightarrow> string result" where
  "validate_router_id value = validate_ipv4_address value"

definition validate_ipv6_network :: "string \<Rightarrow> string result" where
  "validate_ipv6_network value = (let v = strip value in
     if v = [] then Inl (ValidationError ''empty IPv6 prefix'')
     else if ipv6_network v = None then Inl (ValidationError ''not an IPv6 prefix'')
     else Inr v)"

text \<open>
  \<open>_HOSTNAME_RE\<close>: 1 to 253 characters, dot-separated labels of 1 to 63 letters, digits and
  hyphens that start and end with a letter or digit, and an optional final dot.
\<close>

definition hostname_label :: "string \<Rightarrow> bool" where
  "hostname_label l = (l \<noteq> [] \<and> length l \<le> 63 \<and> is_alnum (hd l) \<and> is_alnum (last l)
     \<and> list_all (\<lambda>c. is_alnum c \<or> c = CHR ''-'') l)"

definition hostname_match :: "string \<Rightarrow> bool" where
  "hostname_match v = (v \<noteq> [] \<and> length v \<le> 253 \<and>
     (let ls = split_on CHR ''.'' v;
          ls' = (if last ls = [] then butlast ls else ls)
      in ls' \<noteq> [] \<and> list_all hostname_label ls'))"

definition validate_endpoint_host :: "string \<Rightarrow> string result" where
  "validate_endpoint_host value = (let v = strip value in
     if v = [] then Inl (ValidationError ''empty endpoint_host'')
     else if startswith v ''['' then Inl (ValidationError ''endpoint_host in brackets'')
     else if ip_address v \<noteq> None then Inr v
     else if CHR '':'' \<in> set v then Inl (ValidationError ''endpoint_host with a port'')
     else if \<not> hostname_match v then Inl (ValidationError ''not a hostname'')
     else Inr v)"

section \<open>Choices and lists\<close>

definition validate_babel_type :: "string \<Rightarrow> string result" where
  "validate_babel_type value = (let v = lower (strip value) in
     if v \<notin> set BABEL_VALID_TYPES then Inl (ValidationError ''babel type'') else Inr v)"

definition validate_net_backend :: "string \<Rightarrow> string result" where
  "validate_net_backend value = (let backend = lower (strip value) in
     if backend = ''networkd'' then Inr ''networkd''
     else if backend = ''nm'' \<or> backend = ''networkmanager'' then Inr ''nm''
     else Inl (ValidationError ''net_backend''))"

definition validate_ownnetset_v6 :: "string \<Rightarrow> string result" where
  "validate_ownnetset_v6 value = (let v = strip value in
     if v = [] then Inl (ValidationError ''empty OWNNETSETv6'')
     else if \<not> (startswith v ''['' \<and> endswith v '']'' \<and> CHR ''+'' \<in> set v)
       then Inl (ValidationError ''OWNNETSETv6 format'')
     else Inr v)"

definition network_str :: "string \<Rightarrow> string result" where
  "network_str item = (case ipv6_network item of
     None \<Rightarrow> Inl (ValidationError ''not an IPv6 CIDR'')
   | Some net \<Rightarrow> Inr (show_ipv6_network net))"

definition validate_allowed_ips :: "string \<Rightarrow> string list result" where
  "validate_allowed_ips value =
     (let items = filter (\<lambda>s. s \<noteq> []) (map strip (split_on CHR '','' value)) in
      if items = [] then Inl (ValidationError ''empty AllowedIPs'') else mapR network_str items)"

definition validate_allowed_ips_list :: "string list \<Rightarrow> string list result" where
  "validate_allowed_ips_list value =
     (if value = [] then Inl (ValidationError ''empty AllowedIPs'')
      else mapR (\<lambda>item. let i = strip item in
        if i = [] then Inl (ValidationError ''empty string in AllowedIPs'') else network_str i) value)"

section \<open>Lemmas\<close>

text \<open>What a validator returns is normalised: it is trimmed, and validating it again gives it back.\<close>

lemma validate_listen_port_ok:
  "validate_listen_port z v = Inr w \<longleftrightarrow> w = v \<and> (if z then 0 else 1) \<le> v \<and> v \<le> MAX_PORT"
  by (auto simp: validate_listen_port_def Let_def)

lemma validate_rxcost_ok: "validate_rxcost v = Inr w \<longleftrightarrow> w = v \<and> 0 \<le> v \<and> v \<le> MAX_PORT"
  by (auto simp: validate_rxcost_def)

lemma validate_asn_ok: "validate_asn v = Inr w \<longleftrightarrow> w = v \<and> 0 < v \<and> v \<le> MAX_ASN"
  by (auto simp: validate_asn_def)

lemma validate_pubkey_ok:
  "validate_pubkey s = Inr k \<Longrightarrow> k = strip s \<and> k \<noteq> [] \<and> (\<exists>raw. b64decode k = Some raw \<and> length raw = 32)"
  by (auto simp: validate_pubkey_def Let_def WG_KEY_BYTES_def split: if_splits option.splits)

lemma validate_ipv6_address_ok:
  "validate_ipv6_address s = Inr v \<Longrightarrow> v = strip s \<and> v \<noteq> [] \<and> validate_ipv6_address v = Inr v"
  by (auto simp: validate_ipv6_address_def Let_def split: if_splits)

lemma validate_endpoint_ok:
  "validate_endpoint a s = Inr v \<Longrightarrow> v = strip s \<and> validate_endpoint a v = Inr v"
  by (auto simp: validate_endpoint_def Let_def split: if_splits option.splits prod.splits)

lemma validate_endpoint_host_ok:
  assumes "validate_endpoint_host s = Inr h"
  shows "h = strip s" and "h \<noteq> []" and "\<not> startswith h ''[''"
    and "CHR '':'' \<in> set h \<Longrightarrow> ip_address h = Some IPv6"
proof -
  show "h = strip s" and "h \<noteq> []" and "\<not> startswith h ''[''"
    using assms by (auto simp: validate_endpoint_host_def Let_def split: if_splits)
  assume "CHR '':'' \<in> set h"
  moreover from this assms have "ip_address h \<noteq> None"
    by (auto simp: validate_endpoint_host_def Let_def split: if_splits)
  ultimately show "ip_address h = Some IPv6"
    by (auto simp: ip_address_def dest: ipv4_no_colon split: if_splits option.splits)
qed

lemma ip_address_IPv6_colon: "ip_address h = Some IPv6 \<Longrightarrow> CHR '':'' \<in> set h"
  by (auto simp: ip_address_def intro: ipv6_address_colon split: if_splits option.splits)

lemma unbracket_bracketed [simp]: "unbracket (CHR ''['' # h @ '']'') = h"
  by (simp add: unbracket_def startswith_def endswith_def)

lemma unbracket_plain: "\<not> startswith h ''['' \<Longrightarrow> unbracket h = h"
  by (simp add: unbracket_def)

lemma digit_not_special:
  "is_digit c \<Longrightarrow> c \<noteq> CHR '':'' \<and> \<not> is_space c"
  by (auto simp: is_digit_def is_space_def code_point_def Let_def)

lemma show_nat_no_colon: "CHR '':'' \<notin> set (show_nat n)"
  using show_nat_digits digit_not_special by blast

lemma port_text:
  assumes "1 \<le> p" and "int p \<le> MAX_PORT"
  shows "length (show_nat p) \<le> MAX_PORT_DIGITS"
proof -
  have "MAX_PORT_DIGITS = 5"
    by (simp add: MAX_PORT_DIGITS_def MAX_PORT_def show_int_def show_nat.simps)
  moreover from assms have "p < 10 ^ 5" by (simp add: MAX_PORT_def)
  ultimately show ?thesis using length_show_nat [of p 5] by simp
qed

lemma endpoint_text_trimmed:
  assumes "h \<noteq> []" and "\<not> is_space (hd h)"
  shows "strip (h @ '':'' @ show_nat p) = h @ '':'' @ show_nat p"
proof (rule strip_trimmed)
  have "\<not> is_space (last (h @ '':'' @ show_nat p))"
    using show_nat_digits [of p] show_nat_nonempty [of p] digit_not_special by auto
  with assms show "\<not> is_space (hd (h @ '':'' @ show_nat p)) \<and> \<not> is_space (last (h @ '':'' @ show_nat p))" by simp
qed

lemma split_endpoint_of_parts:
  assumes h: "endpoint_host_ok h" "h \<noteq> []" "\<not> is_space (hd h)"
    and p: "1 \<le> p" "int p \<le> MAX_PORT"
  shows "split_endpoint (h @ '':'' @ show_nat p) = Inr (unbracket h, p)"
proof -
  let ?v = "h @ '':'' @ show_nat p"
  note strip = endpoint_text_trimmed [OF h(2,3), of p]
  have match: "endpoint_match ?v = Some (h, show_nat p)"
    using h(1) show_nat_digits [of p] show_nat_nonempty [of p]
    by (simp add: endpoint_match_def rpartition_last [OF show_nat_no_colon] list_all_iff)
  have "validate_endpoint False ?v = Inr ?v"
    unfolding validate_endpoint_def strip Let_def match
    using p port_text [OF p] by (simp add: parse_show_nat)
  with match show ?thesis by (simp add: split_endpoint_def bindR_def parse_show_nat)
qed

lemma mapR_Cons_Inr: "mapR f (x # xs) = Inr (y # ys) \<longleftrightarrow> f x = Inr y \<and> mapR f xs = Inr ys"
  by (auto simp: bindR_def split: sum.splits)

lemma mapR_Inr: "mapR f xs = Inr ys \<longleftrightarrow> list_all2 (\<lambda>x y. f x = Inr y) xs ys"
proof (induction xs arbitrary: ys)
  case (Cons x xs)
  show ?case
  proof (cases ys)
    case Nil
    then show ?thesis by (simp add: bindR_def split: sum.splits)
  next
    case (Cons y zs)
    then show ?thesis unfolding Cons mapR_Cons_Inr Cons.IH by simp
  qed
qed auto

lemma formatted_endpoint:
  assumes "validate_endpoint_host s = Inr h" and "CHR 0x0A \<notin> set h"
    and "1 \<le> p" and "int p \<le> MAX_PORT"
  shows "split_endpoint (format_endpoint h p) = Inr (h, p)" and "strip (format_endpoint h p) = format_endpoint h p"
proof -
  note host = validate_endpoint_host_ok [OF assms(1)]
  have strip: "strip h = h" using host(1) by simp
  have first: "\<not> is_space (hd h)" using host(1,2) strip_ends(1) [of s] by simp
  obtain g where g: "endpoint_host_ok g" "g \<noteq> []" "\<not> is_space (hd g)" "unbracket g = h"
    and fmt: "format_endpoint h p = g @ '':'' @ show_nat p"
  proof (cases "ip_address h = Some IPv6")
    case True
    show ?thesis
    proof (rule that [of "''['' @ h @ '']''"])
      show "endpoint_host_ok (''['' @ h @ '']'')"
        using assms(2) host(2) by (cases h) (auto simp: endpoint_host_ok_def butlast_append)
    qed (use True in \<open>simp_all add: format_endpoint_def strip unbracket_plain [OF host(3)] is_space_def code_point_def\<close>)
  next
    case False
    show ?thesis
    proof (rule that [of h])
      show "endpoint_host_ok h" using False host(2,4) by (auto simp: endpoint_host_ok_def)
    qed (use False host(2) first in \<open>simp_all add: format_endpoint_def strip unbracket_plain [OF host(3)]\<close>)
  qed
  from split_endpoint_of_parts [OF g(1-3) assms(3,4)] g(4) fmt
  show "split_endpoint (format_endpoint h p) = Inr (h, p)" by simp
  from endpoint_text_trimmed [OF g(2,3)] fmt show "strip (format_endpoint h p) = format_endpoint h p" by simp
qed

lemma split_endpoint_port: "split_endpoint s = Inr (h, p) \<Longrightarrow> 1 \<le> p \<and> int p \<le> MAX_PORT"
  by (auto simp: split_endpoint_def validate_endpoint_def bindR_def Let_def split: if_splits option.splits sum.splits)

lemma split_endpoint_strip [simp]: "split_endpoint (strip s) = split_endpoint s"
  by (simp add: split_endpoint_def validate_endpoint_def)

section \<open>Properties\<close>

text \<open>
  A host that \<open>validate_endpoint_host\<close> returns, without a line break, and a port from 1
  to 65535 survive the round trip: \<open>split_endpoint(format_endpoint(host, port))\<close> is
  \<open>(host, port)\<close>, for host names, IPv4 and IPv6 literals alike.
\<close>

theorem split_format_endpoint:
  assumes "validate_endpoint_host s = Inr h" and "CHR 0x0A \<notin> set h"
    and "1 \<le> p" and "int p \<le> MAX_PORT"
  shows "split_endpoint (format_endpoint h p) = Inr (h, p)"
  using formatted_endpoint [OF assms] by simp

theorem split_format_endpoint_witness:
  "validate_endpoint_host ''a.dn42'' = Inr ''a.dn42'' \<and>
   split_endpoint (format_endpoint ''a.dn42'' 51820) = Inr (''a.dn42'', 51820)"
proof -
  have "validate_endpoint_host ''a.dn42'' = Inr ''a.dn42''"
    by (simp add: validate_endpoint_host_def strip_def lstrip_def rstrip_def is_space_def
        code_point_def startswith_def ip_address_def ipv4_address_def ipv6_address_def
        split_scope_id_def partition_at_def ipv6_hextets_def ipv6_parts_def
        hostname_match_def hostname_label_def is_alnum_def)
  then show ?thesis using split_format_endpoint [of "''a.dn42''" "''a.dn42''" 51820]
    by (simp add: MAX_PORT_def)
qed

end
