(* ===== verification/Payload.thy ===== *)
theory Payload
  imports Validators
begin

text \<open>
  \<open>dn42ctl/services/peer_payload.py\<close>: the checks on untrusted peer payloads (proposals and
  reports of nodes) before they reach the services.
\<close>

definition DEFAULT_NET_BACKEND :: string where "DEFAULT_NET_BACKEND = ''networkd''"

record BgpPeerPayload =
  bp_peer_asn :: int
  bp_peer_public_key :: string
  bp_endpoint :: string
  bp_peer_lla :: string
  bp_net_backend :: string
  bp_listen_port :: "int option"

record IbgpPeerPayload =
  ip_name :: string
  ip_peer_ip :: string
  ip_has_wg :: bool
  ip_peer_public_key :: "string option"
  ip_endpoint :: string
  ip_peer_lla :: "string option"
  ip_net_backend :: string
  ip_babel_rxcost :: int
  ip_babel_type :: string
  ip_listen_port :: "int option"

section \<open>Fields\<close>

definition require :: "jdict \<Rightarrow> string \<Rightarrow> json result" where
  "require peer field = (case dict_get peer field of
     None \<Rightarrow> Inl (Dn42CtlError (''missing field: '' @ field)) | Some v \<Rightarrow> Inr v)"

fun as_int :: "json \<Rightarrow> string \<Rightarrow> int result" where
  "as_int (JInt i) field = Inr i"
| "as_int _ field = Inl (Dn42CtlError (field @ '' must be an integer''))"

fun as_str :: "json \<Rightarrow> string \<Rightarrow> string result" where
  "as_str (JStr s) field = Inr s"
| "as_str _ field = Inl (Dn42CtlError (field @ '' must be a string''))"

fun as_bool :: "json \<Rightarrow> string \<Rightarrow> bool result" where
  "as_bool (JBool b) field = Inr b"
| "as_bool _ field = Inl (Dn42CtlError (field @ '' must be a boolean''))"

definition checked :: "string \<Rightarrow> ('a \<Rightarrow> 'b result) \<Rightarrow> 'a \<Rightarrow> 'b result" where
  "checked field fn value = (case fn value of
     Inl (ValidationError m) \<Rightarrow> Inl (Dn42CtlError (field @ '': '' @ m))
   | r \<Rightarrow> r)"

definition optional_str :: "jdict \<Rightarrow> string \<Rightarrow> string \<Rightarrow> string result" where
  "optional_str peer field dflt = (case dict_get_value peer field of
     JNull \<Rightarrow> Inr dflt
   | raw \<Rightarrow> bindR (as_str raw field) (\<lambda>value. Inr (if value = [] then dflt else value)))"

definition optional_listen_port :: "jdict \<Rightarrow> int option result" where
  "optional_listen_port peer = (case dict_get_value peer ''listen_port'' of
     JNull \<Rightarrow> Inr None
   | raw \<Rightarrow> bindR (as_int raw ''listen_port'') (\<lambda>v.
       bindR (checked ''listen_port'' (validate_listen_port True) v) (\<lambda>p. Inr (Some p))))"

definition net_backend_field :: "jdict \<Rightarrow> string result" where
  "net_backend_field peer = bindR (optional_str peer ''net_backend'' DEFAULT_NET_BACKEND)
     (checked ''net_backend'' validate_net_backend)"

definition endpoint_field :: "jdict \<Rightarrow> string result" where
  "endpoint_field peer = bindR (optional_str peer ''endpoint'' []) (checked ''endpoint'' (validate_endpoint True))"

definition str_field :: "jdict \<Rightarrow> string \<Rightarrow> string result" where
  "str_field peer field = bindR (require peer field) (\<lambda>v. as_str v field)"

definition int_field :: "jdict \<Rightarrow> string \<Rightarrow> int result" where
  "int_field peer field = bindR (require peer field) (\<lambda>v. as_int v field)"

section \<open>Payloads\<close>

definition parse_bgp_peer :: "jdict \<Rightarrow> BgpPeerPayload result" where
  "parse_bgp_peer peer =
     bindR (bindR (int_field peer ''peer_asn'') (checked ''peer_asn'' validate_asn)) (\<lambda>asn.
     bindR (bindR (str_field peer ''peer_public_key'') (checked ''peer_public_key'' validate_pubkey)) (\<lambda>key.
     bindR (endpoint_field peer) (\<lambda>endpoint.
     bindR (bindR (str_field peer ''peer_lla'') (checked ''peer_lla'' validate_ipv6_address)) (\<lambda>lla.
     bindR (net_backend_field peer) (\<lambda>backend.
     bindR (optional_listen_port peer) (\<lambda>port.
     Inr \<lparr> bp_peer_asn = asn, bp_peer_public_key = key, bp_endpoint = endpoint, bp_peer_lla = lla,
           bp_net_backend = backend, bp_listen_port = port \<rparr>))))))"

definition parse_ibgp_peer :: "jdict \<Rightarrow> bool option \<Rightarrow> IbgpPeerPayload result" where
  "parse_ibgp_peer peer require_wg_fields =
     bindR (str_field peer ''name'') (\<lambda>name.
     if strip name = [] then Inl (Dn42CtlError ''empty name'')
     else
     bindR (if require_wg_fields = None then bindR (require peer ''has_wg'') (\<lambda>v. as_bool v ''has_wg'')
            else Inr True) (\<lambda>has_wg.
     let validate_wg = (case require_wg_fields of None \<Rightarrow> has_wg | Some b \<Rightarrow> b) in
     bindR (if validate_wg
            then bindR (bindR (str_field peer ''peer_public_key'') (checked ''peer_public_key'' validate_pubkey)) (\<lambda>k. Inr (Some k))
            else Inr None) (\<lambda>key.
     bindR (if validate_wg
            then bindR (bindR (str_field peer ''peer_lla'') (checked ''peer_lla'' validate_ipv6_address)) (\<lambda>a. Inr (Some a))
            else Inr None) (\<lambda>lla.
     bindR (bindR (str_field peer ''peer_ip'') (checked ''peer_ip'' validate_ipv6_address)) (\<lambda>peer_ip.
     bindR (endpoint_field peer) (\<lambda>endpoint.
     bindR (net_backend_field peer) (\<lambda>backend.
     bindR (bindR (int_field peer ''babel_rxcost'') (checked ''babel_rxcost'' validate_rxcost)) (\<lambda>rxcost.
     bindR (bindR (str_field peer ''babel_type'') (checked ''babel_type'' validate_babel_type)) (\<lambda>btype.
     bindR (optional_listen_port peer) (\<lambda>port.
     Inr \<lparr> ip_name = name, ip_peer_ip = peer_ip, ip_has_wg = has_wg, ip_peer_public_key = key,
           ip_endpoint = endpoint, ip_peer_lla = lla, ip_net_backend = backend, ip_babel_rxcost = rxcost,
           ip_babel_type = btype, ip_listen_port = port \<rparr>))))))))))"

definition parse_bgp_key :: "jdict \<Rightarrow> int result" where
  "parse_bgp_key key = bindR (int_field key ''peer_asn'') (checked ''peer_asn'' validate_asn)"

definition parse_ibgp_key :: "jdict \<Rightarrow> string result" where
  "parse_ibgp_key key = bindR (str_field key ''name'') (\<lambda>name.
     if strip name = [] then Inl (Dn42CtlError ''empty name'') else Inr name)"

section \<open>Lemmas\<close>

lemma checked_Inr: "checked field fn v = Inr y \<longleftrightarrow> fn v = Inr y"
  by (auto simp: checked_def split: sum.splits exn.splits)

text \<open>A parser that raises only \<open>Dn42CtlError\<close>.\<close>

definition ctl_only :: "'a result \<Rightarrow> bool" where
  "ctl_only r \<longleftrightarrow> (\<forall>e. r = Inl e \<longrightarrow> (\<exists>m. e = Dn42CtlError m))"

named_theorems ctl \<open>rules for parsers that raise only Dn42CtlError\<close>

lemma ctl_bind [ctl]: "ctl_only m \<Longrightarrow> (\<And>x. ctl_only (f x)) \<Longrightarrow> ctl_only (bindR m f)"
  by (auto simp: ctl_only_def bindR_Inl)

lemma ctl_basic [ctl]: "ctl_only (Inr x)" "ctl_only (Inl (Dn42CtlError m))"
  by (simp_all add: ctl_only_def)

lemma ctl_if [ctl]: "ctl_only m \<Longrightarrow> ctl_only n \<Longrightarrow> ctl_only (if b then m else n)"
  by simp

lemma ctl_as [ctl]: "ctl_only (as_int v f)" "ctl_only (as_str v f)" "ctl_only (as_bool v f)"
  by (cases v; simp add: ctl_only_def)+

lemma ctl_fields [ctl]: "ctl_only (require p f)" "ctl_only (str_field p f)" "ctl_only (int_field p f)"
proof -
  show r: "ctl_only (require p f)" for f by (auto simp: require_def ctl_only_def split: option.splits)
  show "ctl_only (str_field p f)" "ctl_only (int_field p f)"
    unfolding str_field_def int_field_def by (auto intro!: ctl r)
qed

lemma ctl_checked: "(\<And>e. fn v = Inl e \<Longrightarrow> \<exists>m. e = ValidationError m) \<Longrightarrow> ctl_only (checked f fn v)"
  by (auto simp: checked_def ctl_only_def split: sum.splits exn.splits)

lemma ctl_validators [ctl]:
  "ctl_only (checked f validate_asn i)" "ctl_only (checked f validate_pubkey s)"
  "ctl_only (checked f (validate_endpoint b) s)" "ctl_only (checked f validate_ipv6_address s)"
  "ctl_only (checked f (validate_listen_port b) i)" "ctl_only (checked f validate_net_backend s)"
  "ctl_only (checked f validate_rxcost i)" "ctl_only (checked f validate_babel_type s)"
  by (rule ctl_checked; auto simp: validate_asn_def validate_pubkey_def validate_endpoint_def
      validate_ipv6_address_def validate_listen_port_def validate_net_backend_def validate_rxcost_def
      validate_babel_type_def Let_def split: if_splits option.splits prod.splits)+

lemma ctl_optional [ctl]:
  "ctl_only (optional_str p f d)" "ctl_only (optional_listen_port p)"
  "ctl_only (net_backend_field p)" "ctl_only (endpoint_field p)"
proof -
  show o: "ctl_only (optional_str p f d)" for f d
    unfolding optional_str_def by (auto intro!: ctl split: json.splits)
  show "ctl_only (optional_listen_port p)"
    unfolding optional_listen_port_def by (auto intro!: ctl split: json.splits)
  show "ctl_only (net_backend_field p)" "ctl_only (endpoint_field p)"
    unfolding net_backend_field_def endpoint_field_def by (auto intro!: ctl o)
qed

section \<open>Properties\<close>

text \<open>What a rendered configuration may contain.\<close>

definition valid_wg_key :: "string \<Rightarrow> bool" where
  "valid_wg_key k = (\<exists>raw. b64decode k = Some raw \<and> length raw = 32)"

definition valid_ip6 :: "string \<Rightarrow> bool" where
  "valid_ip6 a = (validate_ipv6_address a = Inr a)"

definition valid_endpoint :: "string \<Rightarrow> bool" where
  "valid_endpoint e = (validate_endpoint True e = Inr e)"

text \<open>
  C40. Every field of a BGP payload that \<open>parse_bgp_peer\<close> accepts is in range and normalised:
  an AS number of 32 bits, a key of 32 bytes, an endpoint that is empty or of the accepted
  form, an IPv6 address, a known backend and a port of 16 bits; and whatever the payload is,
  the only exception it raises is \<open>Dn42CtlError\<close>.
\<close>

theorem parse_bgp_peer_sound:
  "(\<forall>p. parse_bgp_peer j = Inr p \<longrightarrow>
      0 < bp_peer_asn p \<and> bp_peer_asn p \<le> 4294967295 \<and> valid_wg_key (bp_peer_public_key p)
      \<and> valid_endpoint (bp_endpoint p) \<and> valid_ip6 (bp_peer_lla p)
      \<and> bp_net_backend p \<in> {''networkd'', ''nm''}
      \<and> (\<forall>port. bp_listen_port p = Some port \<longrightarrow> 0 \<le> port \<and> port \<le> 65535))
   \<and> ctl_only (parse_bgp_peer j)"
proof
  show "ctl_only (parse_bgp_peer j)"
    unfolding parse_bgp_peer_def by (auto intro!: ctl)
  have port: "optional_listen_port j = Inr (Some port) \<Longrightarrow> 0 \<le> port \<and> port \<le> 65535" for port
    by (auto simp: optional_listen_port_def bindR_Inr checked_Inr validate_listen_port_ok MAX_PORT_def
        split: json.splits)
  show "\<forall>p. parse_bgp_peer j = Inr p \<longrightarrow>
      0 < bp_peer_asn p \<and> bp_peer_asn p \<le> 4294967295 \<and> valid_wg_key (bp_peer_public_key p)
      \<and> valid_endpoint (bp_endpoint p) \<and> valid_ip6 (bp_peer_lla p)
      \<and> bp_net_backend p \<in> {''networkd'', ''nm''}
      \<and> (\<forall>port. bp_listen_port p = Some port \<longrightarrow> 0 \<le> port \<and> port \<le> 65535)"
    by (auto simp: parse_bgp_peer_def bindR_Inr checked_Inr validate_asn_ok MAX_ASN_def valid_wg_key_def
        valid_endpoint_def valid_ip6_def endpoint_field_def net_backend_field_def validate_net_backend_def Let_def
        dest!: validate_pubkey_ok dest: validate_endpoint_ok validate_ipv6_address_ok port split: if_splits)
qed

lemmas eval_strings = strip_def lstrip_def rstrip_def is_space_def code_point_def startswith_def endswith_def
  lower_def lower_char_def Let_def

lemmas eval_ip = ipv6_address_def split_scope_id_def partition_at_def ipv6_hextets_def ipv6_parts_def
  skip_indices_def empty_part_def parse_hextet_def hex_val_def all_some_def

definition sample_key :: string where
  "sample_key = ''AAAAAAAAAAAAAAAAAAAAAAAAAAAAAAAAAAAAAAAAAAA=''"

lemma sample_key_valid: "validate_pubkey sample_key = Inr sample_key"
  by (simp add: validate_pubkey_def sample_key_def WG_KEY_BYTES_def b64decode_def b64_val_def eval_strings)

lemma sample_lla_valid: "validate_ipv6_address ''fe80::1'' = Inr ''fe80::1''"
  by (simp add: validate_ipv6_address_def eval_strings eval_ip upt_rec)

definition sample_payload :: jdict where
  "sample_payload = [(''peer_asn'', JInt 4242420001), (''peer_public_key'', JStr sample_key),
     (''peer_lla'', JStr ''fe80::1''), (''listen_port'', JInt 0)]"

lemma sample_payload_parses: "\<exists>p. parse_bgp_peer sample_payload = Inr p"
  using sample_key_valid sample_lla_valid
  by (simp add: parse_bgp_peer_def sample_payload_def bindR_def int_field_def str_field_def require_def dict_get_def
      checked_def validate_asn_def MAX_ASN_def endpoint_field_def optional_str_def dict_get_value_def
      validate_endpoint_def net_backend_field_def DEFAULT_NET_BACKEND_def validate_net_backend_def
      optional_listen_port_def validate_listen_port_def MAX_PORT_def eval_strings)

theorem parse_bgp_peer_sound_witness:
  "\<exists>p. parse_bgp_peer sample_payload = Inr p \<and> valid_wg_key (bp_peer_public_key p) \<and> valid_ip6 (bp_peer_lla p)"
  using parse_bgp_peer_sound [of sample_payload] sample_payload_parses by blast

lemma bindR_E: "bindR m f = Inr y \<Longrightarrow> (\<And>x. m = Inr x \<Longrightarrow> f x = Inr y \<Longrightarrow> P) \<Longrightarrow> P"
  by (auto simp: bindR_Inr)

lemma optional_wg_field:
  "(if b then bindR (bindR (str_field j f) (checked f fn)) (\<lambda>k. Inr (Some k)) else Inr None) = Inr x \<Longrightarrow> b \<Longrightarrow>
   \<exists>s k. x = Some k \<and> fn s = Inr k"
  by (auto simp: bindR_Inr checked_Inr)

lemma parse_ibgp_peer_fields:
  "parse_ibgp_peer j rq = Inr p \<Longrightarrow> strip (ip_name p) \<noteq> []
    \<and> (\<exists>s. validate_ipv6_address s = Inr (ip_peer_ip p))
    \<and> endpoint_field j = Inr (ip_endpoint p)
    \<and> net_backend_field j = Inr (ip_net_backend p)
    \<and> (\<exists>i. validate_rxcost i = Inr (ip_babel_rxcost p))
    \<and> (\<exists>s. validate_babel_type s = Inr (ip_babel_type p))
    \<and> optional_listen_port j = Inr (ip_listen_port p)
    \<and> (rq = Some True \<or> rq = None \<and> ip_has_wg p \<longrightarrow> (\<exists>s k s' a. ip_peer_public_key p = Some k \<and> validate_pubkey s = Inr k
        \<and> ip_peer_lla p = Some a \<and> validate_ipv6_address s' = Inr a))"
  unfolding parse_ibgp_peer_def Let_def
proof (erule bindR_E, split if_split_asm, simp, (erule bindR_E)+, unfold checked_Inr, drule Inr_inject, goal_cases)
  case (1 name has_wg key lla peer_ip s1 endpoint backend rx i1 bt s2 port)
  let ?wg = "case rq of None \<Rightarrow> has_wg | Some b \<Rightarrow> b"
  have k: "?wg \<Longrightarrow> \<exists>s k. key = Some k \<and> validate_pubkey s = Inr k"
    using 1(4) by (rule optional_wg_field)
  have a: "?wg \<Longrightarrow> \<exists>s a. lla = Some a \<and> validate_ipv6_address s = Inr a"
    using 1(5) by (rule optional_wg_field)
  have p: "p = \<lparr> ip_name = name, ip_peer_ip = peer_ip, ip_has_wg = has_wg, ip_peer_public_key = key,
           ip_endpoint = endpoint, ip_peer_lla = lla, ip_net_backend = backend, ip_babel_rxcost = rx,
           ip_babel_type = bt, ip_listen_port = port \<rparr>"
    using 1(15) by simp
  have "rq = Some True \<or> rq = None \<and> has_wg \<Longrightarrow> ?wg" by auto
  with k a 1(2,7,8,9,11,13,14) show ?case unfolding p by auto
qed

text \<open>
  Every field of an iBGP payload that \<open>parse_ibgp_peer\<close> accepts is in range and normalised;
  with \<open>require_wg_fields = True\<close>, as for a modification, the key and the link-local address
  are present and valid even if the payload says \<open>has_wg = false\<close>; and the only exception it
  raises is \<open>Dn42CtlError\<close>.
\<close>

theorem parse_ibgp_peer_sound:
  "(\<forall>p. parse_ibgp_peer j rq = Inr p \<longrightarrow>
      strip (ip_name p) \<noteq> [] \<and> valid_ip6 (ip_peer_ip p) \<and> valid_endpoint (ip_endpoint p)
      \<and> ip_net_backend p \<in> {''networkd'', ''nm''} \<and> 0 \<le> ip_babel_rxcost p \<and> ip_babel_rxcost p \<le> 65535
      \<and> ip_babel_type p \<in> {''wired'', ''wireless'', ''tunnel''}
      \<and> (\<forall>port. ip_listen_port p = Some port \<longrightarrow> 0 \<le> port \<and> port \<le> 65535)
      \<and> (rq = Some True \<or> rq = None \<and> ip_has_wg p \<longrightarrow>
           (\<exists>k a. ip_peer_public_key p = Some k \<and> valid_wg_key k \<and> ip_peer_lla p = Some a \<and> valid_ip6 a)))
   \<and> ctl_only (parse_ibgp_peer j rq)"
proof
  show "ctl_only (parse_ibgp_peer j rq)"
    unfolding parse_ibgp_peer_def Let_def by (auto intro!: ctl)
  have port: "optional_listen_port j = Inr (Some port) \<Longrightarrow> 0 \<le> port \<and> port \<le> 65535" for port
    by (auto simp: optional_listen_port_def bindR_Inr checked_Inr validate_listen_port_ok MAX_PORT_def
        split: json.splits)
  have btype: "validate_babel_type s = Inr b \<Longrightarrow> b = ''wired'' \<or> b = ''wireless'' \<or> b = ''tunnel''" for s b
    by (auto simp: validate_babel_type_def BABEL_VALID_TYPES_def Let_def split: if_splits)
  show "\<forall>p. parse_ibgp_peer j rq = Inr p \<longrightarrow>
      strip (ip_name p) \<noteq> [] \<and> valid_ip6 (ip_peer_ip p) \<and> valid_endpoint (ip_endpoint p)
      \<and> ip_net_backend p \<in> {''networkd'', ''nm''} \<and> 0 \<le> ip_babel_rxcost p \<and> ip_babel_rxcost p \<le> 65535
      \<and> ip_babel_type p \<in> {''wired'', ''wireless'', ''tunnel''}
      \<and> (\<forall>port. ip_listen_port p = Some port \<longrightarrow> 0 \<le> port \<and> port \<le> 65535)
      \<and> (rq = Some True \<or> rq = None \<and> ip_has_wg p \<longrightarrow>
           (\<exists>k a. ip_peer_public_key p = Some k \<and> valid_wg_key k \<and> ip_peer_lla p = Some a \<and> valid_ip6 a))"
  proof (intro allI impI)
    fix p
    assume "parse_ibgp_peer j rq = Inr p"
    note f = parse_ibgp_peer_fields [OF this]
    have "valid_ip6 (ip_peer_ip p)" using f by (auto simp: valid_ip6_def dest: validate_ipv6_address_ok)
    moreover have "valid_endpoint (ip_endpoint p)"
      using f by (auto simp: endpoint_field_def bindR_Inr checked_Inr valid_endpoint_def dest: validate_endpoint_ok)
    moreover have "ip_net_backend p \<in> {''networkd'', ''nm''}"
      using f by (auto simp: net_backend_field_def bindR_Inr checked_Inr validate_net_backend_def Let_def split: if_splits)
    moreover have "0 \<le> ip_babel_rxcost p \<and> ip_babel_rxcost p \<le> 65535"
      using f by (auto simp: validate_rxcost_ok MAX_PORT_def)
    moreover have "ip_babel_type p \<in> {''wired'', ''wireless'', ''tunnel''}" using f btype by blast
    moreover have "\<forall>port. ip_listen_port p = Some port \<longrightarrow> 0 \<le> port \<and> port \<le> 65535" using f port by metis
    moreover have "\<exists>k a. ip_peer_public_key p = Some k \<and> valid_wg_key k \<and> ip_peer_lla p = Some a \<and> valid_ip6 a"
      if "rq = Some True \<or> rq = None \<and> ip_has_wg p"
      using f that by (auto simp: valid_wg_key_def valid_ip6_def dest: validate_pubkey_ok validate_ipv6_address_ok)
    ultimately show "strip (ip_name p) \<noteq> [] \<and> valid_ip6 (ip_peer_ip p) \<and> valid_endpoint (ip_endpoint p)
      \<and> ip_net_backend p \<in> {''networkd'', ''nm''} \<and> 0 \<le> ip_babel_rxcost p \<and> ip_babel_rxcost p \<le> 65535
      \<and> ip_babel_type p \<in> {''wired'', ''wireless'', ''tunnel''}
      \<and> (\<forall>port. ip_listen_port p = Some port \<longrightarrow> 0 \<le> port \<and> port \<le> 65535)
      \<and> (rq = Some True \<or> rq = None \<and> ip_has_wg p \<longrightarrow>
           (\<exists>k a. ip_peer_public_key p = Some k \<and> valid_wg_key k \<and> ip_peer_lla p = Some a \<and> valid_ip6 a))"
      using f by blast
  qed
qed

text \<open>
  A scope id may hold a line break: \<open>validate_ipv6_address\<close> returns an address
  with one unchanged, so a payload can carry a second line into a rendered file.
\<close>

theorem scope_id_line_break_accepted:
  "validate_ipv6_address (''fe80::1%x'' @ [CHR 0x0A] @ ''evil'') = Inr (''fe80::1%x'' @ [CHR 0x0A] @ ''evil'')"
  by (simp add: validate_ipv6_address_def eval_strings eval_ip upt_rec)

theorem parse_ibgp_peer_sound_witness:
  "\<exists>p. parse_ibgp_peer [(''name'', JStr ''b''), (''has_wg'', JBool False), (''peer_ip'', JStr ''fe80::1''),
       (''babel_rxcost'', JInt 20), (''babel_type'', JStr ''Tunnel'')] None = Inr p
     \<and> ip_babel_type p \<in> {''wired'', ''wireless'', ''tunnel''}"
proof -
  obtain p where p: "parse_ibgp_peer [(''name'', JStr ''b''), (''has_wg'', JBool False), (''peer_ip'', JStr ''fe80::1''),
       (''babel_rxcost'', JInt 20), (''babel_type'', JStr ''Tunnel'')] None = Inr p"
    using sample_lla_valid
    by (simp add: parse_ibgp_peer_def bindR_def int_field_def str_field_def require_def dict_get_def
        checked_def endpoint_field_def optional_str_def dict_get_value_def validate_rxcost_def
        validate_endpoint_def net_backend_field_def DEFAULT_NET_BACKEND_def validate_net_backend_def
        optional_listen_port_def MAX_PORT_def validate_babel_type_def BABEL_VALID_TYPES_def eval_strings
        char_of_def bit_iff_odd)
  with parse_ibgp_peer_sound [of "[(''name'', JStr ''b''), (''has_wg'', JBool False), (''peer_ip'', JStr ''fe80::1''),
       (''babel_rxcost'', JInt 20), (''babel_type'', JStr ''Tunnel'')]" None] show ?thesis by blast
qed

end
