(* ===== verification/Peers.thy ===== *)
theory Peers
  imports Migrations Render Payload
begin

text \<open>
  The peer services: \<open>services/core.py\<close>, \<open>services/bgp.py\<close>, \<open>services/ibgp.py\<close> and
  \<open>wg.py\<close>. A service opens the database, validates, writes the row, renders the files and
  closes the connection whatever happens.
\<close>

section \<open>Opening the database\<close>

definition open_db :: "unit wop" where
  "open_db = as_ctl_error db_open"

definition open_db_and_ensure_node :: "string \<Rightarrow> unit wop" where
  "open_db_and_ensure_node node_id = bnd open_db (\<lambda>_.
     try_except (ensure_node node_id) (\<lambda>e. case e of
       DatabaseError m \<Rightarrow> bnd (modify_state close_conn) (\<lambda>_. raise (Dn42CtlError m))
     | _ \<Rightarrow> raise e))"

definition closing :: "'a wop \<Rightarrow> 'a wop" where
  "closing body = try_finally body close_conn"

text \<open>\<open>x or y\<close> for an optional string: empty counts as absent.\<close>

definition or_else :: "string option \<Rightarrow> string \<Rightarrow> string" where
  "or_else x y = (case x of Some s \<Rightarrow> if s = [] then y else s | None \<Rightarrow> y)"

definition validated :: "'a result \<Rightarrow> 'a wop" where
  "validated r = (case r of
     Inl (ValidationError m) \<Rightarrow> raise (Dn42CtlError m) | Inl e \<Rightarrow> raise e | Inr x \<Rightarrow> ret x)"

section \<open>Helpers of the services\<close>

definition DEFAULT_ALLOWED_IPS :: "string list" where
  "DEFAULT_ALLOWED_IPS = [''fe80::/64'', ''fd00::/8'']"

definition IBGP_ALLOWED_IPS :: "string list" where
  "IBGP_ALLOWED_IPS = [''fe80::/64'', ''fd00::/8'', ''ff02::/16'']"

definition WG_PORT_RANGE :: "nat \<times> nat" where "WG_PORT_RANGE = (30000, 49999)"

definition randint :: "nat \<Rightarrow> nat \<Rightarrow> nat wop" where
  "randint lo hi = (\<lambda>w. (Inr (lo + random_nat (env w) (tick w) mod (hi - lo + 1)), next_tick w))"

text \<open>
  \<open>pick_unused_port\<close>: the argument counts the attempts left before the loop gives up, 2000
  at the start.
\<close>

fun pick_loop :: "nat \<Rightarrow> int list \<Rightarrow> nat \<Rightarrow> nat wop" where
  "pick_loop 0 used c = (if int c \<notin> set used then ret c
     else bnd (randint (fst WG_PORT_RANGE) (snd WG_PORT_RANGE)) (\<lambda>_. raise (Dn42CtlError ''no free port'')))"
| "pick_loop (Suc n) used c = (if int c \<notin> set used then ret c
     else bnd (randint (fst WG_PORT_RANGE) (snd WG_PORT_RANGE)) (pick_loop n used))"

definition pick_unused_port :: "int list \<Rightarrow> nat wop" where
  "pick_unused_port used = bnd (randint (fst WG_PORT_RANGE) (snd WG_PORT_RANGE)) (pick_loop 2000 used)"

definition is_name_char :: "char \<Rightarrow> bool" where
  "is_name_char c = (is_alnum c \<or> c = CHR ''_'')"

definition sanitize_name :: "string \<Rightarrow> string result" where
  "sanitize_name name =
     (let cleaned = sub_runs (\<lambda>c. \<not> is_name_char c) CHR ''_'' (strip name);
          cleaned = strip_chars CHR ''_'' (sub_runs (\<lambda>c. c = CHR ''_'') CHR ''_'' cleaned)
      in if cleaned = [] then Inl (Dn42CtlError ''empty name'') else Inr (lower cleaned))"

definition normalize_net_backend :: "string \<Rightarrow> string wop" where
  "normalize_net_backend net_backend = validated (validate_net_backend net_backend)"

text \<open>The column holds what \<open>json.dumps\<close> made of a list of strings, so it decodes to that list.\<close>

definition parse_allowed_ips_json :: "json option \<Rightarrow> string list" where
  "parse_allowed_ips_json raw = (case raw of
     Some (JArr items) \<Rightarrow>
       if list_all (\<lambda>i. case i of JStr _ \<Rightarrow> True | _ \<Rightarrow> False) items
       then map (\<lambda>i. case i of JStr s \<Rightarrow> s | _ \<Rightarrow> []) items else DEFAULT_ALLOWED_IPS
   | _ \<Rightarrow> DEFAULT_ALLOWED_IPS)"

definition stored_allowed_ips :: "string list \<Rightarrow> string list" where
  "stored_allowed_ips ips = parse_allowed_ips_json (Some (JArr (map JStr ips)))"

definition pubkey_from_private :: "string \<Rightarrow> string wop" where
  "pubkey_from_private k = (\<lambda>w. case wg_pubkey (env w) k of
     None \<Rightarrow> (Inl (Dn42CtlError ''wg pubkey failed''), next_tick w)
   | Some p \<Rightarrow> (Inr (strip p), next_tick w))"

definition generate_wg_keypair :: "(string \<times> string) wop" where
  "generate_wg_keypair =
     bnd (\<lambda>w. case wg_genkey (env w) (tick w) of
            None \<Rightarrow> (Inl (Dn42CtlError ''wg genkey failed''), next_tick w)
          | Some k \<Rightarrow> (Inr (strip k), next_tick w)) (\<lambda>privkey.
     if privkey = [] then raise (Dn42CtlError ''wg returned an empty key'')
     else bnd (pubkey_from_private privkey) (\<lambda>pubkey.
       if pubkey = [] then raise (Dn42CtlError ''wg returned an empty key'') else ret (privkey, pubkey)))"

definition resolve_wg_keypair :: "string option \<Rightarrow> string option \<Rightarrow> (string \<times> string) wop" where
  "resolve_wg_keypair priv pub = (case (priv, pub) of
     (None, None) \<Rightarrow> generate_wg_keypair
   | (Some k, Some p) \<Rightarrow> ret (k, p)
   | _ \<Rightarrow> raise (Dn42CtlError ''both keys are required''))"

definition hex4 :: "nat \<Rightarrow> string" where
  "hex4 n = (let s = show_hex n in replicate (4 - length s) CHR ''0'' @ s)"

definition generate_random_lla :: "string wop" where
  "generate_random_lla = bnd (randint 0 65535) (\<lambda>a. bnd (randint 0 65535) (\<lambda>b.
     ret (''fe80::'' @ hex4 a @ '':'' @ hex4 b)))"

definition lla_or_random :: "string option \<Rightarrow> string wop" where
  "lla_or_random x = (case x of Some s \<Rightarrow> if s = [] then generate_random_lla else ret s | None \<Rightarrow> generate_random_lla)"

section \<open>Files of a peer\<close>

definition netdev_path :: "AppConfig \<Rightarrow> string \<Rightarrow> string" where
  "netdev_path config ifname = path_join (ac_networkd_dir config) (ifname @ ''.netdev'')"

definition network_path :: "AppConfig \<Rightarrow> string \<Rightarrow> string" where
  "network_path config ifname = path_join (ac_networkd_dir config) (ifname @ ''.network'')"

definition bird_peer_path :: "AppConfig \<Rightarrow> string \<Rightarrow> string" where
  "bird_peer_path config stem = path_join (ac_bird_peers_dir config) (stem @ ''.conf'')"

definition write_net_backend_files ::
  "AppConfig \<Rightarrow> string \<Rightarrow> string \<Rightarrow> string \<Rightarrow> int \<Rightarrow> string \<Rightarrow> string \<Rightarrow> string list \<Rightarrow> string \<Rightarrow> string \<Rightarrow> string list wop" where
  "write_net_backend_files config backend ifname private_key listen_port peer_public_key endpoint allowed_ips local_lla peer_lla =
     (if allowed_ips = [] then raise (Dn42CtlError ''empty AllowedIPs'')
      else if backend \<noteq> ''networkd'' then raise (Dn42CtlError ''unsupported backend'')
      else bnd (write_text (netdev_path config ifname)
                  (render_networkd_netdev ifname private_key listen_port peer_public_key endpoint allowed_ips) (Some NETDEV)) (\<lambda>_.
           bnd (write_text (network_path config ifname) (render_networkd_network ifname local_lla peer_lla) (Some NETWORK)) (\<lambda>_.
           ret [netdev_path config ifname, network_path config ifname])))"

definition rendered :: "string result \<Rightarrow> string wop" where
  "rendered r = (case r of Inl (ValueError m) \<Rightarrow> raise (Dn42CtlError m) | Inl e \<Rightarrow> raise e | Inr x \<Rightarrow> ret x)"

definition write_bird_bgp_peer :: "AppConfig \<Rightarrow> string \<Rightarrow> string \<Rightarrow> int \<Rightarrow> string list wop" where
  "write_bird_bgp_peer config ifname peer_lla peer_asn =
     bnd (rendered (render_bird_bgp_peer_conf ifname peer_lla peer_asn)) (\<lambda>text.
     bnd (write_text (bird_peer_path config ifname) text (Some BIRD)) (\<lambda>_. ret [bird_peer_path config ifname]))"

definition write_bird_ibgp_peer :: "AppConfig \<Rightarrow> string \<Rightarrow> string \<Rightarrow> string \<Rightarrow> string list wop" where
  "write_bird_ibgp_peer config name ifname peer_ip =
     bnd (rendered (render_bird_ibgp_peer_conf name ifname peer_ip)) (\<lambda>text.
     bnd (write_text (bird_peer_path config (''ibgp_'' @ name)) text (Some BIRD)) (\<lambda>_.
     ret [bird_peer_path config (''ibgp_'' @ name)]))"

definition peer_files_for_backend :: "AppConfig \<Rightarrow> string \<Rightarrow> string \<Rightarrow> string \<Rightarrow> string option \<Rightarrow> string list result" where
  "peer_files_for_backend config ifname net_backend kind ibgp_name =
     bindR (if kind = ''bgp'' then Inr [bird_peer_path config ifname]
            else if kind = ''ibgp'' then (case ibgp_name of
                None \<Rightarrow> Inl (ValueError ''ibgp_name is required for kind=ibgp'')
              | Some n \<Rightarrow> Inr [bird_peer_path config (''ibgp_'' @ n), ac_bird_babel_conf_path config])
            else Inr []) (\<lambda>bird.
     Inr (bird @ (if net_backend = ''networkd'' then [netdev_path config ifname, network_path config ifname] else [])))"

definition babel_interfaces :: "ibgp_peer_row list \<Rightarrow> (string \<times> int \<times> string) list" where
  "babel_interfaces rows = map (\<lambda>r. (p_ifname r, p_babel_rxcost r,
     if p_babel_type r = [] then ''tunnel'' else p_babel_type r)) (filter p_has_wg rows)"

definition regenerate_babel_conf :: "AppConfig \<Rightarrow> string \<Rightarrow> string wop" where
  "regenerate_babel_conf config node_id = bnd (as_ctl_error (list_ibgp_peers node_id)) (\<lambda>rows.
     bnd (write_text (ac_bird_babel_conf_path config) (render_babel_conf (babel_interfaces rows)) (Some BIRD)) (\<lambda>_.
     ret (ac_bird_babel_conf_path config)))"

section \<open>Results\<close>

record PeerResult =
  pr_ifname :: string
  pr_listen_port :: int
  pr_wg_public_key :: string
  pr_local_lla :: string
  pr_generated_files :: "string list"

record DeleteResult =
  dr_kind :: string
  dr_peer_asn :: "int option"
  dr_name :: "string option"
  dr_deleted_files :: "string list"
  dr_missing_files :: "string list"
  dr_regenerated_files :: "string list"
  dr_failed_files :: "string list"

section \<open>BGP peers\<close>

definition last_chars :: "nat \<Rightarrow> string \<Rightarrow> string" where
  "last_chars n s = drop (length s - n) s"

definition parse_int :: "string \<Rightarrow> int" where
  "parse_int s = (if startswith s ''-'' then - int (parse_nat (tl s)) else int (parse_nat s))"

definition bgp_listen_port :: "int \<Rightarrow> int option \<Rightarrow> int wop" where
  "bgp_listen_port peer_asn listen_port = (case listen_port of
     None \<Rightarrow> (let p = parse_int (last_chars 5 (show_int peer_asn)) in
        if p > MAX_PORT then raise (Dn42CtlError ''derived ListenPort out of range'') else ret p)
   | Some p \<Rightarrow> bnd (validated (validate_listen_port True p)) (\<lambda>_. ret p))"

definition create_bgp_peer ::
  "AppConfig \<Rightarrow> int \<Rightarrow> string \<Rightarrow> string \<Rightarrow> string \<Rightarrow> string \<Rightarrow> int option \<Rightarrow> string option \<Rightarrow> string option
   \<Rightarrow> string option \<Rightarrow> string option \<Rightarrow> bool \<Rightarrow> string list option \<Rightarrow> PeerResult wop" where
  "create_bgp_peer config peer_asn peer_public_key endpoint peer_lla net_backend listen_port wg_private_key
     wg_public_key local_lla node_id render_files allowed_ips =
   bnd (normalize_net_backend net_backend) (\<lambda>backend.
   let nid = or_else node_id (ac_node_id config) in
   bnd (open_db_and_ensure_node nid) (\<lambda>_. closing (
     bnd (as_ctl_error (get_bgp_peer nid peer_asn)) (\<lambda>existing.
     if existing \<noteq> None then raise (Dn42CtlError ''BGP peer exists'')
     else
     let ifname = ''dn42_'' @ last_chars 4 (show_int peer_asn) in
     bnd (bgp_listen_port peer_asn listen_port) (\<lambda>port.
     bnd (resolve_wg_keypair wg_private_key wg_public_key) (\<lambda>keys.
     bnd (lla_or_random local_lla) (\<lambda>lla.
     let ips = (case allowed_ips of None \<Rightarrow> DEFAULT_ALLOWED_IPS | Some l \<Rightarrow> l) in
     bnd (validated (validate_allowed_ips_list ips)) (\<lambda>_.
     bnd (as_ctl_error (insert_bgp_peer \<lparr> p_node_id = nid, p_ifname = ifname, p_wg_private_key = fst keys,
            p_wg_public_key = snd keys, p_peer_public_key = Some peer_public_key, p_endpoint = Some endpoint,
            p_local_lla = lla, p_peer_lla = Some peer_lla, p_listen_port = port, p_allowed_ips = ips,
            p_net_backend = backend, p_peer_asn = peer_asn \<rparr>)) (\<lambda>_.
     bnd (if render_files
          then bnd (write_bird_bgp_peer config ifname peer_lla peer_asn) (\<lambda>g1.
               bnd (write_net_backend_files config backend ifname (fst keys) port peer_public_key endpoint ips lla peer_lla) (\<lambda>g2.
               ret (g1 @ g2)))
          else ret []) (\<lambda>generated.
     ret \<lparr> pr_ifname = ifname, pr_listen_port = port, pr_wg_public_key = snd keys, pr_local_lla = lla,
           pr_generated_files = generated \<rparr>))))))))))"

text \<open>A port that changes must be free among the node's other peers; port 0 means none.\<close>

definition check_new_port :: "string \<Rightarrow> int option \<Rightarrow> int \<Rightarrow> int wop" where
  "check_new_port nid listen_port current =
     (let new = (case listen_port of None \<Rightarrow> current | Some p \<Rightarrow> p) in
      bnd (validated (validate_listen_port True new)) (\<lambda>_.
      if listen_port \<noteq> None \<and> new > 0 \<and> new \<noteq> current
      then bnd (as_ctl_error (get_used_listen_ports nid)) (\<lambda>used.
           if new \<in> set used - {0, current} then raise (Dn42CtlError ''ListenPort in use'') else ret new)
      else ret new))"

definition modify_bgp_peer ::
  "AppConfig \<Rightarrow> int \<Rightarrow> string \<Rightarrow> string \<Rightarrow> string \<Rightarrow> string \<Rightarrow> int option \<Rightarrow> string option \<Rightarrow> bool
   \<Rightarrow> string list option \<Rightarrow> PeerResult wop" where
  "modify_bgp_peer config peer_asn peer_public_key endpoint peer_lla net_backend listen_port node_id render_files allowed_ips =
   bnd (normalize_net_backend net_backend) (\<lambda>backend.
   let nid = or_else node_id (ac_node_id config) in
   bnd (open_db_and_ensure_node nid) (\<lambda>_. closing (
     bnd (as_ctl_error (get_bgp_peer nid peer_asn)) (\<lambda>row. case row of
       None \<Rightarrow> raise (Dn42CtlError ''BGP peer does not exist'')
     | Some r \<Rightarrow>
       bnd (check_new_port nid listen_port (p_listen_port r)) (\<lambda>port.
       let ips = (case allowed_ips of None \<Rightarrow> stored_allowed_ips (p_allowed_ips r) | Some l \<Rightarrow> l) in
       bnd (validated (validate_allowed_ips_list ips)) (\<lambda>_.
       bnd (as_ctl_error (update_bgp_peer nid peer_asn (Some peer_public_key) (Some endpoint) (Some peer_lla) port ips backend)) (\<lambda>_.
       bnd (if render_files
            then bnd (write_bird_bgp_peer config (p_ifname r) peer_lla peer_asn) (\<lambda>g1.
                 bnd (write_net_backend_files config backend (p_ifname r) (p_wg_private_key r) port peer_public_key
                        endpoint ips (p_local_lla r) peer_lla) (\<lambda>g2. ret (g1 @ g2)))
            else ret []) (\<lambda>generated.
       ret \<lparr> pr_ifname = p_ifname r, pr_listen_port = port, pr_wg_public_key = p_wg_public_key r,
             pr_local_lla = p_local_lla r, pr_generated_files = generated \<rparr>))))))))"

definition delete_bgp_peer :: "AppConfig \<Rightarrow> int \<Rightarrow> string option \<Rightarrow> bool \<Rightarrow> DeleteResult wop" where
  "delete_bgp_peer config peer_asn node_id render_files = bnd open_db (\<lambda>_. closing (
     let nid = or_else node_id (ac_node_id config) in
     bnd (as_ctl_error (get_bgp_peer nid peer_asn)) (\<lambda>row. case row of
       None \<Rightarrow> raise (Dn42CtlError ''BGP peer does not exist'')
     | Some r \<Rightarrow>
       bnd (as_ctl_error (db_delete_bgp_peer nid peer_asn)) (\<lambda>_.
       bnd (if render_files
            then bnd (lift_result (peer_files_for_backend config (p_ifname r) (p_net_backend r) ''bgp'' None)) delete_files_and_collect_status
            else ret ([], [], [])) (\<lambda>st. case st of (deleted, missing, failed) \<Rightarrow>
       ret \<lparr> dr_kind = ''bgp'', dr_peer_asn = Some peer_asn, dr_name = None, dr_deleted_files = deleted,
             dr_missing_files = missing, dr_regenerated_files = [], dr_failed_files = failed \<rparr>)))))"

section \<open>iBGP peers\<close>

definition ibgp_listen_port :: "string \<Rightarrow> int option \<Rightarrow> int wop" where
  "ibgp_listen_port nid listen_port = (case listen_port of
     None \<Rightarrow> bnd (as_ctl_error (get_used_listen_ports nid)) (\<lambda>used.
        bnd (pick_unused_port (filter (\<lambda>p. p \<noteq> 0) used)) (\<lambda>p. ret (int p)))
   | Some p \<Rightarrow> bnd (validated (validate_listen_port True p)) (\<lambda>_.
        if p > 0 then bnd (as_ctl_error (get_used_listen_ports nid)) (\<lambda>used.
          if p \<in> set used - {0} then raise (Dn42CtlError ''ListenPort in use'') else ret p)
        else ret p))"

text \<open>The WireGuard part of a new iBGP peer: backend, port, keys, local address, allowed IPs.\<close>

definition ibgp_wg_part ::
  "string \<Rightarrow> string option \<Rightarrow> int option \<Rightarrow> int \<Rightarrow> string \<Rightarrow> string option \<Rightarrow> string option \<Rightarrow> string option
   \<Rightarrow> string list option \<Rightarrow> (string \<times> int \<times> (string \<times> string) \<times> string \<times> string list) wop" where
  "ibgp_wg_part nid net_backend listen_port babel_rxcost babel_type wg_private_key wg_public_key local_lla allowed_ips =
     bnd (normalize_net_backend (or_else net_backend ''networkd'')) (\<lambda>backend.
     bnd (ibgp_listen_port nid listen_port) (\<lambda>port.
     bnd (validated (validate_rxcost babel_rxcost)) (\<lambda>_.
     bnd (validated (validate_babel_type babel_type)) (\<lambda>_.
     bnd (resolve_wg_keypair wg_private_key wg_public_key) (\<lambda>keys.
     bnd (lla_or_random local_lla) (\<lambda>lla.
     let ips = (case allowed_ips of None \<Rightarrow> IBGP_ALLOWED_IPS | Some l \<Rightarrow> l) in
     bnd (validated (validate_allowed_ips_list ips)) (\<lambda>_.
     ret (backend, port, keys, lla, ips))))))))"

definition create_ibgp_peer ::
  "AppConfig \<Rightarrow> string \<Rightarrow> string \<Rightarrow> bool \<Rightarrow> string option \<Rightarrow> string option \<Rightarrow> string option \<Rightarrow> string option
   \<Rightarrow> int \<Rightarrow> string \<Rightarrow> int option \<Rightarrow> string option \<Rightarrow> string option \<Rightarrow> string option \<Rightarrow> string option \<Rightarrow> bool
   \<Rightarrow> string list option \<Rightarrow> string option \<Rightarrow> PeerResult wop" where
  "create_ibgp_peer config name peer_ip has_wg peer_public_key endpoint peer_lla net_backend babel_rxcost babel_type
     listen_port wg_private_key wg_public_key local_lla node_id render_files allowed_ips remote_node_id =
   (let nid = or_else node_id (ac_node_id config) in
   bnd (open_db_and_ensure_node nid) (\<lambda>_. closing (
     bnd (lift_result (sanitize_name name)) (\<lambda>peer_name.
     let ifname = ''wg_'' @ peer_name in
     if length ifname > 15 then raise (Dn42CtlError ''interface name too long'')
     else
     bnd (if has_wg
          then ibgp_wg_part nid net_backend listen_port babel_rxcost babel_type wg_private_key wg_public_key local_lla allowed_ips
          else ret (''networkd'', 0, ([], []), [],
                    case allowed_ips of None \<Rightarrow> IBGP_ALLOWED_IPS | Some l \<Rightarrow> l)) (\<lambda>part.
     case part of (backend, port, keys, lla, ips) \<Rightarrow>
     bnd (as_ctl_error (insert_ibgp_peer \<lparr> p_node_id = nid, p_ifname = ifname, p_wg_private_key = fst keys,
            p_wg_public_key = snd keys, p_peer_public_key = Some (or_else peer_public_key []),
            p_endpoint = Some (or_else endpoint []), p_local_lla = lla, p_peer_lla = Some (or_else peer_lla []),
            p_listen_port = port, p_allowed_ips = ips, p_net_backend = backend, p_name = peer_name,
            p_babel_rxcost = babel_rxcost, p_peer_ip = Some peer_ip, p_has_wg = has_wg,
            p_babel_type = babel_type, p_remote_node_id = remote_node_id \<rparr>)) (\<lambda>_.
     bnd (if render_files
          then bnd (write_bird_ibgp_peer config peer_name ifname peer_ip) (\<lambda>g1.
               if has_wg
               then bnd (write_net_backend_files config backend ifname (fst keys) port (or_else peer_public_key [])
                           (or_else endpoint []) ips lla (or_else peer_lla [])) (\<lambda>g2.
                    bnd (regenerate_babel_conf config nid) (\<lambda>babel. ret (g1 @ g2 @ [babel])))
               else ret g1)
          else ret []) (\<lambda>generated.
     ret \<lparr> pr_ifname = ifname, pr_listen_port = port, pr_wg_public_key = snd keys, pr_local_lla = lla,
           pr_generated_files = generated \<rparr>)))))))"

definition delete_ibgp_peer :: "AppConfig \<Rightarrow> string \<Rightarrow> string option \<Rightarrow> bool \<Rightarrow> DeleteResult wop" where
  "delete_ibgp_peer config name node_id render_files = bnd open_db (\<lambda>_. closing (
     let nid = or_else node_id (ac_node_id config) in
     bnd (lift_result (sanitize_name name)) (\<lambda>peer_name.
     bnd (as_ctl_error (get_ibgp_peer nid peer_name)) (\<lambda>row. case row of
       None \<Rightarrow> raise (Dn42CtlError ''iBGP peer does not exist'')
     | Some r \<Rightarrow>
       bnd (as_ctl_error (db_delete_ibgp_peer nid peer_name)) (\<lambda>_.
       bnd (if render_files
            then bnd (if p_has_wg r
                      then bnd (lift_result (peer_files_for_backend config (p_ifname r) (p_net_backend r) ''ibgp'' (Some peer_name)))
                             (\<lambda>fs. ret (filter (\<lambda>p. p \<noteq> ac_bird_babel_conf_path config) fs))
                      else ret [bird_peer_path config (''ibgp_'' @ peer_name)]) delete_files_and_collect_status
            else ret ([], [], [])) (\<lambda>st. case st of (deleted, missing, failed) \<Rightarrow>
       bnd (if render_files \<and> p_has_wg r
            then bnd (regenerate_babel_conf config nid) (\<lambda>babel. ret [babel]) else ret []) (\<lambda>regenerated.
       ret \<lparr> dr_kind = ''ibgp'', dr_peer_asn = None, dr_name = Some peer_name, dr_deleted_files = deleted,
             dr_missing_files = missing, dr_regenerated_files = regenerated, dr_failed_files = failed \<rparr>)))))))"

definition modify_ibgp_peer ::
  "AppConfig \<Rightarrow> string \<Rightarrow> string \<Rightarrow> string \<Rightarrow> string \<Rightarrow> string \<Rightarrow> int \<Rightarrow> string \<Rightarrow> string \<Rightarrow> int option
   \<Rightarrow> string option \<Rightarrow> bool \<Rightarrow> string list option \<Rightarrow> string option unset \<Rightarrow> PeerResult wop" where
  "modify_ibgp_peer config name peer_public_key endpoint peer_lla net_backend babel_rxcost babel_type peer_ip
     listen_port node_id render_files allowed_ips remote_node_id =
   bnd (normalize_net_backend net_backend) (\<lambda>backend.
   bnd (validated (validate_rxcost babel_rxcost)) (\<lambda>_.
   bnd (validated (validate_babel_type babel_type)) (\<lambda>_.
   let nid = or_else node_id (ac_node_id config) in
   bnd (open_db_and_ensure_node nid) (\<lambda>_. closing (
     bnd (lift_result (sanitize_name name)) (\<lambda>peer_name.
     bnd (as_ctl_error (get_ibgp_peer nid peer_name)) (\<lambda>row. case row of
       None \<Rightarrow> raise (Dn42CtlError ''iBGP peer does not exist'')
     | Some r \<Rightarrow>
       if \<not> p_has_wg r then raise (Dn42CtlError ''iBGP peer has no WireGuard'')
       else
       bnd (check_new_port nid listen_port (p_listen_port r)) (\<lambda>port.
       let ips = (case allowed_ips of None \<Rightarrow> stored_allowed_ips (p_allowed_ips r) | Some l \<Rightarrow> l) in
       bnd (validated (validate_allowed_ips_list ips)) (\<lambda>_.
       bnd (as_ctl_error (update_ibgp_peer nid peer_name (Some peer_public_key) (Some endpoint) (Some peer_lla) port ips
              backend babel_rxcost (Some peer_ip) babel_type remote_node_id)) (\<lambda>_.
       bnd (if render_files
            then bnd (write_bird_ibgp_peer config peer_name (p_ifname r) peer_ip) (\<lambda>g1.
                 bnd (write_net_backend_files config backend (p_ifname r) (p_wg_private_key r) port peer_public_key
                        endpoint ips (p_local_lla r) peer_lla) (\<lambda>g2.
                 bnd (regenerate_babel_conf config nid) (\<lambda>babel. ret (g1 @ g2 @ [babel]))))
            else ret []) (\<lambda>generated.
       ret \<lparr> pr_ifname = p_ifname r, pr_listen_port = port, pr_wg_public_key = p_wg_public_key r,
             pr_local_lla = p_local_lla r, pr_generated_files = generated \<rparr>)))))))))))"

section \<open>Lemmas\<close>

lemma read_only_validated [fileop]: "read_only (validated r)"
  by (auto simp: validated_def intro: atomic split: sum.splits exn.splits)

lemma read_only_helpers [fileop]:
  "read_only (randint a b)" "read_only (normalize_net_backend s)"
  "read_only (pubkey_from_private k)" "read_only generate_wg_keypair" "read_only (resolve_wg_keypair x y)"
  "read_only generate_random_lla" "read_only (lla_or_random x)" "read_only (rendered t)"
proof -
  show r: "read_only (randint a b)" for a b by (simp add: read_only_def randint_def)
  show "read_only (normalize_net_backend s)" unfolding normalize_net_backend_def by (rule fileop)
  show p: "read_only (pubkey_from_private k)" for k by (simp add: read_only_def pubkey_from_private_def split: option.splits)
  show g: "read_only generate_wg_keypair"
    unfolding generate_wg_keypair_def
  proof (rule read_only_bnd)
    show "read_only (\<lambda>w. case wg_genkey (env w) (tick w) of
            None \<Rightarrow> (Inl (Dn42CtlError ''wg genkey failed''), next_tick w)
          | Some k \<Rightarrow> (Inr (strip k), next_tick w))"
      by (simp add: read_only_def split: option.splits)
  qed (auto intro!: p atomic)
  show "read_only (resolve_wg_keypair x y)"
    unfolding resolve_wg_keypair_def by (auto intro!: g atomic split: option.splits)
  show l: "read_only generate_random_lla" unfolding generate_random_lla_def by (auto intro!: r atomic)
  show "read_only (lla_or_random x)" unfolding lla_or_random_def by (auto intro!: l atomic split: option.splits)
  show "read_only (rendered t)"
    by (auto simp: rendered_def intro: atomic split: sum.splits exn.splits)
qed

lemma read_only_pick [fileop]: "read_only (pick_loop n used c)" "read_only (pick_unused_port used)"
proof -
  show l: "read_only (pick_loop n used c)" for n c
    by (induction n arbitrary: c) (auto intro!: read_only_bnd read_only_helpers(1) atomic)
  show "read_only (pick_unused_port used)"
    unfolding pick_unused_port_def by (auto intro!: l read_only_bnd read_only_helpers(1))
qed

lemma read_only_as_ctl [fileop]: "read_only m \<Longrightarrow> read_only (as_ctl_error m)"
  unfolding as_ctl_error_def reraise_as_def by (auto intro!: read_only_try atomic)

lemma read_only_written [fileop]:
  "read_only (write_net_backend_files c be i k p pk ep ips l pl)" "read_only (write_bird_bgp_peer c i pl a)"
  "read_only (write_bird_ibgp_peer c n i ip)" "read_only (regenerate_babel_conf c n)"
  unfolding write_net_backend_files_def write_bird_bgp_peer_def write_bird_ibgp_peer_def regenerate_babel_conf_def
  by (auto intro!: fileop atomic)

lemma pick_loop_spec: "op_spec (pick_loop n used c) (\<lambda>d x d'. d' = d \<and> int x \<notin> set used \<and> (x = c \<or> 30000 \<le> x \<and> x \<le> 49999))"
proof -
  have "pick_loop n used c w = (Inr x, w') \<Longrightarrow> int x \<notin> set used \<and> (x = c \<or> 30000 \<le> x \<and> x \<le> 49999)" for w w' x
  proof (induction n arbitrary: c w)
    case 0
    then show ?case by (auto simp: ret_def bnd_def randint_def raise_def split: if_splits)
  next
    case (Suc n)
    show ?case
    proof (cases "int c \<in> set used")
      case True
      let ?c = "30000 + random_nat (env w) (tick w) mod 20000"
      have "?c \<le> 49999" using mod_less_divisor [of 20000 "random_nat (env w) (tick w)"] by linarith
      moreover from True Suc.prems have "pick_loop n used ?c (next_tick w) = (Inr x, w')"
        by (simp add: bnd_def randint_def WG_PORT_RANGE_def)
      ultimately show ?thesis using Suc.IH by fastforce
    next
      case False
      with Suc.prems show ?thesis by (simp add: ret_def)
    qed
  qed
  moreover have "read_only (pick_loop n used c)" by (rule read_only_pick)
  ultimately show ?thesis
    unfolding op_spec_def using read_onlyD(3) [of "pick_loop n used c"] by (metis prod.collapse)
qed

lemma outcome_pick [services]:
  "outcome (pick_unused_port used) (\<lambda>d x d'. d' = d \<and> int x \<notin> set used \<and> 30000 \<le> x \<and> x \<le> 49999) (\<lambda>d d'. d' = d)"
proof (rule outcome_read [OF read_only_pick(2)])
  have "op_spec (randint 30000 49999) (\<lambda>d x d'. d' = d \<and> 30000 \<le> x \<and> x \<le> 49999)"
  proof -
    have "random_nat (env w) (tick w) mod 20000 \<le> 19999" for w :: world
      using mod_less_divisor [of 20000 "random_nat (env w) (tick w)"] by linarith
    then show ?thesis by (auto simp: op_spec_def randint_def)
  qed
  from op_spec_bnd [OF this pick_loop_spec]
  show "op_spec (pick_unused_port used) (\<lambda>d x d'. d' = d \<and> int x \<notin> set used \<and> 30000 \<le> x \<and> x \<le> 49999)"
    unfolding pick_unused_port_def WG_PORT_RANGE_def fst_conv snd_conv
    by (rule op_spec_conseq) auto
qed

lemma outcome_validated [services]: "outcome (validated r) (\<lambda>d x d'. r = Inr x \<and> d' = d) (\<lambda>d d'. d' = d)"
  by (auto simp: outcome_def validated_def ret_def raise_def split: sum.splits exn.splits)

lemma outcome_quiet_helpers [services]:
  "outcome (resolve_wg_keypair x y) (\<lambda>d _ d'. d' = d) (\<lambda>d d'. d' = d)"
  "outcome (lla_or_random z) (\<lambda>d _ d'. d' = d) (\<lambda>d d'. d' = d)"
  "outcome (normalize_net_backend s) (\<lambda>d b d'. validate_net_backend s = Inr b \<and> d' = d) (\<lambda>d d'. d' = d)"
  "outcome (write_net_backend_files c be i k p pk ep ips l pl) (\<lambda>d _ d'. d' = d) (\<lambda>d d'. d' = d)"
  "outcome (write_bird_bgp_peer c i pl a) (\<lambda>d _ d'. d' = d) (\<lambda>d d'. d' = d)"
  "outcome (write_bird_ibgp_peer c n i ip) (\<lambda>d _ d'. d' = d) (\<lambda>d d'. d' = d)"
  "outcome (regenerate_babel_conf c n) (\<lambda>d _ d'. d' = d) (\<lambda>d d'. d' = d)"
  "outcome (delete_files_and_collect_status fs) (\<lambda>d _ d'. d' = d) (\<lambda>d d'. d' = d)"
  unfolding normalize_net_backend_def
  by (rule outcome_quiet fileop outcome_validated)+

lemma outcome_reads [services]:
  "outcome (get_bgp_peer n a) (\<lambda>d x d'. x = find_bgp n a d \<and> d' = d) (\<lambda>d d'. d' = d)"
  "outcome (get_ibgp_peer n m) (\<lambda>d x d'. x = find_ibgp n m d \<and> d' = d) (\<lambda>d d'. d' = d)"
  "outcome (get_used_listen_ports n) (\<lambda>d x d'. d' = d \<and> set x =
     p_listen_port ` {r \<in> set (bgp_peers d). p_node_id r = n} \<union>
     p_listen_port ` {r \<in> set (ibgp_peers d). p_node_id r = n}) (\<lambda>d d'. d' = d)"
  by (rule outcome_read, rule read_only_methods, rule read_specs used_ports_spec)+

lemma outcome_open_db [services]: "outcome open_db (\<lambda>d _ d'. migrated d \<longrightarrow> d' = d) (\<lambda>d d'. migrated d \<longrightarrow> d' = d)"
  unfolding open_db_def by (rule services)+

lemma outcome_open_node [services]:
  "outcome (open_db_and_ensure_node n) (\<lambda>d _ d'. migrated d \<longrightarrow> (\<exists>now. upsert_node_row n now d = Inr ((), d')))
     (\<lambda>d d'. migrated d \<longrightarrow> d' = d)"
proof -
  have "outcome (ensure_node n) (\<lambda>d _ d'. \<exists>now. upsert_node_row n now d = Inr ((), d')) (\<lambda>d d'. d' = d)"
    by (rule outcome_atomic [OF atomic_peer_methods(1) ensure_node_spec])
  moreover have "outcome (case e of DatabaseError m \<Rightarrow> bnd (modify_state close_conn) (\<lambda>_. raise (Dn42CtlError m)) | _ \<Rightarrow> raise e)
      (\<lambda>d x d'. False) (\<lambda>d d'. d' = d)" for e
    by (cases e) (simp_all add: outcome_def bnd_def modify_state_def raise_def close_conn_def)
  ultimately have "outcome (try_except (ensure_node n) (\<lambda>e. case e of
       DatabaseError m \<Rightarrow> bnd (modify_state close_conn) (\<lambda>_. raise (Dn42CtlError m))
     | _ \<Rightarrow> raise e)) (\<lambda>d _ d'. \<exists>now. upsert_node_row n now d = Inr ((), d')) (\<lambda>d d'. d' = d)"
    by (rule outcome_conseq [OF outcome_try]) auto
  from outcome_bnd [OF outcome_open_db this] show ?thesis
    unfolding open_db_and_ensure_node_def by (rule outcome_conseq) auto
qed

lemma outcome_closing [services]: "outcome m R Q \<Longrightarrow> outcome (closing m) R Q"
  unfolding closing_def by (rule services)

lemma triple_closing [wp]: "triple P m R E \<Longrightarrow> triple P (closing m) R E"
  unfolding closing_def by (rule wp)

lemma outcome_writes [services]:
  "outcome (insert_bgp_peer rec) (\<lambda>d _ d'. \<exists>now now' d1.
     insert_bgp_row rec now d = Inr ((), d1) \<and> d' = after_event (p_node_id rec) SYNC_EVENT_DESIRED now' d1) (\<lambda>d d'. d' = d)"
  "outcome (insert_ibgp_peer rec') (\<lambda>d _ d'. \<exists>now now' d1.
     insert_ibgp_row rec' now d = Inr ((), d1) \<and> d' = after_event (p_node_id rec') SYNC_EVENT_DESIRED now' d1) (\<lambda>d d'. d' = d)"
  "outcome (update_bgp_peer n a pk ep lla port ips be) (\<lambda>d _ d'. \<exists>now now' c d1.
     update_bgp_rows n a pk ep lla port ips be now d = Inr (c, d1) \<and> 0 < c
     \<and> d' = after_event n SYNC_EVENT_DESIRED now' d1) (\<lambda>d d'. d' = d)"
  "outcome (update_ibgp_peer n m pk ep lla port ips be rx ip bt rm) (\<lambda>d _ d'. \<exists>now now' c d1.
     update_ibgp_rows n m pk ep lla port ips be rx ip bt rm now d = Inr (c, d1) \<and> 0 < c
     \<and> d' = after_event n SYNC_EVENT_DESIRED now' d1) (\<lambda>d d'. d' = d)"
  by (rule outcome_atomic, rule atomic_peer_methods, rule insert_bgp_peer_spec insert_ibgp_peer_spec
      update_bgp_peer_spec update_ibgp_peer_spec)+

lemma outcome_deletes [services]:
  "outcome (db_delete_bgp_peer n a) (\<lambda>d x d'. x = find_bgp n a d \<and>
     (case find_bgp n a d of None \<Rightarrow> d' = d
      | Some _ \<Rightarrow> \<exists>c now d1. delete_bgp_rows n a d = Inr (c, d1) \<and> d' = after_event n SYNC_EVENT_DESIRED now d1)) (\<lambda>d d'. d' = d)"
  "outcome (db_delete_ibgp_peer n m) (\<lambda>d x d'. x = find_ibgp n m d \<and>
     (case find_ibgp n m d of None \<Rightarrow> d' = d
      | Some _ \<Rightarrow> \<exists>c now d1. delete_ibgp_rows n m d = Inr (c, d1) \<and> d' = after_event n SYNC_EVENT_DESIRED now d1)) (\<lambda>d d'. d' = d)"
  by (rule outcome_atomic, rule atomic_peer_methods, rule db_delete_bgp_peer_spec db_delete_ibgp_peer_spec)+

end
