(* ===== verification/Names.thy ===== *)
theory Names
  imports Peers
begin

text \<open>
  The names of iBGP peers: what \<open>sanitize_name\<close> of \<open>services/core.py\<close> returns. The name goes
  into an interface name, a protocol name of BIRD and a file name.
\<close>

abbreviation under :: char where "under \<equiv> CHR ''_''"

definition single_unders :: "string \<Rightarrow> bool" where
  "single_unders s = successively (\<lambda>a b. \<not> (a = under \<and> b = under)) s"

lemma sub_runs_id: "\<forall>c \<in> set s. \<not> p c \<Longrightarrow> sub_runs p r s = s"
  by (induction s) auto

lemma sub_runs_chars: "c \<in> set (sub_runs p r s) \<Longrightarrow> c = r \<or> c \<in> set s \<and> \<not> p c"
  by (induction p r s rule: sub_runs.induct) (auto split: if_splits dest: set_dropWhileD)

lemma single_unders_sub: "single_unders (sub_runs (\<lambda>c. c = under) under s)"
proof (induction "\<lambda>c. c = under" under s rule: sub_runs.induct)
  case (2 c cs)
  let ?s = "sub_runs (\<lambda>c. c = under) under"
  show ?case
  proof (cases "c = under")
    case True
    let ?d = "dropWhile (\<lambda>c. c = under) cs"
    have "hd (?s ?d) \<noteq> under" if "?s ?d \<noteq> []"
      using hd_dropWhile_not [of "\<lambda>c. c = under" cs] that by (cases ?d) auto
    moreover from True have "?s (c # cs) = under # ?s ?d" by simp
    moreover from True have "single_unders (?s ?d)" by (rule 2(1))
    ultimately show ?thesis by (cases "?s ?d") (simp_all add: single_unders_def)
  next
    case False
    with 2 show ?thesis by (auto simp: single_unders_def successively_Cons)
  qed
qed (simp add: single_unders_def)

lemma sub_single_unders: "single_unders s \<Longrightarrow> sub_runs (\<lambda>c. c = under) under s = s"
proof (induction s)
  case (Cons c s)
  then have "sub_runs (\<lambda>c. c = under) under s = s" by (auto simp: single_unders_def successively_Cons)
  moreover have "c = under \<Longrightarrow> dropWhile (\<lambda>c. c = under) s = s"
    using Cons.prems by (cases s) (auto simp: single_unders_def)
  ultimately show ?case by auto
qed simp

lemma single_unders_rev: "single_unders (rev s) = single_unders s"
  unfolding single_unders_def successively_rev by (rule arg_cong [where f = "\<lambda>P. successively P s"]) auto

lemma single_unders_dropWhile: "single_unders s \<Longrightarrow> single_unders (dropWhile p s)"
  by (induction s) (auto simp: single_unders_def successively_Cons)

lemma single_unders_strip: "single_unders s \<Longrightarrow> single_unders (strip_chars c s)"
  unfolding strip_chars_def single_unders_rev
  by (intro single_unders_dropWhile) (simp add: single_unders_rev single_unders_dropWhile)

lemma strip_chars_set: "set (strip_chars c s) \<subseteq> set s"
  by (auto simp: strip_chars_def dest!: set_dropWhileD)

lemma strip_chars_ends:
  assumes "strip_chars c s \<noteq> []"
  shows "hd (strip_chars c s) \<noteq> c" and "last (strip_chars c s) \<noteq> c"
proof -
  let ?l = "dropWhile (\<lambda>x. x = c) s" and ?r = "dropWhile (\<lambda>x. x = c) (rev (dropWhile (\<lambda>x. x = c) s))"
  from assms have ne: "?r \<noteq> []" by (simp add: strip_chars_def)
  from hd_dropWhile_not [OF ne] show "last (strip_chars c s) \<noteq> c" by (simp add: strip_chars_def last_rev ne)
  obtain z where eq: "?l = strip_chars c s @ z"
    unfolding strip_chars_def by (metis rev_append rev_rev_ident takeWhile_dropWhile_id)
  have "hd ?l = hd (strip_chars c s)" and "?l \<noteq> []"
    unfolding eq by (simp_all add: assms)
  with hd_dropWhile_not [of "\<lambda>x. x = c" s] show "hd (strip_chars c s) \<noteq> c" by simp
qed

lemma strip_chars_id: "(s \<noteq> [] \<Longrightarrow> hd s \<noteq> c \<and> last s \<noteq> c) \<Longrightarrow> strip_chars c s = s"
  by (cases "s = []") (simp_all add: strip_chars_def dropWhile_id hd_rev)

lemma lower_char_upper: "65 \<le> code_point c \<Longrightarrow> code_point c \<le> 90 \<Longrightarrow> code_point (lower_char c) = code_point c + 32"
  by (simp add: lower_char_def Let_def code_point_def)

lemma lower_char_same: "\<not> (65 \<le> code_point c \<and> code_point c \<le> 90) \<Longrightarrow> code_point c < 128 \<Longrightarrow> lower_char c = c"
  by (auto simp: lower_char_def Let_def)

lemma code_point_inject: "code_point c = code_point d \<longleftrightarrow> c = d"
  by (simp add: code_point_def)

lemma under_code: "c = under \<longleftrightarrow> code_point c = 95"
  using code_point_inject [of c under] by (simp add: code_point_def)

lemma name_char_code: "is_name_char c \<longleftrightarrow> code_point c \<in> {48..57} \<union> {65..90} \<union> {97..122} \<union> {95}"
  by (auto simp: is_name_char_def is_alnum_def under_code Let_def)

lemma name_char_lower:
  assumes "is_name_char c"
  shows "is_name_char (lower_char c)" "lower_char (lower_char c) = lower_char c" "lower_char c = under \<longleftrightarrow> c = under"
    "\<not> is_space (lower_char c)"
proof -
  from assms have c: "code_point c \<in> {48..57} \<union> {65..90} \<union> {97..122} \<union> {95}" by (simp add: name_char_code)
  then have l: "code_point (lower_char c) \<in> {48..57} \<union> {97..122} \<union> {95}" "code_point (lower_char c) = 95 \<longleftrightarrow> code_point c = 95"
    using lower_char_upper [of c] lower_char_same [of c]
    by (cases "65 \<le> code_point c \<and> code_point c \<le> 90"; auto)+
  then show "is_name_char (lower_char c)" "lower_char c = under \<longleftrightarrow> c = under" "\<not> is_space (lower_char c)"
    by (auto simp: name_char_code under_code is_space_def Let_def)
  show "lower_char (lower_char c) = lower_char c" using l(1) by (intro lower_char_same) auto
qed

text \<open>A name as it is stored: non-empty, in \<open>[a-z0-9_]\<close>, without underscores at its ends or in a row.\<close>

definition clean_name :: "string \<Rightarrow> bool" where
  "clean_name m \<longleftrightarrow> m \<noteq> [] \<and> (\<forall>c \<in> set m. is_name_char c \<and> lower_char c = c)
     \<and> hd m \<noteq> under \<and> last m \<noteq> under \<and> single_unders m"

lemma sanitize_clean: "sanitize_name name = Inr m \<Longrightarrow> clean_name m"
proof -
  assume a: "sanitize_name name = Inr m"
  define t where "t = sub_runs (\<lambda>c. \<not> is_name_char c) under (strip name)"
  define u where "u = strip_chars under (sub_runs (\<lambda>c. c = under) under t)"
  from a have m: "m = lower u" and ne: "u \<noteq> []"
    by (auto simp: sanitize_name_def t_def u_def Let_def split: if_splits)
  have "\<forall>c \<in> set t. is_name_char c"
    unfolding t_def using sub_runs_chars by (fastforce simp: is_name_char_def)
  then have u: "\<forall>c \<in> set u. is_name_char c"
    unfolding u_def using strip_chars_set sub_runs_chars by (fastforce simp: is_name_char_def)
  have s: "single_unders u" unfolding u_def by (intro single_unders_strip single_unders_sub)
  have ends: "hd u \<noteq> under" "last u \<noteq> under" using strip_chars_ends ne unfolding u_def by blast+
  have "single_unders m"
    using s u unfolding m lower_def single_unders_def successively_map
    by (auto elim!: successively_mono simp: name_char_lower)
  then show ?thesis
    using u ends ne name_char_lower unfolding clean_name_def m lower_def
    by (auto simp: hd_map last_map)
qed

lemma clean_sanitize: "clean_name m \<Longrightarrow> sanitize_name m = Inr m"
proof -
  assume c: "clean_name m"
  then have chars: "\<forall>c \<in> set m. is_name_char c \<and> lower_char c = c \<and> \<not> is_space c"
    using name_char_lower(4) by (fastforce simp: clean_name_def)
  then have "strip m = m" using c by (intro strip_trimmed) (auto simp: clean_name_def)
  moreover have "sub_runs (\<lambda>c. \<not> is_name_char c) under m = m" using chars by (intro sub_runs_id) auto
  moreover have "sub_runs (\<lambda>c. c = under) under m = m" "strip_chars under m = m"
    using c by (auto simp: clean_name_def intro!: sub_single_unders strip_chars_id)
  moreover have "lower m = m" unfolding lower_def using chars by (intro map_idI) auto
  ultimately show ?thesis using c by (simp add: sanitize_name_def clean_name_def)
qed

text \<open>
  \<open>sanitize_name\<close> returns only non-empty names of lower-case ASCII letters, digits and
  single underscores with no underscore at either end, so a name can hold no path separator,
  no blank and no line break; and it leaves such a name alone, so that the name a peer was
  stored under finds it again.
\<close>

theorem sanitize_name_clean:
  "(sanitize_name name = Inr m \<longrightarrow> clean_name m) \<and> (clean_name m \<longrightarrow> sanitize_name m = Inr m)"
  using sanitize_clean clean_sanitize by blast

theorem sanitize_name_clean_witness: "clean_name ''foo_1'' \<and> sanitize_name '' Foo--1_'' = Inr ''foo_1'' \<and> sanitize_name ''foo_1'' = Inr ''foo_1''"
proof -
  have "sanitize_name '' Foo--1_'' = Inr ''foo_1''"
    by (simp add: sanitize_name_def is_name_char_def is_alnum_def strip_chars_def eval_strings char_of_def bit_iff_odd)
  with sanitize_name_clean [of "'' Foo--1_''" "''foo_1''"] show ?thesis by blast
qed

end
