(* ===== verification/Peer_Effects.thy ===== *)
theory Peer_Effects
  imports Names "HOL-Library.Multiset"
begin

text \<open>
  What the peer services of \<open>services/bgp.py\<close> and \<open>services/ibgp.py\<close> leave in the database,
  when they return and when they raise: the new or changed row with its notification, the
  listen ports, and the files of a deleted peer.
\<close>

section \<open>Effects on the database\<close>

definition used_ports :: "string \<Rightarrow> database \<Rightarrow> int set" where
  "used_ports n d = p_listen_port ` {r \<in> set (bgp_peers d). p_node_id r = n} \<union>
     p_listen_port ` {r \<in> set (ibgp_peers d). p_node_id r = n}"

lemma upsert_node_row_frame: "upsert_node_row n now d = Inr (u, d') \<Longrightarrow>
   bgp_peers d' = bgp_peers d \<and> ibgp_peers d' = ibgp_peers d \<and> managed_nodes d' = managed_nodes d"
  by (auto simp: upsert_node_row_def split: if_splits)

lemma outcome_ibgp_listen_port [services]:
  "outcome (ibgp_listen_port n lp) (\<lambda>d p d'. d' = d \<and> 0 \<le> p \<and> p \<le> 65535 \<and> (p = 0 \<or> p \<notin> used_ports n d) \<and> (\<forall>q. lp = Some q \<longrightarrow> p = q)) (\<lambda>d d'. d' = d)"
  unfolding ibgp_listen_port_def
  by (rule outcome_conseq, (rule services)+)
    (auto simp: used_ports_def validate_listen_port_ok MAX_PORT_def split: option.splits if_splits)

lemma outcome_check_new_port [services]:
  "outcome (check_new_port n lp cur)
     (\<lambda>d p d'. d' = d \<and> 0 \<le> p \<and> p \<le> 65535 \<and> (p = 0 \<or> p = cur \<or> p \<notin> used_ports n d) \<and> (\<forall>q. lp = Some q \<longrightarrow> p = q)) (\<lambda>d d'. d' = d)"
  unfolding check_new_port_def Let_def
  by (rule outcome_conseq, (rule services)+)
    (auto simp: used_ports_def validate_listen_port_ok MAX_PORT_def split: option.splits if_splits)

lemma outcome_ibgp_wg_part [services]:
  "outcome (ibgp_wg_part n nb lp rx bt k pk lla ips)
     (\<lambda>d x d'. d' = d \<and> (let p = fst (snd x) in 0 \<le> p \<and> p \<le> 65535 \<and> (p = 0 \<or> p \<notin> used_ports n d) \<and> (\<forall>q. lp = Some q \<longrightarrow> p = q))) (\<lambda>d d'. d' = d)"
  unfolding ibgp_wg_part_def Let_def
  by (rule outcome_conseq, (rule services)+) auto

text \<open>
  Where a service may stop when it raises: before it wrote anything, after it registered the
  node, or after its whole write \<open>C\<close> was committed (a file could not be written).
\<close>

inductive stopped :: "string \<Rightarrow> (database \<Rightarrow> database \<Rightarrow> bool) \<Rightarrow> database \<Rightarrow> database \<Rightarrow> bool" for n C d where
  untouched: "stopped n C d d"
| ensured: "upsert_node_row n now d = Inr ((), d') \<Longrightarrow> stopped n C d d'"
| written: "C d d' \<Longrightarrow> stopped n C d d'"

definition bgp_created :: "string \<Rightarrow> int \<Rightarrow> int \<Rightarrow> database \<Rightarrow> database \<Rightarrow> bool" where
  "bgp_created nid asn port d d' \<longleftrightarrow> (\<exists>now0 d0 rec now d1 now'.
     upsert_node_row nid now0 d = Inr ((), d0) \<and> insert_bgp_row rec now d0 = Inr ((), d1)
     \<and> d' = after_event nid SYNC_EVENT_DESIRED now' d1
     \<and> p_node_id rec = nid \<and> p_peer_asn rec = asn \<and> p_listen_port rec = port)"

definition ibgp_created :: "string \<Rightarrow> string \<Rightarrow> bool \<Rightarrow> int \<Rightarrow> string \<Rightarrow> database \<Rightarrow> database \<Rightarrow> bool" where
  "ibgp_created nid name has_wg port ifname d d' \<longleftrightarrow> (\<exists>now0 d0 rec now d1 now'.
     upsert_node_row nid now0 d = Inr ((), d0) \<and> insert_ibgp_row rec now d0 = Inr ((), d1)
     \<and> d' = after_event nid SYNC_EVENT_DESIRED now' d1
     \<and> sanitize_name name = Inr (p_name rec) \<and> p_node_id rec = nid \<and> p_has_wg rec = has_wg
     \<and> p_listen_port rec = port \<and> p_ifname rec = ifname \<and> length ifname \<le> 15
     \<and> 0 \<le> port \<and> port \<le> 65535 \<and> (port = 0 \<or> has_wg \<and> port \<notin> used_ports nid d))"

definition bgp_modified :: "string \<Rightarrow> int \<Rightarrow> int \<Rightarrow> database \<Rightarrow> database \<Rightarrow> bool" where
  "bgp_modified nid asn port d d' \<longleftrightarrow> (\<exists>now0 d0 r pk ep lla ips be now c d1 now'.
     upsert_node_row nid now0 d = Inr ((), d0) \<and> find_bgp nid asn d0 = Some r
     \<and> update_bgp_rows nid asn pk ep lla port ips be now d0 = Inr (c, d1)
     \<and> d' = after_event nid SYNC_EVENT_DESIRED now' d1
     \<and> (port = 0 \<or> port = p_listen_port r \<or> port \<notin> used_ports nid d0))"

definition ibgp_modified :: "string \<Rightarrow> string \<Rightarrow> string option unset \<Rightarrow> int \<Rightarrow> database \<Rightarrow> database \<Rightarrow> bool" where
  "ibgp_modified nid name rm port d d' \<longleftrightarrow> (\<exists>now0 d0 m r pk ep lla ips be rx ip bt now c d1 now'.
     upsert_node_row nid now0 d = Inr ((), d0) \<and> sanitize_name name = Inr m \<and> find_ibgp nid m d0 = Some r \<and> p_has_wg r
     \<and> update_ibgp_rows nid m pk ep lla port ips be rx ip bt rm now d0 = Inr (c, d1)
     \<and> d' = after_event nid SYNC_EVENT_DESIRED now' d1
     \<and> (port = 0 \<or> port = p_listen_port r \<or> port \<notin> used_ports nid d0))"

lemma bgp_createdI:
  "upsert_node_row nid now0 d = Inr ((), d0) \<Longrightarrow> insert_bgp_row rec now d0 = Inr ((), d1) \<Longrightarrow>
   p_node_id rec = nid \<Longrightarrow> p_peer_asn rec = asn \<Longrightarrow> p_listen_port rec = port \<Longrightarrow>
   bgp_created nid asn port d (after_event nid SYNC_EVENT_DESIRED now' d1)"
  unfolding bgp_created_def by blast

lemma ibgp_createdI:
  assumes "upsert_node_row nid now0 d = Inr ((), d0)" and "insert_ibgp_row rec now d0 = Inr ((), d1)"
    and "sanitize_name name = Inr (p_name rec)" and "p_node_id rec = nid" and "p_has_wg rec = has_wg"
    and "p_listen_port rec = port" and "p_ifname rec = ifname" and "length ifname \<le> 15"
    and "0 \<le> port" and "port \<le> 65535" and "port = 0 \<or> has_wg \<and> port \<notin> used_ports nid d0"
  shows "ibgp_created nid name has_wg port ifname d (after_event nid SYNC_EVENT_DESIRED now' d1)"
proof -
  from upsert_node_row_frame [OF assms(1)] have "used_ports nid d0 = used_ports nid d" by (simp add: used_ports_def)
  with assms show ?thesis unfolding ibgp_created_def by metis
qed

lemma bgp_modifiedI:
  "upsert_node_row nid now0 d = Inr ((), d0) \<Longrightarrow> find_bgp nid asn d0 = Some r \<Longrightarrow>
   update_bgp_rows nid asn pk ep lla port ips be now d0 = Inr (c, d1) \<Longrightarrow>
   port = 0 \<or> port = p_listen_port r \<or> port \<notin> used_ports nid d0 \<Longrightarrow>
   bgp_modified nid asn port d (after_event nid SYNC_EVENT_DESIRED now' d1)"
  unfolding bgp_modified_def by metis

lemma ibgp_modifiedI:
  "upsert_node_row nid now0 d = Inr ((), d0) \<Longrightarrow> sanitize_name name = Inr m \<Longrightarrow> find_ibgp nid m d0 = Some r \<Longrightarrow> p_has_wg r \<Longrightarrow>
   update_ibgp_rows nid m pk ep lla port ips be rx ip bt rm now d0 = Inr (c, d1) \<Longrightarrow>
   port = 0 \<or> port = p_listen_port r \<or> port \<notin> used_ports nid d0 \<Longrightarrow>
   ibgp_modified nid name rm port d (after_event nid SYNC_EVENT_DESIRED now' d1)"
  unfolding ibgp_modified_def by metis

lemma stopped_written:
  "C d (after_event n k now d1) \<Longrightarrow> stopped n C d (after_event n k now d1)"
  by (rule written)

lemma bgp_created_ex:
  "upsert_node_row nid now0 d = Inr ((), d0) \<Longrightarrow> insert_bgp_row rec now d0 = Inr ((), d1) \<Longrightarrow>
   p_node_id rec = nid \<Longrightarrow> p_peer_asn rec = asn \<Longrightarrow>
   \<exists>p. bgp_created nid asn p d (after_event nid SYNC_EVENT_DESIRED now' d1)"
  by (blast intro: bgp_createdI)

lemma ibgp_created_ex:
  "upsert_node_row nid now0 d = Inr ((), d0) \<Longrightarrow> insert_ibgp_row rec now d0 = Inr ((), d1) \<Longrightarrow>
   sanitize_name name = Inr (p_name rec) \<Longrightarrow> p_node_id rec = nid \<Longrightarrow> p_has_wg rec = has_wg \<Longrightarrow>
   length (p_ifname rec) \<le> 15 \<Longrightarrow> 0 \<le> p_listen_port rec \<Longrightarrow> p_listen_port rec \<le> 65535 \<Longrightarrow>
   p_listen_port rec = 0 \<or> has_wg \<and> p_listen_port rec \<notin> used_ports nid d0 \<Longrightarrow>
   \<exists>p i. ibgp_created nid name has_wg p i d (after_event nid SYNC_EVENT_DESIRED now' d1)"
  by (blast intro: ibgp_createdI)

lemma bgp_modified_ex:
  "upsert_node_row nid now0 d = Inr ((), d0) \<Longrightarrow> find_bgp nid asn d0 = Some r \<Longrightarrow>
   update_bgp_rows nid asn pk ep lla port ips be now d0 = Inr (c, d1) \<Longrightarrow>
   port = 0 \<or> port = p_listen_port r \<or> port \<notin> used_ports nid d0 \<Longrightarrow>
   \<exists>p. bgp_modified nid asn p d (after_event nid SYNC_EVENT_DESIRED now' d1)"
  by (blast intro: bgp_modifiedI)

lemma ibgp_modified_ex:
  "upsert_node_row nid now0 d = Inr ((), d0) \<Longrightarrow> sanitize_name name = Inr m \<Longrightarrow> find_ibgp nid m d0 = Some r \<Longrightarrow> p_has_wg r \<Longrightarrow>
   update_ibgp_rows nid m pk ep lla port ips be rx ip bt rm now d0 = Inr (c, d1) \<Longrightarrow>
   port = 0 \<or> port = p_listen_port r \<or> port \<notin> used_ports nid d0 \<Longrightarrow>
   \<exists>p. ibgp_modified nid name rm p d (after_event nid SYNC_EVENT_DESIRED now' d1)"
  by (blast intro: ibgp_modifiedI)

lemma outcome_create_bgp:
  "outcome (create_bgp_peer c asn pk ep lla nb lp k wk l n rf ips)
     (\<lambda>d res d'. migrated d \<longrightarrow> bgp_created (or_else n (ac_node_id c)) asn (pr_listen_port res) d d')
     (\<lambda>d d'. migrated d \<longrightarrow> stopped (or_else n (ac_node_id c)) (\<lambda>d d'. \<exists>p. bgp_created (or_else n (ac_node_id c)) asn p d d') d d')"
  unfolding create_bgp_peer_def bgp_listen_port_def Let_def
  by (rule outcome_triple, rule triple_pre, (rule wp | rule triple_outcome, rule services)+)
    (auto intro!: untouched stopped_written intro: bgp_createdI bgp_created_ex ensured)

lemma outcome_create_ibgp:
  "outcome (create_ibgp_peer c name ip has_wg pk ep lla nb rx bt lp k wk l n rf ips rm)
     (\<lambda>d res d'. migrated d \<longrightarrow> ibgp_created (or_else n (ac_node_id c)) name has_wg (pr_listen_port res) (pr_ifname res) d d')
     (\<lambda>d d'. migrated d \<longrightarrow> stopped (or_else n (ac_node_id c))
        (\<lambda>d d'. \<exists>p i. ibgp_created (or_else n (ac_node_id c)) name has_wg p i d d') d d')"
  unfolding create_ibgp_peer_def Let_def
  by (rule outcome_triple, rule triple_pre, (rule wp | rule triple_outcome, rule services)+)
    (auto simp: Let_def intro!: untouched stopped_written intro: ibgp_createdI ibgp_created_ex ensured)

lemma outcome_modify_bgp:
  "outcome (modify_bgp_peer c asn pk ep lla nb lp n rf ips)
     (\<lambda>d res d'. migrated d \<longrightarrow> bgp_modified (or_else n (ac_node_id c)) asn (pr_listen_port res) d d')
     (\<lambda>d d'. migrated d \<longrightarrow> stopped (or_else n (ac_node_id c)) (\<lambda>d d'. \<exists>p. bgp_modified (or_else n (ac_node_id c)) asn p d d') d d')"
  unfolding modify_bgp_peer_def Let_def
  by (rule outcome_triple, rule triple_pre, (rule wp | rule triple_outcome, rule services)+)
    (auto intro!: untouched stopped_written intro: bgp_modifiedI bgp_modified_ex ensured)

lemma outcome_modify_ibgp:
  "outcome (modify_ibgp_peer c name pk ep lla nb rx bt ip lp n rf ips rm)
     (\<lambda>d res d'. migrated d \<longrightarrow> ibgp_modified (or_else n (ac_node_id c)) name rm (pr_listen_port res) d d')
     (\<lambda>d d'. migrated d \<longrightarrow> stopped (or_else n (ac_node_id c)) (\<lambda>d d'. \<exists>p. ibgp_modified (or_else n (ac_node_id c)) name rm p d d') d d')"
  unfolding modify_ibgp_peer_def Let_def
  by (rule outcome_triple, rule triple_pre, (rule wp | rule triple_outcome, rule services)+)
    (auto intro!: untouched stopped_written intro: ibgp_modifiedI ibgp_modified_ex ensured)

section \<open>Listen ports\<close>

text \<open>
  The tunnels of a node with their ports, keyed by AS number or by name. No two tunnels of a
  node listen on the same port; port 0 stands for no port.
\<close>

definition port_entries :: "string \<Rightarrow> database \<Rightarrow> ((int + string) \<times> int) set" where
  "port_entries n d = (\<lambda>r. (Inl (p_peer_asn r), p_listen_port r)) ` {r \<in> set (bgp_peers d). p_node_id r = n}
     \<union> (\<lambda>r. (Inr (p_name r), p_listen_port r)) ` {r \<in> set (ibgp_peers d). p_node_id r = n}"

definition separate :: "('k \<times> int) set \<Rightarrow> bool" where
  "separate E \<longleftrightarrow> (\<forall>(k, p) \<in> E. \<forall>(k', p') \<in> E. k \<noteq> k' \<longrightarrow> p = 0 \<or> p \<noteq> p')"

definition ports_ok :: "string \<Rightarrow> database \<Rightarrow> bool" where
  "ports_ok n d = separate (port_entries n d)"

lemma used_ports_entries: "used_ports n d = snd ` port_entries n d"
  by (auto simp: used_ports_def port_entries_def image_iff) force+

lemma separate_update:
  assumes "separate E" and "p = 0 \<or> (k, p) \<in> E \<or> p \<notin> snd ` E" and "E' \<subseteq> insert (k, p) {e \<in> E. fst e \<noteq> k}"
  shows "separate E'"
proof -
  have fresh: "p \<noteq> q \<or> p = 0" if "(l, q) \<in> E" "l \<noteq> k" for l q
    using assms(1,2) that by (fastforce simp: separate_def image_iff)
  have "p1 = 0 \<or> p1 \<noteq> p2" if a: "(k1, p1) \<in> E'" "(k2, p2) \<in> E'" "k1 \<noteq> k2" for k1 p1 k2 p2
  proof -
    from a assms(3) consider "(k1, p1) \<in> E" "(k2, p2) \<in> E" | "k1 = k" "p1 = p" "(k2, p2) \<in> E" | "k2 = k" "p2 = p" "(k1, p1) \<in> E"
      by auto
    then show ?thesis using a assms(1) fresh [of k1 p1] fresh [of k2 p2] by cases (auto simp: separate_def)
  qed
  then show ?thesis by (auto simp: separate_def)
qed

lemma port_entries_frame:
  "upsert_node_row n now d = Inr (u, d') \<Longrightarrow> port_entries m d' = port_entries m d"
  "port_entries m (after_event n k now d) = port_entries m d"
  by (auto simp: port_entries_def dest!: upsert_node_row_frame)

lemma ibgp_row_of_simps [simp]:
  "p_node_id (ibgp_row_of rec now) = p_node_id rec" "p_name (ibgp_row_of rec now) = p_name rec"
  "p_listen_port (ibgp_row_of rec now) = p_listen_port rec"
  by (simp_all add: ibgp_row_of_def IbgpPeerRecord.defs)

lemma port_entries_insert_ibgp:
  assumes "insert_ibgp_row rec now d = Inr (u, d')" and "p_node_id rec = n"
  shows "port_entries n d' = insert (Inr (p_name rec), p_listen_port rec) (port_entries n d)"
proof -
  from assms(1) have "bgp_peers d' = bgp_peers d" "ibgp_peers d' = ibgp_peers d @ [ibgp_row_of rec now]"
    by (auto simp: insert_ibgp_row_def split: if_splits)
  moreover from this have "{r \<in> set (ibgp_peers d'). p_node_id r = n}
      = insert (ibgp_row_of rec now) {r \<in> set (ibgp_peers d). p_node_id r = n}"
    using assms(2) by auto
  ultimately show ?thesis by (simp add: port_entries_def)
qed

lemma port_entries_update_ibgp:
  assumes "update_ibgp_rows n m pk ep lla p ips be rx ip bt rm now d = Inr (c, d')"
  shows "port_entries n d' \<subseteq> insert (Inr m, p) {e \<in> port_entries n d. fst e \<noteq> Inr m}"
proof -
  have "s \<in> set (ibgp_peers d) \<or> p_name s = m \<and> p_listen_port s = p" "p_node_id s = n \<Longrightarrow> p_name s = m \<Longrightarrow> p_listen_port s = p"
    if "s \<in> set (ibgp_peers d')" for s
  proof -
    from assms that obtain s0 where "s0 \<in> set (ibgp_peers d)" and "s = s0 \<and> \<not> ibgp_key n m s0 \<or>
        ibgp_key n m s0 \<and> p_node_id s = p_node_id s0 \<and> p_name s = p_name s0 \<and> p_listen_port s = p"
      by (auto simp: update_ibgp_rows_def)
    then show "s \<in> set (ibgp_peers d) \<or> p_name s = m \<and> p_listen_port s = p"
      and "p_node_id s = n \<Longrightarrow> p_name s = m \<Longrightarrow> p_listen_port s = p"
      by (auto simp: ibgp_key_def)
  qed
  moreover have "bgp_peers d' = bgp_peers d" using assms by (auto simp: update_ibgp_rows_def)
  ultimately show ?thesis by (fastforce simp: port_entries_def image_iff)
qed

lemma port_entries_update_bgp:
  assumes "update_bgp_rows n a pk ep lla p ips be now d = Inr (c, d')"
  shows "port_entries n d' \<subseteq> insert (Inl a, p) {e \<in> port_entries n d. fst e \<noteq> Inl a}"
proof -
  have "s \<in> set (bgp_peers d) \<or> p_peer_asn s = a \<and> p_listen_port s = p" "p_node_id s = n \<Longrightarrow> p_peer_asn s = a \<Longrightarrow> p_listen_port s = p"
    if "s \<in> set (bgp_peers d')" for s
  proof -
    from assms that obtain s0 where "s0 \<in> set (bgp_peers d)" and "s = s0 \<and> \<not> bgp_key n a s0 \<or>
        bgp_key n a s0 \<and> p_node_id s = p_node_id s0 \<and> p_peer_asn s = p_peer_asn s0 \<and> p_listen_port s = p"
      by (auto simp: update_bgp_rows_def)
    then show "s \<in> set (bgp_peers d) \<or> p_peer_asn s = a \<and> p_listen_port s = p"
      and "p_node_id s = n \<Longrightarrow> p_peer_asn s = a \<Longrightarrow> p_listen_port s = p"
      by (auto simp: bgp_key_def)
  qed
  moreover have "ibgp_peers d' = ibgp_peers d" using assms by (auto simp: update_bgp_rows_def)
  ultimately show ?thesis by (fastforce simp: port_entries_def image_iff)
qed

lemma port_entries_found:
  "find_bgp n a d = Some r \<Longrightarrow> (Inl a, p_listen_port r) \<in> port_entries n d"
  "find_ibgp n m d = Some s \<Longrightarrow> (Inr m, p_listen_port s) \<in> port_entries n d"
  by (auto simp: find_bgp_def find_ibgp_def port_entries_def bgp_key_def ibgp_key_def dest!: find_Some_set)

lemma ports_ok_created: "ports_ok n d \<Longrightarrow> ibgp_created n name hw p i d d' \<Longrightarrow> ports_ok n d'"
proof -
  assume ok: "ports_ok n d" and "ibgp_created n name hw p i d d'"
  then obtain now0 d0 rec now d1 now' where u: "upsert_node_row n now0 d = Inr ((), d0)"
    and ins: "insert_ibgp_row rec now d0 = Inr ((), d1)" and d': "d' = after_event n SYNC_EVENT_DESIRED now' d1"
    and rec: "p_node_id rec = n" "p_listen_port rec = p" and p: "p = 0 \<or> p \<notin> used_ports n d"
    unfolding ibgp_created_def by blast
  have e0: "port_entries n d0 = port_entries n d" by (rule port_entries_frame(1) [OF u])
  have "\<forall>r \<in> set (ibgp_peers d0). p_node_id r = n \<longrightarrow> p_name r \<noteq> p_name rec"
    using ins unfolding rec(1) [symmetric] by (auto simp: insert_ibgp_row_def split: if_splits)
  then have absent: "fst e \<noteq> Inr (p_name rec)" if "e \<in> port_entries n d0" for e
    using that by (auto simp: port_entries_def)
  have "port_entries n d' = insert (Inr (p_name rec), p) (port_entries n d)"
    using port_entries_insert_ibgp [OF ins rec(1)] by (simp add: d' rec(2) e0 port_entries_frame)
  also have "\<dots> \<subseteq> insert (Inr (p_name rec), p) {e \<in> port_entries n d. fst e \<noteq> Inr (p_name rec)}"
    using absent e0 by auto
  finally have sub: "port_entries n d' \<subseteq> insert (Inr (p_name rec), p) {e \<in> port_entries n d. fst e \<noteq> Inr (p_name rec)}" .
  show ?thesis
    unfolding ports_ok_def by (rule separate_update [OF _ _ sub]) (use ok p in \<open>auto simp: ports_ok_def used_ports_entries\<close>)
qed

lemma ports_ok_bgp_modified: "ports_ok n d \<Longrightarrow> bgp_modified n a p d d' \<Longrightarrow> ports_ok n d'"
proof -
  assume ok: "ports_ok n d" and "bgp_modified n a p d d'"
  then obtain now0 d0 r pk ep lla ips be now c d1 now' where u: "upsert_node_row n now0 d = Inr ((), d0)"
    and f: "find_bgp n a d0 = Some r" and upd: "update_bgp_rows n a pk ep lla p ips be now d0 = Inr (c, d1)"
    and d': "d' = after_event n SYNC_EVENT_DESIRED now' d1"
    and p: "p = 0 \<or> p = p_listen_port r \<or> p \<notin> used_ports n d0"
    unfolding bgp_modified_def by blast
  have "separate (port_entries n d0)" using ok by (simp add: ports_ok_def port_entries_frame(1) [OF u])
  moreover have "p = 0 \<or> (Inl a, p) \<in> port_entries n d0 \<or> p \<notin> snd ` port_entries n d0"
    using p port_entries_found(1) [OF f] by (auto simp: used_ports_entries)
  ultimately have "separate (port_entries n d1)" by (rule separate_update) (rule port_entries_update_bgp [OF upd])
  then show ?thesis by (simp add: ports_ok_def d' port_entries_frame)
qed

lemma ports_ok_ibgp_modified: "ports_ok n d \<Longrightarrow> ibgp_modified n name rm p d d' \<Longrightarrow> ports_ok n d'"
proof -
  assume ok: "ports_ok n d" and "ibgp_modified n name rm p d d'"
  then obtain now0 d0 m r pk ep lla ips be rx ip bt now c d1 now' where u: "upsert_node_row n now0 d = Inr ((), d0)"
    and f: "find_ibgp n m d0 = Some r" and upd: "update_ibgp_rows n m pk ep lla p ips be rx ip bt rm now d0 = Inr (c, d1)"
    and d': "d' = after_event n SYNC_EVENT_DESIRED now' d1"
    and p: "p = 0 \<or> p = p_listen_port r \<or> p \<notin> used_ports n d0"
    unfolding ibgp_modified_def by blast
  have "separate (port_entries n d0)" using ok by (simp add: ports_ok_def port_entries_frame(1) [OF u])
  moreover have "p = 0 \<or> (Inr m, p) \<in> port_entries n d0 \<or> p \<notin> snd ` port_entries n d0"
    using p port_entries_found(2) [OF f] by (auto simp: used_ports_entries)
  ultimately have "separate (port_entries n d1)" by (rule separate_update) (rule port_entries_update_ibgp [OF upd])
  then show ?thesis by (simp add: ports_ok_def d' port_entries_frame)
qed

lemma ports_ok_stopped:
  assumes "stopped n C d d'" and "ports_ok n d" and "C d d' \<Longrightarrow> ports_ok n d'"
  shows "ports_ok n d'"
  using assms by cases (auto simp: ports_ok_def port_entries_frame)

section \<open>Properties\<close>

text \<open>
  C7. Creating an iBGP peer and modifying a BGP or an iBGP peer never gives two tunnels of a
  node the same listen port, whatever the service returns or raises and whichever statement
  or file operation fails on the way.
\<close>

theorem listen_ports_stay_separate:
  assumes "tx w = None" and "migrated (disk w)" and "ports_ok (or_else n (ac_node_id c)) (disk w)"
  shows "ports_ok (or_else n (ac_node_id c)) (disk (snd (create_ibgp_peer c name ip hw pk ep lla nb rx bt lp k wk l n rf ips rm w)))
    \<and> ports_ok (or_else n (ac_node_id c)) (disk (snd (modify_ibgp_peer c name pk' ep' lla' nb' rx' bt' ip' lp' n rf' ips' rm' w)))
    \<and> ports_ok (or_else n (ac_node_id c)) (disk (snd (modify_bgp_peer c asn pk' ep' lla' nb' lp' n rf' ips' w)))"
proof (intro conjI)
  show "ports_ok (or_else n (ac_node_id c)) (disk (snd (create_ibgp_peer c name ip hw pk ep lla nb rx bt lp k wk l n rf ips rm w)))"
    by (rule outcome_always [OF outcome_create_ibgp assms(1) _ _ refl])
      (use assms in \<open>auto intro: ports_ok_created elim!: ports_ok_stopped\<close>)
  show "ports_ok (or_else n (ac_node_id c)) (disk (snd (modify_ibgp_peer c name pk' ep' lla' nb' rx' bt' ip' lp' n rf' ips' rm' w)))"
    by (rule outcome_always [OF outcome_modify_ibgp assms(1) _ _ refl])
      (use assms in \<open>auto intro: ports_ok_ibgp_modified elim!: ports_ok_stopped\<close>)
  show "ports_ok (or_else n (ac_node_id c)) (disk (snd (modify_bgp_peer c asn pk' ep' lla' nb' lp' n rf' ips' w)))"
    by (rule outcome_always [OF outcome_modify_bgp assms(1) _ _ refl])
      (use assms in \<open>auto intro: ports_ok_bgp_modified elim!: ports_ok_stopped\<close>)
qed

definition sample_config :: AppConfig where
  "sample_config = \<lparr> ac_node_id = ''n1'', ac_own_asn = 4242420001, ac_router_id = ''10.0.0.1'', ac_own_ipv6 = ''fd00::1'',
     ac_ownnet_v6 = ''fd00::/48'', ac_ownnetset_v6 = ''fd00::/48'', ac_bird_conf_path = ''/etc/bird/bird.conf'',
     ac_bird_peers_dir = ''/etc/bird/peers'', ac_bird_babel_conf_path = ''/etc/bird/babel.conf'',
     ac_bird_roa_v6_conf_path = ''/etc/bird/roa.conf'', ac_bird_extra_conf_path = ''/etc/bird/extra.conf'',
     ac_networkd_dir = ''/etc/systemd/network'', ac_nm_system_connections_dir = ''/etc/nm'', ac_dummy_backend = ''networkd'' \<rparr>"

definition ready_world :: world where
  "ready_world = start_world (ready (sample_db\<lparr> bgp_peers := [bgp_row_of sample_bgp ''t0''] \<rparr>))"

lemma ready_world_simps [simp]:
  "tx ready_world = None" "migrated (disk ready_world)" "no_faults ready_world"
  by (simp_all add: ready_world_def no_faults_def)

theorem listen_ports_stay_separate_witness:
  "ports_ok ''n1'' (disk (snd (create_ibgp_peer sample_config ''b'' ''fd00::2'' True None None None None 20 ''tunnel'' None
      None None None None False None None ready_world)))"
proof -
  have "ports_ok (or_else None (ac_node_id sample_config)) (disk ready_world)"
    by (simp add: or_else_def sample_config_def ready_world_def ports_ok_def separate_def port_entries_def sample_db_def
        empty_database_def)
  from listen_ports_stay_separate [OF ready_world_simps(1,2) this] show ?thesis
    by (simp add: or_else_def sample_config_def)
qed

text \<open>The draws of the loop: one from the random source per step of the clock.\<close>

definition draw :: "world \<Rightarrow> nat \<Rightarrow> nat" where
  "draw w i = 30000 + random_nat (env w) (tick w + i) mod 20000"

lemma randint_ports: "randint 30000 49999 w = (Inr (draw w 0), next_tick w)"
  by (simp add: randint_def draw_def)

lemma draw_tick: "draw (next_tick w) i = draw w (Suc i)"
  by (simp add: draw_def next_tick_def)

lemma draw_range: "30000 \<le> draw w i" "draw w i \<le> 49999"
  using mod_less_divisor [of 20000 "random_nat (env w) (tick w + i)"] by (simp_all add: draw_def)

lemma draws_Suc: "map (draw w) [0..<Suc n] = draw w 0 # map (draw (next_tick w)) [0..<n]"
  by (simp add: upt_rec [of 0] map_Suc_upt [symmetric] draw_tick comp_def del: upt_Suc)

lemma pick_loop_first_free:
  "fst (pick_loop n used c w) = (case List.find (\<lambda>x. int x \<notin> set used) (c # map (draw w) [0..<n]) of
      None \<Rightarrow> Inl (Dn42CtlError ''no free port'') | Some p \<Rightarrow> Inr p)"
proof (induction n arbitrary: c w)
  case 0
  then show ?case by (simp add: ret_def bnd_def WG_PORT_RANGE_def randint_ports raise_def)
next
  case (Suc n)
  then show ?case
    unfolding draws_Suc by (simp add: ret_def bnd_def WG_PORT_RANGE_def randint_ports)
qed

text \<open>
  \<open>pick_unused_port\<close> always ends: it returns the first of 2001 draws from 30000 to 49999
  that no tunnel uses, and raises exactly when all of them are used.
\<close>

theorem pick_unused_port_first_free:
  "fst (pick_unused_port used w) = (case List.find (\<lambda>x. int x \<notin> set used) (map (draw w) [0..<2001]) of
      None \<Rightarrow> Inl (Dn42CtlError ''no free port'') | Some p \<Rightarrow> Inr p)
   \<and> (\<forall>i. 30000 \<le> draw w i \<and> draw w i \<le> 49999)"
proof -
  have "(2001::nat) = Suc 2000" by simp
  then have draws: "map (draw w) [0..<2001] = draw w 0 # map (draw (next_tick w)) [0..<2000]"
    by (simp only: draws_Suc)
  show ?thesis
    unfolding draws
    by (simp add: pick_unused_port_def bnd_def WG_PORT_RANGE_def randint_ports draw_range pick_loop_first_free
        del: upt_rec_numeral)
qed

text \<open>Deleting files never raises, and every file is gone or reported.\<close>

lemma delete_files_total:
  "\<exists>dl ms fl w'. delete_files_and_collect_status ps w = (Inr (dl, ms, fl), w')
     \<and> mset ps = mset dl + mset ms + mset fl
     \<and> (\<forall>p. p \<in> set ps \<and> p \<notin> set fl \<longrightarrow> files w' p = None) \<and> (\<forall>p. p \<notin> set ps \<longrightarrow> files w' p = files w p)"
proof (induction ps arbitrary: w)
  case Nil
  show ?case by (simp add: ret_def)
next
  case (Cons p ps)
  define w1 where "w1 = next_tick w"
  define ex where "ex = (\<not> io_fault (env w) (tick w) \<and> files w p \<noteq> None)"
  define ok where "ok = (\<not> io_fault (env w1) (tick w1))"
  define w2 where "w2 = (if ok then (next_tick w1)\<lparr> files := (files w1)(p := None) \<rparr> else next_tick w1)"
  obtain dl ms fl w' where r: "delete_files_and_collect_status ps w2 = (Inr (dl, ms, fl), w')"
    and m: "mset ps = mset dl + mset ms + mset fl"
    and g: "\<forall>q. q \<in> set ps \<and> q \<notin> set fl \<longrightarrow> files w' q = None" "\<forall>q. q \<notin> set ps \<longrightarrow> files w' q = files w2 q"
    using Cons.IH [of w2] by blast
  have "delete_files_and_collect_status (p # ps) w = (Inr (if \<not> ok then (dl, ms, p # fl)
      else if ex then (p # dl, ms, fl) else (dl, p # ms, fl)), w')"
    using r by (simp add: op_defs path_exists_def unlink_def io_step_def w1_def ex_def ok_def w2_def split: if_splits)
  then show ?case
    using m g by (cases ok; cases ex; cases "p \<in> set ps") (auto simp: w2_def w1_def)
qed

lemma outcome_delete_files [services]:
  "outcome (delete_files_and_collect_status ps) (\<lambda>d _ d'. d' = d) (\<lambda>d d'. False)"
proof (rule outcomeI)
  fix w r w'
  assume "tx w = None" and d: "delete_files_and_collect_status ps w = (r, w')"
  with read_onlyD [OF read_only_delete_files d] delete_files_total [of ps w]
  show "tx w' = None \<and> (case r of Inr x \<Rightarrow> disk w' = disk w | Inl e \<Rightarrow> False)"
    by (auto split: sum.splits)
qed

lemma outcome_delete_bgp:
  "outcome (delete_bgp_peer c a n rf)
     (\<lambda>d res d'. migrated d \<longrightarrow> (\<exists>c' now d1. delete_bgp_rows (or_else n (ac_node_id c)) a d = Inr (c', d1)
        \<and> d' = after_event (or_else n (ac_node_id c)) SYNC_EVENT_DESIRED now d1))
     (\<lambda>d d'. migrated d \<longrightarrow> d' = d)"
proof -
  have f: "outcome (lift_result (peer_files_for_backend c i b ''bgp'' None)) (\<lambda>d _ d'. d' = d) (\<lambda>d d'. False)" for i b
    by (simp add: outcome_def lift_result_def peer_files_for_backend_def bindR_def)
  show ?thesis
    unfolding delete_bgp_peer_def Let_def
    by (rule outcome_triple, rule triple_pre, (rule wp | rule triple_outcome, rule f outcome_delete_files services)+) auto
qed

text \<open>
  C39. \<open>delete_bgp_peer\<close> removes the row first: if it raises, the durable database is what it
  was. If it returns, the row is gone and the node is notified in the same transaction, and
  every file of the peer is gone or listed as failed, whichever file operation fails.
\<close>

theorem delete_bgp_peer_db_first:
  assumes "tx w = None" and "migrated (disk w)" and "delete_bgp_peer c a n rf w = (r, w')"
  defines "nid \<equiv> or_else n (ac_node_id c)"
  shows "case r of
      Inl e \<Rightarrow> disk w' = disk w
    | Inr res \<Rightarrow> (\<exists>now. disk w' = after_event nid SYNC_EVENT_DESIRED now
          ((disk w)\<lparr> bgp_peers := filter (\<lambda>r. \<not> bgp_key nid a r) (bgp_peers (disk w)) \<rparr>))
        \<and> (rf \<longrightarrow> (\<exists>row fs. find_bgp nid a (disk w) = Some row
              \<and> peer_files_for_backend c (p_ifname row) (p_net_backend row) ''bgp'' None = Inr fs
              \<and> (\<forall>p \<in> set fs. files w' p = None \<or> p \<in> set (dr_failed_files res))))"
proof (cases r)
  case (Inl e)
  with outcomeD(3) [OF outcome_delete_bgp assms(1,3)] assms(2) show ?thesis by simp
next
  case (Inr res)
  have "\<exists>row fs. find_bgp nid a (disk w) = Some row
      \<and> peer_files_for_backend c (p_ifname row) (p_net_backend row) ''bgp'' None = Inr fs
      \<and> (\<forall>p \<in> set fs. files w' p = None \<or> p \<in> set (dr_failed_files res))" if rf
  proof -
    from assms(3) Inr that obtain w1 w2 w3 w4 w5 row fs dl ms fl x where o: "open_db w = (Inr (), w1)"
      and g: "get_bgp_peer nid a w1 = (Inr (Some row), w2)" and d: "db_delete_bgp_peer nid a w2 = (Inr x, w3)"
      and fs: "peer_files_for_backend c (p_ifname row) (p_net_backend row) ''bgp'' None = Inr fs"
      and del: "delete_files_and_collect_status fs w3 = (Inr (dl, ms, fl), w4)"
      and w': "w' = close_conn w4" and res: "dr_failed_files res = fl"
      by (auto simp: delete_bgp_peer_def Let_def nid_def closing_def as_ctl_error_def returns split: option.splits)
    from outcomeD(1,2) [OF outcome_open_db assms(1) o] assms(2) have w1: "tx w1 = None" "disk w1 = disk w" by auto
    with outcomeD(2) [OF outcome_reads(1) _ g] have "find_bgp nid a (disk w) = Some row" by auto
    moreover have "files w' p = None \<or> p \<in> set (dr_failed_files res)" if "p \<in> set fs" for p
      using delete_files_total [of fs w3] del that by (auto simp: w' res close_conn_def)
    ultimately show ?thesis using fs by blast
  qed
  moreover from outcomeD(2) [OF outcome_delete_bgp assms(1,3) Inr] assms(2)
  have "\<exists>now. disk w' = after_event nid SYNC_EVENT_DESIRED now
      ((disk w)\<lparr> bgp_peers := filter (\<lambda>r. \<not> bgp_key nid a r) (bgp_peers (disk w)) \<rparr>)"
    by (auto simp: delete_bgp_rows_def nid_def)
  ultimately show ?thesis using Inr by simp
qed

lemma open_db_ready: "migrated (disk w) \<Longrightarrow> tx w = None \<Longrightarrow> no_faults w \<Longrightarrow> open_db w = (Inr (), next_tick (next_tick w))"
  by (simp add: open_db_def as_ctl_error_def reraise_as_def try_except_def db_open_quiet)

lemma ready_world_fields [simp]:
  "disk ready_world = ready (sample_db\<lparr> bgp_peers := [bgp_row_of sample_bgp ''t0''] \<rparr>)" "env ready_world = quiet_env"
  "view ready_world = disk ready_world" "files ready_world = (\<lambda>_. None)"
  by (simp_all add: ready_world_def view_def)

lemma open_ready [simp]: "open_db ready_world = (Inr (), next_tick (next_tick ready_world))"
  by (rule open_db_ready) (simp_all del: ready_world_fields)

lemmas eval_rows = sample_db_def empty_database_def bgp_row_of_def sample_bgp_def bgp_key_def ibgp_key_def
  BgpPeerRecord.defs bgp_peer_row.defs IbgpPeerRecord.defs ibgp_peer_row.defs ibgp_row_of_def

lemmas eval_db = get_bgp_peer_def db_delete_bgp_peer_def delete_peer_def find_bgp_def delete_bgp_rows_def
  emit_sync_event_def insert_sync_event_def delete_sync_events_upto_def insert_bgp_peer_def insert_bgp_row_def
  ensure_node_def upsert_node_row_def find_ibgp_def get_ibgp_peer_def has_node_def

theorem delete_bgp_peer_db_first_witness:
  "\<exists>res w' now. delete_bgp_peer sample_config 4242421234 None True ready_world = (Inr res, w')
     \<and> disk w' = after_event ''n1'' SYNC_EVENT_DESIRED now ((disk ready_world)\<lparr> bgp_peers := [] \<rparr>)"
proof -
  have "\<exists>res w'. delete_bgp_peer sample_config 4242421234 None True ready_world = (Inr res, w')"
    by (simp add: delete_bgp_peer_def closing_def run_defs or_else_def sample_config_def eval_db eval_rows
        peer_files_for_backend_def path_exists_def unlink_def io_step_def)
  then obtain res w' where r: "delete_bgp_peer sample_config 4242421234 None True ready_world = (Inr res, w')" by blast
  from delete_bgp_peer_db_first [OF ready_world_simps(1,2) r] r show ?thesis
    by (simp add: or_else_def sample_config_def eval_rows)
qed

lemma default_ips_valid: "\<exists>ips. validate_allowed_ips_list DEFAULT_ALLOWED_IPS = Inr ips"
  apply (simp add: validate_allowed_ips_list_def validate_allowed_ips_def DEFAULT_ALLOWED_IPS_def network_str_def ipv6_network_def split_addr_prefix_def prefix_from_string_def mask_hextets_def bindR_def is_digit_def parse_nat_def digit_val_def eval_strings eval_ip validate_ipv6_network_def)
  done

text \<open>
  \<open>create_bgp_peer\<close> does not look at the ports in use: on a node whose one peer listens on
  21234 it creates a second one on 21234 and returns, where \<open>create_ibgp_peer\<close> and both
  \<open>modify\<close> services refuse the port.
\<close>

theorem create_bgp_peer_port_unchecked:
  "\<exists>res w'. create_bgp_peer sample_config 4242420002 ''k'' ''e'' ''fe80::2'' ''networkd'' (Some 21234) (Some ''a'') (Some ''b'')
       (Some ''fe80::3'') None False None ready_world = (Inr res, w')
     \<and> map (\<lambda>r. (p_node_id r, p_peer_asn r, p_listen_port r)) (bgp_peers (disk w'))
         = [(''n1'', 4242421234, 21234), (''n1'', 4242420002, 21234)]"
  using default_ips_valid
  by (clarsimp simp: create_bgp_peer_def open_db_and_ensure_node_def closing_def run_defs or_else_def sample_config_def eval_db eval_rows
      normalize_net_backend_def validated_def validate_net_backend_def eval_strings bgp_listen_port_def
      validate_listen_port_def MAX_PORT_def resolve_wg_keypair_def lla_or_random_def last_chars_def show_int_def
      show_nat.simps close_conn_def)

section \<open>Well-formedness\<close>

lemma preserves_quiet [preserve]:
  "preserves (on_world P) (validated r)" "preserves (on_world P) (normalize_net_backend s)"
  "preserves (on_world P) (resolve_wg_keypair x y)" "preserves (on_world P) (lla_or_random x)"
  "preserves (on_world P) (pick_unused_port u)" "preserves (on_world P) (write_net_backend_files c be i k p pk ep ips l pl)"
  "preserves (on_world P) (write_bird_bgp_peer c i pl a)" "preserves (on_world P) (write_bird_ibgp_peer c n i ip)"
  "preserves (on_world P) (regenerate_babel_conf c n)" "preserves (on_world P) (delete_files_and_collect_status fs)"
  by (rule preserves_read_only, rule fileop)+

lemma preserves_reads [preserve]:
  "preserves (on_world P) (get_bgp_peer n a)" "preserves (on_world P) (get_ibgp_peer n m)"
  "preserves (on_world P) (get_used_listen_ports n)"
  by (rule preserves_read_only, rule read_only_methods)+

lemma preserves_open_db [preserve]: "preserves (on_world wf_db) open_db"
  unfolding open_db_def by (rule preserve)+

lemma preserves_closing [preserve]: "preserves (on_world P) m \<Longrightarrow> preserves (on_world P) (closing m)"
  unfolding closing_def by (auto intro!: preserve)

lemma preserves_open_node [preserve]: "preserves (on_world wf_db) (open_db_and_ensure_node n)"
  unfolding open_db_and_ensure_node_def by (auto intro!: preserve split: exn.splits)

lemma preserves_services [preserve]:
  "preserves (on_world wf_db) (create_bgp_peer c asn pk ep lla nb lp k wk l n rf ips)"
  "preserves (on_world wf_db) (modify_bgp_peer c asn pk ep lla nb lp n rf ips)"
  "preserves (on_world wf_db) (delete_bgp_peer c asn n rf)"
  "preserves (on_world wf_db) (create_ibgp_peer c name ip hw pk' ep' lla' nb' rx bt lp k wk l n rf ips rm)"
  "preserves (on_world wf_db) (modify_ibgp_peer c name pk ep lla nb rx bt ip lp n rf ips rm')"
  "preserves (on_world wf_db) (delete_ibgp_peer c name n rf)"
  unfolding create_bgp_peer_def modify_bgp_peer_def delete_bgp_peer_def create_ibgp_peer_def modify_ibgp_peer_def
    delete_ibgp_peer_def bgp_listen_port_def check_new_port_def ibgp_listen_port_def ibgp_wg_part_def Let_def
  by (intro preserve)+

end
