(* ===== verification/Progress.thy ===== *)
theory Progress
  imports Peer_Effects
begin

text \<open>
  When operations return. \<open>succeeds b P m R\<close> says that \<open>m\<close>, started on a database with \<open>P\<close> while
  no statement fails, returns a value and leaves a database with \<open>R\<close>; \<open>b\<close> tells whether \<open>m\<close>
  is part of a transaction. The rules in \<open>total\<close> compute the weakest such precondition along
  the structure of a service.
\<close>

named_theorems total \<open>rules for operations that return\<close>

definition succeeds :: "bool \<Rightarrow> (database \<Rightarrow> bool) \<Rightarrow> 'a wop \<Rightarrow> ('a \<Rightarrow> database \<Rightarrow> bool) \<Rightarrow> bool" where
  "succeeds b P m R \<longleftrightarrow> (\<forall>w. no_faults w \<and> (b \<or> tx w = None) \<and> P (view w) \<longrightarrow>
     (\<exists>x w'. m w = (Inr x, w') \<and> env w' = env w \<and> (b \<or> tx w' = None) \<and> R x (view w')))"

lemma no_faults_env: "env w' = env w \<Longrightarrow> no_faults w' = no_faults w"
  by (simp add: no_faults_def)

lemma totalD:
  assumes "succeeds False P m R" and "no_faults w" and "tx w = None" and "P (disk w)"
  obtains x w' where "m w = (Inr x, w')" and "no_faults w'" and "tx w' = None" and "R x (disk w')" and "env w' = env w"
proof -
  have "view w = disk w" using assms(3) by (simp add: view_def)
  with assms obtain x w' where "m w = (Inr x, w')" "env w' = env w" "tx w' = None" "R x (view w')"
    by (auto simp: succeeds_def)
  then show ?thesis using that [of x w'] no_faults_env [of w' w] assms(2) by (simp add: view_def)
qed

lemma total_pre: "succeeds b P' m R \<Longrightarrow> (\<And>d. P d \<Longrightarrow> P' d) \<Longrightarrow> succeeds b P m R"
  by (fastforce simp: succeeds_def)

lemma total_post: "succeeds b P m R' \<Longrightarrow> (\<And>x d. R' x d \<Longrightarrow> R x d) \<Longrightarrow> succeeds b P m R"
  by (fastforce simp: succeeds_def)

lemma total_bnd [total]: "(\<And>x. succeeds b (S x) (f x) R) \<Longrightarrow> succeeds b P m S \<Longrightarrow> succeeds b P (bnd m f) R"
proof -
  assume f: "\<And>x. succeeds b (S x) (f x) R" and m: "succeeds b P m S"
  have "\<exists>x w'. bnd m f w = (Inr x, w') \<and> env w' = env w \<and> (b \<or> tx w' = None) \<and> R x (view w')"
    if w: "no_faults w \<and> (b \<or> tx w = None) \<and> P (view w)" for w
  proof -
    from m w obtain x w1 where 1: "m w = (Inr x, w1)" "env w1 = env w" "(b \<or> tx w1 = None) \<and> S x (view w1)"
      unfolding succeeds_def by blast
    with f [of x] w no_faults_env [OF 1(2)] show ?thesis unfolding succeeds_def bnd_def by auto
  qed
  then show ?thesis by (simp add: succeeds_def)
qed

lemma total_ret [total]: "succeeds b (R x) (ret x) R" by (simp add: succeeds_def ret_def)

lemma total_raise [total]: "succeeds b (\<lambda>_. False) (raise e) R" by (simp add: succeeds_def)

lemma total_lift [total]: "succeeds b (\<lambda>d. case r of Inr x \<Rightarrow> R x d | Inl _ \<Rightarrow> False) (lift_result r) R"
  by (auto simp: succeeds_def lift_result_def split: sum.splits)

lemma total_if [total]:
  "succeeds b P m R \<Longrightarrow> succeeds b Q n R \<Longrightarrow> succeeds b (\<lambda>d. (c \<longrightarrow> P d) \<and> (\<not> c \<longrightarrow> Q d)) (if c then m else n) R"
  by (simp add: succeeds_def)

lemma total_option [total]:
  "succeeds b P m R \<Longrightarrow> (\<And>x. succeeds b (Q x) (f x) R) \<Longrightarrow>
     succeeds b (\<lambda>d. case o' of None \<Rightarrow> P d | Some x \<Rightarrow> Q x d) (case o' of None \<Rightarrow> m | Some x \<Rightarrow> f x) R"
  by (simp split: option.splits)

lemma total_prod [total]:
  "(\<And>x y. succeeds b (P x y) (f x y) R) \<Longrightarrow> succeeds b (\<lambda>d. case p of (x, y) \<Rightarrow> P x y d) (case p of (x, y) \<Rightarrow> f x y) R"
  by (simp split: prod.splits)

lemma total_try [total]: "succeeds b P m R \<Longrightarrow> succeeds b P (try_except m h) R"
  unfolding succeeds_def try_except_def by fastforce

lemma total_wrap [total]: "succeeds b P m R \<Longrightarrow> succeeds b P (wrap_db e m) R"
  unfolding wrap_db_def by (rule total_try)

lemma total_ctl [total]: "succeeds b P m R \<Longrightarrow> succeeds b P (as_ctl_error m) R"
  unfolding as_ctl_error_def reraise_as_def by (rule total_try)

lemma total_query [total]: "succeeds b (\<lambda>d. R (q d) d) (sql_query q) R"
  by (auto simp: succeeds_def sql_query_def no_faults_def view_def next_tick_def split: option.splits)

lemma total_dml [total]: "succeeds True (\<lambda>d. case f d of Inr (x, d') \<Rightarrow> R x d' | Inl _ \<Rightarrow> False) (sql_dml f) R"
  by (auto simp: succeeds_def sql_dml_def no_faults_def view_def next_tick_def split: sum.splits)

lemma total_now [total]: "succeeds b (\<lambda>d. \<forall>now. R now d) now_iso R"
  by (auto simp: succeeds_def now_iso_def no_faults_def view_def next_tick_def split: option.splits)

lemma total_tx [total]: "succeeds True P m R \<Longrightarrow> succeeds False P (with_tx msg m) R"
proof -
  assume m: "succeeds True P m R"
  have "\<exists>x w'. with_tx msg m w = (Inr x, w') \<and> env w' = env w \<and> tx w' = None \<and> R x (view w')"
    if w: "no_faults w" "tx w = None" "P (view w)" for w
  proof -
    from m w obtain x w1 where 1: "m w = (Inr x, w1)" "env w1 = env w" "R x (view w1)" unfolding succeeds_def by blast
    then show ?thesis using w(1)
      by (auto simp: with_tx_def try_except_def bnd_def commit_def ret_def no_faults_def view_def next_tick_def split: option.splits)
  qed
  then show ?thesis by (simp add: succeeds_def)
qed

lemma total_open [total]: "succeeds False (\<lambda>d. migrated d \<and> R () d) db_open R"
  by (auto simp: succeeds_def db_open_quiet view_def no_faults_def next_tick_def)

lemma total_open_db [total]: "succeeds False (\<lambda>d. migrated d \<and> R () d) open_db R"
  unfolding open_db_def by (rule total)+

lemma total_closing [total]: "succeeds False P m R \<Longrightarrow> succeeds False P (closing m) R"
  by (fastforce simp: succeeds_def closing_def try_finally_def close_conn_def no_faults_def view_def)

lemma total_emit [total]: "succeeds True (\<lambda>d. \<forall>now. R () (after_event n k now d)) (emit_sync_event n k) R"
  unfolding emit_sync_event_def Let_def
proof (rule total_pre, (rule total)+, intro allI)
  fix d now
  assume "\<forall>now. R () (after_event n k now d)"
  then have "R () (after_event n k now d)" ..
  then show "case insert_sync_event n k now d of Inl e \<Rightarrow> False
    | Inr (i, d') \<Rightarrow> (i mod SYNC_EVENTS_TRIM_EVERY = 0 \<longrightarrow>
        (case delete_sync_events_upto (int i - int SYNC_EVENTS_KEEP) d' of Inl x \<Rightarrow> False | Inr (x, d') \<Rightarrow> R () d'))
      \<and> (i mod SYNC_EVENTS_TRIM_EVERY \<noteq> 0 \<longrightarrow> R () d')"
    by (cases d) (auto simp: insert_sync_event_def delete_sync_events_upto_def after_event_def Let_def not_le
        SYNC_EVENTS_TRIM_EVERY_def SYNC_EVENTS_KEEP_def split: if_splits)
qed

lemma total_node [total]: "succeeds False (\<lambda>d. \<forall>now. case upsert_node_row n now d of Inr (x, d') \<Rightarrow> R x d' | Inl _ \<Rightarrow> False) (ensure_node n) R"
  unfolding ensure_node_def by (rule total)+

lemma total_bgp_reads [total]:
  "succeeds b (\<lambda>d. R (find_bgp n a d) d) (get_bgp_peer n a) R"
  "succeeds b (\<lambda>d. S (select_bgp n d) d) (list_bgp_peers n) S"
  unfolding get_bgp_peer_def list_bgp_peers_def by (rule total)+

lemma total_ibgp_reads [total]:
  "succeeds b (\<lambda>d. R (find_ibgp n m d) d) (get_ibgp_peer n m) R"
  "succeeds b (\<lambda>d. S (select_ibgp n d) d) (list_ibgp_peers n) S"
  unfolding get_ibgp_peer_def list_ibgp_peers_def by (rule total)+

lemma total_managed_get [total]: "succeeds b (\<lambda>d. R (find_managed n d) d) (managed_get n) R"
  unfolding managed_get_def by (rule total)+

end
