(* ===== verification/Desired.thy ===== *)
theory Desired
  imports Progress
begin

text \<open>
  \<open>services/desired_state.py\<close> and \<open>services/revisions.py\<close>: what a node should run, its content
  digest, the revisions recorded for it and the pin that rolls a node back. SHA-256 is the
  parameter \<open>sha\<close>, from a text to its hexadecimal digest.
\<close>

section \<open>Values\<close>

text \<open>\<open>bool(x)\<close> of a decoded JSON value.\<close>

fun json_truthy :: "json \<Rightarrow> bool" where
  "json_truthy JNull = False"
| "json_truthy (JBool b) = b"
| "json_truthy (JInt i) = (i \<noteq> 0)"
| "json_truthy (JFloat r) = (r \<notin> {''0.0'', ''-0.0''})"
| "json_truthy (JStr s) = (s \<noteq> [])"
| "json_truthy (JArr xs) = (xs \<noteq> [])"
| "json_truthy (JObj kvs) = (kvs \<noteq> [])"

text \<open>\<open>list(x)\<close> and \<open>dict(x)\<close>, on the shapes a stored snapshot can have.\<close>

fun json_list :: "json \<Rightarrow> json result" where
  "json_list (JArr xs) = Inr (JArr xs)"
| "json_list (JStr s) = Inr (JArr (map (\<lambda>c. JStr [c]) s))"
| "json_list (JObj kvs) = Inr (JArr (map (\<lambda>kv. JStr (fst kv)) kvs))"
| "json_list _ = Inl (TypeError ''not iterable'')"

fun json_dict :: "json \<Rightarrow> json result" where
  "json_dict (JObj kvs) = Inr (JObj kvs)"
| "json_dict _ = Inl (TypeError ''not a dict'')"

definition json_opt :: "string option \<Rightarrow> json" where
  "json_opt x = (case x of None \<Rightarrow> JNull | Some s \<Rightarrow> JStr s)"

definition get_or :: "jdict \<Rightarrow> string \<Rightarrow> json \<Rightarrow> json" where
  "get_or d k dflt = (case dict_get d k of None \<Rightarrow> dflt | Some v \<Rightarrow> v)"

definition subscript :: "jdict \<Rightarrow> string \<Rightarrow> json result" where
  "subscript d k = (case dict_get d k of None \<Rightarrow> Inl (KeyError k) | Some v \<Rightarrow> Inr v)"

record DesiredState =
  ds_node_id :: json
  ds_revision :: json
  ds_generated_at :: json
  ds_bgp_peers :: json
  ds_ibgp_peers :: json
  ds_node :: json

definition desired_to_dict :: "DesiredState \<Rightarrow> jdict result" where
  "desired_to_dict st = bindR (json_list (ds_bgp_peers st)) (\<lambda>bgp.
     bindR (json_list (ds_ibgp_peers st)) (\<lambda>ibgp.
     let out = [(''node_id'', ds_node_id st), (''revision'', ds_revision st), (''generated_at'', ds_generated_at st),
                (''bgp_peers'', bgp), (''ibgp_peers'', ibgp)]
     in if json_truthy (ds_node st) then bindR (json_dict (ds_node st)) (\<lambda>node. Inr (out @ [(''node'', node)]))
        else Inr out))"

definition node_block :: "ManagedNode option \<Rightarrow> jdict" where
  "node_block row = (case row of
     None \<Rightarrow> []
   | Some m \<Rightarrow> (if truthy (mn_own_ipv6 m) then [(''own_ipv6'', json_opt (mn_own_ipv6 m))] else [])
             @ (if truthy (mn_router_id m) then [(''router_id'', json_opt (mn_router_id m))] else []))"

definition load_node_block :: "string \<Rightarrow> jdict wop" where
  "load_node_block node_id = bnd (managed_get node_id) (\<lambda>row. ret (node_block row))"

definition bgp_row_to_dict :: "bgp_peer_row \<Rightarrow> json" where
  "bgp_row_to_dict r = JObj
     [(''peer_asn'', JInt (p_peer_asn r)), (''ifname'', JStr (p_ifname r)), (''wg_private_key'', JStr (p_wg_private_key r)),
      (''wg_public_key'', JStr (p_wg_public_key r)), (''peer_public_key'', json_opt (p_peer_public_key r)),
      (''endpoint'', json_opt (p_endpoint r)), (''local_lla'', JStr (p_local_lla r)), (''peer_lla'', json_opt (p_peer_lla r)),
      (''listen_port'', JInt (p_listen_port r)), (''allowed_ips'', JArr (map JStr (stored_allowed_ips (p_allowed_ips r)))),
      (''net_backend'', JStr (p_net_backend r))]"

definition ibgp_row_to_dict :: "ibgp_peer_row \<Rightarrow> json" where
  "ibgp_row_to_dict r = JObj
     [(''name'', JStr (p_name r)), (''ifname'', JStr (p_ifname r)), (''wg_private_key'', JStr (p_wg_private_key r)),
      (''wg_public_key'', JStr (p_wg_public_key r)), (''peer_public_key'', json_opt (p_peer_public_key r)),
      (''endpoint'', json_opt (p_endpoint r)), (''local_lla'', JStr (p_local_lla r)), (''peer_lla'', json_opt (p_peer_lla r)),
      (''peer_ip'', json_opt (p_peer_ip r)), (''has_wg'', JBool (p_has_wg r)), (''listen_port'', JInt (p_listen_port r)),
      (''allowed_ips'', JArr (map JStr (stored_allowed_ips (p_allowed_ips r)))), (''net_backend'', JStr (p_net_backend r)),
      (''babel_rxcost'', JInt (p_babel_rxcost r)), (''babel_type'', JStr (p_babel_type r))]"

section \<open>Digests and revisions\<close>

definition canon_object :: "json \<Rightarrow> json \<Rightarrow> json \<Rightarrow> json \<Rightarrow> json" where
  "canon_object node_id bgp ibgp node = JObj ([(''node_id'', node_id), (''bgp_peers'', bgp), (''ibgp_peers'', ibgp)]
     @ (if json_truthy node then [(''node'', node)] else []))"

definition short_digest :: "(string \<Rightarrow> string) \<Rightarrow> json \<Rightarrow> string" where
  "short_digest sha j = take 8 (sha (dumps (sort_keys j)))"

definition compute_content_digest :: "(string \<Rightarrow> string) \<Rightarrow> json \<Rightarrow> json \<Rightarrow> json \<Rightarrow> json \<Rightarrow> string" where
  "compute_content_digest sha node_id bgp ibgp node = short_digest sha (canon_object node_id bgp ibgp node)"

definition compute_revision :: "(string \<Rightarrow> string) \<Rightarrow> json \<Rightarrow> string \<Rightarrow> string" where
  "compute_revision sha payload generated_at = generated_at @ ''-'' @ short_digest sha payload"

definition digest_of_revision :: "string \<Rightarrow> string option" where
  "digest_of_revision revision = (case rpartition_at CHR ''-'' revision of
     (_, sep, digest) \<Rightarrow> if sep \<and> digest \<noteq> [] then Some digest else None)"

section \<open>Building\<close>

text \<open>\<open>db = Database.open(path); try: body; finally: db.close()\<close>.\<close>

definition with_db :: "'a wop \<Rightarrow> 'a wop" where
  "with_db body = bnd db_open (\<lambda>_. closing body)"

record DesiredFingerprint =
  df_node_id :: string
  df_content_hash :: string
  df_pinned_revision :: "string option"

definition live_bgp :: "bgp_peer_row list \<Rightarrow> json" where
  "live_bgp rows = JArr (map bgp_row_to_dict rows)"

definition live_ibgp :: "ibgp_peer_row list \<Rightarrow> json" where
  "live_ibgp rows = JArr (map ibgp_row_to_dict rows)"

definition compute_desired_fingerprint :: "(string \<Rightarrow> string) \<Rightarrow> string \<Rightarrow> DesiredFingerprint wop" where
  "compute_desired_fingerprint sha node_id =
     bnd (with_db (
       bnd (list_bgp_peers node_id) (\<lambda>bgp_rows.
       bnd (list_ibgp_peers node_id) (\<lambda>ibgp_rows.
       bnd (load_node_block node_id) (\<lambda>block.
       bnd (get_pin node_id) (\<lambda>pin.
       ret (bgp_rows, ibgp_rows, block, pin))))))) (\<lambda>x. case x of (bgp_rows, ibgp_rows, block, pin) \<Rightarrow>
     ret (case pin of
       Some p \<Rightarrow> \<lparr> df_node_id = node_id,
          df_content_hash = compute_content_digest sha (get_or (cr_payload p) ''node_id'' (JStr node_id))
            (get_or (cr_payload p) ''bgp_peers'' (JArr [])) (get_or (cr_payload p) ''ibgp_peers'' (JArr []))
            (get_or (cr_payload p) ''node'' (JObj [])),
          df_pinned_revision = Some (cr_revision p) \<rparr>
     | None \<Rightarrow> \<lparr> df_node_id = node_id,
          df_content_hash = compute_content_digest sha (JStr node_id) (live_bgp bgp_rows) (live_ibgp ibgp_rows) (JObj block),
          df_pinned_revision = None \<rparr>))"

definition snapshot :: "string \<Rightarrow> string \<Rightarrow> string \<Rightarrow> json \<Rightarrow> json \<Rightarrow> jdict \<Rightarrow> jdict" where
  "snapshot node_id revision generated_at bgp ibgp block =
     [(''node_id'', JStr node_id), (''revision'', JStr revision), (''generated_at'', JStr generated_at),
      (''bgp_peers'', bgp), (''ibgp_peers'', ibgp)] @ (if block \<noteq> [] then [(''node'', JObj block)] else [])"

text \<open>The recording half of \<open>build_desired_state\<close>: the revision and time to report, and the pin.\<close>

definition record_desired ::
  "string \<Rightarrow> string \<Rightarrow> string \<Rightarrow> json \<Rightarrow> json \<Rightarrow> jdict \<Rightarrow> nat \<Rightarrow> (string \<times> string \<times> ConfigRevision option) wop" where
  "record_desired node_id revision generated_at bgp ibgp block keep_latest = with_db (
     bnd (latest_revision node_id) (\<lambda>previous.
     bnd (if (case previous of None \<Rightarrow> False | Some p \<Rightarrow> digest_of_revision p = digest_of_revision revision)
          then bnd (get_by_revision node_id (the previous)) (\<lambda>existing. ret (case existing of
                 Some r \<Rightarrow> (cr_revision r, cr_generated_at r) | None \<Rightarrow> (revision, generated_at)))
          else bnd (revision_record node_id revision generated_at (snapshot node_id revision generated_at bgp ibgp block)) (\<lambda>_.
               bnd (revision_trim node_id keep_latest) (\<lambda>_. ret (revision, generated_at)))) (\<lambda>rg.
     bnd (get_pin node_id) (\<lambda>pin. ret (fst rg, snd rg, pin)))))"

definition pinned_state :: "jdict \<Rightarrow> DesiredState result" where
  "pinned_state payload =
     bindR (subscript payload ''node_id'') (\<lambda>n.
     bindR (subscript payload ''revision'') (\<lambda>r.
     bindR (subscript payload ''generated_at'') (\<lambda>g.
     Inr \<lparr> ds_node_id = n, ds_revision = r, ds_generated_at = g, ds_bgp_peers = get_or payload ''bgp_peers'' (JArr []),
           ds_ibgp_peers = get_or payload ''ibgp_peers'' (JArr []), ds_node = get_or payload ''node'' (JObj []) \<rparr>)))"

definition build_desired_state :: "(string \<Rightarrow> string) \<Rightarrow> string \<Rightarrow> bool \<Rightarrow> nat \<Rightarrow> DesiredState wop" where
  "build_desired_state sha node_id record_revision keep_latest =
     bnd (with_db (
       bnd (list_bgp_peers node_id) (\<lambda>bgp_rows.
       bnd (list_ibgp_peers node_id) (\<lambda>ibgp_rows.
       bnd (load_node_block node_id) (\<lambda>block. ret (bgp_rows, ibgp_rows, block)))))) (\<lambda>x. case x of (bgp_rows, ibgp_rows, block) \<Rightarrow>
     let bgp = live_bgp bgp_rows; ibgp = live_ibgp ibgp_rows;
         live = (\<lambda>revision generated_at. \<lparr> ds_node_id = JStr node_id, ds_revision = JStr revision,
                   ds_generated_at = JStr generated_at, ds_bgp_peers = bgp, ds_ibgp_peers = ibgp, ds_node = JObj block \<rparr>)
     in bnd now_iso (\<lambda>generated_at.
        let revision = compute_revision sha (canon_object (JStr node_id) bgp ibgp (JObj block)) generated_at
        in if record_revision
           then bnd (record_desired node_id revision generated_at bgp ibgp block keep_latest) (\<lambda>r. case r of (rv, gen, pin) \<Rightarrow>
                (case pin of Some p \<Rightarrow> lift_result (pinned_state (cr_payload p)) | None \<Rightarrow> ret (live rv gen)))
           else ret (live revision generated_at)))"

definition require_managed_node_exists :: "string \<Rightarrow> unit wop" where
  "require_managed_node_exists node_id = bnd (with_db (managed_get node_id)) (\<lambda>node. case node of
     None \<Rightarrow> raise (Dn42CtlError ''managed node does not exist'') | Some _ \<Rightarrow> ret ())"

section \<open>Revisions and rollback\<close>

definition list_revisions :: "string \<Rightarrow> nat \<Rightarrow> ConfigRevision list wop" where
  "list_revisions node_id limit = with_db (revision_list_for_node node_id limit)"

definition get_pinned :: "string \<Rightarrow> ConfigRevision option wop" where
  "get_pinned node_id = with_db (get_pin node_id)"

definition rollback_to :: "string \<Rightarrow> string \<Rightarrow> ConfigRevision wop" where
  "rollback_to node_id revision = with_db (bnd (get_by_revision node_id revision) (\<lambda>target. case target of
     None \<Rightarrow> raise (Dn42CtlError ''revision does not exist'')
   | Some r \<Rightarrow> bnd (revision_pin node_id revision) (\<lambda>_. ret r)))"

definition clear_rollback :: "string \<Rightarrow> unit wop" where
  "clear_rollback node_id = with_db (revision_unpin node_id)"

section \<open>What the operations do\<close>

lemma triple_with_db [wp]: "triple P body R E \<Longrightarrow> triple (\<lambda>d. P d \<and> migrated d \<and> E d) (with_db body) R E"
  unfolding with_db_def
  by (rule triple_pre, rule triple_bnd, rule triple_closing, assumption, rule triple_outcome, rule outcome_open) auto

lemma outcome_migrated:
  assumes "\<And>d. triple (\<lambda>d'. d' = d \<and> migrated d) m (R d) (Q d)"
  shows "outcome m (\<lambda>d x d'. migrated d \<longrightarrow> R d x d') (\<lambda>d d'. migrated d \<longrightarrow> Q d d')"
proof (rule outcome_triple)
  fix d
  show "triple (\<lambda>d'. d' = d) m (\<lambda>x d'. migrated d \<longrightarrow> R d x d') (\<lambda>d'. migrated d \<longrightarrow> Q d d')"
    using assms [of d] unfolding triple_def by (rule outcome_conseq) auto
qed

lemma outcome_store_reads [services]:
  "outcome (list_bgp_peers n) (\<lambda>d x d'. x = select_bgp n d \<and> d' = d) (\<lambda>d d'. d' = d)"
  "outcome (list_ibgp_peers n) (\<lambda>d x d'. x = select_ibgp n d \<and> d' = d) (\<lambda>d d'. d' = d)"
  "outcome (managed_get n) (\<lambda>d x d'. x = find_managed n d \<and> d' = d) (\<lambda>d d'. d' = d)"
  "outcome (get_pin n) (\<lambda>d x d'. x = find_pinned n d \<and> d' = d) (\<lambda>d d'. d' = d)"
  "outcome (latest_revision n) (\<lambda>d x d'. x = select_latest n d \<and> d' = d) (\<lambda>d d'. d' = d)"
  "outcome (get_by_revision n r) (\<lambda>d x d'. x = find_revision n r d \<and> d' = d) (\<lambda>d d'. d' = d)"
  by (rule outcome_read, rule read_only_methods read_only_managed read_only_stores,
      rule read_specs managed_read_specs get_pin_spec store_specs get_by_revision_spec)+

lemma outcome_now [services]: "outcome now_iso (\<lambda>d x d'. d' = d) (\<lambda>d d'. False)"
  by (simp add: outcome_def now_iso_def)

lemma outcome_load_block [services]:
  "outcome (load_node_block n) (\<lambda>d x d'. x = node_block (find_managed n d) \<and> d' = d) (\<lambda>d d'. d' = d)"
  unfolding load_node_block_def by (rule outcome_conseq, (rule services)+) auto

lemma outcome_revision_record [services]:
  "outcome (revision_record n r g pl)
     (\<lambda>d x d'. find_revision n r d = Some x \<and> d' = d \<or> (\<exists>i. insert_revision n r g pl d = Inr (i, d')))
     (\<lambda>d d'. d' = d \<or> (\<exists>i. insert_revision n r g pl d = Inr (i, d')))"
proof -
  have ins: "outcome (with_tx (\<lambda>_. msg) (sql_dml (insert_revision n r g pl)))
      (\<lambda>d i d'. insert_revision n r g pl d = Inr (i, d')) (\<lambda>d d'. d' = d)" for msg
    by (rule outcome_atomic) (auto intro!: atomic specs)
  have get: "outcome (revision_get i) (\<lambda>d x d'. d' = d) (\<lambda>d d'. d' = d)" for i
    by (rule outcome_quiet) (rule read_only_stores)
  show ?thesis
    unfolding revision_record_def
    by (rule outcome_conseq, (rule services ins get)+) (auto split: option.splits)
qed

lemma outcome_revision_writes [services]:
  "outcome (revision_trim n k) (\<lambda>d c d'. trim_revisions n k d = Inr (c, d')) (\<lambda>d d'. d' = d)"
  "outcome (revision_pin n r) (\<lambda>d _ d'. find_revision n r d \<noteq> None \<and> (\<exists>now now' d1.
     upsert_pin n r now d = Inr ((), d1) \<and> d' = after_event n SYNC_EVENT_DESIRED now' d1)) (\<lambda>d d'. d' = d)"
  "outcome (revision_unpin n) (\<lambda>d _ d'. \<exists>now d1. delete_pin n d = Inr ((), d1) \<and> d' = after_event n SYNC_EVENT_DESIRED now d1)
     (\<lambda>d d'. d' = d)"
  by (rule outcome_atomic, rule atomic_revisions, rule revision_trim_spec revision_pin_spec revision_unpin_spec)+

text \<open>The fingerprint as a function of the database.\<close>

definition fingerprint_of :: "(string \<Rightarrow> string) \<Rightarrow> string \<Rightarrow> database \<Rightarrow> DesiredFingerprint" where
  "fingerprint_of sha n d = (case find_pinned n d of
     Some p \<Rightarrow> \<lparr> df_node_id = n,
          df_content_hash = compute_content_digest sha (get_or (cr_payload p) ''node_id'' (JStr n))
            (get_or (cr_payload p) ''bgp_peers'' (JArr [])) (get_or (cr_payload p) ''ibgp_peers'' (JArr []))
            (get_or (cr_payload p) ''node'' (JObj [])),
          df_pinned_revision = Some (cr_revision p) \<rparr>
   | None \<Rightarrow> \<lparr> df_node_id = n, df_content_hash = compute_content_digest sha (JStr n) (live_bgp (select_bgp n d))
            (live_ibgp (select_ibgp n d)) (JObj (node_block (find_managed n d))), df_pinned_revision = None \<rparr>)"

lemma outcome_fingerprint [services]:
  "outcome (compute_desired_fingerprint sha n) (\<lambda>d x d'. migrated d \<longrightarrow> d' = d \<and> x = fingerprint_of sha n d)
     (\<lambda>d d'. migrated d \<longrightarrow> d' = d)"
  unfolding compute_desired_fingerprint_def
  by (rule outcome_migrated, rule triple_pre, (rule wp | rule triple_outcome, rule services)+)
    (auto simp: fingerprint_of_def)

text \<open>The content digest of the peers as they are in the database.\<close>

definition live_digest :: "(string \<Rightarrow> string) \<Rightarrow> string \<Rightarrow> database \<Rightarrow> string" where
  "live_digest sha n d = compute_content_digest sha (JStr n) (live_bgp (select_bgp n d)) (live_ibgp (select_ibgp n d))
     (JObj (node_block (find_managed n d)))"

definition live_state :: "string \<Rightarrow> string \<Rightarrow> string \<Rightarrow> database \<Rightarrow> DesiredState" where
  "live_state n rv gen d = \<lparr> ds_node_id = JStr n, ds_revision = JStr rv, ds_generated_at = JStr gen,
     ds_bgp_peers = live_bgp (select_bgp n d), ds_ibgp_peers = live_ibgp (select_ibgp n d), ds_node = JObj (node_block (find_managed n d)) \<rparr>"

definition live_snapshot :: "string \<Rightarrow> string \<Rightarrow> string \<Rightarrow> database \<Rightarrow> jdict" where
  "live_snapshot n rv gen d = snapshot n rv gen (live_bgp (select_bgp n d)) (live_ibgp (select_ibgp n d)) (node_block (find_managed n d))"

text \<open>Recording a revision and trimming; a revision that is there already is not written again.\<close>

definition recorded :: "string \<Rightarrow> string \<Rightarrow> string \<Rightarrow> jdict \<Rightarrow> database \<Rightarrow> database \<Rightarrow> bool" where
  "recorded n rv gen pl d d1 \<longleftrightarrow> find_revision n rv d \<noteq> None \<and> d1 = d \<or> (\<exists>i. insert_revision n rv gen pl d = Inr (i, d1))"

definition unchanged :: "string \<Rightarrow> string \<Rightarrow> database \<Rightarrow> bool" where
  "unchanged n rv d \<longleftrightarrow> (\<exists>p. select_latest n d = Some p \<and> digest_of_revision p = digest_of_revision rv)"

text \<open>The database a build leaves, and the revision and time it reports; and where it may stop.\<close>

definition built :: "string \<Rightarrow> string \<Rightarrow> string \<Rightarrow> jdict \<Rightarrow> nat \<Rightarrow> database \<Rightarrow> string \<Rightarrow> string \<Rightarrow> database \<Rightarrow> bool" where
  "built n rv gen pl k d rv' gen' d' \<longleftrightarrow>
     (if unchanged n rv d
      then d' = d \<and> (rv', gen') = (case find_revision n (the (select_latest n d)) d of
             Some r \<Rightarrow> (cr_revision r, cr_generated_at r) | None \<Rightarrow> (rv, gen))
      else rv' = rv \<and> gen' = gen \<and> (\<exists>d1 c. recorded n rv gen pl d d1 \<and> trim_revisions n k d1 = Inr (c, d')))"

inductive part_built :: "string \<Rightarrow> string \<Rightarrow> string \<Rightarrow> jdict \<Rightarrow> nat \<Rightarrow> database \<Rightarrow> database \<Rightarrow> bool" for n rv gen pl k d where
  part_none: "part_built n rv gen pl k d d"
| part_recorded: "recorded n rv gen pl d d1 \<Longrightarrow> part_built n rv gen pl k d d1"
| part_trimmed: "recorded n rv gen pl d d1 \<Longrightarrow> trim_revisions n k d1 = Inr (c, d') \<Longrightarrow> part_built n rv gen pl k d d'"

lemma recordedI: "find_revision n rv d = Some x \<Longrightarrow> recorded n rv gen pl d d"
  "insert_revision n rv gen pl d = Inr (i, d1) \<Longrightarrow> recorded n rv gen pl d d1"
  by (auto simp: recorded_def)

lemma outcome_record_desired [services]:
  "outcome (record_desired n rv gen bgp ibgp block k)
     (\<lambda>d x d'. migrated d \<longrightarrow> built n rv gen (snapshot n rv gen bgp ibgp block) k d (fst x) (fst (snd x)) d' \<and> snd (snd x) = find_pinned n d')
     (\<lambda>d d'. migrated d \<longrightarrow> part_built n rv gen (snapshot n rv gen bgp ibgp block) k d d')"
proof -
  have u: "(case p of None \<Rightarrow> False | Some p \<Rightarrow> digest_of_revision p = digest_of_revision rv) \<longleftrightarrow> unchanged n rv d"
    if "p = select_latest n d" for p d
    using that by (auto simp: unchanged_def split: option.splits)
  show ?thesis
    unfolding record_desired_def
    by (rule outcome_migrated, rule triple_pre, (rule wp | rule triple_outcome, rule services)+)
      (auto simp: u built_def intro: part_built.intros recordedI split: option.splits)
qed

lemma outcome_build [services]:
  "outcome (build_desired_state sha n True k)
     (\<lambda>d st d'. migrated d \<longrightarrow> (\<exists>gen rv' gen'.
        built n (gen @ ''-'' @ live_digest sha n d) gen (live_snapshot n (gen @ ''-'' @ live_digest sha n d) gen d) k d rv' gen' d' \<and>
        (case find_pinned n d' of Some p \<Rightarrow> pinned_state (cr_payload p) = Inr st | None \<Rightarrow> st = live_state n rv' gen' d)))
     (\<lambda>d d'. migrated d \<longrightarrow> (\<exists>gen. let rv = gen @ ''-'' @ live_digest sha n d in
        part_built n rv gen (live_snapshot n rv gen d) k d d' \<or>
        (\<exists>rv' gen'. built n rv gen (live_snapshot n rv gen d) k d rv' gen' d')))"
  unfolding build_desired_state_def Let_def compute_revision_def
  apply (rule outcome_migrated, rule triple_pre, (rule wp | rule triple_outcome, rule services)+)
  apply (auto simp: live_digest_def compute_content_digest_def live_snapshot_def live_state_def intro: part_none)
  done

section \<open>What a build keeps\<close>

text \<open>The peers, the registry and the schema, on which the content of a node depends.\<close>

definition same_content :: "database \<Rightarrow> database \<Rightarrow> bool" where
  "same_content d d' \<longleftrightarrow> bgp_peers d' = bgp_peers d \<and> ibgp_peers d' = ibgp_peers d \<and> managed_nodes d' = managed_nodes d \<and> nodes d' = nodes d
     \<and> db_schema d' = db_schema d \<and> schema_migrations d' = schema_migrations d"

lemma same_content_simps [simp]: "same_content d d" "same_content d (after_event n k now d') = same_content d d'"
  by (auto simp: same_content_def)

lemma same_content_trans: "same_content d d1 \<Longrightarrow> same_content d1 d2 \<Longrightarrow> same_content d d2"
  by (simp add: same_content_def)

lemma same_content_live:
  assumes "same_content d d'"
  shows "live_digest sha n d' = live_digest sha n d" and "live_state n rv g d' = live_state n rv g d" and "migrated d' = migrated d"
  using assms by (simp_all add: same_content_def live_digest_def live_state_def migrated_def has_table_def
      select_bgp_def select_ibgp_def find_managed_def)

lemma recorded_keeps:
  assumes "recorded n rv gen pl d d1" and "wf_db d"
  shows "same_content d d1" and "wf_db d1" and "find_pinned m d1 = find_pinned m d"
proof -
  consider "d1 = d" | i where "insert_revision n rv gen pl d = Inr (i, d1)" using assms(1) by (auto simp: recorded_def)
  then have "same_content d d1 \<and> wf_db d1 \<and> find_pinned m d1 = find_pinned m d"
  proof cases
    case 2
    then obtain x where d1: "d1 = d\<lparr> config_revisions := config_revisions d @ [x], revisions_seq := i \<rparr>"
      by (auto simp: insert_revision_def Let_def split: if_splits)
    have pin: "find_pinned m d1 = find_pinned m d"
    proof (cases "find_pin m d")
      case None
      then show ?thesis by (simp add: find_pinned_def find_pin_def d1)
    next
      case (Some p)
      with pin_resolves [OF assms(2) Some] obtain r where "find_revision m (dp_revision p) d = Some r" by blast
      with Some show ?thesis by (simp add: find_pinned_def find_pin_def d1 find_revision_def find_append)
    qed
    with keeps_wf_insert_revision [of n rv gen pl] assms(2) 2 show ?thesis
      by (auto simp: keeps_def same_content_def d1)
  qed (use assms in simp)
  then show "same_content d d1" and "wf_db d1" and "find_pinned m d1 = find_pinned m d" by auto
qed

lemma find_filter: "List.find p (filter q xs) = List.find p xs" if "\<And>x. x \<in> set xs \<Longrightarrow> p x \<Longrightarrow> q x"
  using that by (induction xs) auto

lemma trimmed_keeps:
  assumes "trim_revisions n k d = Inr (c, d')" and "wf_db d"
  shows "same_content d d'" and "wf_db d'" and "find_pinned m d' = find_pinned m d"
proof -
  have d': "d' = d\<lparr> config_revisions := filter (\<lambda>r. \<not> trimmed_out n k d r) (config_revisions d) \<rparr>"
    using assms(1) by (simp add: trim_revisions_def)
  show "same_content d d'" by (simp add: same_content_def d')
  show "wf_db d'" using keeps_wf_trim [of n k] assms by (auto simp: keeps_def)
  show "find_pinned m d' = find_pinned m d"
  proof (cases "find_pin m d")
    case None
    then show ?thesis by (simp add: find_pinned_def find_pin_def d')
  next
    case (Some p)
    then have p: "p \<in> set (node_desired_pin d)" "dp_node_id p = m"
      by (auto simp: find_pin_def dest: find_Some_set)
    have "find_revision m (dp_revision p) d' = find_revision m (dp_revision p) d"
      unfolding find_revision_def d' by (simp, rule find_filter) (use p trim_keeps_pinned in auto)
    with Some show ?thesis by (simp add: find_pinned_def find_pin_def d')
  qed
qed

lemma built_keeps:
  assumes "built n rv gen pl k d rv' gen' d'" and "wf_db d"
  shows "same_content d d'" and "wf_db d'" and "find_pinned m d' = find_pinned m d"
proof -
  consider "d' = d" | d1 c where "recorded n rv gen pl d d1" "trim_revisions n k d1 = Inr (c, d')"
    using assms(1) by (auto simp: built_def split: if_splits)
  then have "same_content d d' \<and> wf_db d' \<and> find_pinned m d' = find_pinned m d"
  proof cases
    case 2
    note r = recorded_keeps [OF 2(1) assms(2)]
    from trimmed_keeps [OF 2(2) r(2)] r show ?thesis by (auto intro: same_content_trans)
  qed (use assms in simp)
  then show "same_content d d'" and "wf_db d'" and "find_pinned m d' = find_pinned m d" by auto
qed

lemma build_returns:
  assumes "tx w = None" and "migrated (disk w)" and "wf_db (disk w)" and "build_desired_state sha n True k w = (Inr st, w')"
  obtains gen rv' gen' where "tx w' = None" and "migrated (disk w')" and "wf_db (disk w')" and "same_content (disk w) (disk w')"
    and "built n (gen @ ''-'' @ live_digest sha n (disk w)) gen (live_snapshot n (gen @ ''-'' @ live_digest sha n (disk w)) gen (disk w))
           k (disk w) rv' gen' (disk w')"
    and "case find_pinned n (disk w) of Some p \<Rightarrow> pinned_state (cr_payload p) = Inr st | None \<Rightarrow> st = live_state n rv' gen' (disk w)"
proof -
  from outcomeD(1,2) [OF outcome_build assms(1,4)] assms(2) obtain gen rv' gen' where tx: "tx w' = None"
    and b: "built n (gen @ ''-'' @ live_digest sha n (disk w)) gen (live_snapshot n (gen @ ''-'' @ live_digest sha n (disk w)) gen (disk w))
           k (disk w) rv' gen' (disk w')"
    and st: "case find_pinned n (disk w') of Some p \<Rightarrow> pinned_state (cr_payload p) = Inr st | None \<Rightarrow> st = live_state n rv' gen' (disk w)"
    by blast
  note k = built_keeps [OF b assms(3)]
  from that [OF tx _ k(2,1) b] st k(3) [of n] same_content_live(3) [OF k(1)] assms(2) show ?thesis by simp
qed

section \<open>Properties\<close>

definition content_hash :: "(string \<Rightarrow> string) \<Rightarrow> DesiredState \<Rightarrow> string" where
  "content_hash sha st = compute_content_digest sha (ds_node_id st) (ds_bgp_peers st) (ds_ibgp_peers st) (ds_node st)"

lemma content_hash_live: "content_hash sha (live_state n rv gen d) = live_digest sha n d"
  by (simp add: content_hash_def live_state_def live_digest_def)

lemma content_hash_pinned:
  "pinned_state pl = Inr st \<Longrightarrow> content_hash sha st = compute_content_digest sha (get_or pl ''node_id'' x)
     (get_or pl ''bgp_peers'' (JArr [])) (get_or pl ''ibgp_peers'' (JArr [])) (get_or pl ''node'' (JObj []))"
  by (auto simp: pinned_state_def content_hash_def bindR_def subscript_def get_or_def split: sum.splits option.splits)

text \<open>
  C9. The fingerprint the hub compares is the content digest of exactly the state the node
  would be sent, for a node that follows its live configuration and for one that is rolled
  back; reading it writes nothing.
\<close>

theorem fingerprint_matches_build:
  assumes "tx w = None" and "migrated (disk w)" and "wf_db (disk w)"
    and "compute_desired_fingerprint sha n w = (Inr fp, w1)" and "build_desired_state sha n True k w1 = (Inr st, w2)"
  shows "disk w1 = disk w \<and> content_hash sha st = df_content_hash fp"
proof -
  from outcomeD(1,2) [OF outcome_fingerprint assms(1,4)] assms(2)
  have w1: "tx w1 = None" "disk w1 = disk w" and fp: "fp = fingerprint_of sha n (disk w)" by auto
  from build_returns [OF w1(1) _ _ assms(5)] assms(2,3) w1(2) obtain rv' gen' where
    "case find_pinned n (disk w) of Some p \<Rightarrow> pinned_state (cr_payload p) = Inr st | None \<Rightarrow> st = live_state n rv' gen' (disk w)"
    by metis
  then have "content_hash sha st = df_content_hash fp"
    by (auto simp: fp fingerprint_of_def content_hash_live live_digest_def intro!: content_hash_pinned split: option.splits)
  with w1(2) show ?thesis by blast
qed

text \<open>\<open>hexdigest()\<close>: 64 hexadecimal digits.\<close>

definition hex_digests :: "(string \<Rightarrow> string) \<Rightarrow> bool" where
  "hex_digests sha \<longleftrightarrow> (\<forall>s. length (sha s) = 64 \<and> set (sha s) \<subseteq> set ''0123456789abcdef'')"

lemma digest_of_computed: "hex_digests sha \<Longrightarrow> digest_of_revision (gen @ ''-'' @ live_digest sha n d) = Some (live_digest sha n d)"
proof -
  assume h: "hex_digests sha"
  obtain j where j: "live_digest sha n d = take 8 (sha j)"
    by (auto simp: live_digest_def compute_content_digest_def short_digest_def)
  from h have "set (sha j) \<subseteq> set ''0123456789abcdef''" and l: "length (sha j) = 64" by (auto simp: hex_digests_def)
  then have "CHR ''-'' \<notin> set (sha j)" by auto
  then have "CHR ''-'' \<notin> set (take 8 (sha j))" by (meson in_set_takeD)
  moreover from l have "take 8 (sha j) \<noteq> []" by auto
  ultimately show ?thesis by (simp add: digest_of_revision_def rpartition_last j)
qed

lemma latest_found: "select_latest n d = Some p \<Longrightarrow> wf_db d \<Longrightarrow> \<exists>r. find_revision n p d = Some r \<and> cr_revision r = p"
proof -
  assume l: "select_latest n d = Some p" and wf: "wf_db d"
  then obtain r rs where "newest_revisions n d = r # rs" and p: "p = cr_revision r"
    by (auto simp: select_latest_def split: list.splits)
  then have "r \<in> set (newest_revisions n d)" by simp
  then have "r \<in> set (config_revisions d)" "cr_node_id r = n" by (auto simp: newest_revisions_def)
  with revision_unique [OF wf] p show ?thesis by auto
qed

text \<open>
  The revision that a build reports identifies the content: its digest is the digest of
  the peers and addresses in the database. When the newest recorded revision of the node has
  that digest already, the build reports that revision and writes nothing at all, so that
  rebuilding does not push the history of revisions out of the table.
\<close>

theorem build_reports_content:
  assumes "hex_digests sha" and "tx w = None" and "migrated (disk w)" and "wf_db (disk w)"
    and "build_desired_state sha n True k w = (Inr st, w')" and "find_pinned n (disk w) = None"
  shows "\<exists>rv. ds_revision st = JStr rv \<and> digest_of_revision rv = Some (live_digest sha n (disk w))
     \<and> content_hash sha st = live_digest sha n (disk w)
     \<and> (\<forall>p. select_latest n (disk w) = Some p \<and> digest_of_revision p = Some (live_digest sha n (disk w))
          \<longrightarrow> rv = p \<and> disk w' = disk w)"
proof -
  let ?dg = "live_digest sha n (disk w)"
  obtain gen rv' gen' where
    b: "built n (gen @ ''-'' @ ?dg) gen (live_snapshot n (gen @ ''-'' @ ?dg) gen (disk w)) k (disk w) rv' gen' (disk w')"
    and st: "st = live_state n rv' gen' (disk w)"
    by (rule build_returns [OF assms(2-5)]) (use assms(6) in simp)
  note dg = digest_of_computed [OF assms(1), of gen n "disk w", simplified]
  have u: "unchanged n (gen @ ''-'' @ ?dg) (disk w) \<longleftrightarrow> (\<exists>p. select_latest n (disk w) = Some p \<and> digest_of_revision p = Some ?dg)"
    by (auto simp: unchanged_def dg)
  show ?thesis
  proof (cases "unchanged n (gen @ ''-'' @ ?dg) (disk w)")
    case True
    with u obtain p where p: "select_latest n (disk w) = Some p" "digest_of_revision p = Some ?dg" by blast
    from latest_found [OF p(1) assms(4)] obtain r where "find_revision n p (disk w) = Some r" "cr_revision r = p" by blast
    with b True p have "rv' = p" "disk w' = disk w" by (auto simp: built_def)
    with p st content_hash_live show ?thesis by (auto simp: live_state_def)
  next
    case False
    with b have "rv' = gen @ ''-'' @ ?dg" by (auto simp: built_def)
    with False u st dg content_hash_live show ?thesis by (auto simp: live_state_def)
  qed
qed

section \<open>Rolling back\<close>

lemma outcome_rollback:
  "outcome (rollback_to n rv) (\<lambda>d r d'. migrated d \<longrightarrow> find_revision n rv d = Some r \<and> (\<exists>now now' d1.
      upsert_pin n rv now d = Inr ((), d1) \<and> d' = after_event n SYNC_EVENT_DESIRED now' d1)) (\<lambda>d d'. migrated d \<longrightarrow> d' = d)"
  unfolding rollback_to_def
  by (rule outcome_migrated, rule triple_pre, (rule wp | rule triple_outcome, rule services)+) auto

lemma outcome_clear:
  "outcome (clear_rollback n) (\<lambda>d _ d'. migrated d \<longrightarrow> (\<exists>now d1. delete_pin n d = Inr ((), d1) \<and> d' = after_event n SYNC_EVENT_DESIRED now d1))
     (\<lambda>d d'. migrated d \<longrightarrow> d' = d)"
  unfolding clear_rollback_def
  by (rule outcome_migrated, rule triple_pre, (rule wp | rule triple_outcome, rule services)+) auto

lemma wf_after_event: "wf_db d \<Longrightarrow> wf_db (after_event n k now d)"
  by (simp add: wf_frame after_event_ids)

lemma pinned_after:
  assumes "wf_db d" and "find_revision n rv d = Some r" and "upsert_pin n rv now d = Inr ((), d1)"
  shows "same_content d (after_event n k now' d1)" and "wf_db (after_event n k now' d1)"
    and "find_pinned n (after_event n k now' d1) = Some r"
proof -
  have d1: "same_content d d1" "config_revisions d1 = config_revisions d"
    using assms(3) by (auto simp: upsert_pin_def same_content_def split: if_splits)
  then show "same_content d (after_event n k now' d1)" by simp
  show "wf_db (after_event n k now' d1)" using upsert_pin_wf [OF assms(1) _ assms(3)] assms(2) by (simp add: wf_after_event)
  show "find_pinned n (after_event n k now' d1) = Some r"
    using find_pin_upserted [OF assms(3)] assms(2) d1(2) by (auto simp: find_pinned_def find_pin_def find_revision_def)
qed

lemma cleared_after:
  assumes "wf_db d" and "delete_pin n d = Inr ((), d1)"
  shows "same_content d (after_event n k now d1)" and "wf_db (after_event n k now d1)"
    and "find_pinned n (after_event n k now d1) = None"
proof -
  have d1: "d1 = d\<lparr> node_desired_pin := filter (\<lambda>p. dp_node_id p \<noteq> n) (node_desired_pin d) \<rparr>"
    using assms(2) by (simp add: delete_pin_def)
  show "same_content d (after_event n k now d1)" by (simp add: same_content_def d1)
  have "find_pin n (after_event n k now d1) = None" by (simp add: d1 find_pin_def find_None_set)
  then show "find_pinned n (after_event n k now d1) = None" by (simp add: find_pinned_def)
  show "wf_db (after_event n k now d1)" using keeps_wf_delete_pin [of n] assms by (auto simp: keeps_def intro: wf_after_event)
qed

text \<open>
  C26. After \<open>rollback_to\<close> the node is sent the snapshot of that revision as it was recorded,
  and after \<open>clear_rollback\<close> again the peers and addresses that are in the database, which the
  rollback did not touch.
\<close>

theorem rollback_roundtrip:
  assumes "tx w = None" and "migrated (disk w)" and "wf_db (disk w)"
    and "rollback_to n rv w = (Inr r, w1)" and "build_desired_state sha n True k w1 = (Inr st1, w2)"
    and "clear_rollback n w2 = (Inr (), w3)" and "build_desired_state sha n True k w3 = (Inr st2, w4)"
  shows "find_revision n rv (disk w) = Some r \<and> pinned_state (cr_payload r) = Inr st1
    \<and> content_hash sha st2 = live_digest sha n (disk w)"
proof -
  from outcomeD(1,2) [OF outcome_rollback assms(1,4)] assms(2) obtain now now' d1 where tx1: "tx w1 = None"
    and r: "find_revision n rv (disk w) = Some r" and u: "upsert_pin n rv now (disk w) = Inr ((), d1)"
    and w1: "disk w1 = after_event n SYNC_EVENT_DESIRED now' d1" by blast
  note p1 = pinned_after [OF assms(3) r u, of SYNC_EVENT_DESIRED now', folded w1]
  have m1: "migrated (disk w1)" using same_content_live(3) [OF p1(1)] assms(2) by simp
  obtain tx2: "tx w2 = None" and m2: "migrated (disk w2)" and wf2: "wf_db (disk w2)" and c2: "same_content (disk w1) (disk w2)"
    and st1: "pinned_state (cr_payload r) = Inr st1"
    by (rule build_returns [OF tx1 m1 p1(2) assms(5)]) (use p1 in simp)
  from outcomeD(1,2) [OF outcome_clear tx2 assms(6)] m2 obtain now3 d3 where tx3: "tx w3 = None"
    and u3: "delete_pin n (disk w2) = Inr ((), d3)" and w3: "disk w3 = after_event n SYNC_EVENT_DESIRED now3 d3" by blast
  note p3 = cleared_after [OF wf2 u3, of SYNC_EVENT_DESIRED now3, folded w3]
  have m3: "migrated (disk w3)" using same_content_live(3) [OF p3(1)] m2 by simp
  obtain rv' gen' where st2: "st2 = live_state n rv' gen' (disk w3)"
    by (rule build_returns [OF tx3 m3 p3(2) assms(7)]) (use p3 in simp)
  have "live_digest sha n (disk w3) = live_digest sha n (disk w)"
    using same_content_live(1) p1(1) c2 p3(1) by metis
  with r st1 st2 show ?thesis by (simp add: content_hash_live)
qed

section \<open>Progress\<close>

lemma total_get_pin [total]: "succeeds b (\<lambda>d. R (find_pinned n d) d) (get_pin n) R"
  unfolding get_pin_def get_by_revision_def
  by (rule total_pre, (rule total)+) (auto simp: find_pinned_def split: option.splits)

lemma total_revisions [total]:
  "succeeds b (\<lambda>d. S (select_latest n d) d) (latest_revision n) S"
  unfolding latest_revision_def by (rule total)+

lemma total_with_db [total]: "succeeds False P m R \<Longrightarrow> succeeds False (\<lambda>d. migrated d \<and> P d) (with_db m) R"
  unfolding with_db_def by (rule total_bnd, rule total_closing, assumption, rule total_open)

lemma total_record: "succeeds False (\<lambda>d. has_node d n \<and> (\<forall>d'. recorded n rv gen pl d d' \<longrightarrow> (\<forall>r. R r d'))) (revision_record n rv gen pl) R"
  unfolding revision_record_def get_by_revision_def revision_get_def
  by (rule total_pre, (rule total)+) (auto simp: recorded_def insert_revision_def find_append split: option.splits)

lemma recorded_trimmed:
  "recorded m rv gen pl d d' \<Longrightarrow> wf_db d \<Longrightarrow>
     find_pinned n (d'\<lparr> config_revisions := filter (\<lambda>r. \<not> trimmed_out m k d' r) (config_revisions d') \<rparr>) = find_pinned n d"
  using trimmed_keeps(3) [of m k d'] recorded_keeps [of m rv gen pl d d'] by (simp add: trim_revisions_def)

lemma total_record_desired:
  "succeeds False (\<lambda>d. migrated d \<and> wf_db d \<and> has_node d n \<and> (\<forall>rv gen d'. R (rv, gen, find_pinned n d) d'))
     (record_desired n rv gen bgp ibgp block k) R"
  unfolding record_desired_def revision_trim_def get_by_revision_def
  by (rule total_pre, (rule total total_record)+)
    (auto simp: trim_revisions_def recorded_trimmed split: option.splits)

lemma total_build:
  "succeeds False (\<lambda>d'. d' = d \<and> migrated d \<and> wf_db d \<and> has_node d n \<and> (\<forall>p. find_pinned n d = Some p \<longrightarrow> (\<exists>st. pinned_state (cr_payload p) = Inr st)))
     (build_desired_state sha n rec k) (\<lambda>_ _. True)"
  unfolding build_desired_state_def Let_def load_node_block_def
  by (rule total_pre, (rule total_record_desired total)+) (auto split: option.splits)

lemma total_clear:
  "succeeds False (\<lambda>d. migrated d \<and> (\<forall>now d1. delete_pin n d = Inr ((), d1) \<longrightarrow> R () (after_event n SYNC_EVENT_DESIRED now d1))) (clear_rollback n) R"
  unfolding clear_rollback_def revision_unpin_def
  by (rule total_pre, (rule total)+) (auto simp: delete_pin_def)

lemma total_rollback:
  "succeeds False (\<lambda>d. migrated d \<and> has_node d n \<and> (\<exists>r. find_revision n rv d = Some r) \<and> (\<forall>r now now' d1. find_revision n rv d = Some r
       \<and> upsert_pin n rv now d = Inr ((), d1) \<longrightarrow> R r (after_event n SYNC_EVENT_DESIRED now' d1))) (rollback_to n rv) R"
  unfolding rollback_to_def revision_pin_def get_by_revision_def
  by (rule total_pre, (rule total)+) (auto simp: upsert_pin_def)

text \<open>
  A desired state can always be built: for a node of the registry, while no statement
  fails, \<open>build_desired_state\<close> returns, whether it records a revision or finds one, and for a
  rolled back node whenever the pinned snapshot has its three header fields.
\<close>

theorem build_desired_state_returns:
  assumes "no_faults w" and "tx w = None" and "migrated (disk w)" and "wf_db (disk w)" and "has_node (disk w) n"
    and "\<And>p key. find_pinned n (disk w) = Some p \<Longrightarrow> key \<in> {''node_id'', ''revision'', ''generated_at''} \<Longrightarrow> dict_get (cr_payload p) key \<noteq> None"
  shows "\<exists>st w'. build_desired_state sha n rec k w = (Inr st, w')"
proof -
  have "\<exists>st. pinned_state (cr_payload p) = Inr st" if "find_pinned n (disk w) = Some p" for p
    using assms(6) [OF that, of "''node_id''"] assms(6) [OF that, of "''revision''"] assms(6) [OF that, of "''generated_at''"]
    by (auto simp: pinned_state_def subscript_def bindR_def)
  with assms show ?thesis by (auto elim: totalD [OF total_build, of w "disk w" n sha rec k])
qed

section \<open>The properties at work\<close>

definition zero_sha :: "string \<Rightarrow> string" where "zero_sha s = replicate 64 CHR ''0''"

lemma zero_sha_hex: "hex_digests zero_sha" by (auto simp: hex_digests_def zero_sha_def)

definition history_db :: database where
  "history_db = ready (sample_db\<lparr> config_revisions := [\<lparr> cr_id = 1, cr_node_id = ''n1'', cr_revision = ''r-00000000'', cr_generated_at = ''r'',
     cr_payload = [(''node_id'', JStr ''n1''), (''revision'', JStr ''r-00000000''), (''generated_at'', JStr ''r'')] \<rparr>], revisions_seq := 1 \<rparr>)"

lemma history_db_ok: "migrated history_db" "wf_db history_db"
  by (simp_all add: history_db_def) (simp add: ready_def wf_frame eval_rows ids_ok_def single_self_def)

lemma history_facts:
  "has_node history_db ''n1''" "find_pinned ''n1'' history_db = None" "no_faults (start_world history_db)"
  by (simp_all add: history_db_def ready_def eval_rows has_node_def find_pinned_def find_pin_def no_faults_def)

theorem build_desired_state_returns_witness: "\<exists>st w'. build_desired_state zero_sha ''n1'' True 5 (start_world history_db) = (Inr st, w')"
  by (rule build_desired_state_returns) (simp_all add: history_facts history_db_ok)

lemma total_fingerprint:
  "succeeds False (\<lambda>d'. d' = d \<and> migrated d) (compute_desired_fingerprint sha n) (\<lambda>fp d'. d' = d \<and> fp = fingerprint_of sha n d)"
  unfolding compute_desired_fingerprint_def load_node_block_def
  by (rule total_pre, (rule total)+) (auto simp: fingerprint_of_def find_pinned_def split: option.splits)

lemma build_history: obtains st w' where "build_desired_state zero_sha ''n1'' True 5 (start_world history_db) = (Inr st, w')"
  by (rule totalD [OF total_build [of history_db "''n1''" zero_sha True 5], of "start_world history_db"])
    (auto simp: history_facts history_db_ok)

theorem fingerprint_matches_build_witness:
  "\<exists>fp w1 st w2. compute_desired_fingerprint zero_sha ''n1'' (start_world history_db) = (Inr fp, w1)
     \<and> build_desired_state zero_sha ''n1'' True 5 w1 = (Inr st, w2) \<and> content_hash zero_sha st = df_content_hash fp"
proof -
  obtain fp w1 where r: "compute_desired_fingerprint zero_sha ''n1'' (start_world history_db) = (Inr fp, w1)"
    and w1: "no_faults w1" "tx w1 = None" "disk w1 = history_db"
    by (rule totalD [OF total_fingerprint [of history_db zero_sha "''n1''"], of "start_world history_db"])
      (auto simp: history_facts history_db_ok)
  obtain st w2 where r2: "build_desired_state zero_sha ''n1'' True 5 w1 = (Inr st, w2)"
    by (rule totalD [OF total_build [of history_db "''n1''" zero_sha True 5], of w1]) (auto simp: history_facts history_db_ok w1)
  with fingerprint_matches_build [OF _ _ _ r r2] history_db_ok r show ?thesis by auto
qed

theorem build_reports_content_witness:
  "\<exists>st w' rv. build_desired_state zero_sha ''n1'' True 5 (start_world history_db) = (Inr st, w')
     \<and> ds_revision st = JStr rv \<and> digest_of_revision rv = Some (live_digest zero_sha ''n1'' history_db)"
proof -
  obtain st w' where r: "build_desired_state zero_sha ''n1'' True 5 (start_world history_db) = (Inr st, w')" by (rule build_history)
  with build_reports_content [OF zero_sha_hex _ _ _ r] history_db_ok history_facts show ?thesis by auto
qed

theorem rollback_roundtrip_witness:
  "\<exists>r w1 st1 w2 w3 st2 w4. rollback_to ''n1'' ''r-00000000'' (start_world history_db) = (Inr r, w1)
     \<and> build_desired_state zero_sha ''n1'' True 5 w1 = (Inr st1, w2) \<and> clear_rollback ''n1'' w2 = (Inr (), w3)
     \<and> build_desired_state zero_sha ''n1'' True 5 w3 = (Inr st2, w4)
     \<and> pinned_state (cr_payload r) = Inr st1 \<and> content_hash zero_sha st2 = live_digest zero_sha ''n1'' history_db"
proof -
  define P where "P d \<longleftrightarrow> migrated d \<and> wf_db d \<and> has_node d ''n1''" for d
  have P: "P d'" if "P d" "same_content d d'" "wf_db d'" for d d'
    using that same_content_live(3) [OF that(2)] by (simp add: P_def same_content_def has_node_def)
  have "\<exists>x. find_revision ''n1'' ''r-00000000'' history_db = Some x \<and> (\<exists>st. pinned_state (cr_payload x) = Inr st)"
    by (simp add: history_db_def ready_def find_revision_def pinned_state_def bindR_def subscript_def dict_get_def)
  then obtain x st where x: "find_revision ''n1'' ''r-00000000'' history_db = Some x" "pinned_state (cr_payload x) = Inr st" by blast
  have h: "P history_db" using history_db_ok history_facts by (simp add: P_def)
  have u: "find_pinned ''n1'' (after_event ''n1'' SYNC_EVENT_DESIRED now' d1) = Some x \<and> P (after_event ''n1'' SYNC_EVENT_DESIRED now' d1)"
    if "upsert_pin ''n1'' ''r-00000000'' now history_db = Inr ((), d1)" for now now' d1
    using pinned_after [OF history_db_ok(2) x(1) that] P [OF h] by blast
  obtain r w1 where 1: "rollback_to ''n1'' ''r-00000000'' (start_world history_db) = (Inr r, w1)" "no_faults w1" "tx w1 = None"
      and p1: "find_pinned ''n1'' (disk w1) = Some x" "P (disk w1)"
    by (rule totalD [OF total_rollback [of "''n1''" "''r-00000000''" "\<lambda>_ d. find_pinned ''n1'' d = Some x \<and> P d"], of "start_world history_db"])
      (use u h x(1) history_facts(3) in \<open>simp_all add: P_def\<close>)
  have b: "\<exists>st w'. build_desired_state zero_sha ''n1'' True 5 w = (Inr st, w') \<and> no_faults w' \<and> tx w' = None \<and> P (disk w')"
    if w: "no_faults w" "tx w = None" "P (disk w)" "find_pinned ''n1'' (disk w) \<in> {None, Some x}" for w
  proof -
    obtain st w' where r: "build_desired_state zero_sha ''n1'' True 5 w = (Inr st, w')" and w': "no_faults w'"
      by (rule totalD [OF total_build [of "disk w" "''n1''" zero_sha True 5], of w]) (use w x(2) in \<open>auto simp: P_def\<close>)
    show ?thesis by (rule build_returns [OF w(2) _ _ r]) (use w w' r P [OF w(3)] in \<open>auto simp: P_def\<close>)
  qed
  from b [of w1] 1 p1 obtain st1 w2 where 2: "build_desired_state zero_sha ''n1'' True 5 w1 = (Inr st1, w2)"
    "no_faults w2" "tx w2 = None" "P (disk w2)" by auto
  have c: "find_pinned ''n1'' (after_event ''n1'' SYNC_EVENT_DESIRED now d1) = None \<and> P (after_event ''n1'' SYNC_EVENT_DESIRED now d1)"
    if "delete_pin ''n1'' (disk w2) = Inr ((), d1)" for now d1
    using cleared_after [OF _ that] P [OF 2(4)] 2(4) by (auto simp: P_def)
  obtain y w3 where 3: "clear_rollback ''n1'' w2 = (Inr y, w3)" "no_faults w3" "tx w3 = None"
    "find_pinned ''n1'' (disk w3) = None" "P (disk w3)"
    by (rule totalD [OF total_clear [of "''n1''" "\<lambda>_ d. find_pinned ''n1'' d = None \<and> P d"], of w2])
      (use c 2 in \<open>simp_all add: P_def\<close>)
  from b [of w3] 3 obtain st2 w4 where 4: "build_desired_state zero_sha ''n1'' True 5 w3 = (Inr st2, w4)" by auto
  with rollback_roundtrip [OF _ _ _ 1(1) 2(1) _ 4] history_db_ok 1(1) 2(1) 3(1) show ?thesis by auto
qed

end
