(* ===== verification/Frames.thy ===== *)
theory Frames
  imports Desired
begin

text \<open>
  Frame conditions of whole services: a relation between the durable database before and
  after that holds however far a run gets. The locale has the rules once for every such
  relation; \<open>confined n\<close> is the one that keeps nodes apart.
\<close>

definition within :: "(database \<Rightarrow> database \<Rightarrow> bool) \<Rightarrow> 'a wop \<Rightarrow> bool" where
  "within K m \<longleftrightarrow> outcome m (\<lambda>d _ d'. migrated d \<longrightarrow> K d d') (\<lambda>d d'. migrated d \<longrightarrow> K d d')"

lemma withinD: "within K m \<Longrightarrow> tx w = None \<Longrightarrow> migrated (disk w) \<Longrightarrow> K (disk w) (disk (snd (m w))) \<and> tx (snd (m w)) = None"
  by (auto simp: within_def outcome_def split: sum.splits)

lemma within_outcome:
  "outcome m R Q \<Longrightarrow> (\<And>d x d'. migrated d \<Longrightarrow> R d x d' \<Longrightarrow> K d d') \<Longrightarrow> (\<And>d d'. migrated d \<Longrightarrow> Q d d' \<Longrightarrow> K d d') \<Longrightarrow> within K m"
  unfolding within_def by (erule outcome_conseq) auto

locale frame =
  fixes K :: "database \<Rightarrow> database \<Rightarrow> bool"
  assumes K_refl: "K d d"
    and K_trans: "K d d' \<Longrightarrow> K d' d'' \<Longrightarrow> K d d''"
    and K_migrated: "K d d' \<Longrightarrow> migrated d \<Longrightarrow> migrated d'"
begin

lemma quiet: "read_only m \<Longrightarrow> within K m"
  by (rule within_outcome, erule outcome_quiet) (auto intro: K_refl)

lemma unchanged_outcome: "outcome m R Q \<Longrightarrow> (\<And>d x d'. R d x d' \<Longrightarrow> d' = d) \<Longrightarrow> (\<And>d d'. Q d d' \<Longrightarrow> d' = d) \<Longrightarrow> within K m"
  by (erule within_outcome) (metis K_refl)+

lemma basic: "within K (ret x)" "within K (raise e)" "within K (lift_result r)"
  by (rule unchanged_outcome, rule services, auto)+

lemma bind: "within K m \<Longrightarrow> (\<And>x. within K (f x)) \<Longrightarrow> within K (bnd m f)"
  unfolding within_def
  by (rule outcome_conseq, rule outcome_bnd, assumption, assumption) (blast intro: K_trans K_migrated)+

lemma ifs: "within K m \<Longrightarrow> within K n \<Longrightarrow> within K (if b then m else n)"
  by simp

lemma options: "within K m \<Longrightarrow> (\<And>y. within K (f y)) \<Longrightarrow> within K (case z of None \<Rightarrow> m | Some y \<Rightarrow> f y)"
  by (cases z) auto

lemma handle: "within K m \<Longrightarrow> (\<And>e. within K (h e)) \<Longrightarrow> within K (try_except m h)"
  unfolding within_def
  by (rule outcome_conseq, rule outcome_try, assumption, assumption) (blast intro: K_trans K_migrated)+

lemma reraise: "within K m \<Longrightarrow> within K (reraise_as c k m)"
  unfolding reraise_as_def by (intro handle ifs basic)

lemma shutting: "within K m \<Longrightarrow> within K (closing m)"
  unfolding closing_def within_def by (rule services)

lemma database_open: "within K db_open"
  by (rule within_outcome, rule outcome_open) (auto intro: K_refl)

lemma with_database: "within K m \<Longrightarrow> within K (with_db m)"
  unfolding with_db_def by (intro bind database_open shutting)

lemmas rules = basic bind ifs options handle reraise shutting database_open with_database

end

text \<open>What a service for node \<open>n\<close> may touch: its own row of \<open>nodes\<close>, its own peers, its own notifications.\<close>

definition confined :: "string \<Rightarrow> database \<Rightarrow> database \<Rightarrow> bool" where
  "confined n d d' \<longleftrightarrow>
     filter (\<lambda>r. n_node_id r \<noteq> n) (nodes d') = filter (\<lambda>r. n_node_id r \<noteq> n) (nodes d)
   \<and> filter (\<lambda>r. p_node_id r \<noteq> n) (bgp_peers d') = filter (\<lambda>r. p_node_id r \<noteq> n) (bgp_peers d)
   \<and> filter (\<lambda>r. p_node_id r \<noteq> n) (ibgp_peers d') = filter (\<lambda>r. p_node_id r \<noteq> n) (ibgp_peers d)
   \<and> set (sync_events d') \<subseteq> set (sync_events d) \<union> {e. se_node_id e = n}
   \<and> managed_nodes d' = managed_nodes d \<and> config_revisions d' = config_revisions d
   \<and> node_desired_pin d' = node_desired_pin d
   \<and> revisions_seq d' = revisions_seq d
   \<and> db_schema d' = db_schema d \<and> db_indexes d' = db_indexes d \<and> schema_migrations d' = schema_migrations d"

interpretation own: frame "confined n" for n
  by unfold_locales (auto simp: confined_def migrated_def has_table_def)

text \<open>The peer services moreover leave proposals and reports alone.\<close>

definition peers_only :: "string \<Rightarrow> database \<Rightarrow> database \<Rightarrow> bool" where
  "peers_only n d d' \<longleftrightarrow> confined n d d' \<and> config_proposals d' = config_proposals d \<and> proposals_seq d' = proposals_seq d
     \<and> node_reports d' = node_reports d \<and> reports_seq d' = reports_seq d"

interpretation peers: frame "peers_only n" for n
  by unfold_locales (auto simp: peers_only_def intro: own.K_refl own.K_trans own.K_migrated)

lemma filter_map_same: "(\<And>x. x \<in> set xs \<Longrightarrow> P x \<Longrightarrow> f x = x) \<Longrightarrow> (\<And>x. x \<in> set xs \<Longrightarrow> \<not> P x \<Longrightarrow> \<not> P (f x)) \<Longrightarrow> filter P (map f xs) = filter P xs"
  by (induction xs) auto

lemma filter_filter_same: "(\<And>x. x \<in> set xs \<Longrightarrow> P x \<Longrightarrow> Q x) \<Longrightarrow> filter P (filter Q xs) = filter P xs"
  by (induction xs) auto

named_theorems confine \<open>statements that keep to one node\<close>

lemma peers_only_event [confine]: "peers_only n d d1 \<Longrightarrow> peers_only n d (after_event n k now d1)"
  by (auto simp: peers_only_def confined_def) (auto simp: after_event_def Let_def split: if_splits)

lemma peers_only_node [confine]:
  assumes "peers_only n d d0" and "upsert_node_row n now d0 = Inr (u, d1)"
  shows "peers_only n d d1"
proof -
  have "filter (\<lambda>r. n_node_id r \<noteq> n) (nodes d1) = filter (\<lambda>r. n_node_id r \<noteq> n) (nodes d0)"
    using assms(2) by (auto simp: upsert_node_row_def intro!: filter_map_same split: if_splits)
  with assms show ?thesis by (auto simp: peers_only_def confined_def upsert_node_row_def split: if_splits)
qed

lemma peers_only_statements:
  "insert_bgp_row brec now d = Inr (u, d') \<Longrightarrow> peers_only (p_node_id brec) d d'"
  "insert_ibgp_row irec now d = Inr (u, d') \<Longrightarrow> peers_only (p_node_id irec) d d'"
  "update_bgp_rows n a pk ep lla p ips be now d = Inr (c, d') \<Longrightarrow> peers_only n d d'"
  "update_ibgp_rows n m pk ep lla p ips be rx ip bt rm now d = Inr (c, d') \<Longrightarrow> peers_only n d d'"
  "delete_bgp_rows n a d = Inr (c, d') \<Longrightarrow> peers_only n d d'"
  "delete_ibgp_rows n m d = Inr (c, d') \<Longrightarrow> peers_only n d d'"
  by (auto simp: peers_only_def confined_def insert_bgp_row_def bgp_row_of_def BgpPeerRecord.defs insert_ibgp_row_def update_bgp_rows_def
      update_ibgp_rows_def delete_bgp_rows_def delete_ibgp_rows_def bgp_key_def ibgp_key_def
      simp del: filter_filter intro!: filter_map_same filter_filter_same split: if_splits)

lemmas peers_only_rows [confine] = peers_only_statements [THEN peers.K_trans [rotated]]

lemma peers_only_stopped: "stopped n C d d' \<Longrightarrow> (C d d' \<Longrightarrow> peers_only n d d') \<Longrightarrow> peers_only n d d'"
  by (induction rule: stopped.induct) (auto intro: confine peers.K_refl)

lemma peers_only_created:
  "bgp_created n a p d d' \<Longrightarrow> peers_only n d d'" "ibgp_created n m hw p i d d' \<Longrightarrow> peers_only n d d'"
  unfolding bgp_created_def ibgp_created_def by (elim exE conjE, hypsubst, metis confine peers.K_refl)+

lemma peers_only_modified:
  "bgp_modified n a p d d' \<Longrightarrow> peers_only n d d'" "ibgp_modified n m rm p d d' \<Longrightarrow> peers_only n d d'"
  unfolding bgp_modified_def ibgp_modified_def by (elim exE conjE, hypsubst, metis confine peers.K_refl)+

lemma outcome_delete_ibgp:
  "outcome (delete_ibgp_peer c m n False)
     (\<lambda>d res d'. migrated d \<longrightarrow> (\<exists>name c' now d1. sanitize_name m = Inr name \<and> delete_ibgp_rows (or_else n (ac_node_id c)) name d = Inr (c', d1)
        \<and> d' = after_event (or_else n (ac_node_id c)) SYNC_EVENT_DESIRED now d1))
     (\<lambda>d d'. migrated d \<longrightarrow> d' = d)"
  unfolding delete_ibgp_peer_def Let_def if_False
  by (rule outcome_triple, rule triple_pre, (rule wp | rule triple_outcome, rule services)+) auto

lemma within_services:
  shows "within (peers_only (or_else n (ac_node_id c))) (create_bgp_peer c asn pk ep lla nb lp k wk l n rf ips)"
    and "within (peers_only (or_else n (ac_node_id c))) (modify_bgp_peer c asn pk ep lla nb lp n rf ips)"
    and "within (peers_only (or_else n (ac_node_id c))) (delete_bgp_peer c asn n rf)"
    and "within (peers_only (or_else n (ac_node_id c))) (create_ibgp_peer c name ip hw pk' ep' lla' nb' rx bt lp k wk l n rf ips rm)"
    and "within (peers_only (or_else n (ac_node_id c))) (modify_ibgp_peer c name pk ep lla nb rx bt ip lp n rf ips rm')"
    and "within (peers_only (or_else n (ac_node_id c))) (delete_ibgp_peer c name n False)"
proof -
  note stop = peers_only_stopped peers_only_created peers_only_modified
  show "within (peers_only (or_else n (ac_node_id c))) (create_bgp_peer c asn pk ep lla nb lp k wk l n rf ips)"
    by (rule within_outcome, rule outcome_create_bgp) (auto intro: stop)
  show "within (peers_only (or_else n (ac_node_id c))) (modify_bgp_peer c asn pk ep lla nb lp n rf ips)"
    by (rule within_outcome, rule outcome_modify_bgp) (auto intro: stop)
  show "within (peers_only (or_else n (ac_node_id c))) (delete_bgp_peer c asn n rf)"
    by (rule within_outcome, rule outcome_delete_bgp) (auto intro: confine peers.K_refl)
  show "within (peers_only (or_else n (ac_node_id c))) (create_ibgp_peer c name ip hw pk' ep' lla' nb' rx bt lp k wk l n rf ips rm)"
    by (rule within_outcome, rule outcome_create_ibgp) (auto intro: stop)
  show "within (peers_only (or_else n (ac_node_id c))) (modify_ibgp_peer c name pk ep lla nb rx bt ip lp n rf ips rm')"
    by (rule within_outcome, rule outcome_modify_ibgp) (auto intro: stop)
  show "within (peers_only (or_else n (ac_node_id c))) (delete_ibgp_peer c name n False)"
    by (rule within_outcome, rule outcome_delete_ibgp) (auto intro: confine peers.K_refl)
qed

end
