(* ===== verification/Proposals.thy ===== *)
theory Proposals
  imports Frames Payload
begin

text \<open>
  \<open>services/proposals.py\<close>, \<open>services/proposal_decisions.py\<close>, \<open>services/reports.py\<close> and
  \<open>services/report_import.py\<close>: what a node may ask of the hub, and how the hub decides. The
  payloads are untrusted JSON; they reach the peer services through the parsers of
  \<open>services/peer_payload.py\<close>.
\<close>

section \<open>Applying a proposal\<close>

text \<open>\<open>pk not in {"bgp", "ibgp"}\<close> hashes \<open>pk\<close>: a list or a dict raises.\<close>

definition require_peer_kind :: "jdict \<Rightarrow> string result" where
  "require_peer_kind payload = (case dict_get_value payload ''peer_kind'' of
     JStr s \<Rightarrow> if s \<in> {''bgp'', ''ibgp''} then Inr s else Inl (Dn42CtlError ''bad peer_kind'')
   | JArr _ \<Rightarrow> Inl (TypeError ''unhashable type: list'')
   | JObj _ \<Rightarrow> Inl (TypeError ''unhashable type: dict'')
   | _ \<Rightarrow> Inl (Dn42CtlError ''bad peer_kind''))"

definition require_peer :: "jdict \<Rightarrow> string \<Rightarrow> jdict result" where
  "require_peer payload field = (case dict_get_value payload field of
     JObj kvs \<Rightarrow> Inr kvs | _ \<Rightarrow> Inl (Dn42CtlError ''missing object''))"

definition create_bgp_from :: "AppConfig \<Rightarrow> string \<Rightarrow> BgpPeerPayload \<Rightarrow> PeerResult wop" where
  "create_bgp_from config target p = create_bgp_peer config (bp_peer_asn p) (bp_peer_public_key p) (bp_endpoint p)
     (bp_peer_lla p) (bp_net_backend p) (bp_listen_port p) None None None (Some target) False None"

definition create_ibgp_from :: "AppConfig \<Rightarrow> string \<Rightarrow> IbgpPeerPayload \<Rightarrow> PeerResult wop" where
  "create_ibgp_from config target p = create_ibgp_peer config (ip_name p) (ip_peer_ip p) (ip_has_wg p)
     (ip_peer_public_key p) (Some (ip_endpoint p)) (ip_peer_lla p) (Some (ip_net_backend p)) (ip_babel_rxcost p)
     (ip_babel_type p) (ip_listen_port p) None None None (Some target) False None None"

definition apply_peer_add :: "AppConfig \<Rightarrow> string \<Rightarrow> jdict \<Rightarrow> unit wop" where
  "apply_peer_add config target payload =
     bnd (lift_result (require_peer_kind payload)) (\<lambda>peer_kind.
     bnd (lift_result (require_peer payload ''peer'')) (\<lambda>peer.
     if peer_kind = ''bgp''
     then bnd (lift_result (parse_bgp_peer peer)) (\<lambda>parsed. bnd (create_bgp_from config target parsed) (\<lambda>_. ret ()))
     else bnd (lift_result (parse_ibgp_peer peer None)) (\<lambda>ibgp. bnd (create_ibgp_from config target ibgp) (\<lambda>_. ret ()))))"

definition apply_peer_modify :: "AppConfig \<Rightarrow> string \<Rightarrow> jdict \<Rightarrow> unit wop" where
  "apply_peer_modify config target payload =
     bnd (lift_result (require_peer_kind payload)) (\<lambda>peer_kind.
     bnd (lift_result (require_peer payload ''peer'')) (\<lambda>peer.
     if peer_kind = ''bgp''
     then bnd (lift_result (parse_bgp_peer peer)) (\<lambda>p.
            bnd (modify_bgp_peer config (bp_peer_asn p) (bp_peer_public_key p) (bp_endpoint p) (bp_peer_lla p)
                   (bp_net_backend p) (bp_listen_port p) (Some target) False None) (\<lambda>_. ret ()))
     else bnd (lift_result (parse_ibgp_peer peer (Some True))) (\<lambda>p.
            bnd (modify_ibgp_peer config (ip_name p) (or_else (ip_peer_public_key p) []) (ip_endpoint p)
                   (or_else (ip_peer_lla p) []) (ip_net_backend p) (ip_babel_rxcost p) (ip_babel_type p) (ip_peer_ip p)
                   (ip_listen_port p) (Some target) False None UNSET) (\<lambda>_. ret ()))))"

definition apply_peer_delete :: "AppConfig \<Rightarrow> string \<Rightarrow> jdict \<Rightarrow> unit wop" where
  "apply_peer_delete config target payload =
     bnd (lift_result (require_peer_kind payload)) (\<lambda>peer_kind.
     bnd (lift_result (require_peer payload ''key'')) (\<lambda>key.
     if peer_kind = ''bgp''
     then bnd (lift_result (parse_bgp_key key)) (\<lambda>asn. bnd (delete_bgp_peer config asn (Some target) False) (\<lambda>_. ret ()))
     else bnd (lift_result (parse_ibgp_key key)) (\<lambda>name. bnd (delete_ibgp_peer config name (Some target) False) (\<lambda>_. ret ()))))"

definition apply_proposal :: "AppConfig \<Rightarrow> ConfigProposal \<Rightarrow> unit wop" where
  "apply_proposal config p =
     (if cp_kind p = ''peer_add'' then apply_peer_add config (cp_node_id p) (cp_payload p)
      else if cp_kind p = ''peer_modify'' then apply_peer_modify config (cp_node_id p) (cp_payload p)
      else if cp_kind p = ''peer_delete'' then apply_peer_delete config (cp_node_id p) (cp_payload p)
      else raise (Dn42CtlError ''unknown proposal kind''))"

section \<open>Deciding\<close>

definition accept_proposal :: "AppConfig \<Rightarrow> nat \<Rightarrow> ConfigProposal wop" where
  "accept_proposal config i = bnd (with_db (proposal_get i)) (\<lambda>found. case found of
     None \<Rightarrow> raise (Dn42CtlError ''proposal does not exist'')
   | Some p \<Rightarrow>
       if cp_status p \<noteq> ''pending'' then raise (Dn42CtlError ''proposal is not pending'')
       else bnd (apply_proposal config p) (\<lambda>_. with_db (proposal_set_status i ''accepted'' None)))"

definition reject_proposal :: "nat \<Rightarrow> string \<Rightarrow> ConfigProposal wop" where
  "reject_proposal i reason =
     (if strip reason = [] then raise (Dn42CtlError ''a reason is required'')
      else with_db (bnd (proposal_get i) (\<lambda>found. case found of
        None \<Rightarrow> raise (Dn42CtlError ''proposal does not exist'')
      | Some p \<Rightarrow>
          if cp_status p \<noteq> ''pending'' then raise (Dn42CtlError ''proposal is not pending'')
          else proposal_set_status i ''rejected'' (Some reason))))"

definition auto_accepts :: "write_policy \<Rightarrow> bool" where
  "auto_accepts policy \<longleftrightarrow> map_of policy ''peer_add'' = Some ''auto_accept''"

definition try_auto_accept :: "AppConfig \<Rightarrow> ConfigProposal \<Rightarrow> write_policy \<Rightarrow> ConfigProposal wop" where
  "try_auto_accept config p policy =
     (if cp_status p \<noteq> ''pending'' then ret p
      else if cp_kind p = ''peer_add'' \<and> auto_accepts policy
      then bnd (try_except (bnd (apply_proposal config p) (\<lambda>_. ret None))
                  (\<lambda>e. if is_dn42ctl_error e
                     then bnd (with_db (proposal_set_status (cp_id p) ''rejected'' (Some (''auto_accept failed: '' @ str_exn e))))
                            (\<lambda>q. ret (Some q))
                     else raise e)) (\<lambda>r. case r of
             Some q \<Rightarrow> ret q
           | None \<Rightarrow> with_db (proposal_set_status (cp_id p) ''accepted'' None))
      else ret p)"

definition submit_proposal :: "AppConfig option \<Rightarrow> string \<Rightarrow> string \<Rightarrow> string \<Rightarrow> json \<Rightarrow> ConfigProposal wop" where
  "submit_proposal config node_id source kind payload =
     (if kind \<notin> set VALID_PROPOSAL_KINDS then raise (Dn42CtlError ''invalid kind'')
      else if source \<notin> {''push'', ''scan''} then raise (Dn42CtlError ''invalid source'')
      else case payload of
        JObj kvs \<Rightarrow>
          bnd (with_db (bnd (managed_get node_id) (\<lambda>node. case node of
                 None \<Rightarrow> raise (Dn42CtlError ''managed node does not exist'')
               | Some m \<Rightarrow> bnd (proposal_add node_id source kind kvs) (\<lambda>p. ret (p, mn_write_policy m))))) (\<lambda>pp.
          case config of
            None \<Rightarrow> ret (fst pp)
          | Some c \<Rightarrow> try_auto_accept c (fst pp) (snd pp))
      | _ \<Rightarrow> raise (Dn42CtlError ''payload must be an object''))"

definition list_proposals :: "string \<Rightarrow> string option \<Rightarrow> nat \<Rightarrow> ConfigProposal list wop" where
  "list_proposals node_id status limit = with_db (proposal_list_for_node node_id status limit)"

definition get_proposal :: "nat \<Rightarrow> ConfigProposal wop" where
  "get_proposal i = bnd (with_db (proposal_get i)) (\<lambda>p. case p of
     None \<Rightarrow> raise (Dn42CtlError ''proposal does not exist'') | Some x \<Rightarrow> ret x)"

section \<open>Reports\<close>

definition submit_report :: "string \<Rightarrow> string \<Rightarrow> json \<Rightarrow> NodeReport wop" where
  "submit_report node_id kind payload =
     (if kind \<notin> set VALID_REPORT_KINDS then raise (Dn42CtlError ''invalid report kind'')
      else case payload of
        JObj kvs \<Rightarrow> with_db (bnd (managed_get node_id) (\<lambda>node. case node of
            None \<Rightarrow> raise (Dn42CtlError ''managed node does not exist'')
          | Some _ \<Rightarrow> report_add node_id kind kvs))
      | _ \<Rightarrow> raise (Dn42CtlError ''payload must be an object''))"

definition list_reports :: "string \<Rightarrow> string option \<Rightarrow> nat \<Rightarrow> NodeReport list wop" where
  "list_reports node_id kind limit = with_db (report_list_for_node node_id kind limit)"

definition get_report :: "nat \<Rightarrow> NodeReport wop" where
  "get_report i = bnd (with_db (report_get i)) (\<lambda>r. case r of
     None \<Rightarrow> raise (Dn42CtlError ''report does not exist'') | Some x \<Rightarrow> ret x)"

datatype import_result = Created | Skipped

definition import_bgp :: "AppConfig \<Rightarrow> string \<Rightarrow> jdict \<Rightarrow> import_result wop" where
  "import_bgp config target peer =
     bnd (lift_result (parse_bgp_peer peer)) (\<lambda>parsed.
     bnd (with_db (get_bgp_peer target (bp_peer_asn parsed))) (\<lambda>existing. case existing of
       Some _ \<Rightarrow> ret Skipped
     | None \<Rightarrow> bnd (create_bgp_from config target parsed) (\<lambda>_. ret Created)))"

definition import_ibgp :: "AppConfig \<Rightarrow> string \<Rightarrow> jdict \<Rightarrow> import_result wop" where
  "import_ibgp config target peer =
     bnd (lift_result (parse_ibgp_peer peer None)) (\<lambda>parsed.
     bnd (with_db (get_ibgp_peer target (ip_name parsed))) (\<lambda>existing. case existing of
       Some _ \<Rightarrow> ret Skipped
     | None \<Rightarrow> bnd (create_ibgp_from config target parsed) (\<lambda>_. ret Created)))"

record import_counts =
  ic_bgp_created :: nat
  ic_bgp_skipped :: nat
  ic_ibgp_created :: nat
  ic_ibgp_skipped :: nat
  ic_malformed :: nat

definition no_counts :: import_counts where
  "no_counts = \<lparr> ic_bgp_created = 0, ic_bgp_skipped = 0, ic_ibgp_created = 0, ic_ibgp_skipped = 0, ic_malformed = 0 \<rparr>"

definition count_bgp :: "import_result \<Rightarrow> import_counts \<Rightarrow> import_counts" where
  "count_bgp res c = (case res of Created \<Rightarrow> c\<lparr> ic_bgp_created := Suc (ic_bgp_created c) \<rparr>
     | Skipped \<Rightarrow> c\<lparr> ic_bgp_skipped := Suc (ic_bgp_skipped c) \<rparr>)"

definition count_ibgp :: "import_result \<Rightarrow> import_counts \<Rightarrow> import_counts" where
  "count_ibgp res c = (case res of Created \<Rightarrow> c\<lparr> ic_ibgp_created := Suc (ic_ibgp_created c) \<rparr>
     | Skipped \<Rightarrow> c\<lparr> ic_ibgp_skipped := Suc (ic_ibgp_skipped c) \<rparr>)"

text \<open>One of the two loops over a list of the report.\<close>

fun import_peers ::
  "(jdict \<Rightarrow> import_result wop) \<Rightarrow> (import_result \<Rightarrow> import_counts \<Rightarrow> import_counts) \<Rightarrow> json list \<Rightarrow> import_counts \<Rightarrow> import_counts wop" where
  "import_peers imp tally [] c = ret c"
| "import_peers imp tally (p # ps) c = (case p of
     JObj peer \<Rightarrow> bnd (reraise_as is_dn42ctl_error (\<lambda>m. Dn42CtlError (''import failed: '' @ m)) (imp peer)) (\<lambda>res.
                   import_peers imp tally ps (tally res c))
   | _ \<Rightarrow> import_peers imp tally ps (c\<lparr> ic_malformed := Suc (ic_malformed c) \<rparr>))"

definition import_report :: "AppConfig \<Rightarrow> nat \<Rightarrow> import_counts wop" where
  "import_report config i = bnd (with_db (report_get i)) (\<lambda>found. case found of
     None \<Rightarrow> raise (Dn42CtlError ''report does not exist'')
   | Some r \<Rightarrow>
       if nr_kind r \<noteq> ''scan_result'' then raise (Dn42CtlError ''not a scan_result report'')
       else if nr_imported_at r \<noteq> None then raise (Dn42CtlError ''report already imported'')
       else case (get_or (nr_payload r) ''bgp_peers'' (JArr []), get_or (nr_payload r) ''ibgp_peers'' (JArr [])) of
         (JArr bs, JArr is) \<Rightarrow>
           bnd (import_peers (import_bgp config (nr_node_id r)) count_bgp bs no_counts) (\<lambda>c.
           bnd (import_peers (import_ibgp config (nr_node_id r)) count_ibgp is c) (\<lambda>counts.
           bnd (with_db (report_mark_imported i)) (\<lambda>_. ret counts)))
       | _ \<Rightarrow> raise (Dn42CtlError ''bgp_peers and ibgp_peers must be arrays''))"

section \<open>What the stores do\<close>

lemma outcome_ledger_reads [services]:
  "outcome (proposal_get i) (\<lambda>d x d'. x = find_proposal i d \<and> d' = d) (\<lambda>d d'. d' = d)"
  "outcome (report_get i) (\<lambda>d x d'. x = find_report i d \<and> d' = d) (\<lambda>d d'. d' = d)"
  "outcome (proposal_read_back i m) (\<lambda>d x d'. find_proposal i d = Some x \<and> d' = d) (\<lambda>d d'. d' = d)"
  "outcome (report_read_back i m) (\<lambda>d x d'. find_report i d = Some x \<and> d' = d) (\<lambda>d d'. d' = d)"
proof -
  show p: "outcome (proposal_get i) (\<lambda>d x d'. x = find_proposal i d \<and> d' = d) (\<lambda>d d'. d' = d)"
    and r: "outcome (report_get i) (\<lambda>d x d'. x = find_report i d \<and> d' = d) (\<lambda>d d'. d' = d)"
    by (rule outcome_read, rule read_only_stores, rule store_specs)+
  show "outcome (proposal_read_back i m) (\<lambda>d x d'. find_proposal i d = Some x \<and> d' = d) (\<lambda>d d'. d' = d)"
    unfolding proposal_read_back_def by (rule outcome_conseq, (rule p services)+) (auto split: option.splits)
  show "outcome (report_read_back i m) (\<lambda>d x d'. find_report i d = Some x \<and> d' = d) (\<lambda>d d'. d' = d)"
    unfolding report_read_back_def by (rule outcome_conseq, (rule r services)+) (auto split: option.splits)
qed

lemma outcome_proposal_add [services]:
  "outcome (proposal_add n s k pl)
     (\<lambda>d x d'. k \<in> set VALID_PROPOSAL_KINDS \<and> (\<exists>now i. insert_proposal n s k pl now d = Inr (i, d') \<and> find_proposal i d' = Some x))
     (\<lambda>d d'. d' = d \<or> (\<exists>now i. insert_proposal n s k pl now d = Inr (i, d')))"
proof -
  have ins: "outcome (with_tx (\<lambda>_. msg) (sql_dml (insert_proposal n s k pl now)))
      (\<lambda>d i d'. insert_proposal n s k pl now d = Inr (i, d')) (\<lambda>d d'. d' = d)" for msg now
    by (rule outcome_atomic) (auto intro!: atomic specs)
  show ?thesis
    unfolding proposal_add_def
    by (rule outcome_triple, rule triple_pre, (rule wp | rule triple_outcome, rule ins services)+) blast
qed

definition decided :: "nat \<Rightarrow> string \<Rightarrow> string option \<Rightarrow> database \<Rightarrow> database \<Rightarrow> bool" where
  "decided i st msg d d' \<longleftrightarrow> (\<exists>now c. update_proposal i st now msg d = Inr (c, d') \<and> 0 < c)"

lemma outcome_set_status [services]:
  "outcome (proposal_set_status i st msg) (\<lambda>d x d'. decided i st msg d d' \<and> find_proposal i d' = Some x) (\<lambda>d d'. d' = d \<or> decided i st msg d d')"
proof -
  have upd: "outcome (with_tx (\<lambda>_. m) (bnd (sql_dml (update_proposal i st now msg)) (\<lambda>c. require_row c m')))
      (\<lambda>d x d'. decided i st msg d d') (\<lambda>d d'. d' = d)" for m m' now
  proof (rule outcome_atomic)
    show "op_spec (with_tx (\<lambda>_. m) (bnd (sql_dml (update_proposal i st now msg)) (\<lambda>c. require_row c m'))) (\<lambda>d x d'. decided i st msg d d')"
      by (rule op_spec_conseq, (rule specs)+) (auto simp: decided_def)
  qed (auto intro!: atomic)
  show ?thesis
    unfolding proposal_set_status_def
    by (rule outcome_triple, rule triple_pre, (rule wp | rule triple_outcome, rule upd services)+) blast
qed

section \<open>What the services do\<close>

text \<open>\<open>node_id or config.node_id\<close>: the node a service writes for.\<close>

definition target :: "AppConfig \<Rightarrow> string \<Rightarrow> string" where
  "target c n = or_else (Some n) (ac_node_id c)"

lemma target_eq [simp]: "n \<noteq> [] \<Longrightarrow> target c n = n"
  by (simp add: target_def or_else_def)

lemma within_from:
  "within (peers_only (target c n)) (create_bgp_from c n b)" "within (peers_only (target c n)) (create_ibgp_from c n p)"
  unfolding create_bgp_from_def create_ibgp_from_def target_def by (rule within_services)+

lemma within_apply: "within (peers_only (target c (cp_node_id p))) (apply_proposal c p)"
  unfolding apply_proposal_def apply_peer_add_def apply_peer_modify_def apply_peer_delete_def
  by (intro peers.rules within_from within_services [where n = "Some n" for n, folded target_def])

text \<open>The peer a proposal adds is the one its payload describes.\<close>

inductive peer_added :: "string \<Rightarrow> jdict \<Rightarrow> database \<Rightarrow> database \<Rightarrow> bool" for n pl d d' where
  added_bgp: "require_peer_kind pl = Inr ''bgp'' \<Longrightarrow> require_peer pl ''peer'' = Inr peer \<Longrightarrow> parse_bgp_peer peer = Inr x \<Longrightarrow>
     bgp_created n (bp_peer_asn x) p d d' \<Longrightarrow> peer_added n pl d d'"
| added_ibgp: "require_peer_kind pl = Inr k \<Longrightarrow> k \<noteq> ''bgp'' \<Longrightarrow> require_peer pl ''peer'' = Inr peer \<Longrightarrow> parse_ibgp_peer peer None = Inr y \<Longrightarrow>
     ibgp_created n (ip_name y) (ip_has_wg y) p i d d' \<Longrightarrow> peer_added n pl d d'"

lemma outcome_from:
  "outcome (create_bgp_from c n x) (\<lambda>d _ d'. migrated d \<longrightarrow> (\<exists>p. bgp_created (target c n) (bp_peer_asn x) p d d')) (\<lambda>d d'. True)"
  "outcome (create_ibgp_from c n y) (\<lambda>d _ d'. migrated d \<longrightarrow> (\<exists>p i. ibgp_created (target c n) (ip_name y) (ip_has_wg y) p i d d')) (\<lambda>d d'. True)"
  unfolding create_bgp_from_def create_ibgp_from_def target_def
  by (rule outcome_conseq, rule outcome_create_bgp outcome_create_ibgp; blast)+

lemma outcome_apply_add:
  "outcome (apply_peer_add c n pl) (\<lambda>d _ d'. migrated d \<longrightarrow> peer_added (target c n) pl d d') (\<lambda>d d'. True)"
  unfolding apply_peer_add_def
  by (rule outcome_triple, rule triple_pre, (rule wp | rule triple_outcome, rule outcome_from services)+)
    (auto intro: added_bgp added_ibgp)

text \<open>
  What a proposal does to the peer tables: an addition appends a row that its payload describes, a
  modification gives the row with its key the described values and keeps the rest of it, and a
  deletion removes the row with its key. Every other row stays.
\<close>

definition describes_bgp :: "BgpPeerPayload \<Rightarrow> bgp_peer_row \<Rightarrow> bool" where
  "describes_bgp x r \<longleftrightarrow> p_peer_asn r = bp_peer_asn x \<and> p_peer_public_key r = Some (bp_peer_public_key x)
     \<and> p_endpoint r = Some (bp_endpoint x) \<and> p_peer_lla r = Some (bp_peer_lla x)
     \<and> validate_net_backend (bp_net_backend x) = Inr (p_net_backend r) \<and> (\<forall>p. bp_listen_port x = Some p \<longrightarrow> p_listen_port r = p)"

definition describes_ibgp :: "IbgpPeerPayload \<Rightarrow> ibgp_peer_row \<Rightarrow> bool" where
  "describes_ibgp y r \<longleftrightarrow> sanitize_name (ip_name y) = Inr (p_name r) \<and> p_has_wg r = ip_has_wg y \<and> p_peer_ip r = Some (ip_peer_ip y)
     \<and> p_peer_public_key r = Some (or_else (ip_peer_public_key y) []) \<and> p_endpoint r = Some (ip_endpoint y)
     \<and> p_peer_lla r = Some (or_else (ip_peer_lla y) []) \<and> p_babel_rxcost r = ip_babel_rxcost y \<and> p_babel_type r = ip_babel_type y
     \<and> (\<forall>p. ip_has_wg y \<and> ip_listen_port y = Some p \<longrightarrow> p_listen_port r = p)"

definition same_tunnel :: "'a peer_record_base_scheme \<Rightarrow> 'a peer_record_base_scheme \<Rightarrow> bool" where
  "same_tunnel r r' \<longleftrightarrow> p_node_id r' = p_node_id r \<and> p_ifname r' = p_ifname r \<and> p_wg_private_key r' = p_wg_private_key r
     \<and> p_wg_public_key r' = p_wg_public_key r \<and> p_local_lla r' = p_local_lla r"

definition rows_modified :: "('r \<Rightarrow> bool) \<Rightarrow> ('r \<Rightarrow> 'r \<Rightarrow> bool) \<Rightarrow> 'r list \<Rightarrow> 'r list \<Rightarrow> bool" where
  "rows_modified key P rs rs' \<longleftrightarrow> (\<exists>r \<in> set rs. key r) \<and> list_all2 (\<lambda>r r'. if key r then P r r' else r' = r) rs rs'"

inductive peer_effect :: "string \<Rightarrow> string \<Rightarrow> jdict \<Rightarrow> bgp_peer_row list \<times> ibgp_peer_row list \<Rightarrow> bgp_peer_row list \<times> ibgp_peer_row list \<Rightarrow> bool" where
  effect_add_bgp: "require_peer_kind pl = Inr ''bgp'' \<Longrightarrow> require_peer pl ''peer'' = Inr peer \<Longrightarrow> parse_bgp_peer peer = Inr x \<Longrightarrow>
     describes_bgp x r \<Longrightarrow> p_node_id r = n \<Longrightarrow> peer_effect ''peer_add'' n pl (bs, is) (bs @ [r], is)"
| effect_add_ibgp: "require_peer_kind pl = Inr ''ibgp'' \<Longrightarrow> require_peer pl ''peer'' = Inr peer \<Longrightarrow> parse_ibgp_peer peer None = Inr y \<Longrightarrow>
     describes_ibgp y i \<Longrightarrow> p_node_id i = n \<Longrightarrow> peer_effect ''peer_add'' n pl (bs, is) (bs, is @ [i])"
| effect_modify_bgp: "require_peer_kind pl = Inr ''bgp'' \<Longrightarrow> require_peer pl ''peer'' = Inr peer \<Longrightarrow> parse_bgp_peer peer = Inr x \<Longrightarrow>
     rows_modified (bgp_key n (bp_peer_asn x)) (\<lambda>r r'. describes_bgp x r' \<and> same_tunnel r r') bs bs' \<Longrightarrow>
     peer_effect ''peer_modify'' n pl (bs, is) (bs', is)"
| effect_modify_ibgp: "require_peer_kind pl = Inr ''ibgp'' \<Longrightarrow> require_peer pl ''peer'' = Inr peer \<Longrightarrow> parse_ibgp_peer peer (Some True) = Inr y \<Longrightarrow>
     sanitize_name (ip_name y) = Inr m \<Longrightarrow>
     rows_modified (ibgp_key n m) (\<lambda>r r'. describes_ibgp (y\<lparr> ip_has_wg := p_has_wg r \<rparr>) r' \<and> same_tunnel r r') is is' \<Longrightarrow>
     peer_effect ''peer_modify'' n pl (bs, is) (bs, is')"
| effect_delete_bgp: "require_peer_kind pl = Inr ''bgp'' \<Longrightarrow> require_peer pl ''key'' = Inr key \<Longrightarrow> parse_bgp_key key = Inr asn \<Longrightarrow>
     \<exists>r \<in> set bs. bgp_key n asn r \<Longrightarrow> peer_effect ''peer_delete'' n pl (bs, is) (filter (\<lambda>r. \<not> bgp_key n asn r) bs, is)"
| effect_delete_ibgp: "require_peer_kind pl = Inr ''ibgp'' \<Longrightarrow> require_peer pl ''key'' = Inr key \<Longrightarrow> parse_ibgp_key key = Inr name \<Longrightarrow>
     sanitize_name name = Inr m \<Longrightarrow> \<exists>r \<in> set is. ibgp_key n m r \<Longrightarrow>
     peer_effect ''peer_delete'' n pl (bs, is) (bs, filter (\<lambda>r. \<not> ibgp_key n m r) is)"

inductive_cases effect_deleteE: "peer_effect ''peer_delete'' n pl t t'"

definition peer_tables :: "database \<Rightarrow> bgp_peer_row list \<times> ibgp_peer_row list" where
  "peer_tables d = (bgp_peers d, ibgp_peers d)"

lemma peer_tables_simps [simp]:
  "peer_tables (after_event n k now d) = peer_tables d" "upsert_node_row n now d = Inr (u, d') \<Longrightarrow> peer_tables d' = peer_tables d"
  by (auto simp: peer_tables_def upsert_node_row_def split: if_splits)

lemma other_kind: "require_peer_kind pl = Inr k \<Longrightarrow> k \<noteq> ''bgp'' \<Longrightarrow> require_peer_kind pl = Inr ''ibgp''"
  by (auto simp: require_peer_kind_def split: json.splits if_splits)

text \<open>The services with the rows they write.\<close>

lemma created_bgp_row:
  assumes "insert_bgp_row \<lparr> p_node_id = n, p_ifname = ifname, p_wg_private_key = k, p_wg_public_key = k', p_peer_public_key = Some (bp_peer_public_key x),
      p_endpoint = Some (bp_endpoint x), p_local_lla = l, p_peer_lla = Some (bp_peer_lla x), p_listen_port = port, p_allowed_ips = ips,
      p_net_backend = be, p_peer_asn = bp_peer_asn x \<rparr> now d0 = Inr ((), d1)"
    and "upsert_node_row m now0 d = Inr (u, d0)"
    and "validate_net_backend (bp_net_backend x) = Inr be" and "\<forall>p. bp_listen_port x = Some p \<longrightarrow> port = p"
  shows "\<exists>r. describes_bgp x r \<and> p_node_id r = n \<and> peer_tables d1 = (fst (peer_tables d) @ [r], snd (peer_tables d))"
  using assms by (auto simp: insert_bgp_row_def describes_bgp_def bgp_row_of_def BgpPeerRecord.defs peer_tables_def upsert_node_row_def split: if_splits)

lemma created_ibgp_row:
  assumes "insert_ibgp_row \<lparr> p_node_id = n, p_ifname = ifname, p_wg_private_key = k, p_wg_public_key = k',
      p_peer_public_key = Some (or_else (ip_peer_public_key y) []), p_endpoint = Some (or_else (Some (ip_endpoint y)) []), p_local_lla = l,
      p_peer_lla = Some (or_else (ip_peer_lla y) []), p_listen_port = port, p_allowed_ips = ips, p_net_backend = be, p_name = name,
      p_babel_rxcost = ip_babel_rxcost y, p_peer_ip = Some (ip_peer_ip y), p_has_wg = hw, p_babel_type = ip_babel_type y,
      p_remote_node_id = rm \<rparr> now d0 = Inr ((), d1)"
    and "upsert_node_row m now0 d = Inr (u, d0)"
    and "sanitize_name (ip_name y) = Inr name" and "hw = ip_has_wg y \<and> (\<forall>p. ip_has_wg y \<and> ip_listen_port y = Some p \<longrightarrow> port = p)"
  shows "\<exists>i. describes_ibgp y i \<and> p_node_id i = n \<and> peer_tables d1 = (fst (peer_tables d), snd (peer_tables d) @ [i])"
  using assms
  by (auto simp: insert_ibgp_row_def describes_ibgp_def ibgp_row_of_def IbgpPeerRecord.defs peer_tables_def upsert_node_row_def or_else_def
      split: if_splits)

lemma outcome_create_rows:
  "outcome (create_bgp_from c n x) (\<lambda>d _ d'. migrated d \<longrightarrow> (\<exists>r. describes_bgp x r \<and> p_node_id r = target c n
      \<and> peer_tables d' = (fst (peer_tables d) @ [r], snd (peer_tables d)))) (\<lambda>d d'. True)"
  "outcome (create_ibgp_from c n y) (\<lambda>d _ d'. migrated d \<longrightarrow> (\<exists>i. describes_ibgp y i \<and> p_node_id i = target c n
      \<and> peer_tables d' = (fst (peer_tables d), snd (peer_tables d) @ [i]))) (\<lambda>d d'. True)"
proof -
  show "outcome (create_bgp_from c n x) (\<lambda>d _ d'. migrated d \<longrightarrow> (\<exists>r. describes_bgp x r \<and> p_node_id r = target c n
      \<and> peer_tables d' = (fst (peer_tables d) @ [r], snd (peer_tables d)))) (\<lambda>d d'. True)"
    unfolding create_bgp_from_def create_bgp_peer_def bgp_listen_port_def normalize_net_backend_def target_def Let_def
    apply (rule outcome_triple, rule triple_pre, (rule wp | rule triple_outcome, rule services)+)
    apply auto
     apply (rule created_bgp_row, assumption, assumption, assumption, simp)+
    done
  show "outcome (create_ibgp_from c n y) (\<lambda>d _ d'. migrated d \<longrightarrow> (\<exists>i. describes_ibgp y i \<and> p_node_id i = target c n
      \<and> peer_tables d' = (fst (peer_tables d), snd (peer_tables d) @ [i]))) (\<lambda>d d'. True)"
    unfolding create_ibgp_from_def create_ibgp_peer_def target_def Let_def
    apply (rule outcome_triple, rule triple_pre, (rule wp | rule triple_outcome, rule services)+) 
   apply (auto simp: Let_def)
     apply (rule created_ibgp_row, assumption, assumption, assumption, simp)+
    done
qed

lemma modified_bgp_rows:
  assumes "update_bgp_rows n (bp_peer_asn x) (Some (bp_peer_public_key x)) (Some (bp_endpoint x)) (Some (bp_peer_lla x)) port ips be now d0 = Inr (k, d1)"
    and "upsert_node_row m now0 d = Inr (u, d0)" and "find_bgp n (bp_peer_asn x) d0 = Some r"
    and "validate_net_backend (bp_net_backend x) = Inr be" and "\<forall>p. bp_listen_port x = Some p \<longrightarrow> port = p"
  shows "\<exists>bs'. rows_modified (bgp_key n (bp_peer_asn x)) (\<lambda>r r'. describes_bgp x r' \<and> same_tunnel r r') (fst (peer_tables d)) bs'
     \<and> peer_tables d1 = (bs', snd (peer_tables d))"
proof -
  from assms(3) have "\<exists>r \<in> set (bgp_peers d0). bgp_key n (bp_peer_asn x) r" unfolding find_bgp_def by (meson find_Some_set)
  with assms show ?thesis
    by (auto simp: update_bgp_rows_def peer_tables_def rows_modified_def list_all2_map2 list_all2_same describes_bgp_def same_tunnel_def
        bgp_key_def upsert_node_row_def split: if_splits)
qed

lemma modified_ibgp_rows:
  assumes "update_ibgp_rows n name (Some (or_else (ip_peer_public_key y) [])) (Some (ip_endpoint y)) (Some (or_else (ip_peer_lla y) [])) port ips be
      (ip_babel_rxcost y) (Some (ip_peer_ip y)) (ip_babel_type y) UNSET now d0 = Inr (k, d1)"
    and "upsert_node_row m now0 d = Inr (u, d0)" and "find_ibgp n name d0 = Some r"
    and "sanitize_name (ip_name y) = Inr name" and "\<forall>p. ip_listen_port y = Some p \<longrightarrow> port = p"
  shows "\<exists>is'. rows_modified (ibgp_key n name) (\<lambda>r r'. describes_ibgp (y\<lparr> ip_has_wg := p_has_wg r \<rparr>) r' \<and> same_tunnel r r') (snd (peer_tables d)) is'
     \<and> peer_tables d1 = (fst (peer_tables d), is')"
proof -
  from assms(3) have "\<exists>r \<in> set (ibgp_peers d0). ibgp_key n name r" unfolding find_ibgp_def by (meson find_Some_set)
  with assms show ?thesis
    by (auto simp: update_ibgp_rows_def peer_tables_def rows_modified_def list_all2_map2 list_all2_same describes_ibgp_def same_tunnel_def
        ibgp_key_def upsert_node_row_def split: if_splits)
qed

lemma deleted_rows:
  "delete_bgp_rows n a d = Inr (k, d1) \<Longrightarrow> find_bgp n a d = Some r \<Longrightarrow>
     (\<exists>r \<in> set (fst (peer_tables d)). bgp_key n a r) \<and> peer_tables d1 = (filter (\<lambda>r. \<not> bgp_key n a r) (fst (peer_tables d)), snd (peer_tables d))"
  "delete_ibgp_rows n m d = Inr (k, d1) \<Longrightarrow> find_ibgp n m d = Some i \<Longrightarrow>
     (\<exists>r \<in> set (snd (peer_tables d)). ibgp_key n m r) \<and> peer_tables d1 = (fst (peer_tables d), filter (\<lambda>r. \<not> ibgp_key n m r) (snd (peer_tables d)))"
  by (auto simp: delete_bgp_rows_def delete_ibgp_rows_def peer_tables_def find_bgp_def find_ibgp_def dest!: find_Some_set)

lemma outcome_modify_rows:
  "outcome (modify_bgp_peer c (bp_peer_asn x) (bp_peer_public_key x) (bp_endpoint x) (bp_peer_lla x) (bp_net_backend x) (bp_listen_port x) (Some n) False None)
     (\<lambda>d _ d'. migrated d \<longrightarrow> (\<exists>bs'. rows_modified (bgp_key (target c n) (bp_peer_asn x)) (\<lambda>r r'. describes_bgp x r' \<and> same_tunnel r r') (fst (peer_tables d)) bs'
        \<and> peer_tables d' = (bs', snd (peer_tables d)))) (\<lambda>d d'. True)"
  "outcome (modify_ibgp_peer c (ip_name y) (or_else (ip_peer_public_key y) []) (ip_endpoint y) (or_else (ip_peer_lla y) []) (ip_net_backend y)
       (ip_babel_rxcost y) (ip_babel_type y) (ip_peer_ip y) (ip_listen_port y) (Some n) False None UNSET)
     (\<lambda>d _ d'. migrated d \<longrightarrow> (\<exists>m is'. sanitize_name (ip_name y) = Inr m
        \<and> rows_modified (ibgp_key (target c n) m) (\<lambda>r r'. describes_ibgp (y\<lparr> ip_has_wg := p_has_wg r \<rparr>) r' \<and> same_tunnel r r') (snd (peer_tables d)) is'
        \<and> peer_tables d' = (fst (peer_tables d), is'))) (\<lambda>d d'. True)"
proof -
  show "outcome (modify_bgp_peer c (bp_peer_asn x) (bp_peer_public_key x) (bp_endpoint x) (bp_peer_lla x) (bp_net_backend x) (bp_listen_port x) (Some n) False None)
     (\<lambda>d _ d'. migrated d \<longrightarrow> (\<exists>bs'. rows_modified (bgp_key (target c n) (bp_peer_asn x)) (\<lambda>r r'. describes_bgp x r' \<and> same_tunnel r r') (fst (peer_tables d)) bs'
        \<and> peer_tables d' = (bs', snd (peer_tables d)))) (\<lambda>d d'. True)"
    unfolding modify_bgp_peer_def normalize_net_backend_def target_def Let_def
    apply (rule outcome_triple, rule triple_pre, (rule wp | rule triple_outcome, rule services)+)
     apply auto
     apply (rule modified_bgp_rows, assumption, assumption, assumption, assumption, simp)+
    done
  show "outcome (modify_ibgp_peer c (ip_name y) (or_else (ip_peer_public_key y) []) (ip_endpoint y) (or_else (ip_peer_lla y) []) (ip_net_backend y)
       (ip_babel_rxcost y) (ip_babel_type y) (ip_peer_ip y) (ip_listen_port y) (Some n) False None UNSET)
     (\<lambda>d _ d'. migrated d \<longrightarrow> (\<exists>m is'. sanitize_name (ip_name y) = Inr m
        \<and> rows_modified (ibgp_key (target c n) m) (\<lambda>r r'. describes_ibgp (y\<lparr> ip_has_wg := p_has_wg r \<rparr>) r' \<and> same_tunnel r r') (snd (peer_tables d)) is'
        \<and> peer_tables d' = (fst (peer_tables d), is'))) (\<lambda>d d'. True)"
    unfolding modify_ibgp_peer_def normalize_net_backend_def target_def Let_def
    apply (rule outcome_triple, rule triple_pre, (rule wp | rule triple_outcome, rule services)+)
     apply auto
     apply (rule modified_ibgp_rows, assumption, assumption, assumption, assumption, simp)+
    done
qed

lemma outcome_delete_rows:
  "outcome (delete_bgp_peer c a (Some n) False) (\<lambda>d _ d'. migrated d \<longrightarrow> (\<exists>r \<in> set (fst (peer_tables d)). bgp_key (target c n) a r)
      \<and> peer_tables d' = (filter (\<lambda>r. \<not> bgp_key (target c n) a r) (fst (peer_tables d)), snd (peer_tables d))) (\<lambda>d d'. True)"
  "outcome (delete_ibgp_peer c name (Some n) False) (\<lambda>d _ d'. migrated d \<longrightarrow> (\<exists>m. sanitize_name name = Inr m
      \<and> (\<exists>r \<in> set (snd (peer_tables d)). ibgp_key (target c n) m r)
      \<and> peer_tables d' = (fst (peer_tables d), filter (\<lambda>r. \<not> ibgp_key (target c n) m r) (snd (peer_tables d))))) (\<lambda>d d'. True)"
  unfolding delete_bgp_peer_def delete_ibgp_peer_def target_def Let_def if_False
  by (rule outcome_triple, rule triple_pre, (rule wp | rule triple_outcome, rule services)+, auto dest: deleted_rows)+

lemma outcome_apply_effect:
  "outcome (apply_proposal c p)
     (\<lambda>d _ d'. migrated d \<longrightarrow> peer_effect (cp_kind p) (target c (cp_node_id p)) (cp_payload p) (peer_tables d) (peer_tables d')) (\<lambda>d d'. True)"
proof -
  note rows = outcome_create_rows outcome_modify_rows outcome_delete_rows
  have add: "outcome (apply_peer_add c n pl) (\<lambda>d _ d'. migrated d \<longrightarrow> peer_effect ''peer_add'' (target c n) pl (peer_tables d) (peer_tables d')) (\<lambda>d d'. True)" for n pl
    unfolding apply_peer_add_def
    by (rule outcome_triple, rule triple_pre, (rule wp | rule triple_outcome, rule rows services)+)
      (auto simp: peer_tables_def intro: effect_add_bgp effect_add_ibgp [OF other_kind])
  have modify: "outcome (apply_peer_modify c n pl) (\<lambda>d _ d'. migrated d \<longrightarrow> peer_effect ''peer_modify'' (target c n) pl (peer_tables d) (peer_tables d')) (\<lambda>d d'. True)" for n pl
    unfolding apply_peer_modify_def
    by (rule outcome_triple, rule triple_pre, (rule wp | rule triple_outcome, rule rows services)+)
      (auto simp: peer_tables_def intro: effect_modify_bgp effect_modify_ibgp [OF other_kind])
  have delete: "outcome (apply_peer_delete c n pl) (\<lambda>d _ d'. migrated d \<longrightarrow> peer_effect ''peer_delete'' (target c n) pl (peer_tables d) (peer_tables d')) (\<lambda>d d'. True)" for n pl
    unfolding apply_peer_delete_def
    by (rule outcome_triple, rule triple_pre, (rule wp | rule triple_outcome, rule rows services)+)
      (auto simp: peer_tables_def intro: effect_delete_bgp intro!: effect_delete_ibgp [OF other_kind])
  show ?thesis
    unfolding apply_proposal_def
    by (rule outcome_conseq, (rule add modify delete services)+) (auto split: if_splits)
qed

definition applied :: "AppConfig \<Rightarrow> ConfigProposal \<Rightarrow> database \<Rightarrow> database \<Rightarrow> bool" where
  "applied c p d d' \<longleftrightarrow> peers_only (target c (cp_node_id p)) d d'
     \<and> (cp_kind p = ''peer_add'' \<longrightarrow> peer_added (target c (cp_node_id p)) (cp_payload p) d d')
     \<and> peer_effect (cp_kind p) (target c (cp_node_id p)) (cp_payload p) (peer_tables d) (peer_tables d')"

lemma outcome_conj:
  assumes "outcome m R Q" and "outcome m S T"
  shows "outcome m (\<lambda>d x d'. R d x d' \<and> S d x d') (\<lambda>d d'. Q d d' \<and> T d d')"
proof (rule outcomeI)
  fix w r w'
  assume w: "tx w = None" "m w = (r, w')"
  from outcomeD [OF assms(1) w] outcomeD [OF assms(2) w] show "tx w' = None \<and>
      (case r of Inl e \<Rightarrow> Q (disk w) (disk w') \<and> T (disk w) (disk w') | Inr x \<Rightarrow> R (disk w) x (disk w') \<and> S (disk w) x (disk w'))"
    by (cases r) auto
qed

lemma outcome_apply [services]:
  "outcome (apply_proposal c p) (\<lambda>d _ d'. migrated d \<longrightarrow> applied c p d d')
     (\<lambda>d d'. migrated d \<longrightarrow> peers_only (target c (cp_node_id p)) d d')"
proof -
  have "outcome (apply_proposal c p)
      (\<lambda>d _ d'. migrated d \<and> cp_kind p = ''peer_add'' \<longrightarrow> peer_added (target c (cp_node_id p)) (cp_payload p) d d') (\<lambda>d d'. True)"
  proof (cases "cp_kind p = ''peer_add''")
    case True
    then have "apply_proposal c p = apply_peer_add c (cp_node_id p) (cp_payload p)" by (simp add: apply_proposal_def)
    then show ?thesis by (simp only:) (rule outcome_conseq [OF outcome_apply_add], auto)
  next
    case False
    with within_apply [of c p] show ?thesis unfolding within_def by (auto elim: outcome_conseq)
  qed
  from outcome_conj [OF outcome_conj [OF this outcome_apply_effect [of c p]] within_apply [of c p, unfolded within_def]] show ?thesis
    by (rule outcome_conseq) (auto simp: applied_def)
qed

lemma outcome_accept:
  "outcome (accept_proposal c i)
     (\<lambda>d q d'. migrated d \<longrightarrow> (\<exists>p d1. find_proposal i d = Some p \<and> cp_status p = ''pending'' \<and> applied c p d d1
        \<and> decided i ''accepted'' None d1 d' \<and> find_proposal i d' = Some q))
     (\<lambda>d d'. migrated d \<longrightarrow> d' = d \<or> (\<exists>p. find_proposal i d = Some p \<and> cp_status p = ''pending''
        \<and> (peers_only (target c (cp_node_id p)) d d' \<or> (\<exists>d1. applied c p d d1 \<and> decided i ''accepted'' None d1 d'))))"
  unfolding accept_proposal_def
  by (rule outcome_migrated, rule triple_pre, (rule wp | rule triple_outcome, rule services)+)
    (auto simp: applied_def intro: peers.K_migrated)

lemma outcome_reject:
  "outcome (reject_proposal i reason)
     (\<lambda>d q d'. migrated d \<longrightarrow> (\<exists>p. find_proposal i d = Some p \<and> cp_status p = ''pending'')
        \<and> decided i ''rejected'' (Some reason) d d' \<and> find_proposal i d' = Some q)
     (\<lambda>d d'. migrated d \<longrightarrow> d' = d \<or> (\<exists>p. find_proposal i d = Some p \<and> cp_status p = ''pending'') \<and> decided i ''rejected'' (Some reason) d d')"
  unfolding reject_proposal_def
  by (rule outcome_migrated, rule triple_pre, (rule wp | rule triple_outcome, rule services)+) auto

lemma triple_try: "(\<And>e. triple (F e) (h e) R E) \<Longrightarrow> triple P m R (\<lambda>d. \<forall>e. F e d) \<Longrightarrow> triple P (try_except m h) R E"
  unfolding triple_def by (rule outcome_conseq, rule outcome_try, assumption, assumption) blast+

definition auto_applied :: "AppConfig \<Rightarrow> ConfigProposal \<Rightarrow> database \<Rightarrow> ConfigProposal \<Rightarrow> database \<Rightarrow> bool" where
  "auto_applied c p d q d' \<longleftrightarrow> find_proposal (cp_id p) d' = Some q \<and> (\<exists>d1.
     applied c p d d1 \<and> decided (cp_id p) ''accepted'' None d1 d'
   \<or> peers_only (target c (cp_node_id p)) d d1 \<and> (\<exists>m. decided (cp_id p) ''rejected'' (Some m) d1 d'))"

inductive auto_stopped :: "AppConfig \<Rightarrow> ConfigProposal \<Rightarrow> database \<Rightarrow> database \<Rightarrow> bool" for c p d where
  undecided: "peers_only (target c (cp_node_id p)) d d1 \<Longrightarrow> auto_stopped c p d d1"
| recorded_only: "peers_only (target c (cp_node_id p)) d d1 \<Longrightarrow> decided (cp_id p) st m d1 d' \<Longrightarrow> auto_stopped c p d d'"

definition eligible :: "ConfigProposal \<Rightarrow> write_policy \<Rightarrow> bool" where
  "eligible p policy \<longleftrightarrow> cp_status p = ''pending'' \<and> cp_kind p = ''peer_add'' \<and> auto_accepts policy"

lemma outcome_auto [services]:
  "outcome (try_auto_accept c p policy)
     (\<lambda>d q d'. migrated d \<longrightarrow> (if eligible p policy then auto_applied c p d q d' else q = p \<and> d' = d))
     (\<lambda>d d'. migrated d \<longrightarrow> (if eligible p policy then auto_stopped c p d d' else d' = d))"
  unfolding try_auto_accept_def
  by (rule outcome_migrated, rule triple_pre, (rule wp triple_try | rule triple_outcome, rule services)+)
    (auto simp: eligible_def auto_applied_def applied_def intro: peers.K_migrated undecided recorded_only)

definition submitted :: "string \<Rightarrow> string \<Rightarrow> string \<Rightarrow> jdict \<Rightarrow> database \<Rightarrow> ConfigProposal \<Rightarrow> ManagedNode \<Rightarrow> database \<Rightarrow> bool" where
  "submitted n s k pl d p m d' \<longleftrightarrow> find_managed n d = Some m
     \<and> (\<exists>now i. insert_proposal n s k pl now d = Inr (i, d') \<and> find_proposal i d' = Some p)"

lemma submittedI:
  "find_managed n d = Some m \<Longrightarrow> insert_proposal n s k pl now d = Inr (i, d') \<Longrightarrow> find_proposal i d' = Some p \<Longrightarrow> submitted n s k pl d p m d'"
  unfolding submitted_def by blast

text \<open>Where a submission may stop: before the row, after it, or in the automatic decision.\<close>

inductive submit_stopped :: "AppConfig option \<Rightarrow> string \<Rightarrow> string \<Rightarrow> string \<Rightarrow> jdict \<Rightarrow> database \<Rightarrow> database \<Rightarrow> bool" for config n s k pl d where
  refused: "submit_stopped config n s k pl d d"
| stored: "insert_proposal n s k pl now d = Inr (i, d') \<Longrightarrow> submit_stopped config n s k pl d d'"
| deciding: "submitted n s k pl d p m d0 \<Longrightarrow> config = Some c \<Longrightarrow> eligible p (mn_write_policy m) \<Longrightarrow> auto_stopped c p d0 d' \<Longrightarrow>
     submit_stopped config n s k pl d d'"

definition submit_result :: "AppConfig option \<Rightarrow> string \<Rightarrow> string \<Rightarrow> string \<Rightarrow> jdict \<Rightarrow> database \<Rightarrow> ConfigProposal \<Rightarrow> database \<Rightarrow> bool" where
  "submit_result config n s k pl d q d' \<longleftrightarrow> k \<in> set VALID_PROPOSAL_KINDS \<and> (\<exists>p m d0. submitted n s k pl d p m d0
     \<and> (case config of Some c \<Rightarrow> if eligible p (mn_write_policy m) then auto_applied c p d0 q d' else q = p \<and> d' = d0
                     | None \<Rightarrow> q = p \<and> d' = d0))"

lemma submit_resultI:
  "k \<in> set VALID_PROPOSAL_KINDS \<Longrightarrow> submitted n s k pl d p m d0 \<Longrightarrow>
   (case config of Some c \<Rightarrow> if eligible p (mn_write_policy m) then auto_applied c p d0 q d' else q = p \<and> d' = d0
                 | None \<Rightarrow> q = p \<and> d' = d0) \<Longrightarrow> submit_result config n s k pl d q d'"
  unfolding submit_result_def by blast

lemma outcome_submit:
  "outcome (submit_proposal config n s k (JObj pl))
     (\<lambda>d q d'. migrated d \<longrightarrow> submit_result config n s k pl d q d') (\<lambda>d d'. migrated d \<longrightarrow> submit_stopped config n s k pl d d')"
proof -
  have m: "migrated d' \<longleftrightarrow> migrated d" if "insert_proposal n s k pl now d = Inr (i, d')" for d d' now i
    using that by (auto simp: insert_proposal_def Let_def migrated_def has_table_def split: if_splits)
  show ?thesis
    unfolding submit_proposal_def json.case
    by (rule outcome_migrated, rule triple_pre, (rule wp | rule triple_outcome, rule services)+)
      (auto simp: m intro: refused stored deciding submittedI submit_resultI [OF _ submittedI] split: if_splits)
qed

lemma submit_bad_payload: "(\<forall>pl. payload \<noteq> JObj pl) \<Longrightarrow> \<exists>e. submit_proposal config n s k payload w = (Inl e, w)"
  by (cases payload) (auto simp: submit_proposal_def raise_def)

lemma within_import:
  "within (peers_only (target c n)) (import_bgp c n peer)" "within (peers_only (target c n)) (import_ibgp c n peer)"
  unfolding import_bgp_def import_ibgp_def
  by (intro peers.rules within_from peers.quiet read_only_methods)+

lemma within_import_peers: "(\<And>peer. within (peers_only n) (imp peer)) \<Longrightarrow> within (peers_only n) (import_peers imp tally ps c)"
proof (induction ps arbitrary: c)
  case (Cons p ps)
  then show ?case by (cases p) (simp_all add: peers.rules)
qed (simp add: peers.rules)

definition marked :: "nat \<Rightarrow> database \<Rightarrow> database \<Rightarrow> bool" where
  "marked i d d' \<longleftrightarrow> (\<exists>now c. mark_report i now d = Inr (c, d') \<and> 0 < c)"

lemma outcome_mark_imported [services]:
  "outcome (report_mark_imported i) (\<lambda>d x d'. marked i d d' \<and> find_report i d' = Some x) (\<lambda>d d'. d' = d \<or> marked i d d')"
proof -
  have upd: "outcome (with_tx (\<lambda>_. m) (bnd (sql_dml (mark_report i now)) (\<lambda>c. require_row c m')))
      (\<lambda>d x d'. marked i d d') (\<lambda>d d'. d' = d)" for m m' now
  proof (rule outcome_atomic)
    show "op_spec (with_tx (\<lambda>_. m) (bnd (sql_dml (mark_report i now)) (\<lambda>c. require_row c m'))) (\<lambda>d x d'. marked i d d')"
      by (rule op_spec_conseq, (rule specs)+) (auto simp: marked_def)
  qed (auto intro!: atomic)
  show ?thesis
    unfolding report_mark_imported_def
    by (rule outcome_triple, rule triple_pre, (rule wp | rule triple_outcome, rule upd services)+) blast
qed

lemma outcome_report_add [services]:
  "outcome (report_add n k pl) (\<lambda>d x d'. \<exists>now i. insert_report n k pl now d = Inr (i, d') \<and> find_report i d' = Some x)
     (\<lambda>d d'. d' = d \<or> (\<exists>now i. insert_report n k pl now d = Inr (i, d')))"
proof -
  have ins: "outcome (with_tx (\<lambda>_. msg) (sql_dml (insert_report n k pl now)))
      (\<lambda>d i d'. insert_report n k pl now d = Inr (i, d')) (\<lambda>d d'. d' = d)" for msg now
    by (rule outcome_atomic) (auto intro!: atomic specs)
  show ?thesis
    unfolding report_add_def
    by (rule outcome_triple, rule triple_pre, (rule wp | rule triple_outcome, rule ins services)+) blast
qed

definition entries :: "import_counts \<Rightarrow> nat" where
  "entries k = ic_bgp_created k + ic_bgp_skipped k + ic_ibgp_created k + ic_ibgp_skipped k + ic_malformed k"

lemma import_peers_entries:
  assumes "import_peers imp tally ps k w = (Inr k', w')" and "tally \<in> {count_bgp, count_ibgp}"
  shows "entries k' = entries k + length ps"
  using assms(1)
proof (induction ps arbitrary: k w)
  case (Cons p ps)
  have t: "entries (tally res c) = Suc (entries c)" for res c
    using assms(2) by (cases res) (auto simp: entries_def count_bgp_def count_ibgp_def)
  have m: "entries (c\<lparr> ic_malformed := Suc (ic_malformed c) \<rparr>) = Suc (entries c)" for c by (simp add: entries_def)
  show ?case
    using Cons.prems by (cases p) (auto simp: returns t m dest!: Cons.IH)
qed (simp add: ret_def)

lemma outcome_result: "outcome m R Q \<Longrightarrow> (\<And>w x w'. m w = (Inr x, w') \<Longrightarrow> P x) \<Longrightarrow> outcome m (\<lambda>d x d'. R d x d' \<and> P x) Q"
  unfolding outcome_def by (metis (mono_tags, lifting) old.sum.simps(5,6) prod.collapse sum.exhaust)

lemma outcome_import_peers:
  "outcome (import_peers (import_bgp c n) count_bgp ps k)
     (\<lambda>d k' d'. (migrated d \<longrightarrow> peers_only (target c n) d d') \<and> entries k' = entries k + length ps) (\<lambda>d d'. migrated d \<longrightarrow> peers_only (target c n) d d')"
  "outcome (import_peers (import_ibgp c n) count_ibgp ps k)
     (\<lambda>d k' d'. (migrated d \<longrightarrow> peers_only (target c n) d d') \<and> entries k' = entries k + length ps) (\<lambda>d d'. migrated d \<longrightarrow> peers_only (target c n) d d')"
  by (rule outcome_result, rule within_import_peers [unfolded within_def], rule within_import [unfolded within_def], simp add: import_peers_entries)+

text \<open>Where an import may stop: before the loops, inside them, or marking the report.\<close>

inductive import_stopped :: "AppConfig \<Rightarrow> nat \<Rightarrow> database \<Rightarrow> database \<Rightarrow> bool" for c i d where
  not_importable: "import_stopped c i d d"
| part_imported: "find_report i d = Some r \<Longrightarrow> peers_only (target c (nr_node_id r)) d d1 \<Longrightarrow> import_stopped c i d d1"
| mark_unread: "find_report i d = Some r \<Longrightarrow> peers_only (target c (nr_node_id r)) d d1 \<Longrightarrow> marked i d1 d' \<Longrightarrow> import_stopped c i d d'"

definition imported :: "AppConfig \<Rightarrow> nat \<Rightarrow> database \<Rightarrow> import_counts \<Rightarrow> database \<Rightarrow> bool" where
  "imported c i d k d' \<longleftrightarrow> (\<exists>r bs is d1. find_report i d = Some r \<and> nr_kind r = ''scan_result'' \<and> nr_imported_at r = None
     \<and> get_or (nr_payload r) ''bgp_peers'' (JArr []) = JArr bs \<and> get_or (nr_payload r) ''ibgp_peers'' (JArr []) = JArr is
     \<and> entries k = length bs + length is \<and> peers_only (target c (nr_node_id r)) d d1 \<and> marked i d1 d')"

lemma triple_json_pair [wp]:
  "(\<And>xs ys. triple (P xs ys) (f xs ys) R E) \<Longrightarrow> triple Q g R E \<Longrightarrow>
   triple (\<lambda>d. (\<forall>xs ys. j = JArr xs \<and> k = JArr ys \<longrightarrow> P xs ys d) \<and> ((\<forall>xs ys. j \<noteq> JArr xs \<or> k \<noteq> JArr ys) \<longrightarrow> Q d))
     (case (j, k) of (JArr xs, JArr ys) \<Rightarrow> f xs ys | _ \<Rightarrow> g) R E"
  by (cases j; cases k) (auto intro: triple_pre)

lemma outcome_import:
  "outcome (import_report c i) (\<lambda>d x d'. migrated d \<longrightarrow> imported c i d x d') (\<lambda>d d'. migrated d \<longrightarrow> import_stopped c i d d')"
  unfolding import_report_def
  by (rule outcome_migrated, rule triple_pre, (rule wp | rule triple_outcome, rule outcome_import_peers services)+)
    (auto simp: imported_def no_counts_def entries_def intro: not_importable part_imported mark_unread peers.K_trans peers.K_migrated)

section \<open>Properties\<close>

lemma submitted_row:
  assumes "wf_db d" and "submitted n s k pl d p m d'"
  shows "p \<in> set (config_proposals d')" and "cp_node_id p = n" and "cp_kind p = k" and "cp_status p = ''pending''" and "cp_payload p = pl"
    and "cp_id p = Suc (proposals_seq d)" and "find_managed n d = Some m" and "confined x d d'"
    and "bgp_peers d' = bgp_peers d" and "ibgp_peers d' = ibgp_peers d" and "config_proposals d' = config_proposals d @ [p]"
proof -
  from assms(2) obtain now where d': "insert_proposal n s k pl now d = Inr (Suc (proposals_seq d), d')"
    and f: "find_proposal (Suc (proposals_seq d)) d' = Some p" and m: "find_managed n d = Some m"
    by (auto simp: submitted_def insert_proposal_def Let_def split: if_splits)
  have "List.find (\<lambda>p. cp_id p = Suc (proposals_seq d)) (config_proposals d) = None"
    using assms(1) by (auto simp: wf_defs ids_ok_def find_None_set)
  with d' f have p: "p = \<lparr> cp_id = Suc (proposals_seq d), cp_node_id = n, cp_source = s, cp_kind = k, cp_payload = pl,
      cp_status = ''pending'', cp_received_at = now, cp_decided_at = None, cp_message = None \<rparr>"
      "d' = d\<lparr> config_proposals := config_proposals d @ [p], proposals_seq := Suc (proposals_seq d) \<rparr>"
    by (auto simp: insert_proposal_def find_proposal_def find_append Let_def split: if_splits)
  then show "p \<in> set (config_proposals d')" and "cp_node_id p = n" and "cp_kind p = k" and "cp_status p = ''pending''" and "cp_payload p = pl"
    and "cp_id p = Suc (proposals_seq d)" and "find_managed n d = Some m" and "confined x d d'"
    and "bgp_peers d' = bgp_peers d" and "ibgp_peers d' = ibgp_peers d" and "config_proposals d' = config_proposals d @ [p]"
    using m by (simp_all add: confined_def)
qed

lemma peers_only_confined: "peers_only n d d' \<Longrightarrow> confined n d d'"
  by (simp add: peers_only_def)

lemma confined_ledger:
  "insert_proposal m s k pl now d = Inr (i, d') \<Longrightarrow> confined n d d'" "decided i st msg d d' \<Longrightarrow> confined n d d'"
  "insert_report m k pl now d = Inr (i, d') \<Longrightarrow> confined n d d'" "marked i d d' \<Longrightarrow> confined n d d'"
  by (auto simp: confined_def insert_proposal_def decided_def update_proposal_def insert_report_def marked_def mark_report_def
      Let_def split: if_splits)

lemma confined_submit:
  assumes "wf_db d" and "n \<noteq> []"
  shows "submit_result config n s k pl d q d' \<Longrightarrow> confined n d d'" and "submit_stopped config n s k pl d d' \<Longrightarrow> confined n d d'"
proof -
  note t = own.K_trans peers_only_confined confined_ledger
  have a: "confined n d0 d'" if "auto_applied c p d0 q d'" "cp_node_id p = n" for c p d0
    using that assms(2) by (auto simp: auto_applied_def applied_def intro: t)
  have b: "confined n d0 d'" if "auto_stopped c p d0 d'" "cp_node_id p = n" for c p d0
    using that assms(2) by (cases rule: auto_stopped.cases) (auto intro: t)
  show "submit_result config n s k pl d q d' \<Longrightarrow> confined n d d'"
    using submitted_row(2,8) [OF assms(1)] a
    by (fastforce simp: submit_result_def intro: own.K_trans split: option.splits if_splits)
  have e: "confined n d d'" if "submitted n s k pl d p m d0" "auto_stopped c p d0 d'" for p m d0 c
    using b [OF that(2)] submitted_row(2,8) [OF assms(1) that(1)] by (blast intro: own.K_trans)
  show "submit_stopped config n s k pl d d' \<Longrightarrow> confined n d d'"
    by (erule submit_stopped.cases) (auto intro: own.K_refl confined_ledger e)
qed

lemma within_submit_report: "within (confined n) (submit_report m rk payload)"
proof -
  have "within (confined n) (report_add m rk pl)" for pl
    by (rule within_outcome, rule outcome_report_add) (auto intro: own.K_refl confined_ledger)
  then show ?thesis
    unfolding submit_report_def using own.quiet [OF read_only_managed(1)]
    by (cases payload) (auto intro!: own.rules)
qed

text \<open>
  C1. Nodes are kept apart. Whatever a node sends as a proposal or a report, whatever payload,
  whichever statement fails, and also when an administrator accepts the proposal or imports the
  report later: the peers of other nodes, the registry, the revisions and the pins stay as
  they are, and only the node itself is notified.
\<close>

theorem node_requests_confined:
  assumes "tx w = None" and "migrated (disk w)" and "wf_db (disk w)" and "n \<noteq> []"
  shows "confined n (disk w) (disk (snd (submit_proposal config n s k payload w)))
    \<and> confined n (disk w) (disk (snd (submit_report n rk payload w)))
    \<and> (\<forall>p. find_proposal i (disk w) = Some p \<and> cp_node_id p = n \<longrightarrow>
          confined n (disk w) (disk (snd (accept_proposal c i w))) \<and> confined n (disk w) (disk (snd (reject_proposal i reason w))))
    \<and> (\<forall>r. find_report j (disk w) = Some r \<and> nr_node_id r = n \<longrightarrow> confined n (disk w) (disk (snd (import_report c j w))))"
proof (intro conjI allI impI)
  note t = own.K_refl own.K_trans peers_only_confined confined_ledger
  show "confined n (disk w) (disk (snd (submit_proposal config n s k payload w)))"
  proof (cases payload)
    case (JObj pl)
    show ?thesis unfolding JObj
      by (rule outcome_always [OF outcome_submit [of config n s k pl] assms(1) _ _ refl]) (use assms(2) confined_submit [OF assms(3,4)] in auto)
  qed (use submit_bad_payload [of payload config n s k w] in \<open>auto intro: own.K_refl\<close>)
  show "confined n (disk w) (disk (snd (submit_report n rk payload w)))"
    using withinD [OF within_submit_report assms(1,2)] by blast
  fix p
  assume p: "find_proposal i (disk w) = Some p \<and> cp_node_id p = n"
  show "confined n (disk w) (disk (snd (accept_proposal c i w)))"
    by (rule outcome_always [OF outcome_accept [of c i] assms(1) _ _ refl]) (use assms(2,4) p in \<open>auto simp: applied_def intro: t\<close>)
  show "confined n (disk w) (disk (snd (reject_proposal i reason w)))"
    by (rule outcome_always [OF outcome_reject [of i reason] assms(1) _ _ refl]) (use assms(2,4) p in \<open>auto intro: t\<close>)
next
  note t = own.K_refl peers_only_confined own.K_trans [OF peers_only_confined confined_ledger(4)]
  fix r
  assume r: "find_report j (disk w) = Some r \<and> nr_node_id r = n"
  show "confined n (disk w) (disk (snd (import_report c j w)))"
    by (rule outcome_always [OF outcome_import [of c j] assms(1) _ _ refl])
      (use assms(2,4) r in \<open>auto simp: imported_def elim!: import_stopped.cases intro: t\<close>)
qed

lemma find_map_other:
  "j \<noteq> i \<Longrightarrow> (\<And>x. key (f x) = key x) \<Longrightarrow> List.find (\<lambda>x. key x = j) (map (\<lambda>x. if key x = i then f x else x) xs) = List.find (\<lambda>x. key x = j) xs"
  by (induction xs) auto

lemma find_decided:
  assumes "decided i st msg d d'"
  shows "\<exists>now. find_proposal i d' = map_option (\<lambda>p. p\<lparr> cp_status := st, cp_decided_at := Some now, cp_message := msg \<rparr>) (find_proposal i d)"
    and "j \<noteq> i \<Longrightarrow> find_proposal j d' = find_proposal j d" and "bgp_peers d' = bgp_peers d" and "ibgp_peers d' = ibgp_peers d"
proof -
  from assms obtain now where d': "d' = d\<lparr> config_proposals := map (\<lambda>p. if cp_id p = i
      then p\<lparr> cp_status := st, cp_decided_at := Some now, cp_message := msg \<rparr> else p) (config_proposals d) \<rparr>"
    by (auto simp: decided_def update_proposal_def)
  then show "\<exists>now. find_proposal i d' = map_option (\<lambda>p. p\<lparr> cp_status := st, cp_decided_at := Some now, cp_message := msg \<rparr>) (find_proposal i d)"
    by (auto simp: find_proposal_def find_map_update)
  show "bgp_peers d' = bgp_peers d" and "ibgp_peers d' = ibgp_peers d" by (simp_all add: d')
  assume "j \<noteq> i"
  then show "find_proposal j d' = find_proposal j d" by (simp add: d' find_proposal_def find_map_other)
qed

lemma inserted_peers: "insert_proposal n s k pl now d = Inr (i, d') \<Longrightarrow> bgp_peers d' = bgp_peers d \<and> ibgp_peers d' = ibgp_peers d"
  by (auto simp: insert_proposal_def Let_def split: if_splits)

text \<open>
  C2. A proposal changes the peers of a node without review only if it adds a peer and the
  stored policy of that node accepts additions automatically: in every other case the tables
  of peers are untouched, whatever the result, and a proposal that is returned is pending.
\<close>

theorem changes_need_review:
  assumes "tx w = None" and "migrated (disk w)" and "wf_db (disk w)" and "submit_proposal config n s k payload w = (r, w')"
    and "\<not> (k = ''peer_add'' \<and> config \<noteq> None \<and> (\<exists>m. find_managed n (disk w) = Some m \<and> auto_accepts (mn_write_policy m)))"
  shows "bgp_peers (disk w') = bgp_peers (disk w) \<and> ibgp_peers (disk w') = ibgp_peers (disk w)
    \<and> (\<forall>q. r = Inr q \<longrightarrow> cp_status q = ''pending'' \<and> config_proposals (disk w') = config_proposals (disk w) @ [q])"
proof (cases payload)
  case (JObj pl)
  note sub = submitted_row [OF assms(3)]
  have no: False if "submitted n s k pl (disk w) p m d0" "config = Some c" "eligible p (mn_write_policy m)" for p m d0 c
    using assms(5) that sub(3,7) [OF that(1)] by (auto simp: eligible_def)
  note o = outcomeD [OF outcome_submit assms(1) assms(4) [unfolded JObj]]
  show ?thesis
  proof (cases r)
    case (Inl e)
    with o(3) assms(2) have "submit_stopped config n s k pl (disk w) (disk w')" by blast
    then show ?thesis using no Inl
      by (auto elim!: submit_stopped.cases dest: inserted_peers)
  next
    case (Inr q)
    with o(2) assms(2) have "submit_result config n s k pl (disk w) q (disk w')" by blast
    then obtain p m d0 where p: "submitted n s k pl (disk w) p m d0" and c: "case config of
        Some c \<Rightarrow> if eligible p (mn_write_policy m) then auto_applied c p d0 q (disk w') else q = p \<and> disk w' = d0
      | None \<Rightarrow> q = p \<and> disk w' = d0"
      by (auto simp: submit_result_def)
    then have "q = p \<and> disk w' = d0" using no [OF p] by (auto split: option.splits if_splits)
    with sub [OF p] Inr show ?thesis by auto
  qed
qed (use submit_bad_payload [of payload config n s k w] assms(4) in auto)

text \<open>The proposal \<open>p\<close> was pending and is now \<open>q\<close>, accepted and applied.\<close>

definition accepted_now :: "AppConfig \<Rightarrow> ConfigProposal \<Rightarrow> ConfigProposal \<Rightarrow> database \<Rightarrow> database \<Rightarrow> bool" where
  "accepted_now c p q d d' \<longleftrightarrow> cp_status p = ''pending''
     \<and> (\<exists>now. q = p\<lparr> cp_status := ''accepted'', cp_decided_at := Some now, cp_message := None \<rparr>)
     \<and> find_proposal (cp_id p) d' = Some q \<and> (\<forall>j. j \<noteq> cp_id p \<longrightarrow> find_proposal j d' = find_proposal j d)
     \<and> peer_effect (cp_kind p) (target c (cp_node_id p)) (cp_payload p) (peer_tables d) (peer_tables d')"

lemma accepted_nowI:
  assumes "find_proposal i d = Some p" and "cp_status p = ''pending''" and "applied c p d d1" and "decided i ''accepted'' None d1 d'"
  shows "\<exists>q. accepted_now c p q d d'"
proof -
  have i: "cp_id p = i" using assms(1) by (auto simp: find_proposal_def dest: find_Some_set)
  have s: "find_proposal j d1 = find_proposal j d" for j
    using assms(3) by (simp add: applied_def peers_only_def find_proposal_def)
  from find_decided(1) [OF assms(4)] assms(1) s obtain now where
    "find_proposal i d' = Some (p\<lparr> cp_status := ''accepted'', cp_decided_at := Some now, cp_message := None \<rparr>)" by auto
  moreover have "peer_tables d' = peer_tables d1" using find_decided(2-) [OF assms(4)] by (simp add: peer_tables_def)
  ultimately show ?thesis using assms(2,3) s find_decided(2) [OF assms(4)] i unfolding accepted_now_def applied_def by auto
qed

text \<open>
  C16. \<open>accept_proposal\<close> applies and decides exactly one pending proposal. If it returns, that
  proposal is accepted, no other proposal changed, and the peers are those before with what
  the proposal asks for: the described row added, the row with its key given the described
  values, or removed. If it raises, either every proposal is as before and only rows of the
  node may have changed, or the proposal was pending, was applied and is accepted, and only reading it back
  failed.
\<close>

theorem accept_proposal_outcome:
  assumes "tx w = None" and "migrated (disk w)" and "accept_proposal c i w = (r, w')"
  shows "case r of
      Inr q \<Rightarrow> (\<exists>p. find_proposal i (disk w) = Some p \<and> accepted_now c p q (disk w) (disk w'))
    | Inl e \<Rightarrow> disk w' = disk w
          \<or> (\<exists>p. find_proposal i (disk w) = Some p \<and> cp_status p = ''pending'' \<and> peers_only (target c (cp_node_id p)) (disk w) (disk w'))
          \<or> (\<exists>p q. find_proposal i (disk w) = Some p \<and> accepted_now c p q (disk w) (disk w'))"
proof (cases r)
  case (Inr q)
  with outcomeD(2) [OF outcome_accept assms(1,3)] assms(2) obtain p d1 where p: "find_proposal i (disk w) = Some p" "cp_status p = ''pending''"
    and a: "applied c p (disk w) d1" and d: "decided i ''accepted'' None d1 (disk w')" and q: "find_proposal i (disk w') = Some q" by blast
  from p(1) have "cp_id p = i" by (auto simp: find_proposal_def dest: find_Some_set)
  with accepted_nowI [OF p a d] q have "accepted_now c p q (disk w) (disk w')" by (metis accepted_now_def option.inject)
  with p(1) show ?thesis unfolding Inr by auto
next
  case (Inl e)
  with outcomeD(3) [OF outcome_accept assms(1,3)] assms(2) accepted_nowI show ?thesis unfolding Inl sum.case by blast
qed

text \<open>
  A decision is final: on a proposal that is not pending, \<open>accept_proposal\<close> and
  \<open>reject_proposal\<close> raise and change nothing.
\<close>

theorem decisions_are_final:
  assumes "tx w = None" and "migrated (disk w)" and "find_proposal i (disk w) = Some p" and "cp_status p \<noteq> ''pending''"
  shows "(\<exists>e w'. accept_proposal c i w = (Inl e, w') \<and> disk w' = disk w) \<and> (\<exists>e w'. reject_proposal i reason w = (Inl e, w') \<and> disk w' = disk w)"
proof -
  obtain r w' r2 w2 where a: "accept_proposal c i w = (r, w')" and b: "reject_proposal i reason w = (r2, w2)" by fastforce
  have "\<exists>e. r = Inl e \<and> disk w' = disk w"
    using outcomeD(2,3) [OF outcome_accept assms(1) a] assms(2-) by (cases r) auto
  moreover have "\<exists>e. r2 = Inl e \<and> disk w2 = disk w"
    using outcomeD(2,3) [OF outcome_reject assms(1) b] assms(2-) by (cases r2) auto
  ultimately show ?thesis using a b by blast
qed

lemma find_marked: "marked i d d' \<Longrightarrow> find_report i d = Some r \<Longrightarrow> \<exists>now. find_report i d' = Some (r\<lparr> nr_imported_at := Some now \<rparr>)"
  by (auto simp: marked_def mark_report_def find_report_def find_map_update)

lemma bnd_Inr: "m w = (Inr x, w1) \<Longrightarrow> bnd m f w = f x w1"
  by (simp add: bnd_def)

text \<open>
  \<open>import_report\<close> accounts for every entry: the counters it returns add up to the number
  of entries of the report. The report is then marked, and importing it again raises and
  changes nothing.
\<close>

theorem import_report_accounts:
  assumes "tx w = None" and "migrated (disk w)" and "import_report c i w = (Inr k, w')"
  shows "(\<exists>r bs is. find_report i (disk w) = Some r \<and> get_or (nr_payload r) ''bgp_peers'' (JArr []) = JArr bs
        \<and> get_or (nr_payload r) ''ibgp_peers'' (JArr []) = JArr is \<and> entries k = length bs + length is)
    \<and> (\<exists>e w2. import_report c' i w' = (Inl e, w2) \<and> disk w2 = disk w')"
proof -
  from outcomeD(1,2) [OF outcome_import assms(1,3)] assms(2) obtain r bs ibs d1 where tx': "tx w' = None"
    and r: "find_report i (disk w) = Some r" "get_or (nr_payload r) ''bgp_peers'' (JArr []) = JArr bs"
      "get_or (nr_payload r) ''ibgp_peers'' (JArr []) = JArr ibs" "entries k = length bs + length ibs"
    and p: "peers_only (target c (nr_node_id r)) (disk w) d1" and m: "marked i d1 (disk w')"
    unfolding imported_def by blast
  from p r(1) have "find_report i d1 = Some r" by (simp add: peers_only_def find_report_def)
  with find_marked [OF m] obtain r' where r': "find_report i (disk w') = Some r'" "nr_imported_at r' \<noteq> None" by auto
  have mig: "migrated (disk w')"
    using assms(2) peers.K_migrated [OF p] own.K_migrated [OF confined_ledger(4) [OF m]] by blast
  have "outcome (with_db (report_get i)) (\<lambda>d x d'. migrated d \<longrightarrow> x = find_report i d \<and> d' = d) (\<lambda>d d'. migrated d \<longrightarrow> d' = d)"
    by (rule outcome_migrated, rule triple_pre, (rule wp | rule triple_outcome, rule services)+) auto
  note g = outcomeD [OF this tx']
  have "\<exists>e w2. import_report c' i w' = (Inl e, w2) \<and> disk w2 = disk w'"
  proof (cases "with_db (report_get i) w'")
    case (Pair x w2)
    then show ?thesis using g(2,3) [OF Pair] mig r' by (cases x) (auto simp: import_report_def bnd_def raise_def)
  qed
  with r show ?thesis by blast
qed

text \<open>
  Re-importing is not idempotent for a tunnel whose reported name is not in normal form:
  the row is looked up under the name of the report but stored under its normal form. If the
  node already has the tunnel, the import of such an entry raises instead of skipping it.
\<close>

theorem import_ibgp_renamed_raises:
  assumes "tx w = None" and "migrated (disk w)" and "n \<noteq> []" and "parse_ibgp_peer peer None = Inr x"
    and "sanitize_name (ip_name x) = Inr m" and "find_ibgp n m (disk w) \<noteq> None" and "find_ibgp n (ip_name x) (disk w) = None"
  shows "\<exists>e w'. import_ibgp c n peer w = (Inl e, w')"
proof -
  have o: "outcome (import_ibgp c n peer) (\<lambda>d _ d'. migrated d \<longrightarrow> find_ibgp n (ip_name x) d \<noteq> None
      \<or> (\<exists>p i. ibgp_created n (ip_name x) (ip_has_wg x) p i d d')) (\<lambda>d d'. migrated d \<longrightarrow> True)"
    unfolding import_ibgp_def
    by (rule outcome_migrated, rule triple_pre, (rule wp | rule triple_outcome, rule outcome_from services)+)
      (use assms(3,4) in auto)
  have "\<not> ibgp_created n (ip_name x) h p i (disk w) d'" for h p i d'
  proof
    assume "ibgp_created n (ip_name x) h p i (disk w) d'"
    then obtain now0 d0 rec now d1 where u: "upsert_node_row n now0 (disk w) = Inr ((), d0)" and "insert_ibgp_row rec now d0 = Inr ((), d1)"
      "sanitize_name (ip_name x) = Inr (p_name rec)" "p_node_id rec = n" unfolding ibgp_created_def by blast
    then have "\<forall>r \<in> set (ibgp_peers (disk w)). p_node_id r = n \<longrightarrow> p_name r \<noteq> m"
      using upsert_node_row_frame [OF u] assms(5) by (auto simp: insert_ibgp_row_def split: if_splits)
    with assms(6) show False by (auto simp: find_ibgp_def ibgp_key_def find_None_set)
  qed
  moreover obtain r w' where "import_ibgp c n peer w = (r, w')" by fastforce
  ultimately show ?thesis using outcomeD(2) [OF o assms(1)] assms(2,7) by (cases r) auto
qed

text \<open>
  A \<open>peer_kind\<close> that is a list is not hashable, and \<open>TypeError\<close> is not caught: the
  submission to a node that accepts additions automatically raises it, and the proposal is left
  pending although the caller sees an internal error.
\<close>

theorem unhashable_kind_escapes:
  assumes "no_faults w" and "tx w = None" and "migrated (disk w)" and "wf_db (disk w)"
    and "find_managed n (disk w) = Some m" and "auto_accepts (mn_write_policy m)"
    and "dict_get_value pl ''peer_kind'' = JArr xs"
  shows "\<exists>msg w' p. submit_proposal (Some c) n ''push'' ''peer_add'' (JObj pl) w = (Inl (TypeError msg), w')
    \<and> config_proposals (disk w') = config_proposals (disk w) @ [p] \<and> cp_status p = ''pending''"
proof -
  have n: "has_node (disk w) n"
    using assms(4,5) by (auto simp: wf_defs find_managed_def dest!: find_Some_set)
  let ?body = "with_db (bnd (managed_get n) (\<lambda>node. case node of
      None \<Rightarrow> raise (Dn42CtlError ''managed node does not exist'')
    | Some m \<Rightarrow> bnd (proposal_add n ''push'' ''peer_add'' pl) (\<lambda>p. ret (p, mn_write_policy m))))"
  have "succeeds False (\<lambda>d. d = disk w) ?body (\<lambda>pp d'. snd pp = mn_write_policy m \<and> submitted n ''push'' ''peer_add'' pl (disk w) (fst pp) m d')"
    unfolding proposal_add_def proposal_read_back_def proposal_get_def
    by (rule total_pre, (rule total)+) (use n assms(3,5) in
      \<open>auto simp: submitted_def insert_proposal_def Let_def find_proposal_def find_append VALID_PROPOSAL_SOURCES_def VALID_PROPOSAL_KINDS_def split: option.splits\<close>)
  from totalD [OF this assms(1,2)] obtain pp w1 where b: "?body w = (Inr pp, w1)"
    and pp: "snd pp = mn_write_policy m" "submitted n ''push'' ''peer_add'' pl (disk w) (fst pp) m (disk w1)" by blast
  note row = submitted_row [OF assms(4) pp(2)]
  have "require_peer_kind pl = Inl (TypeError ''unhashable type: list'')" using assms(7) by (simp add: require_peer_kind_def)
  then have "try_auto_accept c (fst pp) (mn_write_policy m) w1 = (Inl (TypeError ''unhashable type: list''), w1)"
    using row(3-5) assms(6) by (simp add: try_auto_accept_def apply_proposal_def apply_peer_add_def op_defs)
  moreover have "submit_proposal (Some c) n ''push'' ''peer_add'' (JObj pl) = bnd ?body (\<lambda>pp. try_auto_accept c (fst pp) (snd pp))"
    by (simp add: submit_proposal_def VALID_PROPOSAL_KINDS_def)
  ultimately have "submit_proposal (Some c) n ''push'' ''peer_add'' (JObj pl) w = (Inl (TypeError ''unhashable type: list''), w1)"
    by (simp only: bnd_Inr [where m = ?body and w = w, OF b] pp(1))
  with row(4,11) show ?thesis by blast
qed

section \<open>The properties at work\<close>

definition delete_payload :: jdict where
  "delete_payload = [(''peer_kind'', JStr ''bgp''), (''key'', JObj [(''peer_asn'', JInt 4242421234)])]"

definition sample_proposal :: ConfigProposal where
  "sample_proposal = \<lparr> cp_id = 1, cp_node_id = ''n1'', cp_source = ''push'', cp_kind = ''peer_delete'', cp_payload = delete_payload,
     cp_status = ''pending'', cp_received_at = ''t0'', cp_decided_at = None, cp_message = None \<rparr>"

definition sample_report :: NodeReport where
  "sample_report = \<lparr> nr_id = 1, nr_node_id = ''n1'', nr_kind = ''scan_result'', nr_payload = [(''bgp_peers'', JArr [JNull])],
     nr_received_at = ''t0'', nr_imported_at = None \<rparr>"

definition ledger_db :: database where
  "ledger_db = ready (sample_db\<lparr> bgp_peers := [bgp_row_of sample_bgp ''t0''],
     managed_nodes := [(new_managed ''n1'' ''one'' False ''t0'')\<lparr> mn_write_policy := dict_set DEFAULT_WRITE_POLICY ''peer_add'' ''auto_accept'' \<rparr>],
     config_proposals := [sample_proposal], proposals_seq := 1, node_reports := [sample_report], reports_seq := 1 \<rparr>)"

lemma ledger_db_ok: "migrated ledger_db" "wf_db ledger_db" "no_faults (start_world ledger_db)"
  by (simp_all add: ledger_db_def no_faults_def)
    (simp add: ready_def wf_frame eval_rows ids_ok_def single_self_def sample_proposal_def sample_report_def new_managed_def)

lemma ledger_db_facts: "find_proposal 1 ledger_db = Some sample_proposal" "find_report 1 ledger_db = Some sample_report"
  by (simp_all add: ledger_db_def ready_def find_proposal_def find_report_def sample_proposal_def sample_report_def)

lemmas eval_ledger = with_db_def closing_def db_open_quiet no_faults_def migrated_def has_table_def ready_def all_versions_def
  close_conn_def ledger_db_def sample_proposal_def sample_report_def delete_payload_def eval_rows eval_db run_defs

theorem accept_proposal_outcome_witness:
  "\<exists>q w'. accept_proposal sample_config 1 (start_world ledger_db) = (Inr q, w') \<and> cp_status q = ''accepted''
     \<and> length (bgp_peers (disk w')) < length (bgp_peers ledger_db)"
proof -
  have "\<exists>q w'. accept_proposal sample_config 1 (start_world ledger_db) = (Inr q, w')"
    by (simp add: accept_proposal_def proposal_get_def find_proposal_def apply_proposal_def apply_peer_delete_def require_peer_kind_def
        require_peer_def dict_get_value_def parse_bgp_key_def int_field_def require_def dict_get_def checked_def validate_asn_def
        MAX_ASN_def bindR_def delete_bgp_peer_def open_db_def or_else_def proposal_set_status_def VALID_PROPOSAL_STATUSES_def
        update_proposal_def require_row_def proposal_read_back_def eval_ledger)
  then obtain q w' where r: "accept_proposal sample_config 1 (start_world ledger_db) = (Inr q, w')" by blast
  from accept_proposal_outcome [OF _ _ r] ledger_db_ok have a: "accepted_now sample_config sample_proposal q ledger_db (disk w')"
    using ledger_db_facts(1) by auto
  then have "peer_effect ''peer_delete'' (target sample_config ''n1'') delete_payload (peer_tables ledger_db) (peer_tables (disk w'))"
    by (simp add: accepted_now_def sample_proposal_def)
  moreover have "require_peer_kind delete_payload = Inr ''bgp''"
    by (simp add: require_peer_kind_def delete_payload_def dict_get_value_def)
  ultimately have "length (bgp_peers (disk w')) < length (bgp_peers ledger_db)"
    by (auto simp: peer_tables_def intro!: length_filter_less elim!: effect_deleteE)
  with a r show ?thesis by (auto simp: accepted_now_def)
qed

theorem node_requests_confined_witness:
  "confined ''n1'' ledger_db (disk (snd (accept_proposal sample_config 1 (start_world ledger_db))))
   \<and> confined ''n1'' ledger_db (disk (snd (import_report sample_config 1 (start_world ledger_db))))"
  using node_requests_confined [of "start_world ledger_db" "''n1''" None "''push''" "''peer_add''" JNull "''error''" 1 sample_config "''no''" 1]
    ledger_db_ok ledger_db_facts by (simp add: sample_proposal_def sample_report_def)

theorem changes_need_review_witness:
  "bgp_peers (disk (snd (submit_proposal (Some sample_config) ''n1'' ''push'' ''peer_delete'' (JObj delete_payload) (start_world ledger_db)))) = bgp_peers ledger_db"
  using changes_need_review [of "start_world ledger_db" "Some sample_config" "''n1''" "''push''" "''peer_delete''" "JObj delete_payload",
      OF _ _ _ prod.collapse [symmetric]] ledger_db_ok by simp

definition decided_db :: database where
  "decided_db = ledger_db\<lparr> config_proposals := [sample_proposal\<lparr> cp_status := ''rejected'' \<rparr>] \<rparr>"

theorem decisions_are_final_witness:
  "\<exists>e w'. accept_proposal sample_config 1 (start_world decided_db) = (Inl e, w') \<and> disk w' = decided_db"
proof -
  have "migrated decided_db" using ledger_db_ok(1) by (simp add: decided_db_def migrated_def has_table_def)
  moreover have "find_proposal 1 decided_db = Some (sample_proposal\<lparr> cp_status := ''rejected'' \<rparr>)"
    by (simp add: decided_db_def find_proposal_def sample_proposal_def)
  ultimately show ?thesis
    using decisions_are_final [of "start_world decided_db" 1 "sample_proposal\<lparr> cp_status := ''rejected'' \<rparr>" sample_config "''no''"] by simp
qed

theorem import_report_accounts_witness:
  "\<exists>k w'. import_report sample_config 1 (start_world ledger_db) = (Inr k, w') \<and> entries k = 1"
proof -
  have "\<exists>k w'. import_report sample_config 1 (start_world ledger_db) = (Inr k, w')"
    by (simp add: import_report_def report_get_def find_report_def get_or_def dict_get_def report_mark_imported_def mark_report_def
        require_row_def report_read_back_def eval_ledger)
  then obtain k w' where r: "import_report sample_config 1 (start_world ledger_db) = (Inr k, w')" by blast
  from import_report_accounts [OF _ _ r] ledger_db_ok ledger_db_facts have "entries k = 1"
    by (auto simp: sample_report_def get_or_def dict_get_def)
  with r show ?thesis by blast
qed

definition reported_peer :: jdict where
  "reported_peer = [(''name'', JStr ''B''), (''has_wg'', JBool False), (''peer_ip'', JStr ''fe80::1''),
     (''babel_rxcost'', JInt 20), (''babel_type'', JStr ''tunnel'')]"

theorem import_ibgp_renamed_raises_witness:
  "\<exists>e w'. import_ibgp sample_config ''n1'' reported_peer (start_world (ready (sample_db\<lparr> ibgp_peers := [ibgp_row_of sample_ibgp ''t0''] \<rparr>))) = (Inl e, w')"
proof -
  obtain x where x: "parse_ibgp_peer reported_peer None = Inr x" "ip_name x = ''B''"
    using sample_lla_valid
    by (simp add: reported_peer_def parse_ibgp_peer_def bindR_def int_field_def str_field_def require_def dict_get_def
        checked_def endpoint_field_def optional_str_def dict_get_value_def validate_rxcost_def
        validate_endpoint_def net_backend_field_def DEFAULT_NET_BACKEND_def validate_net_backend_def
        optional_listen_port_def MAX_PORT_def validate_babel_type_def BABEL_VALID_TYPES_def eval_strings
        char_of_def bit_iff_odd)
  have "sanitize_name ''B'' = Inr ''b''"
    by (simp add: sanitize_name_def is_name_char_def is_alnum_def strip_chars_def eval_strings char_of_def bit_iff_odd)
  with x show ?thesis
    by (intro import_ibgp_renamed_raises [where x = x and m = "''b''"])
      (simp_all add: find_ibgp_def ibgp_key_def sample_ibgp_def)
qed

theorem unhashable_kind_escapes_witness:
  "\<exists>msg w'. submit_proposal (Some sample_config) ''n1'' ''push'' ''peer_add'' (JObj [(''peer_kind'', JArr [])]) (start_world ledger_db)
     = (Inl (TypeError msg), w')"
proof -
  obtain m where m: "find_managed ''n1'' ledger_db = Some m" "auto_accepts (mn_write_policy m)"
    by (simp add: ledger_db_def ready_def find_managed_def new_managed_def auto_accepts_def dict_set_get)
  from unhashable_kind_escapes [of "start_world ledger_db" "''n1''" m "[(''peer_kind'', JArr [])]" "[]" sample_config] m ledger_db_ok
  show ?thesis by (auto simp: dict_get_value_def)
qed

end
