(* ===== verification/Json_Parse.thy ===== *)
theory Json_Parse
  imports Json
begin

text \<open>
  \<open>json.loads\<close>, the parser of the standard library, as the program uses it: on a text, with
  the two ways it fails. A syntax error is a \<open>ValueError\<close>; a container nested deeper than
  the interpreter's recursion limit is a \<open>RecursionError\<close>, which is no \<open>ValueError\<close>. The
  limit \<open>k\<close> and the conversion \<open>fr\<close> of the text of a float (\<open>repr(float(s))\<close>) are arguments.
  Characters are the 256 of type \<^typ>\<open>char\<close>; an escape above \<open>00ff\<close> has no counterpart here.
\<close>

section \<open>Tokens\<close>

definition is_json_space :: "char \<Rightarrow> bool" where
  "is_json_space c = (code_point c \<in> {32, 9, 10, 13})"

definition skip_ws :: "string \<Rightarrow> string" where "skip_ws s = dropWhile is_json_space s"

definition hex_val :: "char \<Rightarrow> nat option" where
  "hex_val c = (let n = code_point c in
     if 48 \<le> n \<and> n \<le> 57 then Some (n - 48)
     else if 97 \<le> n \<and> n \<le> 102 then Some (n - 87)
     else if 65 \<le> n \<and> n \<le> 70 then Some (n - 55) else None)"

fun hex4 :: "string \<Rightarrow> (nat \<times> string) option" where
  "hex4 (a # b # c # d # s) = (case (hex_val a, hex_val b, hex_val c, hex_val d) of
     (Some w, Some x, Some y, Some z) \<Rightarrow> Some (4096 * w + 256 * x + 16 * y + z, s) | _ \<Rightarrow> None)"
| "hex4 _ = None"

definition simple_escape :: "char \<Rightarrow> char option" where
  "simple_escape c =
     (if c = CHR 0x22 then Some (CHR 0x22) else if c = CHR 0x5C then Some (CHR 0x5C) else if c = CHR ''/'' then Some (CHR ''/'')
      else if c = CHR ''b'' then Some (CHR 0x08) else if c = CHR ''f'' then Some (CHR 0x0C) else if c = CHR ''n'' then Some (CHR 0x0A)
      else if c = CHR ''r'' then Some (CHR 0x0D) else if c = CHR ''t'' then Some (CHR 0x09) else None)"

lemma hex4_shorter: "hex4 s = Some (v, s') \<Longrightarrow> length s' < length s"
  by (cases s rule: hex4.cases) (auto split: option.splits)

text \<open>The text after an opening quote: the string and what follows its closing quote.\<close>

function scan_str :: "string \<Rightarrow> (string \<times> string) option" where
  "scan_str [] = None"
| "scan_str (c # s) =
     (if c = CHR 0x22 then Some ([], s)
      else if c = CHR 0x5C then (case s of
          [] \<Rightarrow> None
        | e # t \<Rightarrow>
            if e = CHR ''u'' then (case hex4 t of
                None \<Rightarrow> None
              | Some (v, t') \<Rightarrow> if v < 256 then map_option (apfst ((#) (char_of v))) (scan_str t') else None)
            else (case simple_escape e of None \<Rightarrow> None | Some x \<Rightarrow> map_option (apfst ((#) x)) (scan_str t)))
      else if code_point c < 32 then None
      else map_option (apfst ((#) c)) (scan_str s))"
  by pat_completeness auto
termination
  by (relation "measure length") (auto dest: hex4_shorter)

text \<open>\<open>int(s)\<close> of more than 4300 digits raises; a fraction or an exponent makes a float.\<close>

definition INT_MAX_STR_DIGITS :: nat where "INT_MAX_STR_DIGITS = 4300"

definition scan_digits :: "string \<Rightarrow> string \<times> string" where
  "scan_digits s = (takeWhile is_digit s, dropWhile is_digit s)"

definition scan_int_part :: "string \<Rightarrow> string \<times> string" where
  "scan_int_part s = (case s of
     [] \<Rightarrow> ([], []) | c # r \<Rightarrow> if c = CHR ''0'' then ([c], r) else scan_digits s)"

definition scan_frac :: "string \<Rightarrow> string \<times> string" where
  "scan_frac s = (case s of
     [] \<Rightarrow> ([], [])
   | c # r \<Rightarrow> if c = CHR ''.'' \<and> fst (scan_digits r) \<noteq> [] then (c # fst (scan_digits r), snd (scan_digits r)) else ([], s))"

definition scan_exp :: "string \<Rightarrow> string \<times> string" where
  "scan_exp s = (case s of
     [] \<Rightarrow> ([], [])
   | c # r \<Rightarrow>
       let (sign, r1) = (case r of [] \<Rightarrow> ([], []) | d # r' \<Rightarrow> if d = CHR ''+'' \<or> d = CHR ''-'' then ([d], r') else ([], r))
       in if (c = CHR ''e'' \<or> c = CHR ''E'') \<and> fst (scan_digits r1) \<noteq> []
          then (c # sign @ fst (scan_digits r1), snd (scan_digits r1)) else ([], s))"

definition scan_number :: "(string \<Rightarrow> string) \<Rightarrow> string \<Rightarrow> (json \<times> string) result" where
  "scan_number fr s =
     (let (sign, s1) = (case s of [] \<Rightarrow> ([], []) | c # r \<Rightarrow> if c = CHR ''-'' then ([c], r) else ([], s));
          (ip, s2) = scan_int_part s1;
          (frac, s3) = scan_frac s2;
          (ex, s4) = scan_exp s3
      in if ip = [] then Inl (ValueError ''Expecting value'')
         else if frac = [] \<and> ex = [] then
           if INT_MAX_STR_DIGITS < length ip then Inl (ValueError ''Exceeds the limit for integer string conversion'')
           else Inr (JInt (if sign = [] then int (parse_nat ip) else - int (parse_nat ip)), s4)
         else Inr (JFloat (fr (sign @ ip @ frac @ ex)), s4))"

definition eat :: "string \<Rightarrow> string \<Rightarrow> string option" where
  "eat p s = (if take (length p) s = p then Some (drop (length p) s) else None)"

section \<open>Values\<close>

definition mk_object :: "(string \<times> json) list \<Rightarrow> json" where
  "mk_object kvs = JObj (foldl (\<lambda>d kv. dict_set d (fst kv) (snd kv)) [] kvs)"

text \<open>
  \<open>n\<close> bounds the number of calls: every call but one per character read consumes a
  character, so that twice the length of the text is enough. \<open>k\<close> bounds the nesting.
\<close>

fun parse_value :: "(string \<Rightarrow> string) \<Rightarrow> nat \<Rightarrow> nat \<Rightarrow> string \<Rightarrow> (json \<times> string) result"
  and parse_elems :: "(string \<Rightarrow> string) \<Rightarrow> nat \<Rightarrow> nat \<Rightarrow> string \<Rightarrow> (json list \<times> string) result"
  and parse_members :: "(string \<Rightarrow> string) \<Rightarrow> nat \<Rightarrow> nat \<Rightarrow> string \<Rightarrow> ((string \<times> json) list \<times> string) result" where
  "parse_value fr 0 k s = Inl (ValueError ''Expecting value'')"
| "parse_value fr (Suc n) k s = (case s of
     [] \<Rightarrow> Inl (ValueError ''Expecting value'')
   | c # r \<Rightarrow>
       if c = CHR 0x22 then (case scan_str r of
           None \<Rightarrow> Inl (ValueError ''Invalid string'') | Some (t, r') \<Rightarrow> Inr (JStr t, r'))
       else if c = CHR ''['' then
         if k = 0 then Inl RecursionError
         else (case eat '']'' (skip_ws r) of
             Some r' \<Rightarrow> Inr (JArr [], r')
           | None \<Rightarrow> bindR (parse_elems fr n (k - 1) (skip_ws r)) (\<lambda>x. Inr (JArr (fst x), snd x)))
       else if c = CHR ''{'' then
         if k = 0 then Inl RecursionError
         else (case eat ''}'' (skip_ws r) of
             Some r' \<Rightarrow> Inr (JObj [], r')
           | None \<Rightarrow> bindR (parse_members fr n (k - 1) (skip_ws r)) (\<lambda>x. Inr (mk_object (fst x), snd x)))
       else case eat ''null'' s of Some r' \<Rightarrow> Inr (JNull, r')
       | None \<Rightarrow> (case eat ''true'' s of Some r' \<Rightarrow> Inr (JBool True, r')
       | None \<Rightarrow> (case eat ''false'' s of Some r' \<Rightarrow> Inr (JBool False, r')
       | None \<Rightarrow> (case eat ''NaN'' s of Some r' \<Rightarrow> Inr (JFloat ''NaN'', r')
       | None \<Rightarrow> (case eat ''Infinity'' s of Some r' \<Rightarrow> Inr (JFloat ''Infinity'', r')
       | None \<Rightarrow> (case eat ''-Infinity'' s of Some r' \<Rightarrow> Inr (JFloat ''-Infinity'', r')
       | None \<Rightarrow> scan_number fr s))))))"
| "parse_elems fr 0 k s = Inl (ValueError ''Expecting value'')"
| "parse_elems fr (Suc n) k s = bindR (parse_value fr n k s) (\<lambda>x. case eat '']'' (skip_ws (snd x)) of
     Some r \<Rightarrow> Inr ([fst x], r)
   | None \<Rightarrow> (case eat '','' (skip_ws (snd x)) of
       None \<Rightarrow> Inl (ValueError ''Expecting , delimiter'')
     | Some r \<Rightarrow> bindR (parse_elems fr n k (skip_ws r)) (\<lambda>y. Inr (fst x # fst y, snd y))))"
| "parse_members fr 0 k s = Inl (ValueError ''Expecting value'')"
| "parse_members fr (Suc n) k s = (case s of
     [] \<Rightarrow> Inl (ValueError ''Expecting property name'')
   | q # r \<Rightarrow>
       if q \<noteq> CHR 0x22 then Inl (ValueError ''Expecting property name'')
       else case scan_str r of
         None \<Rightarrow> Inl (ValueError ''Invalid string'')
       | Some (key, r1) \<Rightarrow> (case eat '':'' (skip_ws r1) of
           None \<Rightarrow> Inl (ValueError ''Expecting : delimiter'')
         | Some r2 \<Rightarrow> bindR (parse_value fr n k (skip_ws r2)) (\<lambda>x. case eat ''}'' (skip_ws (snd x)) of
             Some r3 \<Rightarrow> Inr ([(key, fst x)], r3)
           | None \<Rightarrow> (case eat '','' (skip_ws (snd x)) of
               None \<Rightarrow> Inl (ValueError ''Expecting , delimiter'')
             | Some r3 \<Rightarrow> bindR (parse_members fr n k (skip_ws r3)) (\<lambda>y. Inr ((key, fst x) # fst y, snd y))))))"

definition loads :: "(string \<Rightarrow> string) \<Rightarrow> nat \<Rightarrow> string \<Rightarrow> json result" where
  "loads fr k s = bindR (parse_value fr (2 * length s + 2) k (skip_ws s)) (\<lambda>x.
     if skip_ws (snd x) = [] then Inr (fst x) else Inl (ValueError ''Extra data''))"

section \<open>Strings\<close>

lemma hex_val_digit: "i < 16 \<Longrightarrow> hex_val (hex_digit i) = Some i"
proof -
  assume "i < 16"
  then have "i \<in> {0, 1, 2, 3, 4, 5, 6, 7, 8, 9, 10, 11, 12, 13, 14, 15}" by simp arith
  then show ?thesis by (auto simp: hex_val_def hex_digit_def code_point_def)
qed

lemma hex_val_zero: "hex_val (CHR ''0'') = Some 0"
  by (simp add: hex_val_def code_point_def)

lemma code_point_eq: "code_point c = code_point d \<longleftrightarrow> c = d"
  by (simp add: code_point_def)

lemma escape_sample:
  "escape_char (CHR 0x22) = [CHR 0x5C, CHR 0x22]" "escape_char (CHR 0x5C) = [CHR 0x5C, CHR 0x5C]"
  "escape_char (CHR 0x0A) = [CHR 0x5C, CHR ''n'']" "escape_char (CHR 0x0D) = [CHR 0x5C, CHR ''r'']"
  "escape_char (CHR 0x09) = [CHR 0x5C, CHR ''t'']" "escape_char (CHR 0x08) = [CHR 0x5C, CHR ''b'']"
  "escape_char (CHR 0x0C) = [CHR 0x5C, CHR ''f'']"
  by (simp_all add: escape_char_def code_point_def)

lemma scan_simple:
  "scan_str ([CHR 0x5C, CHR 0x22] @ t) = map_option (apfst ((#) (CHR 0x22))) (scan_str t)"
  "scan_str ([CHR 0x5C, CHR 0x5C] @ t) = map_option (apfst ((#) (CHR 0x5C))) (scan_str t)"
  "scan_str ([CHR 0x5C, CHR ''n''] @ t) = map_option (apfst ((#) (CHR 0x0A))) (scan_str t)"
  "scan_str ([CHR 0x5C, CHR ''r''] @ t) = map_option (apfst ((#) (CHR 0x0D))) (scan_str t)"
  "scan_str ([CHR 0x5C, CHR ''t''] @ t) = map_option (apfst ((#) (CHR 0x09))) (scan_str t)"
  "scan_str ([CHR 0x5C, CHR ''b''] @ t) = map_option (apfst ((#) (CHR 0x08))) (scan_str t)"
  "scan_str ([CHR 0x5C, CHR ''f''] @ t) = map_option (apfst ((#) (CHR 0x0C))) (scan_str t)"
  by (simp_all add: simple_escape_def)

lemma scan_escape: "scan_str (escape_char c @ t) = map_option (apfst ((#) c)) (scan_str t)"
proof -
  let ?n = "code_point c"
  consider "c \<in> {CHR 0x22, CHR 0x5C, CHR 0x0A, CHR 0x0D, CHR 0x09, CHR 0x08, CHR 0x0C}"
    | "?n < 32" "?n \<notin> {10, 13, 9, 8, 12}" | "32 \<le> ?n" "?n \<noteq> 34" "?n \<noteq> 92"
  proof -
    have "c = char_of ?n" by (simp add: code_point_def)
    then have "?n \<in> {34, 92, 10, 13, 9, 8, 12} \<Longrightarrow> c \<in> {CHR 0x22, CHR 0x5C, CHR 0x0A, CHR 0x0D, CHR 0x09, CHR 0x08, CHR 0x0C}"
      by (elim insertE emptyE) (simp_all add: char_of_def bit_iff_odd)
    then show thesis using that by (cases "?n < 32") auto
  qed
  then show ?thesis
  proof cases
    case 1
    then show ?thesis
      by (elim insertE emptyE; hypsubst) (simp_all only: escape_sample scan_simple)
  next
    case 2
    have d: "?n div 16 < 16" "?n mod 16 < 16" using 2(1) by (auto simp: less_mult_imp_div_less)
    have "hex4 (CHR ''0'' # CHR ''0'' # hex_digit (?n div 16) # hex_digit (?n mod 16) # t) = Some (?n, t)"
      by (simp add: hex_val_zero hex_val_digit d)
    moreover have "char_of ?n = c" by (simp add: code_point_def)
    ultimately show ?thesis using 2 by (simp add: escape_char_def Let_def simple_escape_def)
  next
    case 3
    then have "c \<noteq> CHR 0x22" "c \<noteq> CHR 0x5C" by (auto simp: code_point_def)
    with 3 show ?thesis by (simp add: escape_char_def Let_def)
  qed
qed

lemma scan_dumps_str: "scan_str (concat (map escape_char s) @ CHR 0x22 # rest) = Some (s, rest)"
  by (induction s) (simp_all add: scan_escape)

section \<open>Numbers\<close>

text \<open>What follows a value inside a printed text: the end, or a delimiter.\<close>

definition stops :: "string \<Rightarrow> bool" where
  "stops s = (case s of [] \<Rightarrow> True | c # _ \<Rightarrow> c \<in> {CHR '','', CHR '']'', CHR ''}''})"

definition no_digit :: "string \<Rightarrow> bool" where
  "no_digit s = (case s of [] \<Rightarrow> True | c # _ \<Rightarrow> \<not> is_digit c)"

lemma scan_digits_app: "list_all is_digit ds \<Longrightarrow> no_digit s \<Longrightarrow> scan_digits (ds @ s) = (ds, s)"
  by (induction ds) (auto simp: scan_digits_def no_digit_def split: list.splits)

lemma stops_scan: "stops s \<Longrightarrow> no_digit s" "stops s \<Longrightarrow> scan_frac s = ([], s)" "stops s \<Longrightarrow> scan_exp s = ([], s)"
  by (auto simp: stops_def no_digit_def scan_frac_def scan_exp_def Let_def is_digit_def code_point_def split: list.splits)

lemma hd_show_nat: "0 < m \<Longrightarrow> hd (show_nat m) \<noteq> CHR ''0''"
proof (induction m rule: show_nat.induct)
  case (1 m)
  show ?case
  proof (cases "m < 10")
    case True
    with digit_val_digit_char [OF True] 1(2) show ?thesis
      by (auto simp: show_nat.simps [of m] digit_val_def code_point_def)
  next
    case False
    with 1 show ?thesis by (simp add: show_nat.simps [of m] show_nat_nonempty)
  qed
qed

definition int_text :: "string \<Rightarrow> bool" where
  "int_text ip \<longleftrightarrow> ip = ''0'' \<or> ip \<noteq> [] \<and> list_all is_digit ip \<and> hd ip \<noteq> CHR ''0''"

lemma int_text_show: "int_text (show_nat m)"
  using hd_show_nat [of m] show_nat_nonempty [of m] show_nat_digits [of m]
  by (cases "m = 0") (auto simp: int_text_def list_all_iff show_nat.simps [of 0])

lemma scan_int_text: "int_text ip \<Longrightarrow> no_digit s \<Longrightarrow> scan_int_part (ip @ s) = (ip, s)"
  using scan_digits_app [of ip s] by (cases ip) (auto simp: int_text_def scan_int_part_def)

lemma int_text_first: "int_text ip \<Longrightarrow> \<exists>c r. ip = c # r \<and> is_digit c"
  by (cases ip) (auto simp: int_text_def is_digit_def code_point_def)

lemma digit_chars: "is_digit c \<Longrightarrow> c \<notin> {CHR ''-'', CHR 0x22, CHR ''['', CHR ''{'', CHR ''n'', CHR ''t'', CHR ''f'', CHR ''N'', CHR ''I'', CHR ''e'', CHR ''E'', CHR ''.''}"
  by (auto simp: is_digit_def code_point_def)

lemma scan_show_int:
  assumes "stops rest" and "length (show_nat (nat \<bar>i\<bar>)) \<le> INT_MAX_STR_DIGITS"
  shows "scan_number fr (show_int i @ rest) = Inr (JInt i, rest)"
proof -
  obtain c r where c: "show_nat (nat \<bar>i\<bar>) = c # r" "is_digit c" using int_text_first [OF int_text_show] by blast
  have s: "scan_int_part (show_nat (nat \<bar>i\<bar>) @ rest) = (show_nat (nat \<bar>i\<bar>), rest)"
    by (rule scan_int_text [OF int_text_show stops_scan(1) [OF assms(1)]])
  show ?thesis
  proof (cases "i < 0")
    case True
    then show ?thesis using s assms
      by (simp add: scan_number_def show_int_def stops_scan parse_show_nat show_nat_nonempty)
  next
    case False
    have "c \<noteq> CHR ''-''" using digit_chars [OF c(2)] by simp
    with c False have "(case show_nat (nat i) @ rest of [] \<Rightarrow> ([], []) | c # r \<Rightarrow> if c = CHR ''-'' then ([c], r) else ([], show_nat (nat i) @ rest))
        = ([], show_nat (nat i) @ rest)" by simp
    then show ?thesis using False s assms
      by (simp add: scan_number_def show_int_def stops_scan parse_show_nat show_nat_nonempty)
  qed
qed

text \<open>The text \<open>float.__repr__\<close> writes: a fraction, an exponent or both.\<close>

definition frac_text :: "string \<Rightarrow> bool" where
  "frac_text t \<longleftrightarrow> t = [] \<or> (\<exists>ds. t = CHR ''.'' # ds \<and> ds \<noteq> [] \<and> list_all is_digit ds)"

definition exp_text :: "string \<Rightarrow> bool" where
  "exp_text t \<longleftrightarrow> t = [] \<or> (\<exists>e sg ds. t = e # sg @ ds \<and> e \<in> {CHR ''e'', CHR ''E''} \<and> sg \<in> {[], ''+'', ''-''} \<and> ds \<noteq> [] \<and> list_all is_digit ds)"

definition float_text :: "string \<Rightarrow> bool" where
  "float_text r \<longleftrightarrow> (\<exists>sg ip fc ex. r = sg @ ip @ fc @ ex \<and> sg \<in> {[], ''-''} \<and> int_text ip \<and> frac_text fc \<and> exp_text ex \<and> fc @ ex \<noteq> [])"

lemma scan_exp_text: "exp_text ex \<Longrightarrow> stops s \<Longrightarrow> scan_exp (ex @ s) = (ex, s)"
proof (cases "ex = []")
  case False
  assume e: "exp_text ex" and s: "stops s"
  with False obtain c sg ds where ex: "ex = c # sg @ ds" "c \<in> {CHR ''e'', CHR ''E''}" "sg \<in> {[], ''+'', ''-''}" "ds \<noteq> []" "list_all is_digit ds"
    unfolding exp_text_def by blast
  obtain d ds' where d: "ds = d # ds'" "is_digit d" using ex(4,5) by (cases ds) auto
  have "d \<noteq> CHR ''+''" "d \<noteq> CHR ''-''" using d(2) by (auto simp: is_digit_def code_point_def)
  with ex d scan_digits_app [OF ex(5) stops_scan(1) [OF s]] show ?thesis
    by (auto simp: scan_exp_def)
qed (simp add: stops_scan)

lemma scan_frac_text: "frac_text fc \<Longrightarrow> exp_text ex \<Longrightarrow> stops s \<Longrightarrow> scan_frac (fc @ ex @ s) = (fc, ex @ s) \<and> no_digit (ex @ s)"
proof -
  assume f: "frac_text fc" and e: "exp_text ex" and s: "stops s"
  have n: "no_digit (ex @ s)" and h: "\<And>c t. ex @ s = c # t \<Longrightarrow> c \<noteq> CHR ''.''"
    using e s by (auto simp: exp_text_def no_digit_def stops_def is_digit_def code_point_def split: list.splits)
  show ?thesis
  proof (cases "fc = []")
    case True
    with n h show ?thesis by (cases "ex @ s") (auto simp: scan_frac_def)
  next
    case False
    with f obtain ds where "fc = CHR ''.'' # ds" "ds \<noteq> []" "list_all is_digit ds" by (auto simp: frac_text_def)
    with scan_digits_app [of ds "ex @ s"] n show ?thesis by (simp add: scan_frac_def)
  qed
qed

lemma scan_float:
  assumes "float_text r" and "stops rest"
  shows "scan_number fr (r @ rest) = Inr (JFloat (fr r), rest)"
proof -
  from assms(1) obtain sg ip fc ex where r: "r = sg @ ip @ fc @ ex" "sg \<in> {[], ''-''}" "int_text ip" "frac_text fc" "exp_text ex" "fc @ ex \<noteq> []"
    unfolding float_text_def by blast
  note f = scan_frac_text [OF r(4,5) assms(2)]
  have nd: "no_digit (fc @ ex @ rest)"
    using r(4) f by (auto simp: frac_text_def no_digit_def is_digit_def code_point_def)
  have i: "scan_int_part (ip @ fc @ ex @ rest) = (ip, fc @ ex @ rest)" by (rule scan_int_text [OF r(3) nd])
  obtain c t where c: "ip = c # t" "is_digit c" using int_text_first [OF r(3)] by blast
  have "c \<noteq> CHR ''-''" using digit_chars [OF c(2)] by simp
  with r(2,6) i f scan_exp_text [OF r(5) assms(2)] c(1) show ?thesis
    by (auto simp: scan_number_def r(1))
qed

section \<open>Round trip\<close>

fun json_ok :: "(string \<Rightarrow> string) \<Rightarrow> json \<Rightarrow> bool" where
  "json_ok fr (JInt i) = (length (show_nat (nat \<bar>i\<bar>)) \<le> INT_MAX_STR_DIGITS)"
| "json_ok fr (JFloat r) = (r \<in> {''NaN'', ''Infinity'', ''-Infinity''} \<or> float_text r \<and> fr r = r)"
| "json_ok fr (JArr xs) = (\<forall>x \<in> set xs. json_ok fr x)"
| "json_ok fr (JObj kvs) = (distinct (map fst kvs) \<and> (\<forall>kv \<in> set kvs. json_ok fr (snd kv)))"
| "json_ok fr _ = True"

fun json_depth :: "json \<Rightarrow> nat" where
  "json_depth (JArr xs) = Suc (fold max (map json_depth xs) 0)"
| "json_depth (JObj kvs) = Suc (fold max (map (\<lambda>kv. json_depth (snd kv)) kvs) 0)"
| "json_depth _ = 0"

lemma eat_simps [simp]: "eat [] s = Some s" "eat (a # p) [] = None" "eat (a # p) (b # s) = (if b = a then eat p s else None)"
  by (auto simp: eat_def)

lemma skip_ws_simps [simp]: "skip_ws (c # s) = (if is_json_space c then skip_ws s else c # s)" "skip_ws [] = []"
  by (auto simp: skip_ws_def)

lemma delimiters [simp]:
  "\<not> is_json_space (CHR '','')" "\<not> is_json_space (CHR '']'')" "\<not> is_json_space (CHR ''}'')" "\<not> is_json_space (CHR '':'')"
  "is_json_space (CHR '' '')" "\<not> is_json_space (CHR 0x22)"
  by (auto simp: is_json_space_def code_point_def)

lemma digit_no_space: "is_digit c \<Longrightarrow> \<not> is_json_space c"
  by (auto simp: is_json_space_def is_digit_def)

lemma number_first:
  assumes "sg \<in> {[], ''-''}" and "int_text ip"
  shows "\<exists>c r. sg @ ip @ t = c # r \<and> (is_digit c \<or> c = CHR ''-'' \<and> (\<exists>d u. r = d # u \<and> is_digit d))"
  using int_text_first [OF assms(2)] assms(1) by auto

lemma parse_number_value:
  assumes "s = c # r" and "is_digit c \<or> c = CHR ''-'' \<and> (\<exists>d u. r = d # u \<and> is_digit d)"
  shows "parse_value fr (Suc n) k s = scan_number fr s"
  using assms(2)
proof
  assume "is_digit c"
  with digit_chars [OF this] show ?thesis by (simp add: assms(1))
next
  assume "c = CHR ''-'' \<and> (\<exists>d u. r = d # u \<and> is_digit d)"
  then obtain d u where d: "c = CHR ''-''" "r = d # u" "is_digit d" by blast
  with digit_chars [OF d(3)] show ?thesis by (simp add: assms(1))
qed

definition starts_value :: "char \<Rightarrow> bool" where
  "starts_value c \<longleftrightarrow> \<not> is_json_space c \<and> c \<noteq> CHR '']'' \<and> c \<noteq> CHR ''}''"

lemma starts_value_digit: "is_digit c \<Longrightarrow> starts_value c"
  by (auto simp: starts_value_def digit_no_space) (auto simp: is_digit_def code_point_def)

lemma number_starts: "sg \<in> {[], ''-''} \<Longrightarrow> int_text ip \<Longrightarrow> \<exists>c r. sg @ ip @ t = c # r \<and> starts_value c"
proof -
  have m: "starts_value (CHR ''-'')" by (simp add: starts_value_def is_json_space_def code_point_def)
  assume "sg \<in> {[], ''-''}" "int_text ip"
  from number_first [OF this, of t] show ?thesis using m starts_value_digit by auto
qed

lemma dumps_first: "json_ok fr j \<Longrightarrow> \<exists>c r. dumps j = c # r \<and> starts_value c"
proof (cases j)
  case (JInt i)
  have "show_int i = (if i < 0 then ''-'' else []) @ show_nat (nat \<bar>i\<bar>) @ []" by (simp add: show_int_def)
  with number_starts [of "if i < 0 then ''-'' else []" "show_nat (nat \<bar>i\<bar>)" "[]"] int_text_show [of "nat \<bar>i\<bar>"] JInt show ?thesis by auto
next
  case (JFloat r)
  assume "json_ok fr j"
  with JFloat consider "r \<in> {''NaN'', ''Infinity'', ''-Infinity''}" | "float_text r" by auto
  then show ?thesis
  proof cases
    case 1
    then show ?thesis by (elim insertE emptyE) (simp_all add: JFloat starts_value_def is_json_space_def code_point_def)
  next
    case 2
    then obtain sg ip t where "r = sg @ ip @ t" "sg \<in> {[], ''-''}" "int_text ip" unfolding float_text_def by blast
    with number_starts [of sg ip t] show ?thesis by (simp add: JFloat)
  qed
qed (auto simp: dumps_str_def starts_value_def is_json_space_def code_point_def)

lemma skip_dumps: "json_ok fr j \<Longrightarrow> skip_ws (dumps j @ s) = dumps j @ s"
  using dumps_first [of fr j] by (auto simp: starts_value_def)

lemma depth_le_fold: "m \<in> set ms \<Longrightarrow> m \<le> fold max ms (a :: nat)"
proof (induction ms arbitrary: a)
  case (Cons x ms)
  have "a \<le> fold max ms a" for a :: nat and ms by (induction ms arbitrary: a) (simp_all, metis max.bounded_iff)
  then have "max x a \<le> fold max ms (max x a)" .
  with Cons show ?case by (auto simp: max.bounded_iff)
qed simp

lemma parse_elems_dumps:
  assumes "\<And>x n rest. x \<in> set (y # ys) \<Longrightarrow> 2 * length (dumps x) \<le> n \<Longrightarrow> stops rest \<Longrightarrow> parse_value fr n k (dumps x @ rest) = Inr (x, rest)"
    and "\<And>x. x \<in> set (y # ys) \<Longrightarrow> json_ok fr x" and "2 * length (sep_by (map dumps (y # ys))) + 1 \<le> n"
  shows "parse_elems fr n k (sep_by (map dumps (y # ys)) @ CHR '']'' # rest) = Inr (y # ys, rest)"
  using assms
proof (induction ys arbitrary: y n)
  case Nil
  then obtain m where n: "n = Suc m" by (cases n) auto
  with Nil show ?case by (simp add: stops_def bindR_def)
next
  case (Cons z zs)
  then obtain m where n: "n = Suc m" by (cases n) auto
  let ?r = "sep_by (map dumps (z # zs)) @ CHR '']'' # rest"
  have v: "parse_value fr m k (dumps y @ CHR '','' # CHR '' '' # ?r) = Inr (y, CHR '','' # CHR '' '' # ?r)"
    using Cons.prems(3) by (intro Cons.prems(1)) (auto simp: n stops_def)
  have "skip_ws ?r = ?r" using skip_dumps [OF Cons.prems(2), of z] by (cases zs) simp_all
  moreover have "parse_elems fr m k ?r = Inr (z # zs, rest)"
    using Cons.prems(3) by (intro Cons.IH Cons.prems(1,2)) (auto simp: n)
  ultimately show ?case using v by (simp add: n bindR_def)
qed

definition member :: "string \<times> json \<Rightarrow> string" where
  "member kv = dumps_str (fst kv) @ '': '' @ dumps (snd kv)"

lemma member_simp: "member (key, v) = CHR 0x22 # concat (map escape_char key) @ CHR 0x22 # CHR '':'' # CHR '' '' # dumps v"
  by (simp add: member_def dumps_str_def)

lemma parse_members_dumps:
  assumes "\<And>x n rest. x \<in> snd ` set (y # ys) \<Longrightarrow> 2 * length (dumps x) \<le> n \<Longrightarrow> stops rest \<Longrightarrow> parse_value fr n k (dumps x @ rest) = Inr (x, rest)"
    and "\<And>x. x \<in> snd ` set (y # ys) \<Longrightarrow> json_ok fr x" and "2 * length (sep_by (map member (y # ys))) + 1 \<le> n"
  shows "parse_members fr n k (sep_by (map member (y # ys)) @ CHR ''}'' # rest) = Inr (y # ys, rest)"
  using assms
proof (induction ys arbitrary: y n)
  case Nil
  then obtain m where n: "n = Suc m" by (cases n) auto
  obtain key v where y: "y = (key, v)" by (cases y)
  have "parse_value fr m k (dumps v @ CHR ''}'' # rest) = Inr (v, CHR ''}'' # rest)"
    using Nil.prems(3) by (intro Nil.prems(1)) (auto simp: n y member_def stops_def)
  with skip_dumps [OF Nil.prems(2), of v] show ?case
    by (simp add: n y member_simp scan_dumps_str bindR_def)
next
  case (Cons z zs)
  then obtain m where n: "n = Suc m" by (cases n) auto
  obtain key v where y: "y = (key, v)" by (cases y)
  let ?r = "sep_by (map member (z # zs)) @ CHR ''}'' # rest"
  have v: "parse_value fr m k (dumps v @ CHR '','' # CHR '' '' # ?r) = Inr (v, CHR '','' # CHR '' '' # ?r)"
    using Cons.prems(3) by (intro Cons.prems(1)) (auto simp: n y member_def stops_def)
  have "skip_ws ?r = ?r" by (cases zs) (simp_all add: member_def dumps_str_def)
  moreover have "parse_members fr m k ?r = Inr (z # zs, rest)"
    using Cons.prems(3) by (intro Cons.IH Cons.prems(1,2)) (auto simp: n)
  ultimately show ?case using v skip_dumps [OF Cons.prems(2), of v]
    by (simp add: n y member_simp scan_dumps_str bindR_def)
qed

lemma foldl_dict_set: "distinct (map fst (d @ kvs)) \<Longrightarrow> foldl (\<lambda>d kv. dict_set d (fst kv) (snd kv)) d kvs = d @ kvs"
proof (induction kvs arbitrary: d)
  case (Cons kv kvs)
  then have "dict_set d (fst kv) (snd kv) = d @ [kv]" by (cases kv) (auto intro: dict_set_new)
  with Cons.IH [of "d @ [kv]"] Cons.prems show ?case by simp
qed simp

lemma parse_number_dumps:
  assumes "sg \<in> {[], ''-''}" and "int_text ip" and "s = sg @ ip @ t"
  shows "parse_value fr (Suc n) k s = scan_number fr s"
proof -
  from number_first [OF assms(1,2), of t] obtain c r where
    "s = c # r" "is_digit c \<or> c = CHR ''-'' \<and> (\<exists>d u. r = d # u \<and> is_digit d)" unfolding assms(3) by blast
  then show ?thesis by (rule parse_number_value)
qed

lemma parse_int_dumps:
  "length (show_nat (nat \<bar>i\<bar>)) \<le> INT_MAX_STR_DIGITS \<Longrightarrow> stops rest \<Longrightarrow> parse_value fr (Suc n) k (show_int i @ rest) = Inr (JInt i, rest)"
  by (subst parse_number_dumps [of "if i < 0 then ''-'' else []" "show_nat (nat \<bar>i\<bar>)" _ rest])
    (simp_all add: int_text_show scan_show_int, simp add: show_int_def)

lemma parse_float_dumps:
  assumes "r \<in> {''NaN'', ''Infinity'', ''-Infinity''} \<or> float_text r \<and> fr r = r" and "stops rest"
  shows "parse_value fr (Suc n) k (r @ rest) = Inr (JFloat r, rest)"
  using assms(1)
proof
  assume "r \<in> {''NaN'', ''Infinity'', ''-Infinity''}"
  then show ?thesis by (elim insertE emptyE) simp_all
next
  assume r: "float_text r \<and> fr r = r"
  then obtain sg ip t where "r = sg @ ip @ t" "sg \<in> {[], ''-''}" "int_text ip" unfolding float_text_def by blast
  then have "parse_value fr (Suc n) k (r @ rest) = scan_number fr (r @ rest)"
    by (intro parse_number_dumps [of sg ip _ "t @ rest"]) simp_all
  with r assms(2) scan_float show ?thesis by simp
qed

lemma depth_children: "x \<in> set xs \<Longrightarrow> Suc (fold max (map f xs) 0) \<le> k \<Longrightarrow> f x \<le> k - (1 :: nat)"
  using depth_le_fold [of "f x" "map f xs" 0] by simp

lemma parse_dumps:
  "json_ok fr j \<Longrightarrow> json_depth j \<le> k \<Longrightarrow> 2 * length (dumps j) \<le> n \<Longrightarrow> stops rest \<Longrightarrow>
   parse_value fr n k (dumps j @ rest) = Inr (j, rest)"
proof (induction j arbitrary: n k rest)
  case (JInt i)
  have "0 < length (show_int i)" using show_nat_nonempty by (simp add: show_int_def)
  with JInt show ?case by (cases n) (simp_all del: parse_value.simps add: parse_int_dumps)
next
  case (JFloat r)
  have "r \<noteq> []" using dumps_first [OF JFloat(1)] by auto
  with JFloat show ?case by (cases n) (simp_all del: parse_value.simps add: parse_float_dumps)
next
  case (JStr s)
  then show ?case by (cases n) (simp_all add: dumps_str_def scan_dumps_str)
next
  case (JArr xs)
  then obtain m where n: "n = Suc m" by (cases n) auto
  from JArr.prems(2) have k: "0 < k" by simp
  show ?case
  proof (cases xs)
    case Nil
    with n k show ?thesis by simp
  next
    case (Cons y ys)
    have "parse_elems fr m (k - 1) (sep_by (map dumps (y # ys)) @ CHR '']'' # rest) = Inr (y # ys, rest)"
    proof (rule parse_elems_dumps)
      fix x n' rest'
      assume x: "x \<in> set (y # ys)" and "2 * length (dumps x) \<le> n'" "stops rest'"
      with JArr.prems(1,2) Cons show "parse_value fr n' (k - 1) (dumps x @ rest') = Inr (x, rest')"
        by (intro JArr.IH) (simp_all only: json_ok.simps json_depth.simps depth_children)
    qed (use JArr.prems(1,3) Cons n in auto)
    moreover obtain c r where c: "dumps y = c # r" "starts_value c" using dumps_first [of fr y] JArr.prems(1) Cons by auto
    then obtain u where "sep_by (map dumps (y # ys)) @ CHR '']'' # rest = c # u" by (cases ys) simp_all
    ultimately show ?thesis using n k Cons c(2) by (simp del: sep_by.simps list.map add: starts_value_def bindR_def)
  qed
next
  case (JObj kvs)
  then obtain m where n: "n = Suc m" by (cases n) auto
  from JObj.prems(2) have k: "0 < k" by simp
  have d: "dumps (JObj kvs) = ''{'' @ sep_by (map member kvs) @ ''}''" by (simp add: member_def [abs_def])
  show ?case
  proof (cases kvs)
    case Nil
    with n k show ?thesis by (simp add: mk_object_def)
  next
    case (Cons y ys)
    have "parse_members fr m (k - 1) (sep_by (map member (y # ys)) @ CHR ''}'' # rest) = Inr (y # ys, rest)"
    proof (rule parse_members_dumps)
      fix x n' rest'
      assume "x \<in> snd ` set (y # ys)" and x: "2 * length (dumps x) \<le> n'" "stops rest'"
      then obtain kv where kv: "kv \<in> set kvs" "snd kv = x" using Cons by (metis imageE)
      with JObj.prems(1,2) x show "parse_value fr n' (k - 1) (dumps x @ rest') = Inr (x, rest')"
        using depth_children [of kv kvs "\<lambda>kv. json_depth (snd kv)" k]
        by (intro JObj.IH [OF kv(1), of x]) (auto simp: snds.simps)
    qed (use JObj.prems(1,3) Cons n d in auto)
    moreover obtain u where "sep_by (map member (y # ys)) @ CHR ''}'' # rest = CHR 0x22 # u"
      by (cases ys) (simp_all add: member_def dumps_str_def)
    moreover have "mk_object kvs = JObj kvs" using foldl_dict_set [of "[]" kvs] JObj.prems(1) by (simp add: mk_object_def)
    ultimately show ?thesis using n k Cons d by (simp del: sep_by.simps list.map dumps.simps add: bindR_def)
  qed
next
  case JNull
  then show ?case by (cases n) simp_all
next
  case (JBool b)
  then show ?case by (cases n; cases b) simp_all
qed

theorem loads_dumps: "json_ok fr j \<Longrightarrow> json_depth j \<le> k \<Longrightarrow> loads fr k (dumps j) = Inr j"
  using parse_dumps [of fr j k "2 * length (dumps j) + 2" "[]"] skip_dumps [of fr j "[]"]
  by (simp add: loads_def stops_def bindR_def)

end
