(* ===== verification/Protocol.thy ===== *)
theory Protocol
  imports Json_Parse
begin

text \<open>
  \<open>ws_protocol.py\<close>: the envelope of the messages between the hub and a node, its text form
  and the checks a received frame passes. \<open>uuid4\<close> and the clock are arguments: the fresh
  identifier \<open>nid\<close> and the current time \<open>now\<close> of a call that defaults them.
\<close>

section \<open>Constants\<close>

definition PROTOCOL_VERSION :: int where "PROTOCOL_VERSION = 1"
definition MAX_FRAME_BYTES :: nat where "MAX_FRAME_BYTES = 8 * 1024 * 1024"

definition MSG_HELLO :: string where "MSG_HELLO = ''hello''"
definition MSG_DESIRED_REQUEST :: string where "MSG_DESIRED_REQUEST = ''desired_request''"
definition MSG_PROPOSAL_SUBMIT :: string where "MSG_PROPOSAL_SUBMIT = ''proposal_submit''"
definition MSG_REPORT_SUBMIT :: string where "MSG_REPORT_SUBMIT = ''report_submit''"
definition MSG_PING :: string where "MSG_PING = ''ping''"
definition MSG_HELLO_ACK :: string where "MSG_HELLO_ACK = ''hello_ack''"
definition MSG_DESIRED_PUSH :: string where "MSG_DESIRED_PUSH = ''desired_push''"
definition MSG_ACK :: string where "MSG_ACK = ''ack''"
definition MSG_ERROR :: string where "MSG_ERROR = ''error''"
definition MSG_PONG :: string where "MSG_PONG = ''pong''"
definition MSG_SHUTDOWN :: string where "MSG_SHUTDOWN = ''shutdown''"

lemmas msg_defs =
  MSG_HELLO_def MSG_DESIRED_REQUEST_def MSG_PROPOSAL_SUBMIT_def MSG_REPORT_SUBMIT_def MSG_PING_def
  MSG_HELLO_ACK_def MSG_DESIRED_PUSH_def MSG_ACK_def MSG_ERROR_def MSG_PONG_def MSG_SHUTDOWN_def

definition ERR_UNAUTHORIZED :: string where "ERR_UNAUTHORIZED = ''unauthorized''"
definition ERR_FORBIDDEN :: string where "ERR_FORBIDDEN = ''forbidden''"
definition ERR_NOT_FOUND :: string where "ERR_NOT_FOUND = ''not_found''"
definition ERR_BAD_ENVELOPE :: string where "ERR_BAD_ENVELOPE = ''bad_envelope''"
definition ERR_UNKNOWN_TYPE :: string where "ERR_UNKNOWN_TYPE = ''unknown_type''"
definition ERR_PAYLOAD_INVALID :: string where "ERR_PAYLOAD_INVALID = ''payload_invalid''"
definition ERR_SERVICE_ERROR :: string where "ERR_SERVICE_ERROR = ''service_error''"
definition ERR_REVOKED :: string where "ERR_REVOKED = ''revoked''"
definition ERR_TOO_MANY_CONNECTIONS :: string where "ERR_TOO_MANY_CONNECTIONS = ''too_many_connections''"
definition ERR_VERSION_MISMATCH :: string where "ERR_VERSION_MISMATCH = ''version_mismatch''"
definition ERR_INTERNAL :: string where "ERR_INTERNAL = ''internal''"

definition CLOSE_SHUTTING_DOWN :: int where "CLOSE_SHUTTING_DOWN = 4000"
definition CLOSE_REVOKED :: int where "CLOSE_REVOKED = 4003"
definition CLOSE_NODE_REMOVED :: int where "CLOSE_NODE_REMOVED = 4004"
definition CLOSE_VERSION_MISMATCH :: int where "CLOSE_VERSION_MISMATCH = 4008"
definition CLOSE_TOO_MANY_CONNECTIONS :: int where "CLOSE_TOO_MANY_CONNECTIONS = 4009"
definition CLOSE_UNAUTHORIZED :: int where "CLOSE_UNAUTHORIZED = 4401"
definition CLOSE_FORBIDDEN :: int where "CLOSE_FORBIDDEN = 4403"
definition CLOSE_NOT_FOUND :: int where "CLOSE_NOT_FOUND = 4404"
definition CLOSE_HANDSHAKE_TIMEOUT :: int where "CLOSE_HANDSHAKE_TIMEOUT = 4408"

definition AUTH_FATAL_CLOSE_CODES :: "int set" where
  "AUTH_FATAL_CLOSE_CODES =
     {CLOSE_REVOKED, CLOSE_NODE_REMOVED, CLOSE_VERSION_MISMATCH, CLOSE_UNAUTHORIZED, CLOSE_FORBIDDEN, CLOSE_NOT_FOUND}"

section \<open>Envelopes\<close>

record Envelope =
  env_type :: string
  env_payload :: jdict
  env_id :: string
  env_re :: "string option"
  env_v :: int
  env_ts :: string

definition to_dict :: "Envelope \<Rightarrow> jdict" where
  "to_dict e =
     [(''v'', JInt (env_v e)), (''type'', JStr (env_type e)), (''id'', JStr (env_id e)),
      (''re'', case env_re e of None \<Rightarrow> JNull | Some r \<Rightarrow> JStr r), (''ts'', JStr (env_ts e)),
      (''payload'', JObj (env_payload e))]"

definition encode :: "Envelope \<Rightarrow> string" where
  "encode e = dumps (JObj (to_dict e))"

definition utf8_len :: "string \<Rightarrow> nat" where
  "utf8_len s = sum_list (map (\<lambda>c. if code_point c < 128 then 1 else 2) s)"

fun is_value_error :: "exn \<Rightarrow> bool" where
  "is_value_error (ValueError _) = True"
| "is_value_error (TypeError _) = True"
| "is_value_error _ = False"

definition load_frame :: "(string \<Rightarrow> string) \<Rightarrow> nat \<Rightarrow> string \<Rightarrow> json result" where
  "load_frame fr k raw = (case loads fr k raw of
     Inl e \<Rightarrow> if is_value_error e then Inl (EnvelopeError ''not valid JSON'') else Inl e
   | Inr j \<Rightarrow> Inr j)"

definition frame_dict :: "json \<Rightarrow> jdict result" where
  "frame_dict j = (case j of JObj d \<Rightarrow> Inr d | _ \<Rightarrow> Inl (EnvelopeError ''the envelope must be an object''))"

definition frame_version :: "jdict \<Rightarrow> int result" where
  "frame_version d = (case dict_get_value d ''v'' of JInt v \<Rightarrow> Inr v | _ \<Rightarrow> Inl (EnvelopeError ''v''))"

definition nonempty_str :: "jdict \<Rightarrow> string \<Rightarrow> string result" where
  "nonempty_str d key = (case dict_get_value d key of
     JStr s \<Rightarrow> if s = [] then Inl (EnvelopeError key) else Inr s | _ \<Rightarrow> Inl (EnvelopeError key))"

definition frame_re :: "jdict \<Rightarrow> string option result" where
  "frame_re d = (case dict_get_value d ''re'' of JNull \<Rightarrow> Inr None | JStr s \<Rightarrow> Inr (Some s) | _ \<Rightarrow> Inl (EnvelopeError ''re''))"

definition frame_payload :: "jdict \<Rightarrow> jdict result" where
  "frame_payload d = (case dict_get d ''payload'' of
     None \<Rightarrow> Inr [] | Some (JObj p) \<Rightarrow> Inr p | Some _ \<Rightarrow> Inl (EnvelopeError ''payload''))"

definition frame_ts :: "string \<Rightarrow> jdict \<Rightarrow> string result" where
  "frame_ts now d = (case dict_get_value d ''ts'' of JNull \<Rightarrow> Inr now | JStr s \<Rightarrow> Inr s | _ \<Rightarrow> Inl (EnvelopeError ''ts''))"

definition decode :: "(string \<Rightarrow> string) \<Rightarrow> nat \<Rightarrow> string \<Rightarrow> string \<Rightarrow> Envelope result" where
  "decode fr k now raw =
     (if MAX_FRAME_BYTES < utf8_len raw then Inl (EnvelopeError ''frame too large'')
      else
        bindR (load_frame fr k raw) (\<lambda>j.
        bindR (frame_dict j) (\<lambda>d.
        bindR (frame_version d) (\<lambda>v.
        bindR (nonempty_str d ''type'') (\<lambda>t.
        bindR (nonempty_str d ''id'') (\<lambda>i.
        bindR (frame_re d) (\<lambda>r.
        bindR (frame_payload d) (\<lambda>p.
        bindR (frame_ts now d) (\<lambda>ts.
          Inr \<lparr>env_type = t, env_payload = p, env_id = i, env_re = r, env_v = v, env_ts = ts\<rparr>)))))))))"

definition new_envelope :: "string \<Rightarrow> string \<Rightarrow> string \<Rightarrow> jdict \<Rightarrow> string option \<Rightarrow> Envelope" where
  "new_envelope nid now t p r =
     \<lparr>env_type = t, env_payload = p, env_id = nid, env_re = r, env_v = PROTOCOL_VERSION, env_ts = now\<rparr>"

definition make_error :: "string \<Rightarrow> string \<Rightarrow> string \<Rightarrow> string \<Rightarrow> string option \<Rightarrow> Envelope" where
  "make_error nid now code message r =
     new_envelope nid now MSG_ERROR [(''code'', JStr code), (''message'', JStr message)] r"

definition make_ack :: "string \<Rightarrow> string \<Rightarrow> jdict \<Rightarrow> string \<Rightarrow> Envelope" where
  "make_ack nid now p r = new_envelope nid now MSG_ACK p (Some r)"

section \<open>What the parser raises\<close>

definition parse_failure :: "exn \<Rightarrow> bool" where
  "parse_failure e \<longleftrightarrow> (\<exists>m. e = ValueError m) \<or> e = RecursionError"

lemma parse_failure_intros [intro, simp]: "parse_failure (ValueError m)" "parse_failure RecursionError"
  by (simp_all add: parse_failure_def)

lemma bindR_raises: "bindR m f = Inl e \<Longrightarrow> m = Inl e \<or> (\<exists>x. m = Inr x \<and> f x = Inl e)"
  by (cases m) (auto simp: bindR_def)

lemma scan_number_raises: "scan_number fr s = Inl e \<Longrightarrow> parse_failure e"
  by (auto simp: scan_number_def Let_def split: prod.splits if_splits)

lemma parse_raises:
  "parse_value fr n k s = Inl e1 \<Longrightarrow> parse_failure e1"
  "parse_elems fr n k s = Inl e2 \<Longrightarrow> parse_failure e2"
  "parse_members fr n k s = Inl e3 \<Longrightarrow> parse_failure e3"
  by (induction fr n k s and fr n k s and fr n k s arbitrary: e1 and e2 and e3
      rule: parse_value_parse_elems_parse_members.induct)
    (auto split: list.splits if_splits option.splits prod.splits dest!: bindR_raises scan_number_raises)

lemma loads_raises: "loads fr k s = Inl e \<Longrightarrow> parse_failure e"
  by (auto simp: loads_def simp del: parse_value.simps split: if_splits dest!: bindR_raises parse_raises)

lemma field_raises:
  "frame_dict j = Inl e \<Longrightarrow> \<exists>m. e = EnvelopeError m" "frame_version d = Inl e \<Longrightarrow> \<exists>m. e = EnvelopeError m"
  "nonempty_str d key = Inl e \<Longrightarrow> \<exists>m. e = EnvelopeError m" "frame_re d = Inl e \<Longrightarrow> \<exists>m. e = EnvelopeError m"
  "frame_payload d = Inl e \<Longrightarrow> \<exists>m. e = EnvelopeError m" "frame_ts now d = Inl e \<Longrightarrow> \<exists>m. e = EnvelopeError m"
  by (auto simp: frame_dict_def frame_version_def nonempty_str_def frame_re_def frame_payload_def frame_ts_def
      split: json.splits option.splits if_splits)

lemma decode_raises: "decode fr k now raw = Inl e \<Longrightarrow> (\<exists>m. e = EnvelopeError m) \<or> loads fr k raw = Inl e \<and> e = RecursionError"
  by (auto simp: decode_def load_frame_def parse_failure_def
      split: if_splits sum.splits dest!: bindR_raises field_raises) (frule loads_raises, auto simp: parse_failure_def)

lemma bindR_returns: "bindR m f = Inr y \<longleftrightarrow> (\<exists>x. m = Inr x \<and> f x = Inr y)"
  by (cases m) (auto simp: bindR_def)

lemma decode_returns:
  assumes "decode fr k now raw = Inr e"
  shows "env_type e \<noteq> []" "env_id e \<noteq> []" "utf8_len raw \<le> MAX_FRAME_BYTES"
proof -
  have n: "nonempty_str d key = Inr s \<Longrightarrow> s \<noteq> []" for d key s
    by (auto simp: nonempty_str_def split: json.splits if_splits)
  from assms show "env_type e \<noteq> []" "env_id e \<noteq> []" "utf8_len raw \<le> MAX_FRAME_BYTES"
    by (auto simp: decode_def bindR_returns dest!: n split: if_splits)
qed

lemma parse_open:
  "parse_value fr n k (CHR ''['' # s) = Inl e \<Longrightarrow> parse_value fr (Suc (Suc n)) (Suc k) (CHR ''['' # CHR ''['' # s) = Inl e"
  by (simp add: bindR_def is_json_space_def code_point_def)

lemma parse_nested: "parse_value fr (Suc (2 * k + m)) k (CHR ''['' # replicate k (CHR ''['')) = Inl RecursionError"
proof (induction k)
  case (Suc k)
  from parse_open [OF this] show ?case by (simp del: parse_value.simps)
qed simp

lemma loads_nested: "loads fr k (replicate (Suc k) (CHR ''['')) = Inl RecursionError"
  using parse_nested [of fr k 3]
  by (simp del: parse_value.simps add: loads_def is_json_space_def code_point_def bindR_def eval_nat_numeral)

section \<open>Properties\<close>

definition envelope_ok :: "(string \<Rightarrow> string) \<Rightarrow> nat \<Rightarrow> Envelope \<Rightarrow> bool" where
  "envelope_ok fr k e \<longleftrightarrow>
     env_type e \<noteq> [] \<and> env_id e \<noteq> [] \<and> json_ok fr (JInt (env_v e)) \<and> json_ok fr (JObj (env_payload e))
     \<and> json_depth (JObj (env_payload e)) < k"

lemma load_encode: "envelope_ok fr k e \<Longrightarrow> loads fr k (encode e) = Inr (JObj (to_dict e))"
  unfolding encode_def
  by (rule loads_dumps) (auto simp: envelope_ok_def to_dict_def split: option.splits)


lemma to_dict_fields:
  "frame_dict (JObj (to_dict e)) = Inr (to_dict e)" "frame_version (to_dict e) = Inr (env_v e)"
  "env_type e \<noteq> [] \<Longrightarrow> nonempty_str (to_dict e) ''type'' = Inr (env_type e)"
  "env_id e \<noteq> [] \<Longrightarrow> nonempty_str (to_dict e) ''id'' = Inr (env_id e)" "frame_re (to_dict e) = Inr (env_re e)"
  "frame_payload (to_dict e) = Inr (env_payload e)" "frame_ts now (to_dict e) = Inr (env_ts e)"
  by (simp_all add: frame_dict_def frame_version_def nonempty_str_def frame_re_def frame_payload_def frame_ts_def
      to_dict_def dict_get_value_def dict_get_def split: option.splits)

text \<open>
  C19. A frame survives the wire. What \<open>decode\<close> makes of the text \<open>encode\<close> wrote is the envelope
  itself, with the time of sending and not that of receipt, for every envelope with a type, an
  identifier and a payload nested below the recursion limit \<open>k\<close> whose text fits the frame
  limit; the float texts of the payload are those \<open>repr\<close> writes.
\<close>

theorem decode_encode:
  assumes "envelope_ok fr k e" and "utf8_len (encode e) \<le> MAX_FRAME_BYTES"
  shows "decode fr k now (encode e) = Inr e"
  using assms(1) load_encode [OF assms(1)] assms(2)
  by (simp add: decode_def load_frame_def to_dict_fields envelope_ok_def bindR_def)

lemma utf8_len_le: "utf8_len s \<le> 2 * length s"
  by (induction s) (auto simp: utf8_len_def)

definition sample_envelope :: Envelope where
  "sample_envelope = new_envelope ''ab12'' ''2026-07-29T12:00:00+00:00'' MSG_PROPOSAL_SUBMIT
     [(''kind'', JStr ''peer_add''), (''payload'', JObj [(''asn'', JInt 4242420000), (''tags'', JArr [JNull, JBool True])])]
     (Some ''cd34'')"

theorem decode_encode_witness:
  "decode id 1000 ''later'' (encode sample_envelope) = Inr sample_envelope"
proof (rule decode_encode)
  show "envelope_ok id 1000 sample_envelope"
    by (simp add: envelope_ok_def sample_envelope_def new_envelope_def PROTOCOL_VERSION_def INT_MAX_STR_DIGITS_def
        show_nat.simps MSG_PROPOSAL_SUBMIT_def)
  show "utf8_len (encode sample_envelope) \<le> MAX_FRAME_BYTES"
    using utf8_len_le [of "encode sample_envelope"]
    by (simp add: encode_def to_dict_def sample_envelope_def new_envelope_def PROTOCOL_VERSION_def MSG_PROPOSAL_SUBMIT_def
        dumps_str_def escape_char_def code_point_def show_int_def show_nat.simps digit_char_def MAX_FRAME_BYTES_def)
qed

text \<open>
  A frame that is no envelope is refused. When \<open>decode\<close> returns, the frame is within the
  limit and its type and identifier are not empty; when it raises, the exception is an
  \<open>EnvelopeError\<close> or the \<open>RecursionError\<close> of the JSON parser. The latter does escape: one
  bracket more than the recursion limit \<open>k\<close> raises it, although \<open>EnvelopeError\<close> is
  documented for everything that is no well-formed envelope.
\<close>

theorem decode_outcomes:
  "(case decode fr k now raw of
      Inr e \<Rightarrow> utf8_len raw \<le> MAX_FRAME_BYTES \<and> env_type e \<noteq> [] \<and> env_id e \<noteq> []
    | Inl x \<Rightarrow> x = RecursionError \<or> (\<exists>m. x = EnvelopeError m))
   \<and> (k < MAX_FRAME_BYTES \<longrightarrow> decode fr k now (replicate (Suc k) (CHR ''['')) = Inl RecursionError)"
proof (intro conjI impI)
  show "case decode fr k now raw of
      Inr e \<Rightarrow> utf8_len raw \<le> MAX_FRAME_BYTES \<and> env_type e \<noteq> [] \<and> env_id e \<noteq> []
    | Inl x \<Rightarrow> x = RecursionError \<or> (\<exists>m. x = EnvelopeError m)"
    using decode_raises [of fr k now raw] decode_returns [of fr k now raw] by (auto split: sum.split)
  assume "k < MAX_FRAME_BYTES"
  moreover have "utf8_len (replicate (Suc k) (CHR ''['')) = Suc k"
    by (simp add: utf8_len_def code_point_def sum_list_replicate)
  ultimately show "decode fr k now (replicate (Suc k) (CHR ''['')) = Inl RecursionError"
    using loads_nested [of fr k] by (simp add: decode_def load_frame_def bindR_def del: replicate.simps)
qed

theorem decode_outcomes_witness:
  "decode id 3 ''now'' (replicate (Suc 3) (CHR ''['')) = Inl RecursionError \<and> 3 < MAX_FRAME_BYTES"
proof -
  have "3 < MAX_FRAME_BYTES" by (simp add: MAX_FRAME_BYTES_def)
  with decode_outcomes [of "[]" id 3 "''now''"] show ?thesis by blast
qed

end
