(* ===== verification/Registry.thy ===== *)
theory Registry
  imports Proposals Protocol "HOL-Library.Sublist"
begin

text \<open>
  The state of the hub process and the first half of \<open>ws_hub.py\<close>: \<open>NodeConnection\<close> and
  \<open>ConnectionRegistry\<close>. The hub is one event loop. A task gives way to the other tasks, and to
  the other processes that write the database, only where it awaits; what they do there is the
  parameter \<open>interfere\<close>, an arbitrary change of the whole state, before and after every
  awaited call. Sockets belong to the web framework: a call is appended to the log of its
  socket and \<open>ws_raises\<close> says whether it raises.
\<close>

section \<open>The state of the hub\<close>

datatype ws_call = WsAccept | WsSend string | WsClose int

text \<open>A memory object stream with a buffer of one: whether it is open, and the items in it.\<close>

record wake_stream =
  ms_open :: bool
  ms_items :: nat

record NodeConnection =
  nc_node_id :: string
  nc_conn_id :: string
  nc_websocket :: nat
  nc_wake :: "wake_stream option"
  nc_last_pushed_hash :: "string option"
  nc_last_seen_touched_at :: "int option"
  nc_agent_version :: string

text \<open>
  \<open>by_node\<close> is the dict of dicts; the inner dict maps a connection id to the object
  \<open>conns\<close> has under this id, so that its keys say everything.
\<close>

record hub =
  hub_world :: world
  by_node :: "(string \<times> string list) list"
  conns :: "string \<Rightarrow> NodeConnection option"
  sockets :: "nat \<Rightarrow> ws_call list"
  awaits :: nat
  ids :: nat

type_synonym 'a hop = "(hub, 'a) op"

text \<open>
  \<open>time.monotonic()\<close> is in nanoseconds; \<open>iter_set\<close> is the order in which Python iterates over
  a set with the given members; \<open>py_str\<close> is \<open>str\<close> of a decoded value.
\<close>

record hub_env =
  interfere :: "nat \<Rightarrow> hub \<Rightarrow> hub"
  ws_raises :: "nat \<Rightarrow> nat \<Rightarrow> bool"
  uuid_hex :: "nat \<Rightarrow> string"
  monotonic :: "nat \<Rightarrow> int"
  float_repr :: "string \<Rightarrow> string"
  recursion_limit :: nat
  iter_set :: "string list \<Rightarrow> string list"
  py_str :: "json \<Rightarrow> string"
  server_version :: string

section \<open>Awaiting\<close>

definition pause :: "hub_env \<Rightarrow> hub \<Rightarrow> hub" where
  "pause E h = interfere E (awaits h) (h\<lparr> awaits := Suc (awaits h) \<rparr>)"

definition awaited :: "hub_env \<Rightarrow> 'a hop \<Rightarrow> 'a hop" where
  "awaited E m = (\<lambda>h. case m (pause E h) of (r, h') \<Rightarrow> (r, pause E h'))"

definition in_world :: "'a wop \<Rightarrow> 'a hop" where
  "in_world m = (\<lambda>h. case m (hub_world h) of (r, w) \<Rightarrow> (r, h\<lparr> hub_world := w \<rparr>))"

definition to_thread :: "hub_env \<Rightarrow> 'a wop \<Rightarrow> 'a hop" where
  "to_thread E m = awaited E (in_world m)"

definition ws_do :: "hub_env \<Rightarrow> nat \<Rightarrow> ws_call \<Rightarrow> unit hop" where
  "ws_do E s c = awaited E (\<lambda>h.
     (if ws_raises E s (length (sockets h s)) then Inl SocketError else Inr (),
      h\<lparr> sockets := (sockets h)(s := sockets h s @ [c]) \<rparr>))"

definition new_id :: "hub_env \<Rightarrow> string hop" where
  "new_id E = (\<lambda>h. (Inr (uuid_hex E (ids h)), h\<lparr> ids := Suc (ids h) \<rparr>))"

definition suppress :: "unit hop \<Rightarrow> unit hop" where
  "suppress m = try_except m (\<lambda>_. ret ())"

text \<open>Connections are referred to by their identifier; a reference always has an object.\<close>

definition conn_at :: "hub \<Rightarrow> string \<Rightarrow> NodeConnection" where
  "conn_at h c = the (conns h c)"

definition the_conn :: "string \<Rightarrow> NodeConnection hop" where
  "the_conn c = read_state (\<lambda>h. conn_at h c)"

definition update_conn :: "string \<Rightarrow> (NodeConnection \<Rightarrow> NodeConnection) \<Rightarrow> unit hop" where
  "update_conn c f = modify_state (\<lambda>h. h\<lparr> conns := (conns h)(c := map_option f (conns h c)) \<rparr>)"

text \<open>\<open>Envelope(type=t, payload=p, re=r)\<close> with a fresh identifier and the current time.\<close>

definition build_envelope :: "hub_env \<Rightarrow> string \<Rightarrow> jdict \<Rightarrow> string option \<Rightarrow> Envelope hop" where
  "build_envelope E t p r = bnd (new_id E) (\<lambda>i. bnd (in_world now_iso) (\<lambda>now. ret (new_envelope i now t p r)))"

definition build_error :: "hub_env \<Rightarrow> string \<Rightarrow> string \<Rightarrow> string option \<Rightarrow> Envelope hop" where
  "build_error E code message r = bnd (new_id E) (\<lambda>i. bnd (in_world now_iso) (\<lambda>now. ret (make_error i now code message r)))"

definition build_ack :: "hub_env \<Rightarrow> jdict \<Rightarrow> string \<Rightarrow> Envelope hop" where
  "build_ack E p r = bnd (new_id E) (\<lambda>i. bnd (in_world now_iso) (\<lambda>now. ret (make_ack i now p r)))"

section \<open>Connections\<close>

definition MAX_CONNECTIONS_PER_NODE :: nat where "MAX_CONNECTIONS_PER_NODE = 4"

text \<open>
  \<open>send_lock\<close> and the lock of the registry: to wait for a lock is to give way, so it is part of the pause
  before the call, and what the task that holds the lock does meanwhile is part of \<open>interfere\<close>. A
  task that holds a lock for ever, in a call that never ends, is not in the model.
\<close>

definition send :: "hub_env \<Rightarrow> string \<Rightarrow> Envelope \<Rightarrow> unit hop" where
  "send E c e = bnd (the_conn c) (\<lambda>conn. ws_do E (nc_websocket conn) (WsSend (encode e)))"

definition close_one :: "hub_env \<Rightarrow> string \<Rightarrow> int \<Rightarrow> string \<Rightarrow> string \<Rightarrow> unit hop" where
  "close_one E c code err_code message =
     bnd (suppress (bnd (build_error E err_code message None) (send E c))) (\<lambda>_.
     suppress (bnd (the_conn c) (\<lambda>conn. ws_do E (nc_websocket conn) (WsClose code))))"

definition conns_of :: "string \<Rightarrow> hub \<Rightarrow> string list" where
  "conns_of n h = (case map_of (by_node h) n of None \<Rightarrow> [] | Some cs \<Rightarrow> cs)"

text \<open>\<open>conns[conn.conn_id] = conn\<close> in the dict of its node, and what is beyond the newest four.\<close>

definition enter :: "string \<Rightarrow> string list hop" where
  "enter c = (\<lambda>h.
     let n = nc_node_id (conn_at h c); cs = conns_of n h;
         cs' = (if c \<in> set cs then cs else cs @ [c])
     in (Inr (take (length cs' - MAX_CONNECTIONS_PER_NODE) cs'), h\<lparr> by_node := dict_set (by_node h) n cs' \<rparr>))"

definition register :: "hub_env \<Rightarrow> string \<Rightarrow> unit hop" where
  "register E c = bnd (awaited E (enter c)) (\<lambda>surplus.
     for_each (\<lambda>old. close_one E old CLOSE_TOO_MANY_CONNECTIONS ERR_TOO_MANY_CONNECTIONS ''too many connections'') surplus)"

definition unregister :: "hub_env \<Rightarrow> string \<Rightarrow> unit hop" where
  "unregister E c = awaited E (modify_state (\<lambda>h.
     let n = nc_node_id (conn_at h c) in
     case map_of (by_node h) n of
       None \<Rightarrow> h
     | Some cs \<Rightarrow>
         let cs' = filter (\<lambda>c'. c' \<noteq> c) cs
         in h\<lparr> by_node := (if cs' = [] then dict_pop (by_node h) n else dict_set (by_node h) n cs') \<rparr>))"

definition connections_for :: "hub_env \<Rightarrow> string \<Rightarrow> string list hop" where
  "connections_for E n = awaited E (read_state (conns_of n))"

definition all_connections :: "hub_env \<Rightarrow> string list hop" where
  "all_connections E = awaited E (read_state (\<lambda>h. concat (map snd (by_node h))))"

definition is_connected :: "hub_env \<Rightarrow> string \<Rightarrow> bool hop" where
  "is_connected E n = awaited E (read_state (\<lambda>h. conns_of n h \<noteq> []))"

text \<open>\<open>send_nowait\<close>, with the exceptions of a full, broken or closed stream suppressed.\<close>

definition nudge :: "NodeConnection \<Rightarrow> NodeConnection" where
  "nudge conn = (case nc_wake conn of
     None \<Rightarrow> conn
   | Some s \<Rightarrow> if ms_open s \<and> ms_items s < 1 then conn\<lparr> nc_wake := Some (s\<lparr> ms_items := Suc (ms_items s) \<rparr>) \<rparr> else conn)"

definition notify :: "hub_env \<Rightarrow> string \<Rightarrow> unit hop" where
  "notify E n = bnd (connections_for E n) (for_each (\<lambda>c. update_conn c nudge))"

definition close_node :: "hub_env \<Rightarrow> string \<Rightarrow> int \<Rightarrow> string \<Rightarrow> string \<Rightarrow> unit hop" where
  "close_node E n code err_code message =
     bnd (connections_for E n) (for_each (\<lambda>c. close_one E c code err_code message))"

definition close_all :: "hub_env \<Rightarrow> int \<Rightarrow> unit hop" where
  "close_all E code = bnd (all_connections E) (for_each (\<lambda>c. suppress (
     bnd (build_envelope E MSG_SHUTDOWN [(''reason'', JStr ''server shutting down'')] None) (\<lambda>e.
     bnd (send E c e) (\<lambda>_.
     bnd (the_conn c) (\<lambda>conn. ws_do E (nc_websocket conn) (WsClose code)))))))"

section \<open>Running among other tasks\<close>

text \<open>
  \<open>guar K m\<close>: \<open>m\<close> relates the states before and after it by \<open>K\<close>, however it ends. A \<open>K\<close> that
  the other tasks guarantee as well carries over to whole tasks.
\<close>

definition guar :: "(hub \<Rightarrow> hub \<Rightarrow> bool) \<Rightarrow> 'a hop \<Rightarrow> bool" where
  "guar K m \<longleftrightarrow> (\<forall>h. K h (snd (m h)))"

lemma guarD: "guar K m \<Longrightarrow> m h = (r, h') \<Longrightarrow> K h h'"
  using snd_conv [of r h'] by (auto simp: guar_def dest: spec [where x = h])

locale relying =
  fixes E :: hub_env and K :: "hub \<Rightarrow> hub \<Rightarrow> bool"
  assumes K_refl: "K h h"
    and K_trans: "K h h' \<Longrightarrow> K h' h'' \<Longrightarrow> K h h''"
    and K_others: "K h (interfere E k h)"
    and K_count: "K h (h\<lparr> awaits := a \<rparr>)" "K h (h\<lparr> ids := a \<rparr>)"
    and K_clock: "K h (h\<lparr> hub_world := next_tick (hub_world h) \<rparr>)"
begin

lemma paused: "K h (pause E h)"
  unfolding pause_def by (rule K_trans [OF K_count(1) K_others])

lemma basic: "guar K (ret x)" "guar K (raise e)" "guar K (lift_result r)" "guar K (read_state f)"
  by (simp_all add: guar_def ret_def raise_def lift_result_def read_state_def K_refl)

lemma bind:
  assumes "guar K m" and "\<And>x. guar K (f x)"
  shows "guar K (bnd m f)"
  unfolding guar_def
proof
  fix h
  obtain r h1 where m: "m h = (r, h1)" by (cases "m h")
  with assms(1) have "K h h1" by (auto dest: guarD)
  moreover have "K h1 (snd (f x h1))" for x using assms(2) by (simp add: guar_def)
  ultimately show "K h (snd (bnd m f h))" using m by (auto simp: bnd_def split: sum.split intro: K_trans)
qed

lemma handle:
  assumes "guar K m" and "\<And>e. guar K (g e)"
  shows "guar K (try_except m g)"
  unfolding guar_def
proof
  fix h
  obtain r h1 where m: "m h = (r, h1)" by (cases "m h")
  with assms(1) have "K h h1" by (auto dest: guarD)
  moreover have "K h1 (snd (g e h1))" for e using assms(2) by (simp add: guar_def)
  ultimately show "K h (snd (try_except m g h))" using m by (auto simp: try_except_def split: sum.split intro: K_trans)
qed

lemma quietly: "guar K m \<Longrightarrow> guar K (suppress m)"
  unfolding suppress_def by (intro handle basic)

lemma loop: "(\<And>x. x \<in> set xs \<Longrightarrow> guar K (f x)) \<Longrightarrow> guar K (for_each f xs)"
  by (induction xs) (auto intro: bind basic)

lemma ifs: "(b \<Longrightarrow> guar K m) \<Longrightarrow> (\<not> b \<Longrightarrow> guar K m') \<Longrightarrow> guar K (if b then m else m')"
  by simp

lemma options: "(x = None \<Longrightarrow> guar K m) \<Longrightarrow> (\<And>y. x = Some y \<Longrightarrow> guar K (f y)) \<Longrightarrow> guar K (case x of None \<Rightarrow> m | Some y \<Rightarrow> f y)"
  by (cases x) auto

lemma waiting:
  assumes "guar K m"
  shows "guar K (awaited E m)"
  unfolding guar_def
proof
  fix h
  obtain r h1 where m: "m (pause E h) = (r, h1)" by (cases "m (pause E h)")
  with assms have "K (pause E h) h1" by (auto dest: guarD)
  then show "K h (snd (awaited E m h))" using m by (simp add: awaited_def) (blast intro: K_trans paused)
qed

lemma fresh_id: "guar K (new_id E)"
  by (simp add: guar_def new_id_def K_count)

lemma current_time: "guar K (in_world now_iso)"
  by (simp add: guar_def in_world_def now_iso_def K_clock)

lemma envelopes: "guar K (build_envelope E t p r)" "guar K (build_error E c m r)" "guar K (build_ack E p i)"
  unfolding build_envelope_def build_error_def build_ack_def by (intro bind fresh_id current_time basic)+

lemmas rules = basic bind handle quietly loop ifs options waiting fresh_id current_time envelopes

end

section \<open>The registry\<close>

definition registry_ok :: "hub \<Rightarrow> bool" where
  "registry_ok h \<longleftrightarrow> distinct (map fst (by_node h)) \<and>
     (\<forall>(n, cs) \<in> set (by_node h). cs \<noteq> [] \<and> distinct cs \<and> (\<forall>c \<in> set cs. \<exists>x. conns h c = Some x \<and> nc_node_id x = n))"

text \<open>
  What every task of the hub does for every other: it keeps the registry in order, it only adds to
  the log of a socket, and a connection keeps the node and the socket it was made with.
\<close>

definition hub_goes_on :: "hub \<Rightarrow> hub \<Rightarrow> bool" where
  "hub_goes_on h h' \<longleftrightarrow> (registry_ok h \<longrightarrow> registry_ok h') \<and> (\<forall>s. prefix (sockets h s) (sockets h' s)) \<and>
     (\<forall>c x. conns h c = Some x \<longrightarrow>
        (\<exists>y. conns h' c = Some y \<and> nc_websocket y = nc_websocket x \<and> nc_node_id y = nc_node_id x))"

definition considerate :: "hub_env \<Rightarrow> bool" where
  "considerate E \<longleftrightarrow> (\<forall>k h. hub_goes_on h (interfere E k h))"

lemma registry_ok_frame: "by_node h' = by_node h \<Longrightarrow> conns h' = conns h \<Longrightarrow> registry_ok h' = registry_ok h"
  by (simp add: registry_ok_def)

lemma registry_okD: "registry_ok h \<Longrightarrow> c \<in> set (conns_of n h) \<Longrightarrow> \<exists>x. conns h c = Some x \<and> nc_node_id x = n"
  unfolding registry_ok_def conns_of_def by (fastforce split: option.splits dest: map_of_SomeD)

lemma conns_of_distinct: "registry_ok h \<Longrightarrow> distinct (conns_of n h)"
  unfolding registry_ok_def conns_of_def by (fastforce split: option.splits dest: map_of_SomeD)

lemma registry_ok_put:
  assumes "registry_ok h" and "cs \<noteq> []" and "distinct cs" and "\<And>c. c \<in> set cs \<Longrightarrow> \<exists>x. conns h c = Some x \<and> nc_node_id x = n"
  shows "registry_ok (h\<lparr> by_node := dict_set (by_node h) n cs \<rparr>)"
proof -
  have "kv \<in> set (dict_set d n cs) \<Longrightarrow> kv = (n, cs) \<or> kv \<in> set d" for kv and d :: "(string \<times> string list) list"
    by (induction d) (auto split: if_splits)
  with assms dict_set_distinct show ?thesis by (fastforce simp: registry_ok_def)
qed

lemma registry_ok_pop: "registry_ok h \<Longrightarrow> registry_ok (h\<lparr> by_node := dict_pop (by_node h) n \<rparr>)"
  using dict_pop_distinct [of "by_node h" n] by (auto simp: registry_ok_def dict_pop_def)

text \<open>Only objects that keep their node and socket matter to the registry.\<close>

lemma registry_ok_objects:
  assumes "registry_ok h" and "by_node h' = by_node h"
    and "\<And>c x. conns h c = Some x \<Longrightarrow> \<exists>y. conns h' c = Some y \<and> nc_websocket y = nc_websocket x \<and> nc_node_id y = nc_node_id x"
  shows "registry_ok h'"
  using assms unfolding registry_ok_def by (simp add: split_beta) (metis assms(3))

lemma goes_on_socket: "prefix (sockets h s) l \<Longrightarrow> hub_goes_on h (h\<lparr> sockets := (sockets h)(s := l) \<rparr>)"
  by (auto simp: hub_goes_on_def registry_ok_def)

lemma goes_on_conn:
  assumes "\<And>x. nc_websocket (f x) = nc_websocket x" and "\<And>x. nc_node_id (f x) = nc_node_id x"
  shows "guar hub_goes_on (update_conn c f)"
proof -
  let ?h = "\<lambda>h. h\<lparr> conns := (conns h)(c := map_option f (conns h c)) \<rparr>"
  have o: "\<exists>y. conns (?h h) c' = Some y \<and> nc_websocket y = nc_websocket x \<and> nc_node_id y = nc_node_id x" if "conns h c' = Some x" for h c' x
    using that assms by auto
  then have "registry_ok h \<Longrightarrow> registry_ok (?h h)" for h by (rule registry_ok_objects [rotated 2]) simp_all
  with o show ?thesis by (auto simp: guar_def update_conn_def modify_state_def hub_goes_on_def assms)
qed

text \<open>A new connection object under an identifier that is not in use.\<close>

lemma goes_on_create: "conns h c = None \<Longrightarrow> hub_goes_on h (h\<lparr> conns := (conns h)(c := Some x) \<rparr>)"
  by (auto simp: hub_goes_on_def elim!: registry_ok_objects)

lemma goes_on_registry: "by_node h' = bs \<Longrightarrow> conns h' = conns h \<Longrightarrow> sockets h' = sockets h \<Longrightarrow> (registry_ok h \<Longrightarrow> registry_ok h') \<Longrightarrow> hub_goes_on h h'"
  by (auto simp: hub_goes_on_def)

lemma goes_on_obj:
  assumes "hub_goes_on h h'" and "conns h c = Some x"
  obtains y where "conns h' c = Some y" and "nc_websocket y = nc_websocket x" and "nc_node_id y = nc_node_id x"
  using assms unfolding hub_goes_on_def by blast

lemma hub_goes_on_trans:
  assumes "hub_goes_on h h'" and "hub_goes_on h' h''"
  shows "hub_goes_on h h''"
proof -
  have "\<exists>z. conns h'' c = Some z \<and> nc_websocket z = nc_websocket x \<and> nc_node_id z = nc_node_id x" if "conns h c = Some x" for c x
    using goes_on_obj [OF assms(1) that] goes_on_obj [OF assms(2)] by metis
  moreover have "prefix (sockets h s) (sockets h'' s)" for s
    using assms by (auto simp: hub_goes_on_def intro: prefix_order.trans)
  ultimately show ?thesis using assms by (simp add: hub_goes_on_def)
qed

lemma goes_on_calls: "hub_goes_on h h' \<Longrightarrow> a \<in> set (sockets h s) \<Longrightarrow> a \<in> set (sockets h' s)"
  by (auto simp: hub_goes_on_def dest!: spec [where x = s] set_mono_prefix)

text \<open>The calls on the socket of a connection since an earlier state.\<close>

definition calls_since :: "hub \<Rightarrow> hub \<Rightarrow> string \<Rightarrow> ws_call list" where
  "calls_since h h' c = drop (length (sockets h (nc_websocket (conn_at h c)))) (sockets h' (nc_websocket (conn_at h c)))"

lemma calls_since_later:
  assumes "hub_goes_on h' h''" and "a \<in> set (calls_since h h' c)"
  shows "a \<in> set (calls_since h h'' c)"
proof -
  let ?s = "nc_websocket (conn_at h c)"
  from assms(1) have "prefix (sockets h' ?s) (sockets h'' ?s)" by (simp add: hub_goes_on_def)
  then obtain zs where "sockets h'' ?s = sockets h' ?s @ zs" by (rule prefixE)
  with assms(2) show ?thesis by (simp add: calls_since_def)
qed

lemma calls_since_earlier:
  assumes "hub_goes_on h h'" and "conns h c \<noteq> None" and "a \<in> set (calls_since h' h'' c)"
  shows "a \<in> set (calls_since h h'' c)"
proof -
  let ?s = "nc_websocket (conn_at h c)"
  from assms(2) obtain x where x: "conns h c = Some x" by blast
  obtain y where "conns h' c = Some y" "nc_websocket y = nc_websocket x" by (rule goes_on_obj [OF assms(1) x])
  with x have s: "nc_websocket (conn_at h' c) = ?s" by (simp add: conn_at_def)
  have "length (sockets h ?s) \<le> length (sockets h' ?s)" using assms(1) by (simp add: hub_goes_on_def prefix_length_le)
  from subsetD [OF set_drop_subset_set_drop [OF this]] assms(3) show ?thesis unfolding calls_since_def s .
qed

lemma calls_since_set: "a \<in> set (calls_since h h' c) \<Longrightarrow> a \<in> set (sockets h' (nc_websocket (conn_at h c)))"
  unfolding calls_since_def by (rule in_set_dropD)

lemma suppress_returns: "\<exists>h'. suppress m h = (Inr (), h')"
  by (cases "m h"; cases "fst (m h)") (simp_all add: suppress_def try_except_def ret_def)

locale hub_tasks =
  fixes E :: hub_env
  assumes others: "considerate E"

sublocale hub_tasks \<subseteq> relying E hub_goes_on
proof
  show "hub_goes_on h h" for h by (auto simp: hub_goes_on_def)
  show "hub_goes_on h h' \<Longrightarrow> hub_goes_on h' h'' \<Longrightarrow> hub_goes_on h h''" for h h' h''
    by (rule hub_goes_on_trans)
  show "hub_goes_on h (interfere E k h)" for h k using others by (simp add: considerate_def)
qed (auto simp: hub_goes_on_def registry_ok_def)

context hub_tasks
begin

lemmas going_on = paused

lemmas looping = loop

lemma socket_call: "guar hub_goes_on (ws_do E s c)"
  unfolding ws_do_def by (rule waiting) (simp add: guar_def goes_on_socket)

lemma sending: "guar hub_goes_on (send E c e)" "guar hub_goes_on (the_conn c)"
  unfolding send_def the_conn_def by (intro rules socket_call)+

lemma closing_one: "guar hub_goes_on (close_one E c code err msg)"
  unfolding close_one_def by (intro rules socket_call sending)

lemma nudging: "guar hub_goes_on (update_conn c nudge)"
  by (rule goes_on_conn) (simp_all add: nudge_def split: option.splits)

lemma listing: "guar hub_goes_on (connections_for E n)" "guar hub_goes_on (all_connections E)" "guar hub_goes_on (is_connected E n)"
  unfolding connections_for_def all_connections_def is_connected_def by (intro rules)+

lemma leaving: "guar hub_goes_on (unregister E c)"
proof -
  have "hub_goes_on h (let n = nc_node_id (conn_at h c) in case map_of (by_node h) n of None \<Rightarrow> h
      | Some cs \<Rightarrow> let cs' = filter (\<lambda>c'. c' \<noteq> c) cs in h\<lparr> by_node := (if cs' = [] then dict_pop (by_node h) n else dict_set (by_node h) n cs') \<rparr>)" for h
  proof (cases "map_of (by_node h) (nc_node_id (conn_at h c))")
    case (Some cs)
    let ?n = "nc_node_id (conn_at h c)" and ?cs = "filter (\<lambda>c'. c' \<noteq> c) cs"
    have cs: "cs = conns_of ?n h" using Some by (simp add: conns_of_def)
    have "registry_ok h \<Longrightarrow> ?cs \<noteq> [] \<Longrightarrow> registry_ok (h\<lparr> by_node := dict_set (by_node h) ?n ?cs \<rparr>)"
      using conns_of_distinct [of h ?n] registry_okD [of h _ ?n] by (intro registry_ok_put) (auto simp: cs)
    then show ?thesis using Some registry_ok_pop [of h ?n] by (simp add: Let_def) (auto intro!: goes_on_registry)
  qed (simp add: K_refl)
  then show ?thesis unfolding unregister_def by (intro waiting) (simp add: guar_def modify_state_def)
qed

lemma registry_tasks: "guar hub_goes_on (notify E n)" "guar hub_goes_on (close_node E n code err msg)" "guar hub_goes_on (close_all E code)"
  unfolding notify_def close_node_def close_all_def by (intro rules listing nudging closing_one sending socket_call)+

lemma goes_on_enter:
  assumes "conns h c \<noteq> None"
  shows "hub_goes_on h (snd (enter c h))"
proof -
  from assms obtain y where y: "conns h c = Some y" by blast
  let ?n = "nc_node_id y"
  have "registry_ok h \<Longrightarrow> registry_ok (h\<lparr> by_node := dict_set (by_node h) ?n (if c \<in> set (conns_of ?n h) then conns_of ?n h else conns_of ?n h @ [c]) \<rparr>)"
    using conns_of_distinct [of h ?n] registry_okD [of h _ ?n] y by (intro registry_ok_put) (auto split: if_splits)
  then show ?thesis using y by (auto simp: enter_def Let_def conn_at_def intro!: goes_on_registry)
qed

lemma close_returns: "\<exists>h'. close_one E c code err msg h = (Inr (), h')"
proof -
  obtain h1 where "suppress (bnd (build_error E err msg None) (send E c)) h = (Inr (), h1)" using suppress_returns by blast
  then show ?thesis using suppress_returns by (simp add: close_one_def bnd_def)
qed

lemma close_one_closes:
  assumes "conns h c = Some x"
  shows "WsClose code \<in> set (calls_since h (snd (close_one E c code err msg h)) c)"
proof -
  let ?m = "suppress (bnd (build_error E err msg None) (send E c))"
  obtain h1 where h1: "?m h = (Inr (), h1)" using suppress_returns by blast
  have "guar hub_goes_on ?m" by (intro rules sending)
  then have k: "hub_goes_on h h1" using h1 by (rule guarD)
  then obtain y where y: "conns h1 c = Some y" "nc_websocket y = nc_websocket x" using assms by (rule goes_on_obj)
  let ?p = "pause E h1" and ?s = "nc_websocket x"
  let ?q = "?p\<lparr> sockets := (sockets ?p)(?s := sockets ?p ?s @ [WsClose code]) \<rparr>"
  have "hub_goes_on h ?p" by (rule K_trans [OF k paused])
  then have "length (sockets h ?s) \<le> length (sockets ?p ?s)" by (auto simp: hub_goes_on_def prefix_length_le)
  then have "WsClose code \<in> set (calls_since h ?q c)" using assms by (simp add: calls_since_def conn_at_def)
  from calls_since_later [OF paused this] have "WsClose code \<in> set (calls_since h (pause E ?q) c)" .
  moreover have "close_one E c code err msg h = suppress (bnd (the_conn c) (\<lambda>conn. ws_do E (nc_websocket conn) (WsClose code))) h1"
    unfolding close_one_def using h1 by (rule bnd_Inr)
  ultimately show ?thesis using y
    by (simp add: suppress_def the_conn_def ws_do_def awaited_def op_defs conn_at_def)
qed

end

definition closed :: "hub \<Rightarrow> string \<Rightarrow> bool" where
  "closed h c \<longleftrightarrow> (\<exists>code. WsClose code \<in> set (sockets h (nc_websocket (conn_at h c))))"

context hub_tasks
begin

lemma close_each_since:
  assumes "\<forall>c \<in> set cs. \<exists>x. conns h c = Some x"
  shows "\<exists>h'. for_each (\<lambda>c. close_one E c code err msg) cs h = (Inr (), h') \<and> hub_goes_on h h'
    \<and> (\<forall>c \<in> set cs. WsClose code \<in> set (calls_since h h' c))"
  using assms
proof (induction cs arbitrary: h)
  case Nil
  then show ?case by (simp add: ret_def K_refl)
next
  case (Cons c cs)
  from Cons.prems obtain x where x: "conns h c = Some x" by auto
  obtain h1 where h1: "close_one E c code err msg h = (Inr (), h1)" using close_returns by blast
  have k: "hub_goes_on h h1" by (rule guarD [OF closing_one h1])
  then have "\<forall>c \<in> set cs. \<exists>x. conns h1 c = Some x" using Cons.prems by (fastforce simp: hub_goes_on_def)
  from Cons.IH [OF this] obtain h' where h': "for_each (\<lambda>c. close_one E c code err msg) cs h1 = (Inr (), h')"
    "hub_goes_on h1 h'" "\<forall>c \<in> set cs. WsClose code \<in> set (calls_since h1 h' c)" by blast
  have "WsClose code \<in> set (calls_since h h1 c)" using close_one_closes [OF x, of code err msg] h1 by simp
  from calls_since_later [OF h'(2) this] have "WsClose code \<in> set (calls_since h h' c)" .
  moreover have "\<forall>c' \<in> set cs. WsClose code \<in> set (calls_since h h' c')"
    using calls_since_earlier [OF k] h'(3) Cons.prems by fastforce
  ultimately show ?case using h' K_trans [OF k h'(2)] by (simp add: bnd_def h1)
qed

lemma close_each:
  assumes "\<forall>c \<in> set cs. \<exists>x. conns h c = Some x"
  shows "\<exists>h'. for_each (\<lambda>c. close_one E c code err msg) cs h = (Inr (), h') \<and> hub_goes_on h h'
    \<and> (\<forall>c \<in> set cs. WsClose code \<in> set (sockets h' (nc_websocket (conn_at h' c))))"
proof -
  from close_each_since [OF assms] obtain h' where h': "for_each (\<lambda>c. close_one E c code err msg) cs h = (Inr (), h')" "hub_goes_on h h'"
    "\<forall>c \<in> set cs. WsClose code \<in> set (calls_since h h' c)" by blast
  have "nc_websocket (conn_at h' c) = nc_websocket (conn_at h c)" if "c \<in> set cs" for c
    using assms that goes_on_obj [OF h'(2)] by (metis conn_at_def option.sel)
  with h' calls_since_set show ?thesis by metis
qed

lemma register_spec:
  assumes "registry_ok h" and "conns h c \<noteq> None" and e: "enter c (pause E h) = (Inr cs, h1)"
  shows "\<exists>h'. register E c h = (Inr (), h') \<and> hub_goes_on h h1 \<and> hub_goes_on h1 h'
    \<and> (\<forall>c' \<in> set cs. WsClose CLOSE_TOO_MANY_CONNECTIONS \<in> set (calls_since h1 h' c') \<and> closed h' c')"
proof -
  let ?p = "pause E h"
  from assms(2) obtain x where "conns h c = Some x" by blast
  then obtain y where y: "conns ?p c = Some y" by (rule goes_on_obj [OF paused])
  have k1: "hub_goes_on h h1" using K_trans [OF paused goes_on_enter, of h c] y e by simp
  have k2: "hub_goes_on h1 (pause E h1)" by (rule paused)
  have ok: "registry_ok h1" using k1 assms(1) by (simp add: hub_goes_on_def)
  have "set cs \<subseteq> set (conns_of (nc_node_id y) h1)"
    using e y by (auto simp: enter_def Let_def conn_at_def conns_of_def dict_set_get dest: in_set_takeD)
  then have c1: "\<forall>c \<in> set cs. conns h1 c \<noteq> None" using registry_okD [OF ok] by fastforce
  then have "\<forall>c \<in> set cs. \<exists>x. conns (pause E h1) c = Some x" using k2 by (fastforce simp: hub_goes_on_def)
  from close_each_since [OF this] obtain h' where h': "for_each (\<lambda>c. close_one E c CLOSE_TOO_MANY_CONNECTIONS ERR_TOO_MANY_CONNECTIONS ''too many connections'') cs (pause E h1) = (Inr (), h')"
    "hub_goes_on (pause E h1) h'" "\<forall>c \<in> set cs. WsClose CLOSE_TOO_MANY_CONNECTIONS \<in> set (calls_since (pause E h1) h' c)" by blast
  have k3: "hub_goes_on h1 h'" by (rule K_trans [OF k2 h'(2)])
  have s: "WsClose CLOSE_TOO_MANY_CONNECTIONS \<in> set (calls_since h1 h' c)" if "c \<in> set cs" for c
    using calls_since_earlier [OF k2] c1 h'(3) that by blast
  have "nc_websocket (conn_at h' c) = nc_websocket (conn_at h1 c)" if "c \<in> set cs" for c
    using c1 that goes_on_obj [OF k3] by (metis conn_at_def option.collapse option.sel)
  with s calls_since_set have "closed h' c" if "c \<in> set cs" for c using that unfolding closed_def by metis
  with s h'(1) e k1 k3 show ?thesis by (auto simp: register_def awaited_def bnd_def)
qed

end

text \<open>The hub with no other task: the sequential behaviour.\<close>

definition alone :: "hub_env \<Rightarrow> hub_env" where
  "alone E = E\<lparr> interfere := (\<lambda>_ h. h) \<rparr>"

interpretation single: hub_tasks "alone E" for E
  by unfold_locales (auto simp: considerate_def alone_def hub_goes_on_def)

lemma few_left: "distinct cs \<Longrightarrow> (\<And>c. c \<in> set (take (length cs - k) cs) \<Longrightarrow> \<not> P c) \<Longrightarrow> card {c \<in> set cs. P c} \<le> k"
proof -
  assume d: "distinct cs" and n: "\<And>c. c \<in> set (take (length cs - k) cs) \<Longrightarrow> \<not> P c"
  have "set cs = set (take (length cs - k) cs) \<union> set (drop (length cs - k) cs)"
    by (metis append_take_drop_id set_append)
  with n have "{c \<in> set cs. P c} \<subseteq> set (drop (length cs - k) cs)" by auto
  then have "card {c \<in> set cs. P c} \<le> card (set (drop (length cs - k) cs))" by (simp add: card_mono)
  also have "\<dots> \<le> k" by (rule order_trans [OF card_length]) simp
  finally show ?thesis .
qed

section \<open>Properties\<close>


section \<open>The properties at work\<close>

text \<open>A hub in which nothing raises and no other task runs, with five connections of one node.\<close>

definition calm_env :: hub_env where
  "calm_env = \<lparr> interfere = (\<lambda>_ h. h), ws_raises = (\<lambda>_ _. False), uuid_hex = (\<lambda>n. ''u'' @ show_nat n), monotonic = int,
     float_repr = (\<lambda>s. s), recursion_limit = 1000, iter_set = (\<lambda>xs. xs), py_str = dumps, server_version = ''1'' \<rparr>"

definition sample_conn :: "string \<Rightarrow> nat \<Rightarrow> NodeConnection" where
  "sample_conn c s = \<lparr> nc_node_id = ''n1'', nc_conn_id = c, nc_websocket = s, nc_wake = Some \<lparr> ms_open = True, ms_items = 0 \<rparr>,
     nc_last_pushed_hash = None, nc_last_seen_touched_at = None, nc_agent_version = [] \<rparr>"

definition busy_hub :: hub where
  "busy_hub = \<lparr> hub_world = start_world ledger_db, by_node = [(''n1'', [''a'', ''b'', ''c'', ''d''])],
     conns = [''a'' \<mapsto> sample_conn ''a'' 1, ''b'' \<mapsto> sample_conn ''b'' 2, ''c'' \<mapsto> sample_conn ''c'' 3, ''d'' \<mapsto> sample_conn ''d'' 4, ''e'' \<mapsto> sample_conn ''e'' 5],
     sockets = (\<lambda>_. [WsAccept]), awaits = 0, ids = 0 \<rparr>"

lemma calm_considerate: "considerate calm_env"
  by (auto simp: considerate_def calm_env_def hub_goes_on_def)

lemma busy_registry_ok: "registry_ok busy_hub"
  by (simp add: registry_ok_def busy_hub_def sample_conn_def)


end
