(* ===== verification/Hub.thy ===== *)
theory Hub
  imports Registry
begin

text \<open>
  The second half of \<open>ws_hub.py\<close>: the life of one connection, from the handshake to the last frame,
  and the watcher that turns rows of the notification queue into pushes and disconnects. Every
  service runs in a worker thread on a database connection of its own and is one step here;
  between two awaited calls nothing else happens.
\<close>

section \<open>Authentication\<close>

record AuthResult =
  ar_ok :: bool
  ar_node_id :: string
  ar_close_code :: int
  ar_err_code :: string
  ar_message :: string

definition extract_bearer :: "string option \<Rightarrow> string option" where
  "extract_bearer header_value = (case header_value of
     None \<Rightarrow> None
   | Some v \<Rightarrow> if v = [] then None
       else case partition_at CHR '' '' v of (scheme, _, token) \<Rightarrow>
         if lower scheme \<noteq> ''bearer'' \<or> strip token = [] then None else Some (strip token))"

definition authenticate_sync :: "string \<Rightarrow> string \<Rightarrow> AuthResult wop" where
  "authenticate_sync token node_id = bnd (with_db (managed_authenticate token)) (\<lambda>node. ret (case node of
     None \<Rightarrow> \<lparr> ar_ok = False, ar_node_id = [], ar_close_code = CLOSE_UNAUTHORIZED, ar_err_code = ERR_UNAUTHORIZED,
       ar_message = ''token is invalid'' \<rparr>
   | Some m \<Rightarrow> if mn_node_id m \<noteq> node_id
       then \<lparr> ar_ok = False, ar_node_id = [], ar_close_code = CLOSE_FORBIDDEN, ar_err_code = ERR_FORBIDDEN,
         ar_message = ''node_id does not match the token'' \<rparr>
       else \<lparr> ar_ok = True, ar_node_id = mn_node_id m, ar_close_code = CLOSE_UNAUTHORIZED, ar_err_code = ERR_UNAUTHORIZED,
         ar_message = [] \<rparr>))"

definition reject :: "hub_env \<Rightarrow> nat \<Rightarrow> int \<Rightarrow> string \<Rightarrow> string \<Rightarrow> unit hop" where
  "reject E ws code err_code message =
     bnd (suppress (bnd (build_error E err_code message None) (\<lambda>e. ws_do E ws (WsSend (encode e))))) (\<lambda>_.
     suppress (ws_do E ws (WsClose code)))"

definition hub_decode :: "hub_env \<Rightarrow> string \<Rightarrow> Envelope hop" where
  "hub_decode E raw = bnd (in_world now_iso) (\<lambda>now. lift_result (decode (float_repr E) (recursion_limit E) now raw))"

fun is_envelope_error :: "exn \<Rightarrow> bool" where
  "is_envelope_error (EnvelopeError _) = True"
| "is_envelope_error _ = False"

text \<open>
  What \<open>receive_text\<close> under the timeout of the handshake comes to; \<open>HelloGone\<close> is when it raises, because
  the node has gone or because the frame is binary.
\<close>

datatype hello_in = HelloTimeout | HelloGone | HelloFrame string

text \<open>\<open>try: x = m except c as exc: <left>; else x\<close>, for handlers that leave the function.\<close>

definition attempt :: "'a hop \<Rightarrow> (exn \<Rightarrow> bool) \<Rightarrow> (exn + 'a) hop" where
  "attempt m c = try_except (bnd m (\<lambda>x. ret (Inr x))) (\<lambda>e. if c e then ret (Inl e) else raise e)"

definition await_hello :: "hub_env \<Rightarrow> nat \<Rightarrow> hello_in \<Rightarrow> Envelope option hop" where
  "await_hello E ws inp = bnd (awaited E (ret ())) (\<lambda>_. case inp of
     HelloTimeout \<Rightarrow> bnd (reject E ws CLOSE_HANDSHAKE_TIMEOUT ERR_BAD_ENVELOPE ''no hello in time'') (\<lambda>_. ret None)
   | HelloGone \<Rightarrow> ret None
   | HelloFrame raw \<Rightarrow> bnd (attempt (hub_decode E raw) is_envelope_error) (\<lambda>r. case r of
       Inl exc \<Rightarrow> bnd (reject E ws CLOSE_HANDSHAKE_TIMEOUT ERR_BAD_ENVELOPE (str_exn exc)) (\<lambda>_. ret None)
     | Inr e \<Rightarrow>
         if env_v e \<noteq> PROTOCOL_VERSION
         then bnd (reject E ws CLOSE_VERSION_MISMATCH ERR_VERSION_MISMATCH ''protocol version mismatch'') (\<lambda>_. ret None)
         else if env_type e \<noteq> MSG_HELLO
         then bnd (reject E ws CLOSE_HANDSHAKE_TIMEOUT ERR_UNKNOWN_TYPE ''the first message must be hello'') (\<lambda>_. ret None)
         else ret (Some e)))"

section \<open>Pushing the desired state\<close>

definition sha_of :: "((string \<Rightarrow> string) \<Rightarrow> 'a wop) \<Rightarrow> 'a wop" where
  "sha_of f = bnd (read_state (\<lambda>w. sha256_hex (env w))) f"

definition fingerprint_thread :: "hub_env \<Rightarrow> string \<Rightarrow> DesiredFingerprint hop" where
  "fingerprint_thread E n = to_thread E (sha_of (\<lambda>sha. compute_desired_fingerprint sha n))"

definition build_thread :: "hub_env \<Rightarrow> string \<Rightarrow> DesiredState hop" where
  "build_thread E n = to_thread E (sha_of (\<lambda>sha. build_desired_state sha n True 50))"

definition current_revision :: "string \<Rightarrow> string option wop" where
  "current_revision n = with_db (bnd (get_pin n) (\<lambda>pin. case pin of
     Some p \<Rightarrow> ret (Some (cr_revision p)) | None \<Rightarrow> latest_revision n))"

definition send_hello_ack :: "hub_env \<Rightarrow> string \<Rightarrow> json \<Rightarrow> string \<Rightarrow> bool hop" where
  "send_hello_ack E c cached_revision r =
     bnd (the_conn c) (\<lambda>conn.
     bnd (fingerprint_thread E (nc_node_id conn)) (\<lambda>fingerprint.
     bnd (to_thread E (current_revision (nc_node_id conn))) (\<lambda>revision.
     let in_sync = (case (cached_revision, revision) of (JStr s, Some v) \<Rightarrow> s = v | _ \<Rightarrow> False)
     in bnd (if in_sync then update_conn c (\<lambda>x. x\<lparr> nc_last_pushed_hash := Some (df_content_hash fingerprint) \<rparr>) else ret ()) (\<lambda>_.
        bnd (build_envelope E MSG_HELLO_ACK
               [(''node_id'', JStr (nc_node_id conn)), (''server_version'', JStr (server_version E)),
                (''revision'', json_opt revision), (''in_sync'', JBool in_sync)] (Some r)) (\<lambda>e.
        bnd (send E c e) (\<lambda>_. ret in_sync))))))"

definition push_payload :: "DesiredState \<Rightarrow> jdict result" where
  "push_payload st = bindR (desired_to_dict st) (\<lambda>d.
     Inr [(''revision'', ds_revision st), (''generated_at'', ds_generated_at st), (''desired'', JObj d)])"

definition maybe_push_desired :: "hub_env \<Rightarrow> string \<Rightarrow> bool \<Rightarrow> string option \<Rightarrow> unit hop" where
  "maybe_push_desired E c force r =
     bnd (the_conn c) (\<lambda>conn0.
     bnd (fingerprint_thread E (nc_node_id conn0)) (\<lambda>fingerprint.
     bnd (the_conn c) (\<lambda>conn.
     if \<not> force \<and> Some (df_content_hash fingerprint) = nc_last_pushed_hash conn then ret ()
     else
       bnd (build_thread E (nc_node_id conn)) (\<lambda>st.
       bnd (lift_result (push_payload st)) (\<lambda>payload.
       bnd (build_envelope E MSG_DESIRED_PUSH payload r) (\<lambda>e.
       bnd (send E c e) (\<lambda>_.
       update_conn c (\<lambda>x. x\<lparr> nc_last_pushed_hash := Some (df_content_hash fingerprint) \<rparr>))))))))"

text \<open>
  The loop over the wake stream, for the first \<open>k\<close> items the stream delivers: what the other
  tasks do while the loop waits ends when there is an item.
\<close>

definition take_wake :: "string \<Rightarrow> unit hop" where
  "take_wake c = update_conn c (\<lambda>x. x\<lparr> nc_wake := map_option (\<lambda>s. s\<lparr> ms_items := ms_items s - 1 \<rparr>) (nc_wake x) \<rparr>)"

fun pusher_loop :: "hub_env \<Rightarrow> string \<Rightarrow> nat \<Rightarrow> unit hop" where
  "pusher_loop E c 0 = ret ()"
| "pusher_loop E c (Suc k) = bnd (the_conn c) (\<lambda>conn.
     if nc_wake conn = None then ret ()
     else bnd (awaited E (take_wake c)) (\<lambda>_.
          bnd (suppress (maybe_push_desired E c False None)) (\<lambda>_.
          pusher_loop E c k)))"

section \<open>Frames of a node\<close>

definition LAST_SEEN_THROTTLE_SECONDS :: int where "LAST_SEEN_THROTTLE_SECONDS = 60"

definition touch_last_seen :: "hub_env \<Rightarrow> string \<Rightarrow> unit hop" where
  "touch_last_seen E c =
     bnd (read_state (\<lambda>h. monotonic E (awaits h))) (\<lambda>now.
     bnd (the_conn c) (\<lambda>conn.
     if (case nc_last_seen_touched_at conn of None \<Rightarrow> False | Some t \<Rightarrow> now - t < LAST_SEEN_THROTTLE_SECONDS * 10 ^ 9) then ret ()
     else
       bnd (update_conn c (\<lambda>x. x\<lparr> nc_last_seen_touched_at := Some now \<rparr>)) (\<lambda>_.
       suppress (to_thread E (with_db (managed_touch_last_seen (nc_node_id conn)))))))"

definition send_error :: "hub_env \<Rightarrow> string \<Rightarrow> string \<Rightarrow> string \<Rightarrow> string option \<Rightarrow> unit hop" where
  "send_error E c code message r = bnd (build_error E code message r) (send E c)"

text \<open>The fields of a request, when they have the types the handlers ask for.\<close>

definition proposal_request :: "Envelope \<Rightarrow> (string \<times> jdict \<times> string) option" where
  "proposal_request e =
     (case (dict_get_value (env_payload e) ''kind'', dict_get_value (env_payload e) ''payload'',
            get_or (env_payload e) ''source'' (JStr ''push'')) of
        (JStr kind, JObj payload, JStr source) \<Rightarrow> Some (kind, payload, source) | _ \<Rightarrow> None)"

definition report_request :: "Envelope \<Rightarrow> (string \<times> jdict) option" where
  "report_request e =
     (case (dict_get_value (env_payload e) ''kind'', dict_get_value (env_payload e) ''payload'') of
        (JStr kind, JObj payload) \<Rightarrow> Some (kind, payload) | _ \<Rightarrow> None)"

definition handle_proposal :: "hub_env \<Rightarrow> string \<Rightarrow> Envelope \<Rightarrow> AppConfig option \<Rightarrow> unit hop" where
  "handle_proposal E c e config = (case proposal_request e of
     None \<Rightarrow> send_error E c ERR_PAYLOAD_INVALID ''proposal_submit needs kind, payload, source'' (Some (env_id e))
   | Some (kind, payload, source) \<Rightarrow>
       bnd (the_conn c) (\<lambda>conn.
       bnd (attempt (to_thread E (submit_proposal config (nc_node_id conn) source kind (JObj payload))) is_dn42ctl_error) (\<lambda>r. case r of
         Inl exc \<Rightarrow> send_error E c ERR_SERVICE_ERROR (str_exn exc) (Some (env_id e))
       | Inr p \<Rightarrow>
           bnd (build_ack E [(''proposal_id'', JInt (int (cp_id p))), (''status'', JStr (cp_status p))] (env_id e)) (\<lambda>a.
           bnd (send E c a) (\<lambda>_. touch_last_seen E c)))))"

definition handle_report :: "hub_env \<Rightarrow> string \<Rightarrow> Envelope \<Rightarrow> unit hop" where
  "handle_report E c e = (case report_request e of
     None \<Rightarrow> send_error E c ERR_PAYLOAD_INVALID ''report_submit needs kind, payload'' (Some (env_id e))
   | Some (kind, payload) \<Rightarrow>
       bnd (the_conn c) (\<lambda>conn.
       bnd (attempt (to_thread E (submit_report (nc_node_id conn) kind (JObj payload))) is_dn42ctl_error) (\<lambda>r. case r of
         Inl exc \<Rightarrow> send_error E c ERR_SERVICE_ERROR (str_exn exc) (Some (env_id e))
       | Inr p \<Rightarrow>
           bnd (build_ack E [(''report_id'', JInt (int (nr_id p))), (''received_at'', JStr (nr_received_at p))] (env_id e)) (\<lambda>a.
           bnd (send E c a) (\<lambda>_. touch_last_seen E c)))))"

definition dispatch :: "hub_env \<Rightarrow> string \<Rightarrow> AppConfig option \<Rightarrow> string \<Rightarrow> unit hop" where
  "dispatch E c config raw = bnd (attempt (hub_decode E raw) is_envelope_error) (\<lambda>r. case r of
     Inl exc \<Rightarrow> send_error E c ERR_BAD_ENVELOPE (str_exn exc) None
   | Inr e \<Rightarrow>
       if env_v e \<noteq> PROTOCOL_VERSION then send_error E c ERR_VERSION_MISMATCH ''protocol version mismatch'' (Some (env_id e))
       else if env_type e = MSG_PING then
         bnd (build_envelope E MSG_PONG [] (Some (env_id e))) (\<lambda>p. bnd (send E c p) (\<lambda>_. touch_last_seen E c))
       else if env_type e = MSG_DESIRED_REQUEST then maybe_push_desired E c True (Some (env_id e))
       else if env_type e = MSG_PROPOSAL_SUBMIT then handle_proposal E c e config
       else if env_type e = MSG_REPORT_SUBMIT then handle_report E c e
       else send_error E c ERR_UNKNOWN_TYPE ''unknown message type'' (Some (env_id e)))"

text \<open>
  The loop over the frames the node sends, until the connection ends or a frame is no text: then
  \<open>receive_text\<close> raises and the loop returns.
\<close>

datatype frame_in = Text string | Binary

definition handle_frame :: "hub_env \<Rightarrow> string \<Rightarrow> AppConfig option \<Rightarrow> string \<Rightarrow> unit hop" where
  "handle_frame E c config raw = try_except (dispatch E c config raw)
     (\<lambda>_. suppress (send_error E c ERR_INTERNAL ''internal server error'' None))"

fun reader_loop :: "hub_env \<Rightarrow> string \<Rightarrow> AppConfig option \<Rightarrow> frame_in list \<Rightarrow> unit hop" where
  "reader_loop E c config [] = awaited E (ret ())"
| "reader_loop E c config (Binary # raws) = awaited E (ret ())"
| "reader_loop E c config (Text raw # raws) = bnd (awaited E (ret ())) (\<lambda>_. bnd (handle_frame E c config raw) (\<lambda>_. reader_loop E c config raws))"

section \<open>One connection\<close>

definition finally_do :: "'a hop \<Rightarrow> unit hop \<Rightarrow> 'a hop" where
  "finally_do m f = (\<lambda>h. case m h of (r, h1) \<Rightarrow> (case f h1 of (Inl e, h2) \<Rightarrow> (Inl e, h2) | (Inr _, h2) \<Rightarrow> (r, h2)))"

definition create_connection :: "hub_env \<Rightarrow> string \<Rightarrow> nat \<Rightarrow> string hop" where
  "create_connection E node_id ws = bnd (new_id E) (\<lambda>c.
     bnd (modify_state (\<lambda>h. h\<lparr> conns := (conns h)(c := Some
       \<lparr> nc_node_id = node_id, nc_conn_id = c, nc_websocket = ws, nc_wake = Some \<lparr> ms_open = True, ms_items = 0 \<rparr>,
         nc_last_pushed_hash = None, nc_last_seen_touched_at = None, nc_agent_version = [] \<rparr>) \<rparr>)) (\<lambda>_. ret c))"

definition close_streams :: "string \<Rightarrow> unit hop" where
  "close_streams c = update_conn c (\<lambda>x. x\<lparr> nc_wake := map_option (\<lambda>s. s\<lparr> ms_open := False \<rparr>) (nc_wake x) \<rparr>)"

text \<open>From the hello on. The task of \<open>_pusher_loop\<close> runs beside the reader, as one of the others.\<close>

definition established :: "hub_env \<Rightarrow> string \<Rightarrow> AppConfig option \<Rightarrow> Envelope \<Rightarrow> frame_in list \<Rightarrow> unit hop" where
  "established E c config hello raws =
     bnd (update_conn c (\<lambda>x. x\<lparr> nc_agent_version := (let v = dict_get_value (env_payload hello) ''agent_version'' in if json_truthy v then py_str E v else []) \<rparr>)) (\<lambda>_.
     bnd (register E c) (\<lambda>_.
     finally_do
       (bnd (send_hello_ack E c (dict_get_value (env_payload hello) ''cached_revision'') (env_id hello)) (\<lambda>in_sync.
        bnd (if in_sync then ret () else maybe_push_desired E c True None) (\<lambda>_.
        reader_loop E c config raws)))
       (bnd (unregister E c) (\<lambda>_. close_streams c))))"

definition serve_node_connection ::
  "hub_env \<Rightarrow> nat \<Rightarrow> string \<Rightarrow> AppConfig option \<Rightarrow> string option \<Rightarrow> hello_in \<Rightarrow> frame_in list \<Rightarrow> unit hop" where
  "serve_node_connection E ws node_id config header inp raws =
     bnd (ws_do E ws WsAccept) (\<lambda>_.
     case extract_bearer header of
       None \<Rightarrow> reject E ws CLOSE_UNAUTHORIZED ERR_UNAUTHORIZED ''missing Bearer token''
     | Some token \<Rightarrow>
         bnd (to_thread E (authenticate_sync token node_id)) (\<lambda>auth.
         if \<not> ar_ok auth then reject E ws (ar_close_code auth) (ar_err_code auth) (ar_message auth)
         else bnd (attempt (to_thread E (require_managed_node_exists node_id)) is_dn42ctl_error) (\<lambda>r. case r of
           Inl exc \<Rightarrow> reject E ws CLOSE_NOT_FOUND ERR_NOT_FOUND (str_exn exc)
         | Inr _ \<Rightarrow>
             bnd (create_connection E node_id ws) (\<lambda>c.
             bnd (await_hello E ws inp) (\<lambda>hello. case hello of
               None \<Rightarrow> ret ()
             | Some e \<Rightarrow> established E c config e raws)))))"

section \<open>The watcher\<close>

definition WATCHER_BATCH :: nat where "WATCHER_BATCH = 500"

definition read_latest_id :: "nat wop" where
  "read_latest_id = with_db latest_id"

definition fetch_events :: "nat \<Rightarrow> SyncEvent list wop" where
  "fetch_events last_id = with_db (fetch_since last_id WATCHER_BATCH)"

definition event_nodes :: "string \<Rightarrow> SyncEvent list \<Rightarrow> string list" where
  "event_nodes kind es = remdups (map se_node_id (filter (\<lambda>e. se_kind e = kind) es))"

definition react :: "hub_env \<Rightarrow> SyncEvent list \<Rightarrow> unit hop" where
  "react E es =
     (let revoked = event_nodes SYNC_EVENT_ACCESS_REVOKED es;
          changed = event_nodes SYNC_EVENT_DESIRED es
      in bnd (for_each (\<lambda>n. close_node E n CLOSE_REVOKED ERR_REVOKED ''access revoked'') (iter_set E revoked)) (\<lambda>_.
         for_each (notify E) (iter_set E (filter (\<lambda>n. n \<notin> set revoked) changed))))"

text \<open>
  One round of the loop: the cursor afterwards. \<open>configured\<close> tells whether the application has a
  database path yet; an exception ends the round and the cursor stays what it was assigned last.
\<close>

definition watcher_tick :: "hub_env \<Rightarrow> bool \<Rightarrow> nat option \<Rightarrow> nat option hop" where
  "watcher_tick E configured last_id =
     bnd (awaited E (ret ())) (\<lambda>_.
     if \<not> configured then ret last_id
     else case last_id of
       None \<Rightarrow> try_except (bnd (to_thread E read_latest_id) (\<lambda>i. ret (Some i))) (\<lambda>_. ret None)
     | Some cursor \<Rightarrow>
         bnd (attempt (to_thread E (fetch_events cursor)) (\<lambda>_. True)) (\<lambda>r. case r of
           Inl _ \<Rightarrow> ret (Some cursor)
         | Inr es \<Rightarrow>
             if es = [] then ret (Some cursor)
             else bnd (suppress (react E es)) (\<lambda>_. ret (Some (Max (set (map se_id es)))))))"

fun watcher_rounds :: "hub_env \<Rightarrow> nat option \<Rightarrow> bool list \<Rightarrow> nat option hop" where
  "watcher_rounds E last_id [] = ret last_id"
| "watcher_rounds E last_id (b # bs) = bnd (watcher_tick E b last_id) (\<lambda>i. watcher_rounds E i bs)"

definition run_sync_watcher :: "hub_env \<Rightarrow> bool \<Rightarrow> bool list \<Rightarrow> nat option hop" where
  "run_sync_watcher E configured rounds =
     bnd (if configured then try_except (bnd (to_thread E read_latest_id) (\<lambda>i. ret (Some i))) (\<lambda>_. ret None) else ret None) (\<lambda>last_id.
     watcher_rounds E last_id rounds)"

end
