(* ===== verification/Hub_Scope.thy ===== *)
theory Hub_Scope
  imports Hub
begin

text \<open>
  What a node can reach over its connection: every service the hub runs for a frame keeps to the rows
  of the node the connection was authenticated for.
\<close>

section \<open>The scope of a node\<close>

definition unseen :: "string \<Rightarrow> ManagedNode \<Rightarrow> ManagedNode" where
  "unseen n m = (if mn_node_id m = n then m\<lparr> mn_last_seen_at := None \<rparr> else m)"

text \<open>
  Its own row of \<open>nodes\<close>, its own peers, proposals, reports, recorded revisions, notifications and the
  time it was last seen; no pin, no policy, no token and nothing of another node.
\<close>

definition node_scope :: "string \<Rightarrow> database \<Rightarrow> database \<Rightarrow> bool" where
  "node_scope n d d' \<longleftrightarrow>
     filter (\<lambda>r. n_node_id r \<noteq> n) (nodes d') = filter (\<lambda>r. n_node_id r \<noteq> n) (nodes d)
   \<and> filter (\<lambda>r. p_node_id r \<noteq> n) (bgp_peers d') = filter (\<lambda>r. p_node_id r \<noteq> n) (bgp_peers d)
   \<and> filter (\<lambda>r. p_node_id r \<noteq> n) (ibgp_peers d') = filter (\<lambda>r. p_node_id r \<noteq> n) (ibgp_peers d)
   \<and> filter (\<lambda>p. cp_node_id p \<noteq> n) (config_proposals d') = filter (\<lambda>p. cp_node_id p \<noteq> n) (config_proposals d)
   \<and> filter (\<lambda>r. nr_node_id r \<noteq> n) (node_reports d') = filter (\<lambda>r. nr_node_id r \<noteq> n) (node_reports d)
   \<and> filter (\<lambda>r. cr_node_id r \<noteq> n) (config_revisions d') = filter (\<lambda>r. cr_node_id r \<noteq> n) (config_revisions d)
   \<and> map (unseen n) (managed_nodes d') = map (unseen n) (managed_nodes d)
   \<and> node_desired_pin d' = node_desired_pin d
   \<and> set (sync_events d') \<subseteq> set (sync_events d) \<union> {e. se_node_id e = n}
   \<and> db_schema d' = db_schema d \<and> db_indexes d' = db_indexes d \<and> schema_migrations d' = schema_migrations d"

lemma node_scope_refl: "node_scope n d d"
  by (simp add: node_scope_def)

lemma node_scope_trans: "node_scope n d d' \<Longrightarrow> node_scope n d' d'' \<Longrightarrow> node_scope n d d''"
  by (auto simp: node_scope_def)

interpretation scope: frame "node_scope n" for n
  by unfold_locales (auto simp: node_scope_refl node_scope_def migrated_def has_table_def intro: node_scope_trans)

definition sound :: "world \<Rightarrow> bool" where
  "sound w \<longleftrightarrow> tx w = None \<and> migrated (disk w) \<and> wf_db (disk w)"

definition stays :: "string \<Rightarrow> 'a wop \<Rightarrow> bool" where
  "stays n m \<longleftrightarrow> (\<forall>w. sound w \<longrightarrow> sound (snd (m w)) \<and> node_scope n (disk w) (disk (snd (m w))))"

lemma staysI:
  assumes "within (node_scope n) m" and "preserves (on_world wf_db) m"
  shows "stays n m"
  unfolding stays_def
proof (intro allI impI)
  fix w
  assume w: "sound w"
  then have "node_scope n (disk w) (disk (snd (m w)))" "tx (snd (m w)) = None"
    using withinD [OF assms(1)] by (auto simp: sound_def)
  moreover have "on_world wf_db (snd (m w))" using preservesD [OF assms(2)] w by (simp add: sound_def on_world_def view_def)
  ultimately show "sound (snd (m w)) \<and> node_scope n (disk w) (disk (snd (m w)))"
    using w scope.K_migrated by (auto simp: sound_def on_world_def)
qed

lemma staysD: "stays n m \<Longrightarrow> sound w \<Longrightarrow> m w = (r, w') \<Longrightarrow> sound w' \<and> node_scope n (disk w) (disk w')"
  using snd_conv [of r w'] by (auto simp: stays_def dest!: spec [where x = w])

lemma stays_bnd:
  assumes "stays n m" and "\<And>x. stays n (f x)"
  shows "stays n (bnd m f)"
  unfolding stays_def
proof (intro allI impI)
  fix w
  assume w: "sound w"
  obtain r w1 where m: "m w = (r, w1)" by (cases "m w")
  note 1 = staysD [OF assms(1) w m]
  show "sound (snd (bnd m f w)) \<and> node_scope n (disk w) (disk (snd (bnd m f w)))"
  proof (cases r)
    case (Inr x)
    obtain r2 w2 where f: "f x w1 = (r2, w2)" by (cases "f x w1")
    have "sound w2" "node_scope n (disk w1) (disk w2)" using staysD [OF assms(2) _ f] 1 by auto
    then show ?thesis using m f Inr 1 by (simp add: bnd_def) (blast intro: node_scope_trans)
  qed (use m 1 in \<open>simp add: bnd_def\<close>)
qed

lemma scope_confined:
  "peers_only n d d' \<Longrightarrow> node_scope n d d'"
  "insert_proposal n s k pl now d = Inr (i, d') \<Longrightarrow> node_scope n d d'"
  "insert_report n k pl now d = Inr (i, d') \<Longrightarrow> node_scope n d d'"
  "insert_revision n rv gen pl d = Inr (i, d') \<Longrightarrow> node_scope n d d'"
  "trim_revisions n kp d = Inr (c, d') \<Longrightarrow> node_scope n d d'"
  by (auto simp: node_scope_def peers_only_def confined_def insert_proposal_def insert_report_def insert_revision_def trim_revisions_def
      trimmed_out_def Let_def simp del: filter_filter intro!: filter_filter_same split: if_splits)

lemma preserves_with_db [preserve]: "preserves (on_world wf_db) m \<Longrightarrow> preserves (on_world wf_db) (with_db m)"
  unfolding with_db_def closing_def by (intro preserve) 

lemma wf_own:
  assumes "submitted n s k pl d p m d0" and "wf_db d"
  shows "\<forall>q \<in> set (config_proposals d0). cp_id q = cp_id p \<longrightarrow> cp_node_id q = n"
proof -
  note row = submitted_row [OF assms(2,1)]
  have "\<forall>q \<in> set (config_proposals d). cp_id q \<le> proposals_seq d" using assms(2) by (auto simp: wf_defs ids_ok_def)
  with row(2,6,11) show ?thesis by auto
qed

lemma decided_scope:
  assumes "decided i st msg d d'" and "\<forall>q \<in> set (config_proposals d). cp_id q = i \<longrightarrow> cp_node_id q = n"
  shows "node_scope n d d'"
proof -
  from assms(1) obtain now where d': "d' = d\<lparr> config_proposals := map (\<lambda>p. if cp_id p = i then p\<lparr> cp_status := st, cp_decided_at := Some now, cp_message := msg \<rparr> else p) (config_proposals d) \<rparr>"
    by (auto simp: decided_def update_proposal_def)
  have "filter (\<lambda>p. cp_node_id p \<noteq> n) (config_proposals d') = filter (\<lambda>p. cp_node_id p \<noteq> n) (config_proposals d)"
    unfolding d' using assms(2) by (simp, intro filter_map_same) auto
  then show ?thesis by (simp add: node_scope_def d')
qed

lemma scope_decided:
  assumes "peers_only (target c n) d d1" and "decided i st msg d1 d'" and "n \<noteq> []"
    and "\<forall>q \<in> set (config_proposals d). cp_id q = i \<longrightarrow> cp_node_id q = n"
  shows "node_scope n d d'"
proof -
  have "config_proposals d1 = config_proposals d" using assms(1) by (simp add: peers_only_def)
  then show ?thesis using decided_scope [OF assms(2)] assms(1,3,4) scope_confined(1) node_scope_trans by (simp, blast)
qed

lemma scope_submit:
  assumes "wf_db d" and "n \<noteq> []"
  shows "submit_result config n s k pl d q d' \<Longrightarrow> node_scope n d d'" and "submit_stopped config n s k pl d d' \<Longrightarrow> node_scope n d d'"
proof -
  have s: "node_scope n d d0" if "submitted n s k pl d p m d0" for p m d0
    using that by (auto simp: submitted_def intro: scope_confined)
  have a: "node_scope n d d'" if "submitted n s k pl d p m d0" "auto_applied c p d0 q d'" for c p m d0
    using node_scope_trans [OF s [OF that(1)]] that(2) scope_decided [OF _ _ assms(2) wf_own [OF that(1) assms(1)]] submitted_row(2) [OF assms(1) that(1)]
    by (auto simp: auto_applied_def applied_def)
  have b: "node_scope n d d'" if "submitted n s k pl d p m d0" "auto_stopped c p d0 d'" for c p m d0
    using that(2)
  proof cases
    case undecided
    then show ?thesis using node_scope_trans [OF s [OF that(1)] scope_confined(1)] submitted_row(2) [OF assms(1) that(1)] assms(2) by simp
  next
    case (recorded_only d1 st m')
    then show ?thesis
      using node_scope_trans [OF s [OF that(1)] scope_decided [OF _ _ assms(2) wf_own [OF that(1) assms(1)]]] submitted_row(2) [OF assms(1) that(1)] by simp
  qed
  show "submit_result config n s k pl d q d' \<Longrightarrow> node_scope n d d'"
    using a s by (fastforce simp: submit_result_def split: option.splits if_splits)
  show "submit_stopped config n s k pl d d' \<Longrightarrow> node_scope n d d'"
    by (erule submit_stopped.cases) (auto intro: node_scope_refl scope_confined b)
qed

lemma preserves_peer_changes [preserve]:
  "preserves (on_world wf_db) (apply_proposal c p)"
  unfolding apply_proposal_def apply_peer_add_def apply_peer_modify_def apply_peer_delete_def create_bgp_from_def create_ibgp_from_def Let_def
  by (auto intro!: preserve)

lemma preserves_submit [preserve]:
  "preserves (on_world wf_db) (submit_proposal config n s k payload)" "preserves (on_world wf_db) (submit_report n k payload)"
proof -
  note reads = preserves_read_only [OF read_only_managed(1)]
  show "preserves (on_world wf_db) (submit_proposal config n s k payload)"
    unfolding submit_proposal_def try_auto_accept_def by (cases payload) (auto intro!: preserve reads)
  show "preserves (on_world wf_db) (submit_report n k payload)"
    unfolding submit_report_def by (cases payload) (auto intro!: preserve reads)
qed

section \<open>The services of the hub\<close>

named_theorems staying \<open>services that keep to the rows of one node\<close>

lemma stays_submit [staying]:
  assumes "n \<noteq> []"
  shows "stays n (submit_proposal config n s k (JObj pl))"
  unfolding stays_def
proof (intro allI impI)
  fix w
  assume w: "sound w"
  obtain r w' where m: "submit_proposal config n s k (JObj pl) w = (r, w')" by (cases "submit_proposal config n s k (JObj pl) w")
  note o = outcomeD [OF outcome_submit _ m] 
  have tx: "tx w' = None" and sc: "node_scope n (disk w) (disk w')"
    using o(1) o(2,3) w scope_submit [OF _ assms] by (auto simp: sound_def) (cases r, auto simp: sound_def)
  have "on_world wf_db w'"
    using preservesD [OF preserves_submit(1)] m w by (metis on_world_def sound_def snd_conv view_no_tx)
  then show "sound (snd (submit_proposal config n s k (JObj pl) w)) \<and> node_scope n (disk w) (disk (snd (submit_proposal config n s k (JObj pl) w)))"
    using m tx sc scope.K_migrated w by (auto simp: sound_def on_world_def)
qed

lemma stays_report [staying]: "stays n (submit_report n k (JObj pl))"
proof (rule staysI)
  have "within (node_scope n) (report_add n k pl)"
    by (rule within_outcome, rule outcome_report_add) (auto intro: node_scope_refl scope_confined)
  then show "within (node_scope n) (submit_report n k (JObj pl))"
    unfolding submit_report_def using scope.quiet [OF read_only_managed(1)] by (auto intro!: scope.rules)
qed (rule preserve)

lemma stays_read: "read_only m \<Longrightarrow> stays n (with_db m)"
  by (rule staysI, intro scope.with_database scope.quiet, assumption, intro preserve preserves_read_only)

lemma stays_now [staying]: "stays n now_iso"
  by (rule staysI, rule scope.quiet, rule read_only_now, rule preserve)

lemma stays_basic [staying]: "stays n (ret x)" "stays n (raise e)" "stays n (lift_result r)" "stays n (read_state f)"
  by (simp_all add: stays_def ret_def raise_def lift_result_def read_state_def node_scope_refl)

lemma stays_option [staying]: "stays n m \<Longrightarrow> (\<And>y. stays n (f y)) \<Longrightarrow> stays n (case x of None \<Rightarrow> m | Some y \<Rightarrow> f y)"
  by (cases x) auto

lemma stays_prod [staying]: "(\<And>y z. stays n (f y z)) \<Longrightarrow> stays n (case x of (y, z) \<Rightarrow> f y z)"
  by (cases x) auto

lemma read_only_options: "read_only m \<Longrightarrow> (\<And>y. read_only (f y)) \<Longrightarrow> read_only (case x of None \<Rightarrow> m | Some y \<Rightarrow> f y)"
  by (cases x) auto

lemma stays_reads [staying]:
  "stays n (current_revision m)" "stays n (authenticate_sync t m)" "stays n (require_managed_node_exists m)"
  "stays n (compute_desired_fingerprint sha m)" "stays n read_latest_id" "stays n (fetch_events i)"
  unfolding current_revision_def authenticate_sync_def require_managed_node_exists_def compute_desired_fingerprint_def read_latest_id_def
    fetch_events_def load_node_block_def
  by (intro stays_bnd stays_read staying read_only_bnd read_only_options read_only_ret read_only_managed read_only_stores read_only_methods)+

lemma scope_built:
  "recorded n rv gen pl d d' \<Longrightarrow> node_scope n d d'" "part_built n rv gen pl k d d' \<Longrightarrow> node_scope n d d'"
  "built n rv gen pl k d rv' gen' d' \<Longrightarrow> node_scope n d d'"
proof -
  show r: "node_scope n d d'" if "recorded n rv gen pl d d'" for d'
    using that by (auto simp: recorded_def intro: node_scope_refl scope_confined)
  show "part_built n rv gen pl k d d' \<Longrightarrow> node_scope n d d'"
    by (induction rule: part_built.induct) (auto intro: node_scope_refl r node_scope_trans scope_confined)
  show "built n rv gen pl k d rv' gen' d' \<Longrightarrow> node_scope n d d'"
    by (auto simp: built_def intro: node_scope_refl r node_scope_trans scope_confined split: if_splits)
qed

lemma preserves_build [preserve]: "preserves (on_world wf_db) (build_desired_state sha n r k)"
proof -
  have rec: "preserves (on_world wf_db) (record_desired n rv gen bgp ibgp block k)" for rv gen bgp ibgp block
    unfolding record_desired_def
    by (intro preserve preserves_read_only read_only_methods read_only_managed read_only_stores read_only_bnd read_only_options read_only_ret)
  show ?thesis
    unfolding build_desired_state_def load_node_block_def Let_def split_beta
    by (intro rec preserve preserves_read_only read_only_methods read_only_managed read_only_stores)
qed

lemma stays_build [staying]: "stays n (build_desired_state sha n True k)"
  by (rule staysI, rule within_outcome, rule outcome_build) (auto simp: Let_def intro: scope_built preserve)

lemma stays_touch [staying]: "stays n (with_db (managed_touch_last_seen n))"
proof (rule staysI)
  have u: "node_scope n d d'" if "update_managed n (\<lambda>m. m\<lparr> mn_last_seen_at := Some now \<rparr>) d = Inr (c, d')" for d d' now c
    using that by (auto simp: update_managed_def node_scope_def unseen_def split: if_splits)
  have "outcome (with_tx (\<lambda>_. msg) (bnd (sql_dml (update_managed n (\<lambda>m. m\<lparr> mn_last_seen_at := Some now \<rparr>))) (\<lambda>_. ret ())))
      (\<lambda>d x d'. node_scope n d d') (\<lambda>d d'. d' = d)" for msg now
  proof (rule outcome_atomic)
    show "op_spec (with_tx (\<lambda>_. msg) (bnd (sql_dml (update_managed n (\<lambda>m. m\<lparr> mn_last_seen_at := Some now \<rparr>))) (\<lambda>_. ret ()))) (\<lambda>d x d'. node_scope n d d')"
      by (rule op_spec_conseq, (rule specs)+) (auto intro: u)
  qed (auto intro!: atomic)
  then have w: "within (node_scope n) (with_tx (\<lambda>_. msg) (bnd (sql_dml (update_managed n (\<lambda>m. m\<lparr> mn_last_seen_at := Some now \<rparr>))) (\<lambda>_. ret ())))" for msg now
    by (rule within_outcome) (auto intro: node_scope_refl)
  show "within (node_scope n) (with_db (managed_touch_last_seen n))"
    unfolding managed_touch_last_seen_def by (intro w scope.rules scope.quiet read_only_now)
qed (intro preserve)

section \<open>Tasks of the hub\<close>

text \<open>
  \<open>owns n C h\<close>: the database is sound, and the connection \<open>C\<close> of the task, once it has one, is a
  connection of node \<open>n\<close>.
\<close>

definition owns :: "string \<Rightarrow> string option \<Rightarrow> hub \<Rightarrow> bool" where
  "owns n C h \<longleftrightarrow> sound (hub_world h) \<and> (\<forall>c. C = Some c \<longrightarrow> (\<exists>x. conns h c = Some x \<and> nc_node_id x = n))"

definition kept :: "string \<Rightarrow> string option \<Rightarrow> hub \<Rightarrow> hub \<Rightarrow> bool" where
  "kept n C h h' \<longleftrightarrow> (owns n C h \<longrightarrow> owns n C h' \<and> node_scope n (disk (hub_world h)) (disk (hub_world h')))"

text \<open>
  The other tasks, the pusher of the connection among them, keep the database sound and keep to the rows of
  the node, and do not give a connection to another node.
\<close>

definition discreet :: "string \<Rightarrow> hub_env \<Rightarrow> bool" where
  "discreet n E \<longleftrightarrow> (\<forall>k h. (sound (hub_world h) \<longrightarrow>
       sound (hub_world (interfere E k h)) \<and> node_scope n (disk (hub_world h)) (disk (hub_world (interfere E k h))))
     \<and> (\<forall>c x. conns h c = Some x \<longrightarrow> (\<exists>y. conns (interfere E k h) c = Some y \<and> nc_node_id y = nc_node_id x)))"

locale scoped_task =
  fixes E :: hub_env and n :: string and C :: "string option"
  assumes others: "discreet n E"

sublocale scoped_task \<subseteq> relying E "kept n C"
proof
  show "kept n C h h" for h by (simp add: kept_def node_scope_refl)
  show "kept n C h h' \<Longrightarrow> kept n C h' h'' \<Longrightarrow> kept n C h h''" for h h' h''
    by (auto simp: kept_def intro: node_scope_trans)
  show "kept n C h (interfere E k h)" for h k
    using others unfolding discreet_def kept_def owns_def by metis
qed (simp_all add: kept_def owns_def sound_def node_scope_refl)

context scoped_task
begin

lemmas task_rules = rules

lemma threads: "stays n m \<Longrightarrow> guar (kept n C) (in_world m)"
  unfolding guar_def
proof
  fix h :: hub
  assume m: "stays n m"
  obtain r w where r: "m (hub_world h) = (r, w)" by (cases "m (hub_world h)")
  show "kept n C h (snd (in_world m h))"
    using staysD [OF m _ r] r by (auto simp: kept_def owns_def in_world_def)
qed

lemma services: "stays n m \<Longrightarrow> guar (kept n C) (to_thread E m)"
  unfolding to_thread_def by (rule waiting, rule threads)

lemma socket: "guar (kept n C) (ws_do E s a)"
  unfolding ws_do_def by (rule waiting) (simp add: guar_def kept_def owns_def node_scope_refl)

lemma objects: "(\<And>x. nc_node_id (f x) = nc_node_id x) \<Longrightarrow> guar (kept n C) (update_conn c f)"
  by (auto simp: guar_def kept_def owns_def update_conn_def modify_state_def node_scope_refl)

lemma registry: "guar (kept n C) (modify_state (\<lambda>h. h\<lparr> by_node := f h \<rparr>))" "guar (kept n C) (enter c)"
  by (simp_all add: guar_def kept_def owns_def modify_state_def enter_def Let_def node_scope_refl)

lemma own_node: "C = Some c \<Longrightarrow> (\<And>x. nc_node_id x = n \<Longrightarrow> guar (kept n C) (f x)) \<Longrightarrow> guar (kept n C) (bnd (the_conn c) f)"
proof -
  assume c: "C = Some c" and f: "\<And>x. nc_node_id x = n \<Longrightarrow> guar (kept n C) (f x)"
  have "kept n C h (snd (f (conn_at h c) h))" for h
  proof (cases "owns n C h")
    case True
    then have "nc_node_id (conn_at h c) = n" using c by (auto simp: owns_def conn_at_def)
    from f [OF this] show ?thesis by (simp add: guar_def)
  qed (simp add: kept_def)
  then show ?thesis by (simp add: guar_def bnd_def the_conn_def read_state_def)
qed

lemma any_conn: "(\<And>x. guar (kept n C) (f x)) \<Longrightarrow> guar (kept n C) (bnd (the_conn c) f)"
  unfolding the_conn_def by (intro bind basic)

lemma attempts: "guar (kept n C) m \<Longrightarrow> guar (kept n C) (attempt m p)"
  unfolding attempt_def by (intro rules)

lemma pairs: "(\<And>y z. guar (kept n C) (f y z)) \<Longrightarrow> guar (kept n C) (case p of (y, z) \<Rightarrow> f y z)"
  by (cases p) auto

lemma sums: "(\<And>e. guar (kept n C) (f e)) \<Longrightarrow> (\<And>x. guar (kept n C) (g x)) \<Longrightarrow> guar (kept n C) (case r of Inl e \<Rightarrow> f e | Inr x \<Rightarrow> g x)"
  by (cases r) auto

lemma sends: "guar (kept n C) (send E c e)" "guar (kept n C) (send_error E c code msg r)" "guar (kept n C) (reject E ws k code msg)"
  unfolding send_def send_error_def reject_def by (intro any_conn socket rules)+

lemma closes: "guar (kept n C) (close_one E c k code msg)" "guar (kept n C) (register E c)"
  unfolding close_one_def register_def by (intro any_conn socket rules registry sends)+

lemma unregisters: "guar (kept n C) (unregister E c)"
  unfolding unregister_def
  by (rule waiting) (auto simp: guar_def modify_state_def kept_def owns_def Let_def node_scope_refl split: option.splits)

lemma sha: "(\<And>f. stays n (m f)) \<Longrightarrow> stays n (sha_of m)"
  unfolding sha_of_def by (intro stays_bnd staying)

lemma pushes: "C = Some c \<Longrightarrow> guar (kept n C) (maybe_push_desired E c force r)"
  unfolding maybe_push_desired_def fingerprint_thread_def build_thread_def
  by (rule own_node, assumption | rule rules services sha objects sends | simp add: staying)+

lemma touches: "C = Some c \<Longrightarrow> guar (kept n C) (touch_last_seen E c)"
  unfolding touch_last_seen_def
  by (rule own_node, assumption | rule rules services objects | simp add: staying)+

lemma proposals: "C = Some c \<Longrightarrow> n \<noteq> [] \<Longrightarrow> guar (kept n C) (handle_proposal E c e config)"
  unfolding handle_proposal_def
  by (rule own_node, assumption | rule rules pairs services sums attempts sends touches | assumption | simp add: staying)+

lemma reports: "C = Some c \<Longrightarrow> guar (kept n C) (handle_report E c e)"
  unfolding handle_report_def
  by (rule own_node, assumption | rule rules pairs services sums attempts sends touches | assumption | simp add: staying)+

lemma decodes: "guar (kept n C) (hub_decode E raw)"
  unfolding hub_decode_def by (intro rules)

lemma dispatches: "C = Some c \<Longrightarrow> n \<noteq> [] \<Longrightarrow> guar (kept n C) (dispatch E c config raw)"
  unfolding dispatch_def by (intro rules sums attempts decodes sends touches pushes proposals reports)

lemma reads: "C = Some c \<Longrightarrow> n \<noteq> [] \<Longrightarrow> guar (kept n C) (reader_loop E c config raws)"
proof (induction raws)
  case Nil
  show ?case unfolding reader_loop.simps by (intro rules)
next
  case (Cons f raws)
  note ih = Cons.IH [OF Cons.prems]
  show ?case
  proof (cases f)
    case (Text raw)
    show ?thesis unfolding Text reader_loop.simps handle_frame_def by (intro rules dispatches sends ih Cons.prems)
  next
    case Binary
    show ?thesis unfolding Binary reader_loop.simps by (intro rules)
  qed
qed

text \<open>The pusher of the connection is itself such a task.\<close>

lemma pusher: "C = Some c \<Longrightarrow> guar (kept n C) (pusher_loop E c k)"
proof (induction k)
  case 0
  show ?case unfolding pusher_loop.simps by (intro rules)
next
  case (Suc k)
  then show ?case unfolding pusher_loop.simps take_wake_def by (intro any_conn rules objects pushes) simp_all
qed

lemma acks: "C = Some c \<Longrightarrow> guar (kept n C) (send_hello_ack E c cached r)"
  unfolding send_hello_ack_def fingerprint_thread_def Let_def
  by (rule own_node, assumption | rule rules services sha objects sends | simp add: staying)+

lemma finals: "guar (kept n C) m \<Longrightarrow> guar (kept n C) f \<Longrightarrow> guar (kept n C) (finally_do m f)"
proof -
  assume m: "guar (kept n C) m" and f: "guar (kept n C) f"
  show ?thesis
    unfolding guar_def
  proof
    fix h :: hub
    obtain r h1 where 1: "m h = (r, h1)" by (cases "m h")
    obtain r2 h2 where 2: "f h1 = (r2, h2)" by (cases "f h1")
    show "kept n C h (snd (finally_do m f h))"
      using K_trans [OF guarD [OF m 1] guarD [OF f 2]] 1 2 by (simp add: finally_do_def split: sum.split)
  qed
qed

lemma runs: "C = Some c \<Longrightarrow> n \<noteq> [] \<Longrightarrow> guar (kept n C) (established E c config hello raws)"
  unfolding established_def close_streams_def Let_def
  by (intro rules objects closes finals acks pushes reads unregisters) simp_all

lemma hellos: "guar (kept n C) (await_hello E ws inp)"
  unfolding await_hello_def
  by (cases inp) (simp_all, (intro rules sends sums attempts decodes)+)

end

interpretation lone: scoped_task "alone E" n C for E n C
  by unfold_locales (simp add: discreet_def alone_def node_scope_refl)

text \<open>Once the connection exists the task owns it.\<close>

lemma created_scope:
  assumes "discreet n E" and "n \<noteq> []"
  shows "guar (kept n None) (bnd (create_connection E n ws) (\<lambda>c. bnd (await_hello E ws inp) (\<lambda>hello. case hello of
      None \<Rightarrow> ret () | Some e \<Rightarrow> established E c config e raws)))"
  unfolding guar_def
proof
  fix h :: hub
  let ?rest = "\<lambda>c. bnd (await_hello E ws inp) (\<lambda>hello. case hello of None \<Rightarrow> ret () | Some e \<Rightarrow> established E c config e raws)"
  obtain c h1 where c: "create_connection E n ws h = (Inr c, h1)" by (simp add: create_connection_def op_defs new_id_def)
  then have h1: "owns n (Some c) h1 = sound (hub_world h1)" "hub_world h1 = hub_world h"
    by (auto simp: create_connection_def op_defs new_id_def owns_def)
  have task: "scoped_task E n" using assms(1) by unfold_locales
  have "guar (kept n (Some c)) (?rest c)"
    by (intro scoped_task.task_rules [OF task] scoped_task.hellos [OF task] scoped_task.runs [OF task] assms(2) refl)
  then have "kept n (Some c) h1 (snd (?rest c h1))" by (simp add: guar_def)
  moreover have "bnd (create_connection E n ws) ?rest h = ?rest c h1" using c by (rule bnd_Inr)
  ultimately show "kept n None h (snd (bnd (create_connection E n ws) ?rest h))"
    using h1 by (auto simp: kept_def owns_def)
qed

lemma serve_scope:
  assumes "discreet n E" and "n \<noteq> []"
  shows "guar (kept n None) (serve_node_connection E ws n config header inp raws)"
proof -
  have task: "scoped_task E n" using assms(1) by unfold_locales
  note rules = scoped_task.task_rules [OF task] and services = scoped_task.services [OF task] and sends = scoped_task.sends [OF task]
    and attempts = scoped_task.attempts [OF task] and sums = scoped_task.sums [OF task] and socket = scoped_task.socket [OF task]
  have threads: "guar (kept n None) (to_thread E (authenticate_sync t n))" "guar (kept n None) (to_thread E (require_managed_node_exists n))" for t
    by (rule services, rule staying)+
  show ?thesis
    unfolding serve_node_connection_def
    by (rule created_scope [OF assms] | rule threads | rule rules socket sends attempts sums)+
qed

section \<open>Properties\<close>

text \<open>
  C3. What a node can do over its connection, whatever it presents as token, hello and frames,
  whichever calls of the socket or statements fail and whatever the other tasks do to the rest of the
  hub, as long as they too keep to the rows of the node, as the pusher of the connection does: the database
  stays well-formed and only the node's own rows change, its row of \<open>nodes\<close>, its peers, proposals,
  reports, revisions, notifications and the time it was last seen. Its token, its policy and its
  pin, the peers and the requests of other nodes are out of reach.
\<close>

theorem serve_node_connection_confined:
  assumes "discreet n E" and "n \<noteq> []" and "tx (hub_world h) = None" and "migrated (disk (hub_world h))" and "wf_db (disk (hub_world h))"
    and "serve_node_connection E ws n config header inp raws h = (r, h')"
  shows "node_scope n (disk (hub_world h)) (disk (hub_world h')) \<and> wf_db (disk (hub_world h'))"
  using guarD [OF serve_scope [OF assms(1,2)] assms(6)] assms(3-5) by (simp add: kept_def owns_def sound_def)

text \<open>The node a token authenticates, as a function of the database.\<close>

definition token_node :: "(string \<Rightarrow> string) \<Rightarrow> string \<Rightarrow> database \<Rightarrow> string option" where
  "token_node sha token d = map_option mn_node_id (List.find (\<lambda>m. verify_token sha (the (mn_api_token_hash m)) token)
     (filter (\<lambda>m. mn_api_token_hash m \<noteq> None \<and> mn_enabled m) (managed_nodes d)))"

lemma authenticate_quiet:
  assumes "no_faults w" and "tx w = None" and "migrated (disk w)"
  shows "\<exists>auth w'. authenticate_sync t n w = (Inr auth, w') \<and> disk w' = disk w
    \<and> ar_ok auth = (token_node (sha256_hex (env w)) t (disk w) = Some n)
    \<and> (\<not> ar_ok auth \<longrightarrow> ar_close_code auth \<in> {CLOSE_UNAUTHORIZED, CLOSE_FORBIDDEN})"
proof -
  let ?w = "next_tick (next_tick w)"
  have w: "db_open w = (Inr (), ?w)" by (rule db_open_quiet [OF assms(3,2,1)])
  have "managed_authenticate t ?w = (Inr (List.find (\<lambda>m. verify_token (sha256_hex (env w)) (the (mn_api_token_hash m)) t)
      (filter (\<lambda>m. mn_api_token_hash m \<noteq> None \<and> mn_enabled m) (managed_nodes (disk w)))), next_tick ?w)"
    using assms(1,2) by (simp add: managed_authenticate_def op_defs wrap_db_def sql_query_def no_faults_def view_def)
  then show ?thesis
    using w by (auto simp: authenticate_sync_def with_db_def closing_def close_conn_def op_defs token_node_def split: option.splits)
qed

lemma alone_simps [simp]:
  "pause (alone E) h = h\<lparr> awaits := Suc (awaits h) \<rparr>" "ws_raises (alone E) = ws_raises E" "uuid_hex (alone E) = uuid_hex E"
  by (simp_all add: pause_def alone_def)

definition only_socket :: "hub \<Rightarrow> hub \<Rightarrow> nat \<Rightarrow> ws_call list \<Rightarrow> bool" where
  "only_socket h h' s calls \<longleftrightarrow> disk (hub_world h') = disk (hub_world h) \<and> by_node h' = by_node h \<and> conns h' = conns h
     \<and> sockets h' = (sockets h)(s := sockets h s @ calls)"

lemma ws_alone: "ws_do (alone E) s a h = (if ws_raises E s (length (sockets h s)) then Inl SocketError else Inr (),
    h\<lparr> sockets := (sockets h)(s := sockets h s @ [a]), awaits := Suc (Suc (awaits h)) \<rparr>)"
  by (simp add: ws_do_def awaited_def)

lemma thread_alone: "to_thread (alone E) m h = (fst (m (hub_world h)), h\<lparr> hub_world := snd (m (hub_world h)), awaits := Suc (Suc (awaits h)) \<rparr>)"
  by (simp add: to_thread_def awaited_def in_world_def split: prod.splits)

lemma reject_alone:
  "\<exists>h' e. reject (alone E) ws code err msg h = (Inr (), h') \<and> only_socket h h' ws [WsSend (encode e), WsClose code]
     \<and> env_type e = MSG_ERROR \<and> dict_get_value (env_payload e) ''code'' = JStr err"
proof -
  define e where "e = make_error (uuid_hex E (ids h)) (clock (env (hub_world h)) (tick (hub_world h))) err msg None"
  have "\<exists>h'. reject (alone E) ws code err msg h = (Inr (), h') \<and> only_socket h h' ws [WsSend (encode e), WsClose code]"
    unfolding e_def
    by (simp add: reject_def suppress_def build_error_def new_id_def in_world_def now_iso_def ws_alone op_defs only_socket_def)
  moreover have "env_type e = MSG_ERROR" "dict_get_value (env_payload e) ''code'' = JStr err"
    by (simp_all add: e_def make_error_def new_envelope_def dict_get_value_def)
  ultimately show ?thesis by blast
qed

text \<open>
  C13. A connection without a valid token of the node gets nowhere. When the header has no bearer token,
  or the token is not that of an enabled node, or of another node than the one in the address,
  the hub accepts the socket, sends one \<open>error\<close>, closes it with a code the agent does not retry at full
  speed, and neither the database nor the registry of connections changes; hello and frames are
  not read.
\<close>

theorem unauthorized_rejected:
  assumes "no_faults (hub_world h)" and "tx (hub_world h) = None" and "migrated (disk (hub_world h))"
    and "\<not> ws_raises E ws (length (sockets h ws))"
    and "\<forall>t. extract_bearer header = Some t \<longrightarrow> token_node (sha256_hex (env (hub_world h))) t (disk (hub_world h)) \<noteq> Some n"
  shows "\<exists>h' e code. serve_node_connection (alone E) ws n config header inp raws h = (Inr (), h')
    \<and> only_socket h h' ws [WsAccept, WsSend (encode e), WsClose code] \<and> env_type e = MSG_ERROR
    \<and> code \<in> {CLOSE_UNAUTHORIZED, CLOSE_FORBIDDEN} \<and> code \<in> AUTH_FATAL_CLOSE_CODES"
proof -
  define h1 where "h1 = h\<lparr> sockets := (sockets h)(ws := sockets h ws @ [WsAccept]), awaits := Suc (Suc (awaits h)) \<rparr>"
  have a: "ws_do (alone E) ws WsAccept h = (Inr (), h1)" using assms(4) by (simp add: ws_alone h1_def)
  have trans: "only_socket h h2 ws [WsAccept, WsSend (encode e), WsClose code]"
    if "only_socket h0 h2 ws [WsSend (encode e), WsClose code]" "disk (hub_world h0) = disk (hub_world h)" "by_node h0 = by_node h"
      "conns h0 = conns h" "sockets h0 = sockets h1" for h0 h2 e code
    using that by (simp add: only_socket_def h1_def)
  have codes: "CLOSE_UNAUTHORIZED \<in> AUTH_FATAL_CLOSE_CODES" "CLOSE_FORBIDDEN \<in> AUTH_FATAL_CLOSE_CODES" by (simp_all add: AUTH_FATAL_CLOSE_CODES_def)
  show ?thesis
  proof (cases "extract_bearer header")
    case None
    obtain h2 e where r: "reject (alone E) ws CLOSE_UNAUTHORIZED ERR_UNAUTHORIZED ''missing Bearer token'' h1 = (Inr (), h2)"
      "only_socket h1 h2 ws [WsSend (encode e), WsClose CLOSE_UNAUTHORIZED]" "env_type e = MSG_ERROR" using reject_alone by blast
    have "serve_node_connection (alone E) ws n config header inp raws h = (Inr (), h2)"
      using a None r(1) by (simp add: serve_node_connection_def bnd_def)
    moreover have "only_socket h h2 ws [WsAccept, WsSend (encode e), WsClose CLOSE_UNAUTHORIZED]"
      by (rule trans [OF r(2)]) (simp_all add: h1_def)
    ultimately show ?thesis using r(3) codes by blast
  next
    case (Some t)
    have w1: "hub_world h1 = hub_world h" by (simp add: h1_def)
    from authenticate_quiet [OF assms(1-3), of t n] obtain auth w' where
      t: "authenticate_sync t n (hub_world h1) = (Inr auth, w')" "disk w' = disk (hub_world h)" "\<not> ar_ok auth"
        "ar_close_code auth \<in> {CLOSE_UNAUTHORIZED, CLOSE_FORBIDDEN}" using assms(5) Some w1 by auto
    define h2 where "h2 = h1\<lparr> hub_world := w', awaits := Suc (Suc (awaits h1)) \<rparr>"
    have th: "to_thread (alone E) (authenticate_sync t n) h1 = (Inr auth, h2)" using t(1) by (simp add: thread_alone h2_def)
    obtain h3 e where r: "reject (alone E) ws (ar_close_code auth) (ar_err_code auth) (ar_message auth) h2 = (Inr (), h3)"
      "only_socket h2 h3 ws [WsSend (encode e), WsClose (ar_close_code auth)]" "env_type e = MSG_ERROR" using reject_alone by blast
    have "serve_node_connection (alone E) ws n config header inp raws h = (Inr (), h3)"
      using a Some th t(3) r(1) by (simp add: serve_node_connection_def bnd_def)
    moreover have "only_socket h h3 ws [WsAccept, WsSend (encode e), WsClose (ar_close_code auth)]"
      by (rule trans [OF r(2)]) (simp_all add: h1_def h2_def t(2))
    moreover have "ar_close_code auth \<in> AUTH_FATAL_CLOSE_CODES" using t(4) codes by auto
    ultimately show ?thesis using r(3) t(4) by blast
  qed
qed

theorem unauthorized_rejected_witness:
  "\<exists>h' e code. serve_node_connection (alone calm_env) 9 ''n1'' None (Some ''Bearer guess'') HelloTimeout [] busy_hub = (Inr (), h')
     \<and> only_socket busy_hub h' 9 [WsAccept, WsSend (encode e), WsClose code] \<and> code \<in> AUTH_FATAL_CLOSE_CODES"
proof -
  have "token_node sha t ledger_db = None" for sha t
    by (simp add: token_node_def ledger_db_def ready_def new_managed_def)
  then show ?thesis
    using unauthorized_rejected [of busy_hub calm_env 9 "Some ''Bearer guess''" "''n1''" None HelloTimeout "[]"] ledger_db_ok
    by (auto simp: busy_hub_def calm_env_def)
qed

text \<open>A node that is let in, with a hello and a text frame.\<close>

definition enrolled_db :: database where
  "enrolled_db = ledger_db\<lparr> managed_nodes := map (\<lambda>m. m\<lparr> mn_api_token_hash := Some (hash_token (sha256_hex quiet_env) ''t'') \<rparr>) (managed_nodes ledger_db) \<rparr>"

lemma enrolled_db_ok: "migrated enrolled_db" "wf_db enrolled_db" "token_node (sha256_hex quiet_env) ''t'' enrolled_db = Some ''n1''"
proof -
  show "migrated enrolled_db" using ledger_db_ok(1) by (simp add: enrolled_db_def migrated_def has_table_def)
  show "wf_db enrolled_db" 
    by (simp add: enrolled_db_def ledger_db_def ready_def wf_frame eval_rows ids_ok_def single_self_def sample_proposal_def sample_report_def new_managed_def)
  show "token_node (sha256_hex quiet_env) ''t'' enrolled_db = Some ''n1''"
    by (simp add: token_node_def enrolled_db_def ledger_db_def ready_def new_managed_def verify_token_def)
qed

theorem serve_node_connection_confined_witness:
  "token_node (sha256_hex quiet_env) ''t'' enrolled_db = Some ''n1'' \<and>
   node_scope ''n1'' enrolled_db (disk (hub_world (snd (serve_node_connection calm_env 9 ''n1'' None (Some ''Bearer t'')
     (HelloFrame (encode (new_envelope ''i'' ''t0'' MSG_HELLO [] None))) [Text ''{}''] (busy_hub\<lparr> hub_world := start_world enrolled_db \<rparr>)))))"
  using serve_node_connection_confined [of "''n1''" calm_env "busy_hub\<lparr> hub_world := start_world enrolled_db \<rparr>" 9 None "Some ''Bearer t''"
      "HelloFrame (encode (new_envelope ''i'' ''t0'' MSG_HELLO [] None))" "[Text ''{}'']", OF _ _ _ _ _ prod.collapse [symmetric]] enrolled_db_ok
  by (simp add: calm_env_def discreet_def node_scope_refl)

end
