(* ===== verification/Hub_Replies.thy ===== *)
theory Hub_Replies
  imports Hub_Scope
begin

text \<open>
  What a node hears back. Without other tasks on its socket and while the socket works, a handler either
  sends one frame on it, or sends none and raises; the reader then sends one itself.
\<close>

section \<open>Silence and single answers\<close>

text \<open>The connection \<open>c\<close> on socket \<open>s\<close>.\<close>

definition at_socket :: "string \<Rightarrow> nat \<Rightarrow> hub \<Rightarrow> bool" where
  "at_socket c s h \<longleftrightarrow> (\<exists>x. conns h c = Some x \<and> nc_websocket x = s)"

definition silent :: "string \<Rightarrow> nat \<Rightarrow> 'a hop \<Rightarrow> bool" where
  "silent c s m \<longleftrightarrow> (\<forall>h r h'. at_socket c s h \<longrightarrow> m h = (r, h') \<longrightarrow> at_socket c s h' \<and> sockets h' = sockets h)"

definition calm :: "string \<Rightarrow> nat \<Rightarrow> 'a hop \<Rightarrow> bool" where
  "calm c s m \<longleftrightarrow> (\<forall>h r h'. at_socket c s h \<longrightarrow> m h = (r, h') \<longrightarrow> at_socket c s h' \<and> sockets h' = sockets h \<and> (\<exists>x. r = Inr x))"

definition answered :: "nat \<Rightarrow> (Envelope \<Rightarrow> bool) \<Rightarrow> hub \<Rightarrow> hub \<Rightarrow> bool" where
  "answered s R h h' \<longleftrightarrow> (\<exists>e. R e \<and> sockets h' = (sockets h)(s := sockets h s @ [WsSend (encode e)]))"

definition answers :: "string \<Rightarrow> nat \<Rightarrow> (Envelope \<Rightarrow> bool) \<Rightarrow> 'a hop \<Rightarrow> bool" where
  "answers c s R m \<longleftrightarrow> (\<forall>h r h'. at_socket c s h \<longrightarrow> m h = (r, h') \<longrightarrow> at_socket c s h' \<and>
     ((\<exists>x. r = Inr x) \<and> answered s R h h' \<or> (\<exists>x. r = Inl x) \<and> sockets h' = sockets h))"

lemma bnd_result: "bnd m f h = (r, h') \<Longrightarrow> (\<exists>e. m h = (Inl e, h') \<and> r = Inl e) \<or> (\<exists>x h1. m h = (Inr x, h1) \<and> f x h1 = (r, h'))"
  by (cases "m h"; cases "fst (m h)") (auto simp: bnd_def)

lemma try_result: "try_except m g h = (r, h') \<Longrightarrow> (\<exists>x. m h = (Inr x, h') \<and> r = Inr x) \<or> (\<exists>e h1. m h = (Inl e, h1) \<and> g e h1 = (r, h'))"
  by (cases "m h"; cases "fst (m h)") (auto simp: try_except_def)

lemma bnd_cases:
  assumes "bnd m f h = (r, h')"
  obtains e where "m h = (Inl e, h')" and "r = Inl e" | x h1 where "m h = (Inr x, h1)" and "f x h1 = (r, h')"
  using bnd_result [OF assms] by blast

lemma try_cases:
  assumes "try_except m g h = (r, h')"
  obtains x where "m h = (Inr x, h')" and "r = Inr x" | e h1 where "m h = (Inl e, h1)" and "g e h1 = (r, h')"
  using try_result [OF assms] by blast

lemma silentI: "(\<And>h r h'. at_socket c s h \<Longrightarrow> m h = (r, h') \<Longrightarrow> at_socket c s h' \<and> sockets h' = sockets h) \<Longrightarrow> silent c s m"
  unfolding silent_def by blast

lemma silentD: "silent c s m \<Longrightarrow> at_socket c s h \<Longrightarrow> m h = (r, h') \<Longrightarrow> at_socket c s h' \<and> sockets h' = sockets h"
  unfolding silent_def by blast

lemma calmD: "calm c s m \<Longrightarrow> at_socket c s h \<Longrightarrow> m h = (r, h') \<Longrightarrow> at_socket c s h' \<and> sockets h' = sockets h \<and> (\<exists>x. r = Inr x)"
  unfolding calm_def by blast

lemma answersI:
  "(\<And>h r h'. at_socket c s h \<Longrightarrow> m h = (r, h') \<Longrightarrow> at_socket c s h' \<and>
     ((\<exists>x. r = Inr x) \<and> answered s R h h' \<or> (\<exists>x. r = Inl x) \<and> sockets h' = sockets h)) \<Longrightarrow> answers c s R m"
  unfolding answers_def by blast

lemma answersD:
  "answers c s R m \<Longrightarrow> at_socket c s h \<Longrightarrow> m h = (r, h') \<Longrightarrow> at_socket c s h' \<and>
     ((\<exists>x. r = Inr x) \<and> answered s R h h' \<or> (\<exists>x. r = Inl x) \<and> sockets h' = sockets h)"
  unfolding answers_def by blast

lemma answered_same: "sockets h1 = sockets h \<Longrightarrow> answered s R h1 h' = answered s R h h'" "sockets h1 = sockets h' \<Longrightarrow> answered s R h h1 = answered s R h h'"
  by (simp_all add: answered_def)

lemma silent_bnd:
  assumes "silent c s m" and "\<And>x. silent c s (f x)"
  shows "silent c s (bnd m f)"
proof (rule silentI)
  fix h r h'
  assume h: "at_socket c s h" and r: "bnd m f h = (r, h')"
  from r show "at_socket c s h' \<and> sockets h' = sockets h"
  proof (cases rule: bnd_cases)
    case (2 x h1)
    with silentD [OF assms(1) h 2(1)] silentD [OF assms(2) _ 2(2)] show ?thesis by simp
  qed (use silentD [OF assms(1) h] in blast)
qed

lemma silent_try:
  assumes "silent c s m" and "\<And>e. silent c s (g e)"
  shows "silent c s (try_except m g)"
proof (rule silentI)
  fix h r h'
  assume h: "at_socket c s h" and r: "try_except m g h = (r, h')"
  from r show "at_socket c s h' \<and> sockets h' = sockets h"
  proof (cases rule: try_cases)
    case (2 e h1)
    with silentD [OF assms(1) h 2(1)] silentD [OF assms(2) _ 2(2)] show ?thesis by simp
  qed (use silentD [OF assms(1) h] in blast)
qed

lemma answers_after:
  assumes "silent c s m" and "\<And>x. answers c s R (f x)"
  shows "answers c s R (bnd m f)"
proof (rule answersI)
  fix h r h'
  assume h: "at_socket c s h" and r: "bnd m f h = (r, h')"
  from r show "at_socket c s h' \<and> ((\<exists>x. r = Inr x) \<and> answered s R h h' \<or> (\<exists>x. r = Inl x) \<and> sockets h' = sockets h)"
  proof (cases rule: bnd_cases)
    case (1 e)
    with silentD [OF assms(1) h 1(1)] show ?thesis by simp
  next
    case (2 x h1)
    note k = silentD [OF assms(1) h 2(1)]
    with answersD [OF assms(2) _ 2(2)] answered_same(1) [of h1 h] show ?thesis by auto
  qed
qed

lemma answers_then:
  assumes "answers c s R m" and "\<And>x. calm c s (f x)"
  shows "answers c s R (bnd m f)"
proof (rule answersI)
  fix h r h'
  assume h: "at_socket c s h" and r: "bnd m f h = (r, h')"
  from r show "at_socket c s h' \<and> ((\<exists>x. r = Inr x) \<and> answered s R h h' \<or> (\<exists>x. r = Inl x) \<and> sockets h' = sockets h)"
  proof (cases rule: bnd_cases)
    case (1 e)
    with answersD [OF assms(1) h 1(1)] show ?thesis by simp
  next
    case (2 x h1)
    note k = answersD [OF assms(1) h 2(1)]
    with calmD [OF assms(2) _ 2(2)] answered_same(2) [of h' h1] show ?thesis by auto
  qed
qed

lemma answers_weaken: "answers c s R m \<Longrightarrow> (\<And>e. R e \<Longrightarrow> R' e) \<Longrightarrow> answers c s R' m"
proof (rule answersI)
  fix h r h'
  assume m: "answers c s R m" and R: "\<And>e. R e \<Longrightarrow> R' e" and h: "at_socket c s h" "m h = (r, h')"
  have "answered s R h h' \<Longrightarrow> answered s R' h h'" using R by (auto simp: answered_def)
  with answersD [OF m h] show "at_socket c s h' \<and> ((\<exists>x. r = Inr x) \<and> answered s R' h h' \<or> (\<exists>x. r = Inl x) \<and> sockets h' = sockets h)" by blast
qed

lemma silent_basic: "silent c s (ret x)" "silent c s (raise e)" "silent c s (lift_result r)" "silent c s (read_state f)" "silent c s (the_conn c')"
  by (simp_all add: silent_def ret_def raise_def lift_result_def read_state_def the_conn_def)

lemma silent_world: "silent c s (in_world m)" "silent c s (new_id E)" "silent c s (to_thread (alone E) m)" "silent c s (awaited (alone E) (ret ()))"
  by (auto simp: silent_def at_socket_def in_world_def new_id_def thread_alone awaited_def ret_def split: prod.splits)

lemma silent_conn: "(\<And>x. nc_websocket (f x) = nc_websocket x) \<Longrightarrow> silent c s (update_conn c' f)"
  by (auto simp: silent_def at_socket_def update_conn_def modify_state_def)

lemma silent_if: "silent c s m \<Longrightarrow> silent c s m' \<Longrightarrow> silent c s (if b then m else m')" by simp

lemma silent_envelopes: "silent c s (build_envelope E t p r)" "silent c s (build_error E k m r)" "silent c s (build_ack E p i)"
  unfolding build_envelope_def build_error_def build_ack_def by (intro silent_bnd silent_world silent_basic)+

lemmas silent_rules = silent_bnd silent_basic silent_world silent_try silent_if silent_envelopes

lemma silent_attempt: "silent c s m \<Longrightarrow> silent c s (attempt m p)"
  unfolding attempt_def by (intro silent_rules)

lemma calm_suppress: "silent c s m \<Longrightarrow> calm c s (suppress m)"
  using suppress_returns [of m] silent_try [of c s m "\<lambda>_. ret ()"]
  unfolding calm_def suppress_def [symmetric] by (fastforce simp: silent_basic dest: silentD)

lemma calm_if: "calm c s m \<Longrightarrow> calm c s m' \<Longrightarrow> calm c s (if b then m else m')" by simp

lemma calm_bnd:
  assumes "calm c s m" and "\<And>x. calm c s (f x)"
  shows "calm c s (bnd m f)"
  unfolding calm_def
proof (intro allI impI)
  fix h r h'
  assume h: "at_socket c s h" and r: "bnd m f h = (r, h')"
  from r show "at_socket c s h' \<and> sockets h' = sockets h \<and> (\<exists>x. r = Inr x)"
  proof (cases rule: bnd_cases)
    case (2 x h1)
    with calmD [OF assms(1) h 2(1)] calmD [OF assms(2) _ 2(2)] show ?thesis by simp
  qed (use calmD [OF assms(1) h] in blast)
qed

lemma calm_basic: "calm c s (ret x)" "calm c s (read_state f)" "calm c s (the_conn c')"
  by (simp_all add: calm_def ret_def read_state_def the_conn_def)

lemma calm_conn: "(\<And>x. nc_websocket (f x) = nc_websocket x) \<Longrightarrow> calm c s (update_conn c' f)"
  by (auto simp: calm_def at_socket_def update_conn_def modify_state_def)

lemma calm_touch: "calm c s (touch_last_seen (alone E) c)"
  unfolding touch_last_seen_def
  by (intro calm_bnd calm_basic calm_if calm_conn calm_suppress silent_world) simp

lemma answers_result:
  assumes "silent c s m" and "\<And>x h h'. m h = (Inr x, h') \<Longrightarrow> answers c s R (f x)"
  shows "answers c s R (bnd m f)"
proof (rule answersI)
  fix h r h'
  assume h: "at_socket c s h" and r: "bnd m f h = (r, h')"
  from r show "at_socket c s h' \<and> ((\<exists>x. r = Inr x) \<and> answered s R h h' \<or> (\<exists>x. r = Inl x) \<and> sockets h' = sockets h)"
  proof (cases rule: bnd_cases)
    case (1 e)
    with silentD [OF assms(1) h 1(1)] show ?thesis by simp
  next
    case (2 x h1)
    note k = silentD [OF assms(1) h 2(1)]
    with answersD [OF assms(2) [OF 2(1)] _ 2(2)] answered_same(1) [of h1 h] show ?thesis by auto
  qed
qed

section \<open>The handlers\<close>

definition error_frame :: "string \<Rightarrow> Envelope \<Rightarrow> bool" where
  "error_frame k e \<longleftrightarrow> env_type e = MSG_ERROR \<and> dict_get_value (env_payload e) ''code'' = JStr k"

text \<open>The answer to a request names it and is of the kind that was asked for.\<close>

definition fits :: "Envelope \<Rightarrow> Envelope \<Rightarrow> bool" where
  "fits q e \<longleftrightarrow> env_re e = Some (env_id q) \<and>
     (if env_v q \<noteq> PROTOCOL_VERSION then error_frame ERR_VERSION_MISMATCH e
      else if env_type q = MSG_PING then env_type e = MSG_PONG
      else if env_type q = MSG_DESIRED_REQUEST then env_type e = MSG_DESIRED_PUSH
      else if env_type q \<in> {MSG_PROPOSAL_SUBMIT, MSG_REPORT_SUBMIT}
        then env_type e = MSG_ACK \<or> error_frame ERR_PAYLOAD_INVALID e \<or> error_frame ERR_SERVICE_ERROR e
      else error_frame ERR_UNKNOWN_TYPE e)"

definition proper_reply :: "hub_env \<Rightarrow> string \<Rightarrow> Envelope \<Rightarrow> bool" where
  "proper_reply E raw e \<longleftrightarrow> (\<exists>now. case decode (float_repr E) (recursion_limit E) now raw of
       Inr q \<Rightarrow> fits q e | Inl _ \<Rightarrow> error_frame ERR_BAD_ENVELOPE e)"

text \<open>
  The answer to a frame that is dispatched in state \<open>h\<close>: \<open>internal\<close> if the handler raises, and only
  then.
\<close>

definition reply_to :: "hub_env \<Rightarrow> string \<Rightarrow> AppConfig option \<Rightarrow> string \<times> hub \<Rightarrow> Envelope \<Rightarrow> bool" where
  "reply_to E c config rh e \<longleftrightarrow> (case rh of (raw, h) \<Rightarrow> case fst (dispatch (alone E) c config raw h) of
     Inl _ \<Rightarrow> error_frame ERR_INTERNAL e | Inr _ \<Rightarrow> proper_reply E raw e)"

text \<open>The frames up to the first that is no text, each with the state in which it is dispatched.\<close>

fun dispatched :: "hub_env \<Rightarrow> string \<Rightarrow> AppConfig option \<Rightarrow> frame_in list \<Rightarrow> hub \<Rightarrow> (string \<times> hub) list" where
  "dispatched E c config (Text raw # raws) h = (let h1 = pause E (pause E h) in
     (raw, h1) # dispatched E c config raws (snd (handle_frame E c config raw h1)))"
| "dispatched E c config _ h = []"

fun texts :: "frame_in list \<Rightarrow> string list" where
  "texts (Text raw # raws) = raw # texts raws"
| "texts _ = []"

lemma dispatched_texts: "map fst (dispatched E c config raws h) = texts raws"
  by (induction E c config raws h rule: dispatched.induct) (simp_all add: Let_def)

definition working :: "hub_env \<Rightarrow> nat \<Rightarrow> bool" where
  "working E s \<longleftrightarrow> (\<forall>k. \<not> ws_raises E s k)"

lemma answers_send: "working E s \<Longrightarrow> answers c s (\<lambda>e'. e' = e) (send (alone E) c e)"
  by (rule answersI)
    (auto simp: working_def send_def the_conn_def ws_alone op_defs at_socket_def conn_at_def answered_def)

lemma answers_error:
  "working E s \<Longrightarrow> answers c s (\<lambda>e. error_frame k e \<and> env_re e = r) (send_error (alone E) c k msg r)"
  unfolding send_error_def
  by (rule answers_result [OF silent_envelopes(2)], rule answers_weaken [OF answers_send])
    (auto simp: build_error_def op_defs new_id_def in_world_def now_iso_def make_error_def new_envelope_def dict_get_value_def error_frame_def)

lemma answers_envelope:
  "working E s \<Longrightarrow> (\<And>e. calm c s (f e)) \<Longrightarrow>
   answers c s (\<lambda>e. env_type e = t \<and> env_re e = r) (bnd (build_envelope (alone E) t p r) (\<lambda>e. bnd (send (alone E) c e) (\<lambda>_. f e)))"
  by (rule answers_result [OF silent_envelopes(1)], rule answers_weaken [OF answers_then [OF answers_send]])
    (auto simp: build_envelope_def op_defs new_id_def in_world_def now_iso_def new_envelope_def)

lemma answers_ack:
  "working E s \<Longrightarrow> answers c s (\<lambda>e. env_type e = MSG_ACK \<and> env_re e = Some r)
     (bnd (build_ack (alone E) p r) (\<lambda>e. bnd (send (alone E) c e) (\<lambda>_. touch_last_seen (alone E) c)))"
  by (rule answers_result [OF silent_envelopes(3)], rule answers_weaken [OF answers_then [OF answers_send calm_touch]])
    (auto simp: build_ack_def op_defs new_id_def in_world_def now_iso_def make_ack_def new_envelope_def)

lemma answers_push:
  assumes "working E s"
  shows "answers c s (\<lambda>e. env_type e = MSG_DESIRED_PUSH \<and> env_re e = r) (maybe_push_desired (alone E) c True r)"
  unfolding maybe_push_desired_def fingerprint_thread_def build_thread_def simp_thms if_False
  by (rule answers_envelope [OF assms] calm_conn | assumption | rule answers_after silent_rules | simp)+

lemma answers_sum: "(\<And>e. answers c s R (f e)) \<Longrightarrow> (\<And>x. answers c s R (g x)) \<Longrightarrow> answers c s R (case r of Inl e \<Rightarrow> f e | Inr x \<Rightarrow> g x)"
  by (cases r) auto

lemma answers_if: "(b \<Longrightarrow> answers c s R m) \<Longrightarrow> (\<not> b \<Longrightarrow> answers c s R m') \<Longrightarrow> answers c s R (if b then m else m')"
  by simp

definition settled :: "string \<Rightarrow> Envelope \<Rightarrow> bool" where
  "settled i e \<longleftrightarrow> env_re e = Some i \<and> (env_type e = MSG_ACK \<or> error_frame ERR_PAYLOAD_INVALID e \<or> error_frame ERR_SERVICE_ERROR e)"

lemma answers_settled:
  assumes "working E s"
  shows "answers c s (settled i) (bnd (build_ack (alone E) p i) (\<lambda>e. bnd (send (alone E) c e) (\<lambda>_. touch_last_seen (alone E) c)))"
    and "k \<in> {ERR_PAYLOAD_INVALID, ERR_SERVICE_ERROR} \<Longrightarrow> answers c s (settled i) (send_error (alone E) c k msg (Some i))"
  by (rule answers_weaken [OF answers_ack [OF assms]], simp add: settled_def)
    (rule answers_weaken [OF answers_error [OF assms]], auto simp: settled_def)

lemma answers_requests:
  assumes "working E s"
  shows "answers c s (settled (env_id e)) (handle_proposal (alone E) c e config)" and "answers c s (settled (env_id e)) (handle_report (alone E) c e)"
  unfolding handle_proposal_def handle_report_def
  by (auto split: option.split intro!: answers_settled [OF assms] answers_after silent_basic silent_attempt silent_world answers_sum)

lemma attempt_decode: "attempt (hub_decode E raw) is_envelope_error h = (Inr r, h') \<Longrightarrow>
    \<exists>now. r = decode (float_repr E) (recursion_limit E) now raw"
  by (auto simp: attempt_def hub_decode_def in_world_def now_iso_def op_defs split: sum.splits if_splits)

lemma answers_dispatch:
  assumes "working E s"
  shows "answers c s (proper_reply E raw) (dispatch (alone E) c config raw)"
  unfolding dispatch_def
proof (rule answers_result)
  show "silent c s (attempt (hub_decode (alone E) raw) is_envelope_error)"
    unfolding hub_decode_def by (intro silent_attempt silent_rules)
  fix r h h'
  assume "attempt (hub_decode (alone E) raw) is_envelope_error h = (Inr r, h')"
  then obtain now where r: "decode (float_repr E) (recursion_limit E) now raw = r"
    by (auto simp: alone_def dest!: attempt_decode)
  note w = answers_weaken [where R' = "proper_reply E raw"]
  show "answers c s (proper_reply E raw) (case r of
     Inl exc \<Rightarrow> send_error (alone E) c ERR_BAD_ENVELOPE (str_exn exc) None
   | Inr e \<Rightarrow>
       if env_v e \<noteq> PROTOCOL_VERSION then send_error (alone E) c ERR_VERSION_MISMATCH ''protocol version mismatch'' (Some (env_id e))
       else if env_type e = MSG_PING then
         bnd (build_envelope (alone E) MSG_PONG [] (Some (env_id e))) (\<lambda>p. bnd (send (alone E) c p) (\<lambda>_. touch_last_seen (alone E) c))
       else if env_type e = MSG_DESIRED_REQUEST then maybe_push_desired (alone E) c True (Some (env_id e))
       else if env_type e = MSG_PROPOSAL_SUBMIT then handle_proposal (alone E) c e config
       else if env_type e = MSG_REPORT_SUBMIT then handle_report (alone E) c e
       else send_error (alone E) c ERR_UNKNOWN_TYPE ''unknown message type'' (Some (env_id e)))"
  proof (cases r)
    case (Inl exc)
    show ?thesis unfolding Inl sum.case
      by (rule w [OF answers_error [OF assms]]) (use r Inl in \<open>auto simp: proper_reply_def intro: exI [of _ now]\<close>)
  next
    case (Inr e)
    have fit: "proper_reply E raw e'" if "fits e e'" for e' using r Inr that by (auto simp: proper_reply_def intro: exI [of _ now])
    show ?thesis unfolding Inr sum.case
      by (intro answers_if)
        (rule w [OF answers_error [OF assms]] w [OF answers_envelope [OF assms calm_touch]] w [OF answers_push [OF assms]]
           w [OF answers_requests(1) [OF assms]] w [OF answers_requests(2) [OF assms]], rule fit, simp add: fits_def settled_def)+
  qed
qed

lemma frame_reply:
  assumes "working E s" and "at_socket c s h" and "handle_frame (alone E) c config raw h = (r, h')"
  shows "r = Inr () \<and> at_socket c s h' \<and> answered s (reply_to E c config (raw, h)) h h'"
  using assms(3) unfolding handle_frame_def
proof (cases rule: try_cases)
  case (1 x)
  then have "reply_to E c config (raw, h) = proper_reply E raw" by (simp add: reply_to_def fun_eq_iff)
  with 1 answersD [OF answers_dispatch [OF assms(1)] assms(2) 1(1)] show ?thesis by simp
next
  case (2 x h1)
  then have i: "reply_to E c config (raw, h) = error_frame ERR_INTERNAL" by (simp add: reply_to_def fun_eq_iff)
  note k = answersD [OF answers_dispatch [OF assms(1)] assms(2) 2(1)]
  let ?m = "send_error (alone E) c ERR_INTERNAL ''internal server error'' None"
  obtain h2 where h2: "?m h1 = (Inr (), h2)"
    using assms(1) k by (auto simp: send_error_def build_error_def new_id_def in_world_def now_iso_def send_def the_conn_def ws_alone op_defs
        working_def at_socket_def conn_at_def)
  then have r: "r = Inr ()" "h' = h2" using 2(2) by (simp_all add: suppress_def try_except_def)
  have "answers c s (error_frame ERR_INTERNAL) ?m" by (rule answers_weaken [OF answers_error [OF assms(1)]]) simp
  from answersD [OF this _ h2] k r answered_same(1) [of h1 h] show ?thesis unfolding i by auto
qed



end
