(* ===== verification/Hub_Watch.thy ===== *)
theory Hub_Watch
  imports Hub_Replies
begin

text \<open>
  The watcher: what it does about a batch of events while connections come and go, and that its
  cursor passes over no event.
\<close>

section \<open>Reacting to events\<close>

text \<open>The others keep the connection \<open>c\<close> of node \<open>n\<close> registered.\<close>

definition stays_in :: "string \<Rightarrow> string \<Rightarrow> hub \<Rightarrow> hub \<Rightarrow> bool" where
  "stays_in n c h h' \<longleftrightarrow> (c \<in> set (conns_of n h) \<longrightarrow> c \<in> set (conns_of n h'))"

definition spares :: "hub_env \<Rightarrow> string \<Rightarrow> string \<Rightarrow> bool" where
  "spares E n c \<longleftrightarrow> (\<forall>k h. stays_in n c h (interfere E k h))"

locale watched =
  fixes E :: hub_env and n :: string and c :: string
  assumes spared: "spares E n c"

sublocale watched \<subseteq> relying E "stays_in n c"
  using spared by unfold_locales (auto simp: stays_in_def spares_def conns_of_def)

context watched
begin

lemmas staying_in = paused

lemmas looping = loop

lemma keeps_registry: "(\<And>h. by_node (snd (m h)) = by_node h) \<Longrightarrow> guar (stays_in n c) m"
  by (simp add: guar_def stays_in_def conns_of_def)

lemma calls_kept: "guar (stays_in n c) (ws_do E s a)"
  unfolding ws_do_def by (rule waiting, rule keeps_registry) simp

lemma nudges_kept: "guar (stays_in n c) (update_conn c' f)" "guar (stays_in n c) (the_conn c')"
  by (rule keeps_registry, simp add: update_conn_def modify_state_def the_conn_def read_state_def)+

lemma closes_kept: "guar (stays_in n c) (close_one E c' k err msg)"
  unfolding close_one_def send_def by (intro rules calls_kept nudges_kept)

lemma node_kept: "guar (stays_in n c) (close_node E m k err msg)" "guar (stays_in n c) (notify E m)"
  unfolding close_node_def notify_def connections_for_def by (intro rules closes_kept nudges_kept)+

end

interpretation unattended: watched "alone E" n c for E n c
  by unfold_locales (simp add: spares_def alone_def stays_in_def)

lemma for_each_Inr: "(\<And>x h. \<exists>h'. f x h = (Inr (), h')) \<Longrightarrow> \<exists>h'. for_each f xs h = (Inr (), h')"
proof (induction xs arbitrary: h)
  case (Cons x xs)
  from Cons.prems [of x h] obtain h1 where "f x h = (Inr (), h1)" by blast
  with Cons.IH [OF Cons.prems, of h1] show ?case by (simp add: bnd_def)
qed (simp add: ret_def)

lemma for_each_append: "for_each f (xs @ ys) = bnd (for_each f xs) (\<lambda>_. for_each f ys)"
  by (induction xs) (auto simp: ret_def bnd_def fun_eq_iff split: prod.splits sum.splits)

lemma close_node_returns: "considerate E \<Longrightarrow> \<exists>h'. close_node E n k err msg h = (Inr (), h')"
  using for_each_Inr [of "\<lambda>c. close_one E c k err msg"] hub_tasks.close_returns [OF hub_tasks.intro]
  by (simp add: close_node_def connections_for_def awaited_def op_defs)

lemma notify_returns: "\<exists>h'. notify E n h = (Inr (), h')"
  using for_each_Inr [of "\<lambda>c. update_conn c nudge"]
  by (simp add: notify_def connections_for_def awaited_def op_defs update_conn_def)

lemma close_node_closes:
  assumes "considerate E" and "spares E n c" and "registry_ok h" and "c \<in> set (conns_of n h)" and "close_node E n k err msg h = (r, h')"
  shows "WsClose k \<in> set (sockets h' (nc_websocket (conn_at h' c)))"
proof -
  note task = hub_tasks.intro [OF assms(1)]
  let ?p = "pause E h"
  have p: "hub_goes_on h ?p" "stays_in n c h ?p"
    using hub_tasks.going_on [OF task] watched.staying_in [OF watched.intro [OF assms(2)]] by blast+
  then have cs: "c \<in> set (conns_of n ?p)" "registry_ok ?p" using assms(3,4) by (simp_all add: stays_in_def hub_goes_on_def)
  have "\<forall>c \<in> set (conns_of n ?p). \<exists>x. conns (pause E ?p) c = Some x"
    using registry_okD [OF cs(2)] hub_tasks.going_on [OF task, of ?p] by (fastforce simp: hub_goes_on_def)
  from hub_tasks.close_each [OF task this, of k err msg] obtain h2 where
    h2: "for_each (\<lambda>c. close_one E c k err msg) (conns_of n ?p) (pause E ?p) = (Inr (), h2)"
      "\<forall>c \<in> set (conns_of n ?p). WsClose k \<in> set (sockets h2 (nc_websocket (conn_at h2 c)))" by blast
  have "close_node E n k err msg h = (Inr (), h2)"
    using h2(1) by (simp add: close_node_def connections_for_def awaited_def bnd_def read_state_def)
  with assms(5) h2(2) cs(1) show ?thesis by simp
qed

definition orders :: "hub_env \<Rightarrow> bool" where
  "orders E \<longleftrightarrow> (\<forall>xs. set (iter_set E xs) = set xs)"

lemma react_returns:
  assumes "considerate E"
  shows "\<exists>h'. react E es h = (Inr (), h')"
proof -
  let ?close = "for_each (\<lambda>n. close_node E n CLOSE_REVOKED ERR_REVOKED ''access revoked'') (iter_set E (event_nodes SYNC_EVENT_ACCESS_REVOKED es))"
  obtain h1 where "?close h = (Inr (), h1)"
    using for_each_Inr [of "\<lambda>n. close_node E n CLOSE_REVOKED ERR_REVOKED ''access revoked''"] close_node_returns [OF assms] by blast
  then show ?thesis using for_each_Inr [of "notify E"] notify_returns by (simp add: react_def Let_def bnd_def)
qed

lemma event_nodes_set: "set (event_nodes k es) = {se_node_id e | e. e \<in> set es \<and> se_kind e = k}"
  by (auto simp: event_nodes_def)

text \<open>
  C14. Revocation reaches the open connections. When a batch of events tells that the access of a node was
  revoked, the watcher tells every connection of the node to close with the code for revocation,
  whatever else is in the batch, in whichever order the nodes come up and whatever the other tasks do
  meanwhile, as long as they do not remove the connection from the registry themselves. No failing
  socket stops it.
\<close>

theorem revocation_closes_connections:
  assumes "considerate E" and "spares E n c" and "orders E" and "registry_ok h" and "conns h c = Some x" and "c \<in> set (conns_of n h)"
    and "e \<in> set es" and "se_kind e = SYNC_EVENT_ACCESS_REVOKED" and "se_node_id e = n"
  shows "\<exists>h'. react E es h = (Inr (), h') \<and> WsClose CLOSE_REVOKED \<in> set (sockets h' (nc_websocket x))"
proof -
  note task = hub_tasks.intro [OF assms(1)] and watch = watched.intro [OF assms(2)]
  let ?f = "\<lambda>n. close_node E n CLOSE_REVOKED ERR_REVOKED ''access revoked''"
  have close: "\<exists>h2. for_each ?f ns h1 = (Inr (), h2) \<and> hub_goes_on h1 h2 \<and> stays_in n c h1 h2" for ns h1
  proof -
    obtain h2 where h2: "for_each ?f ns h1 = (Inr (), h2)" using for_each_Inr [of ?f] close_node_returns [OF assms(1)] by blast
    have "guar hub_goes_on (for_each ?f ns)" by (intro hub_tasks.looping [OF task] hub_tasks.registry_tasks [OF task])
    moreover have "guar (stays_in n c) (for_each ?f ns)" by (intro watched.looping [OF watch] watched.node_kept [OF watch])
    ultimately show ?thesis using h2 guarD by blast
  qed
  have "n \<in> set (iter_set E (event_nodes SYNC_EVENT_ACCESS_REVOKED es))" using assms(3,7-9) by (auto simp: orders_def event_nodes_set)
  then obtain xs ys where ns: "iter_set E (event_nodes SYNC_EVENT_ACCESS_REVOKED es) = xs @ n # ys" by (meson split_list)
  obtain h1 where h1: "for_each ?f xs h = (Inr (), h1)" "hub_goes_on h h1" "stays_in n c h h1" using close by blast
  obtain h2 where h2: "?f n h1 = (Inr (), h2)" using close_node_returns [OF assms(1)] by blast
  have g2: "hub_goes_on h1 h2" using hub_tasks.registry_tasks(2) [OF task] h2 by (rule guarD)
  have r1: "registry_ok h1" "c \<in> set (conns_of n h1)" using h1 assms(4,6) by (simp_all add: hub_goes_on_def stays_in_def)
  note w2 = close_node_closes [OF assms(1,2) r1 h2]
  obtain h3 where h3: "for_each ?f ys h2 = (Inr (), h3)" "hub_goes_on h2 h3" using close by blast
  let ?g = "for_each (notify E) (iter_set E (filter (\<lambda>n. n \<notin> set (event_nodes SYNC_EVENT_ACCESS_REVOKED es)) (event_nodes SYNC_EVENT_DESIRED es)))"
  obtain h4 where h4: "?g h3 = (Inr (), h4)" using for_each_Inr [of "notify E"] notify_returns by blast
  have "guar hub_goes_on ?g" by (intro hub_tasks.looping [OF task] hub_tasks.registry_tasks [OF task])
  then have g4: "hub_goes_on h3 h4" using h4 by (rule guarD)
  obtain y where "conns h2 c = Some y" "nc_websocket y = nc_websocket x"
    using hub_goes_on_trans [OF h1(2) g2] assms(5) by (rule goes_on_obj)
  then have "WsClose CLOSE_REVOKED \<in> set (sockets h4 (nc_websocket x))"
    using w2 goes_on_calls [OF hub_goes_on_trans [OF h3(2) g4]] by (simp add: conn_at_def)
  moreover have "react E es h = (Inr (), h4)"
    using h1(1) h2 h3(1) h4 by (simp add: react_def Let_def ns for_each_append bnd_def)
  ultimately show ?thesis by blast
qed

section \<open>The cursor\<close>

text \<open>The database and what the services read of the environment stay as they are.\<close>

definition world_same :: "hub \<Rightarrow> hub \<Rightarrow> bool" where
  "world_same h h' \<longleftrightarrow> disk (hub_world h') = disk (hub_world h) \<and> tx (hub_world h') = tx (hub_world h) \<and> env (hub_world h') = env (hub_world h)"

interpretation idle: relying "alone E" world_same for E
  by unfold_locales (simp_all add: world_same_def alone_def)

lemma idle_calls: "guar world_same (ws_do (alone E) s a)" "guar world_same (update_conn c f)" "guar world_same (the_conn c)"
  by (simp_all add: guar_def ws_alone world_same_def update_conn_def modify_state_def the_conn_def read_state_def)

lemma idle_react: "guar world_same (react (alone E) es)"
  unfolding react_def Let_def close_node_def notify_def connections_for_def close_one_def send_def by (intro idle.rules idle_calls)

text \<open>The hub is as it was but for the counters and the clock.\<close>

definition same_hub :: "hub \<Rightarrow> hub \<Rightarrow> bool" where
  "same_hub h h' \<longleftrightarrow> by_node h' = by_node h \<and> conns h' = conns h \<and> sockets h' = sockets h \<and> world_same h h'"

inductive reactions :: "hub_env \<Rightarrow> SyncEvent list list \<Rightarrow> hub \<Rightarrow> hub \<Rightarrow> bool" for E where
  nothing: "same_hub h h' \<Longrightarrow> reactions E [] h h'"
| batch: "same_hub h h1 \<Longrightarrow> react (alone E) b h1 = (Inr (), h2) \<Longrightarrow> reactions E bs h2 h' \<Longrightarrow> reactions E (b # bs) h h'"

lemma same_hub_trans: "same_hub h h1 \<Longrightarrow> same_hub h1 h2 \<Longrightarrow> same_hub h h2"
  by (simp add: same_hub_def world_same_def)

lemma reactions_after: "reactions E bs h1 h' \<Longrightarrow> same_hub h h1 \<Longrightarrow> reactions E bs h h'"
  by (cases rule: reactions.cases) (auto intro: reactions.intros same_hub_trans)

lemma fetch_quiet:
  assumes "no_faults w" and "tx w = None" and "migrated (disk w)"
  shows "fetch_events cursor w = (Inr (select_since cursor WATCHER_BATCH (disk w)), next_tick (next_tick (next_tick w)))"
  using assms db_open_quiet [OF assms(3,2,1)]
  by (simp add: fetch_events_def with_db_def closing_def fetch_since_def wrap_db_def sql_query_def close_conn_def op_defs no_faults_def view_def)

text \<open>One round without failures.\<close>

lemma tick_quiet:
  assumes "no_faults (hub_world h)" and "tx (hub_world h) = None" and "migrated (disk (hub_world h))"
  obtains h1 where "same_hub h h1" and "watcher_tick (alone E) True (Some cursor) h =
    (let es = select_since cursor WATCHER_BATCH (disk (hub_world h)) in
     if es = [] then (Inr (Some cursor), h1)
     else (Inr (Some (Max (set (map se_id es)))), snd (react (alone E) es h1)))"
proof
  let ?es = "select_since cursor WATCHER_BATCH (disk (hub_world h))"
  define h1 where "h1 = h\<lparr> hub_world := next_tick (next_tick (next_tick (hub_world h))), awaits := Suc (Suc (Suc (Suc (awaits h)))) \<rparr>"
  show "same_hub h h1" by (simp add: same_hub_def world_same_def h1_def)
  have "suppress (react (alone E) ?es) h1 = (Inr (), snd (react (alone E) ?es h1))"
    using react_returns [OF single.others, of E ?es h1] by (auto simp: suppress_def try_except_def)
  then show "watcher_tick (alone E) True (Some cursor) h = (let es = ?es in
     if es = [] then (Inr (Some cursor), h1) else (Inr (Some (Max (set (map se_id es)))), snd (react (alone E) es h1)))"
    by (simp add: watcher_tick_def awaited_def thread_alone attempt_def op_defs fetch_quiet [OF assms] Let_def h1_def)
qed

lemma Max_last: "sorted_wrt (<) (map f es) \<Longrightarrow> es \<noteq> [] \<Longrightarrow> Max (f ` set es) = (f (last es) :: nat)"
proof (rule Max_eqI)
  fix y
  assume s: "sorted_wrt (<) (map f es)" and "es \<noteq> []" "y \<in> f ` set es"
  then show "y \<le> f (last es)" by (cases es rule: rev_cases) (auto simp: sorted_wrt_append)
qed simp_all

lemma batch_last:
  assumes "ids_ok (map se_id (sync_events d)) (events_seq d)" and "select_since c k d \<noteq> []"
  shows "Max (set (map se_id (select_since c k d))) = se_id (last (select_since c k d))"
proof -
  have "sorted_wrt (<) (map se_id (select_since c k d))"
    using assms(1) by (auto simp: select_since_eq [OF assms(1)] ids_ok_def sorted_wrt_map sorted_wrt_filter sorted_wrt_take)
  with assms(2) show ?thesis by (simp add: Max_last)
qed

lemma rounds_handle:
  assumes "no_faults (hub_world h)" and "tx (hub_world h) = None" and "migrated (disk (hub_world h))" and "disk (hub_world h) = d"
    and ids: "ids_ok (map se_id (sync_events d)) (events_seq d)"
  shows "\<exists>bs h'. watcher_rounds (alone E) (Some cursor) (replicate k True) h
      = (Inr (Some (if select_since cursor (k * WATCHER_BATCH) d = [] then cursor else se_id (last (select_since cursor (k * WATCHER_BATCH) d)))), h')
    \<and> concat bs = select_since cursor (k * WATCHER_BATCH) d \<and> reactions E bs h h'"
  using assms(1-4)
proof (induction k arbitrary: cursor h)
  case 0
  have "same_hub h h" by (simp add: same_hub_def world_same_def)
  then have "reactions E [] h h" by (rule nothing)
  then show ?case by (intro exI [of _ "[]"] exI [of _ h]) (simp add: ret_def select_since_def)
next
  case (Suc k)
  let ?es = "select_since cursor WATCHER_BATCH d" and ?all = "select_since cursor (Suc k * WATCHER_BATCH) d"
  obtain h1 where h1: "same_hub h h1" and t: "watcher_tick (alone E) True (Some cursor) h =
    (if ?es = [] then (Inr (Some cursor), h1) else (Inr (Some (Max (set (map se_id ?es)))), snd (react (alone E) ?es h1)))"
    by (rule tick_quiet [OF Suc.prems(1-3), of E cursor]) (simp only: Let_def Suc.prems(4))
  show ?case
  proof (cases "?es = []")
    case True
    have e: "select_since cursor m d = []" for m
      using True by (simp add: select_since_def WATCHER_BATCH_def)
    from Suc.IH [of h1 cursor] Suc.prems h1 obtain bs h' where
      "watcher_rounds (alone E) (Some cursor) (replicate k True) h1 = (Inr (Some cursor), h')" "concat bs = []" "reactions E bs h1 h'"
      by (auto simp: same_hub_def world_same_def no_faults_def e)
    then show ?thesis using t True reactions_after [OF _ h1] by (auto simp: bnd_def e)
  next
    case False
    define cur where "cur = se_id (last ?es)"
    obtain h2 where h2: "react (alone E) ?es h1 = (Inr (), h2)" using react_returns [OF single.others] by blast
    have "world_same h1 h2" using idle_react h2 by (rule guarD)
    then have w: "no_faults (hub_world h2)" "tx (hub_world h2) = None" "migrated (disk (hub_world h2))" "disk (hub_world h2) = d"
      using Suc.prems h1 by (simp_all add: same_hub_def world_same_def no_faults_def)
    from Suc.IH [OF w, of cur] obtain bs h' where IH:
      "watcher_rounds (alone E) (Some cur) (replicate k True) h2 = (Inr (Some (if select_since cur (k * WATCHER_BATCH) d = [] then cur else se_id (last (select_since cur (k * WATCHER_BATCH) d)))), h')"
      "concat bs = select_since cur (k * WATCHER_BATCH) d" "reactions E bs h2 h'" by blast
    have all: "?all = ?es @ select_since cur (k * WATCHER_BATCH) d"
      using select_since_resumes [OF ids False, of "k * WATCHER_BATCH"] by (simp add: cur_def)
    have "watcher_tick (alone E) True (Some cursor) h = (Inr (Some cur), h2)"
      using t False h2 batch_last [OF ids False] by (simp add: cur_def)
    then have "watcher_rounds (alone E) (Some cursor) (replicate (Suc k) True) h = watcher_rounds (alone E) (Some cur) (replicate k True) h2"
      by (simp add: bnd_def)
    moreover have "reactions E (?es # bs) h h'" by (rule batch [OF h1 h2 IH(3)])
    ultimately show ?thesis using IH(1,2) all False by (intro exI [of _ "?es # bs"] exI [of _ h']) (auto simp: cur_def)
  qed
qed

text \<open>
  C17. The watcher catches up and misses nothing. While no statement fails, its rounds react to the
  events after the cursor in the order of the queue, in batches that together are exactly
  those events, none twice; the cursor ends at the last event handled, and after as many rounds
  as there are full or partial batches of five hundred nothing is left.
\<close>

theorem watcher_catches_up:
  assumes "no_faults (hub_world h)" and "tx (hub_world h) = None" and "migrated (disk (hub_world h))" and "wf_db (disk (hub_world h))"
    and "length (filter (\<lambda>e. cursor < se_id e) (sync_events (disk (hub_world h)))) \<le> k * WATCHER_BATCH"
  shows "\<exists>cursor' h' bs. watcher_rounds (alone E) (Some cursor) (replicate k True) h = (Inr (Some cursor'), h')
    \<and> reactions E bs h h' \<and> concat bs = filter (\<lambda>e. cursor < se_id e) (sync_events (disk (hub_world h)))
    \<and> filter (\<lambda>e. cursor' < se_id e) (sync_events (disk (hub_world h))) = []"
proof -
  let ?d = "disk (hub_world h)"
  let ?p = "filter (\<lambda>e. cursor < se_id e) (sync_events ?d)"
  have ids: "ids_ok (map se_id (sync_events ?d)) (events_seq ?d)" using assms(4) by (simp add: wf_defs)
  have p: "select_since cursor (k * WATCHER_BATCH) ?d = ?p" using assms(5) by (simp add: select_since_eq [OF ids])
  from rounds_handle [OF assms(1-3) refl ids, of E cursor k] obtain bs h' where
    r: "watcher_rounds (alone E) (Some cursor) (replicate k True) h = (Inr (Some (if ?p = [] then cursor else se_id (last ?p))), h')"
      "concat bs = ?p" "reactions E bs h h'" unfolding p by blast
  have "e \<in> set (sync_events ?d) \<Longrightarrow> \<not> (if ?p = [] then cursor else se_id (last ?p)) < se_id e" for e
  proof (cases "?p = []")
    case False
    have "sorted_wrt (<) (map se_id ?p)" using ids by (auto simp: ids_ok_def sorted_wrt_map sorted_wrt_filter)
    then have "Max (se_id ` set ?p) = se_id (last ?p)" using False by (rule Max_last)
    moreover have "last ?p \<in> set ?p" using False by (rule last_in_set)
    moreover assume "e \<in> set (sync_events ?d)"
    moreover have "x \<in> set ?p \<Longrightarrow> se_id x \<le> Max (se_id ` set ?p)" for x by (simp add: Max_ge)
    ultimately show ?thesis using False by (cases "cursor < se_id e") (force simp: not_less)+
  qed (simp add: filter_empty_conv)
  then have "filter (\<lambda>e. (if ?p = [] then cursor else se_id (last ?p)) < se_id e) (sync_events ?d) = []"
    by (simp add: filter_empty_conv)
  with r show ?thesis by blast
qed

section \<open>The properties at work\<close>

definition revoked_event :: SyncEvent where
  "revoked_event = \<lparr> se_id = 1, se_node_id = ''n1'', se_kind = SYNC_EVENT_ACCESS_REVOKED, se_created_at = ''t1'' \<rparr>"

definition queue_hub :: hub where
  "queue_hub = busy_hub\<lparr> hub_world := start_world (ledger_db\<lparr> sync_events := [revoked_event], events_seq := 1 \<rparr>) \<rparr>"

lemma queue_ok: "migrated (ledger_db\<lparr> sync_events := [revoked_event], events_seq := 1 \<rparr>)" "wf_db (ledger_db\<lparr> sync_events := [revoked_event], events_seq := 1 \<rparr>)"
  using ledger_db_ok by (simp_all add: migrated_def has_table_def) (simp add: wf_frame ids_ok_def revoked_event_def)

theorem revocation_closes_connections_witness:
  "\<exists>h'. react calm_env [revoked_event] busy_hub = (Inr (), h') \<and> WsClose CLOSE_REVOKED \<in> set (sockets h' 1)"
proof -
  have "conns busy_hub ''a'' = Some (sample_conn ''a'' 1)" "''a'' \<in> set (conns_of ''n1'' busy_hub)" "spares calm_env ''n1'' ''a''" "orders calm_env"
    by (simp_all add: busy_hub_def conns_of_def spares_def stays_in_def orders_def calm_env_def)
  from revocation_closes_connections [OF calm_considerate this(3,4) busy_registry_ok this(1,2), of revoked_event "[revoked_event]"] show ?thesis
    by (simp add: revoked_event_def sample_conn_def)
qed

theorem watcher_catches_up_witness:
  "\<exists>cursor' h' bs. watcher_rounds (alone calm_env) (Some 0) (replicate 1 True) queue_hub = (Inr (Some cursor'), h') \<and> concat bs = [revoked_event]"
proof -
  have q: "hub_world queue_hub = start_world (ledger_db\<lparr> sync_events := [revoked_event], events_seq := 1 \<rparr>)" by (simp add: queue_hub_def)
  have "no_faults (hub_world queue_hub)" using ledger_db_ok(3) by (simp add: q no_faults_def)
  from watcher_catches_up [OF this, of 0 1 calm_env] queue_ok show ?thesis
    by (auto simp: q WATCHER_BATCH_def revoked_event_def simp del: watcher_rounds.simps replicate.simps)
qed

end
