(* ===== verification/Hub_Push.thy ===== *)
theory Hub_Push
  imports Hub_Watch
begin

text \<open>
  Pushing the desired state: what the hub remembers as pushed on a connection, when that
  makes repeated wakeups harmless, and the two ways in which it is wrong.
\<close>

section \<open>Reading without failures\<close>

definition quiet_hub :: "hub \<Rightarrow> bool" where
  "quiet_hub h \<longleftrightarrow> no_faults (hub_world h) \<and> tx (hub_world h) = None \<and> migrated (disk (hub_world h)) \<and> wf_db (disk (hub_world h))"

definition sha_at :: "hub \<Rightarrow> string \<Rightarrow> string" where
  "sha_at h = sha256_hex (env (hub_world h))"

definition hash_of :: "string \<Rightarrow> hub \<Rightarrow> string" where
  "hash_of n h = df_content_hash (fingerprint_of (sha_at h) n (disk (hub_world h)))"

lemma same_hub_quiet: "same_hub h h' \<Longrightarrow> quiet_hub h' = quiet_hub h" "same_hub h h' \<Longrightarrow> hash_of n h' = hash_of n h" "same_hub h h' \<Longrightarrow> sha_at h' = sha_at h"
  by (simp_all add: same_hub_def world_same_def quiet_hub_def hash_of_def sha_at_def no_faults_def)

lemma same_hub_refl: "same_hub h h"
  by (simp add: same_hub_def world_same_def)

text \<open>A read that returns leaves the hub as it was.\<close>

lemma thread_read:
  assumes "succeeds False (\<lambda>d'. d' = disk (hub_world h)) m (\<lambda>x d'. d' = disk (hub_world h) \<and> x = y)" and "quiet_hub h"
  obtains h1 where "to_thread (alone E) m h = (Inr y, h1)" and "same_hub h h1"
proof -
  obtain x w where w: "m (hub_world h) = (Inr x, w)" "tx w = None" "disk w = disk (hub_world h) \<and> x = y" "env w = env (hub_world h)"
    by (rule totalD [OF assms(1), of "hub_world h"]) (use assms(2) in \<open>auto simp: quiet_hub_def\<close>)
  then show ?thesis using assms(2) that by (auto simp: thread_alone same_hub_def world_same_def quiet_hub_def)
qed

lemma fingerprint_read:
  assumes "quiet_hub h"
  obtains h1 where "fingerprint_thread (alone E) n h = (Inr (fingerprint_of (sha_at h) n (disk (hub_world h))), h1)" and "same_hub h h1"
proof -
  let ?d = "disk (hub_world h)" and ?m = "compute_desired_fingerprint (sha_at h) n"
  have m: "succeeds False (\<lambda>d'. d' = ?d) ?m (\<lambda>x d'. d' = ?d \<and> x = fingerprint_of (sha_at h) n ?d)"
    by (rule total_pre [OF total_fingerprint]) (use assms in \<open>auto simp: quiet_hub_def\<close>)
  obtain h1 where h1: "to_thread (alone E) ?m h = (Inr (fingerprint_of (sha_at h) n ?d), h1)" "same_hub h h1"
    by (rule thread_read [OF m assms])
  have "fingerprint_thread (alone E) n h = to_thread (alone E) ?m h"
    by (simp add: fingerprint_thread_def thread_alone sha_of_def bnd_def read_state_def sha_at_def)
  with h1 that show ?thesis by simp
qed

lemma total_latest [total]: "succeeds b (\<lambda>d. R (select_latest n d) d) (latest_revision n) R"
  unfolding latest_revision_def by (rule total)+

lemma revision_read:
  assumes "quiet_hub h"
  obtains h1 where "to_thread (alone E) (current_revision n) h = (Inr (case find_pinned n (disk (hub_world h)) of
      Some p \<Rightarrow> Some (cr_revision p) | None \<Rightarrow> select_latest n (disk (hub_world h))), h1)" and "same_hub h h1"
proof (rule thread_read [OF _ assms])
  show "succeeds False (\<lambda>d'. d' = disk (hub_world h)) (current_revision n) (\<lambda>x d'. d' = disk (hub_world h) \<and>
      x = (case find_pinned n (disk (hub_world h)) of Some p \<Rightarrow> Some (cr_revision p) | None \<Rightarrow> select_latest n (disk (hub_world h))))"
    unfolding current_revision_def with_db_def
    by (rule total_pre, (rule total)+) (use assms in \<open>auto simp: quiet_hub_def split: option.splits\<close>)
qed

section \<open>Wakeups are idempotent\<close>

lemma push_skips:
  assumes "quiet_hub h" and "conns h c = Some x" and "nc_last_pushed_hash x = Some (hash_of (nc_node_id x) h)"
  obtains h' where "maybe_push_desired (alone E) c False r h = (Inr (), h')" and "same_hub h h'"
proof -
  obtain h1 where h1: "fingerprint_thread (alone E) (nc_node_id x) h = (Inr (fingerprint_of (sha_at h) (nc_node_id x) (disk (hub_world h))), h1)" "same_hub h h1"
    by (rule fingerprint_read [OF assms(1)])
  moreover have "conn_at h c = x" "conn_at h1 c = x" using assms(2) h1(2) by (simp_all add: conn_at_def same_hub_def)
  ultimately have "maybe_push_desired (alone E) c False r h = (Inr (), h1)"
    using assms(3) by (simp add: maybe_push_desired_def the_conn_def op_defs hash_of_def)
  with h1(2) that show ?thesis by blast
qed

section \<open>The handshake compares revisions, not contents\<close>

lemma send_alone:
  assumes "conns h c = Some x" and "working E (nc_websocket x)"
  shows "send (alone E) c e h = (Inr (), h\<lparr> sockets := (sockets h)(nc_websocket x := sockets h (nc_websocket x) @ [WsSend (encode e)]), awaits := Suc (Suc (awaits h)) \<rparr>)"
  using assms by (simp add: send_def the_conn_def ws_alone op_defs conn_at_def working_def)

lemma envelope_alone:
  "build_envelope (alone E) t p r h = (Inr (new_envelope (uuid_hex E (ids h)) (clock (env (hub_world h)) (tick (hub_world h))) t p r),
     h\<lparr> ids := Suc (ids h), hub_world := next_tick (hub_world h) \<rparr>)"
  by (simp add: build_envelope_def new_id_def in_world_def now_iso_def op_defs)

text \<open>
  The \<open>hello_ack\<close> trusts the revision the node caches. If it is the newest one recorded for the node,
  the ack says \<open>in_sync\<close> and the connection remembers the content as it is now as pushed, although no
  build has recorded it: whatever changed since that revision was recorded, the node is not sent it,
  and neither does a later wakeup send anything as long as the content stays.
\<close>

theorem hello_ack_skips_unrecorded_changes:
  assumes "quiet_hub h" and "conns h c = Some x" and "working E (nc_websocket x)" and "find_pinned (nc_node_id x) (disk (hub_world h)) = None"
    and "select_latest (nc_node_id x) (disk (hub_world h)) = Some rv" and "digest_of_revision rv \<noteq> Some (hash_of (nc_node_id x) h)"
  shows "\<exists>h1 h2 e. send_hello_ack (alone E) c (JStr rv) i h = (Inr True, h1) \<and> dict_get_value (env_payload e) ''in_sync'' = JBool True
    \<and> sockets h1 (nc_websocket x) = sockets h (nc_websocket x) @ [WsSend (encode e)]
    \<and> maybe_push_desired (alone E) c False None h1 = (Inr (), h2) \<and> sockets h2 = sockets h1"
proof -
  let ?n = "nc_node_id x" and ?s = "nc_websocket x"
  let ?fp = "fingerprint_of (sha_at h) ?n (disk (hub_world h))"
  obtain h1 where h1: "fingerprint_thread (alone E) ?n h = (Inr ?fp, h1)" "same_hub h h1" by (rule fingerprint_read [OF assms(1)])
  have q1: "quiet_hub h1" using same_hub_quiet(1) [OF h1(2)] assms(1) by simp
  obtain h2 where h2: "to_thread (alone E) (current_revision ?n) h1 = (Inr (Some rv), h2)" "same_hub h1 h2"
    by (rule revision_read [OF q1, of E ?n]) (use assms(4,5) h1(2) in \<open>simp add: same_hub_def world_same_def\<close>)
  have s2: "same_hub h h2" by (rule same_hub_trans [OF h1(2) h2(2)])
  define h3 where "h3 = h2\<lparr> conns := (conns h2)(c := Some (x\<lparr> nc_last_pushed_hash := Some (df_content_hash ?fp) \<rparr>)) \<rparr>"
  have u: "update_conn c (\<lambda>x. x\<lparr> nc_last_pushed_hash := Some (df_content_hash ?fp) \<rparr>) h2 = (Inr (), h3)"
    using s2 assms(2) by (simp add: update_conn_def modify_state_def h3_def same_hub_def)
  let ?p = "[(''node_id'', JStr ?n), (''server_version'', JStr (server_version (alone E))), (''revision'', json_opt (Some rv)), (''in_sync'', JBool True)]"
  define e where "e = new_envelope (uuid_hex E (ids h3)) (clock (env (hub_world h3)) (tick (hub_world h3))) MSG_HELLO_ACK ?p (Some i)"
  define h4 where "h4 = h3\<lparr> ids := Suc (ids h3), hub_world := next_tick (hub_world h3) \<rparr>"
  have b: "build_envelope (alone E) MSG_HELLO_ACK ?p (Some i) h3 = (Inr e, h4)" by (simp add: envelope_alone e_def h4_def)
  have c4: "conns h4 c = Some (x\<lparr> nc_last_pushed_hash := Some (df_content_hash ?fp) \<rparr>)" by (simp add: h4_def h3_def)
  define h5 where "h5 = h4\<lparr> sockets := (sockets h4)(?s := sockets h4 ?s @ [WsSend (encode e)]), awaits := Suc (Suc (awaits h4)) \<rparr>"
  have s: "send (alone E) c e h4 = (Inr (), h5)" using send_alone [OF c4, of E e] assms(3) by (simp add: h5_def)
  have run: "send_hello_ack (alone E) c (JStr rv) i h = (Inr True, h5)"
    using h1(1) h2(1) u b s assms(2) by (simp add: send_hello_ack_def the_conn_def op_defs conn_at_def Let_def)
  have w5: "world_same h h5" using s2 by (simp add: h5_def h4_def h3_def same_hub_def world_same_def)
  then have q5: "quiet_hub h5" "hash_of ?n h5 = df_content_hash ?fp"
    using assms(1) by (simp_all add: quiet_hub_def world_same_def hash_of_def sha_at_def no_faults_def)
  have "conns h5 c = Some (x\<lparr> nc_last_pushed_hash := Some (df_content_hash ?fp) \<rparr>)" using c4 by (simp add: h5_def)
  from push_skips [OF q5(1) this, of E None] q5(2) obtain h6 where "maybe_push_desired (alone E) c False None h5 = (Inr (), h6)" "same_hub h5 h6"
    by (metis NodeConnection.select_convs(1,5) NodeConnection.surjective NodeConnection.update_convs(5))
  moreover have "sockets h5 ?s = sockets h ?s @ [WsSend (encode e)]" using s2 by (simp add: h5_def h4_def h3_def same_hub_def)
  moreover have "dict_get_value (env_payload e) ''in_sync'' = JBool True" by (simp add: e_def new_envelope_def dict_get_value_def)
  ultimately show ?thesis using run by (intro exI [of _ h5] exI [of _ h6] exI [of _ e]) (simp add: same_hub_def)
qed

section \<open>A change between the fingerprint and the build\<close>

definition put_peers :: "bgp_peer_row list \<Rightarrow> hub \<Rightarrow> hub" where
  "put_peers ps h = h\<lparr> hub_world := (hub_world h)\<lparr> disk := (disk (hub_world h))\<lparr> bgp_peers := ps \<rparr> \<rparr> \<rparr>"

text \<open>
  Another process that replaces the peers when the fingerprint of the first push has been read, and
  puts them back before its frame is sent; \<open>k\<close> is the number of awaits before the push.
\<close>

definition meddling :: "hub_env \<Rightarrow> nat \<Rightarrow> bgp_peer_row list \<Rightarrow> bgp_peer_row list \<Rightarrow> hub_env" where
  "meddling E k ps2 ps1 = E\<lparr> interfere := (\<lambda>j h. if j = k + 1 then put_peers ps2 h else if j = k + 4 then put_peers ps1 h else h) \<rparr>"

lemma meddling_simps [simp]:
  "pause (meddling E k ps2 ps1) h = (let h' = h\<lparr> awaits := Suc (awaits h) \<rparr> in
     if awaits h = k + 1 then put_peers ps2 h' else if awaits h = k + 4 then put_peers ps1 h' else h')"
  "ws_raises (meddling E k ps2 ps1) = ws_raises E" "uuid_hex (meddling E k ps2 ps1) = uuid_hex E"
  by (simp_all add: pause_def meddling_def)

lemma fingerprint_meddled:
  assumes "quiet_hub h"
  obtains w1 where "fingerprint_thread (meddling E (awaits h) ps2 ps1) n h =
      (Inr (fingerprint_of (sha_at h) n (disk (hub_world h))), put_peers ps2 (h\<lparr> hub_world := w1, awaits := awaits h + 2 \<rparr>))"
    and "disk w1 = disk (hub_world h)" and "tx w1 = None" and "env w1 = env (hub_world h)"
proof -
  obtain x w1 where w1: "compute_desired_fingerprint (sha_at h) n (hub_world h) = (Inr x, w1)" "tx w1 = None"
      "disk w1 = disk (hub_world h) \<and> x = fingerprint_of (sha_at h) n (disk (hub_world h))" "env w1 = env (hub_world h)"
    by (rule totalD [OF total_fingerprint [of "disk (hub_world h)" "sha_at h" n], of "hub_world h"]) (use assms in \<open>auto simp: quiet_hub_def\<close>)
  show ?thesis
    by (rule that [of w1]) (use w1 in \<open>auto simp: fingerprint_thread_def to_thread_def awaited_def in_world_def sha_of_def bnd_def read_state_def sha_at_def\<close>)
qed

lemma build_live:
  assumes "no_faults w" and "tx w = None" and "migrated (disk w)" and "wf_db (disk w)" and "has_node (disk w) n" and "find_pinned n (disk w) = None"
  obtains w' rv gen where "build_desired_state sha n True 50 w = (Inr (live_state n rv gen (disk w)), w')" and "tx w' = None" and "env w' = env w"
    and "same_content (disk w) (disk w')" and "wf_db (disk w')" and "migrated (disk w')" and "find_pinned n (disk w') = None"
proof -
  obtain st w' where w': "build_desired_state sha n True 50 w = (Inr st, w')" "env w' = env w"
    by (rule totalD [OF total_build [of "disk w" n sha True 50], of w]) (use assms in auto)
  obtain gen rv' gen' where b: "tx w' = None" "migrated (disk w')" "wf_db (disk w')" "same_content (disk w) (disk w')"
    "built n (gen @ ''-'' @ live_digest sha n (disk w)) gen (live_snapshot n (gen @ ''-'' @ live_digest sha n (disk w)) gen (disk w)) 50 (disk w) rv' gen' (disk w')"
    "st = live_state n rv' gen' (disk w)"
    by (rule build_returns [OF assms(2-4) w'(1)]) (use assms(6) in simp)
  from built_keeps(3) [OF b(5) assms(4), of n] assms(6) have "find_pinned n (disk w') = None" by simp
  with that w' b show ?thesis by blast
qed

text \<open>What a node is sent now: the recorded snapshot of its pin, or its live configuration.\<close>

definition current_state :: "string \<Rightarrow> database \<Rightarrow> DesiredState \<Rightarrow> bool" where
  "current_state n d st \<longleftrightarrow> (case find_pinned n d of
     Some p \<Rightarrow> pinned_state (cr_payload p) = Inr st | None \<Rightarrow> (\<exists>rv gen. st = live_state n rv gen d))"

text \<open>A pin leads to a snapshot that can be read and sent, as every one the hub has recorded.\<close>

definition readable_pin :: "string \<Rightarrow> database \<Rightarrow> bool" where
  "readable_pin n d \<longleftrightarrow> (\<forall>p. find_pinned n d = Some p \<longrightarrow> (\<exists>st pl. pinned_state (cr_payload p) = Inr st \<and> push_payload st = Inr pl))"

lemma build_current:
  assumes "no_faults w" and "tx w = None" and "migrated (disk w)" and "wf_db (disk w)" and "has_node (disk w) n" and "readable_pin n (disk w)"
  obtains w' st where "build_desired_state sha n True 50 w = (Inr st, w')" and "tx w' = None" and "env w' = env w" and "wf_db (disk w')"
    and "migrated (disk w')" and "fingerprint_of sha n (disk w') = fingerprint_of sha n (disk w)"
    and "current_state n (disk w) st" and "content_hash sha st = df_content_hash (fingerprint_of sha n (disk w))"
proof -
  obtain st w' where w': "build_desired_state sha n True 50 w = (Inr st, w')" "env w' = env w"
    by (rule totalD [OF total_build [of "disk w" n sha True 50], of w]) (use assms in \<open>auto simp: readable_pin_def\<close>)
  obtain gen rv' gen' where b: "tx w' = None" "migrated (disk w')" "wf_db (disk w')" "same_content (disk w) (disk w')"
    "built n (gen @ ''-'' @ live_digest sha n (disk w)) gen (live_snapshot n (gen @ ''-'' @ live_digest sha n (disk w)) gen (disk w)) 50 (disk w) rv' gen' (disk w')"
    and st: "case find_pinned n (disk w) of Some p \<Rightarrow> pinned_state (cr_payload p) = Inr st | None \<Rightarrow> st = live_state n rv' gen' (disk w)"
    by (rule build_returns [OF assms(2-4) w'(1)])
  have "find_pinned n (disk w') = find_pinned n (disk w)" by (rule built_keeps(3) [OF b(5) assms(4)])
  then have f: "fingerprint_of sha n (disk w') = fingerprint_of sha n (disk w)"
    using same_content_live(1) [OF b(4), of sha n] by (simp add: fingerprint_of_def live_digest_def split: option.splits)
  have c: "current_state n (disk w) st" using st by (auto simp: current_state_def split: option.splits)
  have "content_hash sha st = df_content_hash (fingerprint_of sha n (disk w))"
    using st by (auto simp: fingerprint_of_def content_hash_live live_digest_def intro!: content_hash_pinned split: option.splits)
  with that [OF w'(1) b(1) w'(2) b(3,2) f c] show ?thesis by blast
qed

lemma push_payload_live: "\<exists>p. push_payload (live_state n rv gen d) = Inr p"
  by (simp add: push_payload_def desired_to_dict_def live_state_def live_bgp_def live_ibgp_def bindR_def Let_def)

lemma restored_ok:
  assumes "quiet_hub h" and "same_content ((disk (hub_world h))\<lparr> bgp_peers := ps2 \<rparr>) d'" and "wf_db d'"
    and "d1 = d'\<lparr> bgp_peers := bgp_peers (disk (hub_world h)) \<rparr>"
  shows "migrated d1" and "wf_db d1" and "live_digest sha n d1 = live_digest sha n (disk (hub_world h))"
proof -
  have s: "same_content (disk (hub_world h)) d1" using assms(2,4) by (simp add: same_content_def)
  with assms(1) show "migrated d1" using same_content_live(3) by (auto simp: quiet_hub_def)
  show "live_digest sha n d1 = live_digest sha n (disk (hub_world h))" by (rule same_content_live(1) [OF s])
  have "wf_db (disk (hub_world h))" using assms(1) by (simp add: quiet_hub_def)
  with assms(3) s show "wf_db d1" unfolding assms(4) same_content_def by (simp add: wf_frame)
qed

lemma put_peers_simps [simp]:
  "conns (put_peers ps h) = conns h" "sockets (put_peers ps h) = sockets h" "awaits (put_peers ps h) = awaits h" "ids (put_peers ps h) = ids h"
  "hub_world (put_peers ps h) = (hub_world h)\<lparr> disk := (disk (hub_world h))\<lparr> bgp_peers := ps \<rparr> \<rparr>" "by_node (put_peers ps h) = by_node h"
  by (simp_all add: put_peers_def)

text \<open>
  The fingerprint remembered as pushed is read before the state that is pushed is built. When
  another process changes the peers between the two reads and changes them back, the node has been
  sent the content in between, the connection remembers the content of now, and every later wakeup
  finds nothing to send: the node keeps a content the hub does not have any more.
\<close>

theorem push_remembers_wrong_content:
  assumes "quiet_hub h" and "conns h c = Some x" and "working E (nc_websocket x)" and "n = nc_node_id x"
    and "has_node (disk (hub_world h)) n" and "find_pinned n (disk (hub_world h)) = None"
    and "wf_db ((disk (hub_world h))\<lparr> bgp_peers := ps2 \<rparr>)" and "nc_last_pushed_hash x \<noteq> Some (hash_of n h)"
    and "live_digest (sha_at h) n ((disk (hub_world h))\<lparr> bgp_peers := ps2 \<rparr>) \<noteq> hash_of n h"
  shows "\<exists>h1 h2 st p e. maybe_push_desired (meddling E (awaits h) ps2 (bgp_peers (disk (hub_world h)))) c False None h = (Inr (), h1)
    \<and> sockets h1 (nc_websocket x) = sockets h (nc_websocket x) @ [WsSend (encode e)] \<and> push_payload st = Inr p \<and> env_payload e = p
    \<and> hash_of n h1 = hash_of n h \<and> content_hash (sha_at h) st \<noteq> hash_of n h1
    \<and> maybe_push_desired (alone E) c False None h1 = (Inr (), h2) \<and> sockets h2 = sockets h1"
proof -
  let ?d = "disk (hub_world h)" and ?s = "nc_websocket x" and ?k = "awaits h"
  let ?M = "meddling E ?k ps2 (bgp_peers ?d)" and ?fp = "fingerprint_of (sha_at h) n ?d" and ?d2 = "?d\<lparr> bgp_peers := ps2 \<rparr>"
  have sha: "hash_of n h = live_digest (sha_at h) n ?d" "df_content_hash ?fp = hash_of n h"
    using assms(6) by (simp_all add: hash_of_def fingerprint_of_def live_digest_def)
  obtain w1 where f: "fingerprint_thread ?M n h = (Inr ?fp, put_peers ps2 (h\<lparr> hub_world := w1, awaits := ?k + 2 \<rparr>))"
    and w1: "disk w1 = ?d" "tx w1 = None" "env w1 = env (hub_world h)" by (rule fingerprint_meddled [OF assms(1)])
  define h1 where "h1 = put_peers ps2 (h\<lparr> hub_world := w1, awaits := ?k + 2 \<rparr>)"
  have q: "no_faults (hub_world h1)" "tx (hub_world h1) = None" "migrated (disk (hub_world h1))" "wf_db (disk (hub_world h1))" "has_node (disk (hub_world h1)) n"
      "find_pinned n (disk (hub_world h1)) = None" "disk (hub_world h1) = ?d2" "env (hub_world h1) = env (hub_world h)"
    using assms(1,5,6,7) w1 by (simp_all add: h1_def quiet_hub_def no_faults_def migrated_def has_table_def has_node_def find_pinned_def find_pin_def find_revision_def split: option.splits)
  obtain w2 rv gen where b: "build_desired_state (sha_at h) n True 50 (hub_world h1) = (Inr (live_state n rv gen ?d2), w2)"
    and w2: "tx w2 = None" "env w2 = env (hub_world h)" "same_content ?d2 (disk w2)" "wf_db (disk w2)" "migrated (disk w2)" "find_pinned n (disk w2) = None"
    by (rule build_live [OF q(1-6), of "sha_at h"]) (use q(7,8) in auto)
  define st where "st = live_state n rv gen ?d2"
  obtain p where p: "push_payload st = Inr p" using push_payload_live unfolding st_def by blast
  define h2 where "h2 = h1\<lparr> hub_world := w2, awaits := ?k + 4 \<rparr>"
  have bt: "build_thread ?M n h1 = (Inr st, h2)"
    using b q(8) by (simp add: build_thread_def to_thread_def awaited_def in_world_def sha_of_def bnd_def read_state_def h1_def st_def h2_def sha_at_def)
  define e where "e = new_envelope (uuid_hex E (ids h2)) (clock (env w2) (tick w2)) MSG_DESIRED_PUSH p None"
  define h3 where "h3 = h2\<lparr> ids := Suc (ids h2), hub_world := next_tick w2 \<rparr>"
  have en: "build_envelope ?M MSG_DESIRED_PUSH p None h2 = (Inr e, h3)"
    by (simp add: build_envelope_def new_id_def in_world_def now_iso_def op_defs e_def h3_def h2_def)
  define h4 where "h4 = (put_peers (bgp_peers ?d) h3)\<lparr> sockets := (sockets h)(?s := sockets h ?s @ [WsSend (encode e)]), awaits := ?k + 6 \<rparr>"
  have c3: "conns h3 c = Some x" "sockets h3 = sockets h" "awaits h3 = ?k + 4" using assms(2) by (simp_all add: h3_def h2_def h1_def)
  have sn: "send ?M c e h3 = (Inr (), h4)"
    using c3 assms(3) by (simp add: send_def the_conn_def op_defs conn_at_def ws_do_def awaited_def working_def h4_def put_peers_def)
  define h5 where "h5 = h4\<lparr> conns := (conns h4)(c := Some (x\<lparr> nc_last_pushed_hash := Some (hash_of n h) \<rparr>)) \<rparr>"
  have up: "update_conn c (\<lambda>x. x\<lparr> nc_last_pushed_hash := Some (df_content_hash ?fp) \<rparr>) h4 = (Inr (), h5)"
    using c3(1) sha(2) by (simp add: update_conn_def modify_state_def h5_def h4_def)
  have c1: "conn_at h c = x" "conn_at h1 c = x" using assms(2) by (simp_all add: conn_at_def h1_def)
  have run: "maybe_push_desired ?M c False None h = (Inr (), h5)"
    using f [folded h1_def] bt en sn up p c1 assms(4,8) sha(2) by (simp add: maybe_push_desired_def the_conn_def op_defs)
  have w5: "hub_world h5 = (next_tick w2)\<lparr> disk := (disk w2)\<lparr> bgp_peers := bgp_peers ?d \<rparr> \<rparr>" by (simp add: h5_def h4_def h3_def)
  have d5: "disk (hub_world h5) = (disk w2)\<lparr> bgp_peers := bgp_peers ?d \<rparr>" "sha_at h5 = sha_at h" using w5 w2(2) by (simp_all add: sha_at_def)
  note ok = restored_ok [OF assms(1) w2(3,4) d5(1)]
  have q5: "quiet_hub h5" using ok w5 w2(1,2) assms(1) by (simp add: quiet_hub_def no_faults_def)
  have "find_pinned n (disk (hub_world h5)) = None"
    using w2(6) unfolding d5(1) by (simp add: find_pinned_def find_pin_def find_revision_def split: option.splits)
  then have hash: "hash_of n h5 = hash_of n h"
    using ok(3) [of "sha_at h" n] sha(1) d5(2) by (simp add: hash_of_def fingerprint_of_def live_digest_def)
  have "conns h5 c = Some (x\<lparr> nc_last_pushed_hash := Some (hash_of n h) \<rparr>)" by (simp add: h5_def)
  then obtain h6 where h6: "maybe_push_desired (alone E) c False None h5 = (Inr (), h6)" "same_hub h5 h6"
    by (rule push_skips [OF q5, of c _ E None]) (use hash assms(4) in simp_all)
  have "content_hash (sha_at h) st \<noteq> hash_of n h5" using hash assms(9) by (simp add: st_def content_hash_live)
  moreover have "sockets h5 ?s = sockets h ?s @ [WsSend (encode e)]" "env_payload e = p" by (simp_all add: h5_def h4_def e_def new_envelope_def)
  moreover have "sockets h6 = sockets h5" using h6(2) by (simp add: same_hub_def)
  ultimately show ?thesis using run p hash h6(1) by blast
qed

text \<open>
  C28. A wakeup delivers the content of now, once. While nothing fails and nobody interferes, a wakeup
  of a connection, of a node that follows its live configuration or of one that is rolled back to
  a snapshot that can be read, leaves the connection with the digest of the current content
  remembered as pushed. If it was not remembered already, exactly one frame was sent, with the
  current desired state, whose digest it is; otherwise nothing was sent. A second wakeup sends nothing. (Both
  conditions are needed: \<open>push_remembers_wrong_content\<close> has a process that interferes.)
\<close>

theorem wakeup_delivers_content:
  assumes "quiet_hub h" and "conns h c = Some x" and "working E (nc_websocket x)" and "n = nc_node_id x"
    and "has_node (disk (hub_world h)) n" and "readable_pin n (disk (hub_world h))"
  shows "\<exists>h1 h2. maybe_push_desired (alone E) c False None h = (Inr (), h1) \<and> conns h1 c = Some (x\<lparr> nc_last_pushed_hash := Some (hash_of n h) \<rparr>)
    \<and> (if nc_last_pushed_hash x = Some (hash_of n h) then sockets h1 = sockets h
       else \<exists>st p e. current_state n (disk (hub_world h)) st \<and> content_hash (sha_at h) st = hash_of n h
         \<and> push_payload st = Inr p \<and> env_type e = MSG_DESIRED_PUSH \<and> env_payload e = p
         \<and> sockets h1 = (sockets h)(nc_websocket x := sockets h (nc_websocket x) @ [WsSend (encode e)]))
    \<and> maybe_push_desired (alone E) c False None h1 = (Inr (), h2) \<and> sockets h2 = sockets h1"
proof (cases "nc_last_pushed_hash x = Some (hash_of n h)")
  case True
  then have t: "nc_last_pushed_hash x = Some (hash_of (nc_node_id x) h)" using assms(4) by simp
  obtain h1 where h1: "maybe_push_desired (alone E) c False None h = (Inr (), h1)" "same_hub h h1"
    by (rule push_skips [OF assms(1,2) t])
  have c1: "conns h1 c = Some x" using h1(2) assms(2) by (simp add: same_hub_def)
  obtain h2 where h2: "maybe_push_desired (alone E) c False None h1 = (Inr (), h2)" "same_hub h1 h2"
    by (rule push_skips [OF _ c1, of E None]) (use assms(1) t same_hub_quiet [OF h1(2)] in simp_all)
  have "x\<lparr> nc_last_pushed_hash := Some (hash_of n h) \<rparr> = x" using True by simp
  with True h1 h2 c1 show ?thesis by (auto simp: same_hub_def)
next
  case False
  let ?d = "disk (hub_world h)" and ?s = "nc_websocket x" and ?fp = "fingerprint_of (sha_at h) n (disk (hub_world h))"
  have sha: "df_content_hash ?fp = hash_of n h" by (simp add: hash_of_def)
  obtain h1 where f: "fingerprint_thread (alone E) n h = (Inr ?fp, h1)" and s1: "same_hub h h1" by (rule fingerprint_read [OF assms(1)])
  have q1: "quiet_hub h1" "disk (hub_world h1) = ?d" "sha_at h1 = sha_at h" "conn_at h1 c = x" "conns h1 c = Some x" "sockets h1 = sockets h"
    using same_hub_quiet [OF s1] assms(1,2) s1 by (simp_all add: same_hub_def world_same_def conn_at_def)
  obtain w2 st where b: "build_desired_state (sha_at h) n True 50 (hub_world h1) = (Inr st, w2)"
    and w2: "tx w2 = None" "env w2 = env (hub_world h1)" "wf_db (disk w2)" "migrated (disk w2)" "fingerprint_of (sha_at h) n (disk w2) = ?fp"
    and st: "current_state n ?d st" "content_hash (sha_at h) st = hash_of n h"
    by (rule build_current [of "hub_world h1" n "sha_at h"]) (use q1(1,2) assms(5,6) sha in \<open>auto simp: quiet_hub_def\<close>)
  have "\<exists>p. push_payload st = Inr p"
  proof (cases "find_pinned n ?d")
    case None
    with st(1) push_payload_live show ?thesis by (auto simp: current_state_def)
  next
    case (Some r)
    with st(1) assms(6) show ?thesis by (auto simp: current_state_def readable_pin_def)
  qed
  then obtain p where p: "push_payload st = Inr p" by blast
  define h2 where "h2 = h1\<lparr> hub_world := w2, awaits := Suc (Suc (awaits h1)) \<rparr>"
  have bt: "build_thread (alone E) n h1 = (Inr st, h2)"
    using b q1(3) by (simp add: build_thread_def thread_alone sha_of_def bnd_def read_state_def h2_def sha_at_def)
  define e where "e = new_envelope (uuid_hex E (ids h2)) (clock (env w2) (tick w2)) MSG_DESIRED_PUSH p None"
  define h3 where "h3 = h2\<lparr> ids := Suc (ids h2), hub_world := next_tick w2 \<rparr>"
  have en: "build_envelope (alone E) MSG_DESIRED_PUSH p None h2 = (Inr e, h3)" by (simp add: envelope_alone e_def h3_def h2_def)
  have c3: "conns h3 c = Some x" "sockets h3 = sockets h" using q1(5,6) by (simp_all add: h3_def h2_def)
  define h4 where "h4 = h3\<lparr> sockets := (sockets h)(?s := sockets h ?s @ [WsSend (encode e)]), awaits := Suc (Suc (awaits h3)) \<rparr>"
  have sn: "send (alone E) c e h3 = (Inr (), h4)" using send_alone [OF c3(1) assms(3)] c3(2) by (simp add: h4_def)
  define h5 where "h5 = h4\<lparr> conns := (conns h4)(c := Some (x\<lparr> nc_last_pushed_hash := Some (hash_of n h) \<rparr>)) \<rparr>"
  have up: "update_conn c (\<lambda>x. x\<lparr> nc_last_pushed_hash := Some (df_content_hash ?fp) \<rparr>) h4 = (Inr (), h5)"
    using c3(1) sha by (simp add: update_conn_def modify_state_def h5_def h4_def)
  have run: "maybe_push_desired (alone E) c False None h = (Inr (), h5)"
    using f bt en sn up p q1(4) assms(2,4) False sha by (simp add: maybe_push_desired_def the_conn_def op_defs conn_at_def)
  have w5: "hub_world h5 = next_tick w2" by (simp add: h5_def h4_def h3_def)
  have q5: "quiet_hub h5" "sha_at h5 = sha_at h"
    using w5 w2 q1(1,3) by (simp_all add: quiet_hub_def no_faults_def sha_at_def)
  have hash: "hash_of n h5 = hash_of n h"
    using w5 w2(5) q5(2) by (simp add: hash_of_def)
  have c5: "conns h5 c = Some (x\<lparr> nc_last_pushed_hash := Some (hash_of n h) \<rparr>)" by (simp add: h5_def)
  obtain h6 where h6: "maybe_push_desired (alone E) c False None h5 = (Inr (), h6)" "same_hub h5 h6"
    by (rule push_skips [OF q5(1) c5, of E None]) (use hash assms(4) in simp_all)
  have "sockets h5 = (sockets h)(?s := sockets h ?s @ [WsSend (encode e)])" "env_payload e = p" "env_type e = MSG_DESIRED_PUSH" by (simp_all add: h5_def h4_def e_def new_envelope_def)
  with run st p h6 c5 False show ?thesis by (auto simp: same_hub_def)
qed

section \<open>The properties at work\<close>

definition history_hub :: hub where
  "history_hub = busy_hub\<lparr> hub_world := start_world history_db \<rparr>"

lemma history_hub_ok: "quiet_hub history_hub" "conns history_hub ''a'' = Some (sample_conn ''a'' 1)" "working calm_env 1"
  using history_db_ok by (simp_all add: quiet_hub_def history_hub_def busy_hub_def no_faults_def working_def calm_env_def)

lemma digest_brace: "\<exists>t. compute_content_digest (\<lambda>s. s) a b c d = CHR 0x7B # t"
  by (simp add: compute_content_digest_def canon_object_def short_digest_def numeral_eq_Suc)

theorem hello_ack_skips_unrecorded_changes_witness:
  "\<exists>h1 h2. send_hello_ack (alone calm_env) ''a'' (JStr ''r-00000000'') ''q'' history_hub = (Inr True, h1)
     \<and> maybe_push_desired (alone calm_env) ''a'' False None h1 = (Inr (), h2) \<and> sockets h2 = sockets h1"
proof -
  have "find_pinned ''n1'' history_db = None" "select_latest ''n1'' history_db = Some ''r-00000000''"
    by (rule history_facts) (simp add: history_db_def ready_def select_latest_def newest_revisions_def)
  moreover have "digest_of_revision ''r-00000000'' = Some ''00000000''" by (simp add: digest_of_revision_def rpartition_at_def)
  moreover have "hash_of ''n1'' history_hub \<noteq> ''00000000''"
    using digest_brace [of "JStr ''n1''" "live_bgp (select_bgp ''n1'' history_db)" "live_ibgp (select_ibgp ''n1'' history_db)"
        "JObj (node_block (find_managed ''n1'' history_db))"]
    by (auto simp: hash_of_def fingerprint_of_def history_hub_def sha_at_def calculation start_world_def quiet_env_def)
  ultimately show ?thesis
    using hello_ack_skips_unrecorded_changes [OF history_hub_ok(1,2), of calm_env "''r-00000000''" "''q''"] history_hub_ok(3)
    by (auto simp: sample_conn_def history_hub_def)
qed

text \<open>A digest that tells an empty list of peers from another one.\<close>

definition race_hub :: hub where
  "race_hub = busy_hub\<lparr> hub_world := (start_world history_db)\<lparr> env := quiet_env\<lparr> sha256_hex := drop 14 \<rparr> \<rparr> \<rparr>"

lemma race_hub_ok: "quiet_hub race_hub" "conns race_hub ''a'' = Some (sample_conn ''a'' 1)" "disk (hub_world race_hub) = history_db" "sha_at race_hub = drop 14"
  using history_db_ok by (simp_all add: quiet_hub_def race_hub_def busy_hub_def no_faults_def sha_at_def)

lemma digest_peers: "\<exists>t. compute_content_digest (drop 14) a b c (JObj []) = take 8 (dumps (sort_keys b) @ t)"
  by (simp add: compute_content_digest_def canon_object_def short_digest_def dumps_str_def escape_char_def code_point_def numeral_eq_Suc)
    (rule exI, rule refl)

lemma race_digests:
  "live_digest (drop 14) ''n1'' (history_db\<lparr> bgp_peers := [bgp_row_of sample_bgp ''t0''] \<rparr>) \<noteq> live_digest (drop 14) ''n1'' history_db"
proof -
  let ?d = "history_db\<lparr> bgp_peers := [bgp_row_of sample_bgp ''t0''] \<rparr>"
  have m: "node_block (find_managed ''n1'' history_db) = []" "select_bgp ''n1'' history_db = []"
    by (simp_all add: history_db_def ready_def find_managed_def select_bgp_def node_block_def eval_rows)
  have "select_bgp ''n1'' ?d = [bgp_row_of sample_bgp ''t0'']" "node_block (find_managed ''n1'' ?d) = []"
    using m(1) by (simp_all add: select_bgp_def find_managed_def eval_rows)
  then obtain t where "live_digest (drop 14) ''n1'' ?d = take 8 (dumps (sort_keys (live_bgp [bgp_row_of sample_bgp ''t0''])) @ t)"
    using digest_peers by (simp add: live_digest_def) blast
  moreover obtain u where "live_digest (drop 14) ''n1'' history_db = take 8 (dumps (sort_keys (live_bgp [])) @ u)"
    using digest_peers m by (simp add: live_digest_def) blast
  ultimately show ?thesis by (simp add: live_bgp_def bgp_row_to_dict_def numeral_eq_Suc)
qed

theorem push_remembers_wrong_content_witness:
  "\<exists>h1 h2. maybe_push_desired (meddling calm_env 0 [bgp_row_of sample_bgp ''t0''] []) ''a'' False None race_hub = (Inr (), h1)
     \<and> length (sockets h1 1) = 2 \<and> maybe_push_desired (alone calm_env) ''a'' False None h1 = (Inr (), h2) \<and> sockets h2 = sockets h1"
proof -
  let ?ps = "[bgp_row_of sample_bgp ''t0'']"
  have w: "wf_db (history_db\<lparr> bgp_peers := ?ps \<rparr>)"
    by (simp add: history_db_def ready_def wf_frame eval_rows ids_ok_def single_self_def)
  have h: "hash_of ''n1'' race_hub = live_digest (drop 14) ''n1'' history_db"
    using history_facts(2) race_hub_ok(3,4) by (simp add: hash_of_def fingerprint_of_def live_digest_def)
  have a: "awaits race_hub = 0" "sockets race_hub = (\<lambda>_. [WsAccept])" "bgp_peers history_db = []"
    by (simp_all add: race_hub_def busy_hub_def history_db_def ready_def eval_rows)
  have "\<exists>h1 h2 st p e. maybe_push_desired (meddling calm_env (awaits race_hub) ?ps (bgp_peers (disk (hub_world race_hub)))) ''a'' False None race_hub = (Inr (), h1)
    \<and> sockets h1 (nc_websocket (sample_conn ''a'' 1)) = sockets race_hub (nc_websocket (sample_conn ''a'' 1)) @ [WsSend (encode e)] \<and> push_payload st = Inr p \<and> env_payload e = p
    \<and> hash_of ''n1'' h1 = hash_of ''n1'' race_hub \<and> content_hash (sha_at race_hub) st \<noteq> hash_of ''n1'' h1
    \<and> maybe_push_desired (alone calm_env) ''a'' False None h1 = (Inr (), h2) \<and> sockets h2 = sockets h1"
    by (rule push_remembers_wrong_content [OF race_hub_ok(1,2)])
      (use history_hub_ok(3) race_hub_ok w h history_facts race_digests in \<open>simp_all add: sample_conn_def\<close>)
  then show ?thesis unfolding a race_hub_ok(3) by (auto simp: sample_conn_def)
qed

theorem wakeup_delivers_content_witness:
  "\<exists>h1. maybe_push_desired (alone calm_env) ''a'' False None history_hub = (Inr (), h1) \<and> length (sockets h1 1) = 2"
proof -
  have "nc_last_pushed_hash (sample_conn ''a'' 1) \<noteq> Some (hash_of ''n1'' history_hub)" "sockets history_hub = (\<lambda>_. [WsAccept])"
    "disk (hub_world history_hub) = history_db"
    by (simp_all add: sample_conn_def history_hub_def busy_hub_def)
  note f = this
  have p: "working calm_env (nc_websocket (sample_conn ''a'' 1))" "''n1'' = nc_node_id (sample_conn ''a'' 1)"
    "has_node (disk (hub_world history_hub)) ''n1''" "readable_pin ''n1'' (disk (hub_world history_hub))"
    using history_hub_ok(3) history_facts(1,2) unfolding f(3) by (simp_all add: sample_conn_def readable_pin_def)
  obtain h1 e where "maybe_push_desired (alone calm_env) ''a'' False None history_hub = (Inr (), h1)"
    "sockets h1 = (sockets history_hub)(nc_websocket (sample_conn ''a'' 1) := sockets history_hub (nc_websocket (sample_conn ''a'' 1)) @ [WsSend (encode e)])"
    using wakeup_delivers_content [OF history_hub_ok(1,2) p] unfolding if_not_P [OF f(1)] by blast
  then show ?thesis unfolding f(2) by (auto simp: sample_conn_def)
qed

end
