(* ===== verification/Address.thy ===== *)
theory Address
  imports Frames
begin

text \<open>
  \<open>dn42ctl/services/node_address.py\<close>: a node's address is copied into the iBGP rows of other
  nodes, as \<open>peer_ip\<close> and as the host of \<open>endpoint\<close>. The services here plan and write the
  changes of these copies, link rows to the node they lead to, and move the rows of a stale
  partition to the self node.
\<close>

section \<open>Planning the propagation\<close>

record NodeAddressUpdate =
  au_node :: ManagedNode
  au_changes :: "PropagatedChange list"
  au_warnings :: "string list"
  au_dry_run :: bool

definition row_label :: "ibgp_peer_row \<Rightarrow> string" where
  "row_label r = p_node_id r @ ''/'' @ p_name r"

definition plan_peer_ip :: "string option \<Rightarrow> ibgp_peer_row \<Rightarrow> PropagatedChange list" where
  "plan_peer_ip own_ipv6 r =
     (if truthy own_ipv6 \<and> p_peer_ip r \<noteq> own_ipv6
      then [\<lparr> pc_node_id = p_node_id r, pc_name = p_name r, pc_field = ''peer_ip'', pc_old = p_peer_ip r,
              pc_new = the own_ipv6 \<rparr>]
      else [])"

definition plan_endpoint :: "string option \<Rightarrow> ibgp_peer_row \<Rightarrow> PropagatedChange list \<times> string list" where
  "plan_endpoint endpoint_host r =
     (if \<not> truthy endpoint_host then ([], [])
      else let current = strip (or_else (p_endpoint r) []) in
        if current = [] then ([], [row_label r @ '': endpoint empty (passive side), skipped''])
        else case split_endpoint current of
          Inl _ \<Rightarrow> ([], [row_label r @ '': endpoint cannot be parsed, skipped''])
        | Inr (_, port) \<Rightarrow>
            let new_endpoint = format_endpoint (the endpoint_host) port in
            if new_endpoint \<noteq> current
            then ([\<lparr> pc_node_id = p_node_id r, pc_name = p_name r, pc_field = ''endpoint'', pc_old = Some current,
                     pc_new = new_endpoint \<rparr>], [])
            else ([], []))"

fun plan_propagation ::
  "string option \<Rightarrow> string option \<Rightarrow> ibgp_peer_row list \<Rightarrow> PropagatedChange list \<times> string list" where
  "plan_propagation own_ipv6 endpoint_host [] = ([], [])"
| "plan_propagation own_ipv6 endpoint_host (r # rows) =
     (case plan_endpoint endpoint_host r of (cs, ws) \<Rightarrow>
      case plan_propagation own_ipv6 endpoint_host rows of (cs', ws') \<Rightarrow>
        (plan_peer_ip own_ipv6 r @ cs @ cs', ws @ ws'))"

section \<open>Updating the addresses of a node\<close>

text \<open>\<open>_validated\<close>: only a value that was given and is not \<open>None\<close> is validated.\<close>

fun validated_field :: "(string \<Rightarrow> string result) \<Rightarrow> string option unset \<Rightarrow> string option unset wop" where
  "validated_field validator (Given (Some v)) = bnd (validated (validator v)) (\<lambda>x. ret (Given (Some x)))"
| "validated_field validator v = ret v"

fun effective :: "'a unset \<Rightarrow> 'a \<Rightarrow> 'a" where
  "effective UNSET stored = stored"
| "effective (Given v) stored = v"

definition plan_update ::
  "string \<Rightarrow> bool \<Rightarrow> string option \<Rightarrow> string option \<Rightarrow> (PropagatedChange list \<times> string list) wop" where
  "plan_update node_id propagate ip host =
     (if propagate
      then bnd (list_ibgp_peers_by_remote node_id) (\<lambda>rows. case plan_propagation ip host rows of (changes, warnings) \<Rightarrow>
        ret (changes, warnings
          @ (if rows = [] \<and> (truthy ip \<or> truthy host) then [''no iBGP row leads to '' @ node_id] else [])
          @ (if ip = None \<and> rows \<noteq> [] then [''own_ipv6 not set, peer_ip unchanged''] else [])))
      else ret ([], []))"

definition set_node_addresses ::
  "string \<Rightarrow> string unset \<Rightarrow> bool unset \<Rightarrow> bool unset \<Rightarrow> string option unset \<Rightarrow> string option unset
   \<Rightarrow> string option unset \<Rightarrow> bool \<Rightarrow> bool \<Rightarrow> NodeAddressUpdate wop" where
  "set_node_addresses node_id name enabled auto_peer endpoint_host own_ipv6 router_id propagate dry_run =
     bnd (validated_field validate_endpoint_host endpoint_host) (\<lambda>endpoint_host.
     bnd (validated_field validate_ipv6_address own_ipv6) (\<lambda>own_ipv6.
     bnd (validated_field validate_router_id router_id) (\<lambda>router_id.
     with_db
       (bnd (managed_get node_id) (\<lambda>found. case found of
          None \<Rightarrow> raise (Dn42CtlError (''managed node not found: '' @ node_id))
        | Some node \<Rightarrow>
            bnd (plan_update node_id propagate (effective own_ipv6 (mn_own_ipv6 node))
                   (effective endpoint_host (mn_endpoint_host node))) (\<lambda>plan. case plan of (changes, warnings) \<Rightarrow>
            if dry_run
            then ret \<lparr> au_node = node, au_changes = changes, au_warnings = warnings, au_dry_run = True \<rparr>
            else bnd (managed_apply_address_update node_id name enabled auto_peer endpoint_host own_ipv6
                        router_id changes) (\<lambda>updated.
              ret \<lparr> au_node = updated, au_changes = changes, au_warnings = warnings, au_dry_run = False \<rparr>)))))))"

section \<open>Linking rows to nodes\<close>

text \<open>The dict \<open>by_ipv6\<close>, read with \<open>get(ip, [])\<close>.\<close>

definition by_ipv6 :: "ManagedNode list \<Rightarrow> string \<Rightarrow> string list" where
  "by_ipv6 ms = fold (\<lambda>m f. if truthy (mn_own_ipv6 m)
     then f(the (mn_own_ipv6 m) := f (the (mn_own_ipv6 m)) @ [mn_node_id m]) else f) ms (\<lambda>_. [])"

datatype link_plan =
    Skip string
  | Link string string string

definition plan_link :: "(string \<Rightarrow> string list) \<Rightarrow> ibgp_peer_row \<Rightarrow> link_plan" where
  "plan_link index r =
     (if truthy (p_remote_node_id r) then Skip (row_label r @ '': remote_node_id present'')
      else if \<not> truthy (p_peer_ip r) then Skip (row_label r @ '': peer_ip empty'')
      else case index (the (p_peer_ip r)) of
        [target] \<Rightarrow> Link (p_node_id r) (p_name r) target
      | [] \<Rightarrow> Skip (row_label r @ '': no managed node matches'')
      | _ \<Rightarrow> Skip (row_label r @ '': the match is not unique''))"

fun links_of :: "link_plan list \<Rightarrow> (string \<times> string \<times> string) list" where
  "links_of [] = []"
| "links_of (Link owner name target # ps) = (owner, name, target) # links_of ps"
| "links_of (Skip _ # ps) = links_of ps"

fun skips_of :: "link_plan list \<Rightarrow> string list" where
  "skips_of [] = []"
| "skips_of (Skip msg # ps) = msg # skips_of ps"
| "skips_of (Link _ _ _ # ps) = skips_of ps"

fun link_label :: "string \<times> string \<times> string \<Rightarrow> string" where
  "link_label (owner, name, target) = owner @ ''/'' @ name @ '' -> '' @ target"

fun link_row :: "string \<times> string \<times> string \<Rightarrow> database \<Rightarrow> (unit \<times> database) result" where
  "link_row (owner, name, target) d =
     Inr ((), d\<lparr> ibgp_peers := map (\<lambda>r. if ibgp_key owner name r then r\<lparr> p_remote_node_id := Some target \<rparr> else r)
                 (ibgp_peers d) \<rparr>)"

text \<open>
  \<open>try: body; commit() except sqlite3.Error: rollback(); raise Dn42CtlError(msg)\<close>: the bodies
  below raise nothing but \<open>sqlite3.Error\<close>.
\<close>

definition with_tx_ctl :: "string \<Rightarrow> 'a wop \<Rightarrow> 'a wop" where
  "with_tx_ctl msg body = as_ctl_error (with_tx (\<lambda>_. msg) body)"

text \<open>The query of the rows is not wrapped: its \<open>sqlite3.Error\<close> escapes.\<close>

definition backfill_remote_node_ids :: "bool \<Rightarrow> (string list \<times> string list) wop" where
  "backfill_remote_node_ids dry_run = with_db
     (bnd managed_list_all (\<lambda>ms.
      bnd (sql_query (\<lambda>d. sort_key (\<lambda>r. (p_node_id r, p_name r)) (ibgp_peers d))) (\<lambda>rows.
      let plans = map (plan_link (by_ipv6 ms)) rows; pending = links_of plans in
      bnd (if pending \<noteq> [] \<and> \<not> dry_run
           then with_tx_ctl ''writing remote_node_id failed'' (for_each (\<lambda>l. sql_dml (link_row l)) pending)
           else ret ()) (\<lambda>_.
      ret (map link_label pending, skips_of plans)))))"

section \<open>Moving a stale partition to the self node\<close>

record AdoptSelfResult =
  as_from_node_id :: string
  as_to_node_id :: string
  as_bgp_moved :: nat
  as_ibgp_moved :: nat
  as_dry_run :: bool

text \<open>\<open>UPDATE ... SET node_id=? WHERE node_id=?\<close> under the constraints of the table.\<close>

definition move_bgp :: "string \<Rightarrow> string \<Rightarrow> database \<Rightarrow> (unit \<times> database) result" where
  "move_bgp target source d =
     (let rs = map (\<lambda>r. if p_node_id r = source then r\<lparr> p_node_id := target \<rparr> else r) (bgp_peers d) in
      if ((\<exists>r \<in> set (bgp_peers d). p_node_id r = source) \<longrightarrow> has_node d target)
         \<and> distinct (map (\<lambda>r. (p_node_id r, p_peer_asn r)) rs) \<and> distinct (map (\<lambda>r. (p_node_id r, p_ifname r)) rs)
      then Inr ((), d\<lparr> bgp_peers := rs \<rparr>) else Inl SqliteIntegrityError)"

definition move_ibgp :: "string \<Rightarrow> string \<Rightarrow> database \<Rightarrow> (unit \<times> database) result" where
  "move_ibgp target source d =
     (let rs = map (\<lambda>r. if p_node_id r = source then r\<lparr> p_node_id := target \<rparr> else r) (ibgp_peers d) in
      if ((\<exists>r \<in> set (ibgp_peers d). p_node_id r = source) \<longrightarrow> has_node d target)
         \<and> distinct (map (\<lambda>r. (p_node_id r, p_name r)) rs) \<and> distinct (map (\<lambda>r. (p_node_id r, p_ifname r)) rs)
      then Inr ((), d\<lparr> ibgp_peers := rs \<rparr>) else Inl SqliteIntegrityError)"

definition adopt_self_partition :: "string \<Rightarrow> string option \<Rightarrow> bool \<Rightarrow> AdoptSelfResult wop" where
  "adopt_self_partition config_node_id from_node_id dry_run = with_db
     (bnd managed_get_self (\<lambda>self_node. case self_node of
        None \<Rightarrow> raise (Dn42CtlError ''no self node'')
      | Some m \<Rightarrow>
          let target = mn_node_id m; source = or_else from_node_id config_node_id in
          if source = target then raise (Dn42CtlError ''source partition is the self node'')
          else bnd (list_bgp_peers source) (\<lambda>bgp_rows.
               bnd (list_ibgp_peers source) (\<lambda>ibgp_rows.
               if bgp_rows = [] \<and> ibgp_rows = [] then raise (Dn42CtlError ''no peer rows in the source partition'')
               else bnd (list_bgp_peers target) (\<lambda>bt.
                    bnd (if bt \<noteq> [] then ret True else bnd (list_ibgp_peers target) (\<lambda>it. ret (it \<noteq> []))) (\<lambda>occupied.
                    if occupied then raise (Dn42CtlError ''the target partition is not empty'')
                    else bnd (if dry_run then ret ()
                              else with_tx_ctl ''moving peer rows failed''
                                (bnd (sql_dml (move_bgp target source)) (\<lambda>_.
                                 bnd (sql_dml (move_ibgp target source)) (\<lambda>_.
                                 emit_sync_event target SYNC_EVENT_DESIRED)))) (\<lambda>_.
                         ret \<lparr> as_from_node_id = source, as_to_node_id = target, as_bgp_moved = length bgp_rows,
                               as_ibgp_moved = length ibgp_rows, as_dry_run = dry_run \<rparr>)))))))"

section \<open>Propagation as a map on the mesh\<close>

text \<open>
  What an iBGP row says about the mesh: the row without its timestamps and without white space
  around its endpoint. The abstract operation redirects every link that leads to a node.
\<close>

definition mesh_link :: "ibgp_peer_row \<Rightarrow> IbgpPeerRecord" where
  "mesh_link r = (IbgpPeerRecord.truncate r)\<lparr> p_endpoint := map_option strip (p_endpoint r) \<rparr>"

definition follow_endpoint :: "string option \<Rightarrow> string option \<Rightarrow> string option" where
  "follow_endpoint host ep = (case ep of None \<Rightarrow> None | Some e \<Rightarrow>
     if \<not> truthy host then Some e
     else case split_endpoint e of Inl _ \<Rightarrow> Some e | Inr (_, port) \<Rightarrow> Some (strip (format_endpoint (the host) port)))"

definition redirect :: "string \<Rightarrow> string option \<Rightarrow> string option \<Rightarrow> IbgpPeerRecord \<Rightarrow> IbgpPeerRecord" where
  "redirect n ip host l =
     (if p_remote_node_id l = Some n
      then l\<lparr> p_peer_ip := (if truthy ip then ip else p_peer_ip l), p_endpoint := follow_endpoint host (p_endpoint l) \<rparr>
      else l)"

definition mesh :: "database \<Rightarrow> IbgpPeerRecord list" where
  "mesh d = map mesh_link (ibgp_peers d)"

text \<open>The changes of one row, and what they do to the row.\<close>

definition row_changes :: "string option \<Rightarrow> string option \<Rightarrow> ibgp_peer_row \<Rightarrow> PropagatedChange list" where
  "row_changes ip host r = plan_peer_ip ip r @ fst (plan_endpoint host r)"

definition change_row :: "string \<Rightarrow> PropagatedChange \<Rightarrow> ibgp_peer_row \<Rightarrow> ibgp_peer_row" where
  "change_row now c r =
     (if ibgp_key (pc_node_id c) (pc_name c) r
      then (if pc_field c = ''peer_ip'' then r\<lparr> p_peer_ip := Some (pc_new c), i_updated_at := now \<rparr>
            else r\<lparr> p_endpoint := Some (pc_new c), i_updated_at := now \<rparr>)
      else r)"

lemma plan_changes: "fst (plan_propagation ip host rows) = concat (map (row_changes ip host) rows)"
  by (induction rows) (simp_all add: row_changes_def case_prod_beta)

lemma propagate_all_rows: "ibgp_peers (propagate_all now cs d) = map (fold (change_row now) cs) (ibgp_peers d)"
proof (induction cs arbitrary: d)
  case (Cons c cs)
  have "propagate_all now (c # cs) d = propagate_all now cs (d\<lparr> ibgp_peers := map (change_row now c) (ibgp_peers d) \<rparr>)"
    by (simp add: propagate_all_def propagate_row_def change_row_def [abs_def])
  with Cons show ?case by simp
qed (simp add: propagate_all_def)

lemma row_changes_key:
  "c \<in> set (row_changes ip host r) \<Longrightarrow> pc_node_id c = p_node_id r \<and> pc_name c = p_name r
     \<and> pc_field c \<in> set PROPAGATABLE_PEER_COLUMNS"
  by (auto simp: row_changes_def plan_peer_ip_def plan_endpoint_def PROPAGATABLE_PEER_COLUMNS_def Let_def
      split: if_splits sum.splits)

lemma change_row_key [simp]:
  "p_node_id (change_row now c r) = p_node_id r" "p_name (change_row now c r) = p_name r"
  "p_remote_node_id (change_row now c r) = p_remote_node_id r"
  by (simp_all add: change_row_def)

lemma change_rows_key [simp]:
  "p_node_id (fold (change_row now) cs r) = p_node_id r" "p_name (fold (change_row now) cs r) = p_name r"
  "p_remote_node_id (fold (change_row now) cs r) = p_remote_node_id r"
  by (induction cs arbitrary: r) simp_all

lemma change_rows_other:
  "(\<And>c. c \<in> set cs \<Longrightarrow> (pc_node_id c, pc_name c) \<noteq> (p_node_id r, p_name r)) \<Longrightarrow> fold (change_row now) cs r = r"
proof (induction cs)
  case (Cons c cs)
  from Cons.prems [of c] have "change_row now c r = r" by (auto simp: change_row_def ibgp_key_def)
  with Cons show ?case by simp
qed simp

lemma change_rows_own:
  assumes "r \<in> set rows" and "distinct (map (\<lambda>r. (p_node_id r, p_name r)) rows)"
  shows "fold (change_row now) (concat (map (row_changes ip host) rows)) r = fold (change_row now) (row_changes ip host r) r"
proof -
  from assms(1) obtain xs ys where rows: "rows = xs @ r # ys" by (auto dest: split_list)
  have other: "fold (change_row now) (concat (map (row_changes ip host) zs)) r' = r'"
    if "(p_node_id r, p_name r) \<notin> (\<lambda>r. (p_node_id r, p_name r)) ` set zs" "p_node_id r' = p_node_id r" "p_name r' = p_name r"
    for zs r'
  proof (rule change_rows_other)
    fix c
    assume "c \<in> set (concat (map (row_changes ip host) zs))"
    then obtain z where "z \<in> set zs" "c \<in> set (row_changes ip host z)" by auto
    with row_changes_key [OF this(2)] that show "(pc_node_id c, pc_name c) \<noteq> (p_node_id r', p_name r')" by force
  qed
  from assms(2) rows have "(p_node_id r, p_name r) \<notin> (\<lambda>r. (p_node_id r, p_name r)) ` set xs"
    "(p_node_id r, p_name r) \<notin> (\<lambda>r. (p_node_id r, p_name r)) ` set ys" by auto
  then show ?thesis by (simp add: rows other)
qed

lemma split_endpoint_blank: "strip e = [] \<Longrightarrow> split_endpoint e = Inl (ValidationError ''empty endpoint'')"
  by (simp add: split_endpoint_def validate_endpoint_def bindR_def)

lemma change_row_followed:
  assumes "p_remote_node_id r = Some n"
  shows "mesh_link (fold (change_row now) (row_changes ip host r) r) = redirect n ip host (mesh_link r)"
proof -
  let ?r = "fold (change_row now) (plan_peer_ip ip r) r"
  have ip: "?r = r\<lparr> p_peer_ip := (if truthy ip then ip else p_peer_ip r), i_updated_at := i_updated_at ?r \<rparr>"
    by (auto simp: plan_peer_ip_def change_row_def ibgp_key_def truthy_def split: option.splits)
  have ep: "mesh_link (fold (change_row now) (fst (plan_endpoint host r)) r')
      = (mesh_link r')\<lparr> p_endpoint := follow_endpoint host (map_option strip (p_endpoint r)) \<rparr>"
    if "p_node_id r' = p_node_id r" "p_name r' = p_name r" "p_endpoint r' = p_endpoint r" for r'
  proof (cases "truthy host \<and> strip (or_else (p_endpoint r) []) \<noteq> []")
    case True
    then obtain e where e: "p_endpoint r = Some e" "strip e \<noteq> []" "truthy host"
      by (auto simp: or_else_def split: option.splits if_splits)
    then have "e \<noteq> []" by auto
    with e that show ?thesis
      by (auto simp: plan_endpoint_def change_row_def ibgp_key_def mesh_link_def IbgpPeerRecord.truncate_def
          follow_endpoint_def or_else_def Let_def split: sum.splits)
  next
    case False
    with that split_endpoint_blank show ?thesis
      by (auto simp: plan_endpoint_def mesh_link_def IbgpPeerRecord.truncate_def follow_endpoint_def or_else_def
          split: option.splits if_splits)
  qed
  have "p_endpoint ?r = p_endpoint r" "mesh_link ?r = (mesh_link r)\<lparr> p_peer_ip := (if truthy ip then ip else p_peer_ip r) \<rparr>"
    by (subst ip, simp add: mesh_link_def IbgpPeerRecord.truncate_def)+
  then show ?thesis
    by (simp add: row_changes_def ep redirect_def assms) (simp add: mesh_link_def IbgpPeerRecord.truncate_def assms)
qed

lemma mesh_link_simps [simp]:
  "p_node_id (mesh_link r) = p_node_id r" "p_name (mesh_link r) = p_name r"
  "p_remote_node_id (mesh_link r) = p_remote_node_id r" "p_peer_ip (mesh_link r) = p_peer_ip r"
  "p_endpoint (mesh_link r) = map_option strip (p_endpoint r)"
  by (simp_all add: mesh_link_def IbgpPeerRecord.truncate_def)

definition planned :: "string \<Rightarrow> string option \<Rightarrow> string option \<Rightarrow> database \<Rightarrow> PropagatedChange list" where
  "planned n ip host d = fst (plan_propagation ip host (select_ibgp_by_remote n d))"

text \<open>Applying the plan redirects the links; this is where the keys of the table are needed.\<close>

lemma propagation_redirects:
  assumes "wf_db d" and "ibgp_peers d1 = ibgp_peers d"
  shows "mesh (propagate_all now (planned n ip host d) d1) = map (redirect n ip host) (mesh d)"
proof -
  let ?rows = "select_ibgp_by_remote n d" and ?k = "\<lambda>r :: ibgp_peer_row. (p_node_id r, p_name r)"
  from assms(1) have key: "distinct (map ?k (ibgp_peers d))" by (simp add: wf_defs)
  have rows: "distinct (map ?k ?rows)"
    using distinct_map_filter_keys [OF key, of "\<lambda>r. p_remote_node_id r = Some n"]
    by (simp add: select_ibgp_by_remote_def distinct_map)
  have "mesh_link (fold (change_row now) (planned n ip host d) r) = redirect n ip host (mesh_link r)"
    if r: "r \<in> set (ibgp_peers d)" for r
  proof (cases "p_remote_node_id r = Some n")
    case True
    with r have "r \<in> set ?rows" by (simp add: select_ibgp_by_remote_def)
    from change_rows_own [OF this rows] change_row_followed [OF True] show ?thesis
      by (simp add: planned_def plan_changes)
  next
    case False
    have "fold (change_row now) (planned n ip host d) r = r"
    proof (rule change_rows_other)
      fix c
      assume "c \<in> set (planned n ip host d)"
      then obtain z where z: "z \<in> set ?rows" "c \<in> set (row_changes ip host z)" by (auto simp: planned_def plan_changes)
      then have "z \<in> set (ibgp_peers d)" "p_remote_node_id z = Some n" by (auto simp: select_ibgp_by_remote_def)
      with False r inj_onD [OF distinct_map [THEN iffD1, OF key, THEN conjunct2], of z r] have "?k z \<noteq> ?k r" by auto
      with row_changes_key [OF z(2)] show "(pc_node_id c, pc_name c) \<noteq> ?k r" by auto
    qed
    with False show ?thesis by (simp add: redirect_def)
  qed
  with assms(2) show ?thesis by (simp add: mesh_def propagate_all_rows)
qed

text \<open>A host that survives the round trip through an endpoint.\<close>

definition plain_host :: "string option \<Rightarrow> bool" where
  "plain_host host = (case host of None \<Rightarrow> True | Some h \<Rightarrow> validate_endpoint_host h = Inr h \<and> CHR 0x0A \<notin> set h)"

lemma followed_endpoint_stays:
  assumes "plain_host host" and "map_option strip (p_endpoint r) = follow_endpoint host ep"
  shows "fst (plan_endpoint host r) = []"
proof (cases "truthy host \<and> strip (or_else (p_endpoint r) []) \<noteq> []")
  case True
  then obtain e h where e: "p_endpoint r = Some e" "strip e \<noteq> []" "truthy host" and h: "host = Some h"
    by (cases host; cases "p_endpoint r") (auto simp: or_else_def truthy_def split: if_splits)
  then have ne: "e \<noteq> []" by auto
  from e(1) assms(2) obtain f where f: "ep = Some f" by (cases ep) (auto simp: follow_endpoint_def)
  show ?thesis
  proof (cases "split_endpoint f")
    case (Inl x)
    with assms(2) e f have "strip e = f" by (simp add: follow_endpoint_def)
    then have "split_endpoint e = Inl x" using Inl split_endpoint_strip [of e] by simp
    with e ne show ?thesis by (simp add: plan_endpoint_def or_else_def)
  next
    case (Inr x)
    then obtain p where p: "split_endpoint f = Inr (fst x, p)" by (cases x) auto
    from assms(1) h have "validate_endpoint_host h = Inr h" "CHR 0x0A \<notin> set h" by (simp_all add: plain_host_def)
    from formatted_endpoint [OF this] split_endpoint_port [OF p]
    have fmt: "split_endpoint (format_endpoint h p) = Inr (h, p)" "strip (format_endpoint h p) = format_endpoint h p" by auto
    with assms(2) e f h p have "strip e = format_endpoint h p" by (simp add: follow_endpoint_def)
    with fmt e ne h show ?thesis by (simp add: plan_endpoint_def or_else_def del: split_endpoint_strip)
  qed
qed (auto simp: plan_endpoint_def)

lemma redirect_simps [simp]:
  "p_remote_node_id (redirect n ip host l) = p_remote_node_id l"
  "p_remote_node_id l = Some n \<Longrightarrow> p_peer_ip (redirect n ip host l) = (if truthy ip then ip else p_peer_ip l)"
  "p_remote_node_id l = Some n \<Longrightarrow> p_endpoint (redirect n ip host l) = follow_endpoint host (p_endpoint l)"
  by (simp_all add: redirect_def)

lemma redirected_settles:
  assumes "mesh d' = map (redirect n ip host) (mesh d)" and "plain_host host"
  shows "planned n ip host d' = []"
proof -
  have "row_changes ip host r = []" if r: "r \<in> set (ibgp_peers d')" "p_remote_node_id r = Some n" for r
  proof -
    from r(1) have "mesh_link r \<in> set (mesh d')" by (simp add: mesh_def)
    with assms(1) obtain l where l: "mesh_link r = redirect n ip host l" by auto
    then have n: "p_remote_node_id l = Some n" using r(2) by (metis mesh_link_simps(3) redirect_simps(1))
    from l n have "truthy ip \<Longrightarrow> p_peer_ip r = ip" "map_option strip (p_endpoint r) = follow_endpoint host (p_endpoint l)"
      by (metis mesh_link_simps(4) redirect_simps(2), metis mesh_link_simps(5) redirect_simps(3))
    with followed_endpoint_stays [OF assms(2) this(2)] show ?thesis by (auto simp: row_changes_def plan_peer_ip_def)
  qed
  then show ?thesis by (auto simp: planned_def plan_changes select_ibgp_by_remote_def)
qed

section \<open>What an address update does\<close>

lemma outcome_all_or_nothing: "all_or_nothing m R \<Longrightarrow> op_spec m S \<Longrightarrow> outcome m S (\<lambda>d d'. d' = d \<or> R d d')"
proof (rule outcomeI)
  fix w r w'
  assume a: "all_or_nothing m R" and sp: "op_spec m S" and w: "tx w = None" and run: "m w = (r, w')"
  note d = all_or_nothingD [OF a w run]
  show "tx w' = None \<and> (case r of Inr x \<Rightarrow> S (disk w) x (disk w') | Inl e \<Rightarrow> disk w' = disk w \<or> R (disk w) (disk w'))"
    using d op_specD [OF sp, of w] run w by (cases r) (auto simp: view_no_tx)
qed

lemmas outcome_update_fields [services] = outcome_all_or_nothing [OF managed_update_fields_outcome managed_update_fields_spec]

lemma outcome_by_remote [services]:
  "outcome (list_ibgp_peers_by_remote n) (\<lambda>d x d'. x = select_ibgp_by_remote n d \<and> d' = d) (\<lambda>d d'. d' = d)"
  by (rule outcome_read, rule read_only_methods, rule read_specs)

fun field_checked :: "(string \<Rightarrow> string result) \<Rightarrow> string option unset \<Rightarrow> string option unset \<Rightarrow> bool" where
  "field_checked f (Given (Some v)) x = (\<exists>y. f v = Inr y \<and> x = Given (Some y))"
| "field_checked f v x = (x = v)"

lemma field_checked_unique: "field_checked f v x \<Longrightarrow> field_checked f v y \<Longrightarrow> x = y"
  by (cases "(f, v, x)" rule: field_checked.cases) auto

lemma outcome_validated_field [services]:
  "outcome (validated_field f v) (\<lambda>d x d'. field_checked f v x \<and> d' = d) (\<lambda>d d'. d' = d)"
proof (cases "(f, v, v)" rule: field_checked.cases)
  case 1
  then show ?thesis by simp (rule outcome_conseq, (rule services)+, auto)
qed (simp; rule outcome_conseq, (rule services)+, auto)+

definition update_changes :: "string \<Rightarrow> bool \<Rightarrow> string option \<Rightarrow> string option \<Rightarrow> database \<Rightarrow> PropagatedChange list" where
  "update_changes n p ip host d = (if p then planned n ip host d else [])"

definition plan_warnings :: "string \<Rightarrow> bool \<Rightarrow> string option \<Rightarrow> string option \<Rightarrow> database \<Rightarrow> string list" where
  "plan_warnings n p ip host d = (let rows = select_ibgp_by_remote n d in
     if p then snd (plan_propagation ip host rows)
          @ (if rows = [] \<and> (truthy ip \<or> truthy host) then [''no iBGP row leads to '' @ n] else [])
          @ (if ip = None \<and> rows \<noteq> [] then [''own_ipv6 not set, peer_ip unchanged''] else [])
     else [])"

lemma outcome_plan_update [services]:
  "outcome (plan_update n p ip host)
     (\<lambda>d x d'. x = (update_changes n p ip host d, plan_warnings n p ip host d) \<and> d' = d) (\<lambda>d d'. d' = d)"
  unfolding plan_update_def
  by (rule outcome_triple, rule triple_pre, (rule wp | rule triple_outcome, rule services)+)
    (auto simp: update_changes_def planned_def plan_warnings_def Let_def)

definition update_fields ::
  "string unset \<Rightarrow> bool unset \<Rightarrow> bool unset \<Rightarrow> string option unset \<Rightarrow> string option unset \<Rightarrow> string option unset \<Rightarrow> node_field list" where
  "update_fields nm en ap eh ip rid = address_fields eh ip rid @ (case nm of UNSET \<Rightarrow> [] | Given v \<Rightarrow> [FName v]) @
     (case en of UNSET \<Rightarrow> [] | Given v \<Rightarrow> [FEnabled v]) @ (case ap of UNSET \<Rightarrow> [] | Given v \<Rightarrow> [FAutoPeer v])"

inductive addressed ::
  "string \<Rightarrow> string unset \<Rightarrow> bool unset \<Rightarrow> bool unset \<Rightarrow> string option unset \<Rightarrow> string option unset \<Rightarrow> string option unset
   \<Rightarrow> bool \<Rightarrow> database \<Rightarrow> PropagatedChange list \<Rightarrow> string list \<Rightarrow> ManagedNode \<Rightarrow> database \<Rightarrow> bool"
  for n nm en ap eh ip rid p d where
  "field_checked validate_endpoint_host eh eh' \<Longrightarrow> field_checked validate_ipv6_address ip ip' \<Longrightarrow> field_checked validate_router_id rid rid' \<Longrightarrow>
   find_managed n d = Some node \<Longrightarrow>
   cs = update_changes n p (effective ip' (mn_own_ipv6 node)) (effective eh' (mn_endpoint_host node)) d \<Longrightarrow>
   ws = plan_warnings n p (effective ip' (mn_own_ipv6 node)) (effective eh' (mn_endpoint_host node)) d \<Longrightarrow>
   fields_written n (update_fields nm en ap eh' ip' rid') (address_events n en ip' rid' cs) cs d d' \<Longrightarrow>
   addressed n nm en ap eh ip rid p d cs ws node d'"

lemma outcome_set_addresses:
  "outcome (set_node_addresses n nm en ap eh ip rid p False)
     (\<lambda>d u d'. migrated d \<longrightarrow> \<not> au_dry_run u \<and> find_managed n d' = Some (au_node u) \<and>
        (\<exists>node. addressed n nm en ap eh ip rid p d (au_changes u) (au_warnings u) node d'))
     (\<lambda>d d'. migrated d \<longrightarrow> d' = d \<or> (\<exists>cs ws node. addressed n nm en ap eh ip rid p d cs ws node d'))"
  unfolding set_node_addresses_def managed_apply_address_update_def if_False
  by (rule outcome_migrated, rule triple_pre, (rule wp | rule triple_outcome, rule services)+)
    (auto simp: update_fields_def [symmetric] dest: addressed.intros [OF _ _ _ _ refl refl])

lemma update_fields_addresses:
  "mn_own_ipv6 (fold set_field (update_fields nm en ap eh ip rid) m) = effective ip (mn_own_ipv6 m)"
  "mn_endpoint_host (fold set_field (update_fields nm en ap eh ip rid) m) = effective eh (mn_endpoint_host m)"
  by (simp_all add: update_fields_def address_fields_def split: unset.splits)

lemma fields_written_node:
  assumes "fields_written n fs evs cs d d'" and "find_managed n d = Some m"
  shows "\<exists>now. find_managed n d' = Some ((fold set_field fs m)\<lparr> mn_updated_at := now \<rparr>)"
proof -
  from assms(1) obtain now c d1 where
    u: "update_managed n (\<lambda>m. (fold set_field fs m)\<lparr> mn_updated_at := now \<rparr>) d = Inr (c, d1)"
    and e: "emitted evs (propagate_all now cs d1) d'" unfolding fields_written_def by blast
  from emitted_frame [OF e] propagate_frame have "managed_nodes d' = managed_nodes d1" by simp
  with update_managed_find [OF u] assms(2) show ?thesis by (auto simp: find_managed_def)
qed

lemma fields_written_rows:
  assumes "fields_written n fs evs cs d d'"
  obtains now d1 where "ibgp_peers d1 = ibgp_peers d" "mesh d' = mesh (propagate_all now cs d1)"
    "bgp_peers d' = bgp_peers d" "events_seq d1 = events_seq d" "emitted evs (propagate_all now cs d1) d'"
proof -
  from assms obtain now c d1 where
    u: "update_managed n (\<lambda>m. (fold set_field fs m)\<lparr> mn_updated_at := now \<rparr>) d = Inr (c, d1)"
    and e: "emitted evs (propagate_all now cs d1) d'" unfolding fields_written_def by blast
  from emitted_frame [OF e] propagate_frame u show thesis
    by (intro that [of d1 now]) (auto simp: update_managed_def mesh_def e)
qed

lemma changed_nodes_all: "c \<in> set cs \<Longrightarrow> pc_node_id c \<notin> set seen \<Longrightarrow> pc_node_id c \<in> set (changed_nodes seen cs)"
proof (induction cs arbitrary: seen)
  case (Cons a cs)
  show ?case using Cons.prems Cons.IH [of seen] Cons.IH [of "pc_node_id a # seen"]
    by (cases "pc_node_id c = pc_node_id a") auto
qed simp

lemma changed_nodes_length: "length (changed_nodes seen cs) \<le> length cs"
proof (induction cs arbitrary: seen)
  case (Cons c cs)
  then show ?case by (auto intro: le_SucI)
qed simp

lemma address_events_announce:
  assumes "fields_written n fs (address_events n en ip rid cs) cs d d'" and "length cs \<le> 998"
    and "c \<in> set cs" and "pc_node_id c \<noteq> n"
  shows "\<exists>e \<in> set (sync_events d'). se_node_id e = pc_node_id c \<and> se_kind e = SYNC_EVENT_DESIRED \<and> events_seq d < se_id e"
proof -
  let ?evs = "address_events n en ip rid cs"
  from fields_written_rows [OF assms(1)] obtain now d1 where
    e: "events_seq d1 = events_seq d" "emitted ?evs (propagate_all now cs d1) d'" by blast
  have "length ?evs \<le> 1000" using assms(2) changed_nodes_length [of "[n]" cs] by (simp add: address_events_def)
  moreover have "(pc_node_id c, SYNC_EVENT_DESIRED) \<in> set ?evs"
    using changed_nodes_all [OF assms(3)] assms(4) by (auto simp: address_events_def)
  ultimately show ?thesis using emitted_announces [OF e(2)] e(1) by (simp add: propagate_frame)
qed

text \<open>
  C5. Changing the addresses of a node refines one operation on the mesh: when
  \<open>set_node_addresses\<close> with propagation returns, the registry holds the node it returns, every
  iBGP row that leads to the node has the node's address as \<open>peer_ip\<close> and the node's host with
  the old port as endpoint, every other row and every BGP row says what it said before; the
  same plan made again changes nothing if the host is plain, and every other node with a
  changed row is notified.
\<close>

theorem set_node_addresses_refines:
  assumes "tx w = None" and "migrated (disk w)" and "wf_db (disk w)"
    and run: "set_node_addresses n nm en ap eh ip rid True False w = (Inr u, w')"
  shows "find_managed n (disk w') = Some (au_node u)
    \<and> mesh (disk w') = map (redirect n (mn_own_ipv6 (au_node u)) (mn_endpoint_host (au_node u))) (mesh (disk w))
    \<and> bgp_peers (disk w') = bgp_peers (disk w)
    \<and> (plain_host (mn_endpoint_host (au_node u)) \<longrightarrow>
         planned n (mn_own_ipv6 (au_node u)) (mn_endpoint_host (au_node u)) (disk w') = [])
    \<and> (length (au_changes u) \<le> 998 \<longrightarrow> (\<forall>c \<in> set (au_changes u). pc_node_id c \<noteq> n \<longrightarrow>
         (\<exists>e \<in> set (sync_events (disk w')). se_node_id e = pc_node_id c \<and> se_kind e = SYNC_EVENT_DESIRED
            \<and> events_seq (disk w) < se_id e)))"
proof -
  from outcomeD(2) [OF outcome_set_addresses assms(1) run refl] assms(2) obtain node where
    node: "find_managed n (disk w') = Some (au_node u)" and
    a: "addressed n nm en ap eh ip rid True (disk w) (au_changes u) (au_warnings u) node (disk w')" by blast
  from a show ?thesis
  proof cases
    case (1 eh' ip' rid')
    note w = 1(7)
    from fields_written_node [OF w 1(4)] node have
      ad: "mn_own_ipv6 (au_node u) = effective ip' (mn_own_ipv6 node)"
        "mn_endpoint_host (au_node u) = effective eh' (mn_endpoint_host node)"
      by (auto simp: update_fields_addresses)
    from fields_written_rows [OF w] obtain now d1 where d1: "ibgp_peers d1 = ibgp_peers (disk w)"
      "mesh (disk w') = mesh (propagate_all now (au_changes u) d1)" "bgp_peers (disk w') = bgp_peers (disk w)" by blast
    from propagation_redirects [OF assms(3) d1(1)] d1(2) 1(5) ad
    have mesh: "mesh (disk w') = map (redirect n (mn_own_ipv6 (au_node u)) (mn_endpoint_host (au_node u))) (mesh (disk w))"
      by (simp add: update_changes_def)
    from redirected_settles [OF mesh] address_events_announce [OF w] node mesh d1(3) show ?thesis by blast
  qed
qed

text \<open>What an update reports depends on the database and its arguments only.\<close>

inductive address_plan ::
  "string \<Rightarrow> string option unset \<Rightarrow> string option unset \<Rightarrow> bool \<Rightarrow> database \<Rightarrow> PropagatedChange list \<Rightarrow> string list \<Rightarrow> bool"
  for n eh ip p d where
  "field_checked validate_endpoint_host eh eh' \<Longrightarrow> field_checked validate_ipv6_address ip ip' \<Longrightarrow> find_managed n d = Some node \<Longrightarrow>
   address_plan n eh ip p d (update_changes n p (effective ip' (mn_own_ipv6 node)) (effective eh' (mn_endpoint_host node)) d)
     (plan_warnings n p (effective ip' (mn_own_ipv6 node)) (effective eh' (mn_endpoint_host node)) d)"

lemma address_plan_unique:
  assumes "address_plan n eh ip p d cs ws" and "address_plan n eh ip p d cs' ws'"
  shows "cs' = cs \<and> ws' = ws"
  using assms
proof (induction rule: address_plan.induct)
  case (1 eh1 ip1 node1)
  from 1(4) show ?case
  proof cases
    case (1 eh2 ip2 node2)
    with field_checked_unique [OF \<open>field_checked validate_endpoint_host eh eh1\<close> 1(3)]
      field_checked_unique [OF \<open>field_checked validate_ipv6_address ip ip1\<close> 1(4)] \<open>find_managed n d = Some node1\<close>
    show ?thesis by simp
  qed
qed

lemma addressed_plan: "addressed n nm en ap eh ip rid p d cs ws node d' \<Longrightarrow> address_plan n eh ip p d cs ws"
  by (induction rule: addressed.induct) (simp add: address_plan.intros)

lemma outcome_dry_run:
  "outcome (set_node_addresses n nm en ap eh ip rid p True)
     (\<lambda>d u d'. migrated d \<longrightarrow> d' = d \<and> address_plan n eh ip p d (au_changes u) (au_warnings u))
     (\<lambda>d d'. migrated d \<longrightarrow> d' = d)"
  unfolding set_node_addresses_def if_True
  by (rule outcome_migrated, rule triple_pre, (rule wp | rule triple_outcome, rule services)+)
    (auto intro: address_plan.intros)

text \<open>
  A dry run writes nothing and tells what the update would do: started on the same
  database, the update reports the same changes and the same warnings.
\<close>

theorem dry_run_predicts:
  assumes "tx w = None" and "migrated (disk w)" and "tx v = None" and "disk v = disk w"
    and "set_node_addresses n nm en ap eh ip rid p True w = (Inr u, w')"
    and "set_node_addresses n nm en ap eh ip rid p False v = (Inr u', v')"
  shows "disk w' = disk w \<and> au_changes u' = au_changes u \<and> au_warnings u' = au_warnings u"
proof -
  from outcomeD(2) [OF outcome_dry_run assms(1,5) refl] assms(2)
  have "disk w' = disk w" "address_plan n eh ip p (disk w) (au_changes u) (au_warnings u)" by simp_all
  moreover from outcomeD(2) [OF outcome_set_addresses assms(3,6) refl] assms(2,4)
  have "address_plan n eh ip p (disk w) (au_changes u') (au_warnings u')" by (auto dest: addressed_plan)
  ultimately show ?thesis using address_plan_unique by blast
qed

section \<open>Updates return\<close>

lemma total_by_remote [total]: "succeeds b (\<lambda>d. R (select_ibgp_by_remote n d) d) (list_ibgp_peers_by_remote n) R"
  unfolding list_ibgp_peers_by_remote_def by (rule total)+

lemma total_validated: "succeeds b (\<lambda>d. \<exists>x. r = Inr x \<and> R x d) (validated r) R"
  by (auto simp: succeeds_def validated_def ret_def)

lemma total_validated_field [total]:
  "succeeds b (\<lambda>d. \<exists>x. field_checked f v x \<and> R x d) (validated_field f v) R"
proof (cases "(f, v, v)" rule: field_checked.cases)
  case (1 g u x)
  then show ?thesis by simp (rule total_pre, rule total, rule total, rule total_validated, auto)
qed (simp; rule total_pre, rule total, simp)+

lemma total_changes:
  assumes "\<forall>c \<in> set cs. pc_field c \<in> set PROPAGATABLE_PEER_COLUMNS"
  shows "succeeds True (\<lambda>d. R () (propagate_all now cs d)) (for_each (apply_change now) cs) R"
  using assms
proof (induction cs)
  case Nil
  show ?case by simp (rule total_pre, rule total, simp add: propagate_all_def)
next
  case (Cons c cs)
  then have c: "apply_change now c = bnd (sql_dml (propagate_row now c)) (\<lambda>_. ret ())" by (simp add: apply_change_def)
  show ?case unfolding for_each.simps c
    by (rule total_pre, rule total_bnd, rule Cons.IH, use Cons.prems in simp, (rule total)+)
      (simp add: propagate_all_def propagate_row_def)
qed

lemma total_emits:
  "succeeds True (\<lambda>d. \<forall>d'. emitted evs d d' \<longrightarrow> R () d') (for_each (\<lambda>ev. emit_sync_event (fst ev) (snd ev)) evs) R"
proof (induction evs)
  case Nil
  show ?case by simp (rule total_pre, rule total, simp)
next
  case (Cons ev evs)
  show ?case unfolding for_each.simps by (rule total_pre, rule total_bnd, rule Cons.IH, (rule total)+) auto
qed

lemma update_managed_count: "find_managed n d = Some m \<Longrightarrow> \<exists>c d1. update_managed n f d = Inr (c, d1) \<and> 0 < c"
  by (auto simp: update_managed_def find_managed_def filter_empty_conv dest!: find_Some_set)

lemma total_never: "succeeds b (\<lambda>_. False) m R"
  by (simp add: succeeds_def)

lemma total_require [total]: "succeeds True (\<lambda>d. 0 < c \<and> R () d) (require_row c msg) R"
  unfolding require_row_def by (rule total_pre, rule total_if, rule total_never, rule total) auto

lemma total_read_back [total]: "succeeds b (\<lambda>d. \<exists>x. find_managed n d = Some x \<and> R x d) (read_back n msg) R"
  unfolding read_back_def by (rule total_pre, (rule total)+) auto

lemma total_update_fields:
  assumes "\<forall>c \<in> set cs. pc_field c \<in> set PROPAGATABLE_PEER_COLUMNS"
  shows "succeeds False (\<lambda>d. find_managed n d \<noteq> None \<and> (\<forall>x d'. fields_written n fs evs cs d d' \<longrightarrow> R x d'))
     (managed_update_fields n fs evs cs) R"
  unfolding managed_update_fields_def
proof (rule total_pre, (rule total | rule total_changes [OF assms] | rule total_emits)+, intro allI)
  fix d now
  assume d: "find_managed n d \<noteq> None \<and> (\<forall>x d'. fields_written n fs evs cs d d' \<longrightarrow> R x d')"
  then obtain m where m: "find_managed n d = Some m" by blast
  let ?f = "\<lambda>m. (fold set_field fs m)\<lparr> mn_updated_at := now \<rparr>"
  from update_managed_count [OF m, of ?f] obtain c d1 where u: "update_managed n ?f d = Inr (c, d1)" "0 < c" by blast
  have "\<exists>x. find_managed n d' = Some x \<and> R x d'" if "emitted evs (propagate_all now cs d1) d'" for d'
  proof -
    from that u have "fields_written n fs evs cs d d'" unfolding fields_written_def by blast
    with d fields_written_node [OF this m] show ?thesis by blast
  qed
  with u show "case update_managed n ?f d of Inl b \<Rightarrow> False
    | Inr (c, d') \<Rightarrow> 0 < c \<and> (\<forall>d'a. emitted evs (propagate_all now cs d') d'a \<longrightarrow> (\<exists>x. find_managed n d'a = Some x \<and> R x d'a))"
    by simp
qed

lemma plan_columns: "c \<in> set (update_changes n p ip host d) \<Longrightarrow> pc_field c \<in> set PROPAGATABLE_PEER_COLUMNS"
  using row_changes_key by (fastforce simp: update_changes_def planned_def plan_changes split: if_splits)

lemma total_update_fields_any [total]:
  "succeeds False (\<lambda>d. (\<forall>c \<in> set cs. pc_field c \<in> set PROPAGATABLE_PEER_COLUMNS) \<and> find_managed n d \<noteq> None
      \<and> (\<forall>x d'. fields_written n fs evs cs d d' \<longrightarrow> R x d')) (managed_update_fields n fs evs cs) R"
  by (cases "\<forall>c \<in> set cs. pc_field c \<in> set PROPAGATABLE_PEER_COLUMNS")
    (auto intro: total_pre [OF total_update_fields] total_pre [OF total_never])

lemma total_plan_update [total]:
  "succeeds b (\<lambda>d. R (update_changes n p ip host d, plan_warnings n p ip host d) d) (plan_update n p ip host) R"
  unfolding plan_update_def
  by (rule total_pre, (rule total)+, cases p)
    (simp_all add: update_changes_def planned_def plan_warnings_def Let_def case_prod_beta split del: if_split)

lemma total_set_addresses:
  "succeeds False (\<lambda>d. migrated d \<and> (\<exists>x. field_checked validate_endpoint_host eh x) \<and> (\<exists>x. field_checked validate_ipv6_address ip x)
      \<and> (\<exists>x. field_checked validate_router_id rid x) \<and> find_managed n d \<noteq> None)
     (set_node_addresses n nm en ap eh ip rid p dry) (\<lambda>_ _. True)"
  unfolding set_node_addresses_def managed_apply_address_update_def
  by (rule total_pre, (rule total | rule total_with_db)+) (auto, use plan_columns in blast)

text \<open>A node with an address, and a row of another node that leads to it by an old one.\<close>

definition mesh_db :: database where
  "mesh_db = ready (sample_managed\<lparr> managed_nodes := [(new_managed ''n2'' ''beta'' True ''t0'')\<lparr> mn_own_ipv6 := Some ''fd00::2'' \<rparr>],
     ibgp_peers := [(ibgp_row_of sample_ibgp ''t0'')\<lparr> p_remote_node_id := Some ''n2'', p_peer_ip := Some ''fd00::1'', p_endpoint := None \<rparr>] \<rparr>)"

lemma mesh_db_ok: "migrated mesh_db" "wf_db mesh_db" "find_managed ''n2'' mesh_db \<noteq> None" "no_faults (start_world mesh_db)"
  by (simp_all add: mesh_db_def no_faults_def)
    (simp_all add: ready_def wf_frame eval_rows ids_ok_def single_self_def sample_managed_def new_managed_def ibgp_row_of_def
      IbgpPeerRecord.defs sample_ibgp_def find_managed_def)

lemma mesh_run:
  obtains u w' where "set_node_addresses ''n2'' UNSET UNSET UNSET UNSET UNSET UNSET True dry (start_world mesh_db) = (Inr u, w')"
  by (rule totalD [OF total_set_addresses, of "start_world mesh_db" UNSET UNSET UNSET "''n2''" UNSET UNSET UNSET True dry])
    (simp_all add: mesh_db_ok)

theorem set_node_addresses_refines_witness:
  "\<exists>u w'. set_node_addresses ''n2'' UNSET UNSET UNSET UNSET UNSET UNSET True False (start_world mesh_db) = (Inr u, w')
     \<and> mesh (disk w') = map (redirect ''n2'' (mn_own_ipv6 (au_node u)) (mn_endpoint_host (au_node u))) (mesh mesh_db)"
proof -
  obtain u w' where r: "set_node_addresses ''n2'' UNSET UNSET UNSET UNSET UNSET UNSET True False (start_world mesh_db) = (Inr u, w')"
    by (rule mesh_run)
  with set_node_addresses_refines [OF _ _ _ r] mesh_db_ok show ?thesis by auto
qed

theorem dry_run_predicts_witness:
  "\<exists>u w' u' v'. set_node_addresses ''n2'' UNSET UNSET UNSET UNSET UNSET UNSET True True (start_world mesh_db) = (Inr u, w')
     \<and> set_node_addresses ''n2'' UNSET UNSET UNSET UNSET UNSET UNSET True False (start_world mesh_db) = (Inr u', v')
     \<and> disk w' = mesh_db \<and> au_changes u' = au_changes u"
proof -
  obtain u w' where r: "set_node_addresses ''n2'' UNSET UNSET UNSET UNSET UNSET UNSET True True (start_world mesh_db) = (Inr u, w')"
    by (rule mesh_run)
  obtain u' v' where r': "set_node_addresses ''n2'' UNSET UNSET UNSET UNSET UNSET UNSET True False (start_world mesh_db) = (Inr u', v')"
    by (rule mesh_run)
  from dry_run_predicts [OF _ _ _ _ r r'] mesh_db_ok r r' show ?thesis by auto
qed

section \<open>Moving a partition\<close>

lemma insort_key_map: "insort_key k (f x) (map f xs) = map f (insort_key (\<lambda>x. k (f x)) x xs)"
  by (induction xs) simp_all

lemma sort_key_map: "sort_key k (map f xs) = map f (sort_key (\<lambda>x. k (f x)) xs)"
  by (induction xs) (simp_all add: insort_key_map)

definition rehome :: "string \<Rightarrow> string \<Rightarrow> 'a peer_record_base_scheme \<Rightarrow> 'a peer_record_base_scheme" where
  "rehome target source r = (if p_node_id r = source then r\<lparr> p_node_id := target \<rparr> else r)"

lemma rehome_fun: "(\<lambda>r. if p_node_id r = source then r\<lparr> p_node_id := target \<rparr> else r) = rehome target source"
  by (simp add: rehome_def fun_eq_iff)

lemma rehome_distinct:
  assumes "distinct (map (\<lambda>r. (p_node_id r, v r)) rs)" and "\<forall>r \<in> set rs. p_node_id r \<noteq> target"
    and "\<And>r. v (rehome target source r) = v r"
  shows "distinct (map (\<lambda>r. (p_node_id r, v r)) (map (rehome target source) rs))"
proof -
  have "inj_on (\<lambda>r. (p_node_id (rehome target source r), v r)) (set rs)"
    using assms(1,2) by (auto simp: distinct_map inj_on_def rehome_def)
  moreover have "distinct rs" using assms(1) by (auto simp: distinct_map)
  ultimately show ?thesis by (simp add: distinct_map inj_on_def assms(3) comp_def)
qed

lemma no_rows:
  "select_bgp n d = [] \<longleftrightarrow> (\<forall>r \<in> set (bgp_peers d). p_node_id r \<noteq> n)"
  "select_ibgp n d = [] \<longleftrightarrow> (\<forall>r \<in> set (ibgp_peers d). p_node_id r \<noteq> n)"
  unfolding select_bgp_def select_ibgp_def by (auto simp flip: set_empty)

lemma move_bgp_ok:
  assumes "wf_db d" and "has_node d target" and "select_bgp target d = []"
  shows "move_bgp target source d = Inr ((), d\<lparr> bgp_peers := map (rehome target source) (bgp_peers d) \<rparr>)"
proof -
  from assms(3) have none: "\<forall>r \<in> set (bgp_peers d). p_node_id r \<noteq> target" by (simp add: no_rows)
  from rehome_distinct [OF _ none, of p_peer_asn source] rehome_distinct [OF _ none, of p_ifname source] assms(1)
  have "distinct (map (\<lambda>r. (p_node_id r, p_peer_asn r)) (map (rehome target source) (bgp_peers d)))"
    "distinct (map (\<lambda>r. (p_node_id r, p_ifname r)) (map (rehome target source) (bgp_peers d)))"
    by (simp_all add: wf_defs rehome_def)
  with assms(2) show ?thesis unfolding move_bgp_def Let_def rehome_fun by simp
qed

lemma move_ibgp_ok:
  assumes "wf_db d" and "has_node d target" and "select_ibgp target d = []"
  shows "move_ibgp target source d = Inr ((), d\<lparr> ibgp_peers := map (rehome target source) (ibgp_peers d) \<rparr>)"
proof -
  from assms(3) have none: "\<forall>r \<in> set (ibgp_peers d). p_node_id r \<noteq> target" by (simp add: no_rows)
  from rehome_distinct [OF _ none, of p_name source] rehome_distinct [OF _ none, of p_ifname source] assms(1)
  have "distinct (map (\<lambda>r. (p_node_id r, p_name r)) (map (rehome target source) (ibgp_peers d)))"
    "distinct (map (\<lambda>r. (p_node_id r, p_ifname r)) (map (rehome target source) (ibgp_peers d)))"
    by (simp_all add: wf_defs rehome_def)
  with assms(2) show ?thesis unfolding move_ibgp_def Let_def rehome_fun by simp
qed

definition moved :: "string \<Rightarrow> string \<Rightarrow> database \<Rightarrow> database" where
  "moved target source d = d\<lparr> bgp_peers := map (rehome target source) (bgp_peers d),
     ibgp_peers := map (rehome target source) (ibgp_peers d) \<rparr>"

lemma move_all:
  assumes "wf_db d" and "has_node d target" and "select_bgp target d = []" and "select_ibgp target d = []"
    and "move_bgp target source d = Inr ((), d1)" and "move_ibgp target source d1 = Inr ((), d2)"
  shows "d2 = moved target source d" and "wf_db d2"
proof -
  have d1: "d1 = d\<lparr> bgp_peers := map (rehome target source) (bgp_peers d) \<rparr>"
    using move_bgp_ok [OF assms(1-3), of source] assms(5) by simp
  have keys: "distinct (map (\<lambda>r. (p_node_id r, p_peer_asn r)) (bgp_peers d1))"
    "distinct (map (\<lambda>r. (p_node_id r, p_ifname r)) (bgp_peers d1))"
    using assms(5) by (auto simp: move_bgp_def Let_def split: if_splits)
  then have wf1: "wf_db d1" using assms(1,2) unfolding d1 by (auto simp: wf_frame rehome_def comp_def)
  have "select_ibgp target d1 = []" "has_node d1 target" using assms(2,4) by (simp_all add: d1 select_ibgp_def has_node_def)
  from move_ibgp_ok [OF wf1 this(2,1), of source] assms(6)
  have d2: "d2 = d1\<lparr> ibgp_peers := map (rehome target source) (ibgp_peers d1) \<rparr>" by simp
  then show "d2 = moved target source d" by (simp add: moved_def d1)
  have "distinct (map (\<lambda>r. (p_node_id r, p_name r)) (ibgp_peers d2))"
    "distinct (map (\<lambda>r. (p_node_id r, p_ifname r)) (ibgp_peers d2))"
    using assms(6) by (auto simp: move_ibgp_def Let_def split: if_splits)
  then show "wf_db d2" using wf1 assms(2) unfolding d2 by (auto simp: wf_frame rehome_def comp_def d1)
qed

text \<open>The partitions after the move.\<close>

lemma moved_select:
  assumes "source \<noteq> target" and "select_bgp target d = []" and "select_ibgp target d = []"
  shows "select_bgp target (moved target source d) = map (\<lambda>r. r\<lparr> p_node_id := target \<rparr>) (select_bgp source d)"
    and "select_ibgp target (moved target source d) = map (\<lambda>r. r\<lparr> p_node_id := target \<rparr>) (select_ibgp source d)"
    and "select_bgp source (moved target source d) = []" and "select_ibgp source (moved target source d) = []"
    and "n \<noteq> source \<Longrightarrow> n \<noteq> target \<Longrightarrow> select_bgp n (moved target source d) = select_bgp n d"
    and "n \<noteq> source \<Longrightarrow> n \<noteq> target \<Longrightarrow> select_ibgp n (moved target source d) = select_ibgp n d"
proof -
  have to: "filter (\<lambda>r. p_node_id r = target) (map (rehome target source) rs)
      = map (\<lambda>r. r\<lparr> p_node_id := target \<rparr>) (filter (\<lambda>r. p_node_id r = source) rs)"
    if "\<forall>r \<in> set rs. p_node_id r \<noteq> target" for rs :: "'a peer_record_base_scheme list"
    using that by (induction rs) (auto simp: rehome_def)
  have other: "filter (\<lambda>r. p_node_id r = n) (map (rehome target source) rs) = filter (\<lambda>r. p_node_id r = n) rs"
    if "n \<noteq> source" "n \<noteq> target" for rs :: "'a peer_record_base_scheme list"
    using that by (induction rs) (auto simp: rehome_def)
  note t = assms(2,3) [unfolded no_rows]
  show "select_bgp target (moved target source d) = map (\<lambda>r. r\<lparr> p_node_id := target \<rparr>) (select_bgp source d)"
    by (simp add: select_bgp_def moved_def to [OF t(1)] sort_key_map)
  show "select_ibgp target (moved target source d) = map (\<lambda>r. r\<lparr> p_node_id := target \<rparr>) (select_ibgp source d)"
    by (simp add: select_ibgp_def moved_def to [OF t(2)] sort_key_map)
  show "select_bgp source (moved target source d) = []" "select_ibgp source (moved target source d) = []"
    using assms(1) by (auto simp: no_rows moved_def rehome_def)
  assume n: "n \<noteq> source" "n \<noteq> target"
  show "select_bgp n (moved target source d) = select_bgp n d" "select_ibgp n (moved target source d) = select_ibgp n d"
    by (simp_all add: select_bgp_def select_ibgp_def moved_def other [OF n])
qed

lemma outcome_get_self [services]: "outcome managed_get_self (\<lambda>d x d'. x = select_self d \<and> d' = d) (\<lambda>d d'. d' = d)"
  by (rule outcome_read, rule read_only_managed, rule managed_read_specs)

definition move_written :: "string \<Rightarrow> string \<Rightarrow> database \<Rightarrow> database \<Rightarrow> bool" where
  "move_written target source d d' \<longleftrightarrow> (\<exists>d1 d2 now. move_bgp target source d = Inr ((), d1) \<and>
     move_ibgp target source d1 = Inr ((), d2) \<and> d' = after_event target SYNC_EVENT_DESIRED now d2)"

lemma sqlite_only_moves [atomic]: "sqlite_only (move_bgp t s)" "sqlite_only (move_ibgp t s)" "sqlite_only (link_row l)"
  by (auto simp: sqlite_only_def move_bgp_def move_ibgp_def Let_def split: if_splits, cases l, auto)

lemma outcome_move [services]:
  "outcome (with_tx_ctl msg (bnd (sql_dml (move_bgp target source)) (\<lambda>_.
       bnd (sql_dml (move_ibgp target source)) (\<lambda>_. emit_sync_event target SYNC_EVENT_DESIRED))))
     (\<lambda>d _ d'. move_written target source d d') (\<lambda>d d'. d' = d)"
  unfolding with_tx_ctl_def
proof (rule outcome_ctl, rule outcome_atomic)
  show "op_spec (with_tx (\<lambda>_. msg) (bnd (sql_dml (move_bgp target source)) (\<lambda>_.
       bnd (sql_dml (move_ibgp target source)) (\<lambda>_. emit_sync_event target SYNC_EVENT_DESIRED)))) (\<lambda>d _ d'. move_written target source d d')"
    by (rule op_spec_conseq, (rule specs)+) (auto simp: move_written_def)
qed (auto intro!: atomic)

lemma outcome_adopt:
  "outcome (adopt_self_partition c from_id dry)
     (\<lambda>d res d'. migrated d \<longrightarrow> (\<exists>m. select_self d = Some m \<and> as_to_node_id res = mn_node_id m)
        \<and> as_from_node_id res = or_else from_id c \<and> as_from_node_id res \<noteq> as_to_node_id res
        \<and> as_bgp_moved res = length (select_bgp (as_from_node_id res) d)
        \<and> as_ibgp_moved res = length (select_ibgp (as_from_node_id res) d)
        \<and> select_bgp (as_to_node_id res) d = [] \<and> select_ibgp (as_to_node_id res) d = []
        \<and> (if dry then d' = d else move_written (as_to_node_id res) (as_from_node_id res) d d'))
     (\<lambda>d d'. migrated d \<longrightarrow> d' = d)"
  unfolding adopt_self_partition_def Let_def
  by (rule outcome_migrated, rule triple_pre, (rule wp | rule triple_outcome, rule services)+) auto

lemma select_self_node: "select_self d = Some m \<Longrightarrow> m \<in> set (managed_nodes d) \<and> mn_is_self m"
proof -
  let ?ms = "sort_key (\<lambda>m. (mn_updated_at m, mn_node_id m)) (filter mn_is_self (managed_nodes d))"
  assume "select_self d = Some m"
  then obtain ms where "rev ?ms = m # ms" by (auto simp: select_self_def split: list.splits)
  then have "m \<in> set (rev ?ms)" by (simp only: list.set_intros)
  then show ?thesis by simp
qed

lemma move_writtenD:
  assumes "move_written target source d d'" and "wf_db d" and "has_node d target"
    and "select_bgp target d = []" and "select_ibgp target d = []"
  shows "wf_db d'" and "\<exists>now. d' = after_event target SYNC_EVENT_DESIRED now (moved target source d)"
proof -
  from assms(1) obtain d1 d2 now where m: "move_bgp target source d = Inr ((), d1)" "move_ibgp target source d1 = Inr ((), d2)"
    and d': "d' = after_event target SYNC_EVENT_DESIRED now d2" unfolding move_written_def by blast
  from move_all [OF assms(2-5) m] d' show "wf_db d'" "\<exists>now. d' = after_event target SYNC_EVENT_DESIRED now (moved target source d)"
    by (auto intro: wf_after_event)
qed

text \<open>
  \<open>adopt_self_partition\<close> moves a partition as a whole or not at all: if it raises, whichever
  statement failed, the database is as before; if it returns, every peer row of the source
  partition is a row of the self node with nothing else changed, the source partition is
  empty, the counters are the numbers of moved rows, every other partition is as before, the
  database is well-formed and the self node is notified.
\<close>

theorem adopt_self_moves:
  assumes "tx w = None" and "migrated (disk w)" and "wf_db (disk w)"
    and run: "adopt_self_partition c from_id False w = (r, w')"
  shows "(\<forall>e. r = Inl e \<longrightarrow> disk w' = disk w)
    \<and> (\<forall>res. r = Inr res \<longrightarrow> (let s = as_from_node_id res; t = as_to_node_id res in
         select_bgp t (disk w') = map (\<lambda>r. r\<lparr> p_node_id := t \<rparr>) (select_bgp s (disk w))
       \<and> select_ibgp t (disk w') = map (\<lambda>r. r\<lparr> p_node_id := t \<rparr>) (select_ibgp s (disk w))
       \<and> length (select_bgp t (disk w')) = as_bgp_moved res \<and> length (select_ibgp t (disk w')) = as_ibgp_moved res
       \<and> select_bgp s (disk w') = [] \<and> select_ibgp s (disk w') = []
       \<and> (\<forall>n. n \<noteq> s \<and> n \<noteq> t \<longrightarrow> select_bgp n (disk w') = select_bgp n (disk w) \<and> select_ibgp n (disk w') = select_ibgp n (disk w))
       \<and> (\<exists>m \<in> set (managed_nodes (disk w)). mn_is_self m \<and> mn_node_id m = t)
       \<and> (\<exists>e \<in> set (sync_events (disk w')). se_node_id e = t \<and> se_kind e = SYNC_EVENT_DESIRED \<and> events_seq (disk w) < se_id e)
       \<and> wf_db (disk w')))"
proof (intro conjI allI impI)
  note o = outcomeD [OF outcome_adopt assms(1) run]
  show "disk w' = disk w" if "r = Inl e" for e using o(3) [OF that] assms(2) by simp
  fix res
  assume "r = Inr res"
  let ?s = "as_from_node_id res" and ?t = "as_to_node_id res" and ?d = "disk w"
  from o(2) [OF \<open>r = Inr res\<close>] assms(2) obtain m where m: "select_self ?d = Some m" "?t = mn_node_id m"
    and st: "?s \<noteq> ?t" and len: "as_bgp_moved res = length (select_bgp ?s ?d)" "as_ibgp_moved res = length (select_ibgp ?s ?d)"
    and empty: "select_bgp ?t ?d = []" "select_ibgp ?t ?d = []" and mv: "move_written ?t ?s ?d (disk w')" by auto
  from select_self_node [OF m(1)] m(2) have self: "m \<in> set (managed_nodes ?d)" "mn_is_self m" "mn_node_id m = ?t" by simp_all
  with assms(3) have "has_node ?d ?t" by (auto simp: wf_defs)
  note wr = move_writtenD [OF mv assms(3) this empty]
  from wr(2) obtain now where d': "disk w' = after_event ?t SYNC_EVENT_DESIRED now (moved ?t ?s ?d)" by blast
  have sel: "select_bgp n (disk w') = select_bgp n (moved ?t ?s ?d)" "select_ibgp n (disk w') = select_ibgp n (moved ?t ?s ?d)" for n
    by (simp_all add: d' select_bgp_def select_ibgp_def)
  have "events_seq (moved ?t ?s ?d) = events_seq ?d" by (simp add: moved_def)
  with after_event_announces [of ?t SYNC_EVENT_DESIRED now "moved ?t ?s ?d"] d'
  have ev: "\<exists>e \<in> set (sync_events (disk w')). se_node_id e = ?t \<and> se_kind e = SYNC_EVENT_DESIRED \<and> events_seq ?d < se_id e" by simp
  show "let s = ?s; t = ?t in
         select_bgp t (disk w') = map (\<lambda>r. r\<lparr> p_node_id := t \<rparr>) (select_bgp s ?d)
       \<and> select_ibgp t (disk w') = map (\<lambda>r. r\<lparr> p_node_id := t \<rparr>) (select_ibgp s ?d)
       \<and> length (select_bgp t (disk w')) = as_bgp_moved res \<and> length (select_ibgp t (disk w')) = as_ibgp_moved res
       \<and> select_bgp s (disk w') = [] \<and> select_ibgp s (disk w') = []
       \<and> (\<forall>n. n \<noteq> s \<and> n \<noteq> t \<longrightarrow> select_bgp n (disk w') = select_bgp n ?d \<and> select_ibgp n (disk w') = select_ibgp n ?d)
       \<and> (\<exists>m \<in> set (managed_nodes ?d). mn_is_self m \<and> mn_node_id m = t)
       \<and> (\<exists>e \<in> set (sync_events (disk w')). se_node_id e = t \<and> se_kind e = SYNC_EVENT_DESIRED \<and> events_seq ?d < se_id e)
       \<and> wf_db (disk w')"
    unfolding Let_def sel using moved_select [OF st empty] len self ev wr(1) by auto
qed

lemma adopt_total:
  assumes "tx w = None" and "no_faults w" and "migrated (disk w)" and "wf_db (disk w)"
    and "select_self (disk w) = Some m" and "or_else from_id c \<noteq> mn_node_id m"
    and "select_bgp (or_else from_id c) (disk w) \<noteq> [] \<or> select_ibgp (or_else from_id c) (disk w) \<noteq> []"
    and "select_bgp (mn_node_id m) (disk w) = []" and "select_ibgp (mn_node_id m) (disk w) = []"
  shows "\<exists>res w'. adopt_self_partition c from_id False w = (Inr res, w')"
proof -
  have n: "has_node (disk w) (mn_node_id m)" using select_self_node [OF assms(5)] assms(4) by (auto simp: wf_defs)
  let ?s = "or_else from_id c" and ?t = "mn_node_id m"
  obtain d1 where d1: "move_bgp ?t ?s (disk w) = Inr ((), d1)"
    "d1 = (disk w)\<lparr> bgp_peers := map (rehome ?t ?s) (bgp_peers (disk w)) \<rparr>" using move_bgp_ok [OF assms(4) n assms(8)] by blast
  have "distinct (map (\<lambda>r. (p_node_id r, p_peer_asn r)) (bgp_peers d1))" "distinct (map (\<lambda>r. (p_node_id r, p_ifname r)) (bgp_peers d1))"
    using d1(1) by (auto simp: move_bgp_def Let_def split: if_splits)
  then have "wf_db d1" using assms(4) n unfolding d1(2) by (auto simp: wf_frame rehome_def comp_def)
  moreover have "has_node d1 ?t" "select_ibgp ?t d1 = []" using n assms(9) by (simp_all add: d1(2) has_node_def select_ibgp_def)
  ultimately obtain d2 where d2: "move_ibgp ?t ?s d1 = Inr ((), d2)" using move_ibgp_ok by blast
  have "succeeds False (\<lambda>d. d = disk w) (adopt_self_partition c from_id False) (\<lambda>_ _. True)"
    unfolding adopt_self_partition_def Let_def managed_get_self_def with_tx_ctl_def if_False
    by (rule total_pre, (rule total | rule total_with_db)+) (use assms d1(1) d2 in auto)
  from totalD [OF this assms(2,1) refl] show ?thesis by blast
qed

text \<open>
  The refusal of a non-empty target partition is enough: when there is a self node, the
  source partition has rows and the target partition has none, the move meets no constraint
  of the tables and, without failing statements, returns.
\<close>

theorem adopt_self_returns:
  assumes "tx w = None" and "no_faults w" and "migrated (disk w)" and "wf_db (disk w)"
    and "select_self (disk w) = Some m" and "or_else from_id c \<noteq> mn_node_id m"
    and "select_bgp (or_else from_id c) (disk w) \<noteq> [] \<or> select_ibgp (or_else from_id c) (disk w) \<noteq> []"
    and "select_bgp (mn_node_id m) (disk w) = []" and "select_ibgp (mn_node_id m) (disk w) = []"
  shows "\<exists>res w'. adopt_self_partition c from_id False w = (Inr res, w')"
  by (rule adopt_total [OF assms])

definition stale_db :: database where
  "stale_db = mesh_db\<lparr> ibgp_peers := [ibgp_row_of sample_ibgp ''t0''] \<rparr>"

lemma stale_db_ok: "migrated stale_db" "wf_db stale_db" "no_faults (start_world stale_db)"
    "select_self stale_db = Some ((new_managed ''n2'' ''beta'' True ''t0'')\<lparr> mn_own_ipv6 := Some ''fd00::2'' \<rparr>)"
  by (simp_all add: stale_db_def mesh_db_def no_faults_def migrated_def has_table_def ready_def wf_frame eval_rows ids_ok_def
      single_self_def sample_managed_def new_managed_def ibgp_row_of_def IbgpPeerRecord.defs sample_ibgp_def select_self_def)

lemma stale_db_rows:
  "select_ibgp ''n1'' stale_db \<noteq> []" "select_bgp ''n2'' stale_db = []" "select_ibgp ''n2'' stale_db = []"
  by (simp_all add: no_rows stale_db_def mesh_db_def ready_def sample_managed_def eval_rows ibgp_row_of_def IbgpPeerRecord.defs sample_ibgp_def)

theorem adopt_self_returns_witness:
  "\<exists>res w'. adopt_self_partition ''n1'' None False (start_world stale_db) = (Inr res, w')"
  by (rule adopt_self_returns) (use stale_db_ok stale_db_rows in \<open>auto simp: or_else_def new_managed_def\<close>)

theorem adopt_self_moves_witness:
  "\<exists>res w'. adopt_self_partition ''n1'' None False (start_world stale_db) = (Inr res, w') \<and> wf_db (disk w')
     \<and> select_ibgp (as_from_node_id res) (disk w') = []"
proof -
  have "\<exists>res w'. adopt_self_partition ''n1'' None False (start_world stale_db) = (Inr res, w')"
    by (rule adopt_total) (use stale_db_ok stale_db_rows in \<open>auto simp: or_else_def new_managed_def\<close>)
  then obtain res w' where r: "adopt_self_partition ''n1'' None False (start_world stale_db) = (Inr res, w')" by blast
  from adopt_self_moves [OF _ _ _ r] stale_db_ok r show ?thesis by (auto simp: Let_def)
qed

section \<open>Linking\<close>

text \<open>The node an address belongs to, if it belongs to exactly one.\<close>

definition owner_of :: "database \<Rightarrow> string \<Rightarrow> string option" where
  "owner_of d ip = (case filter (\<lambda>m. mn_own_ipv6 m = Some ip) (managed_nodes d) of [m] \<Rightarrow> Some (mn_node_id m) | _ \<Rightarrow> None)"

definition linked_row :: "database \<Rightarrow> ibgp_peer_row \<Rightarrow> ibgp_peer_row" where
  "linked_row d r =
     (if truthy (p_remote_node_id r) \<or> \<not> truthy (p_peer_ip r) then r
      else case owner_of d (the (p_peer_ip r)) of None \<Rightarrow> r | Some t \<Rightarrow> r\<lparr> p_remote_node_id := Some t \<rparr>)"

lemma by_ipv6_matches:
  assumes "ip \<noteq> []"
  shows "by_ipv6 ms ip = map mn_node_id (filter (\<lambda>m. mn_own_ipv6 m = Some ip) ms)"
proof -
  have "fold (\<lambda>m f. if truthy (mn_own_ipv6 m) then f(the (mn_own_ipv6 m) := f (the (mn_own_ipv6 m)) @ [mn_node_id m]) else f) ms g ip
      = g ip @ map mn_node_id (filter (\<lambda>m. mn_own_ipv6 m = Some ip) ms)" for g
    using assms by (induction ms arbitrary: g) (auto simp: truthy_def split: option.splits)
  then show ?thesis by (simp add: by_ipv6_def)
qed

lemma by_ipv6_owner:
  assumes "ip \<noteq> []"
  shows "by_ipv6 (order_nodes (managed_nodes d)) ip = [t] \<longleftrightarrow> owner_of d ip = Some t"
proof -
  let ?f = "filter (\<lambda>m. mn_own_ipv6 m = Some ip)"
  have sorted: "?f (order_nodes ms) = order_nodes (?f ms)" for ms by (simp add: order_nodes_def filter_sort)
  have "length (order_nodes ms) = length ms" for ms by (simp add: order_nodes_def)
  then have one: "order_nodes ms = [m] \<longleftrightarrow> ms = [m]" for ms m
    by (cases ms rule: list.exhaust; cases "tl ms") (auto simp: order_nodes_def dest: arg_cong [of _ _ length])
  show ?thesis unfolding by_ipv6_matches [OF assms] sorted owner_of_def
    using one [of "?f (managed_nodes d)"] by (auto simp: map_eq_Cons_conv split: list.splits)
qed

fun link_one :: "string \<times> string \<times> string \<Rightarrow> ibgp_peer_row \<Rightarrow> ibgp_peer_row" where
  "link_one (owner, name, target) r = (if ibgp_key owner name r then r\<lparr> p_remote_node_id := Some target \<rparr> else r)"

lemma links_of_append: "links_of (ps @ qs) = links_of ps @ links_of qs"
  by (induction ps rule: links_of.induct) simp_all

lemma links_of_key: "(n, m, t) \<in> set (links_of (map (plan_link ix) rs)) \<Longrightarrow> (n, m) \<in> (\<lambda>r. (p_node_id r, p_name r)) ` set rs"
  by (induction rs) (auto simp: plan_link_def split: list.splits if_splits)

lemma link_none: "(p_node_id r, p_name r) \<notin> (\<lambda>l. (fst l, fst (snd l))) ` set ls \<Longrightarrow> fold link_one ls r = r"
  by (induction ls) (force simp: ibgp_key_def)+

lemma link_plan_row:
  "fold link_one (links_of [plan_link (by_ipv6 (order_nodes (managed_nodes d))) r]) r = linked_row d r"
proof (cases "truthy (p_remote_node_id r) \<or> \<not> truthy (p_peer_ip r)")
  case False
  then obtain ip where ip: "p_peer_ip r = Some ip" "ip \<noteq> []" by (cases "p_peer_ip r") (auto simp: truthy_def)
  note o = by_ipv6_owner [OF ip(2), of d]
  show ?thesis
  proof (cases "owner_of d ip")
    case None
    with o have "\<And>t. by_ipv6 (order_nodes (managed_nodes d)) ip \<noteq> [t]" by simp
    then have "\<exists>msg. plan_link (by_ipv6 (order_nodes (managed_nodes d))) r = Skip msg"
      using False ip(1) by (simp add: plan_link_def split: list.splits)
    then obtain msg where "plan_link (by_ipv6 (order_nodes (managed_nodes d))) r = Skip msg" ..
    with None False ip(1) show ?thesis by (simp add: linked_row_def)
  next
    case (Some t)
    with o have "by_ipv6 (order_nodes (managed_nodes d)) ip = [t]" by simp
    with Some False ip(1) show ?thesis by (simp add: linked_row_def plan_link_def ibgp_key_def)
  qed
qed (auto simp: plan_link_def linked_row_def)

lemma link_all_rows:
  assumes "distinct (map (\<lambda>r. (p_node_id r, p_name r)) rows)" and "r \<in> set rows"
  shows "fold link_one (links_of (map (plan_link (by_ipv6 (order_nodes (managed_nodes d)))) rows)) r = linked_row d r"
proof -
  let ?p = "plan_link (by_ipv6 (order_nodes (managed_nodes d)))"
  from assms(2) obtain xs ys where rows: "rows = xs @ r # ys" by (auto dest: split_list)
  have other: "fold link_one (links_of (map ?p zs)) r' = r'"
    if "(p_node_id r', p_name r') \<notin> (\<lambda>r. (p_node_id r, p_name r)) ` set zs" for zs r'
    by (rule link_none) (use that links_of_key in force)
  from assms(1) rows have k: "(p_node_id r, p_name r) \<notin> (\<lambda>r. (p_node_id r, p_name r)) ` set xs"
    "(p_node_id r, p_name r) \<notin> (\<lambda>r. (p_node_id r, p_name r)) ` set ys" by auto
  have key: "p_node_id (linked_row d r) = p_node_id r" "p_name (linked_row d r) = p_name r"
    by (auto simp: linked_row_def split: option.splits)
  have "links_of (map ?p rows) = links_of (map ?p xs) @ links_of [?p r] @ links_of (map ?p ys)"
    unfolding rows by (simp only: map_append list.map links_of_append [symmetric] append_Cons append_Nil)
  then have "fold link_one (links_of (map ?p rows)) r
      = fold link_one (links_of (map ?p ys)) (fold link_one (links_of [?p r]) (fold link_one (links_of (map ?p xs)) r))"
    by (simp only: fold_append comp_apply)
  also have "\<dots> = linked_row d r" 
    unfolding other [OF k(1)] link_plan_row by (rule other) (simp only: key k(2) not_False_eq_True)
  finally show ?thesis .
qed

lemma link_rows_spec [specs]:
  "op_spec (for_each (\<lambda>l. sql_dml (link_row l)) ls) (\<lambda>d _ d'. d' = d\<lparr> ibgp_peers := map (fold link_one ls) (ibgp_peers d) \<rparr>)"
proof (induction ls)
  case Nil
  show ?case by (simp, rule op_spec_conseq, rule op_spec_ret) simp
next
  case (Cons l ls)
  have l: "link_row l d = Inr ((), d\<lparr> ibgp_peers := map (link_one l) (ibgp_peers d) \<rparr>)" for d by (cases l) simp
  show ?case
    by (simp, rule op_spec_conseq, (rule op_spec_bnd op_spec_dml Cons)+) (auto simp: l comp_def)
qed

lemma tx_body_links [atomic]: "tx_body (for_each (\<lambda>l. sql_dml (link_row l)) ls)"
  by (induction ls) (auto intro!: atomic)

lemma outcome_link_rows [services]:
  "outcome (with_tx_ctl msg (for_each (\<lambda>l. sql_dml (link_row l)) ls))
     (\<lambda>d _ d'. d' = d\<lparr> ibgp_peers := map (fold link_one ls) (ibgp_peers d) \<rparr>) (\<lambda>d d'. d' = d)"
  unfolding with_tx_ctl_def
proof (rule outcome_ctl, rule outcome_atomic)
  show "op_spec (with_tx (\<lambda>_. msg) (for_each (\<lambda>l. sql_dml (link_row l)) ls))
     (\<lambda>d _ d'. d' = d\<lparr> ibgp_peers := map (fold link_one ls) (ibgp_peers d) \<rparr>)"
    by (rule op_spec_with_tx, rule link_rows_spec)
qed (auto intro!: atomic)

lemma outcome_query [services]: "outcome (sql_query q) (\<lambda>d x d'. x = q d \<and> d' = d) (\<lambda>d d'. d' = d)"
  by (rule outcome_read, rule read_only_query, rule specs)

lemma outcome_list_all [services]:
  "outcome managed_list_all (\<lambda>d x d'. x = order_nodes (managed_nodes d) \<and> d' = d) (\<lambda>d d'. d' = d)"
proof (rule outcome_read)
  show "op_spec managed_list_all (\<lambda>d x d'. x = order_nodes (managed_nodes d) \<and> d' = d)"
    unfolding managed_list_all_def by (rule specs)+
qed (rule read_only_managed)

lemma outcome_backfill:
  "outcome (backfill_remote_node_ids dry)
     (\<lambda>d res d'. migrated d \<longrightarrow> (\<exists>ps. ps = map (plan_link (by_ipv6 (order_nodes (managed_nodes d))))
             (sort_key (\<lambda>r. (p_node_id r, p_name r)) (ibgp_peers d))
        \<and> res = (map link_label (links_of ps), skips_of ps)
        \<and> d' = (if dry then d else d\<lparr> ibgp_peers := map (fold link_one (links_of ps)) (ibgp_peers d) \<rparr>)))
     (\<lambda>d d'. migrated d \<longrightarrow> d' = d)"
  unfolding backfill_remote_node_ids_def Let_def
  by (rule outcome_migrated, rule triple_pre, (rule wp | rule triple_outcome, rule services)+) auto

lemma plan_counts: "length (links_of ps) + length (skips_of ps) = length ps"
  by (induction ps rule: links_of.induct) simp_all

text \<open>A link does not change what a node is sent: \<open>remote_node_id\<close> is not part of the desired state.\<close>

lemma linked_row_content [simp]:
  "p_node_id (linked_row d r) = p_node_id r" "p_name (linked_row d r) = p_name r" "ibgp_row_to_dict (linked_row d r) = ibgp_row_to_dict r"
  by (auto simp: linked_row_def ibgp_row_to_dict_def split: option.splits)

lemma linked_live:
  "live_digest sha n (d\<lparr> ibgp_peers := map (linked_row e) (ibgp_peers d) \<rparr>) = live_digest sha n d"
  by (simp add: live_digest_def select_ibgp_def select_bgp_def find_managed_def live_ibgp_def filter_map comp_def sort_key_map)

text \<open>
  \<open>backfill_remote_node_ids\<close> links exactly what it can be sure of: if it returns, every iBGP row
  without a link whose \<open>peer_ip\<close> is the address of exactly one managed node is linked to that
  node, every other row and every other table is as before, every row is reported once as
  linked or skipped, and no node is sent anything else than before; if it raises, or in a dry
  run, nothing changes.
\<close>

theorem backfill_links_unique:
  assumes "tx w = None" and "migrated (disk w)" and "wf_db (disk w)"
    and "backfill_remote_node_ids dry w = (r, w')"
  shows "(\<forall>e. r = Inl e \<longrightarrow> disk w' = disk w) \<and> (dry \<longrightarrow> disk w' = disk w)
    \<and> (\<forall>linked skipped. r = Inr (linked, skipped) \<longrightarrow>
         length linked + length skipped = length (ibgp_peers (disk w))
       \<and> (\<not> dry \<longrightarrow> disk w' = (disk w)\<lparr> ibgp_peers := map (linked_row (disk w)) (ibgp_peers (disk w)) \<rparr>)
       \<and> live_digest sha n (disk w') = live_digest sha n (disk w))"
proof -
  note o = outcomeD [OF outcome_backfill assms(1,4)]
  let ?rows = "sort_key (\<lambda>r. (p_node_id r, p_name r)) (ibgp_peers (disk w))"
  let ?ps = "map (plan_link (by_ipv6 (order_nodes (managed_nodes (disk w))))) ?rows"
  have "distinct (map (\<lambda>r. (p_node_id r, p_name r)) ?rows)" using assms(3) by (simp add: wf_defs distinct_map)
  then have rows: "map (fold link_one (links_of ?ps)) (ibgp_peers (disk w)) = map (linked_row (disk w)) (ibgp_peers (disk w))"
    using link_all_rows [of ?rows] by simp
  show ?thesis
  proof (cases r)
    case (Inl e)
    from o(3) [OF Inl] assms(2) Inl show ?thesis by simp
  next
    case (Inr res)
    from o(2) [OF Inr] assms(2) have res: "res = (map link_label (links_of ?ps), skips_of ?ps)"
      and d': "disk w' = (if dry then disk w else (disk w)\<lparr> ibgp_peers := map (linked_row (disk w)) (ibgp_peers (disk w)) \<rparr>)"
      by (simp_all only: rows simp_thms)
    have "length (links_of ?ps) + length (skips_of ?ps) = length (ibgp_peers (disk w))" by (simp add: plan_counts)
    with res d' Inr show ?thesis by (auto simp: linked_live)
  qed
qed

lemma total_links: "succeeds True (\<lambda>d. \<forall>d'. R () d') (for_each (\<lambda>l. sql_dml (link_row l)) ls) R"
proof (induction ls)
  case Nil
  show ?case by simp (rule total_pre, rule total, simp)
next
  case (Cons l ls)
  show ?case unfolding for_each.simps
    by (rule total_pre, rule total_bnd, rule Cons.IH, rule total) (cases l, simp)
qed

theorem backfill_links_unique_witness:
  "\<exists>linked skipped w'. backfill_remote_node_ids False (start_world stale_db) = (Inr (linked, skipped), w')
     \<and> length linked + length skipped = length (ibgp_peers stale_db)"
proof -
  have "succeeds False migrated (backfill_remote_node_ids False) (\<lambda>_ _. True)"
    unfolding backfill_remote_node_ids_def Let_def managed_list_all_def with_tx_ctl_def
    by (rule total_pre, (rule total | rule total_with_db | rule total_links)+) auto
  then obtain res w' where r: "backfill_remote_node_ids False (start_world stale_db) = (Inr res, w')"
    by (rule totalD [where w = "start_world stale_db"]) (use stale_db_ok in simp_all)
  obtain linked skipped where res: "res = (linked, skipped)" by (cases res)
  from backfill_links_unique [OF _ _ _ r] stale_db_ok r show ?thesis by (simp add: res)
qed

end
