(* ===== verification/Node_Config.thy ===== *)
theory Node_Config
  imports Complex_Main Render
begin

text \<open>
  \<open>dn42ctl/node_config.py\<close>: the file \<open>node.toml\<close> of a node. TOML text is read by \<open>tomllib\<close> and
  printed by the package \<open>tomli_w\<close>; both are arguments, as functions between the text and the
  values, for which the datatype of JSON values is used.
\<close>

section \<open>Numbers\<close>

text \<open>A Python float: a rational number, an infinity or not a number.\<close>

datatype pyfloat = Fin rat | PInf | NInf | NaN

fun le_zero :: "pyfloat \<Rightarrow> bool" where
  "le_zero (Fin q) = (q \<le> 0)"
| "le_zero PInf = False"
| "le_zero NInf = True"
| "le_zero NaN = False"

text \<open>
  \<open>float_text\<close> is the value of a float literal and \<open>repr_float\<close> the literal of a value,
  \<open>float_int\<close> is \<open>float\<close> of an integer, which rounds and may overflow.
\<close>

record toml_env =
  toml_loads :: "string \<Rightarrow> jdict option"
  toml_dumps :: "jdict \<Rightarrow> string"
  float_text :: "string \<Rightarrow> pyfloat"
  repr_float :: "pyfloat \<Rightarrow> string"
  float_int :: "int \<Rightarrow> pyfloat result"

section \<open>Options\<close>

record AgentOptions =
  reconnect_initial_seconds :: pyfloat
  reconnect_max_seconds :: pyfloat
  auth_retry_seconds :: pyfloat
  reconcile_interval_seconds :: pyfloat
  heartbeat_interval_seconds :: pyfloat

definition DEFAULT_AGENT_OPTIONS :: AgentOptions where
  "DEFAULT_AGENT_OPTIONS = \<lparr> reconnect_initial_seconds = Fin 1, reconnect_max_seconds = Fin 60,
     auth_retry_seconds = Fin 300, reconcile_interval_seconds = Fin 900, heartbeat_interval_seconds = Fin 60 \<rparr>"

definition RELOAD_POLICY_AUTO :: string where "RELOAD_POLICY_AUTO = ''auto''"
definition VALID_RELOAD_POLICIES :: "string list" where "VALID_RELOAD_POLICIES = [''auto'', ''never'']"
definition NODE_CACHE_DB_PATH :: string where "NODE_CACHE_DB_PATH = ''/var/lib/dn42ctl/node-cache.sqlite3''"
definition NODE_CONFIG_PATH :: string where "NODE_CONFIG_PATH = ''/etc/dn42ctl/node.toml''"

record NodeConfig =
  cfg_server :: string
  cfg_node_id :: string
  cfg_token :: string
  cfg_cache_db_path :: string
  cfg_agent :: AgentOptions
  cfg_reload_policy :: string

text \<open>\<open>asdict(options)\<close>, and the constructor with keyword arguments over the defaults.\<close>

definition options_dict :: "AgentOptions \<Rightarrow> (string \<times> pyfloat) list" where
  "options_dict a =
     [(''reconnect_initial_seconds'', reconnect_initial_seconds a),
      (''reconnect_max_seconds'', reconnect_max_seconds a),
      (''auth_retry_seconds'', auth_retry_seconds a),
      (''reconcile_interval_seconds'', reconcile_interval_seconds a),
      (''heartbeat_interval_seconds'', heartbeat_interval_seconds a)]"

definition option_value :: "(string \<times> pyfloat) list \<Rightarrow> string \<Rightarrow> pyfloat \<Rightarrow> pyfloat" where
  "option_value values k d = (case map_of values k of None \<Rightarrow> d | Some v \<Rightarrow> v)"

definition make_options :: "(string \<times> pyfloat) list \<Rightarrow> AgentOptions" where
  "make_options values = (let D = DEFAULT_AGENT_OPTIONS in
     \<lparr> reconnect_initial_seconds = option_value values ''reconnect_initial_seconds'' (reconnect_initial_seconds D),
       reconnect_max_seconds = option_value values ''reconnect_max_seconds'' (reconnect_max_seconds D),
       auth_retry_seconds = option_value values ''auth_retry_seconds'' (auth_retry_seconds D),
       reconcile_interval_seconds = option_value values ''reconcile_interval_seconds'' (reconcile_interval_seconds D),
       heartbeat_interval_seconds = option_value values ''heartbeat_interval_seconds'' (heartbeat_interval_seconds D) \<rparr>)"

section \<open>Reading\<close>

definition require_str :: "jdict \<Rightarrow> string \<Rightarrow> string result" where
  "require_str data key = (case dict_get_value data key of
     JStr s \<Rightarrow> if s = [] then Inl (NodeConfigError key) else Inr s
   | _ \<Rightarrow> Inl (NodeConfigError key))"

fun agent_number :: "toml_env \<Rightarrow> string \<Rightarrow> json \<Rightarrow> pyfloat result" where
  "agent_number T key (JInt i) = (if i \<le> 0 then Inl (NodeConfigError key) else float_int T i)"
| "agent_number T key (JFloat s) = (if le_zero (float_text T s) then Inl (NodeConfigError key) else Inr (float_text T s))"
| "agent_number T key _ = Inl (NodeConfigError key)"

fun parse_agent_items :: "toml_env \<Rightarrow> jdict \<Rightarrow> (string \<times> pyfloat) list \<Rightarrow> (string \<times> pyfloat) list result" where
  "parse_agent_items T [] values = Inr values"
| "parse_agent_items T ((key, raw) # items) values =
     (if key \<notin> set (map fst (options_dict DEFAULT_AGENT_OPTIONS)) then Inl (NodeConfigError key)
      else bindR (agent_number T key raw) (\<lambda>v. parse_agent_items T items (dict_set values key v)))"

fun parse_agent_block :: "toml_env \<Rightarrow> json \<Rightarrow> AgentOptions result" where
  "parse_agent_block T (JObj items) = bindR (parse_agent_items T items []) (\<lambda>values. Inr (make_options values))"
| "parse_agent_block T _ = Inl (NodeConfigError ''agent'')"

fun parse_apply_items :: "jdict \<Rightarrow> string \<Rightarrow> string result" where
  "parse_apply_items [] policy = Inr policy"
| "parse_apply_items ((k, v) # items) policy =
     (if k \<noteq> ''reload'' then Inl (NodeConfigError k)
      else case v of
        JStr s \<Rightarrow> if s \<in> set VALID_RELOAD_POLICIES then parse_apply_items items s else Inl (NodeConfigError ''reload'')
      | _ \<Rightarrow> Inl (NodeConfigError ''reload''))"

fun parse_apply_block :: "json option \<Rightarrow> string result" where
  "parse_apply_block None = Inr RELOAD_POLICY_AUTO"
| "parse_apply_block (Some (JObj items)) = parse_apply_items items RELOAD_POLICY_AUTO"
| "parse_apply_block (Some _) = Inl (NodeConfigError ''apply'')"

text \<open>\<open>str(Path(s))\<close>: empty and \<open>.\<close> components go, two leading slashes are a root of their own.\<close>

fun join_slash :: "string list \<Rightarrow> string" where
  "join_slash [] = []"
| "join_slash [p] = p"
| "join_slash (p # ps) = p @ ''/'' @ join_slash ps"

definition path_str :: "string \<Rightarrow> string" where
  "path_str s = (let root = (if startswith s ''//'' \<and> \<not> startswith s ''///'' then ''//''
                             else if startswith s ''/'' then ''/'' else []);
                     p = root @ join_slash (filter (\<lambda>x. x \<noteq> [] \<and> x \<noteq> ''.'') (split_on CHR ''/'' s))
                 in if p = [] then ''.'' else p)"

fun parse_cache_block :: "json option \<Rightarrow> string result" where
  "parse_cache_block None = Inr NODE_CACHE_DB_PATH"
| "parse_cache_block (Some (JObj items)) = (case dict_get items ''db_path'' of
     None \<Rightarrow> Inr NODE_CACHE_DB_PATH
   | Some (JStr s) \<Rightarrow> Inr (path_str s)
   | Some _ \<Rightarrow> Inl (NodeConfigError ''db_path''))"
| "parse_cache_block (Some _) = Inl (NodeConfigError ''cache'')"

definition parse_node_config :: "toml_env \<Rightarrow> jdict \<Rightarrow> NodeConfig result" where
  "parse_node_config T raw =
     bindR (require_str raw ''server'') (\<lambda>server.
     bindR (require_str raw ''node_id'') (\<lambda>node_id.
     bindR (require_str raw ''token'') (\<lambda>token.
     bindR (parse_apply_block (dict_get raw ''apply'')) (\<lambda>reload_policy.
     bindR (parse_cache_block (dict_get raw ''cache'')) (\<lambda>cache.
     bindR (case dict_get raw ''agent'' of None \<Rightarrow> Inr DEFAULT_AGENT_OPTIONS | Some b \<Rightarrow> parse_agent_block T b) (\<lambda>agent.
       Inr \<lparr> cfg_server = server, cfg_node_id = node_id, cfg_token = token, cfg_cache_db_path = cache,
             cfg_agent = agent, cfg_reload_policy = reload_policy \<rparr>))))))"

text \<open>Whatever goes wrong while the file is read is a \<open>NodeConfigError\<close>.\<close>

definition read_file :: "string \<Rightarrow> string option wop" where
  "read_file path = (\<lambda>w. if io_fault (env w) (tick w) then (Inl (OSError ''io''), next_tick w)
     else (Inr (map_option f_content (files w path)), next_tick w))"

definition load_node_config :: "toml_env \<Rightarrow> string \<Rightarrow> NodeConfig wop" where
  "load_node_config T path =
     bnd (try_except (bnd (read_file path) (\<lambda>c. case c of
            None \<Rightarrow> raise (NodeConfigError ''node.toml does not exist'')
          | Some text \<Rightarrow> (case toml_loads T text of
              None \<Rightarrow> raise (ValueError ''TOML'') | Some raw \<Rightarrow> ret raw)))
          (\<lambda>e. case e of NodeConfigError m \<Rightarrow> raise e | _ \<Rightarrow> raise (NodeConfigError ''reading node.toml failed'')))
     (\<lambda>raw. lift_result (parse_node_config T raw))"

section \<open>Writing\<close>

definition config_dict :: "toml_env \<Rightarrow> NodeConfig \<Rightarrow> jdict" where
  "config_dict T c =
     [(''server'', JStr (cfg_server c)), (''node_id'', JStr (cfg_node_id c)), (''token'', JStr (cfg_token c))]
     @ (if cfg_reload_policy c \<noteq> RELOAD_POLICY_AUTO then [(''apply'', JObj [(''reload'', JStr (cfg_reload_policy c))])] else [])
     @ (if cfg_cache_db_path c \<noteq> NODE_CACHE_DB_PATH then [(''cache'', JObj [(''db_path'', JStr (cfg_cache_db_path c))])] else [])
     @ (if cfg_agent c \<noteq> DEFAULT_AGENT_OPTIONS
        then [(''agent'', JObj (map (\<lambda>(k, v). (k, JFloat (repr_float T v))) (options_dict (cfg_agent c))))] else [])"

definition FILE_MODE_PRIVATE :: nat where "FILE_MODE_PRIVATE = 6 * 64"

text \<open>\<open>mkdir\<close>, then the text, then the permissions.\<close>

definition save_node_config :: "toml_env \<Rightarrow> string \<Rightarrow> NodeConfig \<Rightarrow> unit wop" where
  "save_node_config T path c =
     bnd (mkdir_parent path) (\<lambda>_.
     bnd (write_file path (toml_dumps T (config_dict T c))) (\<lambda>_.
     chmod_best_effort path FILE_MODE_PRIVATE))"

section \<open>What is written is read back\<close>

text \<open>What the code relies on of the two TOML packages: they invert each other on what is written.\<close>

definition toml_roundtrips :: "toml_env \<Rightarrow> NodeConfig \<Rightarrow> bool" where
  "toml_roundtrips T c \<longleftrightarrow> toml_loads T (toml_dumps T (config_dict T c)) = Some (config_dict T c)
     \<and> (\<forall>v \<in> set (map snd (options_dict (cfg_agent c))). float_text T (repr_float T v) = v)"

definition config_ok :: "NodeConfig \<Rightarrow> bool" where
  "config_ok c \<longleftrightarrow> cfg_server c \<noteq> [] \<and> cfg_node_id c \<noteq> [] \<and> cfg_token c \<noteq> []
     \<and> cfg_reload_policy c \<in> set VALID_RELOAD_POLICIES \<and> path_str (cfg_cache_db_path c) = cfg_cache_db_path c
     \<and> (\<forall>v \<in> set (map snd (options_dict (cfg_agent c))). \<not> le_zero v)"

lemma make_options_dict: "make_options (options_dict a) = a"
  by (simp add: make_options_def options_dict_def option_value_def)

lemma parse_agent_dict:
  assumes "\<forall>v \<in> set (map snd (options_dict a)). \<not> le_zero v \<and> float_text T (repr_float T v) = v"
  shows "parse_agent_block T (JObj (map (\<lambda>(k, v). (k, JFloat (repr_float T v))) (options_dict a))) = Inr a"
proof -
  have "parse_agent_items T (map (\<lambda>(k, v). (k, JFloat (repr_float T v))) (options_dict a)) [] = Inr (options_dict a)"
    using assms by (simp add: options_dict_def bindR_def)
  then show ?thesis by (simp add: bindR_def make_options_dict)
qed

lemma config_dict_get:
  "dict_get (config_dict T c) ''apply'' = (if cfg_reload_policy c \<noteq> RELOAD_POLICY_AUTO
     then Some (JObj [(''reload'', JStr (cfg_reload_policy c))]) else None)"
  "dict_get (config_dict T c) ''cache'' = (if cfg_cache_db_path c \<noteq> NODE_CACHE_DB_PATH
     then Some (JObj [(''db_path'', JStr (cfg_cache_db_path c))]) else None)"
  "dict_get (config_dict T c) ''agent'' = (if cfg_agent c \<noteq> DEFAULT_AGENT_OPTIONS
     then Some (JObj (map (\<lambda>(k, v). (k, JFloat (repr_float T v))) (options_dict (cfg_agent c)))) else None)"
  "dict_get_value (config_dict T c) ''server'' = JStr (cfg_server c)"
  "dict_get_value (config_dict T c) ''node_id'' = JStr (cfg_node_id c)"
  "dict_get_value (config_dict T c) ''token'' = JStr (cfg_token c)"
  by (simp_all add: config_dict_def dict_get_def dict_get_value_def)

lemma parse_config_dict:
  assumes "config_ok c" and "toml_roundtrips T c"
  shows "parse_node_config T (config_dict T c) = Inr c"
proof -
  from assms have a: "\<forall>v \<in> set (map snd (options_dict (cfg_agent c))). \<not> le_zero v \<and> float_text T (repr_float T v) = v"
    by (simp add: config_ok_def toml_roundtrips_def)
  have "parse_apply_block (dict_get (config_dict T c) ''apply'') = Inr (cfg_reload_policy c)"
    using assms(1) by (simp add: config_dict_get config_ok_def)
  moreover have "parse_cache_block (dict_get (config_dict T c) ''cache'') = Inr (cfg_cache_db_path c)"
    using assms(1) unfolding config_dict_get by (simp add: config_ok_def dict_get_def)
  moreover have "(case dict_get (config_dict T c) ''agent'' of None \<Rightarrow> Inr DEFAULT_AGENT_OPTIONS | Some b \<Rightarrow> parse_agent_block T b) = Inr (cfg_agent c)"
    using parse_agent_dict [OF a] by (simp add: config_dict_get)
  ultimately show ?thesis using assms(1)
    by (simp add: parse_node_config_def require_str_def config_dict_get config_ok_def bindR_def)
qed

lemma load_saved:
  assumes "files w path = Some f" and "f_content f = toml_dumps T (config_dict T c)" and "\<not> io_fault (env w) (tick w)"
    and "config_ok c" and "toml_roundtrips T c"
  shows "load_node_config T path w = (Inr c, next_tick w)"
  using assms parse_config_dict [OF assms(4,5)]
  by (simp add: load_node_config_def bnd_def try_except_def read_file_def ret_def lift_result_def toml_roundtrips_def)

lemma save_writes:
  assumes "save_node_config T path c w = (Inr (), w')"
  obtains f where "files w' path = Some f" and "f_content f = toml_dumps T (config_dict T c)" and "\<forall>p. p \<noteq> path \<longrightarrow> files w' p = files w p"
    and "disk w' = disk w" and "env w' = env w"
proof -
  have "\<exists>f. files w' path = Some f \<and> f_content f = toml_dumps T (config_dict T c)
      \<and> (\<forall>p. p \<noteq> path \<longrightarrow> files w' p = files w p) \<and> disk w' = disk w \<and> env w' = env w"
    using assms
    by (auto simp: save_node_config_def mkdir_parent_def write_file_def put_text_def bnd_def io_step_def chmod_best_effort_def
        ignore_os_error_def try_except_def ret_def put_content_def update_file_def split: if_splits option.splits)
  then show thesis using that by blast
qed

text \<open>
  Nothing of a node's configuration is lost: a configuration with its required fields, a
  valid policy and positive intervals that \<open>save_node_config\<close> has written is what
  \<open>load_node_config\<close> returns, with every option of the agent.
\<close>

theorem node_config_roundtrip:
  assumes "config_ok c" and "toml_roundtrips T c"
    and "save_node_config T path c w = (Inr (), w')" and "\<not> io_fault (env w') (tick w')"
  shows "load_node_config T path w' = (Inr c, next_tick w')"
proof -
  from save_writes [OF assms(3)] obtain f where "files w' path = Some f" "f_content f = toml_dumps T (config_dict T c)" by blast
  from load_saved [OF this assms(4,1,2)] show ?thesis .
qed

text \<open>
  \<open>float\<close> of an integer: it overflows or returns, and what it returns for a positive integer is
  positive.
\<close>

definition float_int_ok :: "toml_env \<Rightarrow> bool" where
  "float_int_ok T \<longleftrightarrow> (\<forall>i. case float_int T i of Inl e \<Rightarrow> e = OverflowError | Inr v \<Rightarrow> 0 < i \<longrightarrow> \<not> le_zero v)"

definition config_error :: "exn \<Rightarrow> bool" where
  "config_error e \<longleftrightarrow> (\<exists>m. e = NodeConfigError m) \<or> e = OverflowError"

lemma agent_number_cases:
  assumes "float_int_ok T"
  shows "case agent_number T k j of Inl e \<Rightarrow> config_error e | Inr v \<Rightarrow> \<not> le_zero v"
proof (cases j)
  case (JInt i)
  with assms [unfolded float_int_ok_def, rule_format, of i] show ?thesis by (auto simp: config_error_def split: sum.splits)
qed (simp_all add: config_error_def)

lemma agent_items_cases:
  assumes "float_int_ok T" and "\<forall>v \<in> snd ` set vs. \<not> le_zero v"
  shows "case parse_agent_items T items vs of Inl e \<Rightarrow> config_error e | Inr r \<Rightarrow> \<forall>v \<in> snd ` set r. \<not> le_zero v"
  using assms(2)
proof (induction items arbitrary: vs)
  case (Cons kv items)
  obtain k raw where kv: "kv = (k, raw)" by (cases kv)
  show ?case
  proof (cases "agent_number T k raw")
    case (Inl e)
    with agent_number_cases [OF assms(1), of k raw] show ?thesis by (simp add: kv bindR_def config_error_def)
  next
    case (Inr v)
    have "x \<in> set (dict_set d k v) \<Longrightarrow> x = (k, v) \<or> x \<in> set d" for x and d :: "(string \<times> pyfloat) list"
      by (induction d) (auto split: if_splits)
    with Inr agent_number_cases [OF assms(1), of k raw] Cons.prems have "\<forall>x \<in> snd ` set (dict_set vs k v). \<not> le_zero x" by fastforce
    from Cons.IH [OF this] Inr show ?thesis by (simp add: kv bindR_def config_error_def)
  qed
qed simp

lemma make_options_ok:
  "\<forall>v \<in> snd ` set vs. \<not> le_zero v \<Longrightarrow> \<forall>v \<in> set (map snd (options_dict (make_options vs))). \<not> le_zero v"
proof -
  assume vs: "\<forall>v \<in> snd ` set vs. \<not> le_zero v"
  have "\<not> le_zero (option_value vs k d)" if "\<not> le_zero d" for k d
    using vs that by (force simp: option_value_def split: option.splits dest: map_of_SomeD)
  then show ?thesis by (simp add: options_dict_def make_options_def Let_def DEFAULT_AGENT_OPTIONS_def)
qed

lemma agent_block_cases:
  assumes "float_int_ok T"
  shows "case parse_agent_block T j of Inl e \<Rightarrow> config_error e | Inr a \<Rightarrow> \<forall>v \<in> set (map snd (options_dict a)). \<not> le_zero v"
proof (cases j)
  case (JObj items)
  from agent_items_cases [OF assms, of "[]" items] show ?thesis
    using make_options_ok by (auto simp: JObj bindR_def split: sum.splits)
qed (simp_all add: config_error_def)

lemma apply_items_cases:
  "p \<in> set VALID_RELOAD_POLICIES \<Longrightarrow> case parse_apply_items items p of Inl e \<Rightarrow> config_error e | Inr q \<Rightarrow> q \<in> set VALID_RELOAD_POLICIES"
  by (induction items p rule: parse_apply_items.induct) (auto simp: config_error_def split: json.splits)

lemma apply_block_cases: "case parse_apply_block b of Inl e \<Rightarrow> config_error e | Inr q \<Rightarrow> q \<in> set VALID_RELOAD_POLICIES"
proof -
  have auto: "RELOAD_POLICY_AUTO \<in> set VALID_RELOAD_POLICIES" by (simp add: VALID_RELOAD_POLICIES_def RELOAD_POLICY_AUTO_def)
  from this apply_items_cases [OF this] show ?thesis
    by (cases b rule: parse_apply_block.cases) (auto simp: config_error_def)
qed

lemma require_str_cases: "case require_str d k of Inl e \<Rightarrow> config_error e | Inr s \<Rightarrow> s \<noteq> []"
  by (auto simp: require_str_def config_error_def split: json.splits)

lemma cache_block_error: "parse_cache_block b = Inl e \<Longrightarrow> config_error e"
  by (cases b rule: parse_cache_block.cases) (auto simp: config_error_def split: option.splits json.splits)

definition config_usable :: "NodeConfig \<Rightarrow> bool" where
  "config_usable c \<longleftrightarrow> cfg_server c \<noteq> [] \<and> cfg_node_id c \<noteq> [] \<and> cfg_token c \<noteq> []
     \<and> cfg_reload_policy c \<in> set VALID_RELOAD_POLICIES \<and> (\<forall>v \<in> set (map snd (options_dict (cfg_agent c))). \<not> le_zero v)"

lemma cases_bindR:
  "case m of Inl e \<Rightarrow> E e | Inr x \<Rightarrow> P x \<Longrightarrow> (\<And>x. P x \<Longrightarrow> case f x of Inl e \<Rightarrow> E e | Inr y \<Rightarrow> Q y) \<Longrightarrow>
   case bindR m f of Inl e \<Rightarrow> E e | Inr y \<Rightarrow> Q y"
  by (cases m) (auto simp: bindR_def)

lemma parse_node_config_cases:
  assumes "float_int_ok T"
  shows "case parse_node_config T raw of Inl e \<Rightarrow> config_error e | Inr c \<Rightarrow> config_usable c"
proof -
  have cache: "case parse_cache_block b of Inl e \<Rightarrow> config_error e | Inr p \<Rightarrow> True" for b
    using cache_block_error [of b] by (auto split: sum.splits)
  have agent: "case (case b of None \<Rightarrow> Inr DEFAULT_AGENT_OPTIONS | Some x \<Rightarrow> parse_agent_block T x) of
      Inl e \<Rightarrow> config_error e | Inr a \<Rightarrow> \<forall>v \<in> set (map snd (options_dict a)). \<not> le_zero v" for b
    using agent_block_cases [OF assms] by (cases b) (simp_all add: options_dict_def DEFAULT_AGENT_OPTIONS_def)
  show ?thesis unfolding parse_node_config_def
    by (rule cases_bindR [OF require_str_cases], rule cases_bindR [OF require_str_cases], rule cases_bindR [OF require_str_cases],
        rule cases_bindR [OF apply_block_cases], rule cases_bindR [OF cache], rule cases_bindR [OF agent])
      (simp add: config_usable_def)
qed

text \<open>
  What is loaded is usable: \<open>load_node_config\<close> raises nothing but \<open>NodeConfigError\<close>, unless
  an integer of the agent's options does not fit a float, and a configuration it returns has a
  server, a node id and a token, one of the two reload policies, and no interval that is zero
  or negative.
\<close>

theorem load_node_config_sound:
  assumes "float_int_ok T" and "load_node_config T path w = (r, w')"
  shows "(\<forall>e. r = Inl e \<longrightarrow> (\<exists>m. e = NodeConfigError m) \<or> e = OverflowError)
    \<and> (\<forall>c. r = Inr c \<longrightarrow> config_usable c)"
proof -
  let ?get = "try_except (bnd (read_file path) (\<lambda>c. case c of
            None \<Rightarrow> raise (NodeConfigError ''node.toml does not exist'')
          | Some text \<Rightarrow> (case toml_loads T text of
              None \<Rightarrow> raise (ValueError ''TOML'') | Some raw \<Rightarrow> ret raw)))
          (\<lambda>e. case e of NodeConfigError m \<Rightarrow> raise e | _ \<Rightarrow> raise (NodeConfigError ''reading node.toml failed''))"
  have err: "\<exists>m. e = NodeConfigError m" if "fst (?get w) = Inl e" for e
    using that by (auto simp: try_except_def raise_def bnd_def split: prod.splits sum.splits exn.splits)
  show ?thesis
  proof (cases "?get w")
    case (Pair g v)
    show ?thesis
    proof (cases g)
      case (Inl e)
      with err [of e] Pair assms(2) show ?thesis by (auto simp: load_node_config_def bnd_def)
    next
      case (Inr raw)
      with Pair assms(2) have "r = parse_node_config T raw" by (auto simp: load_node_config_def bnd_def lift_result_def)
      with parse_node_config_cases [OF assms(1), of raw] show ?thesis by (auto simp: config_error_def split: sum.splits)
    qed
  qed
qed

text \<open>\<open>nan\<close> is not \<open><= 0\<close>: an interval that is not a number is accepted.\<close>

theorem nan_interval_accepted:
  assumes "float_text T ''nan'' = NaN"
  shows "parse_agent_block T (JObj [(''heartbeat_interval_seconds'', JFloat ''nan'')])
    = Inr (DEFAULT_AGENT_OPTIONS\<lparr> heartbeat_interval_seconds := NaN \<rparr>)"
  using assms by (simp add: bindR_def options_dict_def make_options_def option_value_def DEFAULT_AGENT_OPTIONS_def)

text \<open>A configuration with a changed interval, and printers that are right for it.\<close>

definition sample_node_config :: NodeConfig where
  "sample_node_config = \<lparr> cfg_server = ''https://hub'', cfg_node_id = ''n1'', cfg_token = ''tok'',
     cfg_cache_db_path = ''/tmp/cache'', cfg_agent = DEFAULT_AGENT_OPTIONS\<lparr> reconnect_max_seconds := Fin 300 \<rparr>,
     cfg_reload_policy = ''never'' \<rparr>"

definition sample_toml :: toml_env where
  "sample_toml = \<lparr> toml_loads = (\<lambda>s. None), toml_dumps = (\<lambda>d. dumps (JObj d)),
     float_text = (\<lambda>s. if s = ''1.0'' then Fin 1 else if s = ''60.0'' then Fin 60 else if s = ''300.0'' then Fin 300 else Fin 900),
     repr_float = (\<lambda>v. if v = Fin 1 then ''1.0'' else if v = Fin 60 then ''60.0'' else if v = Fin 300 then ''300.0'' else ''900.0''),
     float_int = (\<lambda>i. Inr (Fin (of_int i))) \<rparr>"

definition good_toml :: toml_env where
  "good_toml = sample_toml\<lparr> toml_loads := (\<lambda>s. Some (config_dict sample_toml sample_node_config)) \<rparr>"

lemma good_toml_ok: "config_ok sample_node_config" "toml_roundtrips good_toml sample_node_config" "float_int_ok good_toml"
proof -
  show "config_ok sample_node_config"
    by (simp add: config_ok_def sample_node_config_def VALID_RELOAD_POLICIES_def options_dict_def DEFAULT_AGENT_OPTIONS_def
        path_str_def startswith_def)
  have "config_dict good_toml c = config_dict sample_toml c" for c by (simp add: config_dict_def good_toml_def)
  then show "toml_roundtrips good_toml sample_node_config"
    by (simp add: toml_roundtrips_def good_toml_def sample_toml_def sample_node_config_def options_dict_def DEFAULT_AGENT_OPTIONS_def)
  show "float_int_ok good_toml" by (simp add: float_int_ok_def good_toml_def sample_toml_def)
qed

theorem node_config_roundtrip_witness:
  "\<exists>w'. save_node_config good_toml ''/etc/node.toml'' sample_node_config (start_world empty_database) = (Inr (), w')
     \<and> load_node_config good_toml ''/etc/node.toml'' w' = (Inr sample_node_config, next_tick w')"
proof -
  obtain w' where w': "save_node_config good_toml ''/etc/node.toml'' sample_node_config (start_world empty_database) = (Inr (), w')" "env w' = quiet_env"
    by (simp add: save_node_config_def mkdir_parent_def write_file_def put_text_def bnd_def io_step_def chmod_best_effort_def ignore_os_error_def try_except_def
        update_file_def put_content_def)
  from node_config_roundtrip [OF good_toml_ok(1,2) w'(1)] w' show ?thesis by auto
qed

theorem load_node_config_sound_witness:
  "\<exists>w'. load_node_config good_toml ''/etc/node.toml'' ((start_world empty_database)\<lparr> files := (\<lambda>_. Some
       \<lparr> f_content = toml_dumps good_toml (config_dict good_toml sample_node_config), f_mode = 384, f_group = None \<rparr>) \<rparr>)
       = (Inr sample_node_config, w') \<and> config_usable sample_node_config"
proof -
  let ?w = "(start_world empty_database)\<lparr> files := (\<lambda>_. Some
       \<lparr> f_content = toml_dumps good_toml (config_dict good_toml sample_node_config), f_mode = 384, f_group = None \<rparr>) \<rparr>"
  have r: "load_node_config good_toml ''/etc/node.toml'' ?w = (Inr sample_node_config, next_tick ?w)"
    by (rule load_saved [OF _ _ _ good_toml_ok(1,2), where f = "\<lparr> f_content = toml_dumps good_toml
      (config_dict good_toml sample_node_config), f_mode = 384, f_group = None \<rparr>"]) simp_all
  from load_node_config_sound [OF good_toml_ok(3) r] r show ?thesis by blast
qed

end
