(* ===== verification/Admin.thy ===== *)
theory Admin
  imports Address Node_Config
begin

text \<open>
  \<open>dn42ctl/services/node_admin.py\<close>: the administrator's operations on the registry. The self
  node also has a \<open>node.toml\<close> on this machine, which a new token and a removal have to reach;
  what goes wrong there is reported and not raised, because the database has changed by then.
\<close>

section \<open>Node ids\<close>

text \<open>\<open>s.replace(pat, '')\<close> for a non-empty pattern.\<close>

function remove_all :: "string \<Rightarrow> string \<Rightarrow> string" where
  "remove_all pat s =
     (if pat = [] \<or> s = [] then s
      else if startswith s pat then remove_all pat (drop (length pat) s)
      else hd s # remove_all pat (tl s))"
  by pat_completeness auto

termination
  by (relation "measure (\<lambda>(pat, s). length s)") auto

declare remove_all.simps [simp del]

text \<open>\<open>int(s, 16)\<close>: white space, a sign, a prefix, and digits with single underscores between them.\<close>

definition hex_char :: "char \<Rightarrow> bool" where
  "hex_char c = (is_digit c \<or> (let n = code_point (lower_char c) in 97 \<le> n \<and> n \<le> 102))"

fun hex_groups :: "string \<Rightarrow> bool" where
  "hex_groups [] = False"
| "hex_groups [c] = hex_char c"
| "hex_groups (c # d # s) = (hex_char c \<and> (if d = CHR 0x5F then hex_groups s else hex_groups (d # s)))"

definition int16_ok :: "string \<Rightarrow> bool" where
  "int16_ok s = (let t = strip s;
       u = (if startswith t ''+'' \<or> startswith t ''-'' then tl t else t);
       v = (if startswith (lower u) ''0x'' then drop 2 u else u)
     in hex_groups (if v \<noteq> u \<and> startswith v [CHR 0x5F] then tl v else v))"

text \<open>Does \<open>uuid.UUID(s)\<close> return?\<close>

definition uuid_ok :: "string \<Rightarrow> bool" where
  "uuid_ok s = (let hex = remove_all ''-'' (rev (dropWhile (\<lambda>c. c \<in> set ''{}'') (rev (dropWhile (\<lambda>c. c \<in> set ''{}'')
       (remove_all ''uuid:'' (remove_all ''urn:'' s))))))
     in length hex = 32 \<and> int16_ok hex)"

definition validate_node_id :: "string \<Rightarrow> string wop" where
  "validate_node_id node_id =
     (if uuid_ok node_id then ret node_id else raise (Dn42CtlError (''node_id must be a UUID: '' @ node_id)))"

section \<open>The file of the self node\<close>

definition resolve_self_toml :: "string option \<Rightarrow> string" where
  "resolve_self_toml path = (case path of Some p \<Rightarrow> p | None \<Rightarrow> NODE_CONFIG_PATH)"

definition rewrite_self_node_toml :: "toml_env \<Rightarrow> string \<Rightarrow> string \<Rightarrow> string \<Rightarrow> string option wop" where
  "rewrite_self_node_toml T path plaintext node_id =
     bnd (try_except (bnd (load_node_config T path) (\<lambda>c. ret (Inr c)))
            (\<lambda>e. case e of NodeConfigError m \<Rightarrow> ret (Inl m) | _ \<Rightarrow> raise e)) (\<lambda>loaded. case loaded of
       Inl m \<Rightarrow> ret (Some m)
     | Inr existing \<Rightarrow>
         try_except (bnd (save_node_config T path (existing\<lparr> cfg_node_id := node_id, cfg_token := plaintext \<rparr>)) (\<lambda>_. ret None))
           (\<lambda>e. case e of OSError _ \<Rightarrow> ret (Some (''writing node.toml failed: '' @ path)) | _ \<Rightarrow> raise e))"

section \<open>Services\<close>

record RotatedToken =
  rt_node_id :: string
  rt_plaintext :: string
  rt_self_node_toml_updated :: bool
  rt_self_node_toml_path :: "string option"
  rt_self_node_toml_error :: "string option"

record RemovedNode =
  rn_node :: ManagedNode
  rn_self_node_toml_error :: "string option"

record NodeStatus =
  st_node_id :: string
  st_name :: string
  st_enabled :: bool
  st_is_self :: bool
  st_has_token :: bool
  st_last_seen_at :: "string option"
  st_current_revision :: "string option"
  st_pinned_revision :: "string option"

text \<open>\<open>_store_for\<close>, with the handler and the \<open>finally\<close> every service puts around its body.\<close>

definition with_store :: "'a wop \<Rightarrow> 'a wop" where
  "with_store body = with_db (as_ctl_error body)"

definition require_node :: "string \<Rightarrow> ManagedNode option \<Rightarrow> ManagedNode wop" where
  "require_node node_id node = (case node of
     None \<Rightarrow> raise (Dn42CtlError (''node does not exist: '' @ node_id)) | Some m \<Rightarrow> ret m)"

definition add_node :: "string \<Rightarrow> string \<Rightarrow> ManagedNode wop" where
  "add_node node_id name = bnd (validate_node_id node_id) (\<lambda>_.
     if strip name = [] then raise (Dn42CtlError ''name must not be empty'')
     else with_store (managed_add node_id (strip name)))"

definition list_nodes :: "ManagedNode list wop" where
  "list_nodes = with_store managed_list_all"

definition get_node :: "string \<Rightarrow> ManagedNode wop" where
  "get_node node_id = bnd (validate_node_id node_id) (\<lambda>_.
     bnd (with_store (managed_get node_id)) (require_node node_id))"

definition remove_node :: "string \<Rightarrow> bool \<Rightarrow> string option \<Rightarrow> RemovedNode wop" where
  "remove_node node_id force self_node_toml_path = bnd (validate_node_id node_id) (\<lambda>_.
     bnd (with_store (managed_delete node_id force)) (\<lambda>found.
     bnd (require_node node_id found) (\<lambda>removed.
     bnd (if mn_is_self removed
          then try_except (bnd (unlink (resolve_self_toml self_node_toml_path)) (\<lambda>_. ret None))
                 (\<lambda>e. case e of OSError _ \<Rightarrow> ret (Some ''deleting node.toml failed'') | _ \<Rightarrow> raise e)
          else ret None) (\<lambda>toml_error.
     ret \<lparr> rn_node = removed, rn_self_node_toml_error = toml_error \<rparr>))))"

text \<open>The new token \<open>plaintext\<close> is what \<open>secrets.token_urlsafe(32)\<close> returns.\<close>

definition rotate_token :: "toml_env \<Rightarrow> string \<Rightarrow> string \<Rightarrow> string option \<Rightarrow> RotatedToken wop" where
  "rotate_token T plaintext node_id self_node_toml_path = bnd (validate_node_id node_id) (\<lambda>_.
     bnd (with_store (bnd (managed_get node_id) (\<lambda>found.
          bnd (require_node node_id found) (\<lambda>node.
          bnd (managed_rotate_token node_id plaintext) (\<lambda>_. ret node))))) (\<lambda>node.
     let toml_path = (if mn_is_self node then Some (resolve_self_toml self_node_toml_path) else None) in
     bnd (case toml_path of None \<Rightarrow> ret None
          | Some path \<Rightarrow> rewrite_self_node_toml T path plaintext node_id) (\<lambda>toml_error.
     ret \<lparr> rt_node_id = node_id, rt_plaintext = plaintext,
           rt_self_node_toml_updated = (mn_is_self node \<and> toml_error = None),
           rt_self_node_toml_path = toml_path, rt_self_node_toml_error = toml_error \<rparr>)))"

definition get_node_status :: "string \<Rightarrow> NodeStatus wop" where
  "get_node_status node_id = bnd (validate_node_id node_id) (\<lambda>_.
     bnd (with_store (bnd (managed_get node_id) (\<lambda>found.
          bnd (require_node node_id found) (\<lambda>node.
          bnd (revision_list_for_node node_id 1) (\<lambda>revisions.
          bnd (get_pin node_id) (\<lambda>pin.
          ret (node, (case revisions of [] \<Rightarrow> None | r # _ \<Rightarrow> Some (cr_revision r)), map_option cr_revision pin)))))))
       (\<lambda>(node, current, pinned).
     ret \<lparr> st_node_id = mn_node_id node, st_name = mn_name node, st_enabled = mn_enabled node,
           st_is_self = mn_is_self node, st_has_token = (mn_api_token_hash node \<noteq> None),
           st_last_seen_at = mn_last_seen_at node, st_current_revision = current, st_pinned_revision = pinned \<rparr>))"

definition set_given :: "string \<Rightarrow> string option \<Rightarrow> write_policy \<Rightarrow> write_policy" where
  "set_given k v p = (case v of None \<Rightarrow> p | Some x \<Rightarrow> dict_set p k x)"

definition set_policy ::
  "string \<Rightarrow> string option \<Rightarrow> string option \<Rightarrow> string option \<Rightarrow> string option \<Rightarrow> ManagedNode wop" where
  "set_policy node_id peer_add peer_modify peer_delete report = bnd (validate_node_id node_id) (\<lambda>_.
     with_store (bnd (managed_get node_id) (\<lambda>found.
       bnd (require_node node_id found) (\<lambda>node.
       try_except (managed_set_write_policy node_id
           (set_given ''report'' report (set_given ''peer_delete'' peer_delete
             (set_given ''peer_modify'' peer_modify (set_given ''peer_add'' peer_add (mn_write_policy node))))))
         (\<lambda>e. case e of ValueError m \<Rightarrow> raise (Dn42CtlError m) | _ \<Rightarrow> raise e)))))"

section \<open>Files and the environment stay out of it\<close>

definition same_files :: "(string \<Rightarrow> fs_file option) \<Rightarrow> environment \<Rightarrow> world \<Rightarrow> bool" where
  "same_files F E w \<longleftrightarrow> files w = F \<and> env w = E"

lemma same_files_statements [preserve]:
  "preserves (same_files F E) (sql_query q)" "preserves (same_files F E) (sql_dml f)"
  "preserves (same_files F E) commit" "preserves (same_files F E) rollback" "preserves (same_files F E) now_iso"
  by (auto simp: preserves_def same_files_def sql_query_def sql_dml_def commit_def rollback_def modify_state_def now_iso_def
      split: option.splits sum.splits)

lemma same_files_tx [preserve]: "preserves (same_files F E) body \<Longrightarrow> preserves (same_files F E) (with_tx msg body)"
  unfolding with_tx_def by (auto intro!: preserve)

lemma same_files_stores [preserve]:
  "preserves (same_files F E) (managed_get n)" "preserves (same_files F E) (managed_set_token_hash n h)"
  unfolding managed_get_def wrap_db_def managed_set_token_hash_def emit_sync_event_def require_row_def by (auto intro!: preserve)

lemma load_keeps_world: "load_node_config T path w = (r, w') \<Longrightarrow> files w' = files w \<and> disk w' = disk w \<and> tx w' = tx w \<and> env w' = env w"
  by (auto simp: load_node_config_def bnd_def try_except_def read_file_def raise_def ret_def lift_result_def
      split: if_splits option.splits prod.splits sum.splits exn.splits)

text \<open>The text of a file is the beginning of \<open>s\<close>, and no other file is touched.\<close>

definition cut_short :: "string \<Rightarrow> string \<Rightarrow> (string \<Rightarrow> fs_file option) \<Rightarrow> (string \<Rightarrow> fs_file option) \<Rightarrow> bool" where
  "cut_short path s F F' \<longleftrightarrow> (\<exists>f k. F' path = Some f \<and> f_content f = take k s) \<and> (\<forall>p. p \<noteq> path \<longrightarrow> F' p = F p)"

lemma save_raises:
  "save_node_config T path c w = (Inl e, w') \<Longrightarrow> files w' = files w \<or> cut_short path (toml_dumps T (config_dict T c)) (files w) (files w')"
  by (auto simp: save_node_config_def mkdir_parent_def write_file_def put_text_def put_content_def cut_short_def bnd_def io_step_def
      chmod_best_effort_def ignore_os_error_def try_except_def ret_def raise_def split: if_splits prod.splits sum.splits exn.splits option.splits)

lemma save_disk: "save_node_config T path c w = (r, w') \<Longrightarrow> disk w' = disk w"
proof -
  have "read_only (save_node_config T path c)"
    unfolding save_node_config_def by (auto intro!: fileop atomic)
  moreover assume "save_node_config T path c w = (r, w')"
  ultimately show ?thesis using read_onlyD by blast
qed

text \<open>
  The file of the self node is rewritten in two fields, or the reason is reported and it has stayed
  or was cut short.
\<close>

lemma rewrite_self_returns:
  assumes "rewrite_self_node_toml T path t n w = (Inr err, w')"
  shows "disk w' = disk w"
    and "err \<noteq> None \<Longrightarrow> files w' = files w \<or> (\<exists>c w1. load_node_config T path w = (Inr c, w1)
      \<and> cut_short path (toml_dumps T (config_dict T (c\<lparr> cfg_node_id := n, cfg_token := t \<rparr>))) (files w) (files w'))"
    and "err = None \<Longrightarrow> \<exists>c w1 f. load_node_config T path w = (Inr c, w1) \<and> files w' path = Some f
      \<and> f_content f = toml_dumps T (config_dict T (c\<lparr> cfg_node_id := n, cfg_token := t \<rparr>)) \<and> (\<forall>p. p \<noteq> path \<longrightarrow> files w' p = files w p)"
proof -
  obtain r w1 where l: "load_node_config T path w = (r, w1)" by fastforce
  note k = load_keeps_world [OF l]
  have "disk w' = disk w \<and> (err \<noteq> None \<longrightarrow> files w' = files w \<or> (\<exists>c. r = Inr c
      \<and> cut_short path (toml_dumps T (config_dict T (c\<lparr> cfg_node_id := n, cfg_token := t \<rparr>))) (files w) (files w'))) \<and> (err = None \<longrightarrow> (\<exists>c f. r = Inr c \<and> files w' path = Some f
      \<and> f_content f = toml_dumps T (config_dict T (c\<lparr> cfg_node_id := n, cfg_token := t \<rparr>)) \<and> (\<forall>p. p \<noteq> path \<longrightarrow> files w' p = files w p)))"
  proof (cases r)
    case (Inl e)
    then show ?thesis using assms l k
      by (cases e) (auto simp: rewrite_self_node_toml_def bnd_def try_except_def ret_def raise_def)
  next
    case (Inr c)
    let ?c = "c\<lparr> cfg_node_id := n, cfg_token := t \<rparr>"
    obtain q w2 where s: "save_node_config T path ?c w1 = (q, w2)" by fastforce
    have "w' = w2 \<and> (err = None \<longleftrightarrow> q = Inr ())"
      using assms l s Inr by (cases q) (auto simp: rewrite_self_node_toml_def bnd_def try_except_def ret_def raise_def split: exn.splits)
    moreover have "files w2 = files w \<or> cut_short path (toml_dumps T (config_dict T ?c)) (files w) (files w2)" if "q = Inl e" for e using save_raises [of T path ?c w1 e w2] s that k by simp
    moreover have "\<exists>f. files w2 path = Some f \<and> f_content f = toml_dumps T (config_dict T ?c) \<and> (\<forall>p. p \<noteq> path \<longrightarrow> files w2 p = files w p)"
      if "q = Inr ()" using save_writes [of T path ?c w1 w2] s that k by metis
    moreover have "disk w2 = disk w" using save_disk [OF s] k by simp
    ultimately show ?thesis using Inr by (cases q) auto
  qed
  with l show "disk w' = disk w" "err \<noteq> None \<Longrightarrow> files w' = files w \<or> (\<exists>c w1. load_node_config T path w = (Inr c, w1)
      \<and> cut_short path (toml_dumps T (config_dict T (c\<lparr> cfg_node_id := n, cfg_token := t \<rparr>))) (files w) (files w'))"
    "err = None \<Longrightarrow> \<exists>c w1 f. load_node_config T path w = (Inr c, w1) \<and> files w' path = Some f
      \<and> f_content f = toml_dumps T (config_dict T (c\<lparr> cfg_node_id := n, cfg_token := t \<rparr>)) \<and> (\<forall>p. p \<noteq> path \<longrightarrow> files w' p = files w p)"
    by blast+
qed

lemma rotate_in_store:
  assumes "tx w = None" and "migrated (disk w)"
    and "with_store (bnd (managed_get n) (\<lambda>found. bnd (require_node n found) (\<lambda>node.
          bnd (managed_rotate_token n t) (\<lambda>_. ret node)))) w = (Inr node, w')"
  shows "find_managed n (disk w) = Some node" and "files w' = files w" and "tx w' = None"
    and "\<exists>now now' c d1. update_managed n (\<lambda>m. m\<lparr> mn_api_token_hash := Some (hash_token (sha256_hex (env w)) t), mn_updated_at := now \<rparr>) (disk w) = Inr (c, d1)
      \<and> disk w' = after_event n SYNC_EVENT_ACCESS_REVOKED now' d1"
proof -
  from assms(3) obtain wa wb wc where a: "db_open w = (Inr (), wa)" and b: "managed_get n wa = (Inr (Some node), wb)"
    and c: "managed_rotate_token n t wb = (Inr (), wc)" and w': "w' = close_conn wc"
    by (auto simp: with_store_def with_db_def closing_def as_ctl_error_def returns require_node_def split: option.splits)
  from db_open_migrated [OF assms(2,1)] a have wa: "disk wa = disk w" "tx wa = None" "same_files (files w) (env w) wa"
    by (simp_all add: same_files_def)
  from read_onlyD [OF read_only_managed(1) b] wa have wb: "disk wb = disk w" "tx wb = None" by simp_all
  from preservesD [OF same_files_stores(1) wa(3), of n] b have fb: "files wb = files w" "env wb = env w"
    by (simp_all add: same_files_def)
  from op_specD [OF managed_read_specs(1) b] wa show "find_managed n (disk w) = Some node" by (simp add: view_no_tx)
  let ?h = "hash_token (sha256_hex (env w)) t"
  have c': "managed_set_token_hash n ?h wb = (Inr (), wc)" using c fb(2) by (simp add: managed_rotate_token_def bnd_def read_state_def)
  have "same_files (files w) (env w) wb" using fb by (simp add: same_files_def)
  from preservesD [OF same_files_stores(2) this, of n ?h] c' show "files w' = files w" by (simp add: same_files_def w' close_conn_def)
  show "tx w' = None" by (simp add: w' close_conn_def)
  from atomic_returns [OF atomic_set_token_hash managed_set_token_hash_spec wb(2) c'] wb(1)
  show "\<exists>now now' c d1. update_managed n (\<lambda>m. m\<lparr> mn_api_token_hash := Some ?h, mn_updated_at := now \<rparr>) (disk w) = Inr (c, d1)
      \<and> disk w' = after_event n SYNC_EVENT_ACCESS_REVOKED now' d1"
    by (simp add: w' close_conn_def) metis
qed

text \<open>
  C35. What \<open>rotate_token\<close> of the administration says of \<open>node.toml\<close> is true: when it returns, the
  registry accepts the token it returns for this node and the revocation is announced; for
  another node no file is touched; for the self node either \<open>node.toml\<close> is reported as updated
  and is the old configuration with the new token and node id and every other field kept, or
  an error is reported and no file has changed or, when the write failed after the file was
  opened, \<open>node.toml\<close> holds a prefix of that text and no other file has changed.
\<close>

theorem rotate_token_rewrites_self:
  assumes "tx w = None" and "migrated (disk w)"
    and run: "rotate_token T t n toml w = (Inr r, w')"
  shows "\<exists>node. find_managed n (disk w) = Some node \<and> rt_plaintext r = t
    \<and> map_option mn_api_token_hash (find_managed n (disk w')) = Some (Some (hash_token (sha256_hex (env w)) t))
    \<and> (\<exists>e \<in> set (sync_events (disk w')). se_node_id e = n \<and> se_kind e = SYNC_EVENT_ACCESS_REVOKED \<and> events_seq (disk w) < se_id e)
    \<and> (\<not> mn_is_self node \<longrightarrow> files w' = files w \<and> \<not> rt_self_node_toml_updated r)
    \<and> (mn_is_self node \<and> \<not> rt_self_node_toml_updated r \<longrightarrow> rt_self_node_toml_error r \<noteq> None
        \<and> (files w' = files w \<or> (\<exists>c v v'. load_node_config T (resolve_self_toml toml) v = (Inr c, v') \<and> files v = files w
            \<and> cut_short (resolve_self_toml toml) (toml_dumps T (config_dict T (c\<lparr> cfg_node_id := n, cfg_token := t \<rparr>))) (files w) (files w'))))
    \<and> (mn_is_self node \<and> rt_self_node_toml_updated r \<longrightarrow> rt_self_node_toml_error r = None \<and> (\<exists>c v v' f. load_node_config T (resolve_self_toml toml) v = (Inr c, v')
         \<and> files v = files w \<and> files w' (resolve_self_toml toml) = Some f
         \<and> f_content f = toml_dumps T (config_dict T (c\<lparr> cfg_node_id := n, cfg_token := t \<rparr>))
         \<and> (\<forall>p. p \<noteq> resolve_self_toml toml \<longrightarrow> files w' p = files w p)))"
proof -
  let ?path = "resolve_self_toml toml" and ?h = "hash_token (sha256_hex (env w)) t"
  from run obtain node w1 err where
    st: "with_store (bnd (managed_get n) (\<lambda>found. bnd (require_node n found) (\<lambda>node.
          bnd (managed_rotate_token n t) (\<lambda>_. ret node)))) w = (Inr node, w1)"
    and fl: "(if mn_is_self node then rewrite_self_node_toml T ?path t n else ret None) w1 = (Inr err, w')"
    and r: "r = \<lparr> rt_node_id = n, rt_plaintext = t, rt_self_node_toml_updated = (mn_is_self node \<and> err = None),
      rt_self_node_toml_path = (if mn_is_self node then Some ?path else None), rt_self_node_toml_error = err \<rparr>"
    by (auto simp: rotate_token_def validate_node_id_def Let_def returns split: if_splits)
  note s = rotate_in_store [OF assms(1,2) st]
  from s(4) obtain now now' c d1 where u: "update_managed n (\<lambda>m. m\<lparr> mn_api_token_hash := Some ?h, mn_updated_at := now \<rparr>) (disk w) = Inr (c, d1)"
    and d1: "disk w1 = after_event n SYNC_EVENT_ACCESS_REVOKED now' d1" by blast
  have disk: "disk w' = disk w1" using fl rewrite_self_returns(1) by (auto simp: returns split: if_splits)
  have "find_managed n (disk w') = map_option (\<lambda>m. m\<lparr> mn_api_token_hash := Some ?h, mn_updated_at := now \<rparr>) (find_managed n (disk w))"
    using update_managed_find [OF u] by (simp add: disk d1 find_managed_def)
  moreover have "events_seq d1 = events_seq (disk w)" using u by (auto simp: update_managed_def)
  then have "\<exists>e \<in> set (sync_events (disk w')). se_node_id e = n \<and> se_kind e = SYNC_EVENT_ACCESS_REVOKED \<and> events_seq (disk w) < se_id e"
    using after_event_announces [of n SYNC_EVENT_ACCESS_REVOKED now' d1] by (simp add: disk d1)
  moreover have "files w' = files w" if "\<not> mn_is_self node" using fl that s(2) by (simp add: returns)
  moreover have "files w' = files w \<or> (\<exists>c v v'. load_node_config T ?path v = (Inr c, v') \<and> files v = files w
       \<and> cut_short ?path (toml_dumps T (config_dict T (c\<lparr> cfg_node_id := n, cfg_token := t \<rparr>))) (files w) (files w'))"
    if "mn_is_self node" "err \<noteq> None" using fl that rewrite_self_returns(2) [of T ?path t n w1 err w'] s(2) by auto
  moreover have "\<exists>c v v' f. load_node_config T ?path v = (Inr c, v') \<and> files v = files w \<and> files w' ?path = Some f
       \<and> f_content f = toml_dumps T (config_dict T (c\<lparr> cfg_node_id := n, cfg_token := t \<rparr>)) \<and> (\<forall>p. p \<noteq> ?path \<longrightarrow> files w' p = files w p)"
    if "mn_is_self node" "err = None" using fl that rewrite_self_returns(3) [of T ?path t n w1 err w'] s(2) by auto
  ultimately show ?thesis using s(1) by (auto simp: r)
qed

lemma total_read_state: "(\<And>x. succeeds b P (f x) R) \<Longrightarrow> succeeds b P (bnd (read_state g) f) R"
  by (simp add: succeeds_def bnd_def read_state_def)

lemma total_set_token_hash: "succeeds False (\<lambda>d. find_managed n d \<noteq> None \<and> (\<forall>d'. R () d')) (managed_set_token_hash n h) R"
  unfolding managed_set_token_hash_def
  by (rule total_pre, (rule total)+) (auto simp: update_managed_def find_managed_def filter_empty_conv dest!: find_Some_set)

lemma total_rotate_in_store:
  "succeeds False (\<lambda>d. migrated d \<and> find_managed n d = Some m)
     (with_store (bnd (managed_get n) (\<lambda>found. bnd (require_node n found) (\<lambda>node.
          bnd (managed_rotate_token n t) (\<lambda>_. ret node))))) (\<lambda>node _. node = m)"
  unfolding with_store_def require_node_def managed_rotate_token_def
  by (rule total_pre, (rule total_read_state | rule total | rule total_with_db | rule total_set_token_hash)+) auto

lemma save_returns: "no_faults w \<Longrightarrow> \<exists>w'. save_node_config T path c w = (Inr (), w')"
  by (simp add: save_node_config_def mkdir_parent_def write_file_def put_text_def bnd_def io_step_def chmod_best_effort_def
      ignore_os_error_def try_except_def no_faults_def update_file_def put_content_def)

text \<open>A self node with its file.\<close>

definition sample_id :: string where "sample_id = ''11111111-2222-3333-4444-555555555555''"

lemma sample_id_ok: "uuid_ok sample_id"
  by (simp add: uuid_ok_def sample_id_def remove_all.simps startswith_def int16_ok_def strip_def lstrip_def rstrip_def
      is_space_def code_point_def lower_def lower_char_def hex_char_def is_digit_def)

definition self_world :: world where
  "self_world = (start_world (ready (sample_db\<lparr> nodes := [\<lparr> n_node_id = sample_id, n_created_at = ''t0'', n_updated_at = ''t0'' \<rparr>],
       managed_nodes := [new_managed sample_id ''hub'' True ''t0''] \<rparr>)))\<lparr> files := (\<lambda>_. Some
       \<lparr> f_content = toml_dumps good_toml (config_dict good_toml sample_node_config), f_mode = 384, f_group = None \<rparr>) \<rparr>"

lemma self_world_ok: "tx self_world = None" "migrated (disk self_world)" "no_faults self_world"
    "find_managed sample_id (disk self_world) = Some (new_managed sample_id ''hub'' True ''t0'')"
  by (simp_all add: self_world_def no_faults_def find_managed_def new_managed_def)

lemma self_rotation: "\<exists>r w'. rotate_token good_toml ''new'' sample_id None self_world = (Inr r, w') \<and> rt_self_node_toml_updated r"
proof -
  let ?m = "new_managed sample_id ''hub'' True ''t0''"
  obtain node w1 where st: "with_store (bnd (managed_get sample_id) (\<lambda>found. bnd (require_node sample_id found) (\<lambda>node.
          bnd (managed_rotate_token sample_id ''new'') (\<lambda>_. ret node)))) self_world = (Inr node, w1)"
    and w1: "no_faults w1" "node = ?m" "env w1 = env self_world"
    by (rule totalD [OF total_rotate_in_store, of self_world sample_id ?m "''new''"]) (use self_world_ok in auto)
  have "files w1 = files self_world" by (rule rotate_in_store(2) [OF self_world_ok(1,2) st])
  then have "load_node_config good_toml NODE_CONFIG_PATH w1 = (Inr sample_node_config, next_tick w1)"
    by (intro load_saved [OF _ _ _ good_toml_ok(1,2), where f = "\<lparr> f_content = toml_dumps good_toml
      (config_dict good_toml sample_node_config), f_mode = 384, f_group = None \<rparr>"]) (use w1 in \<open>simp_all add: self_world_def no_faults_def\<close>)
  moreover obtain w2 where "save_node_config good_toml NODE_CONFIG_PATH
      (sample_node_config\<lparr> cfg_node_id := sample_id, cfg_token := ''new'' \<rparr>) (next_tick w1) = (Inr (), w2)"
    using save_returns [of "next_tick w1"] w1(1) by (fastforce simp: no_faults_def)
  ultimately have "rewrite_self_node_toml good_toml NODE_CONFIG_PATH ''new'' sample_id w1 = (Inr None, w2)"
    by (simp add: rewrite_self_node_toml_def bnd_def try_except_def ret_def)
  moreover have "mn_is_self ?m" by (simp add: new_managed_def)
  ultimately show ?thesis using sample_id_ok st w1(2)
    by (simp add: rotate_token_def returns validate_node_id_def resolve_self_toml_def Let_def)
qed

theorem rotate_token_rewrites_self_witness:
  "\<exists>r w' f. rotate_token good_toml ''new'' sample_id None self_world = (Inr r, w') \<and> rt_plaintext r = ''new''
     \<and> files w' NODE_CONFIG_PATH = Some f"
proof -
  obtain r w' where r: "rotate_token good_toml ''new'' sample_id None self_world = (Inr r, w')" "rt_self_node_toml_updated r"
    using self_rotation by blast
  from rotate_token_rewrites_self [OF self_world_ok(1,2) r(1)] r self_world_ok(4) show ?thesis
    by (auto simp: new_managed_def resolve_self_toml_def)
qed

text \<open>
  Rewriting is not atomic: when the disk is full the configuration of the node is gone, and with it
  the server it connects to, although the new token could have been entered by hand.
\<close>

theorem failed_rewrite_truncates:
  "\<exists>w' f. rewrite_self_node_toml good_toml NODE_CONFIG_PATH ''new'' sample_id
       (self_world\<lparr> env := quiet_env\<lparr> io_fault := (\<lambda>n. n = 3) \<rparr> \<rparr>) = (Inr (Some (''writing node.toml failed: '' @ NODE_CONFIG_PATH)), w')
     \<and> files w' NODE_CONFIG_PATH = Some f \<and> f_content f = []"
proof -
  let ?w = "self_world\<lparr> env := quiet_env\<lparr> io_fault := (\<lambda>n. n = 3) \<rparr> \<rparr>"
  have "load_node_config good_toml NODE_CONFIG_PATH ?w = (Inr sample_node_config, next_tick ?w)"
    by (rule load_saved [OF _ _ _ good_toml_ok(1,2), where f = "\<lparr> f_content = toml_dumps good_toml
      (config_dict good_toml sample_node_config), f_mode = 384, f_group = None \<rparr>"]) (simp_all add: self_world_def)
  then show ?thesis
    by (simp add: rewrite_self_node_toml_def bnd_def try_except_def ret_def save_node_config_def mkdir_parent_def write_file_def put_text_def
        io_step_def put_content_def self_world_def next_tick_def)
qed

end
