(* ===== verification/Kioubit.thy ===== *)
theory Kioubit
  imports Node_Config Protocol Validators
begin

text \<open>
  \<open>dn42ctl/services/kioubit_auth.py\<close>: the check of a signed authentication response. The
  signature scheme and the hash are the package \<open>cryptography\<close> and \<open>hashlib\<close>, as arguments;
  so are the text encoding \<open>json.loads\<close> detects in bytes and the rounding of numbers to floats.
  Times are in seconds and their arithmetic is exact.
\<close>

section \<open>Parameters\<close>

record kioubit_env =
  ecdsa_verify :: "nat list \<Rightarrow> string \<Rightarrow> bool"
  sha256_bytes :: "nat list \<Rightarrow> string"
  decode_bytes :: "nat list \<Rightarrow> string option"
  kb_float_repr :: "string \<Rightarrow> string"
  kb_recursion_limit :: nat
  kb_float_text :: "string \<Rightarrow> pyfloat option"
  kb_float_int :: "int \<Rightarrow> pyfloat result"

definition MAX_AGE_SECONDS :: rat where "MAX_AGE_SECONDS = 60"

record KioubitIdentity =
  ki_asn :: int
  ki_mntner :: string
  ki_authtype :: string
  ki_issued_at :: pyfloat
  ki_digest :: string

section \<open>Conversions\<close>

definition kb_b64decode :: "string \<Rightarrow> string \<Rightarrow> nat list result" where
  "kb_b64decode value field = (case b64decode value of
     None \<Rightarrow> Inl (KioubitAuthError (field @ '' is not base64'')) | Some b \<Rightarrow> Inr b)"

text \<open>\<open>float(x)\<close> of a decoded value.\<close>

fun to_float :: "kioubit_env \<Rightarrow> json \<Rightarrow> pyfloat result" where
  "to_float K (JBool b) = Inr (Fin (if b then 1 else 0))"
| "to_float K (JInt i) = kb_float_int K i"
| "to_float K (JFloat s) = (case kb_float_text K s of None \<Rightarrow> Inl (ValueError ''float'') | Some v \<Rightarrow> Inr v)"
| "to_float K (JStr s) = (case kb_float_text K s of None \<Rightarrow> Inl (ValueError ''float'') | Some v \<Rightarrow> Inr v)"
| "to_float K _ = Inl (TypeError ''float'')"

text \<open>\<open>int(x)\<close> of a decoded value: a string of digits with single underscores between them, a float truncated.\<close>

fun dec_groups :: "string \<Rightarrow> bool" where
  "dec_groups [] = False"
| "dec_groups [c] = is_digit c"
| "dec_groups (c # d # s) = (is_digit c \<and> (if d = CHR 0x5F then dec_groups s else dec_groups (d # s)))"

definition int_of_str :: "string \<Rightarrow> int result" where
  "int_of_str s = (let t = strip s;
       u = (if startswith t ''+'' \<or> startswith t ''-'' then tl t else t);
       digits = filter is_digit u
     in if \<not> dec_groups u \<or> INT_MAX_STR_DIGITS < length digits then Inl (ValueError ''int'')
        else Inr (if startswith t ''-'' then - int (parse_nat digits) else int (parse_nat digits)))"

fun int_of_float :: "pyfloat \<Rightarrow> int result" where
  "int_of_float (Fin q) = Inr (if q \<ge> 0 then floor q else ceiling q)"
| "int_of_float NaN = Inl (ValueError ''nan'')"
| "int_of_float _ = Inl OverflowError"

fun to_int :: "kioubit_env \<Rightarrow> json \<Rightarrow> int result" where
  "to_int K (JBool b) = Inr (if b then 1 else 0)"
| "to_int K (JInt i) = Inr i"
| "to_int K (JFloat s) = (case kb_float_text K s of None \<Rightarrow> Inl (ValueError ''float'') | Some v \<Rightarrow> int_of_float v)"
| "to_int K (JStr s) = int_of_str s"
| "to_int K _ = Inl (TypeError ''int'')"

text \<open>\<open>abs(current - issued_at) > MAX_AGE_SECONDS\<close>; a comparison with \<open>nan\<close> is false.\<close>

fun stale :: "rat \<Rightarrow> pyfloat \<Rightarrow> bool" where
  "stale now (Fin q) = (MAX_AGE_SECONDS < \<bar>now - q\<bar>)"
| "stale now NaN = False"
| "stale now _ = True"

section \<open>The fields of a response\<close>

definition removeprefix :: "string \<Rightarrow> string \<Rightarrow> string" where
  "removeprefix s p = (if startswith s p then drop (length p) s else s)"

definition expected_domain :: "string \<Rightarrow> string" where
  "expected_domain domain =
     rev (dropWhile (\<lambda>c. c = CHR ''/'') (rev (removeprefix (removeprefix domain ''https://'') ''http://'')))"

fun first_name :: "json list \<Rightarrow> string option" where
  "first_name [] = None"
| "first_name (j # js) = (case j of
     JStr s \<Rightarrow> if strip s \<noteq> [] then Some (strip s) else first_name js | _ \<Rightarrow> first_name js)"

definition pick_mntner :: "jdict \<Rightarrow> string result" where
  "pick_mntner payload = (case first_name [dict_get_value payload ''effective_mnt''] of
     Some s \<Rightarrow> Inr s
   | None \<Rightarrow> (case dict_get_value payload ''mnt'' of
       JStr s \<Rightarrow> if strip s \<noteq> [] then Inr (strip s) else Inl (KioubitAuthError ''mntner missing'')
     | JArr items \<Rightarrow> (case first_name items of
         Some s \<Rightarrow> Inr s | None \<Rightarrow> Inl (KioubitAuthError ''mntner missing''))
     | _ \<Rightarrow> Inl (KioubitAuthError ''mntner missing'')))"

text \<open>
  \<open>json.loads\<close> of the decoded bytes. An integer with too many digits raises a plain
  \<open>ValueError\<close>, which is not a \<open>JSONDecodeError\<close>.
\<close>

definition load_params :: "kioubit_env \<Rightarrow> string \<Rightarrow> json result" where
  "load_params K params = bindR (kb_b64decode params ''params'') (\<lambda>b. case decode_bytes K b of
     None \<Rightarrow> Inl (KioubitAuthError ''not valid JSON'')
   | Some text \<Rightarrow> (case loads (kb_float_repr K) (kb_recursion_limit K) text of
       Inr j \<Rightarrow> Inr j
     | Inl (ValueError m) \<Rightarrow> if m = ''Exceeds the limit for integer string conversion'' then Inl (ValueError m)
                              else Inl (KioubitAuthError ''not valid JSON'')
     | Inl e \<Rightarrow> Inl e))"

definition issued_time :: "kioubit_env \<Rightarrow> jdict \<Rightarrow> pyfloat result" where
  "issued_time K payload = (case dict_get payload ''time'' of
     None \<Rightarrow> Inl (KioubitAuthError ''time'')
   | Some v \<Rightarrow> (case to_float K v of
       Inl e \<Rightarrow> if is_value_error e then Inl (KioubitAuthError ''time'') else Inl e
     | Inr x \<Rightarrow> Inr x))"

definition verified_asn :: "kioubit_env \<Rightarrow> jdict \<Rightarrow> int result" where
  "verified_asn K payload = (case bindR (to_int K (dict_get_value payload ''asn'')) validate_asn of
     Inl (ValidationError m) \<Rightarrow> Inl (KioubitAuthError ''asn'')
   | Inl e \<Rightarrow> if is_value_error e then Inl (KioubitAuthError ''asn'') else Inl e
   | Inr a \<Rightarrow> Inr a)"

definition authtype_of :: "jdict \<Rightarrow> string" where
  "authtype_of payload = (case dict_get_value payload ''authtype'' of JStr s \<Rightarrow> s | _ \<Rightarrow> [])"

section \<open>The check\<close>

text \<open>The second half: what the signed payload says.\<close>

definition check_payload :: "kioubit_env \<Rightarrow> nat list \<Rightarrow> string \<Rightarrow> rat \<Rightarrow> jdict \<Rightarrow> KioubitIdentity result" where
  "check_payload K sig domain now payload =
     (if dict_get_value payload ''domain'' \<noteq> JStr (expected_domain domain)
      then Inl (KioubitAuthError ''response for another domain'')
      else bindR (issued_time K payload) (\<lambda>issued_at.
        if stale now issued_at then Inl (KioubitExpiredError ''expired'')
        else bindR (verified_asn K payload) (\<lambda>asn.
             bindR (pick_mntner payload) (\<lambda>mntner.
             Inr \<lparr> ki_asn = asn, ki_mntner = mntner, ki_authtype = authtype_of payload,
                   ki_issued_at = issued_at, ki_digest = sha256_bytes K sig \<rparr>))))"

definition verify_auth_response :: "kioubit_env \<Rightarrow> string \<Rightarrow> string \<Rightarrow> string \<Rightarrow> rat \<Rightarrow> KioubitIdentity result" where
  "verify_auth_response K params signature domain now =
     (if params = [] \<or> signature = [] then Inl (KioubitAuthError ''params and signature must not be empty'')
      else bindR (kb_b64decode signature ''signature'') (\<lambda>sig.
        if \<not> ecdsa_verify K sig params then Inl (KioubitAuthError ''invalid signature'')
        else bindR (load_params K params) (\<lambda>j. case j of
          JObj payload \<Rightarrow> check_payload K sig domain now payload
        | _ \<Rightarrow> Inl (KioubitAuthError ''not an object''))))"

section \<open>Properties\<close>

declare bindR_Inr [simp]

lemma verify_returns:
  assumes "verify_auth_response K params signature domain now = Inr i"
  obtains sig payload where "params \<noteq> []" "signature \<noteq> []" "kb_b64decode signature ''signature'' = Inr sig"
    "ecdsa_verify K sig params" "load_params K params = Inr (JObj payload)" "check_payload K sig domain now payload = Inr i"
proof -
  from assms obtain sig j where s: "params \<noteq> []" "signature \<noteq> []" "kb_b64decode signature ''signature'' = Inr sig"
    "ecdsa_verify K sig params" "load_params K params = Inr j"
    and j: "(case j of JObj payload \<Rightarrow> check_payload K sig domain now payload | _ \<Rightarrow> Inl (KioubitAuthError ''not an object'')) = Inr i"
    by (auto simp: verify_auth_response_def split: if_splits)
  from j obtain payload where "j = JObj payload" "check_payload K sig domain now payload = Inr i" by (cases j) auto
  with s that show thesis by blast
qed

lemma first_name_ok: "first_name js = Some s \<Longrightarrow> s \<noteq> [] \<and> strip s = s"
  by (induction js) (auto split: json.splits if_splits)

lemma pick_mntner_ok: "pick_mntner p = Inr s \<Longrightarrow> s \<noteq> [] \<and> strip s = s"
  by (auto simp: pick_mntner_def dest!: first_name_ok split: option.splits json.splits if_splits)

lemma verified_asn_ok: "verified_asn K p = Inr a \<Longrightarrow> 0 < a \<and> a \<le> MAX_ASN"
  by (auto simp: verified_asn_def validate_asn_ok split: sum.splits exn.splits if_splits)

text \<open>
  What the signed payload says, independently of how it is read: the number under \<open>asn\<close>, the time
  under \<open>time\<close>, and the name under \<open>effective_mnt\<close>, or without one there a name under \<open>mnt\<close>.
\<close>

definition says_name :: "jdict \<Rightarrow> string \<Rightarrow> string \<Rightarrow> bool" where
  "says_name payload key name \<longleftrightarrow> name \<noteq> [] \<and> (\<exists>s. strip s = name \<and> (map_of payload key = Some (JStr s)
     \<or> key = ''mnt'' \<and> (\<exists>items. map_of payload key = Some (JArr items) \<and> JStr s \<in> set items)))"

definition payload_says :: "kioubit_env \<Rightarrow> jdict \<Rightarrow> KioubitIdentity \<Rightarrow> bool" where
  "payload_says K payload i \<longleftrightarrow>
     (\<exists>v. map_of payload ''time'' = Some v \<and> to_float K v = Inr (ki_issued_at i))
   \<and> (\<exists>v. map_of payload ''asn'' = Some v \<and> to_int K v = Inr (ki_asn i))
   \<and> (says_name payload ''effective_mnt'' (ki_mntner i)
      \<or> (\<forall>name. \<not> says_name payload ''effective_mnt'' name) \<and> says_name payload ''mnt'' (ki_mntner i))
   \<and> ki_authtype i = (case map_of payload ''authtype'' of Some (JStr s) \<Rightarrow> s | _ \<Rightarrow> [])"

lemma first_name_in: "first_name js = Some s \<Longrightarrow> s \<noteq> [] \<and> (\<exists>t. JStr t \<in> set js \<and> strip t = s)"
  by (induction js) (auto split: json.splits if_splits)

lemma first_name_effective:
  "first_name [dict_get_value p ''effective_mnt''] = None \<Longrightarrow> \<not> says_name p ''effective_mnt'' name"
  by (auto simp: says_name_def dict_get_value_def split: if_splits)

lemma pick_mntner_says:
  assumes "pick_mntner p = Inr s"
  shows "says_name p ''effective_mnt'' s \<or> (\<forall>name. \<not> says_name p ''effective_mnt'' name) \<and> says_name p ''mnt'' s"
proof (cases "first_name [dict_get_value p ''effective_mnt'']")
  case (Some t)
  with assms first_name_in [OF Some] show ?thesis
    by (auto simp: pick_mntner_def says_name_def dict_get_value_def split: option.splits)
next
  case None
  from assms None have "says_name p ''mnt'' s"
    by (auto simp: pick_mntner_def says_name_def dict_get_value_def split: option.splits json.splits if_splits dest!: first_name_in)
  with first_name_effective [OF None] show ?thesis by blast
qed

lemma check_payload_says:
  assumes "check_payload K sig domain now payload = Inr i"
  shows "payload_says K payload i" and "ki_digest i = sha256_bytes K sig" and "\<not> stale now (ki_issued_at i)"
    and "map_of payload ''domain'' = Some (JStr (expected_domain domain))" and "0 < ki_asn i \<and> ki_asn i \<le> MAX_ASN"
    and "strip (ki_mntner i) = ki_mntner i"
proof -
  from assms obtain t a m where d: "dict_get_value payload ''domain'' = JStr (expected_domain domain)"
    and t: "issued_time K payload = Inr t" "\<not> stale now t" and a: "verified_asn K payload = Inr a" and m: "pick_mntner payload = Inr m"
    and i: "ki_asn i = a" "ki_mntner i = m" "ki_issued_at i = t" "ki_digest i = sha256_bytes K sig" "ki_authtype i = authtype_of payload"
    by (auto simp: check_payload_def split: if_splits)
  have "\<exists>v. map_of payload ''time'' = Some v \<and> to_float K v = Inr t"
    using t(1) by (auto simp: issued_time_def dict_get_def split: option.splits sum.splits if_splits)
  moreover from a have "to_int K (dict_get_value payload ''asn'') = Inr a"
    by (auto simp: verified_asn_def validate_asn_ok bindR_def validate_asn_def split: sum.splits exn.splits if_splits)
  then have "\<exists>v. map_of payload ''asn'' = Some v \<and> to_int K v = Inr a"
    by (auto simp: dict_get_value_def split: option.splits)
  moreover have "authtype_of payload = (case map_of payload ''authtype'' of Some (JStr s) \<Rightarrow> s | _ \<Rightarrow> [])"
    by (auto simp: authtype_of_def dict_get_value_def split: option.splits json.splits)
  ultimately show "payload_says K payload i" using pick_mntner_says [OF m] i by (simp add: payload_says_def)
  show "map_of payload ''domain'' = Some (JStr (expected_domain domain))"
    using d by (auto simp: dict_get_value_def split: option.splits)
  show "ki_digest i = sha256_bytes K sig" "\<not> stale now (ki_issued_at i)" "0 < ki_asn i \<and> ki_asn i \<le> MAX_ASN"
    "strip (ki_mntner i) = ki_mntner i" using i t verified_asn_ok [OF a] pick_mntner_ok [OF m] by simp_all
qed

text \<open>
  C20. An identity is what was signed for this site, and recently: if the check returns an
  identity, the signature over the parameters exactly as received is valid, and the payload
  they decode to names this deployment's domain, has the ASN, the maintainer, the kind of
  authentication and the time of the identity, and was issued at most sixty seconds before or
  after now (or carries \<open>nan\<close> as its time). The ASN is positive and has 32 bits, the maintainer is not
  empty, and the same response is refused by every deployment with another domain.
\<close>

theorem verify_auth_response_sound:
  assumes "verify_auth_response K params signature domain now = Inr i"
  shows "(\<exists>sig payload. b64decode signature = Some sig \<and> ecdsa_verify K sig params \<and> ki_digest i = sha256_bytes K sig
       \<and> load_params K params = Inr (JObj payload) \<and> map_of payload ''domain'' = Some (JStr (expected_domain domain))
       \<and> payload_says K payload i)
    \<and> (ki_issued_at i = NaN \<or> (\<exists>q. ki_issued_at i = Fin q \<and> \<bar>now - q\<bar> \<le> MAX_AGE_SECONDS))
    \<and> 0 < ki_asn i \<and> ki_asn i \<le> MAX_ASN \<and> ki_mntner i \<noteq> [] \<and> strip (ki_mntner i) = ki_mntner i
    \<and> (\<forall>other now'. expected_domain other \<noteq> expected_domain domain \<longrightarrow>
         (\<exists>m. verify_auth_response K params signature other now' = Inl (KioubitAuthError m)))"
proof -
  from verify_returns [OF assms] obtain sig payload where
    sig: "params \<noteq> []" "signature \<noteq> []" "kb_b64decode signature ''signature'' = Inr sig" "ecdsa_verify K sig params"
    and pl: "load_params K params = Inr (JObj payload)" and c: "check_payload K sig domain now payload = Inr i" by blast
  note s = check_payload_says [OF c]
  have "ki_issued_at i = NaN \<or> (\<exists>q. ki_issued_at i = Fin q \<and> \<bar>now - q\<bar> \<le> MAX_AGE_SECONDS)"
    using s(3) by (cases "ki_issued_at i") auto
  moreover have "b64decode signature = Some sig" using sig(3) by (auto simp: kb_b64decode_def split: option.splits)
  moreover have "\<exists>m. verify_auth_response K params signature other now' = Inl (KioubitAuthError m)"
    if "expected_domain other \<noteq> expected_domain domain" for other now'
    using sig pl s(4) that by (simp add: verify_auth_response_def check_payload_def bindR_def dict_get_value_def)
  moreover have "ki_mntner i \<noteq> []" using s(1) by (auto simp: payload_says_def says_name_def)
  ultimately show ?thesis using sig(4) pl s by blast
qed

text \<open>A response as the service signs it, and a deployment that knows its signature.\<close>

definition sample_payload :: jdict where
  "sample_payload = [(''domain'', JStr ''peer.example''), (''time'', JInt 1000), (''asn'', JStr ''4242420000''),
     (''mnt'', JArr [JStr '' EXAMPLE-MNT ''])]"

definition sample_kioubit :: kioubit_env where
  "sample_kioubit = \<lparr> ecdsa_verify = (\<lambda>sig params. sig = [1, 2, 3] \<or> sig = [1, 2, 4]), sha256_bytes = (\<lambda>sig. map char_of sig),
     decode_bytes = (\<lambda>_. Some (dumps (JObj sample_payload))), kb_float_repr = id, kb_recursion_limit = 100,
     kb_float_text = (\<lambda>_. None), kb_float_int = (\<lambda>i. Inr (Fin (of_int i))) \<rparr>"

lemma sample_signatures: "b64decode ''AQID'' = Some [1, 2, 3]" "b64decode ''AQIE'' = Some [1, 2, 4]" "\<exists>b. b64decode ''e30='' = Some b"
  by (simp_all add: b64decode_def startswith_def b64_val_def code_point_def is_digit_def all_pad_def)

lemma sample_params: "load_params sample_kioubit ''e30='' = Inr (JObj sample_payload)"
proof -
  have "loads id 100 (dumps (JObj sample_payload)) = Inr (JObj sample_payload)"
    by (rule loads_dumps) (simp_all add: sample_payload_def show_nat.simps INT_MAX_STR_DIGITS_def)
  then show ?thesis using sample_signatures(3) by (auto simp: load_params_def kb_b64decode_def bindR_def sample_kioubit_def)
qed

lemma sample_verified:
  assumes "b64decode s = Some sig" and "sig = [1, 2, 3] \<or> sig = [1, 2, 4]" and "s \<noteq> []" and "\<bar>now - 1000\<bar> \<le> 60"
  shows "verify_auth_response sample_kioubit ''e30='' s ''https://peer.example/'' now = Inr \<lparr> ki_asn = 4242420000,
     ki_mntner = ''EXAMPLE-MNT'', ki_authtype = [], ki_issued_at = Fin 1000, ki_digest = map char_of sig \<rparr>"
proof -
  have "check_payload sample_kioubit sig ''https://peer.example/'' now sample_payload = Inr \<lparr> ki_asn = 4242420000,
     ki_mntner = ''EXAMPLE-MNT'', ki_authtype = [], ki_issued_at = Fin 1000, ki_digest = map char_of sig \<rparr>"
    using assms(4)
    by (simp add: check_payload_def sample_payload_def dict_get_value_def dict_get_def expected_domain_def removeprefix_def startswith_def
        issued_time_def sample_kioubit_def MAX_AGE_SECONDS_def verified_asn_def validate_asn_def MAX_ASN_def int_of_str_def strip_def
        lstrip_def rstrip_def is_space_def is_digit_def code_point_def INT_MAX_STR_DIGITS_def parse_nat_def digit_val_def
        pick_mntner_def authtype_of_def bindR_def)
  with assms sample_params show ?thesis
    by (simp add: verify_auth_response_def kb_b64decode_def bindR_def) (simp add: sample_kioubit_def)
qed

theorem verify_auth_response_sound_witness:
  "\<exists>i. verify_auth_response sample_kioubit ''e30='' ''AQID'' ''https://peer.example/'' 1030 = Inr i
     \<and> ki_asn i \<le> MAX_ASN \<and> (\<exists>m. verify_auth_response sample_kioubit ''e30='' ''AQID'' ''other.example'' 1030 = Inl (KioubitAuthError m))"
proof -
  let ?i = "\<lparr> ki_asn = 4242420000, ki_mntner = ''EXAMPLE-MNT'', ki_authtype = [], ki_issued_at = Fin 1000,
    ki_digest = map char_of [1 :: nat, 2, 3] \<rparr>"
  have v: "verify_auth_response sample_kioubit ''e30='' ''AQID'' ''https://peer.example/'' 1030 = Inr ?i"
    using sample_verified [OF sample_signatures(1)] by simp
  have "expected_domain ''other.example'' \<noteq> expected_domain ''https://peer.example/''"
    by (simp add: expected_domain_def removeprefix_def startswith_def)
  with verify_auth_response_sound [OF v] v show ?thesis by blast
qed

end
