(* ===== verification/Autopeer.thy ===== *)
theory Autopeer
  imports Kioubit Proposals
begin

text \<open>
  \<open>dn42ctl/services/auto_peer.py\<close>: the public wizard. A verified identity is exchanged for a
  session, and a session for one proposal. The sessions live in the process behind a lock;
  requests run in threads, so that the sections under the lock are atomic and everything
  between them interleaves. Tokens are what \<open>secrets.token_urlsafe(32)\<close> returns.
\<close>

section \<open>Sessions\<close>

definition SESSION_TTL_SECONDS :: rat where "SESSION_TTL_SECONDS = 900"
definition CONSUMED_TTL_SECONDS :: rat where "CONSUMED_TTL_SECONDS = MAX_AGE_SECONDS * 2"

record SessionIssued =
  si_peer_session_token :: string
  si_verified_asn :: int
  si_verified_mntner :: string
  si_expires_at :: rat

record PeerTarget =
  pt_node_id :: string
  pt_name :: string
  pt_endpoint_host :: "string option"

record SubmitResult =
  sr_proposal :: ConfigProposal
  sr_node_id :: string
  sr_node_name :: string

record peer_session =
  ss_token :: string
  ss_asn :: int
  ss_mntner :: string
  ss_expires_at :: rat
  ss_in_flight :: bool

record session_store =
  sessions :: "(string \<times> peer_session) list"
  consumed :: "(string \<times> rat) list"

type_synonym 'a sop = "(session_store, 'a) op"

definition purge_expired :: "rat \<Rightarrow> session_store \<Rightarrow> session_store" where
  "purge_expired now s = \<lparr> sessions = filter (\<lambda>(k, v). \<not> ss_expires_at v \<le> now) (sessions s),
     consumed = filter (\<lambda>(k, deadline). \<not> deadline \<le> now) (consumed s) \<rparr>"

definition reset_state :: "unit sop" where
  "reset_state = modify_state (\<lambda>s. s\<lparr> sessions := [], consumed := [] \<rparr>)"

definition open_session :: "rat \<Rightarrow> string \<Rightarrow> KioubitIdentity \<Rightarrow> SessionIssued sop" where
  "open_session now token identity = bnd (modify_state (purge_expired now)) (\<lambda>_.
     bnd (read_state (\<lambda>s. map_of (consumed s) (ki_digest identity) \<noteq> None)) (\<lambda>used.
     if used then raise (AutoPeerExpiredError ''response already used'')
     else bnd (modify_state (\<lambda>s. s\<lparr> consumed := dict_set (consumed s) (ki_digest identity) (now + CONSUMED_TTL_SECONDS),
            sessions := dict_set (sessions s) token \<lparr> ss_token = token, ss_asn = ki_asn identity,
              ss_mntner = ki_mntner identity, ss_expires_at = now + SESSION_TTL_SECONDS, ss_in_flight = False \<rparr> \<rparr>)) (\<lambda>_.
       ret \<lparr> si_peer_session_token = token, si_verified_asn = ki_asn identity,
             si_verified_mntner = ki_mntner identity, si_expires_at = now + SESSION_TTL_SECONDS \<rparr>)))"

definition set_flight :: "string \<Rightarrow> bool \<Rightarrow> session_store \<Rightarrow> session_store" where
  "set_flight token b s = s\<lparr> sessions := map (\<lambda>(k, v). if k = token then (k, v\<lparr> ss_in_flight := b \<rparr>) else (k, v)) (sessions s) \<rparr>"

definition claim_session :: "rat \<Rightarrow> string \<Rightarrow> peer_session sop" where
  "claim_session now token =
     (if token = [] then raise (AutoPeerSessionError ''token missing'')
      else bnd (modify_state (purge_expired now)) (\<lambda>_.
        bnd (read_state (\<lambda>s. map_of (sessions s) token)) (\<lambda>found. case found of
          None \<Rightarrow> raise (AutoPeerExpiredError ''session expired or invalid'')
        | Some session \<Rightarrow>
            if ss_expires_at session \<le> now then raise (AutoPeerExpiredError ''session expired or invalid'')
            else if ss_in_flight session then raise (AutoPeerError ''session in use'')
            else bnd (modify_state (set_flight token True)) (\<lambda>_. ret (session\<lparr> ss_in_flight := True \<rparr>)))))"

definition release_session :: "string \<Rightarrow> unit sop" where
  "release_session token = modify_state (set_flight token False)"

definition drop_session :: "string \<Rightarrow> unit sop" where
  "drop_session token = modify_state (\<lambda>s. s\<lparr> sessions := dict_pop (sessions s) token \<rparr>)"

section \<open>Submitting\<close>

definition list_peer_targets :: "PeerTarget list wop" where
  "list_peer_targets = bnd (with_db managed_list_auto_peer) (\<lambda>ms.
     ret (map (\<lambda>m. \<lparr> pt_node_id = mn_node_id m, pt_name = mn_name m, pt_endpoint_host = mn_endpoint_host m \<rparr>) ms))"

definition resolve_target :: "string \<Rightarrow> (string \<times> string) wop" where
  "resolve_target node_id = bnd list_peer_targets (\<lambda>ts. case List.find (\<lambda>t. pt_node_id t = node_id) ts of
     None \<Rightarrow> raise (AutoPeerError ''node does not accept auto-peer requests'')
   | Some t \<Rightarrow> ret (pt_node_id t, pt_name t))"

definition build_peer_add_payload :: "string \<Rightarrow> jdict \<Rightarrow> jdict result" where
  "build_peer_add_payload peer_kind peer =
     (if peer_kind \<notin> {''bgp'', ''ibgp''} then Inl (Dn42CtlError ''peer_kind must be bgp or ibgp'')
      else Inr [(''peer_kind'', JStr peer_kind), (''peer'', JObj peer)])"

text \<open>The fields of the form.\<close>

record peer_form =
  fm_node_id :: string
  fm_wg_public_key :: string
  fm_endpoint :: string
  fm_peer_lla :: string
  fm_net_backend :: string
  fm_listen_port :: "int option"

definition form_peer :: "int \<Rightarrow> peer_form \<Rightarrow> jdict" where
  "form_peer asn f =
     [(''peer_asn'', JInt asn), (''peer_public_key'', JStr (fm_wg_public_key f)), (''endpoint'', JStr (fm_endpoint f)),
      (''peer_lla'', JStr (fm_peer_lla f)), (''net_backend'', JStr (fm_net_backend f)),
      (''listen_port'', case fm_listen_port f of None \<Rightarrow> JNull | Some p \<Rightarrow> JInt p)]"

definition submit_work :: "int \<Rightarrow> peer_form \<Rightarrow> SubmitResult wop" where
  "submit_work asn f = bnd (resolve_target (fm_node_id f)) (\<lambda>(target_id, target_name).
     bnd (lift_result (build_peer_add_payload ''bgp'' (form_peer asn f))) (\<lambda>payload.
     bnd (submit_proposal None target_id ''push'' ''peer_add'' (JObj payload)) (\<lambda>proposal.
     ret \<lparr> sr_proposal = proposal, sr_node_id = target_id, sr_node_name = target_name \<rparr>)))"

record peering =
  pr_sessions :: session_store
  pr_world :: world

definition in_sessions :: "'a sop \<Rightarrow> (peering, 'a) op" where
  "in_sessions m = (\<lambda>p. case m (pr_sessions p) of (r, s) \<Rightarrow> (r, p\<lparr> pr_sessions := s \<rparr>))"

definition in_pworld :: "'a wop \<Rightarrow> (peering, 'a) op" where
  "in_pworld m = (\<lambda>p. case m (pr_world p) of (r, w) \<Rightarrow> (r, p\<lparr> pr_world := w \<rparr>))"

definition submit_peer :: "rat \<Rightarrow> string \<Rightarrow> peer_form \<Rightarrow> (peering, SubmitResult) op" where
  "submit_peer now session_token f = bnd (in_sessions (claim_session now session_token)) (\<lambda>session.
     bnd (try_except (in_pworld (submit_work (ss_asn session) f))
            (\<lambda>e. bnd (in_sessions (release_session session_token)) (\<lambda>_. raise e))) (\<lambda>result.
     bnd (in_sessions (drop_session session_token)) (\<lambda>_. ret result)))"

section \<open>Requests in threads\<close>

text \<open>
  A thread that handles a submission holds no session, has claimed one, has stored the
  proposal, or has failed to. What a step returns to a client is kept in \<open>issued\<close> and
  \<open>answered\<close>; \<open>opened\<close> remembers the responses that were exchanged, with the time.
\<close>

datatype phase = Idle | Claimed peer_session peer_form | Stored peer_session | Failed peer_session

record wizard =
  wz_store :: session_store
  wz_world :: world
  wz_clock :: rat
  wz_threads :: "nat \<Rightarrow> phase"
  wz_issued :: "(string \<times> int) list"
  wz_answered :: "(string \<times> int) list"
  wz_opened :: "(string \<times> rat) list"

definition initial_wizard :: "world \<Rightarrow> wizard" where
  "initial_wizard w = \<lparr> wz_store = \<lparr> sessions = [], consumed = [] \<rparr>, wz_world = w, wz_clock = 0, wz_threads = (\<lambda>_. Idle),
     wz_issued = [], wz_answered = [], wz_opened = [] \<rparr>"

inductive wizard_step :: "wizard \<Rightarrow> wizard \<Rightarrow> bool" where
  passing: "wz_clock s \<le> c \<Longrightarrow> wizard_step s (s\<lparr> wz_clock := c, wz_world := w \<rparr>)"
| exchanged: "now \<le> wz_clock s \<Longrightarrow> token \<noteq> [] \<Longrightarrow> token \<notin> fst ` set (wz_issued s) \<Longrightarrow>
    open_session now token i (wz_store s) = (Inr r, st) \<Longrightarrow>
    wizard_step s (s\<lparr> wz_store := st, wz_issued := (token, ki_asn i) # wz_issued s, wz_opened := (ki_digest i, now) # wz_opened s \<rparr>)"
| refused: "now \<le> wz_clock s \<Longrightarrow> open_session now token i (wz_store s) = (Inl e, st) \<Longrightarrow> wizard_step s (s\<lparr> wz_store := st \<rparr>)"
| claimed: "now \<le> wz_clock s \<Longrightarrow> wz_threads s k = Idle \<Longrightarrow> claim_session now token (wz_store s) = (Inr ses, st) \<Longrightarrow>
    wizard_step s (s\<lparr> wz_store := st, wz_threads := (wz_threads s)(k := Claimed ses f) \<rparr>)"
| unclaimed: "now \<le> wz_clock s \<Longrightarrow> claim_session now token (wz_store s) = (Inl e, st) \<Longrightarrow> wizard_step s (s\<lparr> wz_store := st \<rparr>)"
| worked: "wz_threads s k = Claimed ses f \<Longrightarrow> submit_work (ss_asn ses) f (wz_world s) = (Inr res, w) \<Longrightarrow>
    wizard_step s (s\<lparr> wz_world := w, wz_threads := (wz_threads s)(k := Stored ses) \<rparr>)"
| broke: "wz_threads s k = Claimed ses f \<Longrightarrow> submit_work (ss_asn ses) f (wz_world s) = (Inl e, w) \<Longrightarrow>
    wizard_step s (s\<lparr> wz_world := w, wz_threads := (wz_threads s)(k := Failed ses) \<rparr>)"
| released: "wz_threads s k = Failed ses \<Longrightarrow> release_session (ss_token ses) (wz_store s) = (Inr (), st) \<Longrightarrow>
    wizard_step s (s\<lparr> wz_store := st, wz_threads := (wz_threads s)(k := Idle) \<rparr>)"
| finished: "wz_threads s k = Stored ses \<Longrightarrow> drop_session (ss_token ses) (wz_store s) = (Inr (), st) \<Longrightarrow>
    wizard_step s (s\<lparr> wz_store := st, wz_threads := (wz_threads s)(k := Idle),
      wz_answered := (ss_token ses, ss_asn ses) # wz_answered s \<rparr>)"

section \<open>What the sections under the lock do\<close>

lemma open_session_runs:
  "open_session now token i s = (let s1 = purge_expired now s in
     if map_of (consumed s1) (ki_digest i) \<noteq> None then (Inl (AutoPeerExpiredError ''response already used''), s1)
     else (Inr \<lparr> si_peer_session_token = token, si_verified_asn = ki_asn i, si_verified_mntner = ki_mntner i,
             si_expires_at = now + SESSION_TTL_SECONDS \<rparr>,
           s1\<lparr> consumed := dict_set (consumed s1) (ki_digest i) (now + CONSUMED_TTL_SECONDS),
               sessions := dict_set (sessions s1) token \<lparr> ss_token = token, ss_asn = ki_asn i,
                 ss_mntner = ki_mntner i, ss_expires_at = now + SESSION_TTL_SECONDS, ss_in_flight = False \<rparr> \<rparr>))"
  by (simp add: open_session_def bnd_def modify_state_def read_state_def ret_def raise_def Let_def)

lemma claim_session_state: "snd (claim_session now token s) = s \<or> snd (claim_session now token s) = purge_expired now s
    \<or> snd (claim_session now token s) = set_flight token True (purge_expired now s)"
  by (auto simp: claim_session_def bnd_def modify_state_def read_state_def ret_def raise_def split: option.splits)

lemma claim_session_returns:
  "claim_session now token s = (Inr ses, st) \<Longrightarrow> st = set_flight token True (purge_expired now s) \<and>
     (\<exists>v. map_of (sessions (purge_expired now s)) token = Some v \<and> ses = v\<lparr> ss_in_flight := True \<rparr> \<and> \<not> ss_in_flight v \<and> now < ss_expires_at v)"
  by (auto simp: claim_session_def bnd_def modify_state_def read_state_def ret_def raise_def split: option.splits if_splits)

lemma claim_session_refuses:
  "claim_session now token s = (Inl e, st) \<Longrightarrow> st = s \<or> st = purge_expired now s"
  by (auto simp: claim_session_def bnd_def modify_state_def read_state_def ret_def raise_def split: option.splits if_splits)

lemma lookup_kept:
  assumes "distinct (map fst xs)"
  shows "map_of (filter Q xs) t = Option.bind (map_of xs t) (\<lambda>x. if Q (t, x) then Some x else None)"
  using assms
proof (induction xs)
  case (Cons a as)
  obtain k x where a: "a = (k, x)" by fastforce
  show ?case
  proof (cases "k = t")
    case True
    with Cons.prems a have "map_of as t = None" by (simp add: map_of_eq_None_iff)
    with Cons a True show ?thesis by simp
  next
    case False
    with Cons a show ?thesis by simp
  qed
qed simp

lemma set_flight_keys: "map fst (sessions (set_flight token b s)) = map fst (sessions s)" "consumed (set_flight token b s) = consumed s"
  by (auto simp: set_flight_def)

lemma set_flight_get:
  "map_of (sessions (set_flight token b s)) k = map_option (\<lambda>v. if k = token then v\<lparr> ss_in_flight := b \<rparr> else v) (map_of (sessions s) k)"
proof -
  have "map_of (map (\<lambda>(k, v). if k = token then (k, v\<lparr> ss_in_flight := b \<rparr>) else (k, v)) xs) k
      = map_option (\<lambda>v. if k = token then v\<lparr> ss_in_flight := b \<rparr> else v) (map_of xs k)" for xs
    by (induction xs) auto
  then show ?thesis by (simp add: set_flight_def)
qed

section \<open>Invariants\<close>

text \<open>Tokens of sessions, whom they belong to, and who works on them.\<close>

fun holds :: "phase \<Rightarrow> peer_session option" where
  "holds Idle = None"
| "holds (Claimed ses f) = Some ses"
| "holds (Stored ses) = Some ses"
| "holds (Failed ses) = Some ses"

definition sessions_ok :: "session_store \<Rightarrow> (string \<times> int) list \<Rightarrow> bool" where
  "sessions_ok st iss \<longleftrightarrow> distinct (map fst (sessions st)) \<and>
     (\<forall>k v. map_of (sessions st) k = Some v \<longrightarrow> ss_token v = k \<and> (k, ss_asn v) \<in> set iss)"

lemma set_flight_ok: "sessions_ok st iss \<Longrightarrow> sessions_ok (set_flight token b st) iss"
  unfolding sessions_ok_def set_flight_keys set_flight_get
  by (auto simp del: map_of_eq_Some_iff split: if_splits)

definition owned :: "session_store \<Rightarrow> (nat \<Rightarrow> phase) \<Rightarrow> (string \<times> int) list \<Rightarrow> bool" where
  "owned st th iss \<longleftrightarrow> (\<forall>k ses. holds (th k) = Some ses \<longrightarrow> (ss_token ses, ss_asn ses) \<in> set iss
     \<and> (\<forall>v. map_of (sessions st) (ss_token ses) = Some v \<longrightarrow> ss_in_flight v)
     \<and> (\<forall>k' ses'. holds (th k') = Some ses' \<and> ss_token ses' = ss_token ses \<longrightarrow> k' = k))"

definition spent :: "session_store \<Rightarrow> (nat \<Rightarrow> phase) \<Rightarrow> (string \<times> int) list \<Rightarrow> (string \<times> int) list \<Rightarrow> bool" where
  "spent st th iss ans \<longleftrightarrow> distinct (map fst ans) \<and> set ans \<subseteq> set iss \<and>
     (\<forall>tok \<in> fst ` set ans. map_of (sessions st) tok = None \<and> (\<forall>k ses. holds (th k) = Some ses \<longrightarrow> ss_token ses \<noteq> tok))"

definition wizard_inv :: "wizard \<Rightarrow> bool" where
  "wizard_inv s \<longleftrightarrow> distinct (map fst (wz_issued s)) \<and> sessions_ok (wz_store s) (wz_issued s)
     \<and> owned (wz_store s) (wz_threads s) (wz_issued s) \<and> spent (wz_store s) (wz_threads s) (wz_issued s) (wz_answered s)"

text \<open>A store with fewer sessions is as good.\<close>

lemma purge_get:
  "distinct (map fst (sessions st)) \<Longrightarrow> map_of (sessions (purge_expired now st)) k = Some v \<Longrightarrow> map_of (sessions st) k = Some v"
  by (auto simp: purge_expired_def lookup_kept split: Option.bind_splits if_splits)

lemma purge_none: "map_of (sessions st) k = None \<Longrightarrow> map_of (sessions (purge_expired now st)) k = None"
  by (auto simp: purge_expired_def map_of_eq_None_iff)

lemma purge_inv:
  assumes "sessions_ok st iss"
  shows "sessions_ok (purge_expired now st) iss" and "owned st th iss \<Longrightarrow> owned (purge_expired now st) th iss"
    and "spent st th iss ans \<Longrightarrow> spent (purge_expired now st) th iss ans"
proof -
  from assms have d: "distinct (map fst (sessions st))" by (simp add: sessions_ok_def)
  note g = purge_get [OF d]
  have "distinct (map fst (sessions (purge_expired now st)))"
    using d by (simp add: purge_expired_def distinct_map_filter_keys)
  with assms g show "sessions_ok (purge_expired now st) iss" unfolding sessions_ok_def by blast
  show "owned st th iss \<Longrightarrow> owned (purge_expired now st) th iss" using g unfolding owned_def by blast
  show "spent st th iss ans \<Longrightarrow> spent (purge_expired now st) th iss ans" unfolding spent_def by (simp add: purge_none)
qed

lemma inv_purged: "wizard_inv s \<Longrightarrow> wizard_inv (s\<lparr> wz_store := purge_expired now (wz_store s) \<rparr>)"
  unfolding wizard_inv_def by (auto intro: purge_inv)

lemma inv_exchanged:
  assumes "wizard_inv s" and "token \<notin> fst ` set (wz_issued s)"
    and "open_session now token i (wz_store s) = (Inr r, st)"
  shows "wizard_inv (s\<lparr> wz_store := st, wz_issued := (token, ki_asn i) # wz_issued s, wz_opened := op # wz_opened s \<rparr>)"
proof -
  let ?p = "purge_expired now (wz_store s)" and ?iss = "(token, ki_asn i) # wz_issued s" and ?th = "wz_threads s"
  from inv_purged [OF assms(1), of now] have inv: "distinct (map fst (wz_issued s))" "sessions_ok ?p (wz_issued s)"
    "owned ?p ?th (wz_issued s)" "spent ?p ?th (wz_issued s) (wz_answered s)" by (simp_all add: wizard_inv_def)
  from assms(3) have st: "sessions st = dict_set (sessions ?p) token \<lparr> ss_token = token, ss_asn = ki_asn i,
      ss_mntner = ki_mntner i, ss_expires_at = now + SESSION_TTL_SECONDS, ss_in_flight = False \<rparr>"
    by (auto simp: open_session_runs Let_def split: if_splits)
  have fresh: "ss_token ses \<noteq> token" if "holds (?th k) = Some ses" for k ses
    using inv(3) that assms(2) unfolding owned_def by (metis fst_conv image_eqI)
  have unanswered: "token \<notin> fst ` set (wz_answered s)" using inv(4) assms(2) unfolding spent_def by (meson image_mono subsetD)
  have "sessions_ok st ?iss"
    using inv(2) dict_set_distinct unfolding sessions_ok_def st dict_set_get by (auto split: if_splits)
  moreover have "owned st ?th ?iss" using inv(3) fresh unfolding owned_def st dict_set_get by auto
  moreover have "spent st ?th ?iss (wz_answered s)" using inv(4) unanswered unfolding spent_def st dict_set_get by auto
  ultimately show ?thesis using inv(1) assms(2) by (simp add: wizard_inv_def)
qed

lemma inv_claimed:
  assumes "wizard_inv s" and "wz_threads s k = Idle" and "claim_session now token (wz_store s) = (Inr ses, st)"
  shows "wizard_inv (s\<lparr> wz_store := st, wz_threads := (wz_threads s)(k := Claimed ses f) \<rparr>)"
proof -
  let ?p = "purge_expired now (wz_store s)" and ?th = "wz_threads s" and ?th' = "(wz_threads s)(k := Claimed ses f)"
  from inv_purged [OF assms(1), of now] have inv: "distinct (map fst (wz_issued s))" "sessions_ok ?p (wz_issued s)"
    "owned ?p ?th (wz_issued s)" "spent ?p ?th (wz_issued s) (wz_answered s)" by (simp_all add: wizard_inv_def)
  from claim_session_returns [OF assms(3)] obtain v where st: "st = set_flight token True ?p"
    and v: "map_of (sessions ?p) token = Some v" "ses = v\<lparr> ss_in_flight := True \<rparr>" "\<not> ss_in_flight v" by blast
  from inv(2) v(1,2) have ses: "ss_token ses = token" "(token, ss_asn ses) \<in> set (wz_issued s)" by (auto simp: sessions_ok_def)
  have free: "\<And>k' ses'. holds (?th k') = Some ses' \<Longrightarrow> ss_token ses' \<noteq> token"
    using inv(3) v(1,3) unfolding owned_def by blast
  have "sessions_ok st (wz_issued s)" unfolding st by (rule set_flight_ok [OF inv(2)])
  moreover have "owned st ?th' (wz_issued s)" using inv(3) ses unfolding owned_def st set_flight_get by (auto dest: free)
  moreover have "token \<notin> fst ` set (wz_answered s)" using inv(4) v(1) unfolding spent_def by (metis option.distinct(1))
  then have "spent st ?th' (wz_issued s) (wz_answered s)" using inv(4) ses(1) unfolding spent_def st set_flight_get by auto
  ultimately show ?thesis using inv(1) by (simp add: wizard_inv_def)
qed

text \<open>A thread that goes on with its session, or gives it up.\<close>

lemma inv_moved_on:
  assumes "wizard_inv s" and "holds (wz_threads s k) = Some ses" and "holds ph = Some ses"
  shows "wizard_inv (s\<lparr> wz_world := w, wz_threads := (wz_threads s)(k := ph) \<rparr>)"
proof -
  have "holds (((wz_threads s)(k := ph)) j) = holds (wz_threads s j)" for j using assms(2,3) by simp
  with assms(1) show ?thesis by (simp add: wizard_inv_def owned_def spent_def)
qed

lemma inv_gave_up:
  assumes "wizard_inv s" and "holds (wz_threads s k) = Some ses"
    and "\<And>t. map_of (sessions st) t = None \<longleftrightarrow> map_of (sessions (wz_store s)) t = None \<or> t = ss_token ses \<and> dropped"
    and "\<And>t v. map_of (sessions st) t = Some v \<Longrightarrow> t \<noteq> ss_token ses \<Longrightarrow> map_of (sessions (wz_store s)) t = Some v"
    and "sessions_ok st (wz_issued s)"
  shows "wizard_inv (s\<lparr> wz_store := st, wz_threads := (wz_threads s)(k := Idle) \<rparr>)"
    and "dropped \<Longrightarrow> wizard_inv (s\<lparr> wz_store := st, wz_threads := (wz_threads s)(k := Idle),
      wz_answered := (ss_token ses, ss_asn ses) # wz_answered s \<rparr>)"
proof -
  let ?th = "wz_threads s" and ?th' = "(wz_threads s)(k := Idle)"
  from assms(1) have inv: "distinct (map fst (wz_issued s))" "owned (wz_store s) ?th (wz_issued s)"
    "spent (wz_store s) ?th (wz_issued s) (wz_answered s)" by (simp_all add: wizard_inv_def)
  have ses: "(ss_token ses, ss_asn ses) \<in> set (wz_issued s)" using inv(2) assms(2) by (auto simp: owned_def)
  have other: "ss_token ses' \<noteq> ss_token ses" if "holds (?th' j) = Some ses'" for j ses'
    using that inv(2) assms(2) by (auto simp: owned_def split: if_splits)
  have o: "owned st ?th' (wz_issued s)" unfolding owned_def
  proof (intro allI impI conjI)
    fix j ses'
    assume h: "holds (?th' j) = Some ses'"
    then have h': "holds (?th j) = Some ses'" by (auto split: if_splits)
    show "(ss_token ses', ss_asn ses') \<in> set (wz_issued s)" using h' inv(2) by (auto simp: owned_def)
    show "ss_in_flight v" if "map_of (sessions st) (ss_token ses') = Some v" for v
      using assms(4) [OF that other [OF h]] h' inv(2) by (auto simp: owned_def)
    show "j' = j" if "holds (?th' j') = Some ses'' \<and> ss_token ses'' = ss_token ses'" for j' ses''
      using that h' inv(2) by (auto simp: owned_def split: if_splits)
  qed
  have c: "spent st ?th' (wz_issued s) (wz_answered s)" using inv(3) assms(3) by (auto simp: spent_def split: if_splits)
  from o c inv(1) assms(5) show "wizard_inv (s\<lparr> wz_store := st, wz_threads := ?th' \<rparr>)" by (simp add: wizard_inv_def)
  have "ss_token ses \<notin> fst ` set (wz_answered s)" using inv(3) assms(2) unfolding spent_def by blast
  with c ses assms(3) other have "dropped \<Longrightarrow> spent st ?th' (wz_issued s) ((ss_token ses, ss_asn ses) # wz_answered s)"
    by (auto simp: spent_def split: if_splits)
  with o inv(1) assms(5) show "dropped \<Longrightarrow> wizard_inv (s\<lparr> wz_store := st, wz_threads := ?th',
      wz_answered := (ss_token ses, ss_asn ses) # wz_answered s \<rparr>)" by (simp add: wizard_inv_def)
qed

lemma inv_step: "wizard_step s s' \<Longrightarrow> wizard_inv s \<Longrightarrow> wizard_inv s'"
proof (induction rule: wizard_step.induct)
  case (refused now s token i e st)
  then have "st = purge_expired now (wz_store s)" by (auto simp: open_session_runs Let_def split: if_splits)
  with inv_purged [OF refused.prems] show ?case by simp
next
  case (unclaimed now s token e st)
  from claim_session_refuses [OF unclaimed(2)] inv_purged [OF unclaimed.prems, of now] unclaimed.prems show ?case by auto
next
  case (released s k ses st)
  from released(2) have st: "st = set_flight (ss_token ses) False (wz_store s)" by (simp add: release_session_def modify_state_def)
  from released.prems have ok: "sessions_ok (wz_store s) (wz_issued s)" by (simp add: wizard_inv_def)
  show ?case
  proof (rule inv_gave_up(1) [where dropped = False])
    show "sessions_ok st (wz_issued s)" unfolding st by (rule set_flight_ok [OF ok])
  qed (use released in \<open>auto simp: st set_flight_get\<close>)
next
  case (finished s k ses st)
  from finished(2) have st: "sessions st = dict_pop (sessions (wz_store s)) (ss_token ses)" by (auto simp: drop_session_def modify_state_def)
  from finished.prems have ok: "sessions_ok (wz_store s) (wz_issued s)" by (simp add: wizard_inv_def)
  show ?case
  proof (rule inv_gave_up(2) [where dropped = True])
    show "sessions_ok st (wz_issued s)"
      using ok dict_pop_distinct unfolding sessions_ok_def st dict_pop_get by (auto split: if_splits)
  qed (use finished in \<open>auto simp: st dict_pop_get split: if_splits\<close>)
next
  case (passing s c w)
  then show ?case by (simp add: wizard_inv_def)
next
  case (exchanged now s token i r st)
  show ?case by (rule inv_exchanged [OF exchanged.prems exchanged.hyps(3,4)])
next
  case (claimed now s k token ses st f)
  show ?case by (rule inv_claimed [OF claimed.prems claimed.hyps(2,3)])
next
  case (worked s k ses f res w)
  show ?case by (rule inv_moved_on [OF worked.prems]) (simp_all add: worked.hyps(1))
next
  case (broke s k ses f e w)
  show ?case by (rule inv_moved_on [OF broke.prems]) (simp_all add: broke.hyps(1))
qed

definition wizard_reachable :: "world \<Rightarrow> wizard \<Rightarrow> bool" where
  "wizard_reachable w s \<longleftrightarrow> wizard_step\<^sup>*\<^sup>* (initial_wizard w) s"

lemma reachable_inv: "wizard_reachable w s \<Longrightarrow> wizard_inv s"
  unfolding wizard_reachable_def
proof (induction rule: rtranclp_induct)
  case base
  show ?case by (simp add: wizard_inv_def initial_wizard_def sessions_ok_def owned_def spent_def)
qed (rule inv_step)

text \<open>Responses: as long as one could be fresh it stays consumed.\<close>

definition replay_inv :: "wizard \<Rightarrow> bool" where
  "replay_inv s \<longleftrightarrow> distinct (map fst (consumed (wz_store s))) \<and> (\<forall>(g, t) \<in> set (wz_opened s).
     t + CONSUMED_TTL_SECONDS \<le> wz_clock s \<or> (\<exists>dl. map_of (consumed (wz_store s)) g = Some dl \<and> t + CONSUMED_TTL_SECONDS \<le> dl))"

lemma replay_purged:
  assumes "replay_inv s" and "now \<le> wz_clock s"
  shows "replay_inv (s\<lparr> wz_store := (wz_store s)\<lparr> consumed := consumed (purge_expired now (wz_store s)) \<rparr> \<rparr>)"
proof -
  from assms(1) have d: "distinct (map fst (consumed (wz_store s)))" by (simp add: replay_inv_def)
  have "t + CONSUMED_TTL_SECONDS \<le> wz_clock s \<or> (\<exists>dl. map_of (consumed (purge_expired now (wz_store s))) g = Some dl \<and> t + CONSUMED_TTL_SECONDS \<le> dl)"
    if "(g, t) \<in> set (wz_opened s)" for g t
  proof (cases "t + CONSUMED_TTL_SECONDS \<le> wz_clock s")
    case False
    with assms(1) that obtain dl where dl: "map_of (consumed (wz_store s)) g = Some dl" "t + CONSUMED_TTL_SECONDS \<le> dl"
      unfolding replay_inv_def by blast
    with False assms(2) have "\<not> dl \<le> now" by simp
    with dl d show ?thesis by (auto simp: purge_expired_def lookup_kept simp del: map_of_eq_Some_iff)
  qed simp
  with d show ?thesis by (auto simp: replay_inv_def purge_expired_def distinct_map_filter_keys)
qed

lemma replay_same: "replay_inv s \<Longrightarrow> consumed (wz_store s') = consumed (wz_store s) \<Longrightarrow> wz_opened s' = wz_opened s \<Longrightarrow> wz_clock s \<le> wz_clock s' \<Longrightarrow> replay_inv s'"
  unfolding replay_inv_def by fastforce

lemma purged_store:
  assumes "replay_inv s" and "now \<le> wz_clock s" and "consumed st = consumed (purge_expired now (wz_store s))"
    and "wz_store s' = st" and "wz_opened s' = wz_opened s" and "wz_clock s' = wz_clock s"
  shows "replay_inv s'"
  by (rule replay_same [OF replay_purged [OF assms(1,2)]]) (simp_all add: assms(3-6))

lemma replay_exchanged:
  assumes "replay_inv s" and "now \<le> wz_clock s" and "open_session now token i (wz_store s) = (Inr r, st)"
  shows "\<forall>t. (ki_digest i, t) \<in> set (wz_opened s) \<longrightarrow> t + CONSUMED_TTL_SECONDS \<le> wz_clock s"
    and "replay_inv (s\<lparr> wz_store := st, wz_issued := iss, wz_opened := (ki_digest i, now) # wz_opened s \<rparr>)"
proof -
  let ?p = "purge_expired now (wz_store s)"
  from assms(3) have none: "map_of (consumed ?p) (ki_digest i) = None"
    and st: "consumed st = dict_set (consumed ?p) (ki_digest i) (now + CONSUMED_TTL_SECONDS)"
    by (auto simp: open_session_runs Let_def split: if_splits)
  from replay_purged [OF assms(1,2)] have p: "distinct (map fst (consumed ?p))"
    "\<And>g t. (g, t) \<in> set (wz_opened s) \<Longrightarrow> t + CONSUMED_TTL_SECONDS \<le> wz_clock s \<or> (\<exists>dl. map_of (consumed ?p) g = Some dl \<and> t + CONSUMED_TTL_SECONDS \<le> dl)"
    by (auto simp: replay_inv_def simp del: map_of_eq_Some_iff)
  show old: "\<forall>t. (ki_digest i, t) \<in> set (wz_opened s) \<longrightarrow> t + CONSUMED_TTL_SECONDS \<le> wz_clock s" using p(2) none by fastforce
  have "t + CONSUMED_TTL_SECONDS \<le> wz_clock s \<or> (\<exists>dl. map_of (consumed st) g = Some dl \<and> t + CONSUMED_TTL_SECONDS \<le> dl)"
    if "(g, t) \<in> set ((ki_digest i, now) # wz_opened s)" for g t
    using that p(2) [of g t] old by (auto simp: st dict_set_get simp del: map_of_eq_Some_iff)
  with p(1) show "replay_inv (s\<lparr> wz_store := st, wz_issued := iss, wz_opened := (ki_digest i, now) # wz_opened s \<rparr>)"
    by (auto simp: replay_inv_def st dict_set_distinct simp del: map_of_eq_Some_iff)
qed

lemma replay_step: "wizard_step s s' \<Longrightarrow> replay_inv s \<Longrightarrow> replay_inv s'"
proof (induction rule: wizard_step.induct)
  case (exchanged now s token i r st)
  show ?case by (rule replay_exchanged(2) [OF exchanged.prems exchanged.hyps(1,4)])
next
  case (refused now s token i e st)
  then have "st = purge_expired now (wz_store s)" by (auto simp: open_session_runs Let_def split: if_splits)
  with refused show ?case by (intro purged_store [OF refused.prems refused.hyps(1)]) simp_all
next
  case (claimed now s k token ses st f)
  from claim_session_returns [OF claimed.hyps(3)] have "st = set_flight token True (purge_expired now (wz_store s))" by blast
  then show ?case by (intro purged_store [OF claimed.prems claimed.hyps(1)]) (simp_all add: set_flight_keys)
next
  case (unclaimed now s token e st)
  from claim_session_refuses [OF unclaimed.hyps(2)] show ?case
  proof
    assume "st = wz_store s"
    then show ?case using unclaimed.prems by simp
  next
    assume "st = purge_expired now (wz_store s)"
    then show ?case by (intro purged_store [OF unclaimed.prems unclaimed.hyps(1)]) simp_all
  qed
next
  case (released s k ses st)
  then show ?case by (intro replay_same [OF released.prems]) (auto simp: release_session_def modify_state_def set_flight_keys)
next
  case (finished s k ses st)
  then show ?case by (intro replay_same [OF finished.prems]) (auto simp: drop_session_def modify_state_def)
qed (auto intro: replay_same)

lemma reachable_replay: "wizard_reachable w s \<Longrightarrow> replay_inv s"
  unfolding wizard_reachable_def
proof (induction rule: rtranclp_induct)
  case base
  show ?case by (simp add: replay_inv_def initial_wizard_def)
qed (rule replay_step)

section \<open>Properties of the sessions\<close>

text \<open>
  C6. A session is good for one submission, for the ASN it was verified for, however requests
  interleave: in every reachable state the answered submissions carry different tokens and the
  ASN the token was issued for, no two threads work on the same session, and a token that was
  answered for cannot be claimed again.
\<close>

theorem session_answers_once:
  assumes "wizard_reachable w s"
  shows "distinct (map fst (wz_answered s)) \<and> set (wz_answered s) \<subseteq> set (wz_issued s) \<and> distinct (map fst (wz_issued s))
    \<and> (\<forall>k k' ses ses'. holds (wz_threads s k) = Some ses \<and> holds (wz_threads s k') = Some ses' \<and> ss_token ses = ss_token ses' \<longrightarrow> k = k')
    \<and> (\<forall>t \<in> fst ` set (wz_answered s). \<forall>now. \<exists>e. fst (claim_session now t (wz_store s)) = Inl e)"
proof -
  from reachable_inv [OF assms] have inv: "distinct (map fst (wz_issued s))" "owned (wz_store s) (wz_threads s) (wz_issued s)"
    "spent (wz_store s) (wz_threads s) (wz_issued s) (wz_answered s)" by (simp_all add: wizard_inv_def)
  have "\<exists>e. fst (claim_session now t (wz_store s)) = Inl e" if "t \<in> fst ` set (wz_answered s)" for t now
  proof (cases "claim_session now t (wz_store s)")
    case (Pair r st)
    have "map_of (sessions (purge_expired now (wz_store s))) t = None"
      using inv(3) that by (intro purge_none) (auto simp: spent_def)
    with claim_session_returns [of now t "wz_store s" _ st] Pair show ?thesis by (cases r) auto
  qed
  with inv show ?thesis unfolding owned_def spent_def by blast
qed

text \<open>
  C36. A signature is exchanged for one session while its response is fresh: if \<open>open_session\<close> accepts
  an identity with the digest of a signature that was exchanged before, two minutes have passed
  since, so that a response with a finite time of issue that is still fresh was exchanged in the
  first instant of its window and this is the last. What is burnt is the signature: nothing is said
  here of the same response under another signature (\<open>second_signature_replays\<close> below), nor after
  two minutes of a response whose time is \<open>nan\<close>, which never gets stale. The monotonic clock of
  the sessions and the wall clock of the freshness check are taken to run alike.
\<close>

theorem signature_exchanged_once:
  assumes "wizard_reachable w s" and "now \<le> wz_clock s"
    and "open_session now token i (wz_store s) = (Inr r, st)" and "(ki_digest i, t) \<in> set (wz_opened s)"
  shows "t + 120 \<le> wz_clock s
    \<and> (\<forall>q. \<not> stale t (Fin q) \<and> \<not> stale (wz_clock s) (Fin q) \<longrightarrow> wz_clock s = t + 120 \<and> q = t + 60)"
proof -
  from replay_exchanged(1) [OF reachable_replay [OF assms(1)] assms(2,3)] assms(4)
  have "t + 120 \<le> wz_clock s" by (simp add: CONSUMED_TTL_SECONDS_def MAX_AGE_SECONDS_def)
  then show ?thesis by (auto simp: MAX_AGE_SECONDS_def abs_if split: if_splits)
qed

text \<open>
  What is remembered is the digest of the signature, and one response may have several valid
  signatures (of \<open>(r, s)\<close> and \<open>(r, n - s)\<close> both verify under ECDSA): the same response opens a
  session again with each of them.
\<close>

theorem second_signature_replays:
  assumes v: "verify_auth_response K params s1 site now = Inr i"
    and s2: "b64decode s2 = Some sig2" "s2 \<noteq> []" "ecdsa_verify K sig2 params" "sha256_bytes K sig2 \<noteq> ki_digest i"
    and first: "open_session now t1 i st = (Inr r1, st1)" and unused: "sha256_bytes K sig2 \<notin> fst ` set (consumed st)"
  shows "\<exists>i2 r2 st2. verify_auth_response K params s2 site now = Inr i2 \<and> ki_asn i2 = ki_asn i
    \<and> open_session now t2 i2 st1 = (Inr r2, st2)"
proof -
  from verify_returns [OF v] obtain sig payload where p: "params \<noteq> []" "load_params K params = Inr (JObj payload)"
    and c: "check_payload K sig site now payload = Inr i" by blast
  have c2: "check_payload K sig2 site now payload = Inr (i\<lparr> ki_digest := sha256_bytes K sig2 \<rparr>)"
    using c by (auto simp: check_payload_def split: if_splits)
  have v2: "verify_auth_response K params s2 site now = Inr (i\<lparr> ki_digest := sha256_bytes K sig2 \<rparr>)"
    using p s2 c2 by (simp add: verify_auth_response_def kb_b64decode_def bindR_def)
  have sub: "fst ` set (consumed (purge_expired now x)) \<subseteq> fst ` set (consumed x)" for x by (auto simp: purge_expired_def)
  have "consumed st1 = dict_set (consumed (purge_expired now st)) (ki_digest i) (now + CONSUMED_TTL_SECONDS)"
    using first by (auto simp: open_session_runs Let_def split: if_splits)
  then have "fst ` set (consumed st1) = insert (ki_digest i) (fst ` set (consumed (purge_expired now st)))"
    using dict_set_keys by (metis set_map)
  with sub [of st] sub [of st1] s2(4) unused have "sha256_bytes K sig2 \<notin> fst ` set (consumed (purge_expired now st1))" by blast
  then have "map_of (consumed (purge_expired now st1)) (sha256_bytes K sig2) = None" by (simp add: map_of_eq_None_iff)
  with v2 show ?thesis by (auto simp: open_session_runs Let_def)
qed

section \<open>What a submission does\<close>

definition accepts_peers :: "string \<Rightarrow> database \<Rightarrow> bool" where
  "accepts_peers n d \<longleftrightarrow> (\<exists>m \<in> set (managed_nodes d). mn_node_id m = n \<and> mn_auto_peer m \<and> mn_enabled m)"

lemma outcome_list_auto_peer [services]:
  "outcome managed_list_auto_peer
     (\<lambda>d x d'. x = order_nodes (filter (\<lambda>m. mn_auto_peer m \<and> mn_enabled m) (managed_nodes d)) \<and> d' = d) (\<lambda>d d'. d' = d)"
proof (rule outcome_read)
  show "op_spec managed_list_auto_peer
     (\<lambda>d x d'. x = order_nodes (filter (\<lambda>m. mn_auto_peer m \<and> mn_enabled m) (managed_nodes d)) \<and> d' = d)"
    unfolding managed_list_auto_peer_def by (rule specs)+
qed (rule read_only_managed)

lemma outcome_resolve [services]:
  "outcome (resolve_target n) (\<lambda>d x d'. migrated d \<longrightarrow> fst x = n \<and> accepts_peers n d \<and> d' = d) (\<lambda>d d'. migrated d \<longrightarrow> d' = d)"
  unfolding resolve_target_def list_peer_targets_def
  by (rule outcome_migrated, rule triple_pre, (rule wp | rule triple_outcome, rule services)+)
    (auto simp: accepts_peers_def order_nodes_def dest!: find_Some_set, blast)

definition peer_add_payload :: "int \<Rightarrow> peer_form \<Rightarrow> jdict" where
  "peer_add_payload asn f = [(''peer_kind'', JStr ''bgp''), (''peer'', JObj (form_peer asn f))]"

lemma outcome_submit_work:
  "outcome (submit_work asn f)
     (\<lambda>d r d'. migrated d \<longrightarrow> accepts_peers (fm_node_id f) d
        \<and> submit_result None (fm_node_id f) ''push'' ''peer_add'' (peer_add_payload asn f) d (sr_proposal r) d')
     (\<lambda>d d'. migrated d \<longrightarrow> d' = d \<or> submit_stopped None (fm_node_id f) ''push'' ''peer_add'' (peer_add_payload asn f) d d')"
  unfolding submit_work_def build_peer_add_payload_def peer_add_payload_def [symmetric]
  by (rule outcome_migrated, rule triple_pre, (rule wp | rule triple_outcome, rule outcome_submit | rule triple_outcome, rule services)+)
    auto

lemma submit_stopped_None:
  "submit_stopped None n s k pl d d' \<Longrightarrow> bgp_peers d' = bgp_peers d \<and> ibgp_peers d' = ibgp_peers d \<and> managed_nodes d' = managed_nodes d"
  by (induction rule: submit_stopped.induct) (auto simp: insert_proposal_def Let_def split: if_splits)

text \<open>
  C25. The public wizard only proposes: whatever is submitted, no peer, no node of the registry
  and no other table of the mesh changes; when \<open>submit_peer\<close> returns, the node accepts such
  requests, exactly one proposal was added, pending review, with the ASN of the session, and
  the session is gone; when it raises after the session was claimed, the session can be
  claimed again.
\<close>

theorem submit_peer_only_proposes:
  assumes "tx (pr_world p) = None" and "migrated (disk (pr_world p))" and "wf_db (disk (pr_world p))"
    and run: "submit_peer now token f p = (r, p')"
  shows "bgp_peers (disk (pr_world p')) = bgp_peers (disk (pr_world p)) \<and> ibgp_peers (disk (pr_world p')) = ibgp_peers (disk (pr_world p))
    \<and> managed_nodes (disk (pr_world p')) = managed_nodes (disk (pr_world p))
    \<and> (\<forall>res. r = Inr res \<longrightarrow> accepts_peers (fm_node_id f) (disk (pr_world p)) \<and> map_of (sessions (pr_sessions p')) token = None
         \<and> (\<exists>ses. map_of (sessions (purge_expired now (pr_sessions p))) token = Some ses
              \<and> config_proposals (disk (pr_world p')) = config_proposals (disk (pr_world p)) @ [sr_proposal res]
              \<and> cp_status (sr_proposal res) = ''pending'' \<and> cp_node_id (sr_proposal res) = fm_node_id f
              \<and> cp_payload (sr_proposal res) = peer_add_payload (ss_asn ses) f))
    \<and> (\<forall>e. r = Inl e \<longrightarrow> pr_world p' = pr_world p \<or> (\<forall>ses. map_of (sessions (pr_sessions p')) token = Some ses \<longrightarrow> \<not> ss_in_flight ses))"
proof -
  let ?w = "pr_world p"
  obtain c st where cl: "claim_session now token (pr_sessions p) = (c, st)" by fastforce
  show ?thesis
  proof (cases c)
    case (Inl e)
    with cl run show ?thesis by (auto simp: submit_peer_def bnd_def in_sessions_def)
  next
    case (Inr ses)
    from claim_session_returns [OF cl [unfolded Inr]] obtain v where
      v: "map_of (sessions (purge_expired now (pr_sessions p))) token = Some v" "ses = v\<lparr> ss_in_flight := True \<rparr>" by blast
    obtain q w' where wk: "submit_work (ss_asn ses) f ?w = (q, w')" by fastforce
    note o = outcomeD [OF outcome_submit_work assms(1) wk]
    show ?thesis
    proof (cases q)
      case (Inl e)
      from o(3) [OF Inl] assms(2) have same: "bgp_peers (disk w') = bgp_peers (disk ?w)
          \<and> ibgp_peers (disk w') = ibgp_peers (disk ?w) \<and> managed_nodes (disk w') = managed_nodes (disk ?w)"
        by (auto dest: submit_stopped_None)
      have p': "r = Inl e" "p' = p\<lparr> pr_sessions := set_flight token False st, pr_world := w' \<rparr>"
        using run cl Inr wk Inl
        by (auto simp: submit_peer_def bnd_def in_sessions_def in_pworld_def try_except_def release_session_def modify_state_def raise_def)
      then show ?thesis using same by (auto simp: set_flight_get simp del: map_of_eq_Some_iff)
    next
      case (Inr res)
      from o(2) [OF Inr] assms(2) have acc: "accepts_peers (fm_node_id f) (disk ?w)"
        and sub: "submit_result None (fm_node_id f) ''push'' ''peer_add'' (peer_add_payload (ss_asn ses) f) (disk ?w) (sr_proposal res) (disk w')"
        by blast+
      from sub obtain m where m: "submitted (fm_node_id f) ''push'' ''peer_add'' (peer_add_payload (ss_asn ses) f) (disk ?w) (sr_proposal res) m (disk w')"
        unfolding submit_result_def by auto
      have "managed_nodes (disk w') = managed_nodes (disk ?w)" using submitted_row(8) [OF assms(3) m] by (simp add: confined_def)
      moreover have p': "r = Inr res" "p' = p\<lparr> pr_sessions := st\<lparr> sessions := dict_pop (sessions st) token \<rparr>, pr_world := w' \<rparr>"
        using run cl \<open>c = Inr ses\<close> wk Inr
        by (auto simp: submit_peer_def bnd_def in_sessions_def in_pworld_def try_except_def drop_session_def modify_state_def ret_def)
      ultimately show ?thesis using submitted_row [OF assms(3) m] acc v by (auto simp: dict_pop_get simp del: map_of_eq_Some_iff)
    qed
  qed
qed

section \<open>A run of the wizard\<close>

definition wizard_db :: database where
  "wizard_db = ready (sample_db\<lparr> managed_nodes := [(new_managed ''n1'' ''alpha'' False ''t0'')\<lparr> mn_auto_peer := True \<rparr>] \<rparr>)"

lemma wizard_db_ok: "migrated wizard_db" "wf_db wizard_db" "no_faults (start_world wizard_db)"
  by (simp_all add: wizard_db_def no_faults_def)
    (simp add: ready_def wf_frame eval_rows ids_ok_def single_self_def new_managed_def)

definition sample_form :: peer_form where
  "sample_form = \<lparr> fm_node_id = ''n1'', fm_wg_public_key = ''k'', fm_endpoint = ''e'', fm_peer_lla = ''fe80::1'',
     fm_net_backend = ''networkd'', fm_listen_port = None \<rparr>"

definition sample_identity :: KioubitIdentity where
  "sample_identity = \<lparr> ki_asn = 4242420000, ki_mntner = ''M'', ki_authtype = [], ki_issued_at = Fin 1000, ki_digest = ''d'' \<rparr>"

lemma total_proposal_add:
  "succeeds False (\<lambda>d. has_node d n \<and> k \<in> set VALID_PROPOSAL_KINDS \<and> (\<forall>x d'. R x d')) (proposal_add n ''push'' k pl) R"
  unfolding proposal_add_def proposal_read_back_def proposal_get_def
  by (rule total_pre, (rule total)+)
    (auto simp: VALID_PROPOSAL_SOURCES_def insert_proposal_def find_proposal_def find_append Let_def split: option.splits)

lemma total_submit_work: "succeeds False (\<lambda>d. d = wizard_db) (submit_work asn sample_form) (\<lambda>_ _. True)"
  unfolding submit_work_def resolve_target_def list_peer_targets_def managed_list_auto_peer_def build_peer_add_payload_def
    submit_proposal_def json.case option.case
  by (rule total_pre, (rule total | rule total_with_db | rule total_proposal_add)+)
    (auto simp: wizard_db_ok, simp_all add: wizard_db_def sample_form_def order_nodes_def find_managed_def new_managed_def eval_rows
      VALID_PROPOSAL_KINDS_def has_node_def)

lemma sample_run:
  obtains s where "wizard_reachable (start_world wizard_db) s" and "wz_answered s = [(''t'', 4242420000)]"
    and "wz_opened s = [(''d'', 0)]" and "wz_clock s = 0" and "wz_store s = \<lparr> sessions = [], consumed = [(''d'', 120)] \<rparr>"
proof -
  obtain res w where w: "submit_work 4242420000 sample_form (start_world wizard_db) = (Inr res, w)"
    by (rule totalD [OF total_submit_work, of "start_world wizard_db" 4242420000]) (use wizard_db_ok in auto)
  let ?w = "start_world wizard_db" and ?iss = "[(''t'', 4242420000 :: int)]" and ?op = "[(''d'', 0 :: rat)]"
  let ?ses = "\<lambda>b. \<lparr> ss_token = ''t'', ss_asn = 4242420000, ss_mntner = ''M'', ss_expires_at = 900, ss_in_flight = b \<rparr>"
  let ?st = "\<lambda>b. \<lparr> sessions = [(''t'', ?ses b)], consumed = [(''d'', 120)] \<rparr>"
  let ?s1 = "(initial_wizard ?w)\<lparr> wz_store := ?st False, wz_issued := ?iss, wz_opened := ?op \<rparr>"
  let ?s2 = "?s1\<lparr> wz_store := ?st True, wz_threads := (wz_threads ?s1)(0 := Claimed (?ses True) sample_form) \<rparr>"
  let ?s3 = "?s2\<lparr> wz_world := w, wz_threads := (wz_threads ?s2)(0 := Stored (?ses True)) \<rparr>"
  let ?s4 = "?s3\<lparr> wz_store := \<lparr> sessions = [], consumed = [(''d'', 120)] \<rparr>, wz_threads := (wz_threads ?s3)(0 := Idle),
      wz_answered := (ss_token (?ses True), ss_asn (?ses True)) # wz_answered ?s3 \<rparr>"
  have "wizard_step (initial_wizard ?w) ?s1"
    using wizard_step.exchanged [of 0 "initial_wizard ?w" "''t''" sample_identity]
    by (simp add: initial_wizard_def open_session_runs purge_expired_def sample_identity_def CONSUMED_TTL_SECONDS_def
        SESSION_TTL_SECONDS_def MAX_AGE_SECONDS_def)
  moreover have "wizard_step ?s1 ?s2"
    by (rule wizard_step.claimed [of 0 _ _ "''t''"])
      (simp_all add: initial_wizard_def claim_session_def bnd_def modify_state_def read_state_def ret_def purge_expired_def set_flight_def)
  moreover have "wizard_step ?s2 ?s3"
    by (rule wizard_step.worked [where f = sample_form]) (use w in \<open>simp_all add: initial_wizard_def\<close>)
  moreover have "wizard_step ?s3 ?s4"
    by (rule wizard_step.finished) (simp_all add: initial_wizard_def drop_session_def modify_state_def dict_pop_def)
  ultimately have "wizard_reachable ?w ?s4" unfolding wizard_reachable_def by (meson rtranclp.rtrancl_into_rtrancl rtranclp.rtrancl_refl)
  then show thesis by (rule that) (simp_all add: initial_wizard_def)
qed

theorem session_answers_once_witness:
  "\<exists>s. wizard_reachable (start_world wizard_db) s \<and> wz_answered s \<noteq> [] \<and> (\<exists>e. fst (claim_session 0 ''t'' (wz_store s)) = Inl e)"
proof -
  obtain s where s: "wizard_reachable (start_world wizard_db) s" "wz_answered s = [(''t'', 4242420000)]" by (rule sample_run)
  from session_answers_once [OF s(1)] s show ?thesis by auto
qed

theorem signature_exchanged_once_witness:
  "\<exists>s r st. wizard_reachable (start_world wizard_db) s \<and> open_session 120 ''u'' sample_identity (wz_store s) = (Inr r, st)
     \<and> (ki_digest sample_identity, 0) \<in> set (wz_opened s) \<and> 0 + 120 \<le> wz_clock s"
proof -
  obtain s where s: "wizard_reachable (start_world wizard_db) s" "wz_opened s = [(''d'', 0)]" "wz_clock s = 0"
    "wz_store s = \<lparr> sessions = [], consumed = [(''d'', 120)] \<rparr>" by (rule sample_run)
  let ?s = "s\<lparr> wz_clock := 120, wz_world := wz_world s \<rparr>"
  have "wizard_step s ?s" by (rule wizard_step.passing) (simp add: s(3))
  with s(1) have r: "wizard_reachable (start_world wizard_db) ?s"
    unfolding wizard_reachable_def by (rule rtranclp.rtrancl_into_rtrancl)
  obtain q st where o: "open_session 120 ''u'' sample_identity (wz_store ?s) = (Inr q, st)"
    by (simp add: s(4) open_session_runs purge_expired_def Let_def)
  have d: "(ki_digest sample_identity, 0) \<in> set (wz_opened ?s)" by (simp add: s(2) sample_identity_def)
  have "0 + 120 \<le> wz_clock ?s" using signature_exchanged_once [OF r _ o d] by simp
  with r o d show ?thesis by blast
qed

definition sample_peering :: peering where
  "sample_peering = \<lparr> pr_sessions = \<lparr> sessions = [(''t'', \<lparr> ss_token = ''t'', ss_asn = 4242420000, ss_mntner = ''M'',
     ss_expires_at = 900, ss_in_flight = False \<rparr>)], consumed = [] \<rparr>, pr_world = start_world wizard_db \<rparr>"

theorem submit_peer_only_proposes_witness:
  "\<exists>res p'. submit_peer 0 ''t'' sample_form sample_peering = (Inr res, p') \<and> bgp_peers (disk (pr_world p')) = bgp_peers wizard_db
     \<and> accepts_peers ''n1'' wizard_db \<and> cp_status (sr_proposal res) = ''pending''"
proof -
  obtain res w where w: "submit_work 4242420000 sample_form (start_world wizard_db) = (Inr res, w)"
    by (rule totalD [OF total_submit_work, of "start_world wizard_db" 4242420000]) (use wizard_db_ok in auto)
  then obtain p' where r: "submit_peer 0 ''t'' sample_form sample_peering = (Inr res, p')"
    by (simp add: submit_peer_def sample_peering_def bnd_def in_sessions_def in_pworld_def claim_session_def modify_state_def read_state_def
        ret_def purge_expired_def set_flight_def drop_session_def try_except_def)
  from submit_peer_only_proposes [OF _ _ _ r] wizard_db_ok r show ?thesis by (auto simp: sample_peering_def sample_form_def)
qed

theorem second_signature_replays_witness:
  "\<exists>i r1 st1 i2 r2 st2. verify_auth_response sample_kioubit ''e30='' ''AQID'' ''https://peer.example/'' 1030 = Inr i
     \<and> open_session 1030 ''t'' i \<lparr> sessions = [], consumed = [] \<rparr> = (Inr r1, st1)
     \<and> verify_auth_response sample_kioubit ''e30='' ''AQIE'' ''https://peer.example/'' 1030 = Inr i2
     \<and> open_session 1030 ''u'' i2 st1 = (Inr r2, st2)"
proof -
  let ?i = "\<lparr> ki_asn = 4242420000, ki_mntner = ''EXAMPLE-MNT'', ki_authtype = [], ki_issued_at = Fin 1000,
    ki_digest = map char_of [1 :: nat, 2, 3] \<rparr>"
  have v: "verify_auth_response sample_kioubit ''e30='' ''AQID'' ''https://peer.example/'' 1030 = Inr ?i"
    using sample_verified [OF sample_signatures(1)] by simp
  obtain r1 st1 where o: "open_session 1030 ''t'' ?i \<lparr> sessions = [], consumed = [] \<rparr> = (Inr r1, st1)"
    by (simp add: open_session_runs purge_expired_def Let_def)
  have "sha256_bytes sample_kioubit [1, 2, 4] \<noteq> ki_digest ?i" by (simp add: sample_kioubit_def)
  from second_signature_replays [OF v sample_signatures(2) _ _ this o, of "''u''"] v o show ?thesis
    by (fastforce simp: sample_kioubit_def)
qed

end
