(* ===== verification/Config.thy ===== *)
theory Config
  imports Node_Config Validators
begin

text \<open>
  \<open>dn42ctl/config.py\<close>: the file \<open>config.toml\<close> of a machine, which says where the generated files go.
  TOML is an argument as for \<open>node.toml\<close>.
\<close>

section \<open>Reading\<close>

definition config_str :: "jdict \<Rightarrow> string \<Rightarrow> string result" where
  "config_str data key = (case dict_get_value data key of
     JStr s \<Rightarrow> if s = [] then Inl (ConfigError key) else Inr s
   | _ \<Rightarrow> Inl (ConfigError key))"

definition config_int :: "jdict \<Rightarrow> string \<Rightarrow> int result" where
  "config_int data key = (case dict_get_value data key of
     JInt i \<Rightarrow> Inr i
   | _ \<Rightarrow> Inl (ConfigError key))"

definition config_opt_str :: "jdict \<Rightarrow> string \<Rightarrow> string option result" where
  "config_opt_str data key = (case dict_get_value data key of
     JNull \<Rightarrow> Inr None
   | JStr s \<Rightarrow> if s = [] then Inl (ConfigError key) else Inr (Some s)
   | _ \<Rightarrow> Inl (ConfigError key))"

text \<open>A validator is only asked whether it raises; the value in the file is kept as it is.\<close>

definition config_valid :: "'a result \<Rightarrow> unit result" where
  "config_valid r = (case r of Inl (ValidationError m) \<Rightarrow> Inl (ConfigError m) | Inl e \<Rightarrow> Inl e | Inr _ \<Rightarrow> Inr ())"

definition config_backend :: "jdict \<Rightarrow> string result" where
  "config_backend raw = (case (case dict_get raw ''dummy_backend'' of None \<Rightarrow> JStr ''networkd'' | Some v \<Rightarrow> v) of
     JStr s \<Rightarrow> (case validate_net_backend s of Inl (ValidationError m) \<Rightarrow> Inl (ConfigError m) | r \<Rightarrow> r)
   | _ \<Rightarrow> Inl (ConfigError ''dummy_backend''))"

text \<open>
  \<open>Path(p).parent\<close>: everything before the last component; the parent of a single relative
  component is \<open>.\<close> and the root is its own parent.
\<close>

definition path_parent :: "string \<Rightarrow> string" where
  "path_parent s = (let p = path_str s; parts = split_on CHR ''/'' p in
     if p = ''/'' \<or> p = ''//'' then p
     else path_str (join_slash (butlast parts) @ (if startswith p ''/'' then ''/'' else [])))"

text \<open>\<open>Path(d) / f\<close>: an absolute second path replaces the first.\<close>

definition path_div :: "string \<Rightarrow> string \<Rightarrow> string" where
  "path_div d f = (if startswith f ''/'' then path_str f else path_str (d @ ''/'' @ f))"

definition parse_config :: "jdict \<Rightarrow> AppConfig result" where
  "parse_config raw = (case dict_get_value raw ''paths'' of
     JObj paths \<Rightarrow>
       bindR (config_int raw ''own_asn'') (\<lambda>own_asn.
       bindR (config_str raw ''router_id'') (\<lambda>router_id.
       bindR (config_str raw ''own_ipv6'') (\<lambda>own_ipv6.
       bindR (config_str raw ''ownnet_v6'') (\<lambda>ownnet_v6.
       bindR (config_str raw ''ownnetset_v6'') (\<lambda>ownnetset_v6.
       bindR (config_valid (validate_asn own_asn)) (\<lambda>_.
       bindR (config_valid (validate_router_id router_id)) (\<lambda>_.
       bindR (config_valid (validate_ipv6_address own_ipv6)) (\<lambda>_.
       bindR (config_valid (validate_ipv6_network ownnet_v6)) (\<lambda>_.
       bindR (config_valid (validate_ownnetset_v6 ownnetset_v6)) (\<lambda>_.
       bindR (config_backend raw) (\<lambda>dummy_backend.
       bindR (config_str paths ''bird_conf'') (\<lambda>bird_conf.
       bindR (config_str paths ''bird_peers_dir'') (\<lambda>bird_peers_dir.
       bindR (config_str raw ''node_id'') (\<lambda>node_id.
       bindR (config_str paths ''bird_babel_conf'') (\<lambda>babel.
       bindR (config_str paths ''bird_roa_v6_conf'') (\<lambda>roa.
       bindR (config_opt_str paths ''bird_extra_conf'') (\<lambda>extra.
       bindR (config_str paths ''networkd_dir'') (\<lambda>networkd_dir.
       bindR (config_str paths ''nm_system_connections_dir'') (\<lambda>nm_dir.
         Inr \<lparr> ac_node_id = node_id, ac_own_asn = own_asn, ac_router_id = router_id, ac_own_ipv6 = own_ipv6,
               ac_ownnet_v6 = ownnet_v6, ac_ownnetset_v6 = ownnetset_v6, ac_bird_conf_path = bird_conf,
               ac_bird_peers_dir = bird_peers_dir, ac_bird_babel_conf_path = babel, ac_bird_roa_v6_conf_path = roa,
               ac_bird_extra_conf_path =
                 (case extra of Some e \<Rightarrow> e | None \<Rightarrow> path_div (path_parent bird_peers_dir) ''extra.conf''),
               ac_networkd_dir = networkd_dir, ac_nm_system_connections_dir = nm_dir,
               ac_dummy_backend = dummy_backend \<rparr>)))))))))))))))))))
   | _ \<Rightarrow> Inl (ConfigError ''paths''))"

definition load_config :: "toml_env \<Rightarrow> string \<Rightarrow> AppConfig wop" where
  "load_config T path =
     bnd (try_except (bnd (read_file path) (\<lambda>c. case c of
            None \<Rightarrow> raise (ConfigError ''Config not found'')
          | Some text \<Rightarrow> (case toml_loads T text of
              None \<Rightarrow> raise (ValueError ''TOML'') | Some raw \<Rightarrow> ret raw)))
          (\<lambda>e. case e of ConfigError m \<Rightarrow> raise e | _ \<Rightarrow> raise (ConfigError ''Failed to read config'')))
     (\<lambda>raw. lift_result (parse_config raw))"

section \<open>Writing\<close>

definition app_config_dict :: "AppConfig \<Rightarrow> jdict" where
  "app_config_dict c =
     [(''node_id'', JStr (ac_node_id c)), (''own_asn'', JInt (ac_own_asn c)), (''router_id'', JStr (ac_router_id c)),
      (''own_ipv6'', JStr (ac_own_ipv6 c)), (''ownnet_v6'', JStr (ac_ownnet_v6 c)),
      (''ownnetset_v6'', JStr (ac_ownnetset_v6 c)), (''dummy_backend'', JStr (ac_dummy_backend c)),
      (''paths'', JObj
        [(''bird_conf'', JStr (ac_bird_conf_path c)), (''bird_peers_dir'', JStr (ac_bird_peers_dir c)),
         (''bird_babel_conf'', JStr (ac_bird_babel_conf_path c)), (''bird_roa_v6_conf'', JStr (ac_bird_roa_v6_conf_path c)),
         (''bird_extra_conf'', JStr (ac_bird_extra_conf_path c)), (''networkd_dir'', JStr (ac_networkd_dir c)),
         (''nm_system_connections_dir'', JStr (ac_nm_system_connections_dir c))])]"

definition dumps_config :: "toml_env \<Rightarrow> AppConfig \<Rightarrow> string" where
  "dumps_config T c = toml_dumps T (app_config_dict c)"

definition save_config :: "toml_env \<Rightarrow> string \<Rightarrow> AppConfig \<Rightarrow> unit wop" where
  "save_config T path c =
     bnd (mkdir_parent path) (\<lambda>_.
     bnd (write_file path (dumps_config T c)) (\<lambda>_.
     chmod_best_effort path FILE_MODE_PRIVATE))"

section \<open>What is written is read back\<close>

definition accepted :: "'a result \<Rightarrow> bool" where
  "accepted r = (case r of Inl _ \<Rightarrow> False | Inr _ \<Rightarrow> True)"

definition app_config_ok :: "AppConfig \<Rightarrow> bool" where
  "app_config_ok c \<longleftrightarrow> (\<forall>s \<in> {ac_node_id c, ac_router_id c, ac_own_ipv6 c, ac_ownnet_v6 c, ac_ownnetset_v6 c, ac_bird_conf_path c,
        ac_bird_peers_dir c, ac_bird_babel_conf_path c, ac_bird_roa_v6_conf_path c, ac_bird_extra_conf_path c,
        ac_networkd_dir c, ac_nm_system_connections_dir c}. s \<noteq> [])
     \<and> accepted (validate_asn (ac_own_asn c)) \<and> accepted (validate_router_id (ac_router_id c))
     \<and> accepted (validate_ipv6_address (ac_own_ipv6 c)) \<and> accepted (validate_ipv6_network (ac_ownnet_v6 c))
     \<and> accepted (validate_ownnetset_v6 (ac_ownnetset_v6 c)) \<and> validate_net_backend (ac_dummy_backend c) = Inr (ac_dummy_backend c)"

lemma config_valid_Inr: "config_valid r = Inr u \<longleftrightarrow> accepted r"
  by (auto simp: config_valid_def accepted_def split: sum.splits exn.splits)

lemma accepted_valid [simp]: "accepted r \<Longrightarrow> config_valid r = Inr ()"
  by (simp add: config_valid_Inr)

lemma parse_dumped: "app_config_ok c \<Longrightarrow> parse_config (app_config_dict c) = Inr c"
  by (simp add: parse_config_def app_config_dict_def dict_get_value_def dict_get_def config_int_def config_str_def
      config_opt_str_def config_backend_def app_config_ok_def bindR_def)

lemma config_str_Inr: "config_str data key = Inr s \<Longrightarrow> s \<noteq> []"
  by (auto simp: config_str_def split: json.splits if_splits)

lemma config_opt_str_Inr: "config_opt_str data key = Inr (Some s) \<Longrightarrow> s \<noteq> []"
  by (auto simp: config_opt_str_def split: json.splits if_splits)

lemma config_backend_Inr: "config_backend raw = Inr b \<Longrightarrow> validate_net_backend b = Inr b"
proof -
  have "validate_net_backend s = Inr b \<Longrightarrow> b = ''networkd'' \<or> b = ''nm''" for s
    by (auto simp: validate_net_backend_def Let_def split: if_splits)
  moreover assume "config_backend raw = Inr b"
  ultimately have "b = ''networkd'' \<or> b = ''nm''"
    by (auto simp: config_backend_def split: json.splits sum.splits exn.splits option.splits)
  moreover have "validate_net_backend ''networkd'' = Inr ''networkd''" "validate_net_backend ''nm'' = Inr ''nm''"
    by code_simp+
  ultimately show ?thesis by auto
qed

lemma path_str_nonempty [simp]: "path_str s \<noteq> []"
  by (simp add: path_str_def Let_def)

lemma path_div_nonempty [simp]: "path_div d f \<noteq> []"
  by (simp add: path_div_def)

text \<open>
  Whatever \<open>config.toml\<close> holds, a configuration that is loaded has every field, and the values the
  validators ask for.
\<close>

lemma parse_config_ok:
  assumes "parse_config raw = Inr c"
  shows "app_config_ok c"
  using assms unfolding parse_config_def
  apply (cases "dict_get_value raw ''paths''"; simp only: json.case sum.distinct bindR_Inr)
  apply (elim exE conjE)
  apply (drule config_str_Inr)+
  apply (drule iffD1 [OF sum.inject(2)], hypsubst)
  apply (auto simp: app_config_ok_def config_valid_Inr config_backend_Inr config_opt_str_Inr split: option.splits)
  done

lemma load_config_ok: "load_config T path w = (Inr c, w') \<Longrightarrow> app_config_ok c"
  by (auto simp: load_config_def returns lift_result_def dest: parse_config_ok)

text \<open>What the code relies on of the two TOML packages for the document it writes.\<close>

definition toml_keeps :: "toml_env \<Rightarrow> AppConfig \<Rightarrow> bool" where
  "toml_keeps T c \<longleftrightarrow> toml_loads T (dumps_config T c) = Some (app_config_dict c)"

lemma load_dumped:
  assumes "files w path = Some f" and "f_content f = dumps_config T c" and "\<not> io_fault (env w) (tick w)"
    and "app_config_ok c" and "toml_keeps T c"
  shows "load_config T path w = (Inr c, next_tick w)"
  using assms parse_dumped [OF assms(4)]
  by (simp add: load_config_def bnd_def try_except_def read_file_def ret_def lift_result_def toml_keeps_def)

lemma load_config_files: "files (snd (load_config T path w)) = files w" "env (snd (load_config T path w)) = env w"
    "disk (snd (load_config T path w)) = disk w" "tx (snd (load_config T path w)) = tx w"
  by (auto simp: load_config_def bnd_def try_except_def read_file_def ret_def raise_def lift_result_def
      split: option.splits sum.splits exn.splits)

text \<open>Loading raises nothing but \<open>ConfigError\<close>.\<close>

definition config_only :: "'a result \<Rightarrow> bool" where
  "config_only r \<longleftrightarrow> (\<forall>e. r = Inl e \<longrightarrow> (\<exists>m. e = ConfigError m))"

lemma config_only_bindR: "config_only m \<Longrightarrow> (\<And>x. config_only (f x)) \<Longrightarrow> config_only (bindR m f)"
  by (auto simp: config_only_def bindR_Inl)

lemma validator_errors:
  "validate_asn n = Inl e \<Longrightarrow> \<exists>m. e = ValidationError m" "validate_router_id s = Inl e \<Longrightarrow> \<exists>m. e = ValidationError m"
  "validate_ipv6_address s = Inl e \<Longrightarrow> \<exists>m. e = ValidationError m" "validate_ipv6_network s = Inl e \<Longrightarrow> \<exists>m. e = ValidationError m"
  "validate_ownnetset_v6 s = Inl e \<Longrightarrow> \<exists>m. e = ValidationError m" "validate_net_backend s = Inl e \<Longrightarrow> \<exists>m. e = ValidationError m"
  by (auto simp: validate_asn_def validate_router_id_def validate_ipv4_address_def validate_ipv6_address_def
      validate_ipv6_network_def validate_ownnetset_v6_def validate_net_backend_def Let_def split: if_splits)

lemma config_only_valid: "(\<And>e. r = Inl e \<Longrightarrow> \<exists>m. e = ValidationError m) \<Longrightarrow> config_only (config_valid r)"
  by (cases r) (auto simp: config_only_def config_valid_def)

lemma config_only_fields:
  "config_only (config_int d k)" "config_only (config_str d k)" "config_only (config_opt_str d k)" "config_only (config_backend d)"
proof -
  show "config_only (config_backend d)"
    by (auto simp: config_only_def config_backend_def dest!: validator_errors(6) split: json.splits sum.splits exn.splits)
qed (auto simp: config_only_def config_int_def config_str_def config_opt_str_def split: json.splits if_splits)

lemma parse_config_only: "config_only (parse_config raw)"
  unfolding parse_config_def
  by (auto intro!: config_only_bindR config_only_fields config_only_valid dest: validator_errors split: json.splits)
    (simp_all add: config_only_def)

lemma load_config_error: "load_config T path w = (Inl e, w') \<Longrightarrow> \<exists>m. e = ConfigError m"
  using parse_config_only
  by (auto simp: load_config_def bnd_def try_except_def read_file_def ret_def raise_def lift_result_def config_only_def
      split: option.splits sum.splits exn.splits if_splits)

text \<open>
  \<open>config.toml\<close> keeps what it was given: a configuration whose values pass the validators and
  that \<open>save_config\<close> has written is what \<open>load_config\<close> returns, and every configuration that is
  loaded is of this kind, so that loading, writing and loading again changes nothing.
\<close>

theorem config_roundtrip:
  assumes "load_config T path0 w0 = (Inr c, w)" and "toml_keeps T c"
    and "save_config T path c w = (Inr (), w')" and "\<not> io_fault (env w') (tick w')"
  shows "load_config T path w' = (Inr c, next_tick w')"
proof -
  from assms(3) obtain f where "files w' path = Some f" "f_content f = dumps_config T c"
    by (auto simp: save_config_def mkdir_parent_def write_file_def put_text_def bnd_def io_step_def chmod_best_effort_def
        ignore_os_error_def try_except_def ret_def put_content_def update_file_def split: if_splits option.splits)
  from load_dumped [OF this assms(4) load_config_ok [OF assms(1)] assms(2)] show ?thesis .
qed

end
