(* ===== verification/Cache.thy ===== *)
theory Cache
  imports Config Desired
begin

text \<open>
  \<open>services/node_agent.py\<close> with what it uses of \<open>node_client.py\<close>: the cache in which a node keeps the
  last desired state it was sent. The cache is an SQLite file of its own with a single row.
\<close>

section \<open>State of a node\<close>

record PullResult =
  pl_revision :: string
  pl_fetched_at :: string
  pl_payload :: jdict

text \<open>A cache file is absent, has no table yet, or has the table with the row \<open>id = 1\<close> or without it.\<close>

datatype cache_file = Absent | Blank | Cached "PullResult option"

record node_state =
  ns_world :: world
  ns_caches :: "string \<Rightarrow> cache_file"

type_synonym 'a nop = "(node_state, 'a) op"

definition in_node :: "'a wop \<Rightarrow> 'a nop" where
  "in_node m = (\<lambda>s. case m (ns_world s) of (r, w) \<Rightarrow> (r, s\<lparr> ns_world := w \<rparr>))"

text \<open>A statement on the cache fails like any other statement.\<close>

definition cache_step :: "string \<Rightarrow> (cache_file \<Rightarrow> 'a result \<times> cache_file) \<Rightarrow> 'a nop" where
  "cache_step path f = (\<lambda>s. let w = ns_world s in
     if sql_fault (env w) (tick w) then (Inl SqliteError, s\<lparr> ns_world := next_tick w \<rparr>)
     else case f (ns_caches s path) of (r, c) \<Rightarrow>
       (r, s\<lparr> ns_world := next_tick w, ns_caches := (ns_caches s)(path := c) \<rparr>))"

section \<open>Storing and reading\<close>

text \<open>\<open>_open_cache\<close>: the directory, the file, the table if it is not there, the permissions.\<close>

fun with_table :: "cache_file \<Rightarrow> cache_file" where
  "with_table (Cached r) = Cached r"
| "with_table _ = Cached None"

definition open_cache :: "string \<Rightarrow> unit nop" where
  "open_cache path =
     bnd (in_node (io_step (\<lambda>w. w))) (\<lambda>_.
     bnd (cache_step path (\<lambda>c. (Inr (), if c = Absent then Blank else c))) (\<lambda>_.
     bnd (cache_step path (\<lambda>c. (Inr (), with_table c))) (\<lambda>_.
     in_node (ignore_os_error (io_step (\<lambda>w. w))))))"

text \<open>
  \<open>INSERT ... ON CONFLICT DO UPDATE\<close>, then \<open>commit\<close>: what was executed is durable only with the
  commit, so the row is written in the step of the commit.
\<close>

definition store_desired :: "NodeConfig \<Rightarrow> jdict \<Rightarrow> PullResult nop" where
  "store_desired cfg payload = (case dict_get_value payload ''revision'' of
     JStr revision \<Rightarrow>
       if revision = [] then raise (Dn42CtlError ''desired state without revision'')
       else bnd (in_node now_iso) (\<lambda>fetched_at.
         let row = \<lparr> pl_revision = revision, pl_fetched_at = fetched_at, pl_payload = payload \<rparr> in
         bnd (open_cache (cfg_cache_db_path cfg)) (\<lambda>_.
         bnd (cache_step (cfg_cache_db_path cfg) (\<lambda>c. (Inr (), c))) (\<lambda>_.
         bnd (cache_step (cfg_cache_db_path cfg) (\<lambda>c. (Inr (), Cached (Some row)))) (\<lambda>_.
         ret row))))
   | _ \<Rightarrow> raise (Dn42CtlError ''desired state without revision''))"

definition read_cache :: "NodeConfig \<Rightarrow> PullResult option nop" where
  "read_cache cfg =
     bnd (read_state (\<lambda>s. ns_caches s (cfg_cache_db_path cfg) \<noteq> Absent)) (\<lambda>present.
     if \<not> present then ret None
     else cache_step (cfg_cache_db_path cfg) (\<lambda>c. case c of
       Cached row \<Rightarrow> (Inr row, c)
     | _ \<Rightarrow> (Inl SqliteError, c)))"

section \<open>Talking to the server\<close>

definition rstrip_slash :: "string \<Rightarrow> string" where
  "rstrip_slash s = rev (dropWhile (\<lambda>c. c = CHR ''/'') (rev s))"

definition build_node_url :: "string \<Rightarrow> string \<Rightarrow> string \<Rightarrow> string" where
  "build_node_url server node_id suffix = rstrip_slash server @ ''/api/v1/nodes/'' @ node_id @ suffix"

definition build_ws_url :: "string \<Rightarrow> string \<Rightarrow> string" where
  "build_ws_url server node_id = (let base = rstrip_slash server;
       base = (if startswith base ''https://'' then ''wss://'' @ List.drop (length ''https://'') base
               else if startswith base ''http://'' then ''ws://'' @ List.drop (length ''http://'') base
               else base)
     in base @ ''/api/v1/nodes/'' @ node_id @ ''/ws'')"

definition build_auth_headers :: "string \<Rightarrow> (string \<times> string) list" where
  "build_auth_headers token = [(''Authorization'', ''Bearer '' @ token)]"

text \<open>
  What \<open>httpx.request\<close> gives: no response, or one with a status, a text and the value \<open>resp.json()\<close>
  decodes, if it decodes. The server is an argument, from the method, the URL, the headers and the body.
\<close>

datatype http_reply = Unreachable | Response int string "json option"

type_synonym http_server = "string \<Rightarrow> string \<Rightarrow> (string \<times> string) list \<Rightarrow> json option \<Rightarrow> http_reply"

definition raise_for_status :: "int \<Rightarrow> string \<Rightarrow> unit result" where
  "raise_for_status status_code text =
     (if status_code = 401 then Inl (NodeClientError ''server refused the token (401)'')
      else if status_code = 403 then Inl (NodeClientError ''server returned 403'')
      else if status_code \<ge> 400 then Inl (NodeClientError (''server error '' @ show_int status_code @ '': '' @ text))
      else Inr ())"

definition client_request :: "http_server \<Rightarrow> NodeConfig \<Rightarrow> string \<Rightarrow> string \<Rightarrow> json option \<Rightarrow> json result" where
  "client_request H cfg meth suffix json_body =
     (case H meth (build_node_url (rstrip_slash (cfg_server cfg)) (cfg_node_id cfg) suffix) (build_auth_headers (cfg_token cfg)) json_body of
        Unreachable \<Rightarrow> Inl (NodeClientError ''server unreachable'')
      | Response status_code text body \<Rightarrow> bindR (raise_for_status status_code text) (\<lambda>_.
          case body of None \<Rightarrow> Inl (ValueError ''JSON'') | Some j \<Rightarrow> Inr j))"

definition pull_desired :: "http_server \<Rightarrow> NodeConfig \<Rightarrow> json result" where
  "pull_desired H cfg = client_request H cfg ''GET'' ''/desired'' None"

definition fetch_status :: "http_server \<Rightarrow> NodeConfig \<Rightarrow> json result" where
  "fetch_status H cfg = client_request H cfg ''GET'' ''/status'' None"

definition client_post :: "http_server \<Rightarrow> NodeConfig \<Rightarrow> string \<Rightarrow> jdict \<Rightarrow> json result" where
  "client_post H cfg suffix body = client_request H cfg ''POST'' suffix (Some (JObj body))"

text \<open>\<open>services/node_push.py\<close>: proposals and reports of a node that are posted.\<close>

definition post_json :: "http_server \<Rightarrow> NodeConfig \<Rightarrow> string \<Rightarrow> jdict \<Rightarrow> string \<Rightarrow> json result" where
  "post_json H cfg suffix body error_label = (case client_post H cfg suffix body of
     Inl (NodeClientError m) \<Rightarrow> Inl (Dn42CtlError (error_label @ '' failed: '' @ m)) | r \<Rightarrow> r)"

definition post_proposal :: "http_server \<Rightarrow> NodeConfig \<Rightarrow> string \<Rightarrow> jdict \<Rightarrow> string \<Rightarrow> json result" where
  "post_proposal H cfg kind payload src =
     post_json H cfg ''/proposals'' [(''source'', JStr src), (''kind'', JStr kind), (''payload'', JObj payload)] ''proposal''"

definition post_report :: "http_server \<Rightarrow> NodeConfig \<Rightarrow> string \<Rightarrow> jdict \<Rightarrow> json result" where
  "post_report H cfg kind payload = post_json H cfg ''/reports'' [(''kind'', JStr kind), (''payload'', JObj payload)] ''report''"

definition pull :: "http_server \<Rightarrow> NodeConfig \<Rightarrow> PullResult nop" where
  "pull H cfg = bnd (try_except (lift_result (pull_desired H cfg))
       (\<lambda>e. case e of NodeClientError m \<Rightarrow> raise (Dn42CtlError m) | _ \<Rightarrow> raise e)) (\<lambda>j. case j of
     JObj payload \<Rightarrow> store_desired cfg payload
   | _ \<Rightarrow> raise (AttributeError ''get''))"

section \<open>Lemmas\<close>

text \<open>The row of a cache file: what a reader can get out of it.\<close>

fun cached_row :: "cache_file \<Rightarrow> PullResult option" where
  "cached_row (Cached r) = r"
| "cached_row _ = None"

lemma with_table_row [simp]: "cached_row (with_table c) = cached_row c"
  by (cases c) simp_all

lemma in_node_caches [simp]: "ns_caches (snd (in_node m s)) = ns_caches s"
  by (simp add: in_node_def split: prod.splits)

text \<open>Nothing but a returning \<open>store_desired\<close> changes a row.\<close>

definition same_rows :: "'a nop \<Rightarrow> bool" where
  "same_rows m \<longleftrightarrow> (\<forall>s p. cached_row (ns_caches (snd (m s)) p) = cached_row (ns_caches s p))"

lemma same_rows_basic: "same_rows (ret x)" "same_rows (raise e)" "same_rows (lift_result r)" "same_rows (in_node m)"
    "same_rows (read_state g)"
  by (simp_all add: same_rows_def ret_def raise_def lift_result_def read_state_def)

lemma same_rows_step: "(\<And>c. cached_row (snd (f c)) = cached_row c) \<Longrightarrow> same_rows (cache_step path f)"
  by (auto simp: same_rows_def cache_step_def Let_def split: prod.splits) (metis snd_conv)+

lemma same_rows_bnd:
  assumes "same_rows m" and "\<And>x. same_rows (f x)"
  shows "same_rows (bnd m f)"
  unfolding same_rows_def
proof (intro allI)
  fix s p
  obtain r t where m: "m s = (r, t)" by (cases "m s")
  with assms(1) have "cached_row (ns_caches t p) = cached_row (ns_caches s p)" by (metis same_rows_def snd_conv)
  then show "cached_row (ns_caches (snd (bnd m f s)) p) = cached_row (ns_caches s p)"
    using assms(2) by (cases r) (simp_all add: bnd_def m same_rows_def)
qed

lemmas same_rows_rules = same_rows_basic same_rows_step same_rows_bnd

lemma same_rows_open: "same_rows (open_cache path)"
  unfolding open_cache_def by (intro same_rows_rules) auto

lemma same_rows_read: "same_rows (read_cache cfg)"
  unfolding read_cache_def by (auto intro!: same_rows_rules split: cache_file.splits)

lemma cache_step_returns:
  "cache_step path f s = (Inr x, s') \<longleftrightarrow> \<not> sql_fault (env (ns_world s)) (tick (ns_world s)) \<and>
     (\<exists>c. f (ns_caches s path) = (Inr x, c) \<and>
        s' = s\<lparr> ns_world := next_tick (ns_world s), ns_caches := (ns_caches s)(path := c) \<rparr>)"
  by (auto simp: cache_step_def Let_def split: prod.splits)

lemma store_desired_row:
  assumes "store_desired cfg payload s = (Inr r, s')"
  shows "pl_payload r = payload \<and> dict_get_value payload ''revision'' = JStr (pl_revision r) \<and> pl_revision r \<noteq> []"
    and "ns_caches s' (cfg_cache_db_path cfg) = Cached (Some r)"
    and "p \<noteq> cfg_cache_db_path cfg \<Longrightarrow> cached_row (ns_caches s' p) = cached_row (ns_caches s p)"
proof -
  from assms obtain rev now s1 s2 s3 s4 where j: "dict_get_value payload ''revision'' = JStr rev" "rev \<noteq> []"
    and r: "r = \<lparr> pl_revision = rev, pl_fetched_at = now, pl_payload = payload \<rparr>"
    and s1: "in_node now_iso s = (Inr now, s1)" and s2: "open_cache (cfg_cache_db_path cfg) s1 = (Inr (), s2)"
    and s3: "cache_step (cfg_cache_db_path cfg) (\<lambda>c. (Inr (), c)) s2 = (Inr (), s3)"
    and s4: "cache_step (cfg_cache_db_path cfg) (\<lambda>c. (Inr (), Cached (Some r))) s3 = (Inr (), s')"
    by (auto simp: store_desired_def returns Let_def split: json.splits if_splits)
  from j r show "pl_payload r = payload \<and> dict_get_value payload ''revision'' = JStr (pl_revision r) \<and> pl_revision r \<noteq> []" by simp
  from s4 show "ns_caches s' (cfg_cache_db_path cfg) = Cached (Some r)" by (simp add: cache_step_returns)
  have "cached_row (ns_caches s2 p) = cached_row (ns_caches s1 p)" for p
    using same_rows_open s2 by (metis same_rows_def snd_conv)
  moreover have "ns_caches s1 = ns_caches s" using s1 in_node_caches by (metis snd_conv)
  ultimately show "p \<noteq> cfg_cache_db_path cfg \<Longrightarrow> cached_row (ns_caches s' p) = cached_row (ns_caches s p)"
    using s3 s4 by (auto simp: cache_step_returns)
qed

definition failing_keeps :: "'a nop \<Rightarrow> bool" where
  "failing_keeps m \<longleftrightarrow> (\<forall>s e s' p. m s = (Inl e, s') \<longrightarrow> cached_row (ns_caches s' p) = cached_row (ns_caches s p))"

lemma failing_same: "same_rows m \<Longrightarrow> failing_keeps m"
  unfolding failing_keeps_def same_rows_def by (metis snd_conv)

lemma failing_bnd:
  assumes "same_rows m" and "\<And>x. failing_keeps (f x)"
  shows "failing_keeps (bnd m f)"
  unfolding failing_keeps_def
proof (intro allI impI)
  fix s e s' p
  assume run: "bnd m f s = (Inl e, s')"
  obtain r t where m: "m s = (r, t)" by (cases "m s")
  with assms(1) have "cached_row (ns_caches t p) = cached_row (ns_caches s p)" by (metis same_rows_def snd_conv)
  with run m assms(2) show "cached_row (ns_caches s' p) = cached_row (ns_caches s p)"
    by (cases r) (auto simp: bnd_def failing_keeps_def)
qed

lemma failing_store_row: "failing_keeps (bnd (cache_step path (\<lambda>c. (Inr (), g c))) (\<lambda>_. ret row))"
  by (auto simp: failing_keeps_def bnd_def cache_step_def ret_def Let_def split: if_splits)

lemma store_desired_fails: "failing_keeps (store_desired cfg payload)"
  unfolding store_desired_def Let_def
  by (auto split: json.splits intro!: failing_store_row failing_bnd same_rows_step same_rows_open same_rows_basic
      intro: failing_same)

end
