(* ===== verification/Apply.thy ===== *)
theory Apply
  imports Cache Kioubit
begin

text \<open>
  \<open>services/node_apply.py\<close> and \<open>services/reload.py\<close>: a node turns its cached desired state into files
  and makes the daemons read them. What the operating system and packages decide is the
  argument \<open>apply_env\<close>.
\<close>

section \<open>What is decided elsewhere\<close>

text \<open>
  \<open>ae_str\<close> is \<open>str(x)\<close> of floats, lists and dicts; \<open>ae_list_dir\<close> the names in a directory, if it
  is one; \<open>ae_tmp_name\<close> the name \<open>mkstemp\<close> tries; \<open>ae_tmp_denied\<close> tells the targets whose directory is
  read-only and \<open>ae_busy\<close> those that are mount points; \<open>ae_chunk\<close> is how much one \<open>os.write\<close>
  takes; \<open>ae_resolve\<close> is \<open>Path.resolve\<close>; \<open>ae_run\<close> what became of a command: it failed with an error that
  \<open>default_runner\<close> catches, it printed a text, or what it printed is no text in the encoding of the
  locale; \<open>ae_unified_diff\<close> the text of
  \<open>difflib\<close>. \<open>ae_bird_conf\<close> renders \<open>bird.conf.j2\<close> from its context and \<open>ae_extra_conf\<close> is the text of
  \<open>bird_extra.conf.j2\<close>: the comments of both templates are outside the characters of the model.
\<close>

datatype command_reply = Failed string | Printed string | Undecodable

record apply_env =
  ae_toml :: toml_env
  ae_str :: "json \<Rightarrow> string"
  ae_list_dir :: "(string \<Rightarrow> fs_file option) \<Rightarrow> string \<Rightarrow> string list option"
  ae_tmp_name :: "nat \<Rightarrow> string \<Rightarrow> string"
  ae_tmp_denied :: "string \<Rightarrow> bool"
  ae_busy :: "string \<Rightarrow> bool"
  ae_chunk :: "nat \<Rightarrow> nat \<Rightarrow> nat"
  ae_resolve :: "string \<Rightarrow> string option"
  ae_run :: "nat \<Rightarrow> string list \<Rightarrow> command_reply"
  ae_unified_diff :: "string \<Rightarrow> string \<Rightarrow> string \<Rightarrow> string"
  ae_bird_conf :: "(string \<times> string) list \<Rightarrow> string"
  ae_extra_conf :: string

section \<open>Reloading\<close>

definition NETWORKCTL_RELOAD :: "string list" where "NETWORKCTL_RELOAD = [''networkctl'', ''reload'']"
definition BIRDC_CONFIGURE :: "string list" where "BIRDC_CONFIGURE = [''birdc'', ''configure'']"
definition RELOAD_POLICY_NEVER :: string where "RELOAD_POLICY_NEVER = ''never''"

record ReloadAction =
  ra_cmd :: "string list"
  ra_ok :: bool
  ra_output :: "string option"
  ra_error :: "string option"

fun join_with :: "string \<Rightarrow> string list \<Rightarrow> string" where
  "join_with sep [] = []"
| "join_with sep [p] = p"
| "join_with sep (p # ps) = p @ sep @ join_with sep ps"

text \<open>\<open>check_output\<close> decodes what the command printed; the \<open>UnicodeDecodeError\<close> is a \<open>ValueError\<close> and not caught.\<close>

definition UNDECODABLE :: exn where "UNDECODABLE = ValueError ''output cannot be decoded''"

definition default_runner :: "apply_env \<Rightarrow> string list \<Rightarrow> ReloadAction wop" where
  "default_runner E cmd = (\<lambda>w. (case ae_run E (tick w) cmd of
       Failed err \<Rightarrow> Inr \<lparr> ra_cmd = cmd, ra_ok = False, ra_output = None, ra_error = Some err \<rparr>
     | Printed out \<Rightarrow> Inr \<lparr> ra_cmd = cmd, ra_ok = True, ra_output = Some (strip out), ra_error = None \<rparr>
     | Undecodable \<Rightarrow> Inl UNDECODABLE, next_tick w))"

definition is_under :: "apply_env \<Rightarrow> string \<Rightarrow> string \<Rightarrow> bool" where
  "is_under E path directory = (case (ae_resolve E path, ae_resolve E directory) of
     (Some p, Some d) \<Rightarrow> path_parent p = d
   | _ \<Rightarrow> path_parent path = directory)"

definition bird_target :: "apply_env \<Rightarrow> string \<Rightarrow> string result" where
  "bird_target E f = (if startswith f ''/''
     then (case ae_resolve E f of None \<Rightarrow> Inl (OSError ''resolve'') | Some p \<Rightarrow> Inr p) else Inr f)"

definition plan_reloads :: "apply_env \<Rightarrow> string list \<Rightarrow> string \<Rightarrow> string \<Rightarrow> string list \<Rightarrow> string list list result" where
  "plan_reloads E touched networkd_dir bird_peers_dir bird_files =
     bindR (mapR (bird_target E) bird_files) (\<lambda>bird_targets.
     Inr ((if \<exists>p \<in> set touched. is_under E p networkd_dir then [NETWORKCTL_RELOAD] else [])
        @ (if \<exists>p \<in> set touched. is_under E p bird_peers_dir \<or> p \<in> set bird_targets then [BIRDC_CONFIGURE] else [])))"

fun run_reloads :: "apply_env \<Rightarrow> string list list \<Rightarrow> ReloadAction list wop" where
  "run_reloads E [] = ret []"
| "run_reloads E (cmd # cmds) = bnd (default_runner E cmd) (\<lambda>a. bnd (run_reloads E cmds) (\<lambda>as. ret (a # as)))"

definition reload_warnings :: "ReloadAction list \<Rightarrow> string list" where
  "reload_warnings actions = map (\<lambda>a. join_with '' '' (ra_cmd a) @ '' failed: '' @ (case ra_error a of None \<Rightarrow> ''None'' | Some e \<Rightarrow> e)) (filter (\<lambda>a. \<not> ra_ok a) actions)"

section \<open>Paths\<close>

record ResolvedPaths =
  rp_bird_peers_dir :: string
  rp_babel_conf_path :: string
  rp_networkd_dir :: string
  rp_nm_dir :: string
  rp_bird_conf_path :: string
  rp_bird_extra_conf_path :: string
  rp_config_path :: string

record ApplyDiff =
  ad_path :: string
  ad_action :: string
  ad_diff :: string

record ApplyResult =
  ap_revision :: string
  ap_diffs :: "ApplyDiff list"
  ap_written :: "string list"
  ap_deleted :: "string list"
  ap_dry_run :: bool
  ap_warnings :: "string list"
  ap_reloads :: "ReloadAction list"

definition DEFAULT_BIRD_CONF_PATH :: string where "DEFAULT_BIRD_CONF_PATH = ''/etc/bird.conf''"
definition DEFAULT_BIRD_PEERS_DIR :: string where "DEFAULT_BIRD_PEERS_DIR = ''/etc/bird/peers''"
definition DEFAULT_BIRD_BABEL_CONF_PATH :: string where "DEFAULT_BIRD_BABEL_CONF_PATH = ''/etc/bird/babel.conf''"
definition DEFAULT_BIRD_EXTRA_CONF_PATH :: string where "DEFAULT_BIRD_EXTRA_CONF_PATH = ''/etc/bird/extra.conf''"
definition DEFAULT_NETWORKD_DIR :: string where "DEFAULT_NETWORKD_DIR = ''/etc/systemd/network''"
definition DEFAULT_NM_SYSTEM_CONNECTIONS_DIR :: string where
  "DEFAULT_NM_SYSTEM_CONNECTIONS_DIR = ''/etc/NetworkManager/system-connections''"

definition resolve_paths :: "AppConfig option \<Rightarrow> string \<Rightarrow> ResolvedPaths" where
  "resolve_paths app_config config_path = (case app_config of
     None \<Rightarrow> \<lparr> rp_bird_peers_dir = DEFAULT_BIRD_PEERS_DIR, rp_babel_conf_path = DEFAULT_BIRD_BABEL_CONF_PATH,
       rp_networkd_dir = DEFAULT_NETWORKD_DIR, rp_nm_dir = DEFAULT_NM_SYSTEM_CONNECTIONS_DIR,
       rp_bird_conf_path = DEFAULT_BIRD_CONF_PATH, rp_bird_extra_conf_path = DEFAULT_BIRD_EXTRA_CONF_PATH,
       rp_config_path = config_path \<rparr>
   | Some c \<Rightarrow> \<lparr> rp_bird_peers_dir = path_str (ac_bird_peers_dir c), rp_babel_conf_path = path_str (ac_bird_babel_conf_path c),
       rp_networkd_dir = path_str (ac_networkd_dir c), rp_nm_dir = path_str (ac_nm_system_connections_dir c),
       rp_bird_conf_path = path_str (ac_bird_conf_path c), rp_bird_extra_conf_path = path_str (ac_bird_extra_conf_path c),
       rp_config_path = config_path \<rparr>)"

section \<open>Writing a file\<close>

text \<open>\<open>path.exists()\<close>, which raises what is not about a missing file.\<close>

definition file_exists :: "string \<Rightarrow> bool wop" where
  "file_exists p = (\<lambda>w. if io_fault (env w) (tick w) then (Inl (OSError ''io''), next_tick w)
     else (Inr (files w p \<noteq> None), next_tick w))"

text \<open>
  \<open>encode("utf-8")\<close> of the characters of the model. A file has a text as its content; of a write that stops inside a
  character the file has the characters before it.
\<close>

definition utf8_char :: "char \<Rightarrow> string" where
  "utf8_char c = (let n = (of_char c :: nat) in
     if n < 128 then [c] else [char_of (192 + n div 64), char_of (128 + n mod 64)])"

definition utf8 :: "string \<Rightarrow> string" where
  "utf8 s = concat (map utf8_char s)"

fun whole_chars :: "string \<Rightarrow> string" where
  "whole_chars [] = []"
| "whole_chars [b] = (if (of_char b :: nat) < 128 then [b] else [])"
| "whole_chars (b # c # bs) = (if (of_char b :: nat) < 128 then b # whole_chars (c # bs)
     else char_of (64 * (of_char b - 192) + (of_char c - 128) :: nat) # whole_chars bs)"

text \<open>The loop over \<open>os.write\<close>, which takes at least one and at most all of the bytes.\<close>

definition chunk :: "apply_env \<Rightarrow> nat \<Rightarrow> nat \<Rightarrow> nat" where
  "chunk E t n = max 1 (min n (ae_chunk E t n))"

definition set_text :: "string \<Rightarrow> string \<Rightarrow> world \<Rightarrow> world" where
  "set_text path s = update_file path (\<lambda>f. f\<lparr> f_content := s \<rparr>)"

function write_loop :: "apply_env \<Rightarrow> string \<Rightarrow> string \<Rightarrow> nat \<Rightarrow> world \<Rightarrow> unit result \<times> world" where
  "write_loop E path data written w =
     (if length data \<le> written then (Inr (), w)
      else if io_fault (env w) (tick w) then (Inl (OSError ''io''), next_tick w)
      else let n = written + chunk E (tick w) (length data - written) in
        write_loop E path data n (set_text path (whole_chars (take n data)) (next_tick w)))"
  by pat_completeness auto

termination write_loop
  by (relation "measure (\<lambda>(E, path, data, written, w). length data - written)") (auto simp: chunk_def)

definition open_truncated :: "string \<Rightarrow> unit wop" where
  "open_truncated path = (\<lambda>w. if io_fault (env w) (tick w) \<or> files w path = None then (Inl (OSError ''io''), next_tick w)
     else (Inr (), update_file path (\<lambda>f. f\<lparr> f_content := [] \<rparr>) (next_tick w)))"

definition write_in_place :: "apply_env \<Rightarrow> string \<Rightarrow> string \<Rightarrow> FilePolicy \<Rightarrow> unit wop" where
  "write_in_place E path content policy =
     bnd (open_truncated path) (\<lambda>_.
     bnd (write_loop E path (utf8 content) 0) (\<lambda>_.
     bnd (io_step (\<lambda>w. w)) (\<lambda>_.
     apply_policy path policy)))"

text \<open>
  \<open>mkstemp\<close>: a new file, \<open>None\<close> when the directory is read-only. A path with a null byte is refused by
  \<open>ValueError\<close> before the system is asked.
\<close>

definition NULL_BYTE :: exn where "NULL_BYTE = ValueError ''embedded null byte''"

definition make_parent :: "string \<Rightarrow> unit wop" where
  "make_parent path = (if CHR 0x00 \<in> set (path_parent path) then raise NULL_BYTE else mkdir_parent path)"

definition mkstemp :: "apply_env \<Rightarrow> string \<Rightarrow> string option wop" where
  "mkstemp E path = (\<lambda>w. let tmp = ae_tmp_name E (tick w) path in
     if CHR 0x00 \<in> set path then (Inl NULL_BYTE, next_tick w)
     else if ae_tmp_denied E path then (Inr None, next_tick w)
     else if io_fault (env w) (tick w) \<or> files w tmp \<noteq> None then (Inl (OSError ''io''), next_tick w)
     else (Inr (Some tmp), (next_tick w)\<lparr> files := (files w)(tmp := Some \<lparr> f_content = [], f_mode = 6 * 64, f_group = None \<rparr>) \<rparr>))"

text \<open>\<open>os.replace\<close>: \<open>False\<close> when the target is a mount point.\<close>

definition os_replace :: "apply_env \<Rightarrow> string \<Rightarrow> string \<Rightarrow> bool wop" where
  "os_replace E tmp path = (\<lambda>w. if ae_busy E path then (Inr False, next_tick w)
     else if io_fault (env w) (tick w) then (Inl (OSError ''io''), next_tick w)
     else (Inr True, (next_tick w)\<lparr> files := ((files w)(tmp := None))(path := files w tmp) \<rparr>))"

definition atomic_write :: "apply_env \<Rightarrow> string \<Rightarrow> string \<Rightarrow> FilePolicy \<Rightarrow> unit wop" where
  "atomic_write E path content policy =
     bnd (make_parent path) (\<lambda>_.
     bnd (mkstemp E path) (\<lambda>t. case t of
       None \<Rightarrow> bnd (file_exists path) (\<lambda>there.
         if \<not> there then raise (OSError ''read-only'') else write_in_place E path content policy)
     | Some tmp \<Rightarrow> try_except
         (bnd (put_text tmp content) (\<lambda>_.
          bnd (apply_policy tmp policy) (\<lambda>_.
          bnd (os_replace E tmp path) (\<lambda>replaced.
          if replaced then ret ()
          else bnd (file_exists path) (\<lambda>there.
            if \<not> there then raise (OSError ''busy'')
            else bnd (unlink tmp) (\<lambda>_. write_in_place E path content policy))))))
         (\<lambda>e. bnd (unlink tmp) (\<lambda>_. raise e))))"

text \<open>\<open>read_text\<close> reads every way to end a line as a line feed; writing keeps the characters.\<close>

fun universal_newlines :: "string \<Rightarrow> string" where
  "universal_newlines [] = []"
| "universal_newlines [c] = [if c = CHR 0x0D then CHR 0x0A else c]"
| "universal_newlines (c # d # s) = (if c = CHR 0x0D then CHR 0x0A # universal_newlines (if d = CHR 0x0A then s else d # s)
     else c # universal_newlines (d # s))"

definition read_text :: "string \<Rightarrow> string wop" where
  "read_text path = bnd (read_file path) (\<lambda>c. case c of None \<Rightarrow> raise (OSError ''missing'') | Some t \<Rightarrow> ret (universal_newlines t))"

definition diff_file :: "apply_env \<Rightarrow> string \<Rightarrow> string \<Rightarrow> ApplyDiff wop" where
  "diff_file E path new_content = bnd (file_exists path) (\<lambda>there.
     if \<not> there then ret \<lparr> ad_path = path, ad_action = ''create'', ad_diff = new_content \<rparr>
     else bnd (read_text path) (\<lambda>old.
       ret (if old = new_content then \<lparr> ad_path = path, ad_action = ''unchanged'', ad_diff = [] \<rparr>
            else \<lparr> ad_path = path, ad_action = ''update'', ad_diff = ae_unified_diff E path old new_content \<rparr>)))"

section \<open>Rendering\<close>

text \<open>\<open>peer[key]\<close>, \<open>str(x)\<close> and \<open>int(x)\<close> of values of a payload.\<close>

fun item :: "json \<Rightarrow> string \<Rightarrow> json result" where
  "item (JObj d) k = subscript d k"
| "item _ k = Inl (TypeError ''subscript'')"

fun get_item :: "json \<Rightarrow> string \<Rightarrow> json result" where
  "get_item (JObj d) k = Inr (dict_get_value d k)"
| "get_item _ k = Inl (AttributeError ''get'')"

fun str_of :: "apply_env \<Rightarrow> json \<Rightarrow> string" where
  "str_of E JNull = ''None''"
| "str_of E (JBool b) = (if b then ''True'' else ''False'')"
| "str_of E (JInt i) = show_int i"
| "str_of E (JStr s) = s"
| "str_of E j = ae_str E j"

fun int_of :: "apply_env \<Rightarrow> json \<Rightarrow> int result" where
  "int_of E (JBool b) = Inr (if b then 1 else 0)"
| "int_of E (JInt i) = Inr i"
| "int_of E (JFloat s) = int_of_float (toml_env.float_text (ae_toml E) s)"
| "int_of E (JStr s) = int_of_str s"
| "int_of E _ = Inl (TypeError ''int'')"

text \<open>\<open>x or ''\<close> printed by a template, and a value that a renderer tests for emptiness first.\<close>

definition or_empty :: "apply_env \<Rightarrow> json \<Rightarrow> string" where
  "or_empty E j = (if json_truthy j then str_of E j else [])"

definition items_of :: "json \<Rightarrow> json list result" where
  "items_of j = bindR (json_list j) (\<lambda>l. case l of JArr xs \<Rightarrow> Inr xs | _ \<Rightarrow> Inr [])"

type_synonym entry = "string \<times> string \<times> FilePolicy"

definition netdev_entry :: "apply_env \<Rightarrow> ResolvedPaths \<Rightarrow> json \<Rightarrow> json \<Rightarrow> entry result" where
  "netdev_entry E paths peer ifname =
     bindR (item peer ''wg_private_key'') (\<lambda>key.
     bindR (item peer ''listen_port'') (\<lambda>port.
     bindR (int_of E port) (\<lambda>listen_port.
     bindR (item peer ''peer_public_key'') (\<lambda>pub.
     bindR (get_item peer ''endpoint'') (\<lambda>endpoint.
     bindR (item peer ''allowed_ips'') (\<lambda>ips.
     bindR (items_of ips) (\<lambda>allowed.
     Inr (path_div (rp_networkd_dir paths) (str_of E ifname @ ''.netdev''),
          render_networkd_netdev (str_of E ifname) (str_of E key) listen_port (str_of E pub) (or_empty E endpoint)
            (map (str_of E) allowed), NETDEV))))))))"

definition render_bgp_peer_files :: "apply_env \<Rightarrow> ResolvedPaths \<Rightarrow> json \<Rightarrow> entry list result" where
  "render_bgp_peer_files E paths peer =
     bindR (item peer ''ifname'') (\<lambda>ifname.
     bindR (item peer ''peer_lla'') (\<lambda>peer_lla.
     bindR (item peer ''peer_asn'') (\<lambda>asn.
     bindR (int_of E asn) (\<lambda>peer_asn.
     bindR (render_bird_bgp_peer_conf (str_of E ifname) (or_empty E peer_lla) peer_asn) (\<lambda>bird.
     bindR (netdev_entry E paths peer ifname) (\<lambda>netdev.
     bindR (item peer ''local_lla'') (\<lambda>local_lla.
     Inr [(path_div (rp_bird_peers_dir paths) (str_of E ifname @ ''.conf''), bird, BIRD), netdev,
          (path_div (rp_networkd_dir paths) (str_of E ifname @ ''.network''),
           render_networkd_network (str_of E ifname) (str_of E local_lla) (str_of E peer_lla), NETWORK)])))))))"

definition render_ibgp_peer_files :: "apply_env \<Rightarrow> ResolvedPaths \<Rightarrow> json \<Rightarrow> entry list result" where
  "render_ibgp_peer_files E paths peer =
     bindR (item peer ''name'') (\<lambda>name.
     bindR (item peer ''ifname'') (\<lambda>ifname.
     bindR (get_item peer ''peer_ip'') (\<lambda>peer_ip.
     bindR (if json_truthy peer_ip
            then bindR (render_bird_ibgp_peer_conf (str_of E name) (str_of E ifname) (or_empty E peer_ip)) (\<lambda>bird.
                   Inr [(path_div (rp_bird_peers_dir paths) (''ibgp_'' @ str_of E name @ ''.conf''), bird, BIRD)])
            else Inr []) (\<lambda>out.
     bindR (item peer ''has_wg'') (\<lambda>has_wg.
     if \<not> json_truthy has_wg then Inr out
     else bindR (netdev_entry E paths peer ifname) (\<lambda>netdev.
       bindR (item peer ''local_lla'') (\<lambda>local_lla.
       bindR (get_item peer ''peer_lla'') (\<lambda>peer_lla.
       Inr (out @ [netdev, (path_div (rp_networkd_dir paths) (str_of E ifname @ ''.network''),
         render_networkd_network (str_of E ifname) (str_of E local_lla) (or_empty E peer_lla), NETWORK)])))))))))"

definition babel_of :: "apply_env \<Rightarrow> json \<Rightarrow> (string \<times> int \<times> string) list result" where
  "babel_of E peer = bindR (item peer ''has_wg'') (\<lambda>has_wg.
     if \<not> json_truthy has_wg then Inr []
     else bindR (item peer ''ifname'') (\<lambda>ifname.
       bindR (item peer ''babel_rxcost'') (\<lambda>cost.
       bindR (int_of E cost) (\<lambda>rxcost.
       bindR (item peer ''babel_type'') (\<lambda>btype.
       Inr [(str_of E ifname, rxcost, str_of E btype)])))))"

definition render_babel :: "apply_env \<Rightarrow> ResolvedPaths \<Rightarrow> json list \<Rightarrow> entry result" where
  "render_babel E paths peers = bindR (mapR (babel_of E) peers) (\<lambda>interfaces.
     Inr (rp_babel_conf_path paths, render_babel_conf (concat interfaces), BIRD))"

definition render_dummy_netdev :: string where
  "render_dummy_netdev = concat (map line [''[NetDev]'', ''Name=dn42-dummy'', ''Kind=dummy''])"

definition render_dummy_network :: "string \<Rightarrow> string" where
  "render_dummy_network own_ipv6 = concat (map line
     [''[Match]'', ''Name=dn42-dummy'', [], ''[Network]'', ''DHCP=no'', ''IPv6AcceptRA=false'', [], ''[Address]'',
      ''Address='' @ own_ipv6 @ ''/128''])"

definition render_bird_main_conf :: "apply_env \<Rightarrow> AppConfig \<Rightarrow> ResolvedPaths \<Rightarrow> string" where
  "render_bird_main_conf E c paths = ae_bird_conf E
     [(''own_asn'', show_int (ac_own_asn c)), (''router_id'', ac_router_id c), (''own_ipv6'', ac_own_ipv6 c),
      (''ownnet_v6'', ac_ownnet_v6 c), (''ownnetset_v6'', ac_ownnetset_v6 c),
      (''bird_babel_conf_path'', rp_babel_conf_path paths), (''bird_roa_v6_conf_path'', path_str (ac_bird_roa_v6_conf_path c)),
      (''bird_peers_include'', path_div (rp_bird_peers_dir paths) ''*''), (''bird_extra_conf_path'', rp_bird_extra_conf_path paths)]"

definition DUMMY_IFNAME :: string where "DUMMY_IFNAME = ''dn42-dummy''"

text \<open>
  \<open>updates\<close> of \<open>_render_node_config_files\<close>: the addresses that were pushed, and the configuration with
  them.
\<close>

definition pushed :: "apply_env \<Rightarrow> json \<Rightarrow> string \<Rightarrow> string option result" where
  "pushed E block key = bindR (get_item block key) (\<lambda>v. Inr (if json_truthy v then Some (str_of E v) else None))"

definition merge_config :: "string option \<Rightarrow> string option \<Rightarrow> AppConfig \<Rightarrow> AppConfig" where
  "merge_config ip rid c = c\<lparr> ac_own_ipv6 := (case ip of None \<Rightarrow> ac_own_ipv6 c | Some v \<Rightarrow> v),
       ac_router_id := (case rid of None \<Rightarrow> ac_router_id c | Some v \<Rightarrow> v) \<rparr>"

definition node_entries :: "apply_env \<Rightarrow> ResolvedPaths \<Rightarrow> AppConfig \<Rightarrow> AppConfig \<Rightarrow> bool \<Rightarrow> entry list" where
  "node_entries E paths c merged there =
     (if merged \<noteq> c then [(rp_config_path paths, dumps_config (ae_toml E) merged, PRIVATE)] else [])
     @ [(rp_bird_conf_path paths, render_bird_main_conf E merged paths, BIRD)]
     @ (if \<not> there then [(rp_bird_extra_conf_path paths, ae_extra_conf E, BIRD)] else [])
     @ (if ac_dummy_backend merged \<noteq> ''networkd'' then []
        else [(path_div (rp_networkd_dir paths) (DUMMY_IFNAME @ ''.netdev''), render_dummy_netdev, NETDEV),
              (path_div (rp_networkd_dir paths) (DUMMY_IFNAME @ ''.network''),
               render_dummy_network (ac_own_ipv6 merged), NETWORK)])"

definition render_node_config_files :: "apply_env \<Rightarrow> json \<Rightarrow> ResolvedPaths \<Rightarrow> AppConfig option \<Rightarrow> (entry list \<times> string list) wop" where
  "render_node_config_files E block paths app_config = (case app_config of
     None \<Rightarrow> ret ([], [''addresses pushed without config.toml, skipped''])
   | Some c \<Rightarrow>
       bnd (lift_result (pushed E block ''own_ipv6'')) (\<lambda>ip.
       bnd (lift_result (pushed E block ''router_id'')) (\<lambda>rid.
       if ip = None \<and> rid = None then ret ([], [])
       else let merged = merge_config ip rid c in
         bnd (file_exists (rp_bird_extra_conf_path paths)) (\<lambda>there.
         ret (node_entries E paths c merged there,
              if ac_dummy_backend merged \<noteq> ''networkd'' then [''dn42-dummy is managed by NetworkManager''] else [])))))"

section \<open>Files that are no longer wanted\<close>

definition managed_paths :: "ResolvedPaths \<Rightarrow> (string \<times> (string \<times> string) list) list" where
  "managed_paths paths =
     [(rp_bird_peers_dir paths, [(''dn42_'', ''.conf''), (''ibgp_'', ''.conf'')]),
      (rp_networkd_dir paths, [(''dn42_'', ''.netdev''), (''dn42_'', ''.network''), (''wg_'', ''.netdev''), (''wg_'', ''.network'')]),
      (rp_nm_dir paths, [(''dn42_'', ''.nmconnection''), (''wg_'', ''.nmconnection'')])]"

definition is_managed :: "string \<Rightarrow> (string \<times> string) list \<Rightarrow> bool" where
  "is_managed name patterns = (\<exists>(prefix, suffix) \<in> set patterns. startswith name prefix \<and> endswith name suffix)"

text \<open>One directory: a missing one is skipped, any other failure is raised.\<close>

definition stale_in :: "apply_env \<Rightarrow> string set \<Rightarrow> string \<times> (string \<times> string) list \<Rightarrow> string list wop" where
  "stale_in E expected dp = (case dp of (directory, patterns) \<Rightarrow> (\<lambda>w.
     if io_fault (env w) (tick w) then (Inl (OSError ''io''), next_tick w)
     else (Inr (case ae_list_dir E (files w) directory of
         None \<Rightarrow> []
       | Some names \<Rightarrow> filter (\<lambda>p. p \<notin> expected)
           (map (path_div directory) (filter (\<lambda>n. files w (path_div directory n) \<noteq> None \<and> is_managed n patterns) names))),
       next_tick w)))"

fun collect_over :: "('a \<Rightarrow> 'b list wop) \<Rightarrow> 'a list \<Rightarrow> 'b list wop" where
  "collect_over f [] = ret []"
| "collect_over f (x # xs) = bnd (f x) (\<lambda>ys. bnd (collect_over f xs) (\<lambda>zs. ret (ys @ zs)))"

definition collect_stale :: "apply_env \<Rightarrow> string set \<Rightarrow> ResolvedPaths \<Rightarrow> string list wop" where
  "collect_stale E expected paths = collect_over (stale_in E expected) (managed_paths paths)"

text \<open>\<open>unlink\<close> of a file that has gone in the meantime is no error.\<close>

definition delete_stale :: "string \<Rightarrow> string list wop" where
  "delete_stale p = (\<lambda>w. if files w p = None then (Inr [], next_tick w)
     else if io_fault (env w) (tick w) then (Inl (OSError ''io''), next_tick w)
     else (Inr [p], (next_tick w)\<lparr> files := (files w)(p := None) \<rparr>))"

definition ensure_policy :: "string \<Rightarrow> FilePolicy \<Rightarrow> unit wop" where
  "ensure_policy path policy = bnd (file_exists path) (\<lambda>there. if there then apply_policy path policy else ret ())"

section \<open>Apply\<close>

text \<open>The files of a payload, from the peers, the babel interfaces and the addresses of the node.\<close>

definition peer_entries :: "apply_env \<Rightarrow> ResolvedPaths \<Rightarrow> jdict \<Rightarrow> entry list result" where
  "peer_entries E paths payload =
     bindR (items_of (get_or payload ''bgp_peers'' (JArr []))) (\<lambda>bgp.
     bindR (mapR (render_bgp_peer_files E paths) bgp) (\<lambda>bgp_files.
     bindR (items_of (get_or payload ''ibgp_peers'' (JArr []))) (\<lambda>ibgp.
     bindR (mapR (render_ibgp_peer_files E paths) ibgp) (\<lambda>ibgp_files.
     bindR (render_babel E paths ibgp) (\<lambda>babel.
     Inr (concat bgp_files @ concat ibgp_files @ [babel]))))))"

definition plan_files :: "apply_env \<Rightarrow> string \<Rightarrow> jdict \<Rightarrow> (ResolvedPaths \<times> entry list \<times> string list) wop" where
  "plan_files E config_path payload =
     bnd (try_except (bnd (load_config (ae_toml E) config_path) (\<lambda>c. ret (Some c)))
            (\<lambda>e. case e of ConfigError _ \<Rightarrow> ret None | _ \<Rightarrow> raise e)) (\<lambda>app_config.
     let paths = resolve_paths app_config config_path in
     bnd (lift_result (peer_entries E paths payload)) (\<lambda>entries.
     let block = dict_get_value payload ''node'' in
     bnd (if json_truthy block then render_node_config_files E block paths app_config else ret ([], [])) (\<lambda>node.
     ret (paths, entries @ fst node, snd node))))"

definition changed_paths :: "ApplyDiff list \<Rightarrow> string list" where
  "changed_paths all_diffs = map ad_path (filter (\<lambda>d. ad_action d = ''create'' \<or> ad_action d = ''update'') all_diffs)"

definition reload_step :: "apply_env \<Rightarrow> NodeConfig \<Rightarrow> bool \<Rightarrow> ResolvedPaths \<Rightarrow> string list \<Rightarrow> ReloadAction list wop" where
  "reload_step E cfg no_reload paths touched =
     (if no_reload \<or> cfg_reload_policy cfg = RELOAD_POLICY_NEVER then ret []
      else bnd (lift_result (plan_reloads E touched (rp_networkd_dir paths) (rp_bird_peers_dir paths)
                [rp_babel_conf_path paths, rp_bird_conf_path paths, rp_bird_extra_conf_path paths])) (run_reloads E))"

text \<open>The effects of a run that is not dry: what was deleted and the reloads.\<close>

definition write_entry :: "apply_env \<Rightarrow> entry \<Rightarrow> unit wop" where
  "write_entry E e = (case e of (path, content, policy) \<Rightarrow> atomic_write E path content policy)"

definition carry_out ::
  "apply_env \<Rightarrow> NodeConfig \<Rightarrow> bool \<Rightarrow> ResolvedPaths \<Rightarrow> entry list \<Rightarrow> string list \<Rightarrow> ApplyDiff list \<Rightarrow> (string list \<times> ReloadAction list) wop" where
  "carry_out E cfg no_reload paths entries stale_files all_diffs =
     bnd (for_each (write_entry E) entries) (\<lambda>_.
     bnd (ensure_policy (rp_bird_extra_conf_path paths) BIRD) (\<lambda>_.
     bnd (collect_over delete_stale stale_files) (\<lambda>deleted.
     bnd (reload_step E cfg no_reload paths (sort (remdups (changed_paths all_diffs @ deleted)))) (\<lambda>reloads.
     ret (deleted, reloads)))))"

definition stale_diff :: "string \<Rightarrow> ApplyDiff" where
  "stale_diff p = \<lparr> ad_path = p, ad_action = ''delete'', ad_diff = [] \<rparr>"

definition apply_cached :: "apply_env \<Rightarrow> NodeConfig \<Rightarrow> string \<Rightarrow> bool \<Rightarrow> bool \<Rightarrow> PullResult \<Rightarrow> ApplyResult wop" where
  "apply_cached E cfg config_path dry_run no_reload cached =
     bnd (plan_files E config_path (pl_payload cached)) (\<lambda>(paths, entries, warnings).
     bnd (collect_stale E (fst ` set entries) paths) (\<lambda>stale_files.
     bnd (collect_over (\<lambda>(path, content, policy). bnd (diff_file E path content) (\<lambda>d. ret [d])) entries) (\<lambda>file_diffs.
     let all_diffs = file_diffs @ map stale_diff stale_files in
     bnd (if dry_run then ret ([], []) else carry_out E cfg no_reload paths entries stale_files all_diffs) (\<lambda>(deleted, reloads).
     ret \<lparr> ap_revision = pl_revision cached, ap_diffs = all_diffs, ap_written = (if dry_run then [] else map fst entries),
           ap_deleted = deleted, ap_dry_run = dry_run, ap_warnings = warnings @ reload_warnings reloads,
           ap_reloads = reloads \<rparr>))))"

definition apply_state :: "apply_env \<Rightarrow> NodeConfig \<Rightarrow> string \<Rightarrow> bool \<Rightarrow> bool \<Rightarrow> ApplyResult nop" where
  "apply_state E cfg config_path dry_run no_reload = bnd (read_cache cfg) (\<lambda>cached. case cached of
     None \<Rightarrow> raise (Dn42CtlError ''cache is empty'')
   | Some c \<Rightarrow> in_node (apply_cached E cfg config_path dry_run no_reload c))"

definition count_action :: "string \<Rightarrow> ApplyResult \<Rightarrow> nat" where
  "count_action a r = length (filter (\<lambda>d. ad_action d = a) (ap_diffs r))"

definition apply_summary :: "ApplyResult \<Rightarrow> string" where
  "apply_summary r = join_with '' ''
     ([''revision='' @ ap_revision r @ (if ap_dry_run r then '' (dry-run)'' else []) @ '': create='' @ show_nat (count_action ''create'' r)
       @ '' update='' @ show_nat (count_action ''update'' r) @ '' unchanged='' @ show_nat (count_action ''unchanged'' r)
       @ '' delete='' @ show_nat (count_action ''delete'' r)]
      @ (if ap_reloads r \<noteq> [] then [''reload='' @ join_with '','' (map (\<lambda>a. join_with '' '' (ra_cmd a) @ (if ra_ok a then [] else ''(failed)'')) (ap_reloads r))]
         else [])
      @ (if ap_warnings r \<noteq> [] then [''warnings='' @ show_nat (length (ap_warnings r))] else []))"

definition diff_lines :: "ApplyDiff \<Rightarrow> string list" where
  "diff_lines d =
     (if ad_action d = ''unchanged'' then [''= '' @ ad_path d]
      else if ad_action d = ''create'' then [''+ '' @ ad_path d @ ''  (new file)'']
      else if ad_action d = ''delete'' then [''- '' @ ad_path d @ ''  (stale, to be deleted)'']
      else [''~ '' @ ad_path d, ad_diff d])"

definition apply_diff_text :: "ApplyResult \<Rightarrow> string" where
  "apply_diff_text r = join_with [CHR 0x0A] (concat (map diff_lines (ap_diffs r)) @ [''---'', apply_summary r])"

end
