(* ===== verification/Apply_Effects.thy ===== *)
theory Apply_Effects
  imports Apply
begin

text \<open>
  What \<open>apply\<close> does to the files of a node: which of its steps only read, what a write leaves
  behind, and when a run changes nothing.
\<close>

section \<open>Steps that only read\<close>

definition looks :: "'a wop \<Rightarrow> bool" where
  "looks m \<longleftrightarrow> (\<forall>w. files (snd (m w)) = files w \<and> env (snd (m w)) = env w)"

named_theorems looking \<open>operations that leave the files alone\<close>

lemma looksD: "looks m \<Longrightarrow> m w = (r, w') \<Longrightarrow> files w' = files w \<and> env w' = env w"
  unfolding looks_def by (metis snd_conv)

lemma looks_basic [looking]: "looks (ret x)" "looks (raise e)" "looks (lift_result r)"
  by (simp_all add: looks_def ret_def raise_def lift_result_def)

lemma looks_bnd [looking]:
  assumes "looks m" and "\<And>x. looks (f x)"
  shows "looks (bnd m f)"
  unfolding looks_def
proof
  fix w
  obtain r w1 where m: "m w = (r, w1)" by (cases "m w")
  with looksD [OF assms(1) m] assms(2) show "files (snd (bnd m f w)) = files w \<and> env (snd (bnd m f w)) = env w"
    by (cases r) (simp_all add: bnd_def looks_def)
qed

lemma looks_try [looking]:
  assumes "looks m" and "\<And>e. looks (h e)"
  shows "looks (try_except m h)"
  unfolding looks_def
proof
  fix w
  obtain r w1 where m: "m w = (r, w1)" by (cases "m w")
  with looksD [OF assms(1) m] assms(2) show "files (snd (try_except m h w)) = files w \<and> env (snd (try_except m h w)) = env w"
    by (cases r) (simp_all add: try_except_def looks_def)
qed

lemma looks_steps [looking]: "looks (file_exists p)" "looks (read_file p)" "looks (default_runner E cmd)" "looks (stale_in E X dp)"
  by (simp_all add: looks_def file_exists_def read_file_def default_runner_def stale_in_def split: prod.splits)

lemma looks_load_config [looking]: "looks (load_config T p)"
  by (simp add: looks_def load_config_files)

lemma looks_collect [looking]: "(\<And>x. looks (f x)) \<Longrightarrow> looks (collect_over f xs)"
  by (induction xs) (auto intro!: looking)

lemma looks_reads [looking]: "looks (read_text p)" "looks (diff_file E p c)" "looks (collect_stale E X paths)" "looks (run_reloads E cmds)"
    "looks (reload_step E cfg nr paths touched)" "looks (render_node_config_files E b paths ac)" "looks (plan_files E cp pl)"
proof -
  show r: "looks (read_text p)" for p unfolding read_text_def by (auto intro!: looking split: option.splits)
  show "looks (diff_file E p c)" unfolding diff_file_def by (auto intro!: looking r)
  show "looks (collect_stale E X paths)" unfolding collect_stale_def by (intro looking)
  show rr: "looks (run_reloads E cmds)" for cmds by (induction cmds) (auto intro!: looking)
  show "looks (reload_step E cfg nr paths touched)" unfolding reload_step_def by (auto intro!: looking rr)
  show n: "looks (render_node_config_files E b paths ac)" for b paths ac
    unfolding render_node_config_files_def Let_def by (auto intro!: looking split: option.splits)
  show "looks (plan_files E cp pl)" unfolding plan_files_def Let_def
    by (auto intro!: looking n split: exn.splits prod.splits)
qed

section \<open>Writing\<close>

definition content_at :: "world \<Rightarrow> string \<Rightarrow> string option" where
  "content_at w p = map_option f_content (files w p)"

text \<open>Only the file at \<open>path\<close> is touched.\<close>

definition elsewhere :: "string \<Rightarrow> world \<Rightarrow> world \<Rightarrow> bool" where
  "elsewhere path w w' \<longleftrightarrow> env w' = env w \<and> (\<forall>p. p \<noteq> path \<longrightarrow> files w' p = files w p)"

lemma elsewhere_refl [simp]: "elsewhere path w w" "elsewhere path w (next_tick w)"
  by (simp_all add: elsewhere_def)

lemma elsewhere_trans: "elsewhere path u v \<Longrightarrow> elsewhere path v w \<Longrightarrow> elsewhere path u w"
  by (simp add: elsewhere_def)

lemma elsewhere_update [simp]: "elsewhere path w (update_file path f w)" "elsewhere path w (set_text path s w)"
    "elsewhere path w (put_content path s w)"
  by (simp_all add: elsewhere_def update_file_def set_text_def put_content_def split: option.splits)

lemma content_next_tick [simp]: "content_at (next_tick w) p = content_at w p"
  by (simp add: content_at_def)

lemma set_text_at [simp]:
  "content_at (set_text path s w) p = (if p = path then map_option (\<lambda>_. s) (content_at w p) else content_at w p)"
  by (auto simp: set_text_def content_at_def update_file_def split: option.splits)

lemma apply_policy_run:
  assumes "apply_policy p pol w = (r, w')"
  shows "r = Inr () \<and> elsewhere p w w' \<and> content_at w' = content_at w"
proof -
  have step: "ignore_os_error (io_step (update_file p (\<lambda>f. g f))) v = (x, v') \<Longrightarrow> (\<And>f. f_content (g f) = f_content f) \<Longrightarrow>
      x = Inr () \<and> elsewhere p v v' \<and> content_at v' = content_at v" for g v x v'
    by (auto simp: ignore_os_error_def try_except_def io_step_def ret_def elsewhere_def content_at_def update_file_def fun_eq_iff
        split: if_splits option.splits)
  obtain x v where v: "chmod_best_effort p (fp_mode pol) w = (x, v)" by fastforce
  from step [OF v [unfolded chmod_best_effort_def]] have 1: "x = Inr ()" "elsewhere p w v" "content_at v = content_at w" by simp_all
  show ?thesis
  proof (cases "fp_group pol")
    case None
    with assms v 1 show ?thesis by (auto simp: apply_policy_def bnd_def ret_def)
  next
    case (Some g)
    with assms v 1(1) have "chown_best_effort p g v = (r, w')" by (simp add: apply_policy_def bnd_def)
    from step [OF this [unfolded chown_best_effort_def]] 1 show ?thesis by (auto intro: elsewhere_trans)
  qed
qed

text \<open>A prefix of the bytes of a text has the characters of a prefix of the text.\<close>

lemma whole_ascii: "(of_char b :: nat) < 128 \<Longrightarrow> whole_chars (b # bs) = b # whole_chars bs"
  by (cases bs) simp_all

lemma two_bytes:
  fixes c :: char
  assumes "128 \<le> (of_char c :: nat)"
  shows "\<not> (of_char (char_of (192 + of_char c div 64 :: nat) :: char) :: nat) < 128"
    and "char_of (64 * (of_char (char_of (192 + of_char c div 64 :: nat) :: char) - 192) + (of_char (char_of (128 + of_char c mod 64 :: nat) :: char) - 128) :: nat) = c"
proof -
  have n: "(of_char c :: nat) < 256" by simp
  have 1: "(of_char (char_of (192 + of_char c div 64 :: nat) :: char) :: nat) = 192 + of_char c div 64"
    and 2: "(of_char (char_of (128 + of_char c mod 64 :: nat) :: char) :: nat) = 128 + of_char c mod 64"
    using n less_mult_imp_div_less [of "of_char c" 4 64] by (simp_all del: of_char_eq_iff)
  show "\<not> (of_char (char_of (192 + of_char c div 64 :: nat) :: char) :: nat) < 128" unfolding 1 by simp
  show "char_of (64 * (of_char (char_of (192 + of_char c div 64 :: nat) :: char) - 192) + (of_char (char_of (128 + of_char c mod 64 :: nat) :: char) - 128) :: nat) = c"
    unfolding 1 2 by (simp add: mult.commute)
qed

lemma whole_chars_take: "\<exists>n. whole_chars (take k (utf8 s)) = take n s \<and> (length (utf8 s) \<le> k \<longrightarrow> length s \<le> n)"
proof (induction s arbitrary: k)
  case Nil
  show ?case by (simp add: utf8_def)
next
  case (Cons c s)
  show ?case
  proof (cases "(of_char c :: nat) < 128")
    case True
    then have u: "utf8 (c # s) = c # utf8 s" by (simp add: utf8_def utf8_char_def)
    show ?thesis
    proof (cases k)
      case 0
      then show ?thesis by (auto simp: u intro: exI [of _ 0])
    next
      case (Suc j)
      from Cons [of j] obtain n where "whole_chars (take j (utf8 s)) = take n s" "length (utf8 s) \<le> j \<longrightarrow> length s \<le> n" by blast
      then show ?thesis by (intro exI [of _ "Suc n"]) (simp add: u Suc whole_ascii [OF True])
    qed
  next
    case False
    then have c: "128 \<le> (of_char c :: nat)" by simp
    let ?a = "char_of (192 + of_char c div 64 :: nat) :: char" and ?b = "char_of (128 + of_char c mod 64 :: nat) :: char"
    have u: "utf8 (c # s) = ?a # ?b # utf8 s" using False by (simp add: utf8_def utf8_char_def Let_def)
    note t = two_bytes [OF c]
    consider "k = 0" | "k = 1" | j where "k = Suc (Suc j)" by (metis One_nat_def not0_implies_Suc)
    then show ?thesis
    proof cases
      case 3
      from Cons [of j] obtain n where "whole_chars (take j (utf8 s)) = take n s" "length (utf8 s) \<le> j \<longrightarrow> length s \<le> n" by blast
      moreover have "take k (utf8 (c # s)) = ?a # ?b # take j (utf8 s)" unfolding u 3 by simp
      moreover have "whole_chars (?a # ?b # bs) = c # whole_chars bs" for bs unfolding whole_chars.simps if_not_P [OF t(1)] t(2) ..
      ultimately show ?thesis by (intro exI [of _ "Suc n"]) (simp add: u 3)
    next
      case 2
      have "take k (utf8 (c # s)) = [?a]" unfolding u 2 by simp
      then show ?thesis unfolding whole_chars.simps using t(1) by (intro exI [of _ 0]) (simp add: u 2)
    qed (auto simp: u intro: exI [of _ 0])
  qed
qed

lemma whole_chars_utf8: "whole_chars (utf8 s) = s"
  using whole_chars_take [of "length (utf8 s)" s] by auto

declare write_loop.simps [simp del]

lemma write_loop_done: "length data \<le> n \<Longrightarrow> write_loop E path data n w = (Inr (), w)"
  by (subst write_loop.simps) simp

lemma write_loop_fails: "n < length data \<Longrightarrow> io_fault (env w) (tick w) \<Longrightarrow> write_loop E path data n w = (Inl (OSError ''io''), next_tick w)"
  by (subst write_loop.simps) simp

lemma write_loop_goes_on:
  "k < length data \<Longrightarrow> \<not> io_fault (env w) (tick w) \<Longrightarrow> n = k + chunk E (tick w) (length data - k) \<Longrightarrow>
    write_loop E path data k w = write_loop E path data n (set_text path (whole_chars (take n data)) (next_tick w))"
  by (subst write_loop.simps) (simp add: Let_def)

lemma write_loop_run:
  assumes "write_loop E path data k w = (r, w')" and "k \<le> length data"
  shows "tick w' \<le> tick w + (length data - k) \<and> elsewhere path w w'
    \<and> (content_at w path = Some (whole_chars (take k data)) \<longrightarrow> (\<exists>n. content_at w' path = Some (whole_chars (take n data)))
         \<and> (r = Inr () \<longrightarrow> content_at w' path = Some (whole_chars data)))
    \<and> ((\<forall>t. \<not> io_fault (env w) t) \<longrightarrow> r = Inr ())"
  using assms
proof (induction E path data k w arbitrary: r w' rule: write_loop.induct)
  case (1 E path data k w)
  let ?n = "k + chunk E (tick w) (length data - k)" and ?v = "\<lambda>n. set_text path (whole_chars (take n data)) (next_tick w)"
  consider (over) "length data \<le> k" | (fails) "k < length data" "io_fault (env w) (tick w)" | (on) "k < length data" "\<not> io_fault (env w) (tick w)" by linarith
  then show ?case
  proof cases
    case over
    then have "r = Inr ()" "w' = w" "k = length data" using "1.prems" write_loop_done [OF over] by auto
    then show ?thesis by (auto intro: exI [of _ k])
  next
    case fails
    with write_loop_fails "1.prems" have "r = Inl (OSError ''io'')" "w' = next_tick w" by auto
    with fails show ?thesis by (auto simp: next_tick_def [of w] content_at_def elsewhere_def Suc_le_eq)
  next
    case on
    then have n: "k < ?n" "?n \<le> length data" by (auto simp: chunk_def)
    from on "1.prems" have run: "write_loop E path data ?n (?v ?n) = (r, w')" by (simp add: write_loop_goes_on [OF on refl])
    have "\<not> length data \<le> k" using on(1) by simp
    note IH = "1.IH" [OF this on(2) refl run n(2)]
    have t: "tick (?v ?n) = Suc (tick w)" "env (?v ?n) = env w"
      by (simp_all add: set_text_def update_file_def next_tick_def split: option.splits)
    have e: "elsewhere path w (?v ?n)" using elsewhere_trans [OF elsewhere_refl(2) elsewhere_update(2)] .
    have c: "content_at (?v ?n) path = Some (whole_chars (take ?n data))" if "content_at w path = Some x" for x using that by simp
    show ?thesis
    proof (intro conjI)
      show "tick w' \<le> tick w + (length data - k)" using conjunct1 [OF IH] on n unfolding t by linarith
      show "elsewhere path w w'" using elsewhere_trans [OF e conjunct1 [OF conjunct2 [OF IH]]] .
      show "(\<forall>t. \<not> io_fault (env w) t) \<longrightarrow> r = Inr ()" using IH unfolding t by blast
      show "content_at w path = Some (whole_chars (take k data)) \<longrightarrow> (\<exists>n. content_at w' path = Some (whole_chars (take n data)))
         \<and> (r = Inr () \<longrightarrow> content_at w' path = Some (whole_chars data))" using IH c by blast
    qed
  qed
qed

lemma write_text_run:
  assumes "write_loop E path (utf8 text) 0 w = (r, w')" and "content_at w path = Some []"
  shows "tick w' \<le> tick w + length (utf8 text) \<and> elsewhere path w w'
    \<and> (\<exists>n. content_at w' path = Some (take n text)) \<and> (r = Inr () \<longrightarrow> content_at w' path = Some text)
    \<and> ((\<forall>t. \<not> io_fault (env w) t) \<longrightarrow> r = Inr ())"
proof -
  note run = write_loop_run [OF assms(1) le0]
  from run assms(2) obtain n where "content_at w' path = Some (whole_chars (take n (utf8 text)))" by auto
  moreover from whole_chars_take [of n "text"] obtain m where "whole_chars (take n (utf8 text)) = take m text" by blast
  ultimately show ?thesis using run assms(2) by (auto simp: whole_chars_utf8)
qed

text \<open>
  C33. The loop over \<open>os.write\<close> of the UTF-8 bytes of a text, on the file that was just truncated, ends,
  however little each call takes: it makes at most one call for each byte and touches no other
  file; when it returns, the file has the text, when it raises, the beginning of it; and it
  returns if no call fails.
\<close>

theorem write_loop_terminates:
  assumes "write_loop E path (utf8 text) 0 w = (r, w')" and "content_at w path = Some []"
  shows "tick w' \<le> tick w + length (utf8 text) \<and> elsewhere path w w'
    \<and> (\<exists>n. content_at w' path = Some (take n text)) \<and> (r = Inr () \<longrightarrow> content_at w' path = Some text)
    \<and> ((\<forall>t. \<not> io_fault (env w) t) \<longrightarrow> r = Inr ())"
  using assms by (rule write_text_run)

definition os_only :: "'a wop \<Rightarrow> bool" where
  "os_only m \<longleftrightarrow> (\<forall>w e w'. m w = (Inl e, w') \<longrightarrow> (\<exists>x. e = OSError x))"

named_theorems os_rules \<open>operations that raise only OSError\<close>

lemma os_basic [os_rules]: "os_only (ret x)" "os_only (raise (OSError m))" "os_only (io_step f)" "os_only (file_exists p)"
    "os_only (put_text p c)" "os_only (mkdir_parent p)" "os_only (os_replace E t p)" "os_only (open_truncated p)" "os_only (delete_stale p)" "os_only (unlink p)"
  by (auto simp: os_only_def ret_def raise_def io_step_def file_exists_def put_text_def mkdir_parent_def os_replace_def open_truncated_def
      delete_stale_def unlink_def split: if_splits)

lemma os_bnd [os_rules]: "os_only m \<Longrightarrow> (\<And>x. os_only (f x)) \<Longrightarrow> os_only (bnd m f)"
  unfolding os_only_def bnd_def by (auto split: prod.splits sum.splits)

lemma os_reraise [os_rules]:
  assumes "os_only (m :: 'a wop)" and "os_only k"
  shows "os_only (try_except m (\<lambda>e. bnd k (\<lambda>_. raise e)))"
  unfolding os_only_def
proof (intro allI impI)
  fix w e w'
  assume run: "try_except m (\<lambda>e. bnd k (\<lambda>_. raise e)) w = (Inl e, w')"
  then obtain e0 v where m: "m w = (Inl e0, v)" and k: "bnd k (\<lambda>_. raise e0) v = (Inl e :: 'a result, w')"
    by (cases "m w") (auto simp: try_except_def split: sum.splits)
  from m assms(1) have "\<exists>x. e0 = OSError x" by (auto simp: os_only_def)
  moreover from k have "e = e0 \<or> (\<exists>v'. k v = (Inl e, v'))" by (auto simp: bnd_def raise_def split: prod.splits sum.splits)
  ultimately show "\<exists>x. e = OSError x" using assms(2) by (auto simp: os_only_def)
qed

lemma os_write_loop [os_rules]: "os_only (write_loop E path data k)"
proof -
  have "write_loop E path data k w = (Inl e, w') \<Longrightarrow> \<exists>x. e = OSError x" for e w w'
  proof (induction E path data k w arbitrary: w' rule: write_loop.induct)
    case (1 E path data k w)
    then show ?case
      by (cases "length data \<le> k"; cases "io_fault (env w) (tick w)")
        (auto simp: write_loop_done write_loop_fails write_loop_goes_on Let_def)
  qed
  then show ?thesis by (simp add: os_only_def)
qed

lemma os_policy [os_rules]: "os_only (apply_policy p pol)"
  unfolding os_only_def using apply_policy_run by blast

text \<open>Writing a file raises \<open>OSError\<close>, or refuses a path with a null byte.\<close>

lemma os_in_place [os_rules]: "os_only (write_in_place E p c pol)"
  unfolding write_in_place_def by (intro os_rules)

lemma split_on_chars: "part \<in> set (split_on c s) \<Longrightarrow> set part \<subseteq> set s"
  by (induction s arbitrary: part) (fastforce split: if_splits list.splits)+

lemma join_slash_chars: "set (join_slash ps) \<subseteq> insert (CHR ''/'') (\<Union> (set ` set ps))"
  by (induction ps rule: join_slash.induct) auto

lemma path_str_chars: "set (path_str s) \<subseteq> set s \<union> set ''/.''"
proof -
  have "set (join_slash (filter (\<lambda>x. x \<noteq> [] \<and> x \<noteq> ''.'') (split_on CHR ''/'' s))) \<subseteq> insert (CHR ''/'') (set s)"
    by (rule subset_trans [OF join_slash_chars]) (auto dest: split_on_chars)
  then show ?thesis by (auto simp: path_str_def Let_def)
qed

lemma parent_chars: "set (path_parent p) \<subseteq> set p \<union> set ''/.''"
proof -
  let ?p = "path_str p" and ?r = "if startswith (path_str p) ''/'' then ''/'' else []"
  have "set (join_slash (butlast (split_on CHR ''/'' ?p)) @ ?r) \<subseteq> insert (CHR ''/'') (set ?p)"
    using join_slash_chars [of "butlast (split_on CHR ''/'' ?p)"] by (auto dest!: in_set_butlastD dest: split_on_chars)
  then have "set (path_str (join_slash (butlast (split_on CHR ''/'' ?p)) @ ?r)) \<subseteq> set ?p \<union> set ''/.''"
    using path_str_chars [of "join_slash (butlast (split_on CHR ''/'' ?p)) @ ?r"] by auto
  then show ?thesis using path_str_chars [of p] unfolding path_parent_def Let_def by (auto split: if_splits)
qed

lemma atomic_write_raises:
  assumes "atomic_write E p c pol w = (Inl e, w')"
  shows "(\<exists>m. e = OSError m) \<or> e = NULL_BYTE \<and> CHR 0x00 \<in> set p"
proof (cases "CHR 0x00 \<in> set p")
  case True
  obtain r w1 where m: "make_parent p w = (r, w1)" by fastforce
  then have "r = Inr () \<or> r = Inl NULL_BYTE \<or> (\<exists>x. r = Inl (OSError x))"
    by (auto simp: make_parent_def raise_def mkdir_parent_def io_step_def split: if_splits)
  with assms m True show ?thesis by (auto simp: atomic_write_def bnd_def mkstemp_def Let_def)
next
  case False
  have "make_parent p = mkdir_parent p" using False parent_chars [of p] by (auto simp: make_parent_def)
  moreover have "os_only (mkstemp E p)" using False by (auto simp: os_only_def mkstemp_def Let_def split: if_splits)
  ultimately have "os_only (atomic_write E p c pol)" unfolding atomic_write_def by (auto intro!: os_rules split: option.splits)
  with assms show ?thesis unfolding os_only_def by blast
qed

lemma in_place_run:
  assumes "write_in_place E path c pol w = (r, w')"
  shows "elsewhere path w w'" and "r = Inr () \<Longrightarrow> content_at w' path = Some c"
proof -
  obtain r1 w1 where o: "open_truncated path w = (r1, w1)" by fastforce
  have "elsewhere path w w' \<and> (r = Inr () \<longrightarrow> content_at w' path = Some c)"
  proof (cases r1)
    case (Inl e)
    with o assms show ?thesis by (auto simp: write_in_place_def bnd_def open_truncated_def split: if_splits)
  next
    case (Inr u)
    then have 1: "elsewhere path w w1" "content_at w1 path = Some []"
      using o by (auto simp: open_truncated_def content_at_def update_file_def elsewhere_def split: if_splits option.splits)
    obtain r2 w2 where l: "write_loop E path (utf8 c) 0 w1 = (r2, w2)" by fastforce
    from write_text_run [OF l 1(2)] have 2: "elsewhere path w1 w2" "r2 = Inr () \<longrightarrow> content_at w2 path = Some c" by auto
    obtain r3 w3 where f: "io_step (\<lambda>w. w) w2 = (r3, w3)" by fastforce
    then have 3: "elsewhere path w2 w3" "content_at w3 path = content_at w2 path"
      by (auto simp: io_step_def split: if_splits)
    obtain r4 w4 where p: "apply_policy path pol w3 = (r4, w4)" by fastforce
    from apply_policy_run [OF p] have 4: "elsewhere path w3 w4" "content_at w4 = content_at w3" by auto
    from assms o l f p Inr have "(r, w') = (case r2 of Inl e \<Rightarrow> (Inl e, w2) | Inr _ \<Rightarrow> (case r3 of Inl e \<Rightarrow> (Inl e, w3) | Inr _ \<Rightarrow> (r4, w4)))"
      by (auto simp: write_in_place_def bnd_def split: sum.splits)
    then show ?thesis using 1 2 3 4 by (auto split: sum.splits intro: elsewhere_trans)
  qed
  then show "elsewhere path w w'" and "r = Inr () \<Longrightarrow> content_at w' path = Some c" by auto
qed

lemma returns_reraise [returns]:
  "try_except m (\<lambda>e. bnd k (\<lambda>_. raise e)) w = (Inr y, w') \<longleftrightarrow> m w = (Inr y, w')"
  by (cases "m w") (auto simp: try_except_def bnd_def raise_def split: sum.splits prod.splits)

lemma write_entry_simp [simp]: "write_entry E (path, c, pol) = atomic_write E path c pol"
  by (simp add: write_entry_def)

lemma atomic_write_returns:
  assumes "atomic_write E path c pol w = (Inr (), w')"
  shows "elsewhere path w w'" and "content_at w' path = Some c"
proof -
  from assms obtain t w1 w2 where m: "make_parent path w = (Inr (), w1)" "mkstemp E path w1 = (Inr t, w2)"
    and rest: "(case t of
       None \<Rightarrow> bnd (file_exists path) (\<lambda>there.
         if \<not> there then raise (OSError ''read-only'') else write_in_place E path c pol)
     | Some tmp \<Rightarrow> try_except
         (bnd (put_text tmp c) (\<lambda>_.
          bnd (apply_policy tmp pol) (\<lambda>_.
          bnd (os_replace E tmp path) (\<lambda>replaced.
          if replaced then ret ()
          else bnd (file_exists path) (\<lambda>there.
            if \<not> there then raise (OSError ''busy'')
            else bnd (unlink tmp) (\<lambda>_. write_in_place E path c pol))))))
         (\<lambda>e. bnd (unlink tmp) (\<lambda>_. raise e))) w2 = (Inr (), w')"
    by (auto simp: atomic_write_def returns)
  from m(1) have w1: "files w1 = files w" "env w1 = env w"
    by (auto simp: make_parent_def mkdir_parent_def raise_def io_step_def split: if_splits)
  have "elsewhere path w w' \<and> content_at w' path = Some c"
  proof (cases t)
    case None
    with m have "files w2 = files w" "env w2 = env w" using w1 by (auto simp: mkstemp_def Let_def split: if_splits)
    moreover from rest None obtain w3 where "file_exists path w2 = (Inr True, w3)" "write_in_place E path c pol w3 = (Inr (), w')"
      by (auto simp: returns split: if_splits)
    moreover from this have "files w3 = files w2" "env w3 = env w2" using looksD [OF looks_steps(1)] by blast+
    ultimately show ?thesis using in_place_run by (metis elsewhere_def)
  next
    case (Some tmp)
    with m(2) have tmp: "files w tmp = None" "\<forall>p. p \<noteq> tmp \<longrightarrow> files w2 p = files w p" "env w2 = env w"
      using w1 by (auto simp: mkstemp_def Let_def split: if_splits)
    from rest Some obtain w3 w4 w5 b where put: "put_text tmp c w2 = (Inr (), w3)"
      and pol: "apply_policy tmp pol w3 = (Inr (), w4)" and rep: "os_replace E tmp path w4 = (Inr b, w5)"
      and fin: "(if b then ret () else bnd (file_exists path) (\<lambda>there.
            if \<not> there then raise (OSError ''busy'')
            else bnd (unlink tmp) (\<lambda>_. write_in_place E path c pol))) w5 = (Inr (), w')"
      by (auto simp: returns)
    have w4: "content_at w4 tmp = Some c" "\<forall>p. p \<noteq> tmp \<longrightarrow> files w4 p = files w p" "env w4 = env w"
      using put apply_policy_run [OF pol] tmp
      by (auto simp: put_text_def put_content_def content_at_def elsewhere_def split: if_splits option.splits)
    show ?thesis
    proof (cases b)
      case True
      with rep fin have w': "files w' = ((files w4)(tmp := None))(path := files w4 tmp)" "env w' = env w4"
        by (auto simp: os_replace_def ret_def split: if_splits)
      then show ?thesis using w4 tmp by (auto simp: elsewhere_def content_at_def)
    next
      case False
      with rep have w5: "files w5 = files w4" "env w5 = env w4" by (auto simp: os_replace_def split: if_splits)
      from fin False obtain w6 w7 where ex: "file_exists path w5 = (Inr True, w6)" and ul: "unlink tmp w6 = (Inr (), w7)"
        and ip: "write_in_place E path c pol w7 = (Inr (), w')" by (auto simp: returns split: if_splits)
      from ex w5 ul have w7: "files w7 = (files w4)(tmp := None)" "env w7 = env w4"
        by (auto simp: file_exists_def unlink_def io_step_def split: if_splits)
      with w4 tmp have "elsewhere path w w7" by (auto simp: elsewhere_def)
      then show ?thesis using in_place_run [OF ip] elsewhere_trans by blast
    qed
  qed
  then show "elsewhere path w w'" and "content_at w' path = Some c" by auto
qed

text \<open>The entries of a plan: the last one for a path decides its content.\<close>

fun final_content :: "entry list \<Rightarrow> string \<Rightarrow> string option" where
  "final_content [] p = None"
| "final_content ((path, c, pol) # es) p = (case final_content es p of
     Some x \<Rightarrow> Some x | None \<Rightarrow> if p = path then Some c else None)"

lemma final_content_None: "final_content es p = None \<longleftrightarrow> p \<notin> fst ` set es"
  by (induction es p rule: final_content.induct) (auto split: option.splits)

lemma final_content_distinct:
  "distinct (map fst es) \<Longrightarrow> (path, c, pol) \<in> set es \<Longrightarrow> final_content es path = Some c"
proof (induction es)
  case (Cons e es)
  obtain q d r where e: "e = (q, d, r)" by (cases e)
  show ?case
  proof (cases "(path, c, pol) \<in> set es")
    case True
    with Cons e show ?thesis by simp
  next
    case False
    with Cons.prems e have "e = (path, c, pol)" "path \<notin> fst ` set es" by auto
    moreover from this have "final_content es path = None" by (simp add: final_content_None)
    ultimately show ?thesis by simp
  qed
qed simp

lemma final_content_in: "final_content es p = Some c \<Longrightarrow> \<exists>pol. (p, c, pol) \<in> set es"
  by (induction es p rule: final_content.induct) (auto split: option.splits if_splits)

lemma write_all_returns:
  assumes "for_each (write_entry E) es w = (Inr (), w')"
  shows "env w' = env w" and "p \<notin> fst ` set es \<Longrightarrow> files w' p = files w p"
    and "p \<in> fst ` set es \<Longrightarrow> content_at w' p = final_content es p"
proof -
  have "env w' = env w \<and> (p \<notin> fst ` set es \<longrightarrow> files w' p = files w p) \<and>
      (p \<in> fst ` set es \<longrightarrow> content_at w' p = final_content es p)"
    using assms
  proof (induction es arbitrary: w)
    case (Cons e es)
    obtain q c pol where e: "e = (q, c, pol)" by (cases e)
    with Cons.prems obtain v where v: "atomic_write E q c pol w = (Inr (), v)" "for_each (write_entry E) es v = (Inr (), w')"
      by (auto simp: returns)
    note 1 = atomic_write_returns [OF v(1)] and 2 = Cons.IH [OF v(2)]
    show ?case
    proof (cases "p \<in> fst ` set es")
      case True
      then obtain x where "final_content es p = Some x" using final_content_None [of es p] by (cases "final_content es p") auto
      with True 1 2 e show ?thesis by (auto simp: elsewhere_def)
    next
      case False
      then have "final_content es p = None" by (simp add: final_content_None)
      with False 1 2 e show ?thesis by (auto simp: elsewhere_def content_at_def)
    qed
  qed (simp add: ret_def)
  then show "env w' = env w" and "p \<notin> fst ` set es \<Longrightarrow> files w' p = files w p"
    and "p \<in> fst ` set es \<Longrightarrow> content_at w' p = final_content es p" by auto
qed

section \<open>Files that are no longer wanted\<close>

text \<open>The files under the directories of a plan that carry the names of generated files.\<close>

definition managed_file :: "apply_env \<Rightarrow> (string \<Rightarrow> fs_file option) \<Rightarrow> ResolvedPaths \<Rightarrow> string \<Rightarrow> bool" where
  "managed_file E fs paths p \<longleftrightarrow> fs p \<noteq> None \<and> (\<exists>(d, pats) \<in> set (managed_paths paths). \<exists>names n.
     ae_list_dir E fs d = Some names \<and> n \<in> set names \<and> is_managed n pats \<and> p = path_div d n)"

lemma collect_over_returns:
  "collect_over f xs w = (Inr ys, w') \<Longrightarrow> (\<And>x. x \<in> set xs \<Longrightarrow> looks (f x)) \<Longrightarrow>
    (\<And>x v zs v'. x \<in> set xs \<Longrightarrow> files v = files w \<Longrightarrow> env v = env w \<Longrightarrow> f x v = (Inr zs, v') \<Longrightarrow> zs = g x) \<Longrightarrow> ys = concat (map g xs)"
proof (induction xs arbitrary: w ys)
  case (Cons x xs)
  from Cons.prems(1) obtain zs v zs' where 1: "f x w = (Inr zs, v)" "collect_over f xs v = (Inr zs', w')" "ys = zs @ zs'"
    by (auto simp: returns)
  from looksD [OF Cons.prems(2) 1(1)] have v: "files v = files w" "env v = env w" by simp_all
  have "zs' = concat (map g xs)"
  proof (rule Cons.IH [OF 1(2)])
    show "\<And>x. x \<in> set xs \<Longrightarrow> looks (f x)" using Cons.prems(2) by simp
  next
    fix y u zs u'
    assume "y \<in> set xs" "files u = files v" "env u = env v" "f y u = (Inr zs, u')"
    then show "zs = g y" using Cons.prems(3) [of y u zs u'] v by simp
  qed
  moreover have "zs = g x" using Cons.prems(3) [of x w zs v] 1(1) by simp
  ultimately show ?case using 1(3) by simp
qed (simp add: returns)

lemma collect_stale_returns:
  assumes "collect_stale E expected paths w = (Inr ps, w')"
  shows "set ps = {p. managed_file E (files w) paths p \<and> p \<notin> expected}"
proof -
  let ?g = "\<lambda>(directory, patterns). case ae_list_dir E (files w) directory of
         None \<Rightarrow> []
       | Some names \<Rightarrow> filter (\<lambda>p. p \<notin> expected)
           (map (path_div directory) (filter (\<lambda>n. files w (path_div directory n) \<noteq> None \<and> is_managed n patterns) names))"
  have "ps = concat (map ?g (managed_paths paths))"
  proof (rule collect_over_returns [OF assms [unfolded collect_stale_def]])
    fix x v zs v'
    assume "files v = files w" "stale_in E expected x v = (Inr zs, v')"
    then show "zs = ?g x" by (cases x) (auto simp: stale_in_def split: if_splits cong: option.case_cong)
  qed (intro looking)
  then have ps: "p \<in> set ps \<longleftrightarrow> (\<exists>dp \<in> set (managed_paths paths). p \<in> set (?g dp))" for p by simp
  have g: "p \<in> set (?g (d, pats)) \<longleftrightarrow> (files w p \<noteq> None \<and> p \<notin> expected \<and> (\<exists>names n. ae_list_dir E (files w) d = Some names
      \<and> n \<in> set names \<and> is_managed n pats \<and> p = path_div d n))" for p d pats
    by (cases "ae_list_dir E (files w) d") auto
  have "p \<in> set ps \<longleftrightarrow> managed_file E (files w) paths p \<and> p \<notin> expected" for p
    unfolding ps managed_file_def using g by fastforce
  then show ?thesis by blast
qed

lemma delete_all_returns:
  assumes "collect_over delete_stale ps w = (Inr del, w')"
  shows "env w' = env w \<and> files w' = (\<lambda>p. if p \<in> set ps then None else files w p) \<and> set del = {p \<in> set ps. files w p \<noteq> None}"
  using assms
proof (induction ps arbitrary: w del)
  case (Cons p ps)
  from Cons.prems obtain zs v zs' where 1: "delete_stale p w = (Inr zs, v)" "collect_over delete_stale ps v = (Inr zs', w')" "del = zs @ zs'"
    by (auto simp: returns)
  from 1(1) have v: "env v = env w" "files v = (files w)(p := None)" "set zs = {q. q = p \<and> files w p \<noteq> None}"
    by (auto simp: delete_stale_def fun_upd_idem split: if_splits)
  from Cons.IH [OF 1(2)] v 1(3) show ?case by (auto simp: fun_eq_iff)
qed (simp add: ret_def)

section \<open>Whole runs\<close>

text \<open>The difference an entry makes to the files of a state.\<close>

definition entry_diff :: "apply_env \<Rightarrow> world \<Rightarrow> entry \<Rightarrow> ApplyDiff" where
  "entry_diff E w e = (case e of (path, c, pol) \<Rightarrow> case content_at w path of
     None \<Rightarrow> \<lparr> ad_path = path, ad_action = ''create'', ad_diff = c \<rparr>
   | Some old \<Rightarrow> if universal_newlines old = c then \<lparr> ad_path = path, ad_action = ''unchanged'', ad_diff = [] \<rparr>
       else \<lparr> ad_path = path, ad_action = ''update'', ad_diff = ae_unified_diff E path (universal_newlines old) c \<rparr>)"

lemma universal_newlines_id: "CHR 0x0D \<notin> set s \<Longrightarrow> universal_newlines s = s"
  by (induction s rule: universal_newlines.induct) auto

lemma diff_file_returns: "diff_file E path c v = (Inr d, v') \<Longrightarrow> d = entry_diff E v (path, c, pol)"
  by (auto simp: diff_file_def returns file_exists_def read_text_def read_file_def entry_diff_def content_at_def
      split: if_splits option.splits)

lemma entry_diff_cong: "files v = files w \<Longrightarrow> entry_diff E v e = entry_diff E w e"
  by (cases e) (simp add: entry_diff_def content_at_def)

lemma diffs_returns:
  assumes "collect_over (\<lambda>(path, content, policy). bnd (diff_file E path content) (\<lambda>d. ret [d])) es w = (Inr ds, w')"
  shows "ds = map (entry_diff E w) es"
proof -
  have "ds = concat (map (\<lambda>e. [entry_diff E w e]) es)"
  proof (rule collect_over_returns [OF assms])
    fix e :: entry and v zs v'
    assume "files v = files w" "(case e of (path, content, policy) \<Rightarrow> bnd (diff_file E path content) (\<lambda>d. ret [d])) v = (Inr zs, v')"
    moreover obtain path c pol where e: "e = (path, c, pol)" by (cases e)
    ultimately obtain d where "zs = [d]" "diff_file E path c v = (Inr d, v')" by (auto simp: returns)
    from this(1) diff_file_returns [OF this(2), of pol] entry_diff_cong [OF \<open>files v = files w\<close>]
    show "zs = [entry_diff E w e]" by (simp add: e)
  qed (auto intro!: looking split: prod.splits)
  then show ?thesis by (simp add: concat_map_singleton)
qed

text \<open>What a run that returns has planned, and what it did about it.\<close>

definition applied ::
  "apply_env \<Rightarrow> ResolvedPaths \<Rightarrow> entry list \<Rightarrow> world \<Rightarrow> world \<Rightarrow> bool" where
  "applied E paths entries w w' \<longleftrightarrow>
     (\<forall>p \<in> fst ` set entries. content_at w' p = final_content entries p)
   \<and> (\<forall>p. p \<notin> fst ` set entries \<and> managed_file E (files w) paths p \<longrightarrow> files w' p = None)
   \<and> (\<forall>p. p \<notin> fst ` set entries \<and> \<not> managed_file E (files w) paths p \<longrightarrow>
        content_at w' p = content_at w p \<and> (p \<noteq> rp_bird_extra_conf_path paths \<longrightarrow> files w' p = files w p))"

lemma appliedD:
  assumes "applied E paths entries w w'"
  shows "p \<in> fst ` set entries \<Longrightarrow> content_at w' p = final_content entries p"
    and "p \<notin> fst ` set entries \<Longrightarrow> managed_file E (files w) paths p \<Longrightarrow> files w' p = None"
    and "p \<notin> fst ` set entries \<Longrightarrow> \<not> managed_file E (files w) paths p \<Longrightarrow> content_at w' p = content_at w p"
  using assms unfolding applied_def by blast+

lemma content_cong: "files v = files w \<Longrightarrow> content_at v = content_at w"
  by (simp add: content_at_def fun_eq_iff)

lemma ensure_policy_run:
  assumes "ensure_policy p pol w = (Inr (), w')"
  shows "env w' = env w" and "content_at w' = content_at w" and "q \<noteq> p \<Longrightarrow> files w' q = files w q"
proof -
  from assms obtain there v where v: "file_exists p w = (Inr there, v)" "(if there then apply_policy p pol else ret ()) v = (Inr (), w')"
    by (auto simp: ensure_policy_def returns)
  from looksD [OF looks_steps(1) v(1)] have "files v = files w" "env v = env w" by simp_all
  with v(2) apply_policy_run [of p pol v "Inr ()" w'] show "env w' = env w" and "content_at w' = content_at w"
    and "q \<noteq> p \<Longrightarrow> files w' q = files w q"
    by (auto simp: elsewhere_def returns content_at_def fun_eq_iff split: if_splits)
qed

lemma carry_out_returns:
  assumes run: "carry_out E cfg nr paths entries ps ds w = (Inr (del, rel), w')"
    and ps: "set ps = {p. managed_file E (files w) paths p \<and> p \<notin> fst ` set entries}"
  shows "applied E paths entries w w'" and "env w' = env w" and "set del = set ps"
    and "\<exists>v v'. reload_step E cfg nr paths (sort (remdups (changed_paths ds @ del))) v = (Inr rel, v')"
proof -
  from run obtain w1 w2 w3 where r: "for_each (write_entry E) entries w = (Inr (), w1)"
      "ensure_policy (rp_bird_extra_conf_path paths) BIRD w1 = (Inr (), w2)" "collect_over delete_stale ps w2 = (Inr del, w3)"
      "reload_step E cfg nr paths (sort (remdups (changed_paths ds @ del))) w3 = (Inr rel, w')"
    by (auto simp: carry_out_def returns)
  then show "\<exists>v v'. reload_step E cfg nr paths (sort (remdups (changed_paths ds @ del))) v = (Inr rel, v')" by blast
  note 1 = write_all_returns [OF r(1)] and 2 = ensure_policy_run [OF r(2)] and 3 = delete_all_returns [OF r(3)]
  from looksD [OF looks_reads(5) r(4)] have 4: "files w' = files w3" "env w' = env w3" by simp_all
  show "env w' = env w" using 1 2 3 4 by auto
  have "files w2 p \<noteq> None" if "p \<in> set ps" for p
  proof -
    from that ps have p: "p \<notin> fst ` set entries" "files w p \<noteq> None" by (auto simp: managed_file_def)
    with 1(2) [of p] 2(2) have "content_at w2 p = content_at w p" by (simp add: content_at_def fun_eq_iff)
    with p show ?thesis by (auto simp: content_at_def)
  qed
  with 3 show "set del = set ps" by auto
  have c: "content_at w' p = (if p \<in> set ps then None else content_at w1 p)" for p
    using 2(2) 3 4 by (simp add: content_at_def fun_eq_iff)
  have f: "files w' p = (if p \<in> set ps then None else files w p)" if "p \<noteq> rp_bird_extra_conf_path paths" "p \<notin> fst ` set entries" for p
    using 1(2) [of p] 2(3) [of p] 3 4 that by simp
  have o: "content_at w1 p = content_at w p" if "p \<notin> fst ` set entries" for p using 1(2) [OF that] by (simp add: content_at_def)
  show "applied E paths entries w w'"
    unfolding applied_def
  proof (intro conjI allI ballI impI)
    fix p
    show "content_at w' p = final_content entries p" if "p \<in> fst ` set entries" using c 1(3) [OF that] ps that by simp
    show "files w' p = None" if "p \<notin> fst ` set entries \<and> managed_file E (files w) paths p"
      using c [of p] ps that by (simp add: content_at_def)
    show "content_at w' p = content_at w p" if "p \<notin> fst ` set entries \<and> \<not> managed_file E (files w) paths p"
      using c [of p] o [of p] ps that by simp
    show "files w' p = files w p" if "p \<notin> fst ` set entries \<and> \<not> managed_file E (files w) paths p" "p \<noteq> rp_bird_extra_conf_path paths"
      using f [of p] ps that by simp
  qed
qed

lemma apply_cached_returns:
  assumes run: "apply_cached E cfg cp dry nr cached w = (Inr res, w')"
  obtains paths entries warnings w1 ps where "plan_files E cp (pl_payload cached) w = (Inr (paths, entries, warnings), w1)"
    and "set ps = {p. managed_file E (files w) paths p \<and> p \<notin> fst ` set entries}"
    and "ap_diffs res = map (entry_diff E w) entries @ map stale_diff ps" and "ap_revision res = pl_revision cached"
    and "dry \<Longrightarrow> files w' = files w" and "\<not> dry \<Longrightarrow> applied E paths entries w w'" and "env w' = env w"
    and "\<not> dry \<Longrightarrow> ap_written res = map fst entries"
    and "set (ap_deleted res) = (if dry then {} else set ps)" and "dry \<Longrightarrow> ap_reloads res = []"
    and "\<not> dry \<Longrightarrow> \<exists>v v'. reload_step E cfg nr paths (sort (remdups (changed_paths (ap_diffs res) @ ap_deleted res))) v = (Inr (ap_reloads res), v')"
    and "ap_warnings res = warnings @ reload_warnings (ap_reloads res)"
proof -
  from run obtain paths entries warnings w1 ps w2 fd w3 del rel where
    p: "plan_files E cp (pl_payload cached) w = (Inr (paths, entries, warnings), w1)"
    and s: "collect_stale E (fst ` set entries) paths w1 = (Inr ps, w2)"
    and d: "collect_over (\<lambda>(path, content, policy). bnd (diff_file E path content) (\<lambda>d. ret [d])) entries w2 = (Inr fd, w3)"
    and c: "(if dry then ret ([], []) else carry_out E cfg nr paths entries ps (fd @ map stale_diff ps)) w3 = (Inr (del, rel), w')"
    and res: "res = \<lparr> ap_revision = pl_revision cached, ap_diffs = fd @ map stale_diff ps, ap_written = (if dry then [] else map fst entries),
           ap_deleted = del, ap_dry_run = dry, ap_warnings = warnings @ reload_warnings rel, ap_reloads = rel \<rparr>"
    by (auto simp: apply_cached_def returns Let_def split: prod.splits)
  have w1: "files w1 = files w" "env w1 = env w" using looksD [OF looks_reads(7) p] by simp_all
  have w2: "files w2 = files w" "env w2 = env w" using looksD [OF looks_reads(3) s] w1 by simp_all
  have w3: "files w3 = files w" "env w3 = env w"
    using looksD [OF looks_collect d] w2 looks_reads(2) by (auto intro!: looking split: prod.splits)
  have ps: "set ps = {p. managed_file E (files w) paths p \<and> p \<notin> fst ` set entries}" using collect_stale_returns [OF s] w1 by simp
  have fd: "fd = map (entry_diff E w) entries" using diffs_returns [OF d] entry_diff_cong [OF w2(1)] by simp
  show thesis
  proof (cases dry)
    case True
    with c w3 res fd ps show ?thesis by (intro that [OF p ps]) (auto simp: returns)
  next
    case False
    with c have co: "carry_out E cfg nr paths entries ps (fd @ map stale_diff ps) w3 = (Inr (del, rel), w')" by simp
    note e = carry_out_returns [OF co, unfolded w3, OF ps]
    have "applied E paths entries w w'" using e(1) w3 by (simp add: applied_def content_at_def)
    with False e w3 res fd show ?thesis by (intro that [OF p ps]) simp_all
  qed
qed

section \<open>What is planned\<close>

text \<open>A plan as a function of the payload, the configuration and whether \<open>extra.conf\<close> exists.\<close>

definition config_at :: "toml_env \<Rightarrow> world \<Rightarrow> string \<Rightarrow> AppConfig option" where
  "config_at T w path = (case content_at w path of None \<Rightarrow> None | Some text \<Rightarrow>
     (case toml_loads T text of None \<Rightarrow> None | Some raw \<Rightarrow>
       (case parse_config raw of Inl _ \<Rightarrow> None | Inr c \<Rightarrow> Some c)))"

definition config_after :: "apply_env \<Rightarrow> jdict \<Rightarrow> AppConfig option \<Rightarrow> AppConfig option" where
  "config_after E payload ac = (case ac of None \<Rightarrow> None | Some c \<Rightarrow>
     let block = dict_get_value payload ''node'' in
     if \<not> json_truthy block then Some c
     else case (pushed E block ''own_ipv6'', pushed E block ''router_id'') of
       (Inr ip, Inr rid) \<Rightarrow> Some (merge_config ip rid c) | _ \<Rightarrow> Some c)"

definition node_plan :: "apply_env \<Rightarrow> jdict \<Rightarrow> ResolvedPaths \<Rightarrow> AppConfig option \<Rightarrow> bool \<Rightarrow> entry list result" where
  "node_plan E payload paths ac there = (let block = dict_get_value payload ''node'' in
     if \<not> json_truthy block then Inr []
     else case ac of None \<Rightarrow> Inr [] | Some c \<Rightarrow>
       bindR (pushed E block ''own_ipv6'') (\<lambda>ip. bindR (pushed E block ''router_id'') (\<lambda>rid.
       if ip = None \<and> rid = None then Inr [] else Inr (node_entries E paths c (merge_config ip rid c) there))))"

lemma load_config_at:
  assumes "\<not> io_fault (env w) (tick w)" and "load_config T path w = (r, w')"
  shows "(case r of Inr c \<Rightarrow> Some c | Inl _ \<Rightarrow> None) = config_at T w path"
  using assms
  by (auto simp: load_config_def bnd_def try_except_def read_file_def ret_def raise_def lift_result_def config_at_def content_at_def
      split: option.splits sum.splits)

lemma plan_files_returns:
  assumes "\<forall>t. \<not> io_fault (env w) t" and run: "plan_files E cp payload w = (Inr (paths, entries, warnings), w1)"
  obtains pe ne where "paths = resolve_paths (config_at (ae_toml E) w cp) cp" and "peer_entries E paths payload = Inr pe"
    and "node_plan E payload paths (config_at (ae_toml E) w cp) (files w (rp_bird_extra_conf_path paths) \<noteq> None) = Inr ne"
    and "entries = pe @ ne"
proof -
  let ?T = "ae_toml E" and ?block = "dict_get_value payload ''node''"
  from run obtain ac v pe x where ac: "try_except (bnd (load_config ?T cp) (\<lambda>c. ret (Some c)))
            (\<lambda>e. case e of ConfigError _ \<Rightarrow> ret None | _ \<Rightarrow> raise e) w = (Inr ac, v)"
    and paths: "paths = resolve_paths ac cp" and pe: "peer_entries E paths payload = Inr pe"
    and nd: "(if json_truthy ?block then render_node_config_files E ?block paths ac else ret ([], [])) v = (Inr x, w1)"
    and entries: "entries = pe @ fst x"
    by (auto simp: plan_files_def returns Let_def)
  obtain r u where l: "load_config ?T cp w = (r, u)" by fastforce
  from ac l load_config_error [of ?T cp w _ u] have "ac = (case r of Inr c \<Rightarrow> Some c | Inl _ \<Rightarrow> None)" "v = u"
    by (auto simp: try_except_def bnd_def ret_def raise_def split: sum.splits exn.splits)
  with load_config_at [OF _ l] assms(1) have ac': "ac = config_at ?T w cp" by simp
  from looksD [OF looks_load_config l] \<open>v = u\<close> have v: "files v = files w" "env v = env w" by simp_all
  have "node_plan E payload paths ac (files w (rp_bird_extra_conf_path paths) \<noteq> None) = Inr (fst x)"
    using nd v assms(1)
    by (auto simp: node_plan_def render_node_config_files_def Let_def returns bindR_Inr file_exists_def
        split: if_splits option.splits)
  with that [of pe "fst x"] paths pe entries ac' show thesis by simp
qed

section \<open>Applying again\<close>

lemma merge_again [simp]: "merge_config ip rid (merge_config ip rid c) = merge_config ip rid c"
  by (simp add: merge_config_def split: option.splits)

lemma resolve_merged [simp]: "resolve_paths (Some (merge_config ip rid c)) cp = resolve_paths (Some c) cp"
  by (simp add: merge_config_def resolve_paths_def)

lemma resolve_after: "resolve_paths (config_after E payload ac) cp = resolve_paths ac cp"
  by (simp add: config_after_def Let_def split: option.splits sum.splits)

lemma merge_none [simp]: "merge_config None None c = c"
  by (simp add: merge_config_def)

lemma node_plan_again:
  assumes "node_plan E payload paths ac there = Inr ne" and "node_plan E payload paths (config_after E payload ac) there2 = Inr ne2"
    and "ne \<noteq> [] \<Longrightarrow> there2"
  shows "set ne2 \<subseteq> set ne" and "e \<in> set ne \<Longrightarrow> e \<notin> set ne2 \<Longrightarrow> fst e \<in> {rp_config_path paths, rp_bird_extra_conf_path paths}"
proof -
  have "set ne2 \<subseteq> set ne \<and> (e \<in> set ne \<longrightarrow> e \<notin> set ne2 \<longrightarrow> fst e \<in> {rp_config_path paths, rp_bird_extra_conf_path paths})"
  proof (cases "json_truthy (dict_get_value payload ''node'') \<and> ac \<noteq> None")
    case False
    with assms(1,2) show ?thesis by (auto simp: node_plan_def config_after_def Let_def split: if_splits option.splits)
  next
    case True
    then obtain c where c: "ac = Some c" and t: "json_truthy (dict_get_value payload ''node'')" by blast
    with assms(1) obtain ip rid where p: "pushed E (dict_get_value payload ''node'') ''own_ipv6'' = Inr ip"
        "pushed E (dict_get_value payload ''node'') ''router_id'' = Inr rid"
      and ne: "ne = (if ip = None \<and> rid = None then [] else node_entries E paths c (merge_config ip rid c) there)"
      by (auto simp: node_plan_def Let_def bindR_Inr split: if_splits)
    with c t assms(2) have ne2: "ne2 = (if ip = None \<and> rid = None then [] else node_entries E paths (merge_config ip rid c) (merge_config ip rid c) there2)"
      by (auto simp: node_plan_def config_after_def Let_def bindR_def split: if_splits)
    show ?thesis
    proof (cases "ip = None \<and> rid = None")
      case True
      with ne ne2 show ?thesis by simp
    next
      case False
      with ne have "ne \<noteq> []" by (simp add: node_entries_def)
      with assms(3) have there2 .
      with False ne ne2 show ?thesis by (auto simp: node_entries_def)
    qed
  qed
  then show "set ne2 \<subseteq> set ne" and "e \<in> set ne \<Longrightarrow> e \<notin> set ne2 \<Longrightarrow> fst e \<in> {rp_config_path paths, rp_bird_extra_conf_path paths}" by auto
qed

text \<open>
  What the environment of two runs in a row has to be like: a directory lists names without
  slashes, and lists a name again whenever the file is there; and no generated file is a
  configuration file of the node.
\<close>

definition lists :: "apply_env \<Rightarrow> (string \<Rightarrow> fs_file option) \<Rightarrow> string \<Rightarrow> string \<Rightarrow> bool" where
  "lists E fs d n \<longleftrightarrow> (\<exists>names. ae_list_dir E fs d = Some names \<and> n \<in> set names)"

definition steady_listing :: "apply_env \<Rightarrow> bool" where
  "steady_listing E \<longleftrightarrow> (\<forall>fs d n. lists E fs d n \<longrightarrow> CHR ''/'' \<notin> set n)
     \<and> (\<forall>fs fs' d n. lists E fs' d n \<and> fs (path_div d n) \<noteq> None \<longrightarrow> lists E fs d n)"

definition managed_name :: "ResolvedPaths \<Rightarrow> string \<Rightarrow> bool" where
  "managed_name paths p \<longleftrightarrow> (\<exists>(d, pats) \<in> set (managed_paths paths). \<exists>n. CHR ''/'' \<notin> set n \<and> p = path_div d n \<and> is_managed n pats)"

definition config_apart :: "ResolvedPaths \<Rightarrow> entry list \<Rightarrow> bool" where
  "config_apart paths entries \<longleftrightarrow> distinct (map fst entries) \<and> \<not> managed_name paths (rp_config_path paths)
     \<and> \<not> managed_name paths (rp_bird_extra_conf_path paths)
     \<and> (\<forall>(path, c, pol) \<in> set entries. path = rp_config_path paths \<longrightarrow> pol = PRIVATE)
     \<and> (\<forall>(path, c, pol) \<in> set entries. CHR 0x0D \<notin> set c)"

lemma managed_file_name:
  assumes "steady_listing E" and "managed_file E fs paths p"
  shows "managed_name paths p"
proof -
  from assms(2) obtain d pats n where d: "(d, pats) \<in> set (managed_paths paths)" "lists E fs d n" "is_managed n pats" "p = path_div d n"
    by (auto simp: managed_file_def lists_def)
  moreover from assms(1) d(2) have "CHR ''/'' \<notin> set n" unfolding steady_listing_def by blast
  ultimately show ?thesis unfolding managed_name_def by blast
qed

lemma managed_file_steady:
  assumes "steady_listing E" and "managed_file E fs' paths p" and "fs p \<noteq> None"
  shows "managed_file E fs paths p"
proof -
  from assms(2) obtain d pats n where "(d, pats) \<in> set (managed_paths paths)" "lists E fs' d n" "is_managed n pats" "p = path_div d n"
    by (auto simp: managed_file_def lists_def)
  note d = this
  from assms(1) d(2,4) assms(3) have "lists E fs d n" unfolding steady_listing_def by blast
  then obtain names where "ae_list_dir E fs d = Some names" "n \<in> set names" unfolding lists_def by blast
  with d assms(3) show ?thesis unfolding managed_file_def by blast
qed

lemma mapR_result: "mapR f xs = Inr ys \<Longrightarrow> y \<in> set ys \<Longrightarrow> \<exists>x \<in> set xs. f x = Inr y"
  by (induction xs arbitrary: ys) (auto simp: bindR_Inr)

lemma peer_entries_policy:
  assumes "peer_entries E paths payload = Inr pe" and "(p, c, pol) \<in> set pe"
  shows "pol \<noteq> PRIVATE"
proof -
  have n: "netdev_entry E paths peer i = Inr (q, d, po) \<Longrightarrow> po = NETDEV" for peer i q d po
    by (auto simp: netdev_entry_def bindR_Inr)
  have b: "render_bgp_peer_files E paths peer = Inr es \<Longrightarrow> (p, c, pol) \<in> set es \<Longrightarrow> pol \<in> {BIRD, NETDEV, NETWORK}" for peer es
    by (auto simp: render_bgp_peer_files_def bindR_Inr dest: n)
  have i: "render_ibgp_peer_files E paths peer = Inr es \<Longrightarrow> (p, c, pol) \<in> set es \<Longrightarrow> pol \<in> {BIRD, NETDEV, NETWORK}" for peer es
    by (auto simp: render_ibgp_peer_files_def bindR_Inr split: if_splits dest: n)
  from assms obtain bs ibs xs ys ba where "mapR (render_bgp_peer_files E paths) xs = Inr bs" "mapR (render_ibgp_peer_files E paths) ys = Inr ibs"
    "render_babel E paths ys = Inr ba" "pe = concat bs @ concat ibs @ [ba]"
    by (auto simp: peer_entries_def bindR_Inr)
  note d = this
  from assms(2) d(4) consider es where "es \<in> set bs" "(p, c, pol) \<in> set es" | es where "es \<in> set ibs" "(p, c, pol) \<in> set es"
    | "ba = (p, c, pol)" by auto
  then have "pol \<in> {BIRD, NETDEV, NETWORK}"
  proof cases
    case 1
    with mapR_result [OF d(1)] b show ?thesis by blast
  next
    case 2
    with mapR_result [OF d(2)] i show ?thesis by blast
  next
    case 3
    with d(3) show ?thesis by (auto simp: render_babel_def bindR_Inr)
  qed
  then show ?thesis by (auto simp: PRIVATE_def BIRD_def NETDEV_def NETWORK_def)
qed

lemma config_written:
  assumes list: "steady_listing E" and plan: "node_plan E payload paths ac there = Inr ne" and pe: "peer_entries E paths payload = Inr pe"
    and apart: "config_apart paths (pe @ ne)" and app: "applied E paths (pe @ ne) w w'"
    and ac: "ac = config_at (ae_toml E) w (rp_config_path paths)"
    and ok: "\<And>c. config_after E payload ac = Some c \<Longrightarrow> app_config_ok c \<and> toml_keeps (ae_toml E) c"
  shows "config_at (ae_toml E) w' (rp_config_path paths) = config_after E payload ac"
proof (cases "\<exists>x. (rp_config_path paths, x, PRIVATE) \<in> set ne")
  case True
  then obtain x where x: "(rp_config_path paths, x, PRIVATE) \<in> set ne" by blast
  with plan obtain c ip rid where c: "ac = Some c" "config_after E payload ac = Some (merge_config ip rid c)"
    "x = dumps_config (ae_toml E) (merge_config ip rid c)"
    by (auto simp: node_plan_def config_after_def node_entries_def Let_def bindR_Inr PRIVATE_def BIRD_def NETDEV_def NETWORK_def
        split: if_splits option.splits)
  have "final_content (pe @ ne) (rp_config_path paths) = Some x"
    by (rule final_content_distinct [where pol = PRIVATE]) (use apart x in \<open>auto simp: config_apart_def\<close>)
  moreover have "rp_config_path paths \<in> fst ` set (pe @ ne)" using x by force
  ultimately have "content_at w' (rp_config_path paths) = Some x" using app unfolding applied_def by metis
  with c ok [OF c(2)] parse_dumped show ?thesis by (simp add: config_at_def toml_keeps_def)
next
  case False
  then have "rp_config_path paths \<notin> fst ` set (pe @ ne)"
    using apart peer_entries_policy [OF pe] unfolding config_apart_def by fastforce
  moreover have "\<not> managed_file E (files w) paths (rp_config_path paths)"
    using apart managed_file_name [OF list] unfolding config_apart_def by blast
  ultimately have "content_at w' (rp_config_path paths) = content_at w (rp_config_path paths)"
    using app unfolding applied_def by blast
  then have "config_at (ae_toml E) w' (rp_config_path paths) = ac" by (simp add: ac config_at_def)
  moreover have "config_after E payload ac = ac"
    using plan False by (auto simp: node_plan_def config_after_def node_entries_def Let_def bindR_Inr split: if_splits option.splits)
  ultimately show ?thesis by simp
qed

text \<open>The plan for a payload, when no file operation fails.\<close>

definition planned_files :: "apply_env \<Rightarrow> string \<Rightarrow> jdict \<Rightarrow> world \<Rightarrow> (ResolvedPaths \<times> entry list) result" where
  "planned_files E cp payload w = (let ac = config_at (ae_toml E) w cp; paths = resolve_paths ac cp in
     bindR (peer_entries E paths payload) (\<lambda>pe.
     bindR (node_plan E payload paths ac (files w (rp_bird_extra_conf_path paths) \<noteq> None)) (\<lambda>ne.
     Inr (paths, pe @ ne))))"

lemma resolve_config_path [simp]: "rp_config_path (resolve_paths ac cp) = cp"
  by (simp add: resolve_paths_def split: option.splits)

text \<open>A second run plans no more than the first, and leaves out only configuration files.\<close>

lemma planned_again:
  assumes list: "steady_listing E" and first: "planned_files E cp payload w = Inr (paths, entries)" and second: "planned_files E cp payload w' = Inr (paths', entries')"
    and app: "applied E paths entries w w'" and apart: "config_apart paths entries"
    and ok: "\<And>c. config_after E payload (config_at (ae_toml E) w cp) = Some c \<Longrightarrow> app_config_ok c \<and> toml_keeps (ae_toml E) c"
  shows "paths' = paths" and "set entries' \<subseteq> set entries"
    and "e \<in> set entries \<Longrightarrow> e \<notin> set entries' \<Longrightarrow> fst e \<in> {rp_config_path paths, rp_bird_extra_conf_path paths}"
proof -
  let ?ac = "config_at (ae_toml E) w cp" and ?ac' = "config_at (ae_toml E) w' cp" and ?x = "rp_bird_extra_conf_path paths"
  from first obtain pe ne where f: "paths = resolve_paths ?ac cp" "peer_entries E paths payload = Inr pe"
      "node_plan E payload paths ?ac (files w ?x \<noteq> None) = Inr ne" "entries = pe @ ne"
    by (auto simp: planned_files_def Let_def bindR_Inr)
  from f(1) have cp: "rp_config_path paths = cp" by simp
  have ac': "?ac' = config_after E payload ?ac"
    using config_written [OF list f(3,2)] app apart ok f(4) cp by metis
  with second f(1) have p: "paths' = paths" by (auto simp: planned_files_def Let_def bindR_Inr resolve_after)
  from second p f(2) obtain ne' where g: "node_plan E payload paths ?ac' (files w' ?x \<noteq> None) = Inr ne'" "entries' = pe @ ne'"
    by (auto simp: planned_files_def Let_def bindR_Inr)
  have "files w' ?x \<noteq> None" if "ne \<noteq> []"
  proof (cases "?x \<in> fst ` set entries")
    case True
    then have "content_at w' ?x = final_content entries ?x" "final_content entries ?x \<noteq> None"
      using app final_content_None [of entries ?x] unfolding applied_def by blast+
    then show ?thesis by (auto simp: content_at_def)
  next
    case False
    with that f(3,4) have "files w ?x \<noteq> None"
      by (auto simp: node_plan_def node_entries_def Let_def bindR_Inr split: if_splits option.splits)
    moreover have "\<not> managed_file E (files w) paths ?x" using apart managed_file_name [OF list] unfolding config_apart_def by blast
    ultimately show ?thesis using app False unfolding applied_def content_at_def by (metis option.map_disc_iff)
  qed
  note n = node_plan_again [OF f(3) g(1) [unfolded ac'] this]
  show "paths' = paths" by (rule p)
  show "set entries' \<subseteq> set entries" using n(1) f(4) g(2) by auto
  show "e \<in> set entries \<Longrightarrow> e \<notin> set entries' \<Longrightarrow> fst e \<in> {rp_config_path paths, rp_bird_extra_conf_path paths}"
    using n(2) f(4) g(2) by auto
qed

lemma planned_returns:
  "\<forall>t. \<not> io_fault (env w) t \<Longrightarrow> plan_files E cp payload w = (Inr (paths, entries, warnings), w1) \<Longrightarrow>
     planned_files E cp payload w = Inr (paths, entries)"
  by (erule (1) plan_files_returns) (simp add: planned_files_def Let_def bindR_def)

lemma reload_nothing: "reload_step E cfg nr paths [] v = (Inr rel, v') \<Longrightarrow> rel = []"
  by (auto simp: reload_step_def returns plan_reloads_def bindR_Inr split: if_splits)

lemma apply_again:
  assumes quiet: "\<forall>t. \<not> io_fault (env w) t" and list: "steady_listing E"
    and run: "apply_cached E cfg cp False nr row w = (Inr r, w')" and again: "apply_cached E cfg cp False nr' row v = (Inr r', v')"
    and v: "files v = files w'" "env v = env w"
    and plan: "planned_files E cp (pl_payload row) w = Inr (paths, entries)" and apart: "config_apart paths entries"
    and ok: "\<And>c. config_after E (pl_payload row) (config_at (ae_toml E) w cp) = Some c \<Longrightarrow> app_config_ok c \<and> toml_keeps (ae_toml E) c"
  shows "(\<forall>d \<in> set (ap_diffs r'). ad_action d = ''unchanged'') \<and> ap_deleted r' = [] \<and> ap_reloads r' = []
    \<and> (\<forall>p. content_at v' p = content_at w' p)"
proof -
  obtain paths0 entries0 warnings w1 where plan0: "plan_files E cp (pl_payload row) w = (Inr (paths0, entries0, warnings), w1)"
      and app0: "applied E paths0 entries0 w w'"
    by (rule apply_cached_returns [OF run]) (rule that, assumption, simp)
  from planned_returns [OF quiet plan0] plan app0 have app: "applied E paths entries w w'" by simp
  obtain paths' entries' warnings' v1 ps where plan': "plan_files E cp (pl_payload row) v = (Inr (paths', entries', warnings'), v1)"
    and ps: "set ps = {p. managed_file E (files v) paths' p \<and> p \<notin> fst ` set entries'}"
    and ds: "ap_diffs r' = map (entry_diff E v) entries' @ map stale_diff ps"
    and app': "applied E paths' entries' v v'" and del: "set (ap_deleted r') = set ps"
    and rel: "\<exists>u u'. reload_step E cfg nr' paths' (sort (remdups (changed_paths (ap_diffs r') @ ap_deleted r'))) u = (Inr (ap_reloads r'), u')"
    by (rule apply_cached_returns [OF again]) (rule that, assumption, assumption, assumption, simp, simp, simp)
  from planned_returns [OF _ plan'] quiet v have "planned_files E cp (pl_payload row) v = Inr (paths', entries')" by simp
  then have second: "planned_files E cp (pl_payload row) w' = Inr (paths', entries')"
    using v by (simp add: planned_files_def config_at_def content_at_def)
  note 2 = planned_again [OF list plan second app apart ok]
  have written: "content_at v p = Some c" if "(p, c, pol) \<in> set entries" for p c pol
  proof -
    have "final_content entries p = Some c" using final_content_distinct [OF _ that] apart by (simp add: config_apart_def)
    moreover have "p \<in> fst ` set entries" using that by force
    ultimately show ?thesis using appliedD(1) [OF app] content_cong [OF v(1)] by simp
  qed
  have "ps = []"
  proof (rule ccontr)
    assume "ps \<noteq> []"
    then obtain p where p: "managed_file E (files v) paths p" "p \<notin> fst ` set entries'" using ps 2(1) by (cases ps) auto
    then have ex: "files v p \<noteq> None" and nm: "managed_name paths p" using managed_file_name [OF list] by (auto simp: managed_file_def)
    show False
    proof (cases "p \<in> fst ` set entries")
      case True
      then obtain e where "e \<in> set entries" "fst e = p" by auto
      with p(2) 2(3) [of e] have "p \<in> {rp_config_path paths, rp_bird_extra_conf_path paths}" by (metis imageI)
      with nm apart show False by (auto simp: config_apart_def)
    next
      case False
      show False
      proof (cases "files w p")
        case None
        with False ex app v show False unfolding applied_def content_at_def by (metis option.map_disc_iff)
      next
        case (Some f)
        with managed_file_steady [OF list p(1), of "files w"] have "managed_file E (files w) paths p" by simp
        with False ex app v show False unfolding applied_def by simp
      qed
    qed
  qed
  have un: "entry_diff E v e = \<lparr> ad_path = fst e, ad_action = ''unchanged'', ad_diff = [] \<rparr>" if "e \<in> set entries'" for e
  proof -
    have "e \<in> set entries" using that 2(2) by blast
    then have "universal_newlines (fst (snd e)) = fst (snd e)" using apart universal_newlines_id by (auto simp: config_apart_def)
    then show ?thesis using written [of "fst e" "fst (snd e)" "snd (snd e)"] \<open>e \<in> set entries\<close> by (auto simp: entry_diff_def split: prod.splits)
  qed
  then have ds': "\<forall>d \<in> set (ap_diffs r'). ad_action d = ''unchanged''" using ds \<open>ps = []\<close> by auto
  then have "changed_paths (ap_diffs r') = []" by (auto simp: changed_paths_def filter_empty_conv)
  moreover have del': "ap_deleted r' = []" using del \<open>ps = []\<close> by simp
  ultimately have rel': "ap_reloads r' = []" using rel reload_nothing by auto
  have "content_at v' p = content_at w' p" for p
  proof (cases "p \<in> fst ` set entries'")
    case True
    then obtain c where c: "final_content entries' p = Some c" using final_content_None [of entries' p] by blast
    with final_content_in [OF c] written 2(2) have "content_at v p = Some c" by blast
    with c appliedD(1) [OF app' True] content_cong [OF v(1)] show ?thesis by simp
  next
    case False
    with ps \<open>ps = []\<close> have "\<not> managed_file E (files v) paths' p" by auto
    with appliedD(3) [OF app' False] content_cong [OF v(1)] show ?thesis by simp
  qed
  with ds' del' rel' show ?thesis by blast
qed

section \<open>Properties\<close>

lemma os_lift [os_rules]: "(\<And>e. r = Inl e \<Longrightarrow> \<exists>m. e = OSError m) \<Longrightarrow> os_only (lift_result r)"
  by (auto simp: os_only_def lift_result_def)

lemma os_each [os_rules]: "(\<And>x. os_only (f x)) \<Longrightarrow> os_only (for_each f xs)" "(\<And>x. os_only (g x)) \<Longrightarrow> os_only (collect_over g xs)"
  by (induction xs) (auto intro!: os_rules)

lemma mapR_targets: "mapR (bird_target E) fs = Inl e \<Longrightarrow> \<exists>m. e = OSError m"
  by (induction fs) (auto simp: bindR_Inl bird_target_def split: if_splits option.splits)

text \<open>What a run raises once it has begun to write, and the state it leaves then.\<close>

lemma reload_raises:
  assumes "reload_step E cfg nr paths touched w = (Inl e, w')"
  shows "(\<exists>m. e = OSError m) \<or> e = UNDECODABLE"
proof -
  have run: "run_reloads E cmds v = (Inl x, v') \<Longrightarrow> x = UNDECODABLE" for cmds v x v'
    by (induction cmds arbitrary: v) (auto simp: bnd_def ret_def default_runner_def split: command_reply.splits sum.splits prod.splits)
  have "plan_reloads E touched a b fs = Inl x \<Longrightarrow> \<exists>m. x = OSError m" for a b fs x
    by (auto simp: plan_reloads_def bindR_Inl dest: mapR_targets)
  with assms run show ?thesis
    by (auto simp: reload_step_def bnd_def ret_def lift_result_def split: if_splits sum.splits prod.splits)
qed

lemma write_all_raises:
  "for_each (write_entry E) es w = (Inl e, w') \<Longrightarrow> (\<exists>m. e = OSError m) \<or> e = NULL_BYTE \<and> (\<exists>(p, c, pol) \<in> set es. CHR 0x00 \<in> set p)"
proof (induction es arbitrary: w)
  case (Cons x es)
  obtain p c pol where x: "x = (p, c, pol)" by (cases x)
  obtain r v where v: "atomic_write E p c pol w = (r, v)" by fastforce
  show ?case
  proof (cases r)
    case (Inl e0)
    with Cons.prems v x have "e0 = e" by (simp add: bnd_def)
    with atomic_write_raises [of E p c pol w e v] v Inl x show ?thesis by auto
  next
    case (Inr u)
    with Cons.prems v x have "for_each (write_entry E) es v = (Inl e, w')" by (simp add: bnd_def)
    from Cons.IH [OF this] show ?thesis by auto
  qed
qed (simp add: ret_def)

lemma carry_out_raises:
  assumes run: "carry_out E cfg nr paths entries ps ds w = (Inl e, w')"
    and ps: "set ps = {p. managed_file E (files w) paths p \<and> p \<notin> fst ` set entries}"
  shows "(\<exists>m. e = OSError m) \<or> e = NULL_BYTE \<and> (\<exists>(p, c, pol) \<in> set entries. CHR 0x00 \<in> set p)
    \<or> e = UNDECODABLE \<and> applied E paths entries w w'"
proof -
  let ?x = "rp_bird_extra_conf_path paths" and ?t = "\<lambda>del. sort (remdups (changed_paths ds @ del))"
  obtain r1 w1 where 1: "for_each (write_entry E) entries w = (r1, w1)" by fastforce
  obtain r2 w2 where 2: "ensure_policy ?x BIRD w1 = (r2, w2)" by fastforce
  obtain r3 w3 where 3: "collect_over delete_stale ps w2 = (r3, w3)" by fastforce
  have os: "os_only (ensure_policy ?x BIRD)" "os_only (collect_over delete_stale ps)"
    unfolding ensure_policy_def by (auto intro!: os_rules)
  consider "r1 = Inl e" "w' = w1" | "r2 = Inl e" | "r3 = Inl e" | del where "r1 = Inr ()" "r2 = Inr ()" "r3 = Inr del"
      "reload_step E cfg nr paths (?t del) w3 = (Inl e, w')"
    using run 1 2 3 by (auto simp: carry_out_def bnd_def ret_def split: sum.splits prod.splits)
  then show ?thesis
  proof cases
    case 1
    with \<open>for_each (write_entry E) entries w = (r1, w1)\<close> write_all_raises show ?thesis by blast
  next
    case 2
    with \<open>ensure_policy ?x BIRD w1 = (r2, w2)\<close> os show ?thesis unfolding os_only_def by blast
  next
    case 3
    with \<open>collect_over delete_stale ps w2 = (r3, w3)\<close> os show ?thesis unfolding os_only_def by blast
  next
    case (4 del)
    have never: "reload_step E cfg True paths t u = (Inr [], u)" for t u by (simp add: reload_step_def ret_def)
    have "carry_out E cfg True paths entries ps ds w = (Inr (del, []), w3)"
      using 4 1 2 3 by (simp add: carry_out_def bnd_def ret_def never)
    from carry_out_returns(1) [OF this ps] looksD [OF looks_reads(5) 4(4)] have "applied E paths entries w w'"
      by (simp add: applied_def content_at_def)
    with reload_raises [OF 4(4)] show ?thesis by blast
  qed
qed

text \<open>A run that is dry, or stops before it writes, leaves the files alone; any other one has a complete plan.\<close>

lemma apply_cached_stages:
  assumes run: "apply_cached E cfg cp dry nr cached w = (r, w')" and changed: "files w' \<noteq> files w"
  obtains paths entries warnings w1 ps ds u x where "\<not> dry" and "plan_files E cp (pl_payload cached) w = (Inr (paths, entries, warnings), w1)"
    and "set ps = {p. managed_file E (files w) paths p \<and> p \<notin> fst ` set entries}" and "files u = files w"
    and "carry_out E cfg nr paths entries ps ds u = (x, w')" and "\<And>e. r = Inl e \<Longrightarrow> x = Inl e"
proof -
  let ?df = "\<lambda>(path, content, policy :: FilePolicy). bnd (diff_file E path content) (\<lambda>d. ret [d])"
  obtain a w1 where 1: "plan_files E cp (pl_payload cached) w = (a, w1)" by fastforce
  from looksD [OF looks_reads(7) 1] have f1: "files w1 = files w" by simp
  from run changed 1 f1 obtain paths entries warnings where a: "a = Inr (paths, entries, warnings)"
    by (cases a) (auto simp: apply_cached_def bnd_def)
  obtain b w2 where 2: "collect_stale E (fst ` set entries) paths w1 = (b, w2)" by fastforce
  from looksD [OF looks_reads(3) 2] f1 have f2: "files w2 = files w" by simp
  from run changed 1 2 a f2 obtain ps where b: "b = Inr ps" by (cases b) (auto simp: apply_cached_def bnd_def)
  obtain c w3 where 3: "collect_over ?df entries w2 = (c, w3)" by fastforce
  have "looks (collect_over ?df entries)" by (auto intro!: looking split: prod.splits)
  from looksD [OF this 3] f2 have f3: "files w3 = files w" by simp
  from run changed 1 2 3 a b f3 obtain fd where c: "c = Inr fd" by (cases c) (auto simp: apply_cached_def bnd_def)
  obtain x w4 where 4: "(if dry then ret ([], []) else carry_out E cfg nr paths entries ps (fd @ map stale_diff ps)) w3 = (x, w4)" by fastforce
  from run 1 2 3 4 a b c have w4: "w' = w4" "r = Inl e \<Longrightarrow> x = Inl e" for e
    by (cases x; simp add: apply_cached_def bnd_def Let_def ret_def split: prod.splits)+
  from changed 4 w4(1) f3 have "\<not> dry" by (auto simp: ret_def)
  moreover have "set ps = {p. managed_file E (files w) paths p \<and> p \<notin> fst ` set entries}"
    using collect_stale_returns [of E "fst ` set entries" paths w1 ps w2] 2 b f1 by simp
  ultimately show thesis using that [OF _ 1 [unfolded a] _ f3 _ w4(2)] 4 w4(1) by simp
qed

lemma apply_state_returns:
  assumes "apply_state E cfg cp dry nr s = (Inr res, s')"
  obtains row v where "cached_row (ns_caches s (cfg_cache_db_path cfg)) = Some row" and "files v = files (ns_world s)"
    and "env v = env (ns_world s)" and "apply_cached E cfg cp dry nr row v = (Inr res, ns_world s')" and "ns_caches s' = ns_caches s"
proof -
  from assms obtain c s1 where r: "read_cache cfg s = (Inr c, s1)"
    and a: "(case c of None \<Rightarrow> raise (Dn42CtlError ''cache is empty'')
       | Some row \<Rightarrow> in_node (apply_cached E cfg cp dry nr row)) s1 = (Inr res, s')"
    by (auto simp: apply_state_def returns)
  from a obtain row where row: "c = Some row" and ac: "in_node (apply_cached E cfg cp dry nr row) s1 = (Inr res, s')"
    by (auto simp: returns split: option.splits)
  from r row have s1: "cached_row (ns_caches s (cfg_cache_db_path cfg)) = Some row" "ns_caches s1 = ns_caches s"
      "files (ns_world s1) = files (ns_world s)" "env (ns_world s1) = env (ns_world s)"
    by (auto simp: read_cache_def read_state_def returns cache_step_returns split: if_splits cache_file.splits)
  from ac s1(2) have "apply_cached E cfg cp dry nr row (ns_world s1) = (Inr res, ns_world s')" "ns_caches s' = ns_caches s"
    by (auto simp: in_node_def split: prod.splits)
  with that [OF s1(1,3,4)] show thesis by blast
qed

text \<open>
  C8. \<open>apply\<close> makes the files say what the payload says, and nothing else: when a run that is not dry
  returns, every rendered file has the rendered content, every other file under the generated
  names in the generated directories is gone, and every other file has its content.
\<close>

theorem apply_converges:
  assumes "apply_state E cfg cp False nr s = (Inr res, s')"
  shows "\<exists>row paths entries warnings v v'. cached_row (ns_caches s (cfg_cache_db_path cfg)) = Some row
    \<and> files v = files (ns_world s) \<and> plan_files E cp (pl_payload row) v = (Inr (paths, entries, warnings), v')
    \<and> ap_revision res = pl_revision row \<and> ap_written res = map fst entries
    \<and> (\<forall>p \<in> fst ` set entries. content_at (ns_world s') p = final_content entries p)
    \<and> (\<forall>p. p \<notin> fst ` set entries \<and> managed_file E (files (ns_world s)) paths p \<longrightarrow> files (ns_world s') p = None)
    \<and> (\<forall>p. p \<notin> fst ` set entries \<and> \<not> managed_file E (files (ns_world s)) paths p \<longrightarrow>
         content_at (ns_world s') p = content_at (ns_world s) p)"
proof -
  obtain row v where r: "cached_row (ns_caches s (cfg_cache_db_path cfg)) = Some row" "files v = files (ns_world s)"
    "apply_cached E cfg cp False nr row v = (Inr res, ns_world s')"
    by (rule apply_state_returns [OF assms]) (rule that)
  obtain paths entries warnings v' ps where p: "plan_files E cp (pl_payload row) v = (Inr (paths, entries, warnings), v')"
    and ds: "ap_diffs res = map (entry_diff E v) entries @ map stale_diff ps" and rv: "ap_revision res = pl_revision row"
    and app: "applied E paths entries v (ns_world s')" and wr: "ap_written res = map fst entries"
    by (rule apply_cached_returns [OF r(3)]) (rule that, assumption, assumption, assumption, simp, simp)
  with r p app wr rv content_cong [OF r(2)] show ?thesis unfolding applied_def by (intro exI [of _ row] exI [of _ paths] exI [of _ entries]) auto
qed

text \<open>
  C11. Applying the same state again does nothing: of two runs in a row without failing file
  operations, the second finds every file unchanged, deletes nothing, reloads nothing and
  leaves every content, provided the configuration with the pushed addresses is one that can
  be loaded, no two rendered files have the same path, none of them is \<open>config.toml\<close> or
  \<open>extra.conf\<close> under a generated name, and none has a carriage return, which \<open>read_text\<close> would
  read as a line feed.
\<close>

theorem apply_idempotent:
  assumes "\<forall>t. \<not> io_fault (env (ns_world s)) t" and "steady_listing E"
    and row: "cached_row (ns_caches s (cfg_cache_db_path cfg)) = Some row"
    and plan: "planned_files E cp (pl_payload row) (ns_world s) = Inr (paths, entries)" and apart: "config_apart paths entries"
    and ok: "\<forall>c. config_after E (pl_payload row) (config_at (ae_toml E) (ns_world s) cp) = Some c \<longrightarrow> app_config_ok c \<and> toml_keeps (ae_toml E) c"
    and run: "apply_state E cfg cp False nr s = (Inr r, s1)" and again: "apply_state E cfg cp False nr' s1 = (Inr r2, s2)"
  shows "(\<forall>d \<in> set (ap_diffs r2). ad_action d = ''unchanged'') \<and> ap_deleted r2 = [] \<and> ap_reloads r2 = []
    \<and> (\<forall>p. content_at (ns_world s2) p = content_at (ns_world s1) p)"
proof -
  obtain row1 w where 1: "cached_row (ns_caches s (cfg_cache_db_path cfg)) = Some row1" "files w = files (ns_world s)" "env w = env (ns_world s)"
    "apply_cached E cfg cp False nr row1 w = (Inr r, ns_world s1)" "ns_caches s1 = ns_caches s"
    by (rule apply_state_returns [OF run]) (rule that)
  obtain row2 v where 2: "cached_row (ns_caches s1 (cfg_cache_db_path cfg)) = Some row2" "files v = files (ns_world s1)"
    "env v = env (ns_world s1)" "apply_cached E cfg cp False nr' row2 v = (Inr r2, ns_world s2)"
    by (rule apply_state_returns [OF again]) (rule that)
  have rows: "row1 = row" "row2 = row" using 1 2 row by simp_all
  have "env (ns_world s1) = env w" by (rule apply_cached_returns [OF 1(4)]) simp
  moreover have "planned_files E cp (pl_payload row) w = planned_files E cp (pl_payload row) (ns_world s)"
    "config_at (ae_toml E) w cp = config_at (ae_toml E) (ns_world s) cp"
    using 1(2) by (simp_all add: planned_files_def config_at_def content_at_def)
  ultimately show ?thesis
    using apply_again [OF _ assms(2) 1(4) [unfolded rows] 2(4) [unfolded rows] 2(2)] assms(1) plan apart ok 1(3) 2(3) by simp
qed

text \<open>
  C23. Whatever a payload holds, it is rendered before anything is written. A run changes a file only if
  it is not dry and every file of the payload was rendered; what it can raise then is an \<open>OSError\<close>,
  the \<open>ValueError\<close> of a rendered path with a null byte, or, once every file is in place, the
  \<open>UnicodeDecodeError\<close> of what a daemon printed. So a missing key, a value of the wrong type or an empty address leaves
  every file as it was. No run changes what is cached.
\<close>

theorem apply_renders_first:
  assumes "apply_state E cfg cp dry nr s = (r, s')"
  shows "(files (ns_world s') \<noteq> files (ns_world s) \<longrightarrow> \<not> dry \<and> (\<exists>row v paths entries warnings v'.
       cached_row (ns_caches s (cfg_cache_db_path cfg)) = Some row \<and> files v = files (ns_world s)
     \<and> plan_files E cp (pl_payload row) v = (Inr (paths, entries, warnings), v')
     \<and> (\<forall>e. r = Inl e \<longrightarrow> (\<exists>m. e = OSError m) \<or> e = NULL_BYTE \<and> (\<exists>(p, c, pol) \<in> set entries. CHR 0x00 \<in> set p)
           \<or> e = UNDECODABLE \<and> applied E paths entries (ns_world s) (ns_world s'))))
    \<and> (\<forall>p. cached_row (ns_caches s' p) = cached_row (ns_caches s p))"
proof (intro conjI impI)
  have "same_rows (apply_state E cfg cp dry nr)" unfolding apply_state_def
    by (auto intro!: same_rows_rules same_rows_read split: option.splits)
  then show "\<forall>p. cached_row (ns_caches s' p) = cached_row (ns_caches s p)" using assms unfolding same_rows_def by (metis snd_conv)
next
  assume changed: "files (ns_world s') \<noteq> files (ns_world s)"
  obtain x s1 where x: "read_cache cfg s = (x, s1)" by fastforce
  then have f: "files (ns_world s1) = files (ns_world s)"
    by (auto simp: read_cache_def bnd_def read_state_def ret_def cache_step_def Let_def split: if_splits prod.splits)
  from assms x changed f obtain row where row: "x = Inr (Some row)"
    by (cases x) (auto simp: apply_state_def bnd_def raise_def split: option.splits)
  with x have cr: "cached_row (ns_caches s (cfg_cache_db_path cfg)) = Some row"
    by (auto simp: read_cache_def read_state_def returns cache_step_returns split: if_splits cache_file.splits)
  from assms x row have run: "apply_cached E cfg cp dry nr row (ns_world s1) = (r, ns_world s')"
    by (auto simp: apply_state_def bnd_def in_node_def split: prod.splits)
  obtain paths entries warnings v' ps ds u y where st: "\<not> dry" "plan_files E cp (pl_payload row) (ns_world s1) = (Inr (paths, entries, warnings), v')"
      "set ps = {p. managed_file E (files (ns_world s1)) paths p \<and> p \<notin> fst ` set entries}" "files u = files (ns_world s1)"
      "carry_out E cfg nr paths entries ps ds u = (y, ns_world s')" "\<And>e. r = Inl e \<Longrightarrow> y = Inl e"
    by (rule apply_cached_stages [OF run]) (use changed f in simp, rule that)
  have "(\<exists>m. e = OSError m) \<or> e = NULL_BYTE \<and> (\<exists>(p, c, pol) \<in> set entries. CHR 0x00 \<in> set p)
           \<or> e = UNDECODABLE \<and> applied E paths entries (ns_world s) (ns_world s')" if "r = Inl e" for e
    using carry_out_raises [of E cfg nr paths entries ps ds u e "ns_world s'"] st that f by (simp add: applied_def content_at_def)
  with st(1,2) cr f show "\<not> dry" and "\<exists>row v paths entries warnings v'.
       cached_row (ns_caches s (cfg_cache_db_path cfg)) = Some row \<and> files v = files (ns_world s)
     \<and> plan_files E cp (pl_payload row) v = (Inr (paths, entries, warnings), v')
     \<and> (\<forall>e. r = Inl e \<longrightarrow> (\<exists>m. e = OSError m) \<or> e = NULL_BYTE \<and> (\<exists>(p, c, pol) \<in> set entries. CHR 0x00 \<in> set p)
           \<or> e = UNDECODABLE \<and> applied E paths entries (ns_world s) (ns_world s'))" by blast+
qed

section \<open>Runs that return\<close>

text \<open>No path has a null byte, names for new files are new, and what cannot be replaced is there.\<close>

definition room :: "apply_env \<Rightarrow> entry list \<Rightarrow> world \<Rightarrow> bool" where
  "room E entries w \<longleftrightarrow> (\<forall>t. \<not> io_fault (env w) t) \<and> (\<forall>(path, c, pol) \<in> set entries.
     CHR 0x00 \<notin> set path \<and> (\<forall>t. files w (ae_tmp_name E t path) = None \<and> ae_tmp_name E t path \<notin> fst ` set entries)
     \<and> (ae_tmp_denied E path \<or> ae_busy E path \<longrightarrow> files w path \<noteq> None))"

lemma apply_policy_total: obtains w' where "apply_policy p pol w = (Inr (), w')"
  using apply_policy_run by (cases "apply_policy p pol w") blast

lemma in_place_total:
  assumes "\<forall>t. \<not> io_fault (env w) t" and "files w path \<noteq> None"
  obtains w' where "write_in_place E path c pol w = (Inr (), w')"
proof -
  obtain w1 where 1: "open_truncated path w = (Inr (), w1)" and e: "env w1 = env w" "content_at w1 path = Some []"
    using assms by (auto simp: open_truncated_def update_file_def content_at_def)
  obtain r w2 where 2: "write_loop E path (utf8 c) 0 w1 = (r, w2)" by fastforce
  with write_text_run [OF 2 e(2)] assms(1) e have r: "r = Inr ()" "env w2 = env w" by (auto simp: elsewhere_def)
  obtain w3 where 3: "io_step (\<lambda>w. w) w2 = (Inr (), w3)" using r assms(1) by (simp add: io_step_def)
  obtain w4 where "apply_policy path pol w3 = (Inr (), w4)" by (rule apply_policy_total)
  with that 1 2 3 r show thesis by (simp add: write_in_place_def bnd_def)
qed

lemma atomic_write_total:
  assumes "\<forall>t. \<not> io_fault (env w) t" and "\<forall>t. files w (ae_tmp_name E t path) = None"
    and "ae_tmp_denied E path \<or> ae_busy E path \<longrightarrow> files w path \<noteq> None" and "CHR 0x00 \<notin> set path"
  obtains w' where "atomic_write E path c pol w = (Inr (), w')"
proof -
  let ?w1 = "next_tick w" and ?tmp = "ae_tmp_name E (tick (next_tick w)) path"
  have 1: "make_parent path w = (Inr (), ?w1)"
    using assms(1,4) parent_chars [of path] by (auto simp: make_parent_def mkdir_parent_def io_step_def)
  show thesis
  proof (cases "ae_tmp_denied E path")
    case True
    let ?w3 = "next_tick (next_tick ?w1)"
    have "mkstemp E path ?w1 = (Inr None, next_tick ?w1)" "file_exists path (next_tick ?w1) = (Inr True, ?w3)"
      using True assms by (simp_all add: mkstemp_def file_exists_def Let_def)
    moreover obtain w' where "write_in_place E path c pol ?w3 = (Inr (), w')"
      by (rule in_place_total [of ?w3 path]) (use True assms in auto)
    ultimately show thesis using that 1 by (simp add: atomic_write_def bnd_def)
  next
    case False
    define w2 where "w2 = (next_tick ?w1)\<lparr> files := (files w)(?tmp := Some \<lparr> f_content = [], f_mode = 6 * 64, f_group = None \<rparr>) \<rparr>"
    have 2: "mkstemp E path ?w1 = (Inr (Some ?tmp), w2)" using False assms by (simp add: mkstemp_def Let_def w2_def)
    define w3 where "w3 = put_content ?tmp c (next_tick w2)"
    have 3: "put_text ?tmp c w2 = (Inr (), w3)" using assms(1) by (simp add: put_text_def w3_def w2_def)
    obtain w4 where 4: "apply_policy ?tmp pol w3 = (Inr (), w4)" by (rule apply_policy_total)
    have e: "env w4 = env w" "\<And>p. p \<noteq> ?tmp \<Longrightarrow> files w4 p = files w p"
      using apply_policy_run [OF 4] by (simp_all add: elsewhere_def w3_def w2_def put_content_def)
    show thesis
    proof (cases "ae_busy E path")
      case False
      then obtain w5 where "os_replace E ?tmp path w4 = (Inr True, w5)" using assms(1) e by (simp add: os_replace_def)
      with that 1 2 3 4 show thesis by (simp add: atomic_write_def bnd_def try_except_def ret_def)
    next
      case True
      with assms have pt: "files w path \<noteq> None" "path \<noteq> ?tmp" by metis+
      let ?w6 = "next_tick (next_tick w4)"
      have 5: "os_replace E ?tmp path w4 = (Inr False, next_tick w4)" "file_exists path (next_tick w4) = (Inr True, ?w6)"
        using True assms(1) e pt by (simp_all add: os_replace_def file_exists_def)
      obtain w7 where 6: "unlink ?tmp ?w6 = (Inr (), w7)" and f: "files w7 = (files w4)(?tmp := None)" "env w7 = env w"
        using assms(1) e by (simp add: unlink_def io_step_def)
      obtain w' where "write_in_place E path c pol w7 = (Inr (), w')"
        by (rule in_place_total [of w7 path]) (use assms(1) e f pt in auto)
      with that 1 2 3 4 5 6 show thesis by (simp add: atomic_write_def bnd_def try_except_def)
    qed
  qed
qed

lemma write_all_total:
  assumes "room E entries w"
  obtains w' where "for_each (write_entry E) entries w = (Inr (), w')"
proof -
  have "\<exists>w'. for_each (write_entry E) es v = (Inr (), w')"
    if "set es \<subseteq> set entries" "env v = env w" "\<And>p. p \<notin> fst ` set entries \<Longrightarrow> files v p = files w p" "\<And>p. files w p \<noteq> None \<Longrightarrow> files v p \<noteq> None" for es v
    using that
  proof (induction es arbitrary: v)
    case (Cons e es)
    obtain path c pol where e: "e = (path, c, pol)" by (cases e)
    have m: "(path, c, pol) \<in> set entries" using Cons.prems(1) e by simp
    from bspec [OF conjunct2 [OF assms [unfolded room_def]] m] have r: "CHR 0x00 \<notin> set path" "\<forall>t. files w (ae_tmp_name E t path) = None \<and> ae_tmp_name E t path \<notin> fst ` set entries"
        "ae_tmp_denied E path \<or> ae_busy E path \<longrightarrow> files w path \<noteq> None" by simp_all
    obtain v1 where v1: "atomic_write E path c pol v = (Inr (), v1)"
    proof (rule atomic_write_total [of v E path])
      show "\<forall>t. \<not> io_fault (env v) t" using assms Cons.prems(2) by (simp add: room_def)
      show "\<forall>t. files v (ae_tmp_name E t path) = None" using r Cons.prems(3) by simp
      show "ae_tmp_denied E path \<or> ae_busy E path \<longrightarrow> files v path \<noteq> None" using r Cons.prems(4) by blast
      show "CHR 0x00 \<notin> set path" by (rule r(1))
    qed
    note a = atomic_write_returns [OF v1]
    have p: "path \<in> fst ` set entries" using Cons.prems(1) e by force
    have "\<exists>w'. for_each (write_entry E) es v1 = (Inr (), w')"
    proof (rule Cons.IH)
      show "set es \<subseteq> set entries" "env v1 = env w" using Cons.prems a by (auto simp: elsewhere_def)
      show "files v1 q = files w q" if "q \<notin> fst ` set entries" for q using that a Cons.prems(3) p unfolding elsewhere_def by metis
      show "files v1 q \<noteq> None" if "files w q \<noteq> None" for q
        using that a Cons.prems(4) unfolding elsewhere_def content_at_def by (metis None_eq_map_option_iff option.distinct(1))
    qed
    with v1 e show ?case by (auto simp: bnd_def)
  qed (simp add: ret_def)
  from this [of entries w] show thesis using that by auto
qed

text \<open>Operations that return while no file operation fails.\<close>

definition smooth :: "'a wop \<Rightarrow> bool" where
  "smooth m \<longleftrightarrow> (\<forall>w. (\<forall>t. \<not> io_fault (env w) t) \<longrightarrow> (\<exists>x w'. m w = (Inr x, w') \<and> env w' = env w))"

lemma smoothD: "smooth m \<Longrightarrow> \<forall>t. \<not> io_fault (env w) t \<Longrightarrow> \<exists>x w'. m w = (Inr x, w') \<and> env w' = env w"
  by (simp add: smooth_def)

named_theorems smoothing \<open>operations that return while no file operation fails\<close>

lemma smooth_bnd [smoothing]:
  assumes "smooth m" and "\<And>x. smooth (f x)"
  shows "smooth (bnd m f)"
  unfolding smooth_def
proof (intro allI impI)
  fix w :: world
  assume q: "\<forall>t. \<not> io_fault (env w) t"
  with assms(1) obtain x v where v: "m w = (Inr x, v)" "env v = env w" unfolding smooth_def by blast
  from smoothD [OF assms(2), of v x] q v(2) obtain y u where "f x v = (Inr y, u)" "env u = env v" by auto
  with v show "\<exists>y u. bnd m f w = (Inr y, u) \<and> env u = env w" by (auto simp: bnd_def)
qed

lemma smooth_basic [smoothing]: "smooth (ret x)" "smooth (file_exists p)" "smooth (stale_in E X dp)" "smooth (delete_stale p)"
    "smooth (diff_file E path c)"
  by (auto simp: smooth_def ret_def file_exists_def stale_in_def delete_stale_def diff_file_def bnd_def read_text_def
      read_file_def split: prod.splits option.splits)

lemma smooth_collect [smoothing]: "(\<And>x. smooth (f x)) \<Longrightarrow> smooth (collect_over f xs)"
  by (induction xs) (auto intro!: smoothing)

lemma smooth_policy [smoothing]: "smooth (ensure_policy p pol)"
proof -
  have "smooth (apply_policy p pol)" unfolding smooth_def
    using apply_policy_run by (metis apply_policy_total elsewhere_def)
  then show ?thesis unfolding ensure_policy_def by (auto intro!: smoothing)
qed

lemma smooth_reload [smoothing]:
  assumes "\<And>p. ae_resolve E p \<noteq> None" and "\<And>t cmd. ae_run E t cmd \<noteq> Undecodable"
  shows "smooth (reload_step E cfg nr paths touched)"
proof -
  have "smooth (default_runner E cmd)" for cmd
    using assms(2) by (auto simp: smooth_def default_runner_def split: command_reply.splits)
  note [smoothing] = this
  have r: "smooth (run_reloads E cmds)" for cmds by (induction cmds) (auto intro!: smoothing)
  have "bird_target E f \<noteq> Inl e" for f e using assms(1) [of f] by (auto simp: bird_target_def)
  then have "\<exists>xs. mapR (bird_target E) fs = Inr xs" for fs
    by (induction fs) (auto simp: bindR_def split: sum.splits)
  note m = this
  have "\<exists>cmds. plan_reloads E touched a b fs = Inr cmds" for a b fs
  proof -
    from m [of fs] obtain xs where "mapR (bird_target E) fs = Inr xs" by blast
    then show ?thesis by (simp add: plan_reloads_def bindR_def)
  qed
  then have "smooth (lift_result (plan_reloads E touched a b fs))" for a b fs by (fastforce simp: smooth_def lift_result_def)
  with r show ?thesis unfolding reload_step_def by (auto intro!: smoothing)
qed

lemma plan_files_total:
  assumes "\<forall>t. \<not> io_fault (env w) t" and plan: "planned_files E cp payload w = Inr (paths, entries)"
  obtains warnings w1 where "plan_files E cp payload w = (Inr (paths, entries, warnings), w1)"
proof -
  let ?T = "ae_toml E" and ?ac = "config_at (ae_toml E) w cp" and ?block = "dict_get_value payload ''node''"
  from plan obtain pe ne where p: "paths = resolve_paths ?ac cp" "peer_entries E paths payload = Inr pe" "entries = pe @ ne"
      "node_plan E payload paths ?ac (files w (rp_bird_extra_conf_path paths) \<noteq> None) = Inr ne"
    by (auto simp: planned_files_def Let_def bindR_Inr)
  obtain r u where l: "load_config ?T cp w = (r, u)" by fastforce
  have ac: "(case r of Inr c \<Rightarrow> Some c | Inl _ \<Rightarrow> None) = ?ac" using load_config_at [OF _ l] assms(1) by simp
  from l ac load_config_error [of ?T cp w _ u] have t: "try_except (bnd (load_config ?T cp) (\<lambda>c. ret (Some c)))
            (\<lambda>e. case e of ConfigError _ \<Rightarrow> ret None | _ \<Rightarrow> raise e) w = (Inr ?ac, u)"
    by (cases r) (auto simp: try_except_def bnd_def ret_def)
  from looksD [OF looks_load_config l] have u: "files u = files w" "env u = env w" by simp_all
  have "\<exists>ws v. (if json_truthy ?block then render_node_config_files E ?block paths ?ac else ret ([], [])) u = (Inr (ne, ws), v)"
    using p(4) u assms(1)
    by (auto simp: node_plan_def render_node_config_files_def Let_def bindR_Inr bnd_def lift_result_def ret_def file_exists_def
        split: if_splits option.splits)
  then obtain ws v where n: "(if json_truthy ?block then render_node_config_files E ?block paths ?ac else ret ([], [])) u = (Inr (ne, ws), v)" by blast
  have "plan_files E cp payload w = (Inr (paths, entries, ws), v)"
    unfolding plan_files_def Let_def returns
    by (rule exI, rule exI, rule conjI [OF t], rule exI, rule exI, rule conjI, rule conjI [OF p(2) [unfolded p(1)] refl],
        rule exI, rule exI, rule conjI [OF n [unfolded p(1)]]) (simp add: p(1,3))
  then show thesis by (rule that)
qed

lemma apply_total:
  assumes "cached_row (ns_caches s (cfg_cache_db_path cfg)) = Some row" and "\<forall>t. \<not> sql_fault (env (ns_world s)) t"
    and plan: "planned_files E cp (pl_payload row) (ns_world s) = Inr (paths, entries)"
    and room: "room E entries (ns_world s)" and res: "\<forall>p. ae_resolve E p \<noteq> None" and decodable: "\<forall>t cmd. ae_run E t cmd \<noteq> Undecodable"
  shows "\<exists>r s'. apply_state E cfg cp dry nr s = (Inr r, s') \<and> ap_revision r = pl_revision row"
proof -
  let ?w = "next_tick (ns_world s)"
  have quiet: "\<forall>t. \<not> io_fault (env ?w) t" using room by (simp add: room_def)
  have rd: "read_cache cfg s = (Inr (Some row), s\<lparr> ns_world := ?w \<rparr>)"
    using assms(1,2)
    by (cases "ns_caches s (cfg_cache_db_path cfg)")
      (auto simp: read_cache_def bnd_def read_state_def cache_step_def Let_def fun_upd_idem split: option.splits)
  have "planned_files E cp (pl_payload row) ?w = Inr (paths, entries)" using plan by (simp add: planned_files_def config_at_def)
  with quiet obtain warnings w1 where p: "plan_files E cp (pl_payload row) ?w = (Inr (paths, entries, warnings), w1)"
    by (rule plan_files_total)
  from looksD [OF looks_reads(7) p] have w1: "files w1 = files (ns_world s)" "env w1 = env (ns_world s)" by simp_all
  have cs: "smooth (collect_stale E (fst ` set entries) paths)" unfolding collect_stale_def by (intro smoothing)
  from smoothD [OF cs, of w1] quiet w1(2) obtain ps w2 where c: "collect_stale E (fst ` set entries) paths w1 = (Inr ps, w2)" by auto
  from looksD [OF looks_reads(3) c] w1 have w2: "files w2 = files (ns_world s)" "env w2 = env (ns_world s)" by simp_all
  let ?df = "\<lambda>(path, content, policy :: FilePolicy). bnd (diff_file E path content) (\<lambda>d. ret [d])"
  have "smooth (collect_over ?df entries)" by (auto intro!: smoothing split: prod.splits)
  from smoothD [OF this, of w2] quiet w2(2) obtain fd w3 where d: "collect_over ?df entries w2 = (Inr fd, w3)" by auto
  have "looks (collect_over ?df entries)" by (auto intro!: looking split: prod.splits)
  from looksD [OF this d] w2 have w3: "files w3 = files (ns_world s)" "env w3 = env (ns_world s)" by simp_all
  have "room E entries w3" using room w3 by (simp add: room_def)
  then obtain w4 where wr: "for_each (write_entry E) entries w3 = (Inr (), w4)" by (rule write_all_total)
  from write_all_returns(1) [OF wr] quiet w3 have q4: "\<forall>t. \<not> io_fault (env w4) t" by simp
  have rest: "smooth (bnd (ensure_policy (rp_bird_extra_conf_path paths) BIRD) (\<lambda>_.
     bnd (collect_over delete_stale ps) (\<lambda>deleted.
     bnd (reload_step E cfg nr paths (sort (remdups (changed_paths ds @ deleted)))) (\<lambda>reloads.
     ret (deleted, reloads)))))" for ds using res decodable by (intro smoothing) auto
  have "\<exists>del rel w5. (if dry then ret ([], []) else carry_out E cfg nr paths entries ps ds) w3 = (Inr (del, rel), w5)" for ds
    using smoothD [OF rest [of ds] q4] wr by (auto simp: carry_out_def bnd_def [of "for_each (write_entry E) entries"] ret_def)
  then obtain del rel w5 where "(if dry then ret ([], []) else carry_out E cfg nr paths entries ps (fd @ map stale_diff ps)) w3 = (Inr (del, rel), w5)"
    by blast
  with p c d have "\<exists>r w'. apply_cached E cfg cp dry nr row ?w = (Inr r, w') \<and> ap_revision r = pl_revision row"
    by (simp add: apply_cached_def bnd_def Let_def ret_def)
  with rd show ?thesis by (auto simp: apply_state_def bnd_def in_node_def)
qed

text \<open>
  C24. \<open>apply\<close> returns: if there is a cached state that can be rendered, no operation fails, no rendered path has a null
  byte, the names \<open>mkstemp\<close> picks are new, what cannot be replaced exists, every path can be resolved
  and what the daemons print can be decoded, a run ends with a result, whether or not the daemons
  report an error.
\<close>

theorem apply_returns:
  assumes "cached_row (ns_caches s (cfg_cache_db_path cfg)) = Some row" and "\<forall>t. \<not> sql_fault (env (ns_world s)) t"
    and "planned_files E cp (pl_payload row) (ns_world s) = Inr (paths, entries)"
    and "room E entries (ns_world s)" and "\<forall>p. ae_resolve E p \<noteq> None" and "\<forall>t cmd. ae_run E t cmd \<noteq> Undecodable"
  shows "\<exists>r s'. apply_state E cfg cp dry nr s = (Inr r, s') \<and> ap_revision r = pl_revision row"
  using assms by (rule apply_total)

section \<open>Reloads\<close>

lemma run_reloads_cmds: "run_reloads E cmds w = (Inr as, w') \<Longrightarrow> map ra_cmd as = cmds"
  by (induction cmds arbitrary: as w) (auto simp: returns default_runner_def split: command_reply.splits)

lemma mapR_id: "(\<And>x. x \<in> set xs \<Longrightarrow> f x = Inr x) \<Longrightarrow> mapR f xs = Inr xs"
  by (induction xs) (simp_all add: bindR_def)

lemma plan_unlinked:
  assumes "\<forall>p. ae_resolve E p = Some p"
  shows "plan_reloads E touched nd bd fs = Inr ((if \<exists>p \<in> set touched. path_parent p = nd then [NETWORKCTL_RELOAD] else [])
    @ (if \<exists>p \<in> set touched. path_parent p = bd \<or> p \<in> set fs then [BIRDC_CONFIGURE] else []))"
  using mapR_id [of fs "bird_target E"] assms by (simp add: plan_reloads_def bindR_def is_under_def bird_target_def)

text \<open>What a reader finds at a path, every way to end a line being the same.\<close>

definition text_at :: "world \<Rightarrow> string \<Rightarrow> string option" where
  "text_at w p = map_option universal_newlines (content_at w p)"

definition alters :: "world \<Rightarrow> world \<Rightarrow> string set" where
  "alters w w' = {p. text_at w p \<noteq> text_at w' p}"

text \<open>The paths a run reports as changed or deleted are those whose text it alters.\<close>

lemma reported_alters:
  assumes app: "applied E paths entries w w'" and "distinct (map fst entries)" and line: "\<forall>(path, c, pol) \<in> set entries. CHR 0x0D \<notin> set c"
    and ps: "set ps = {p. managed_file E (files w) paths p \<and> p \<notin> fst ` set entries}"
  shows "set (changed_paths (map (entry_diff E w) entries @ map stale_diff ps)) \<union> set ps = alters w w'"
proof (rule set_eqI)
  fix p
  have diff: "p \<in> set (changed_paths (map (entry_diff E w) entries @ map stale_diff ps)) \<longleftrightarrow>
      (\<exists>c pol. (p, c, pol) \<in> set entries \<and> text_at w p \<noteq> Some c)"
  proof -
    let ?P = "\<lambda>d. ad_path d = p \<and> (ad_action d = ''create'' \<or> ad_action d = ''update'')"
    have s: "p \<in> set (changed_paths ds) \<longleftrightarrow> (\<exists>d \<in> set ds. ?P d)" for ds by (auto simp: changed_paths_def)
    have d: "?P (entry_diff E w e) \<longleftrightarrow> fst e = p \<and> text_at w p \<noteq> Some (fst (snd e))" for e
      by (cases e) (auto simp: entry_diff_def text_at_def split: option.splits)
    have n: "\<not> ?P (stale_diff q)" for q by (simp add: stale_diff_def)
    have "p \<in> set (changed_paths (map (entry_diff E w) entries @ map stale_diff ps)) \<longleftrightarrow> (\<exists>e \<in> set entries. ?P (entry_diff E w e))"
      unfolding s set_append set_map bex_Un bex_simps(7) using n by blast
    then show ?thesis unfolding d by (metis fst_conv prod.collapse snd_conv)
  qed
  show "p \<in> set (changed_paths (map (entry_diff E w) entries @ map stale_diff ps)) \<union> set ps \<longleftrightarrow> p \<in> alters w w'"
  proof (cases "p \<in> fst ` set entries")
    case True
    then obtain c pol where e: "(p, c, pol) \<in> set entries" by force
    have uniq: "c' = c" if "(p, c', pol') \<in> set entries" for c' pol'
      using final_content_distinct [OF assms(2) that] final_content_distinct [OF assms(2) e] by simp
    from appliedD(1) [OF app True] final_content_distinct [OF assms(2) e] have "content_at w' p = Some c" by simp
    moreover have "universal_newlines c = c" using line e universal_newlines_id by auto
    ultimately have "text_at w' p = Some c" by (simp add: text_at_def)
    moreover have "p \<notin> set ps" using True ps by simp
    moreover have "(\<exists>c' pol. (p, c', pol) \<in> set entries \<and> text_at w p \<noteq> Some c') \<longleftrightarrow> text_at w p \<noteq> Some c" using e uniq by blast
    ultimately show ?thesis unfolding Un_iff diff by (simp add: alters_def)
  next
    case False
    then have nd: "\<not> (\<exists>c pol. (p, c, pol) \<in> set entries \<and> text_at w p \<noteq> Some c)" by force
    show ?thesis
    proof (cases "managed_file E (files w) paths p")
      case True
      with appliedD(2) [OF app False] have "text_at w' p = None" "text_at w p \<noteq> None" by (auto simp: text_at_def content_at_def managed_file_def)
      moreover have "p \<in> set ps" using True False ps by simp
      ultimately show ?thesis by (simp add: alters_def)
    next
      case m: False
      with appliedD(3) [OF app False] have "text_at w' p = text_at w p" by (simp add: text_at_def)
      moreover have "p \<notin> set ps" using m ps by simp
      ultimately show ?thesis unfolding Un_iff diff using nd by (simp add: alters_def)
    qed
  qed
qed

lemma reload_commands:
  assumes "\<forall>p. ae_resolve E p = Some p" and l: "reload_step E cfg nr paths touched u = (Inr rel, u')"
  shows "map ra_cmd rel = (if nr \<or> cfg_reload_policy cfg = RELOAD_POLICY_NEVER then [] else
      (if \<exists>p \<in> set touched. path_parent p = rp_networkd_dir paths then [NETWORKCTL_RELOAD] else [])
    @ (if \<exists>p \<in> set touched. path_parent p = rp_bird_peers_dir paths
          \<or> p \<in> {rp_babel_conf_path paths, rp_bird_conf_path paths, rp_bird_extra_conf_path paths} then [BIRDC_CONFIGURE] else []))"
proof (cases "nr \<or> cfg_reload_policy cfg = RELOAD_POLICY_NEVER")
  case True
  with l show ?thesis by (auto simp: reload_step_def returns)
next
  case off: False
  let ?fs = "[rp_babel_conf_path paths, rp_bird_conf_path paths, rp_bird_extra_conf_path paths]"
  from l off obtain cmds where c: "run_reloads E cmds u = (Inr rel, u')"
    "plan_reloads E touched (rp_networkd_dir paths) (rp_bird_peers_dir paths) ?fs = Inr cmds"
    by (auto simp: reload_step_def returns)
  from c(2) run_reloads_cmds [OF c(1)] off show ?thesis unfolding plan_unlinked [OF assms(1)] by auto
qed

text \<open>What a run has done, when no file operation fails.\<close>

lemma apply_state_applied:
  assumes quiet: "\<forall>t. \<not> io_fault (env (ns_world s)) t" and row: "cached_row (ns_caches s (cfg_cache_db_path cfg)) = Some row"
    and plan: "planned_files E cp (pl_payload row) (ns_world s) = Inr (paths, entries)"
    and run: "apply_state E cfg cp False nr s = (Inr r, s')"
  obtains ps u u' where "applied E paths entries (ns_world s) (ns_world s')"
    and "set ps = {p. managed_file E (files (ns_world s)) paths p \<and> p \<notin> fst ` set entries}" and "set (ap_deleted r) = set ps"
    and "ap_diffs r = map (entry_diff E (ns_world s)) entries @ map stale_diff ps"
    and "reload_step E cfg nr paths (sort (remdups (changed_paths (ap_diffs r) @ ap_deleted r))) u = (Inr (ap_reloads r), u')"
proof -
  obtain row1 v where v: "cached_row (ns_caches s (cfg_cache_db_path cfg)) = Some row1" "files v = files (ns_world s)" "env v = env (ns_world s)"
      "apply_cached E cfg cp False nr row1 v = (Inr r, ns_world s')"
    by (rule apply_state_returns [OF run]) (rule that)
  with row have rr: "row1 = row" by simp
  obtain paths0 entries0 warnings w1 ps where p: "plan_files E cp (pl_payload row) v = (Inr (paths0, entries0, warnings), w1)"
    and ps: "set ps = {p. managed_file E (files v) paths0 p \<and> p \<notin> fst ` set entries0}"
    and ds: "ap_diffs r = map (entry_diff E v) entries0 @ map stale_diff ps" and app: "applied E paths0 entries0 v (ns_world s')"
    and del: "set (ap_deleted r) = set ps"
    and l: "\<exists>u u'. reload_step E cfg nr paths0 (sort (remdups (changed_paths (ap_diffs r) @ ap_deleted r))) u = (Inr (ap_reloads r), u')"
    by (rule apply_cached_returns [OF v(4) [unfolded rr]]) (rule that, assumption, assumption, assumption, simp, simp, simp)
  have "planned_files E cp (pl_payload row) v = planned_files E cp (pl_payload row) (ns_world s)"
    using v(2) by (simp add: planned_files_def config_at_def content_at_def)
  with planned_returns [OF _ p] plan quiet v(3) have pe: "paths0 = paths" "entries0 = entries" by simp_all
  from l obtain u u' where u: "reload_step E cfg nr paths0 (sort (remdups (changed_paths (ap_diffs r) @ ap_deleted r))) u = (Inr (ap_reloads r), u')" by blast
  have "applied E paths entries (ns_world s) (ns_world s')" using app v(2) by (simp add: pe applied_def content_at_def)
  moreover have "entry_diff E v = entry_diff E (ns_world s)" using entry_diff_cong [OF v(2)] by (simp add: fun_eq_iff)
  ultimately show thesis using that [of ps u u'] ps ds del u by (simp add: pe v(2))
qed

text \<open>
  C30. Which daemons a run reloads, where no path leads through a symbolic link, no file operation fails
  and the rendered files have different paths and no carriage return: unless reloading is
  switched off, \<open>networkctl\<close> is called if and only if the text of some file of the networkd directory
  is not what it was before the run (the file is new, gone or different), and after it \<open>birdc\<close> if
  and only if that holds of a file of the peers directory or of one of the three files BIRD
  includes beside it.
\<close>

theorem apply_reloads_changes:
  assumes "\<forall>p. ae_resolve E p = Some p" and "\<forall>t. \<not> io_fault (env (ns_world s)) t"
    and row: "cached_row (ns_caches s (cfg_cache_db_path cfg)) = Some row"
    and plan: "planned_files E cp (pl_payload row) (ns_world s) = Inr (paths, entries)"
    and dist: "distinct (map fst entries)" and line: "\<forall>(path, c, pol) \<in> set entries. CHR 0x0D \<notin> set c"
    and run: "apply_state E cfg cp False nr s = (Inr r, s')"
  shows "map ra_cmd (ap_reloads r) = (if nr \<or> cfg_reload_policy cfg = RELOAD_POLICY_NEVER then [] else
      (if \<exists>p. text_at (ns_world s) p \<noteq> text_at (ns_world s') p \<and> path_parent p = rp_networkd_dir paths then [NETWORKCTL_RELOAD] else [])
    @ (if \<exists>p. text_at (ns_world s) p \<noteq> text_at (ns_world s') p \<and> (path_parent p = rp_bird_peers_dir paths
          \<or> p \<in> {rp_babel_conf_path paths, rp_bird_conf_path paths, rp_bird_extra_conf_path paths}) then [BIRDC_CONFIGURE] else []))"
proof -
  obtain ps u u' where r: "applied E paths entries (ns_world s) (ns_world s')"
    "set ps = {p. managed_file E (files (ns_world s)) paths p \<and> p \<notin> fst ` set entries}" "set (ap_deleted r) = set ps"
    "ap_diffs r = map (entry_diff E (ns_world s)) entries @ map stale_diff ps"
    and l: "reload_step E cfg nr paths (sort (remdups (changed_paths (ap_diffs r) @ ap_deleted r))) u = (Inr (ap_reloads r), u')"
    by (rule apply_state_applied [OF assms(2) row plan run])
  have "set (sort (remdups (changed_paths (ap_diffs r) @ ap_deleted r))) = alters (ns_world s) (ns_world s')"
    using reported_alters [OF r(1) dist line r(2)] r(3,4) by simp
  with reload_commands [OF assms(1) l] show ?thesis unfolding alters_def by (simp only: Bex_def mem_Collect_eq)
qed

text \<open>
  A file that differs from the rendered text only in how its lines end is written anew, but
  reported as unchanged, and so no daemon is told.
\<close>

theorem line_ends_not_reported:
  assumes "\<forall>t. \<not> io_fault (env (ns_world s)) t" and "cached_row (ns_caches s (cfg_cache_db_path cfg)) = Some row"
    and "planned_files E cp (pl_payload row) (ns_world s) = Inr (paths, entries)" and dist: "distinct (map fst entries)"
    and "apply_state E cfg cp False nr s = (Inr r, s')" and e: "(path, c, pol) \<in> set entries"
    and old: "content_at (ns_world s) path = Some old" "universal_newlines old = c" "old \<noteq> c"
  shows "content_at (ns_world s') path = Some c \<and> c \<noteq> old \<and> path \<notin> set (changed_paths (ap_diffs r)) \<union> set (ap_deleted r)"
proof -
  obtain ps where r: "applied E paths entries (ns_world s) (ns_world s')"
    "set ps = {p. managed_file E (files (ns_world s)) paths p \<and> p \<notin> fst ` set entries}" "set (ap_deleted r) = set ps"
    "ap_diffs r = map (entry_diff E (ns_world s)) entries @ map stale_diff ps"
    by (rule apply_state_applied [OF assms(1,2,3,5)])
  have p: "path \<in> fst ` set entries" using e by force
  have "content_at (ns_world s') path = Some c" using appliedD(1) [OF r(1) p] final_content_distinct [OF dist e] by simp
  moreover have "path \<notin> set (changed_paths (ap_diffs r))"
  proof
    assume "path \<in> set (changed_paths (ap_diffs r))"
    then obtain c' pol' where c': "(path, c', pol') \<in> set entries" "ad_action (entry_diff E (ns_world s) (path, c', pol')) \<noteq> ''unchanged''"
      by (auto simp: changed_paths_def r(4) stale_diff_def entry_diff_def split: option.splits if_splits)
    with final_content_distinct [OF dist c'(1)] final_content_distinct [OF dist e] old show False by (simp add: entry_diff_def)
  qed
  ultimately show ?thesis using p r(2,3) old(3) by auto
qed

text \<open>
  With symbolic links the target is resolved and the changed path is not: a change of a file
  that BIRD includes through a link, outside the two directories, is followed by no reload.
\<close>

theorem linked_bird_file_not_reloaded:
  assumes "f \<in> set fs" and "\<forall>h \<in> set fs. startswith h ''/'' \<and> (\<exists>g. ae_resolve E h = Some g \<and> g \<noteq> f)"
    and "\<not> is_under E f nd" and "\<not> is_under E f bd"
  shows "plan_reloads E [f] nd bd fs = Inr []"
proof -
  have "mapR (bird_target E) fs = Inr (map (\<lambda>h. the (ae_resolve E h)) fs)"
    using assms(2) by (induction fs) (auto simp: bindR_def bird_target_def)
  moreover have "f \<notin> set (map (\<lambda>h. the (ae_resolve E h)) fs)" using assms(2) by auto
  ultimately show ?thesis using assms(3,4) by (simp add: plan_reloads_def bindR_def)
qed

end
