(* ===== verification/Agent.thy ===== *)
theory Agent
  imports Apply_Effects
begin

text \<open>
  \<open>dn42ctl/node_ws_agent.py\<close>: the process that keeps a node connected to the hub. A connection is a
  list of what happens on it, the life of the process a list of what becomes of its attempts to
  connect, so that a statement about every list is one about every prefix of a run.
\<close>

section \<open>State\<close>

text \<open>
  What was sent on the connection, printed and waited for is remembered. \<open>ge_new_id\<close> gives the ids of
  envelopes, \<open>ge_send_fault\<close> says which sends fail, \<open>ge_random\<close> the numbers of \<open>rng\<close>;
  \<open>ge_repr\<close> and \<open>ge_limit\<close> are the arguments of \<open>decode\<close>.
\<close>

record agent_env =
  ge_apply :: apply_env
  ge_new_id :: "nat \<Rightarrow> string"
  ge_send_fault :: "nat \<Rightarrow> bool"
  ge_random :: "nat \<Rightarrow> rat"
  ge_repr :: "string \<Rightarrow> string"
  ge_limit :: nat
  ge_version :: string

record agent =
  ag_node :: node_state
  ag_sent :: "Envelope list"
  ag_emitted :: "string list"
  ag_slept :: "pyfloat list"

type_synonym 'a aop = "(agent, 'a) op"

definition on_node :: "'a nop \<Rightarrow> 'a aop" where
  "on_node m = (\<lambda>a. case m (ag_node a) of (r, s) \<Rightarrow> (r, a\<lparr> ag_node := s \<rparr>))"

definition emit :: "string \<Rightarrow> unit aop" where
  "emit message = modify_state (\<lambda>a. a\<lparr> ag_emitted := ag_emitted a @ [message] \<rparr>)"

definition sleep :: "pyfloat \<Rightarrow> unit aop" where
  "sleep d = modify_state (\<lambda>a. a\<lparr> ag_slept := ag_slept a @ [d] \<rparr>)"

definition agent_tick :: "agent \<Rightarrow> nat" where
  "agent_tick a = tick (ns_world (ag_node a))"

text \<open>\<open>_send\<close> of a new envelope.\<close>

definition agent_send :: "agent_env \<Rightarrow> string \<Rightarrow> jdict \<Rightarrow> unit aop" where
  "agent_send G t p = bnd (on_node (in_node now_iso)) (\<lambda>now a.
     if ge_send_fault G (agent_tick a) then (Inl SocketError, a)
     else (Inr (), a\<lparr> ag_sent := ag_sent a @ [new_envelope (ge_new_id G (agent_tick a)) now t p None] \<rparr>))"

section \<open>A connection\<close>

definition cached_revision :: "NodeConfig \<Rightarrow> string option aop" where
  "cached_revision cfg = bnd (on_node (read_cache cfg)) (\<lambda>c. ret (map_option pl_revision c))"

definition report_error :: "agent_env \<Rightarrow> string \<Rightarrow> unit aop" where
  "report_error G message = try_except
     (agent_send G MSG_REPORT_SUBMIT [(''kind'', JStr ''error''), (''payload'', JObj [(''message'', JStr message)])]) (\<lambda>_. ret ())"

definition apply_report :: "ApplyResult \<Rightarrow> jdict" where
  "apply_report r =
     [(''kind'', JStr ''apply_result''), (''payload'', JObj
        [(''ok'', JBool True), (''revision'', JStr (ap_revision r)), (''create'', JInt (int (count_action ''create'' r))),
         (''update'', JInt (int (count_action ''update'' r))), (''unchanged'', JInt (int (count_action ''unchanged'' r))),
         (''delete'', JInt (int (count_action ''delete'' r))),
         (''reloads'', JArr (map (\<lambda>a. JObj [(''cmd'', JStr (join_with '' '' (ra_cmd a))), (''ok'', JBool (ra_ok a))]) (ap_reloads r))),
         (''warnings'', JArr (map JStr (ap_warnings r)))])]"

text \<open>\<open>except (Dn42CtlError, OSError)\<close>.\<close>

fun is_caught :: "exn \<Rightarrow> bool" where
  "is_caught (OSError _) = True"
| "is_caught e = is_dn42ctl_error e"

definition handle_desired_push :: "agent_env \<Rightarrow> NodeConfig \<Rightarrow> string \<Rightarrow> Envelope \<Rightarrow> unit aop" where
  "handle_desired_push G cfg config_path msg = (case dict_get_value (env_payload msg) ''desired'' of
     JObj desired \<Rightarrow>
       bnd (try_except
              (bnd (on_node (store_desired cfg desired)) (\<lambda>_.
               bnd (on_node (apply_state (ge_apply G) cfg config_path False False)) (\<lambda>result. ret (Inr result))))
              (\<lambda>e. if is_caught e then ret (Inl e) else raise e)) (\<lambda>outcome. case outcome of
         Inl e \<Rightarrow> bnd (emit (''apply failed: '' @ str_exn e)) (\<lambda>_. report_error G (str_exn e))
       | Inr result \<Rightarrow> bnd (emit (apply_summary result)) (\<lambda>_. agent_send G MSG_REPORT_SUBMIT (apply_report result)))
   | _ \<Rightarrow> report_error G ''desired_push without desired object'')"

definition agent_dispatch :: "agent_env \<Rightarrow> NodeConfig \<Rightarrow> string \<Rightarrow> string \<Rightarrow> unit aop" where
  "agent_dispatch G cfg config_path raw =
     bnd (on_node (in_node now_iso)) (\<lambda>now.
     case decode (ge_repr G) (ge_limit G) now raw of
       Inl (EnvelopeError m) \<Rightarrow> emit (''bad envelope: '' @ m)
     | Inl e \<Rightarrow> raise e
     | Inr msg \<Rightarrow>
         if env_type msg = MSG_DESIRED_PUSH then handle_desired_push G cfg config_path msg
         else if env_type msg = MSG_HELLO_ACK then emit ''connected''
         else if env_type msg = MSG_ERROR then emit ''server returned an error''
         else if env_type msg = MSG_SHUTDOWN then raise (Reconnect ''server is shutting down'')
         else if env_type msg = MSG_ACK \<or> env_type msg = MSG_PONG then ret ()
         else emit (''unknown message type '' @ env_type msg))"

text \<open>
  The tasks of a connection, in the order in which they are resumed: a frame arrives, reading
  fails, or one of the two timers has run out. When nothing is left the connection is closed.
\<close>

datatype occasion = Arrived string | ReadFailed | HeartbeatDue | ReconcileDue

fun session_loop :: "agent_env \<Rightarrow> NodeConfig \<Rightarrow> string \<Rightarrow> occasion list \<Rightarrow> unit aop" where
  "session_loop G cfg config_path [] = raise (Reconnect ''connection closed'')"
| "session_loop G cfg config_path (Arrived raw # os) =
     bnd (agent_dispatch G cfg config_path raw) (\<lambda>_. session_loop G cfg config_path os)"
| "session_loop G cfg config_path (ReadFailed # os) = raise (Reconnect ''reading failed'')"
| "session_loop G cfg config_path (HeartbeatDue # os) =
     bnd (agent_send G MSG_PING []) (\<lambda>_. session_loop G cfg config_path os)"
| "session_loop G cfg config_path (ReconcileDue # os) =
     bnd (agent_send G MSG_DESIRED_REQUEST [(''reason'', JStr ''reconcile'')]) (\<lambda>_. session_loop G cfg config_path os)"

definition run_session :: "agent_env \<Rightarrow> NodeConfig \<Rightarrow> string \<Rightarrow> occasion list \<Rightarrow> unit aop" where
  "run_session G cfg config_path os =
     bnd (cached_revision cfg) (\<lambda>rev.
     bnd (agent_send G MSG_HELLO [(''node_id'', JStr (cfg_node_id cfg)), (''agent_version'', JStr (ge_version G)),
            (''cached_revision'', json_opt rev)]) (\<lambda>_.
     session_loop G cfg config_path os))"

section \<open>Reconnecting\<close>

fun pf_less :: "pyfloat \<Rightarrow> pyfloat \<Rightarrow> bool" where
  "pf_less (Fin a) (Fin b) = (a < b)"
| "pf_less (Fin a) PInf = True"
| "pf_less NInf (Fin b) = True"
| "pf_less NInf PInf = True"
| "pf_less _ _ = False"

definition pf_min :: "pyfloat \<Rightarrow> pyfloat \<Rightarrow> pyfloat" where
  "pf_min a b = (if pf_less b a then b else a)"

fun pf_times :: "pyfloat \<Rightarrow> rat \<Rightarrow> pyfloat" where
  "pf_times (Fin a) q = Fin (a * q)"
| "pf_times PInf q = (if q > 0 then PInf else if q < 0 then NInf else NaN)"
| "pf_times NInf q = (if q > 0 then NInf else if q < 0 then PInf else NaN)"
| "pf_times NaN q = NaN"

text \<open>
  \<open>base * 2 ** attempt\<close>: the power is an exact integer that is converted to a float first, which
  raises when it is too large; the conversion of a power of two is exact.
\<close>

definition refuses_credentials :: "int option \<Rightarrow> bool" where
  "refuses_credentials close_code \<longleftrightarrow> close_code \<noteq> None \<and> the close_code \<in> AUTH_FATAL_CLOSE_CODES"

definition next_delay :: "toml_env \<Rightarrow> AgentOptions \<Rightarrow> nat \<Rightarrow> int option \<Rightarrow> rat \<Rightarrow> (pyfloat \<times> nat) result" where
  "next_delay T settings attempt close_code random =
     (if refuses_credentials close_code then Inr (auth_retry_seconds settings, 0)
      else bindR (float_int T (2 ^ attempt)) (\<lambda>_.
        let ceiling = pf_min (reconnect_max_seconds settings) (pf_times (reconnect_initial_seconds settings) (2 ^ attempt))
        in Inr (pf_times ceiling random, attempt + 1)))"

definition apply_from_cache :: "agent_env \<Rightarrow> NodeConfig \<Rightarrow> string \<Rightarrow> unit aop" where
  "apply_from_cache G cfg config_path =
     bnd (on_node (read_cache cfg)) (\<lambda>c. case c of
       None \<Rightarrow> ret ()
     | Some _ \<Rightarrow> bnd (try_except
           (bnd (on_node (apply_state (ge_apply G) cfg config_path False False)) (\<lambda>result. ret (Inr result)))
           (\<lambda>e. if is_caught e then ret (Inl e) else raise e)) (\<lambda>outcome. case outcome of
         Inl e \<Rightarrow> emit (''apply from cache failed: '' @ str_exn e)
       | Inr result \<Rightarrow> emit (''applied from cache: '' @ apply_summary result)))"

text \<open>What becomes of an attempt to connect: it fails, or it succeeds and ends with a close code.\<close>

datatype attempt_outcome = Refused | Connected "occasion list" "int option"

definition try_connection :: "agent_env \<Rightarrow> NodeConfig \<Rightarrow> string \<Rightarrow> attempt_outcome \<Rightarrow> unit aop" where
  "try_connection G cfg config_path oc = (case oc of
     Refused \<Rightarrow> emit ''connection ended''
   | Connected os _ \<Rightarrow> bnd (modify_state (\<lambda>a. a\<lparr> ag_sent := [] \<rparr>)) (\<lambda>_.
       try_except (run_session G cfg config_path os) (\<lambda>e. emit (''connection ended: '' @ str_exn e))))"

definition close_code_of :: "attempt_outcome \<Rightarrow> int option" where
  "close_code_of oc = (case oc of Refused \<Rightarrow> None | Connected _ c \<Rightarrow> c)"

definition run_round :: "agent_env \<Rightarrow> string \<Rightarrow> string \<Rightarrow> AgentOptions option \<Rightarrow> bool \<Rightarrow> nat \<Rightarrow> attempt_outcome \<Rightarrow> nat aop" where
  "run_round G node_config_path config_path settings bootstrapped attempt oc =
     bnd (try_except (on_node (in_node (load_node_config (ae_toml (ge_apply G)) node_config_path)))
            (\<lambda>e. bnd (case e of NodeConfigError m \<Rightarrow> emit m | _ \<Rightarrow> ret ()) (\<lambda>_. raise e))) (\<lambda>cfg.
     let eff = (case settings of None \<Rightarrow> cfg_agent cfg | Some opts \<Rightarrow> opts) in
     bnd (if bootstrapped then ret () else apply_from_cache G cfg config_path) (\<lambda>_.
     bnd (try_connection G cfg config_path oc) (\<lambda>_.
     bnd (read_state agent_tick) (\<lambda>t.
     bnd (lift_result (next_delay (ae_toml (ge_apply G)) eff (case oc of Refused \<Rightarrow> attempt | Connected _ _ \<Rightarrow> 0)
            (close_code_of oc) (ge_random G t))) (\<lambda>(delay, attempt').
     bnd (if refuses_credentials (close_code_of oc) then emit ''credentials refused'' else ret ()) (\<lambda>_.
     bnd (sleep delay) (\<lambda>_. ret attempt')))))))"

fun agent_rounds :: "agent_env \<Rightarrow> string \<Rightarrow> string \<Rightarrow> AgentOptions option \<Rightarrow> bool \<Rightarrow> nat \<Rightarrow> attempt_outcome list \<Rightarrow> nat aop" where
  "agent_rounds G ncp cp settings bootstrapped attempt [] = ret attempt"
| "agent_rounds G ncp cp settings bootstrapped attempt (oc # ocs) =
     bnd (run_round G ncp cp settings bootstrapped attempt oc) (\<lambda>attempt'. agent_rounds G ncp cp settings True attempt' ocs)"

definition run_agent :: "agent_env \<Rightarrow> string \<Rightarrow> string \<Rightarrow> AgentOptions option \<Rightarrow> attempt_outcome list \<Rightarrow> nat aop" where
  "run_agent G node_config_path config_path settings ocs = agent_rounds G node_config_path config_path settings False 0 ocs"

section \<open>Delays\<close>

text \<open>What Python says of the conversion of powers of two: exact below the largest exponent, an overflow above.\<close>

definition power_floats :: "toml_env \<Rightarrow> bool" where
  "power_floats T \<longleftrightarrow> (\<forall>n < 1024. float_int T (2 ^ n) = Inr (Fin (2 ^ n))) \<and> (\<forall>n \<ge> 1024. float_int T (2 ^ n) = Inl OverflowError)"

lemma delay_run:
  assumes "power_floats T" and "0 \<le> u" and "u \<le> 1"
    and "reconnect_initial_seconds st = Fin a" and "reconnect_max_seconds st = Fin m" and "0 < a" and "0 < m"
    and code: "\<not> refuses_credentials code" and "n < 1024"
  shows "\<exists>q. next_delay T st n code u = Inr (Fin q, Suc n) \<and> 0 \<le> q \<and> q \<le> m \<and> q \<le> a * 2 ^ n"
proof -
  let ?c = "min m (a * 2 ^ n)"
  have c: "pf_min (reconnect_max_seconds st) (pf_times (reconnect_initial_seconds st) (2 ^ n)) = Fin ?c"
    using assms by (auto simp: pf_min_def min_def)
  have pos: "0 \<le> ?c" using assms by simp
  have "0 \<le> ?c * u" by (rule mult_nonneg_nonneg [OF pos assms(2)])
  moreover have le: "?c * u \<le> ?c" by (rule mult_left_le [OF assms(3) pos])
  moreover have "?c * u \<le> m" "?c * u \<le> a * 2 ^ n"
    by (rule order_trans [OF le min.cobounded1], rule order_trans [OF le min.cobounded2])
  moreover have "next_delay T st n code u = Inr (Fin (?c * u), Suc n)"
    using assms(1,8,9) c by (simp add: next_delay_def power_floats_def bindR_def Let_def)
  ultimately show ?thesis by blast
qed

lemma delay_overflows:
  assumes "power_floats T" and "\<not> refuses_credentials code" and "1024 \<le> n"
  shows "next_delay T st n code u = Inl OverflowError"
  using assms by (simp add: next_delay_def power_floats_def bindR_def)

text \<open>
  The wait before the next attempt: after a refusal of the credentials it is the long fixed one
  and the ramp starts over; otherwise it is drawn between zero and the smaller of the cap and
  the initial wait doubled with every failure, and the ramp goes one step further, as long as
  fewer than 1024 attempts failed in a row; from then on the computation raises \<open>OverflowError\<close>.
\<close>

theorem next_delay_bounds:
  assumes "power_floats T" and "0 \<le> u" and "u \<le> 1"
    and "reconnect_initial_seconds st = Fin a" and "reconnect_max_seconds st = Fin m" and "0 < a" and "0 < m"
  shows "case next_delay T st n code u of
      Inr (d, n') \<Rightarrow> (if refuses_credentials code then d = auth_retry_seconds st \<and> n' = 0
        else n' = Suc n \<and> (\<exists>q. d = Fin q \<and> 0 \<le> q \<and> q \<le> m \<and> q \<le> a * 2 ^ n))
    | Inl e \<Rightarrow> e = OverflowError \<and> 1024 \<le> n \<and> \<not> refuses_credentials code"
proof (cases "refuses_credentials code")
  case True
  then show ?thesis by (auto simp: next_delay_def)
next
  case False
  show ?thesis
  proof (cases "n < 1024")
    case True
    from delay_run [OF assms False True] False show ?thesis by auto
  next
    case big: False
    with delay_overflows [OF assms(1) False] False show ?thesis by auto
  qed
qed

section \<open>An outage\<close>

text \<open>\<open>node.toml\<close> can be read, whenever it is read.\<close>

definition configured :: "toml_env \<Rightarrow> string \<Rightarrow> NodeConfig \<Rightarrow> agent \<Rightarrow> bool" where
  "configured T path cfg a \<longleftrightarrow> (let w = ns_world (ag_node a) in (\<forall>t. \<not> io_fault (env w) t) \<and>
     (\<exists>text raw. content_at w path = Some text \<and> toml_loads T text = Some raw \<and> parse_node_config T raw = Inr cfg))"

lemma configured_loads:
  assumes "configured T path cfg a"
  shows "on_node (in_node (load_node_config T path)) a = (Inr cfg, a\<lparr> ag_node := (ag_node a)\<lparr> ns_world := next_tick (ns_world (ag_node a)) \<rparr> \<rparr>)"
  using assms
  by (auto simp: configured_def Let_def on_node_def in_node_def load_node_config_def bnd_def try_except_def read_file_def ret_def
      lift_result_def content_at_def)

lemma refused_round:
  assumes conf: "configured (ae_toml (ge_apply G)) ncp cfg a" and boot: "b \<or> ns_caches (ag_node a) (cfg_cache_db_path cfg) = Absent"
  obtains a' where "run_round G ncp cp st b n Refused a = (case next_delay (ae_toml (ge_apply G)) (case st of None \<Rightarrow> cfg_agent cfg | Some opts \<Rightarrow> opts) n None
        (ge_random G (Suc (agent_tick a))) of Inl e \<Rightarrow> (Inl e, a') | Inr (d, n') \<Rightarrow> (Inr n', a'\<lparr> ag_slept := ag_slept a' @ [d] \<rparr>))"
    and "configured (ae_toml (ge_apply G)) ncp cfg a'" and "ns_caches (ag_node a') = ns_caches (ag_node a)"
proof -
  let ?T = "ae_toml (ge_apply G)"
  let ?a = "a\<lparr> ag_node := (ag_node a)\<lparr> ns_world := next_tick (ns_world (ag_node a)) \<rparr> \<rparr>"
  let ?a' = "?a\<lparr> ag_emitted := ag_emitted ?a @ [''connection ended''] \<rparr>"
  have l: "try_except (on_node (in_node (load_node_config ?T ncp)))
            (\<lambda>e. bnd (case e of NodeConfigError m \<Rightarrow> emit m | _ \<Rightarrow> ret ()) (\<lambda>_. raise e)) a = (Inr cfg, ?a)"
    by (simp add: try_except_def configured_loads [OF conf])
  have b: "(if b then ret () else apply_from_cache G cfg cp) ?a = (Inr (), ?a)"
    using boot by (auto simp: apply_from_cache_def on_node_def read_cache_def bnd_def read_state_def ret_def)
  have c: "try_connection G cfg cp Refused ?a = (Inr (), ?a')"
    by (simp add: try_connection_def emit_def modify_state_def)
  have t: "agent_tick ?a' = Suc (agent_tick a)" by (simp add: agent_tick_def next_tick_def)
  show thesis
  proof (rule that [of ?a'])
    show "configured ?T ncp cfg ?a'" using conf by (simp add: configured_def Let_def)
    show "ns_caches (ag_node ?a') = ns_caches (ag_node a)" by simp
    show "run_round G ncp cp st b n Refused a = (case next_delay ?T (case st of None \<Rightarrow> cfg_agent cfg | Some opts \<Rightarrow> opts) n None
        (ge_random G (Suc (agent_tick a))) of Inl e \<Rightarrow> (Inl e, ?a') | Inr (d, n') \<Rightarrow> (Inr n', ?a'\<lparr> ag_slept := ag_slept ?a' @ [d] \<rparr>))"
      using l b c t
      by (simp add: run_round_def bnd_def Let_def read_state_def lift_result_def sleep_def modify_state_def ret_def close_code_of_def refuses_credentials_def
          split: sum.splits prod.splits)
  qed
qed

lemma outage_rounds:
  assumes fl: "power_floats (ae_toml (ge_apply G))" and "n \<le> 1024"
    and "configured (ae_toml (ge_apply G)) ncp cfg a" and "b \<or> ns_caches (ag_node a) (cfg_cache_db_path cfg) = Absent"
  shows "fst (agent_rounds G ncp cp st b n (replicate k Refused) a) = (if n + k \<le> 1024 then Inr (n + k) else Inl OverflowError)"
  using assms(2-4)
proof (induction k arbitrary: n a b)
  case 0
  then show ?case by (simp add: ret_def)
next
  case (Suc k)
  let ?T = "ae_toml (ge_apply G)" and ?st = "case st of None \<Rightarrow> cfg_agent cfg | Some opts \<Rightarrow> opts" and ?u = "ge_random G (Suc (agent_tick a))"
  have no: "\<not> refuses_credentials None" by (simp add: refuses_credentials_def)
  obtain a' where a': "run_round G ncp cp st b n Refused a = (case next_delay ?T ?st n None ?u of
        Inl e \<Rightarrow> (Inl e, a') | Inr (d, n') \<Rightarrow> (Inr n', a'\<lparr> ag_slept := ag_slept a' @ [d] \<rparr>))"
      "configured ?T ncp cfg a'"
    by (rule refused_round [OF Suc.prems(2,3)]) (rule that, assumption+)
  show ?case
  proof (cases "n < 1024")
    case True
    with fl no obtain d where d: "next_delay ?T ?st n None ?u = Inr (d, Suc n)"
      by (auto simp: next_delay_def power_floats_def bindR_def Let_def)
    let ?a = "a'\<lparr> ag_slept := ag_slept a' @ [d] \<rparr>"
    have "configured ?T ncp cfg ?a" using a'(2) by (simp add: configured_def)
    with Suc.IH [of "Suc n" ?a True] True show ?thesis by (simp add: bnd_def a'(1) d)
  next
    case False
    then have "next_delay ?T ?st n None ?u = Inl OverflowError" by (intro delay_overflows [OF fl no]) simp
    with False show ?thesis by (simp add: bnd_def a'(1))
  qed
qed

text \<open>
  C29. What \<open>run_agent\<close> does while the hub cannot be reached: it goes on waiting and trying for 1024
  attempts in a row; the next failed attempt is not waited for, because computing the wait
  raises \<open>OverflowError\<close> outside the handler, and the process ends.
\<close>

theorem outage_ends_agent:
  assumes "power_floats (ae_toml (ge_apply G))" and "configured (ae_toml (ge_apply G)) ncp cfg a"
    and "ns_caches (ag_node a) (cfg_cache_db_path cfg) = Absent"
  shows "fst (run_agent G ncp cp st (replicate k Refused) a) = (if k \<le> 1024 then Inr k else Inl OverflowError)"
  using outage_rounds [OF assms(1) _ assms(2), of 0 False cp st k] assms(3) by (simp add: run_agent_def)

end
