(* ===== verification/Apply_Sample.thy ===== *)
theory Apply_Sample
  imports Apply_Effects
begin

text \<open>
  A node with a cached state of one peer, a file left over from an earlier peer and a \<open>babel.conf\<close>
  that cannot be replaced: the theorems about \<open>apply\<close> hold of it.
\<close>

section \<open>A node\<close>

definition sample_apply :: apply_env where
  "sample_apply = \<lparr> ae_toml = sample_toml, ae_str = (\<lambda>_. ''?''),
     ae_list_dir = (\<lambda>fs d. if d = DEFAULT_BIRD_PEERS_DIR then Some (filter (\<lambda>n. fs (path_div d n) \<noteq> None) [''dn42_old.conf'']) else None),
     ae_tmp_name = (\<lambda>t p. p @ ''.tmp''), ae_tmp_denied = (\<lambda>_. False), ae_busy = (\<lambda>p. p = DEFAULT_BIRD_BABEL_CONF_PATH),
     ae_chunk = (\<lambda>_ n. n div 2), ae_resolve = Some, ae_run = (\<lambda>_ _. Printed ''ok''), ae_unified_diff = (\<lambda>_ _ _. []),
     ae_bird_conf = (\<lambda>_. []), ae_extra_conf = [] \<rparr>"

definition sample_peer :: json where
  "sample_peer = JObj [(''peer_asn'', JInt 4242420001), (''ifname'', JStr ''dn42_a''), (''wg_private_key'', JStr ''k''),
     (''peer_public_key'', JStr ''p''), (''endpoint'', JNull), (''local_lla'', JStr ''fe80::1''), (''peer_lla'', JStr ''fe80::2''),
     (''listen_port'', JInt 51820), (''allowed_ips'', JArr [JStr ''::/0''])]"

definition sample_row :: PullResult where
  "sample_row = \<lparr> pl_revision = ''r1'', pl_fetched_at = ''t'', pl_payload = [(''revision'', JStr ''r1''), (''bgp_peers'', JArr [sample_peer])] \<rparr>"

definition sample_file :: "string \<Rightarrow> fs_file" where
  "sample_file c = \<lparr> f_content = c, f_mode = 420, f_group = None \<rparr>"

definition sample_node :: node_state where
  "sample_node = \<lparr> ns_world = (start_world empty_database)\<lparr> files := [''/etc/bird/peers/dn42_old.conf'' \<mapsto> sample_file ''old'',
       DEFAULT_BIRD_BABEL_CONF_PATH \<mapsto> sample_file ''old''] \<rparr>,
     ns_caches = (\<lambda>p. if p = cfg_cache_db_path sample_node_config then Cached (Some sample_row) else Absent) \<rparr>"

lemma show_int_line: "CHR 0x0D \<notin> set (show_int i)"
proof -
  have "CHR 0x0D \<notin> set (show_nat n)" for n using show_nat_digits [of n] by (auto simp: is_digit_def list_all_iff code_point_def)
  then show ?thesis by (simp add: show_int_def)
qed

lemma sample_planned: "\<exists>entries. planned_files sample_apply ''/c'' (pl_payload sample_row) (ns_world sample_node) = Inr (resolve_paths None ''/c'', entries)
   \<and> (\<forall>e \<in> set entries. CHR 0x0D \<notin> set (fst (snd e)))
   \<and> map (\<lambda>(p, c, pol). (p, pol)) entries = [(''/etc/bird/peers/dn42_a.conf'', BIRD), (''/etc/systemd/network/dn42_a.netdev'', NETDEV),
        (''/etc/systemd/network/dn42_a.network'', NETWORK), (DEFAULT_BIRD_BABEL_CONF_PATH, BIRD)]"
proof -
  have p: "path_div ''/etc/bird/peers'' ''dn42_a.conf'' = ''/etc/bird/peers/dn42_a.conf''"
    "path_div ''/etc/systemd/network'' ''dn42_a.netdev'' = ''/etc/systemd/network/dn42_a.netdev''"
    "path_div ''/etc/systemd/network'' ''dn42_a.network'' = ''/etc/systemd/network/dn42_a.network''" by code_simp+
  have c: "config_at (ae_toml sample_apply) (ns_world sample_node) ''/c'' = None"
    by (simp add: config_at_def content_at_def sample_node_def DEFAULT_BIRD_BABEL_CONF_PATH_def)
  show ?thesis unfolding planned_files_def c Let_def
    by (simp add: sample_row_def sample_peer_def peer_entries_def items_of_def get_or_def dict_get_def dict_get_value_def
        render_bgp_peer_files_def netdev_entry_def subscript_def bindR_def or_empty_def render_bird_bgp_peer_conf_def render_babel_def
        node_plan_def resolve_paths_def DEFAULT_BIRD_PEERS_DIR_def DEFAULT_NETWORKD_DIR_def p
        line_def render_networkd_netdev_def render_networkd_network_def render_babel_conf_def babel_of_def show_int_line)
qed

definition sample_paths :: "string list" where
  "sample_paths = [''/etc/bird/peers/dn42_a.conf'', ''/etc/systemd/network/dn42_a.netdev'', ''/etc/systemd/network/dn42_a.network'',
     DEFAULT_BIRD_BABEL_CONF_PATH]"

lemma sample_entries:
  obtains entries where "planned_files sample_apply ''/c'' (pl_payload sample_row) (ns_world sample_node) = Inr (resolve_paths None ''/c'', entries)"
    and "map fst entries = sample_paths" and "\<forall>e \<in> set entries. fst e \<noteq> ''/c''" and "\<forall>e \<in> set entries. CHR 0x0D \<notin> set (fst (snd e))"
proof -
  obtain entries where e: "planned_files sample_apply ''/c'' (pl_payload sample_row) (ns_world sample_node) = Inr (resolve_paths None ''/c'', entries)"
    and cr: "\<forall>e \<in> set entries. CHR 0x0D \<notin> set (fst (snd e))" and m0:
    "map (\<lambda>(p, c, pol). (p, pol)) entries = [(''/etc/bird/peers/dn42_a.conf'', BIRD), (''/etc/systemd/network/dn42_a.netdev'', NETDEV),
        (''/etc/systemd/network/dn42_a.network'', NETWORK), (DEFAULT_BIRD_BABEL_CONF_PATH, BIRD)]"
    using sample_planned by (elim exE conjE) (rule that)
  have "map fst (map (\<lambda>(p, c, pol). (p, pol)) es) = map fst es" for es :: "entry list" by (induction es) auto
  from this [of entries] have m: "map fst entries = sample_paths" unfolding m0 by (simp add: sample_paths_def)
  then have "fst ` set entries = set sample_paths" by (metis set_map)
  moreover have "''/c'' \<notin> set sample_paths" by (simp add: sample_paths_def DEFAULT_BIRD_BABEL_CONF_PATH_def)
  ultimately have "\<forall>e \<in> set entries. fst e \<noteq> ''/c''" by (metis imageI)
  from that [OF e m this cr] show thesis .
qed

lemma sample_room: "map fst entries = sample_paths \<Longrightarrow> room sample_apply entries (ns_world sample_node)"
proof -
  assume m: "map fst entries = sample_paths"
  then have e: "fst ` set entries = set sample_paths" by (metis set_map)
  have f: "\<forall>p \<in> set sample_paths. files (ns_world sample_node) (p @ ''.tmp'') = None \<and> p @ ''.tmp'' \<notin> set sample_paths"
    by (simp add: sample_paths_def sample_node_def DEFAULT_BIRD_BABEL_CONF_PATH_def)
  have "files (ns_world sample_node) DEFAULT_BIRD_BABEL_CONF_PATH \<noteq> None" by (simp add: sample_node_def)
  moreover have "\<forall>p \<in> set sample_paths. CHR 0x00 \<notin> set p" by (simp add: sample_paths_def DEFAULT_BIRD_BABEL_CONF_PATH_def)
  ultimately show ?thesis using e f unfolding room_def by (force simp: sample_apply_def sample_node_def)
qed

lemma sample_answers: "\<forall>t cmd. ae_run sample_apply t cmd \<noteq> Undecodable" "\<forall>p. ae_resolve sample_apply p \<noteq> None" "\<forall>p. ae_resolve sample_apply p = Some p"
  by (simp_all add: sample_apply_def)

lemma sample_quiet: "\<forall>t. \<not> io_fault (env (ns_world sample_node)) t" "\<forall>t. \<not> sql_fault (env (ns_world sample_node)) t"
  by (simp_all add: sample_node_def)

lemma sample_cached: "cached_row (ns_caches sample_node (cfg_cache_db_path sample_node_config)) = Some sample_row"
  by (simp add: sample_node_def)

theorem apply_returns_witness:
  "\<exists>r s'. apply_state sample_apply sample_node_config ''/c'' False False sample_node = (Inr r, s') \<and> ap_revision r = ''r1''"
proof -
  obtain entries where e: "planned_files sample_apply ''/c'' (pl_payload sample_row) (ns_world sample_node) = Inr (resolve_paths None ''/c'', entries)"
    "map fst entries = sample_paths" by (rule sample_entries)
  from apply_returns [OF sample_cached sample_quiet(2) e(1) sample_room [OF e(2)] sample_answers(2,1), of False False] show ?thesis
    by (simp add: sample_row_def)
qed

lemma sample_runs: obtains r s' where "apply_state sample_apply sample_node_config ''/c'' dry nr sample_node = (Inr r, s')"
proof -
  obtain entries where e: "planned_files sample_apply ''/c'' (pl_payload sample_row) (ns_world sample_node) = Inr (resolve_paths None ''/c'', entries)"
    "map fst entries = sample_paths" by (rule sample_entries)
  from apply_total [OF sample_cached sample_quiet(2) e(1) sample_room [OF e(2)] sample_answers(2,1), of dry nr] that show thesis by blast
qed

theorem apply_reloads_changes_witness:
  "\<exists>r s'. apply_state sample_apply (sample_node_config\<lparr> cfg_reload_policy := RELOAD_POLICY_AUTO \<rparr>) ''/c'' False False sample_node = (Inr r, s')
     \<and> map ra_cmd (ap_reloads r) = [NETWORKCTL_RELOAD, BIRDC_CONFIGURE]"
proof -
  let ?cfg = "sample_node_config\<lparr> cfg_reload_policy := RELOAD_POLICY_AUTO \<rparr>" and ?w = "ns_world sample_node"
  let ?n = "''/etc/systemd/network/dn42_a.netdev''" and ?b = "''/etc/bird/peers/dn42_a.conf''" and ?paths = "resolve_paths None ''/c''"
  obtain entries where e: "planned_files sample_apply ''/c'' (pl_payload sample_row) ?w = Inr (?paths, entries)"
    "map fst entries = sample_paths" "\<forall>e \<in> set entries. CHR 0x0D \<notin> set (fst (snd e))" by (rule sample_entries)
  have cached: "cached_row (ns_caches sample_node (cfg_cache_db_path ?cfg)) = Some sample_row" using sample_cached by simp
  obtain r s' where run: "apply_state sample_apply ?cfg ''/c'' False False sample_node = (Inr r, s')"
    using apply_total [OF cached sample_quiet(2) e(1) sample_room [OF e(2)] sample_answers(2,1)] by blast
  have app: "applied sample_apply ?paths entries ?w (ns_world s')"
    by (rule apply_state_applied [OF sample_quiet(1) cached e(1) run])
  have dist: "distinct (map fst entries)" unfolding e(2) by (simp add: sample_paths_def DEFAULT_BIRD_BABEL_CONF_PATH_def)
  have fs: "fst ` set entries = set sample_paths" using e(2) by (metis set_map)
  have new: "text_at ?w p \<noteq> text_at (ns_world s') p" if "p \<in> {?n, ?b}" for p
  proof -
    have p: "p \<in> fst ` set entries" using that by (auto simp: fs sample_paths_def)
    with appliedD(1) [OF app p] final_content_None [of entries p] have "text_at (ns_world s') p \<noteq> None" by (auto simp: text_at_def)
    moreover have "text_at ?w p = None" using that by (auto simp: text_at_def content_at_def sample_node_def DEFAULT_BIRD_BABEL_CONF_PATH_def)
    ultimately show ?thesis by auto
  qed
  have "path_parent ?n = rp_networkd_dir ?paths" "path_parent ?b = rp_bird_peers_dir ?paths" by code_simp+
  with new have t: "\<exists>p. text_at ?w p \<noteq> text_at (ns_world s') p \<and> path_parent p = rp_networkd_dir ?paths"
    "\<exists>p. text_at ?w p \<noteq> text_at (ns_world s') p \<and> (path_parent p = rp_bird_peers_dir ?paths
        \<or> p \<in> {rp_babel_conf_path ?paths, rp_bird_conf_path ?paths, rp_bird_extra_conf_path ?paths})" by blast+
  have line: "\<forall>(path, c, pol) \<in> set entries. CHR 0x0D \<notin> set c" using e(3) by auto
  have "map ra_cmd (ap_reloads r) = [NETWORKCTL_RELOAD, BIRDC_CONFIGURE]"
    unfolding apply_reloads_changes [OF sample_answers(3) sample_quiet(1) cached e(1) dist line run] if_P [OF t(1)] if_P [OF t(2)]
    by (simp add: RELOAD_POLICY_AUTO_def RELOAD_POLICY_NEVER_def)
  with run show ?thesis by (intro exI conjI)
qed

theorem apply_converges_witness:
  "\<exists>r s'. apply_state sample_apply sample_node_config ''/c'' False False sample_node = (Inr r, s')
     \<and> (\<exists>entries. fst ` set entries = set (ap_written r) \<and> (\<forall>p \<in> set (ap_written r). content_at (ns_world s') p = final_content entries p))"
proof -
  obtain r s' where run: "apply_state sample_apply sample_node_config ''/c'' False False sample_node = (Inr r, s')" by (rule sample_runs)
  from apply_converges [OF run] obtain entries :: "entry list" where "ap_written r = map fst entries"
    "\<forall>p \<in> fst ` set entries. content_at (ns_world s') p = final_content entries p" by blast
  with run show ?thesis by (intro exI [of _ r] exI [of _ s'] conjI exI [of _ entries]) auto
qed

theorem apply_renders_first_witness:
  "\<exists>r s'. apply_state sample_apply sample_node_config ''/c'' True False sample_node = (Inr r, s')
     \<and> files (ns_world s') = files (ns_world sample_node)"
proof -
  obtain r s' where run: "apply_state sample_apply sample_node_config ''/c'' True False sample_node = (Inr r, s')" by (rule sample_runs)
  with apply_renders_first [OF run] show ?thesis by blast
qed

text \<open>A text of two characters and three bytes.\<close>

theorem write_loop_terminates_witness:
  "\<exists>r w'. write_loop sample_apply ''/f'' (utf8 [CHR 0xE9, CHR ''a'']) 0 ((start_world empty_database)\<lparr> files := [''/f'' \<mapsto> sample_file []] \<rparr>) = (r, w')
     \<and> tick w' \<le> 3 \<and> content_at w' ''/f'' = Some [CHR 0xE9, CHR ''a'']"
proof -
  let ?w = "(start_world empty_database)\<lparr> files := [''/f'' \<mapsto> sample_file []] \<rparr>" and ?t = "[CHR 0xE9, CHR ''a'']"
  obtain r w' where run: "write_loop sample_apply ''/f'' (utf8 ?t) 0 ?w = (r, w')" by fastforce
  have "content_at ?w ''/f'' = Some []" "length (utf8 ?t) = 3" by (simp_all add: content_at_def sample_file_def utf8_def utf8_char_def)
  with write_loop_terminates [OF run] run show ?thesis by auto
qed

text \<open>After a run there is room for another.\<close>

lemma room_applied:
  assumes "room E entries w" and app: "applied E paths entries w w'" and "env w' = env w"
  shows "room E entries w'"
  unfolding room_def
proof (intro conjI ballI)
  have "files w' q = None" if "files w q = None" "q \<notin> fst ` set entries" for q
    using appliedD(2,3) [OF app that(2)] that(1) by (cases "managed_file E (files w) paths q") (auto simp: content_at_def)
  note gone = this
  show "\<forall>t. \<not> io_fault (env w') t" using assms(1,3) by (simp add: room_def)
  fix e
  assume e: "e \<in> set entries"
  obtain p c pol where p: "e = (p, c, pol)" by (cases e)
  have "p \<in> fst ` set entries" using e p by force
  from appliedD(1) [OF app this] final_content_None [of entries p] this have "files w' p \<noteq> None" by (auto simp: content_at_def)
  moreover have "CHR 0x00 \<notin> set p" "\<forall>t. files w (ae_tmp_name E t p) = None \<and> ae_tmp_name E t p \<notin> fst ` set entries"
    using bspec [OF conjunct2 [OF assms(1) [unfolded room_def]] e] p by simp_all
  ultimately show "case e of (path, c, pol) \<Rightarrow> CHR 0x00 \<notin> set path \<and> (\<forall>t. files w' (ae_tmp_name E t path) = None \<and> ae_tmp_name E t path \<notin> fst ` set entries)
     \<and> (ae_tmp_denied E path \<or> ae_busy E path \<longrightarrow> files w' path \<noteq> None)"
    using gone p by simp
qed

lemma sample_steady: "steady_listing sample_apply"
  by (auto simp: steady_listing_def lists_def sample_apply_def split: if_splits)

lemma split_on_whole: "c \<notin> set n \<Longrightarrow> split_on c n = [n]"
  by (induction n) auto

lemma default_managed:
  assumes "managed_name (resolve_paths None cp) p"
  shows "startswith p (DEFAULT_BIRD_PEERS_DIR @ ''/'') \<or> startswith p (DEFAULT_NETWORKD_DIR @ ''/'') \<or> startswith p (DEFAULT_NM_SYSTEM_CONNECTIONS_DIR @ ''/'')"
proof -
  have n: "n \<noteq> [] \<and> n \<noteq> ''.'' \<and> \<not> startswith n ''/''" if "is_managed n pats" "(d, pats) \<in> set (managed_paths (resolve_paths None cp))" for n d pats
  proof -
    have pre: "startswith n p \<longleftrightarrow> (\<exists>r. n = p @ r)" for p :: string unfolding startswith_def by (metis append_eq_conv_conj append_take_drop_id)
    from that show ?thesis unfolding pre is_managed_def managed_paths_def by auto
  qed
  have j: "startswith (path_div d n) (d @ ''/'')" if "n \<noteq> [] \<and> n \<noteq> ''.'' \<and> \<not> startswith n ''/''" "CHR ''/'' \<notin> set n"
    "d \<in> {DEFAULT_BIRD_PEERS_DIR, DEFAULT_NETWORKD_DIR, DEFAULT_NM_SYSTEM_CONNECTIONS_DIR}" for d n
    using that
    by (auto simp: path_div_def path_str_def Let_def split_on_whole DEFAULT_BIRD_PEERS_DIR_def DEFAULT_NETWORKD_DIR_def
        DEFAULT_NM_SYSTEM_CONNECTIONS_DIR_def startswith_def)
  from assms obtain d pats m where m: "(d, pats) \<in> set (managed_paths (resolve_paths None cp))" "CHR ''/'' \<notin> set m" "p = path_div d m" "is_managed m pats"
    unfolding managed_name_def by blast
  moreover from m(1) have "d \<in> {DEFAULT_BIRD_PEERS_DIR, DEFAULT_NETWORKD_DIR, DEFAULT_NM_SYSTEM_CONNECTIONS_DIR}"
    by (auto simp: managed_paths_def resolve_paths_def)
  ultimately show ?thesis using j [OF n [OF m(4,1)] m(2)] by auto
qed

lemma sample_apart:
  assumes "map fst entries = sample_paths" and "\<forall>e \<in> set entries. fst e \<noteq> ''/c''" and "\<forall>e \<in> set entries. CHR 0x0D \<notin> set (fst (snd e))"
  shows "config_apart (resolve_paths None ''/c'') entries"
proof -
  have "distinct sample_paths" by (simp add: sample_paths_def DEFAULT_BIRD_BABEL_CONF_PATH_def)
  moreover have "\<not> managed_name (resolve_paths None ''/c'') ''/c''" "\<not> managed_name (resolve_paths None ''/c'') DEFAULT_BIRD_EXTRA_CONF_PATH"
    by (auto dest!: default_managed simp: startswith_def DEFAULT_BIRD_PEERS_DIR_def DEFAULT_NETWORKD_DIR_def
        DEFAULT_NM_SYSTEM_CONNECTIONS_DIR_def DEFAULT_BIRD_EXTRA_CONF_PATH_def)
  ultimately show ?thesis using assms by (auto simp: config_apart_def resolve_paths_def)
qed

theorem apply_idempotent_witness:
  "\<exists>r s1 r2 s2. apply_state sample_apply sample_node_config ''/c'' False False sample_node = (Inr r, s1)
     \<and> apply_state sample_apply sample_node_config ''/c'' False False s1 = (Inr r2, s2) \<and> ap_reloads r2 = [] \<and> ap_deleted r2 = []"
proof -
  let ?s = sample_node and ?E = sample_apply and ?paths = "resolve_paths None ''/c''" and ?pl = "pl_payload sample_row"
  obtain entries where e: "planned_files ?E ''/c'' ?pl (ns_world ?s) = Inr (?paths, entries)"
    "map fst entries = sample_paths" "\<forall>e \<in> set entries. fst e \<noteq> ''/c''" "\<forall>e \<in> set entries. CHR 0x0D \<notin> set (fst (snd e))" by (rule sample_entries)
  note ap = sample_apart [OF e(2,3,4)]
  obtain r s1 where run: "apply_state ?E sample_node_config ''/c'' False False ?s = (Inr r, s1)" by (rule sample_runs)
  obtain row w where 1: "cached_row (ns_caches ?s (cfg_cache_db_path sample_node_config)) = Some row" "files w = files (ns_world ?s)"
    "env w = env (ns_world ?s)" "apply_cached ?E sample_node_config ''/c'' False False row w = (Inr r, ns_world s1)" "ns_caches s1 = ns_caches ?s"
    by (rule apply_state_returns [OF run]) (rule that)
  have row: "row = sample_row" using 1(1) sample_cached by simp
  obtain paths0 entries0 ws w1 where 2: "plan_files ?E ''/c'' ?pl w = (Inr (paths0, entries0, ws), w1)"
    "applied ?E paths0 entries0 w (ns_world s1)" "env (ns_world s1) = env w"
    by (rule apply_cached_returns [OF 1(4) [unfolded row]]) (rule that, assumption, simp, assumption)
  have "planned_files ?E ''/c'' ?pl w = planned_files ?E ''/c'' ?pl (ns_world ?s)" using 1(2) by (simp add: planned_files_def config_at_def content_at_def)
  with planned_returns [OF _ 2(1)] e(1) 1(3) sample_quiet(1) have pe: "paths0 = ?paths" "entries0 = entries" by simp_all
  have room: "room ?E entries (ns_world s1)"
    by (rule room_applied [of ?E entries w ?paths]) (use sample_room [OF e(2)] 1(2,3) 2 pe in \<open>simp_all add: room_def\<close>)
  have "''/c'' \<notin> fst ` set entries" using e(3) by auto
  moreover have "\<not> managed_file ?E (files w) ?paths ''/c''" using managed_file_name [OF sample_steady] ap unfolding config_apart_def by fastforce
  ultimately have c: "content_at (ns_world s1) ''/c'' = content_at (ns_world ?s) ''/c''"
    using appliedD(3) [OF 2(2) [unfolded pe]] content_cong [OF 1(2)] by simp
  have none: "config_at (ae_toml ?E) (ns_world ?s) ''/c'' = None" 
    by (simp add: config_at_def content_at_def sample_node_def DEFAULT_BIRD_BABEL_CONF_PATH_def)
  have node: "node_plan ?E ?pl p ac there = Inr []" for p ac there
    by (simp add: node_plan_def sample_row_def dict_get_value_def)
  have "config_at (ae_toml ?E) (ns_world s1) ''/c'' = None" using none c unfolding config_at_def by simp
  then have "planned_files ?E ''/c'' ?pl (ns_world s1) = Inr (?paths, entries)"
    using e(1) unfolding planned_files_def none by (simp add: node Let_def bindR_Inr)
  moreover have "cached_row (ns_caches s1 (cfg_cache_db_path sample_node_config)) = Some sample_row" using 1(5) sample_cached by simp
  moreover have "\<forall>t. \<not> sql_fault (env (ns_world s1)) t" using 1(3) 2(3) sample_quiet(2) by simp
  ultimately obtain r2 s2 where again: "apply_state ?E sample_node_config ''/c'' False False s1 = (Inr r2, s2)"
    using apply_total [of s1 sample_node_config sample_row ?E "''/c''" ?paths entries False False] room sample_answers(1,2) by blast
  have "config_after ?E ?pl None = None" by (simp add: config_after_def)
  then have "\<forall>c. config_after ?E ?pl (config_at (ae_toml ?E) (ns_world ?s) ''/c'') = Some c \<longrightarrow> app_config_ok c \<and> toml_keeps (ae_toml ?E) c"
    unfolding none by simp
  from apply_idempotent [OF sample_quiet(1) sample_steady sample_cached e(1) ap this run again] run again show ?thesis by blast
qed

end
