(* ===== verification/Agent_Effects.thy ===== *)
theory Agent_Effects
  imports Agent Apply_Sample
begin

text \<open>
  What the agent of \<open>node_ws_agent.py\<close> makes of a pushed state: the report that answers it, and what
  happens to a state that is stored but cannot be rendered. The last section holds the
  configurations at which the theorems about the agent are applied.
\<close>

section \<open>A state that cannot be rendered\<close>

definition calm_world :: "world \<Rightarrow> bool" where
  "calm_world w \<longleftrightarrow> (\<forall>t. \<not> io_fault (env w) t \<and> \<not> sql_fault (env w) t)"

lemma plan_files_fails:
  assumes "\<forall>t. \<not> io_fault (env w) t" and plan: "planned_files E cp payload w = Inl e"
  shows "fst (plan_files E cp payload w) = Inl e"
proof -
  let ?T = "ae_toml E" and ?ac = "config_at (ae_toml E) w cp" and ?block = "dict_get_value payload ''node''"
  let ?paths = "resolve_paths ?ac cp"
  obtain r u where l: "load_config ?T cp w = (r, u)" by fastforce
  have ac: "(case r of Inr c \<Rightarrow> Some c | Inl _ \<Rightarrow> None) = ?ac" using load_config_at [OF _ l] assms(1) by simp
  from l ac load_config_error [of ?T cp w _ u] have t: "try_except (bnd (load_config ?T cp) (\<lambda>c. ret (Some c)))
            (\<lambda>e. case e of ConfigError _ \<Rightarrow> ret None | _ \<Rightarrow> raise e) w = (Inr ?ac, u)"
    by (cases r) (auto simp: try_except_def bnd_def ret_def)
  from looksD [OF looks_load_config l] have u: "files u = files w" "env u = env w" by simp_all
  show ?thesis
  proof (cases "peer_entries E ?paths payload")
    case (Inl e')
    with plan have "e' = e" by (simp add: planned_files_def Let_def bindR_def)
    with Inl show ?thesis by (simp add: plan_files_def bnd_def [of "try_except _ _"] t Let_def) (simp add: bnd_def lift_result_def)
  next
    case (Inr pe)
    with plan have "node_plan E payload ?paths ?ac (files w (rp_bird_extra_conf_path ?paths) \<noteq> None) = Inl e"
      by (auto simp: planned_files_def Let_def bindR_def split: sum.splits)
    then have "fst ((if json_truthy ?block then render_node_config_files E ?block ?paths ?ac else ret ([], [])) u) = Inl e"
      using u assms(1)
      by (auto simp: node_plan_def render_node_config_files_def Let_def bindR_def bnd_def lift_result_def ret_def file_exists_def
          split: if_splits option.splits sum.splits)
    with Inr show ?thesis
      by (simp add: plan_files_def bnd_def [of "try_except _ _"] t Let_def)
        (auto simp: bnd_def lift_result_def split: prod.splits)
  qed
qed

lemma read_cached:
  assumes "cached_row (ns_caches s (cfg_cache_db_path cfg)) = Some row" and "calm_world (ns_world s)"
  shows "read_cache cfg s = (Inr (Some row), s\<lparr> ns_world := next_tick (ns_world s) \<rparr>)"
  using assms
  by (cases "ns_caches s (cfg_cache_db_path cfg)")
    (auto simp: calm_world_def read_cache_def bnd_def read_state_def cache_step_def Let_def fun_upd_idem split: option.splits)

lemma planned_cong: "files v = files w \<Longrightarrow> planned_files E cp payload v = planned_files E cp payload w"
  by (simp add: planned_files_def config_at_def content_at_def)

lemma apply_state_fails:
  assumes row: "cached_row (ns_caches s (cfg_cache_db_path cfg)) = Some row" and calm: "calm_world (ns_world s)"
    and plan: "planned_files E cp (pl_payload row) (ns_world s) = Inl e"
  obtains s' where "apply_state E cfg cp dry nr s = (Inl e, s')" and "ns_caches s' = ns_caches s"
    and "files (ns_world s') = files (ns_world s)" and "env (ns_world s') = env (ns_world s)"
proof -
  let ?w = "next_tick (ns_world s)"
  obtain w1 where p: "plan_files E cp (pl_payload row) ?w = (Inl e, w1)"
    using plan_files_fails [of ?w E cp "pl_payload row" e] plan calm planned_cong [of ?w "ns_world s"]
    by (cases "plan_files E cp (pl_payload row) ?w") (simp add: calm_world_def)
  from looksD [OF looks_reads(7) p] have w1: "files w1 = files (ns_world s)" "env w1 = env (ns_world s)" by simp_all
  from p have "apply_cached E cfg cp dry nr row ?w = (Inl e, w1)" by (simp add: apply_cached_def bnd_def)
  with read_cached [OF row calm] have "apply_state E cfg cp dry nr s = (Inl e, s\<lparr> ns_world := w1 \<rparr>)"
    by (simp add: apply_state_def bnd_def in_node_def)
  with that w1 show thesis by simp
qed

lemma store_desired_calm:
  assumes "calm_world (ns_world s)" and "dict_get_value payload ''revision'' = JStr rv" and "rv \<noteq> []"
  obtains row s' where "store_desired cfg payload s = (Inr row, s')" and "pl_payload row = payload"
    and "ns_caches s' (cfg_cache_db_path cfg) = Cached (Some row)"
    and "files (ns_world s') = files (ns_world s)" and "env (ns_world s') = env (ns_world s)"
proof -
  have "\<exists>row s'. store_desired cfg payload s = (Inr row, s') \<and> pl_payload row = payload
    \<and> ns_caches s' (cfg_cache_db_path cfg) = Cached (Some row) \<and> files (ns_world s') = files (ns_world s) \<and> env (ns_world s') = env (ns_world s)"
    using assms
    by (simp add: calm_world_def store_desired_def open_cache_def bnd_def in_node_def cache_step_def now_iso_def io_step_def
        ignore_os_error_def try_except_def ret_def Let_def read_state_def modify_state_def)
  then show thesis using that by blast
qed

lemma on_node_run: "on_node m a = (case m (ag_node a) of (r, s) \<Rightarrow> (r, a\<lparr> ag_node := s \<rparr>))"
  by (simp add: on_node_def)

lemma push_fails:
  assumes calm: "calm_world (ns_world (ag_node a))" and d: "dict_get_value (env_payload msg) ''desired'' = JObj payload"
    and "dict_get_value payload ''revision'' = JStr rv" "rv \<noteq> []"
    and plan: "planned_files (ge_apply G) cp payload (ns_world (ag_node a)) = Inl e" and e: "\<not> is_caught e"
  obtains a' row where "handle_desired_push G cfg cp msg a = (Inl e, a')" and "ag_sent a' = ag_sent a"
    and "cached_row (ns_caches (ag_node a') (cfg_cache_db_path cfg)) = Some row" and "pl_payload row = payload"
    and "files (ns_world (ag_node a')) = files (ns_world (ag_node a))" and "env (ns_world (ag_node a')) = env (ns_world (ag_node a))"
proof -
  obtain row s where s: "store_desired cfg payload (ag_node a) = (Inr row, s)" "pl_payload row = payload"
    "ns_caches s (cfg_cache_db_path cfg) = Cached (Some row)"
    "files (ns_world s) = files (ns_world (ag_node a))" "env (ns_world s) = env (ns_world (ag_node a))"
    by (rule store_desired_calm [OF calm assms(3,4)])
  have c: "cached_row (ns_caches s (cfg_cache_db_path cfg)) = Some row" "calm_world (ns_world s)"
    "planned_files (ge_apply G) cp (pl_payload row) (ns_world s) = Inl e"
    using s calm plan planned_cong [OF s(4)] by (simp_all add: calm_world_def)
  obtain s' where s': "apply_state (ge_apply G) cfg cp False False s = (Inl e, s')" "ns_caches s' = ns_caches s"
    "files (ns_world s') = files (ns_world s)" "env (ns_world s') = env (ns_world s)"
    by (rule apply_state_fails [OF c])
  have "handle_desired_push G cfg cp msg a = (Inl e, a\<lparr> ag_node := s' \<rparr>)"
    using e by (simp add: handle_desired_push_def d bnd_def try_except_def on_node_run s(1) s'(1) raise_def)
  with that [of "a\<lparr> ag_node := s' \<rparr>" row] c(1) s s' show thesis by simp
qed

lemma bnd_raises: "fst (m s) = Inl e \<Longrightarrow> fst (bnd m f s) = Inl e"
  by (cases "m s") (simp add: bnd_def)

lemma bootstrap_fails:
  assumes "cached_row (ns_caches (ag_node a) (cfg_cache_db_path cfg)) = Some row" and calm: "calm_world (ns_world (ag_node a))"
    and plan: "planned_files (ge_apply G) cp (pl_payload row) (ns_world (ag_node a)) = Inl e" and e: "\<not> is_caught e"
  shows "fst (apply_from_cache G cfg cp a) = Inl e"
proof -
  let ?s = "(ag_node a)\<lparr> ns_world := next_tick (ns_world (ag_node a)) \<rparr>"
  have "cached_row (ns_caches ?s (cfg_cache_db_path cfg)) = Some row" "calm_world (ns_world ?s)"
    "planned_files (ge_apply G) cp (pl_payload row) (ns_world ?s) = Inl e"
    using assms planned_cong [of "ns_world ?s" "ns_world (ag_node a)"] by (simp_all add: calm_world_def)
  then obtain s' where "apply_state (ge_apply G) cfg cp False False ?s = (Inl e, s')" by (rule apply_state_fails)
  with e read_cached [OF assms(1) calm] show ?thesis
    by (simp add: apply_from_cache_def bnd_def try_except_def on_node_run raise_def)
qed

text \<open>
  C18. A pushed state with a revision that cannot be rendered because of an exception other than
  \<open>Dn42CtlError\<close> and \<open>OSError\<close> (a key that is missing, a value that is no number): it is cached,
  the exception leaves the handler and so ends the connection without a report to the hub;
  and from then on every start of \<open>run_agent\<close> ends with that exception before it connects,
  whatever would become of the connections.
\<close>

theorem unrenderable_push_stops_agent:
  assumes conf: "configured (ae_toml (ge_apply G)) ncp cfg a" and calm: "calm_world (ns_world (ag_node a))"
    and "dict_get_value (env_payload msg) ''desired'' = JObj payload" and "dict_get_value payload ''revision'' = JStr rv" and "rv \<noteq> []"
    and plan: "planned_files (ge_apply G) cp payload (ns_world (ag_node a)) = Inl e" and e: "\<not> is_caught e"
  shows "\<exists>a'. handle_desired_push G cfg cp msg a = (Inl e, a') \<and> ag_sent a' = ag_sent a
    \<and> (\<forall>st oc ocs. fst (run_agent G ncp cp st (oc # ocs) a') = Inl e)"
proof -
  let ?T = "ae_toml (ge_apply G)"
  obtain a' row where h: "handle_desired_push G cfg cp msg a = (Inl e, a')" "ag_sent a' = ag_sent a"
    and row: "cached_row (ns_caches (ag_node a') (cfg_cache_db_path cfg)) = Some row" "pl_payload row = payload"
    and w: "files (ns_world (ag_node a')) = files (ns_world (ag_node a))" "env (ns_world (ag_node a')) = env (ns_world (ag_node a))"
    by (rule push_fails [OF calm assms(3,4,5) plan e])
  let ?a = "a'\<lparr> ag_node := (ag_node a')\<lparr> ns_world := next_tick (ns_world (ag_node a')) \<rparr> \<rparr>"
  have c: "configured ?T ncp cfg a'" using conf w by (simp add: configured_def content_at_def Let_def)
  have "fst (apply_from_cache G cfg cp ?a) = Inl e"
    by (rule bootstrap_fails [where row = row]) (use row w calm plan e planned_cong [of "ns_world (ag_node ?a)" "ns_world (ag_node a)"] in \<open>simp_all add: calm_world_def\<close>)
  then have "fst (run_round G ncp cp st False 0 oc a') = Inl e" for st oc
    by (auto simp: run_round_def bnd_def try_except_def configured_loads [OF c] Let_def split: prod.splits)
  then have "fst (run_agent G ncp cp st (oc # ocs) a') = Inl e" for st oc ocs
    by (simp add: run_agent_def bnd_raises)
  with h show ?thesis by blast
qed

section \<open>The report of a push\<close>

lemma agent_send_sent:
  assumes "agent_send G t p a = (r, a')"
  shows "(\<exists>x. ge_send_fault G x) \<and> r = Inl SocketError \<and> ag_sent a' = ag_sent a
    \<or> r = Inr () \<and> (\<exists>f. ag_sent a' = ag_sent a @ [f] \<and> env_type f = t \<and> env_payload f = p)"
    and "files (ns_world (ag_node a')) = files (ns_world (ag_node a))" and "ns_caches (ag_node a') = ns_caches (ag_node a)"
  using assms
  by (auto simp: agent_send_def bnd_def on_node_def in_node_def now_iso_def new_envelope_def split: if_splits)

text \<open>
  What an \<open>apply_result\<close> stands for: the pushed state is the cached one, the report gives its
  revision, and the files it renders to have the rendered contents.
\<close>

definition pushed_applied :: "agent_env \<Rightarrow> NodeConfig \<Rightarrow> string \<Rightarrow> Envelope \<Rightarrow> Envelope \<Rightarrow> agent \<Rightarrow> bool" where
  "pushed_applied G cfg cp msg f a \<longleftrightarrow>
     (\<exists>desired row report paths entries warnings v v'. dict_get_value (env_payload msg) ''desired'' = JObj desired
      \<and> cached_row (ns_caches (ag_node a) (cfg_cache_db_path cfg)) = Some row \<and> pl_payload row = desired
      \<and> dict_get_value desired ''revision'' = JStr (pl_revision row)
      \<and> dict_get_value (env_payload f) ''payload'' = JObj report \<and> dict_get_value report ''revision'' = JStr (pl_revision row)
      \<and> plan_files (ge_apply G) cp desired v = (Inr (paths, entries, warnings), v')
      \<and> (\<forall>p \<in> fst ` set entries. content_at (ns_world (ag_node a)) p = final_content entries p))"

definition reported :: "agent_env \<Rightarrow> NodeConfig \<Rightarrow> string \<Rightarrow> Envelope \<Rightarrow> agent \<Rightarrow> agent \<Rightarrow> bool" where
  "reported G cfg cp msg a a' \<longleftrightarrow> (\<exists>f. ag_sent a' = ag_sent a @ [f] \<and> env_type f = MSG_REPORT_SUBMIT
      \<and> (dict_get_value (env_payload f) ''kind'' = JStr ''error''
         \<or> dict_get_value (env_payload f) ''kind'' = JStr ''apply_result'' \<and> pushed_applied G cfg cp msg f a'))"

lemma report_error_sent:
  assumes "report_error G m a = (r, a')"
  shows "ag_sent a' = ag_sent a \<and> (\<exists>x. ge_send_fault G x) \<or> reported G cfg cp msg a a'"
proof -
  let ?p = "[(''kind'', JStr ''error''), (''payload'', JObj [(''message'', JStr m)])]"
  obtain q b where q: "agent_send G MSG_REPORT_SUBMIT ?p a = (q, b)" by fastforce
  then have "a' = b" using assms by (auto simp: report_error_def try_except_def ret_def split: sum.splits)
  with agent_send_sent(1) [OF q] show ?thesis by (auto simp: reported_def dict_get_value_def)
qed

lemma applied_sent:
  assumes store: "store_desired cfg desired (ag_node a) = (Inr row, s)" and run: "apply_state (ge_apply G) cfg cp False False s = (Inr res, s')"
    and d: "dict_get_value (env_payload msg) ''desired'' = JObj desired"
    and send: "agent_send G MSG_REPORT_SUBMIT (apply_report res) b = (Inr (), a')" and b: "ag_node b = s'" "ag_sent b = ag_sent a"
  shows "reported G cfg cp msg a a'"
proof -
  note row = store_desired_row(1,2) [OF store]
  obtain row' v where r: "cached_row (ns_caches s (cfg_cache_db_path cfg)) = Some row'" "files v = files (ns_world s)"
    "apply_cached (ge_apply G) cfg cp False False row' v = (Inr res, ns_world s')" "ns_caches s' = ns_caches s"
    by (rule apply_state_returns [OF run]) (rule that)
  have row': "row' = row" using r(1) row(2) by simp
  obtain paths entries warnings v' where p: "plan_files (ge_apply G) cp (pl_payload row') v = (Inr (paths, entries, warnings), v')"
    and rv: "ap_revision res = pl_revision row'" and app: "applied (ge_apply G) paths entries v (ns_world s')"
    by (rule apply_cached_returns [OF r(3)]) (rule that, assumption, assumption, simp)
  from agent_send_sent [OF send] obtain f where f: "ag_sent a' = ag_sent a @ [f]" "env_type f = MSG_REPORT_SUBMIT" "env_payload f = apply_report res"
    and w: "files (ns_world (ag_node a')) = files (ns_world s')" "ns_caches (ag_node a') = ns_caches s"
    using b r(4) by auto
  have "\<forall>p \<in> fst ` set entries. content_at (ns_world (ag_node a')) p = final_content entries p"
    using appliedD(1) [OF app] content_cong [OF w(1)] by simp
  moreover obtain report where "dict_get_value (apply_report res) ''payload'' = JObj report" "dict_get_value report ''revision'' = JStr (ap_revision res)"
    by (simp add: apply_report_def dict_get_value_def)
  ultimately have "pushed_applied G cfg cp msg f a'"
    unfolding pushed_applied_def f(3)
    using d row p rv w(2) row'
    by (intro exI [of _ desired] exI [of _ row] exI [of _ report] exI [of _ paths] exI [of _ entries] exI [of _ warnings] exI [of _ v] exI [of _ v']) simp
  with f show ?thesis by (auto simp: reported_def apply_report_def dict_get_value_def)
qed

text \<open>
  C12. A push that the agent survives is answered with one report: the handler returns having sent
  one \<open>report_submit\<close>, which names an error, or says that the state was applied, and then
  the cached state is the pushed one, the reported revision is its revision and the files it
  renders to have the rendered contents; only a report of an error that cannot be sent is missing.
\<close>

theorem push_is_reported:
  assumes run: "handle_desired_push G cfg cp msg a = (Inr (), a')"
  shows "ag_sent a' = ag_sent a \<and> (\<exists>x. ge_send_fault G x) \<or> reported G cfg cp msg a a'"
proof (cases "\<exists>desired. dict_get_value (env_payload msg) ''desired'' = JObj desired")
  case False
  then have "report_error G ''desired_push without desired object'' a = (Inr (), a')"
    using run by (auto simp: handle_desired_push_def split: json.splits)
  then show ?thesis by (rule report_error_sent)
next
  case True
  then obtain desired where d: "dict_get_value (env_payload msg) ''desired'' = JObj desired" by blast
  let ?push = "try_except
      (bnd (on_node (store_desired cfg desired)) (\<lambda>_.
       bnd (on_node (apply_state (ge_apply G) cfg cp False False)) (\<lambda>result. ret (Inr result))))
      (\<lambda>e. if is_caught e then ret (Inl e) else raise e)"
  let ?answer = "\<lambda>outcome. case outcome of
         Inl e \<Rightarrow> bnd (emit (''apply failed: '' @ str_exn e)) (\<lambda>_. report_error G (str_exn e))
       | Inr result \<Rightarrow> bnd (emit (apply_summary result)) (\<lambda>_. agent_send G MSG_REPORT_SUBMIT (apply_report result))"
  have run': "bnd ?push ?answer a = (Inr (), a')" using run unfolding handle_desired_push_def d json.case .
  obtain q s where q: "store_desired cfg desired (ag_node a) = (q, s)" by fastforce
  have failed: ?thesis if "?push a = ((if is_caught e then Inr (Inl e) else Inl e), a\<lparr> ag_node := t \<rparr>)" for e t
    using run' report_error_sent [of G "str_exn e" "a\<lparr> ag_node := t, ag_emitted := ag_emitted a @ [''apply failed: '' @ str_exn e] \<rparr>" "Inr ()" a' cfg cp msg]
    unfolding bnd_def [of ?push] that by (auto simp: bnd_def emit_def modify_state_def reported_def split: if_splits)
  show ?thesis
  proof (cases q)
    case (Inl e)
    with q have "?push a = ((if is_caught e then Inr (Inl e) else Inl e), a\<lparr> ag_node := s \<rparr>)"
      by (simp add: bnd_def try_except_def on_node_run ret_def raise_def)
    then show ?thesis by (rule failed)
  next
    case (Inr row)
    obtain x s' where x: "apply_state (ge_apply G) cfg cp False False s = (x, s')" by fastforce
    show ?thesis
    proof (cases x)
      case (Inl e)
      with q x Inr have "?push a = ((if is_caught e then Inr (Inl e) else Inl e), a\<lparr> ag_node := s' \<rparr>)"
        by (simp add: bnd_def try_except_def on_node_run ret_def raise_def)
      then show ?thesis by (rule failed)
    next
      case res: (Inr res)
      with q x Inr have "?push a = (Inr (Inr res), a\<lparr> ag_node := s' \<rparr>)"
        by (simp add: bnd_def try_except_def on_node_run ret_def raise_def)
      with run' have "agent_send G MSG_REPORT_SUBMIT (apply_report res) (a\<lparr> ag_node := s', ag_emitted := ag_emitted a @ [apply_summary res] \<rparr>) = (Inr (), a')"
        by (simp add: bnd_def [of ?push]) (simp add: bnd_def emit_def modify_state_def)
      with applied_sent [of cfg desired a row s G cp res s' msg] q x d Inr res show ?thesis by simp
    qed
  qed
qed

section \<open>An agent\<close>

text \<open>The conversion to float of a 64-bit machine on integers that are at least zero.\<close>

definition float_bits :: nat where "float_bits = 1024"

definition agent_toml :: toml_env where
  "agent_toml = good_toml\<lparr> float_int := (\<lambda>i. if i < 2 ^ float_bits then Inr (Fin (of_int i)) else Inl OverflowError) \<rparr>"

definition sample_agent_env :: "apply_env \<Rightarrow> agent_env" where
  "sample_agent_env E = \<lparr> ge_apply = E, ge_new_id = (\<lambda>_. ''id''), ge_send_fault = (\<lambda>_. False), ge_random = (\<lambda>_. 1 / 2),
     ge_repr = (\<lambda>s. s), ge_limit = 100, ge_version = ''1'' \<rparr>"

definition sample_agent :: agent where
  "sample_agent = \<lparr> ag_node = \<lparr> ns_world = (start_world empty_database)\<lparr> files := [''/n'' \<mapsto> sample_file []] \<rparr>, ns_caches = (\<lambda>_. Absent) \<rparr>,
     ag_sent = [], ag_emitted = [], ag_slept = [] \<rparr>"

lemma agent_toml_floats: "power_floats agent_toml"
proof -
  have "(2 :: int) ^ n < 2 ^ float_bits \<longleftrightarrow> n < float_bits" for n by (rule power_strict_increasing_iff) simp
  moreover have "float_int agent_toml i = (if i < 2 ^ float_bits then Inr (Fin (of_int i)) else Inl OverflowError)" for i
    by (simp add: agent_toml_def)
  ultimately show ?thesis by (auto simp: power_floats_def float_bits_def [symmetric])
qed

lemma sample_configured: "configured agent_toml ''/n'' sample_node_config sample_agent"
proof -
  have d: "config_dict sample_toml sample_node_config = config_dict agent_toml sample_node_config"
    by (simp add: config_dict_def agent_toml_def good_toml_def)
  have l: "toml_loads agent_toml t = Some (config_dict agent_toml sample_node_config)" for t
    unfolding d [symmetric] by (simp add: agent_toml_def good_toml_def)
  have f: "Node_Config.float_text agent_toml = Node_Config.float_text good_toml" "repr_float agent_toml = repr_float good_toml" by (simp_all add: agent_toml_def)
  have "toml_roundtrips agent_toml sample_node_config"
    using good_toml_ok(2) unfolding toml_roundtrips_def l f by blast
  from parse_config_dict [OF good_toml_ok(1) this] show ?thesis
    unfolding configured_def l by (simp add: Let_def sample_agent_def content_at_def)
qed

theorem next_delay_bounds_witness:
  "\<exists>q. next_delay agent_toml (cfg_agent sample_node_config) 4 None (1 / 2) = Inr (Fin q, 5) \<and> 0 \<le> q \<and> q \<le> 300 \<and> q \<le> 1 * 2 ^ 4"
proof -
  let ?o = "cfg_agent sample_node_config"
  have o: "reconnect_initial_seconds ?o = Fin 1" "reconnect_max_seconds ?o = Fin 300"
    by (simp_all add: sample_node_config_def DEFAULT_AGENT_OPTIONS_def)
  have "\<not> refuses_credentials None" by (simp add: refuses_credentials_def)
  with next_delay_bounds [OF agent_toml_floats _ _ o, of "1 / 2" 4 None] show ?thesis
    by (simp split: sum.splits) (cases "next_delay agent_toml ?o 4 None (1 / 2)", auto)
qed

theorem outage_ends_agent_witness:
  "fst (run_agent (sample_agent_env (sample_apply\<lparr> ae_toml := agent_toml \<rparr>)) ''/n'' ''/c'' None (replicate float_bits Refused) sample_agent) = Inr float_bits
   \<and> fst (run_agent (sample_agent_env (sample_apply\<lparr> ae_toml := agent_toml \<rparr>)) ''/n'' ''/c'' None (replicate (Suc float_bits) Refused) sample_agent)
       = Inl OverflowError"
proof -
  let ?G = "sample_agent_env (sample_apply\<lparr> ae_toml := agent_toml \<rparr>)"
  have t: "ae_toml (ge_apply ?G) = agent_toml" by (simp add: sample_agent_env_def)
  have "fst (run_agent ?G ''/n'' ''/c'' None (replicate k Refused) sample_agent) = (if k \<le> 1024 then Inr k else Inl OverflowError)" for k
    by (rule outage_ends_agent [of ?G "''/n''" sample_node_config, unfolded t, OF agent_toml_floats sample_configured]) (simp add: sample_agent_def)
  from this [of float_bits] this [of "Suc float_bits"] show ?thesis by (simp add: float_bits_def del: replicate.simps replicate_numeral)
qed

definition sample_push :: "jdict \<Rightarrow> Envelope" where
  "sample_push desired = new_envelope ''id'' ''t'' MSG_DESIRED_PUSH [(''desired'', JObj desired)] None"

lemma sample_agent_calm: "calm_world (ns_world (ag_node sample_agent))"
  by (simp add: calm_world_def sample_agent_def)

theorem unrenderable_push_stops_agent_witness:
  "\<exists>a'. handle_desired_push (sample_agent_env (sample_apply\<lparr> ae_toml := agent_toml \<rparr>)) sample_node_config ''/c''
       (sample_push [(''revision'', JStr ''r''), (''bgp_peers'', JArr [JObj []])]) sample_agent = (Inl (KeyError ''ifname''), a')
     \<and> fst (run_agent (sample_agent_env (sample_apply\<lparr> ae_toml := agent_toml \<rparr>)) ''/n'' ''/c'' None [Refused] a') = Inl (KeyError ''ifname'')"
proof -
  let ?G = "sample_agent_env (sample_apply\<lparr> ae_toml := agent_toml \<rparr>)"
  let ?pl = "[(''revision'', JStr ''r''), (''bgp_peers'', JArr [JObj []])]"
  have "planned_files (ge_apply ?G) ''/c'' ?pl (ns_world (ag_node sample_agent)) = Inl (KeyError ''ifname'')"
    by (simp add: planned_files_def Let_def peer_entries_def items_of_def get_or_def dict_get_def dict_get_value_def
        render_bgp_peer_files_def subscript_def bindR_def)
  moreover have "configured (ae_toml (ge_apply ?G)) ''/n'' sample_node_config sample_agent"
    using sample_configured by (simp add: sample_agent_env_def)
  moreover have "dict_get_value (env_payload (sample_push ?pl)) ''desired'' = JObj ?pl" "dict_get_value ?pl ''revision'' = JStr ''r''"
    by (simp_all add: sample_push_def new_envelope_def dict_get_value_def)
  ultimately show ?thesis
    using unrenderable_push_stops_agent [of ?G "''/n''" sample_node_config sample_agent "sample_push ?pl" ?pl "''r''" "''/c''" "KeyError ''ifname''"]
      sample_agent_calm by auto
qed

theorem push_is_reported_witness:
  "\<exists>a'. handle_desired_push (sample_agent_env sample_apply) sample_node_config ''/c'' (sample_push (pl_payload sample_row))
       (sample_agent\<lparr> ag_node := sample_node \<rparr>) = (Inr (), a')
     \<and> reported (sample_agent_env sample_apply) sample_node_config ''/c'' (sample_push (pl_payload sample_row)) (sample_agent\<lparr> ag_node := sample_node \<rparr>) a'"
proof -
  let ?G = "sample_agent_env sample_apply" and ?a = "sample_agent\<lparr> ag_node := sample_node \<rparr>" and ?pl = "pl_payload sample_row"
  have calm: "calm_world (ns_world (ag_node ?a))" using sample_quiet by (simp add: calm_world_def)
  have "dict_get_value ?pl ''revision'' = JStr ''r1''" by (simp add: sample_row_def dict_get_value_def)
  with calm obtain row s where s: "store_desired sample_node_config ?pl (ag_node ?a) = (Inr row, s)" "pl_payload row = ?pl"
    "ns_caches s (cfg_cache_db_path sample_node_config) = Cached (Some row)"
    "files (ns_world s) = files (ns_world sample_node)" "env (ns_world s) = env (ns_world sample_node)"
    by (rule store_desired_calm) simp_all
  obtain entries where e: "planned_files sample_apply ''/c'' ?pl (ns_world sample_node) = Inr (resolve_paths None ''/c'', entries)"
    "map fst entries = sample_paths" by (rule sample_entries)
  have c: "cached_row (ns_caches s (cfg_cache_db_path sample_node_config)) = Some row" "\<forall>t. \<not> sql_fault (env (ns_world s)) t"
    "planned_files sample_apply ''/c'' (pl_payload row) (ns_world s) = Inr (resolve_paths None ''/c'', entries)"
    "room sample_apply entries (ns_world s)" "\<forall>p. ae_resolve sample_apply p \<noteq> None"
    using s sample_quiet e planned_cong [OF s(4)] sample_room [OF e(2)] by (simp_all add: room_def sample_apply_def)
  from apply_total [OF c sample_answers(1)] obtain r s' where r: "apply_state sample_apply sample_node_config ''/c'' False False s = (Inr r, s')" by blast
  have G: "ge_apply ?G = sample_apply" "ge_send_fault ?G t = False" for t by (simp_all add: sample_agent_env_def)
  have "dict_get_value (env_payload (sample_push ?pl)) ''desired'' = JObj ?pl" by (simp add: sample_push_def new_envelope_def dict_get_value_def)
  with s(1) r G obtain a' where run: "handle_desired_push ?G sample_node_config ''/c'' (sample_push ?pl) ?a = (Inr (), a')"
    by (simp add: handle_desired_push_def bnd_def try_except_def on_node_run ret_def emit_def modify_state_def agent_send_def in_node_def now_iso_def)
  from push_is_reported [OF run] G(2) run show ?thesis by blast
qed

end
