(* ===== verification/Scan_Text.thy ===== *)
theory Scan_Text
  imports Apply
begin

text \<open>
  The parsers of \<open>dn42ctl/services/scan.py\<close>: the sections of networkd files, and what the scanner
  finds in files of BIRD with regular expressions.
\<close>

section \<open>Lines\<close>

text \<open>\<open>str.splitlines\<close> on U+0000 to U+00FF.\<close>

definition is_break :: "char \<Rightarrow> bool" where
  "is_break c = (let n = code_point c in (10 \<le> n \<and> n \<le> 13) \<or> (28 \<le> n \<and> n \<le> 30) \<or> n = 133)"

fun lines_from :: "string \<Rightarrow> string \<Rightarrow> string list" where
  "lines_from acc [] = (if acc = [] then [] else [acc])"
| "lines_from acc (c # s) =
     (if \<not> is_break c then lines_from (acc @ [c]) s
      else acc # lines_from [] (if c = CHR 0x0D \<and> startswith s [CHR 0x0A] then tl s else s))"

definition splitlines :: "string \<Rightarrow> string list" where
  "splitlines s = lines_from [] s"

definition strip_inline_comment :: "string \<Rightarrow> string" where
  "strip_inline_comment l =
     (if CHR ''#'' \<in> set l then rstrip (takeWhile (\<lambda>c. c \<noteq> CHR ''#'') l)
      else if CHR '';'' \<in> set l then rstrip (takeWhile (\<lambda>c. c \<noteq> CHR '';'') l)
      else l)"

text \<open>What the loops over the lines of a networkd file make of a line.\<close>

datatype ini_item = Ignored | Header string | Setting string string

definition ini_item_of :: "string \<Rightarrow> ini_item" where
  "ini_item_of raw = (let l = strip raw in
     if l = [] \<or> startswith l ''#'' \<or> startswith l '';'' then Ignored
     else let l = strip_inline_comment l in
       if l = [] then Ignored
       else if startswith l ''['' \<and> endswith l '']'' then Header (strip (butlast (tl l)))
       else case partition_at (CHR ''='') l of (key, found, val) \<Rightarrow>
         if found then Setting (strip key) (strip val) else Ignored)"

section \<open>Numbers\<close>

text \<open>
  \<open>int(s)\<close>: digits with single underscores between them, after a sign, with blanks around, as many
  as the interpreter converts.
\<close>

fun digit_groups :: "string \<Rightarrow> bool" where
  "digit_groups [] = False"
| "digit_groups [c] = is_digit c"
| "digit_groups (c # d # s) = (is_digit c \<and> (if d = CHR ''_'' then digit_groups s else digit_groups (d # s)))"

definition MAX_INT_DIGITS :: nat where "MAX_INT_DIGITS = 4300"

definition py_int :: "string \<Rightarrow> int option" where
  "py_int s = (let t = strip s; neg = startswith t ''-''; u = (if neg \<or> startswith t ''+'' then tl t else t);
       ds = filter (\<lambda>c. c \<noteq> CHR ''_'') u
     in if \<not> digit_groups u \<or> length ds > MAX_INT_DIGITS then None
        else Some (if neg then - int (parse_nat ds) else int (parse_nat ds)))"

section \<open>Files of networkd\<close>

record netdev_data =
  nd_private_key :: "string option"
  nd_listen_port :: "int option"
  nd_peer_public_key :: "string option"
  nd_endpoint :: "string option"
  nd_allowed_ips :: "string list"

text \<open>\<open>re.split(r"[\s,]+", val)\<close>, of which the items that are not empty count.\<close>

definition is_separator :: "char \<Rightarrow> bool" where
  "is_separator c \<longleftrightarrow> is_space c \<or> c = CHR '',''"

function words_of :: "string \<Rightarrow> string list" where
  "words_of s = (let t = dropWhile is_separator s in
     if t = [] then [] else takeWhile (\<lambda>c. \<not> is_separator c) t # words_of (dropWhile (\<lambda>c. \<not> is_separator c) t))"
  by pat_completeness auto

lemma dropWhile_shorter: "dropWhile P s \<noteq> [] \<Longrightarrow> length (dropWhile (\<lambda>c. \<not> P c) (dropWhile P s)) < length s"
  by (induction s) (auto simp: le_imp_less_Suc length_dropWhile_le)

termination words_of
  by (relation "measure length") (simp_all add: dropWhile_shorter del: dropWhile_eq_Nil_conv)

declare words_of.simps [simp del]

definition netdev_setting :: "string \<Rightarrow> string \<Rightarrow> string \<Rightarrow> netdev_data \<Rightarrow> netdev_data" where
  "netdev_setting section_name key val out =
     (if section_name = ''WireGuard'' then
        (if key = ''PrivateKey'' then out\<lparr> nd_private_key := Some val \<rparr>
         else if key = ''ListenPort'' then (case py_int val of None \<Rightarrow> out | Some p \<Rightarrow> out\<lparr> nd_listen_port := Some p \<rparr>)
         else out)
      else if section_name = ''WireGuardPeer'' then
        (if key = ''PublicKey'' then out\<lparr> nd_peer_public_key := Some val \<rparr>
         else if key = ''Endpoint'' then out\<lparr> nd_endpoint := Some val \<rparr>
         else if key = ''AllowedIPs''
           then out\<lparr> nd_allowed_ips := nd_allowed_ips out @ filter (\<lambda>i. ipv6_network i \<noteq> None) (words_of val) \<rparr>
         else out)
      else out)"

fun fold_settings :: "(string \<Rightarrow> string \<Rightarrow> string \<Rightarrow> 'd \<Rightarrow> 'd) \<Rightarrow> string \<Rightarrow> string list \<Rightarrow> 'd \<Rightarrow> 'd" where
  "fold_settings f section_name [] out = out"
| "fold_settings f section_name (l # ls) out = (case ini_item_of l of
     Ignored \<Rightarrow> fold_settings f section_name ls out
   | Header s \<Rightarrow> fold_settings f s ls out
   | Setting key val \<Rightarrow> fold_settings f section_name ls (f section_name key val out))"

definition parse_networkd_netdev :: "string \<Rightarrow> netdev_data" where
  "parse_networkd_netdev text = fold_settings netdev_setting [] (splitlines text)
     \<lparr> nd_private_key = None, nd_listen_port = None, nd_peer_public_key = None, nd_endpoint = None, nd_allowed_ips = [] \<rparr>"

record network_data =
  nw_local_lla :: "string option"
  nw_peer_lla :: "string option"

definition network_setting :: "string \<Rightarrow> string \<Rightarrow> string \<Rightarrow> network_data \<Rightarrow> network_data" where
  "network_setting section_name key val out =
     (if section_name = ''Address'' then
        (if key = ''Address'' then out\<lparr> nw_local_lla := Some (fst (partition_at (CHR ''/'') val)) \<rparr>
         else if key = ''Peer'' then out\<lparr> nw_peer_lla := Some val \<rparr>
         else out)
      else out)"

definition parse_networkd_network :: "string \<Rightarrow> network_data" where
  "parse_networkd_network text = fold_settings network_setting [] (splitlines text) \<lparr> nw_local_lla = None, nw_peer_lla = None \<rparr>"

section \<open>Regular expressions\<close>

text \<open>
  What the scanner uses of \<open>re\<close>: sequences of single characters, greedy repetitions of a class of
  characters, groups, a reference to a group, alternatives of literals, an optional tail, the
  ends of lines and the boundary of a word. A match tries the longest repetition first.
\<close>

datatype rx =
    One "char \<Rightarrow> bool" | Many "char \<Rightarrow> bool" | Begin nat | End nat | Back nat
  | Choice "string list" | Maybe "char \<Rightarrow> bool" "char \<Rightarrow> bool" | LineStart | LineEnd | Boundary

definition is_word :: "char \<Rightarrow> bool" where
  "is_word c \<longleftrightarrow> is_alnum c \<or> c = CHR ''_'' \<or>
     (let n = code_point c in n \<in> {170, 178, 179, 181, 185, 186, 188, 189, 190} \<or> (192 \<le> n \<and> n \<noteq> 215 \<and> n \<noteq> 247))"

fun first_some :: "('a \<Rightarrow> 'b option) \<Rightarrow> 'a list \<Rightarrow> 'b option" where
  "first_some f [] = None"
| "first_some f (x # xs) = (case f x of Some y \<Rightarrow> Some y | None \<Rightarrow> first_some f xs)"

text \<open>The lengths a greedy repetition tries, and the character before what is left.\<close>

definition run_lengths :: "(char \<Rightarrow> bool) \<Rightarrow> string \<Rightarrow> nat list" where
  "run_lengths p s = rev [0..<Suc (length (takeWhile p s))]"

definition prev_after :: "char option \<Rightarrow> nat \<Rightarrow> string \<Rightarrow> char option" where
  "prev_after prev k s = (if k = 0 then prev else Some (s ! (k - 1)))"

type_synonym groups = "nat \<Rightarrow> string"

fun rx_match :: "rx list \<Rightarrow> char option \<Rightarrow> string \<Rightarrow> groups \<Rightarrow> groups \<Rightarrow> (groups \<times> string) option" where
  "rx_match [] prev s from g = Some (g, s)"
| "rx_match (One p # r) prev s from g = (if s \<noteq> [] \<and> p (hd s) then rx_match r (Some (hd s)) (tl s) from g else None)"
| "rx_match (Many p # r) prev s from g =
     first_some (\<lambda>k. rx_match r (prev_after prev k s) (List.drop k s) from g) (run_lengths p s)"
| "rx_match (Begin n # r) prev s from g = rx_match r prev s (from(n := s)) g"
| "rx_match (End n # r) prev s from g = rx_match r prev s from (g(n := take (length (from n) - length s) (from n)))"
| "rx_match (Back n # r) prev s from g =
     (if startswith s (g n) then rx_match r (prev_after prev (length (g n)) s) (List.drop (length (g n)) s) from g else None)"
| "rx_match (Choice ws # r) prev s from g =
     first_some (\<lambda>w. if startswith s w then rx_match r (prev_after prev (length w) s) (List.drop (length w) s) from g else None) ws"
| "rx_match (Maybe p q # r) prev s from g =
     (case (if s \<noteq> [] \<and> p (hd s)
            then first_some (\<lambda>k. rx_match r (prev_after prev (Suc k) s) (List.drop (Suc k) s) from g) (run_lengths q (tl s))
            else None) of
        Some z \<Rightarrow> Some z | None \<Rightarrow> rx_match r prev s from g)"
| "rx_match (LineStart # r) prev s from g = (if prev = None \<or> prev = Some (CHR 0x0A) then rx_match r prev s from g else None)"
| "rx_match (LineEnd # r) prev s from g = (if s = [] \<or> hd s = CHR 0x0A then rx_match r prev s from g else None)"
| "rx_match (Boundary # r) prev s from g =
     (if (case prev of None \<Rightarrow> False | Some c \<Rightarrow> is_word c) \<noteq> (s \<noteq> [] \<and> is_word (hd s)) then rx_match r prev s from g else None)"

text \<open>\<open>re.search\<close>: the groups of the leftmost match. \<open>finditer\<close>: the groups of the matches one after the other.\<close>

fun search_from :: "rx list \<Rightarrow> char option \<Rightarrow> string \<Rightarrow> groups option" where
  "search_from r prev [] = map_option fst (rx_match r prev [] (\<lambda>_. []) (\<lambda>_. []))"
| "search_from r prev (c # s) = (case rx_match r prev (c # s) (\<lambda>_. []) (\<lambda>_. []) of
     Some (g, _) \<Rightarrow> Some g | None \<Rightarrow> search_from r (Some c) s)"

definition rx_search :: "rx list \<Rightarrow> string \<Rightarrow> groups option" where
  "rx_search r s = search_from r None s"

function finditer_from :: "rx list \<Rightarrow> char option \<Rightarrow> string \<Rightarrow> groups list" where
  "finditer_from r prev [] = []"
| "finditer_from r prev (c # s) = (case rx_match r prev (c # s) (\<lambda>_. []) (\<lambda>_. []) of
     Some (g, t) \<Rightarrow> if length t \<le> length s
       then g # finditer_from r (prev_after prev (length (c # s) - length t) (c # s)) t
       else g # finditer_from r (Some c) s
   | None \<Rightarrow> finditer_from r (Some c) s)"
  by pat_completeness auto

termination finditer_from
  by (relation "measure (\<lambda>(r, prev, s). length s)") auto

definition lit :: "string \<Rightarrow> rx list" where
  "lit s = map (\<lambda>c. One (\<lambda>x. x = c)) s"

definition blanks :: "rx list" where
  "blanks = [One is_space, Many is_space]"

section \<open>Files of BIRD\<close>

definition is_quote :: "char \<Rightarrow> bool" where
  "is_quote c \<longleftrightarrow> c = CHR 0x22 \<or> c = CHR 0x27"

definition BIRD_INCLUDE_RE :: "rx list" where
  "BIRD_INCLUDE_RE = [LineStart, Many is_space] @ lit ''include'' @ blanks
     @ [Begin 1, One is_quote, End 1, Begin 2, One (\<lambda>c. \<not> is_quote c), Many (\<lambda>c. \<not> is_quote c), End 2, Back 1, Many is_space]
     @ lit '';'' @ [Many is_space, Maybe (\<lambda>c. c = CHR ''#'') (\<lambda>c. c \<noteq> CHR 0x0A), LineEnd]"

definition neighbor_re :: "rx list \<Rightarrow> rx list" where
  "neighbor_re rest = lit ''neighbor'' @ blanks @ [Begin 1, One (\<lambda>c. c \<noteq> CHR ''%'' \<and> \<not> is_space c),
     Many (\<lambda>c. c \<noteq> CHR ''%'' \<and> \<not> is_space c), End 1] @ rest"

definition parse_bird_bgp_peer_conf :: "string \<Rightarrow> string \<Rightarrow> int option \<times> string option" where
  "parse_bird_bgp_peer_conf text ifname =
     (case rx_search (neighbor_re (lit (''%'' @ ifname) @ blanks @ lit ''as'' @ blanks
          @ [Begin 2, One is_digit, Many is_digit, End 2, Many is_space] @ lit '';'')) text of
        None \<Rightarrow> (None, None) | Some g \<Rightarrow> (py_int (g 2), Some (g 1)))"

definition parse_bird_ibgp_peer_conf :: "string \<Rightarrow> string \<Rightarrow> string option \<times> string option" where
  "parse_bird_ibgp_peer_conf text ifname =
     (let tail = blanks @ lit ''as'' @ blanks @ lit ''OWNAS'' @ [Many is_space] @ lit '';'' in
      case rx_search (neighbor_re (lit (''%'' @ ifname) @ tail)) text of
        Some g \<Rightarrow> (None, Some (g 1))
      | None \<Rightarrow> (case rx_search (lit ''neighbor'' @ blanks @ [Begin 1, One (\<lambda>c. \<not> is_space c), Many (\<lambda>c. \<not> is_space c), End 1] @ tail) text of
          Some g \<Rightarrow> (Some (g 1), None) | None \<Rightarrow> (None, None)))"

definition BABEL_INTERFACE_BLOCK_RE :: "rx list" where
  "BABEL_INTERFACE_BLOCK_RE = lit ''interface'' @ blanks @ lit [CHR 0x22]
     @ [Begin 1, One (\<lambda>c. c \<noteq> CHR 0x22), Many (\<lambda>c. c \<noteq> CHR 0x22), End 1] @ lit [CHR 0x22] @ [Many is_space] @ lit ''{''
     @ [Begin 2, Many (\<lambda>c. c \<noteq> CHR ''}''), End 2] @ lit ''}'' @ [Many is_space] @ lit '';''"

definition BABEL_RXCOST_RE :: "rx list" where
  "BABEL_RXCOST_RE = [Boundary] @ lit ''rxcost'' @ blanks @ [Begin 1, One is_digit, Many is_digit, End 1, Many is_space] @ lit '';''"

definition BABEL_TYPE_RE :: "rx list" where
  "BABEL_TYPE_RE = [Boundary] @ lit ''type'' @ blanks @ [Begin 1, Choice [''wired'', ''wireless'', ''tunnel''], End 1, Many is_space] @ lit '';''"

record BabelInterfaceParams =
  bi_rxcost :: "int option"
  bi_babel_type :: "string option"

definition babel_params_of :: "string \<Rightarrow> BabelInterfaceParams" where
  "babel_params_of body = \<lparr>
     bi_rxcost = (case rx_search BABEL_RXCOST_RE body of None \<Rightarrow> None | Some g \<Rightarrow> py_int (g 1)),
     bi_babel_type = (case rx_search BABEL_TYPE_RE body of None \<Rightarrow> None | Some g \<Rightarrow> Some (g 1)) \<rparr>"

text \<open>A later block of an interface replaces an earlier one.\<close>

definition parse_babel_conf_interface_params :: "string \<Rightarrow> string \<rightharpoonup> BabelInterfaceParams" where
  "parse_babel_conf_interface_params text =
     foldl (\<lambda>out g. if strip (g 1) = [] then out else out(strip (g 1) \<mapsto> babel_params_of (g 2))) Map.empty
       (finditer_from BABEL_INTERFACE_BLOCK_RE None text)"

end
