(* ===== verification/Scan.thy ===== *)
theory Scan
  imports Scan_Text Frames
begin

text \<open>
  \<open>dn42ctl/services/scan.py\<close>: where BIRD keeps its files, and the import of tunnels that are
  configured on the machine into the database.
\<close>

section \<open>Paths of BIRD\<close>

record BirdPathsDiscovery =
  bp_bird_conf_path :: "string option"
  bp_bird_peers_dir :: "string option"
  bp_bird_babel_conf_path :: "string option"
  bp_bird_roa_v6_conf_path :: "string option"
  bp_warnings :: "string list"

definition path_name :: "string \<Rightarrow> string" where
  "path_name s = (let p = path_str s in if p = ''.'' then [] else last (split_on (CHR ''/'') p))"

fun contains :: "string \<Rightarrow> string \<Rightarrow> bool" where
  "contains [] p = (p = [])"
| "contains (c # s) p = (startswith (c # s) p \<or> contains s p)"

definition slashes :: "string \<Rightarrow> string" where
  "slashes s = map (\<lambda>c. if c = CHR 0x5C then CHR ''/'' else c) s"

text \<open>The three paths an include line may give, each from the first line that gives it.\<close>

definition note_include :: "string \<Rightarrow> BirdPathsDiscovery \<Rightarrow> BirdPathsDiscovery" where
  "note_include inc b = (if inc = [] then b else
     let b = (if bp_bird_babel_conf_path b = None \<and> path_name inc = ''babel.conf'' then b\<lparr> bp_bird_babel_conf_path := Some (path_str inc) \<rparr> else b);
         b = (if bp_bird_roa_v6_conf_path b = None \<and> path_name inc = ''roa_dn42_v6.conf'' then b\<lparr> bp_bird_roa_v6_conf_path := Some (path_str inc) \<rparr> else b)
     in if bp_bird_peers_dir b = None \<and> CHR ''*'' \<in> set inc \<and> contains (slashes inc) ''/peers''
        then b\<lparr> bp_bird_peers_dir := Some (path_parent inc) \<rparr> else b)"

definition discover_in :: "string \<Rightarrow> string \<Rightarrow> BirdPathsDiscovery" where
  "discover_in p text = foldl (\<lambda>b g. note_include (strip (g 2)) b)
     \<lparr> bp_bird_conf_path = Some p, bp_bird_peers_dir = None, bp_bird_babel_conf_path = None, bp_bird_roa_v6_conf_path = None, bp_warnings = [] \<rparr>
     (finditer_from BIRD_INCLUDE_RE None text)"

definition try_read :: "string \<Rightarrow> (string option \<times> string list) wop" where
  "try_read path = try_except
     (bnd (file_exists path) (\<lambda>there. if \<not> there then ret (None, [])
        else bnd (read_text path) (\<lambda>t. ret (Some t, []))))
     (\<lambda>e. case e of OSError _ \<Rightarrow> ret (None, [''bird.conf cannot be read: '' @ path]) | _ \<Rightarrow> raise e)"

fun discover_loop :: "string list \<Rightarrow> BirdPathsDiscovery option \<Rightarrow> string list \<Rightarrow> BirdPathsDiscovery wop" where
  "discover_loop [] best warnings = ret (case best of
     Some b \<Rightarrow> b\<lparr> bp_warnings := warnings \<rparr>
   | None \<Rightarrow> \<lparr> bp_bird_conf_path = None, bp_bird_peers_dir = None, bp_bird_babel_conf_path = None, bp_bird_roa_v6_conf_path = None,
       bp_warnings = warnings \<rparr>)"
| "discover_loop (p # ps) best warnings = bnd (try_read p) (\<lambda>(text, ws). case text of
     None \<Rightarrow> discover_loop ps best (warnings @ ws)
   | Some t \<Rightarrow> (let b = discover_in p t in
       if bp_bird_peers_dir b \<noteq> None \<or> bp_bird_babel_conf_path b \<noteq> None \<or> bp_bird_roa_v6_conf_path b \<noteq> None
       then ret (b\<lparr> bp_warnings := warnings @ ws \<rparr>)
       else discover_loop ps (case best of None \<Rightarrow> Some b | Some x \<Rightarrow> Some x) (warnings @ ws)))"

definition dedup :: "string list \<Rightarrow> string list" where
  "dedup ps = rev (remdups (rev ps))"

definition discover_bird_paths :: "string list \<Rightarrow> BirdPathsDiscovery wop" where
  "discover_bird_paths candidate_bird_conf_paths = discover_loop (dedup candidate_bird_conf_paths) None []"

section \<open>What is imported\<close>

definition IFNAME_PREFIX_BGP :: string where "IFNAME_PREFIX_BGP = ''dn42_''"
definition IFNAME_PREFIX_IBGP :: string where "IFNAME_PREFIX_IBGP = ''wg_''"
definition BABEL_DEFAULT_RXCOST :: int where "BABEL_DEFAULT_RXCOST = 20"
definition BABEL_DEFAULT_TYPE :: string where "BABEL_DEFAULT_TYPE = ''tunnel''"

record ScanImported =
  im_kind :: string
  im_key :: string
  im_ifname :: string
  im_net_backend :: string

text \<open>The lists a scan fills; the last one has the interfaces without a cost in \<open>babel.conf\<close>.\<close>

record ScanResult =
  sr_inserted :: "ScanImported list"
  sr_conflicts :: "ScanImported list"
  sr_skipped :: "string list"
  sr_warnings :: "string list"
  sr_missing :: "string list"

definition no_results :: ScanResult where
  "no_results = \<lparr> sr_inserted = [], sr_conflicts = [], sr_skipped = [], sr_warnings = [], sr_missing = [] \<rparr>"

definition join_results :: "ScanResult \<Rightarrow> ScanResult \<Rightarrow> ScanResult" where
  "join_results a b = \<lparr> sr_inserted = sr_inserted a @ sr_inserted b, sr_conflicts = sr_conflicts a @ sr_conflicts b,
     sr_skipped = sr_skipped a @ sr_skipped b, sr_warnings = sr_warnings a @ sr_warnings b, sr_missing = sr_missing a @ sr_missing b \<rparr>"

definition is_managed_ifname :: "string \<Rightarrow> bool" where
  "is_managed_ifname ifname \<longleftrightarrow> startswith ifname IFNAME_PREFIX_BGP \<or> startswith ifname IFNAME_PREFIX_IBGP"

definition scan_read_text :: "string \<Rightarrow> string wop" where
  "scan_read_text path = try_except (read_text path) (\<lambda>e. case e of OSError _ \<Rightarrow> raise (Dn42CtlError (''cannot read '' @ path)) | _ \<Rightarrow> raise e)"

fun find_first :: "string list \<Rightarrow> string option wop" where
  "find_first [] = ret None"
| "find_first (p # ps) = bnd (path_exists p) (\<lambda>there. if there then ret (Some p) else find_first ps)"

text \<open>The stems of the files with a suffix in a directory; a directory that cannot be read is a warning.\<close>

definition stems_in :: "apply_env \<Rightarrow> string \<Rightarrow> string \<Rightarrow> (string list \<times> string list) wop" where
  "stems_in E suffix d = (\<lambda>w. if io_fault (env w) (tick w) then (Inr ([], [''directory skipped: '' @ d]), next_tick w)
     else (Inr (case ae_list_dir E (files w) d of None \<Rightarrow> [] | Some names \<Rightarrow>
         filter is_managed_ifname (map (\<lambda>n. take (length n - length suffix) n) (filter (\<lambda>n. endswith n suffix) names)), []), next_tick w))"

fun collect_stems :: "apply_env \<Rightarrow> (string \<times> string) list \<Rightarrow> (string list \<times> string list) wop" where
  "collect_stems E [] = ret ([], [])"
| "collect_stems E ((suffix, d) # xs) = bnd (stems_in E suffix d) (\<lambda>(a, ws). bnd (collect_stems E xs) (\<lambda>(b, vs). ret (a @ b, ws @ vs)))"

text \<open>\<open>str(data.get(key) or "").strip()\<close>.\<close>

definition field_text :: "string option \<Rightarrow> string" where
  "field_text v = (case v of None \<Rightarrow> [] | Some s \<Rightarrow> strip s)"

definition field_opt :: "string option \<Rightarrow> string option" where
  "field_opt v = (if field_text v = [] then None else Some (field_text v))"

record tunnel =
  tn_private_key :: string
  tn_listen_port :: int
  tn_local_lla :: string
  tn_peer_public_key :: "string option"
  tn_endpoint :: "string option"
  tn_allowed_ips :: "string list"
  tn_peer_lla :: "string option"

text \<open>The fields of a tunnel, or the reason why it is skipped; with the warning of a missing port.\<close>

definition tunnel_of :: "string \<Rightarrow> netdev_data \<Rightarrow> network_data \<Rightarrow> string list \<times> (string + tunnel)" where
  "tunnel_of ifname nd nw =
     (if field_text (nd_private_key nd) = [] then ([], Inl (ifname @ '': no PrivateKey''))
      else let port = (case nd_listen_port nd of None \<Rightarrow> 0 | Some p \<Rightarrow> p);
             ws = (if port \<le> 0 then [ifname @ '': no ListenPort''] else []);
             listen_port = (if port \<le> 0 then 0 else port)
        in if field_text (nw_local_lla nw) = [] then (ws, Inl (ifname @ '': no Address''))
           else (ws, Inr \<lparr> tn_private_key = field_text (nd_private_key nd), tn_listen_port = listen_port,
             tn_local_lla = field_text (nw_local_lla nw), tn_peer_public_key = field_opt (nd_peer_public_key nd),
             tn_endpoint = field_opt (nd_endpoint nd),
             tn_allowed_ips = (if nd_allowed_ips nd = [] then DEFAULT_ALLOWED_IPS else nd_allowed_ips nd),
             tn_peer_lla = field_opt (nw_peer_lla nw) \<rparr>))"

section \<open>Importing\<close>

text \<open>An integer that is bound to a statement has to fit into 64 bits.\<close>

definition bind_int :: "int \<Rightarrow> unit wop" where
  "bind_int i = (if - (2 ^ 63) \<le> i \<and> i < 2 ^ 63 then ret () else raise OverflowError)"

definition imported :: "string \<Rightarrow> string \<Rightarrow> string \<Rightarrow> ScanImported" where
  "imported kind key ifname = \<lparr> im_kind = kind, im_key = key, im_ifname = ifname, im_net_backend = ''networkd'' \<rparr>"

definition skip :: "string \<Rightarrow> ScanResult" where
  "skip m = no_results\<lparr> sr_skipped := [m] \<rparr>"

text \<open>The insertion: a \<open>DatabaseError\<close> is a conflict with a warning.\<close>

definition insert_or_conflict :: "ScanImported \<Rightarrow> unit wop \<Rightarrow> ScanResult wop" where
  "insert_or_conflict i ins = try_except (bnd ins (\<lambda>_. ret (no_results\<lparr> sr_inserted := [i] \<rparr>)))
     (\<lambda>e. case e of DatabaseError m \<Rightarrow> ret (no_results\<lparr> sr_conflicts := [i], sr_warnings := [im_ifname i @ '': '' @ m] \<rparr>) | _ \<Rightarrow> raise e)"

text \<open>\<open>pubkey_from_private\<close>, whose failure skips the interface.\<close>

definition with_public_key :: "string \<Rightarrow> string \<Rightarrow> (string \<Rightarrow> ScanResult wop) \<Rightarrow> ScanResult wop" where
  "with_public_key ifname private_key k =
     bnd (try_except (bnd (pubkey_from_private private_key) (\<lambda>p. ret (Inr p)))
            (\<lambda>e. case e of Dn42CtlError m \<Rightarrow> ret (Inl m) | _ \<Rightarrow> raise e)) (\<lambda>r. case r of
       Inl m \<Rightarrow> ret (skip (ifname @ '': '' @ m)) | Inr p \<Rightarrow> k p)"

definition scan_bgp :: "string \<Rightarrow> string list \<Rightarrow> string \<Rightarrow> tunnel \<Rightarrow> ScanResult wop" where
  "scan_bgp node_id bird_peers_dirs ifname t =
     bnd (find_first (map (\<lambda>d. path_div d (ifname @ ''.conf'')) bird_peers_dirs)) (\<lambda>bird_path. case bird_path of
       None \<Rightarrow> ret (skip (ifname @ '': no Bird peer conf''))
     | Some p \<Rightarrow> bnd (try_except (bnd (scan_read_text p) (\<lambda>x. ret (Inr x)))
                   (\<lambda>e. case e of Dn42CtlError m \<Rightarrow> ret (Inl m) | _ \<Rightarrow> raise e)) (\<lambda>r. case r of
         Inl m \<Rightarrow> ret (skip (ifname @ '': '' @ m))
       | Inr bird_text \<Rightarrow> (case parse_bird_bgp_peer_conf bird_text ifname of (parsed, bird_peer_lla) \<Rightarrow> case parsed of
           None \<Rightarrow> ret (skip (ifname @ '': no ASN in the Bird peer conf''))
         | Some asn \<Rightarrow>
             let peer_lla = (if tn_peer_lla t = None \<and> truthy bird_peer_lla then bird_peer_lla else tn_peer_lla t);
                 i = imported ''bgp'' (''AS'' @ show_int asn) ifname in
             bnd (bind_int asn) (\<lambda>_. bnd (as_ctl_error (get_bgp_peer node_id asn)) (\<lambda>existing.
             if existing \<noteq> None then ret (no_results\<lparr> sr_conflicts := [i] \<rparr>)
             else with_public_key ifname (tn_private_key t) (\<lambda>wg_public_key.
               bnd (bind_int (tn_listen_port t)) (\<lambda>_.
               insert_or_conflict i (insert_bgp_peer \<lparr> p_node_id = node_id, p_ifname = ifname, p_wg_private_key = tn_private_key t,
                 p_wg_public_key = wg_public_key, p_peer_public_key = tn_peer_public_key t, p_endpoint = tn_endpoint t,
                 p_local_lla = tn_local_lla t, p_peer_lla = peer_lla, p_listen_port = tn_listen_port t,
                 p_allowed_ips = tn_allowed_ips t, p_net_backend = ''networkd'', p_peer_asn = asn \<rparr>))))))))"

text \<open>What the configuration of BIRD adds to an internal tunnel: an address, a link-local address, a warning.\<close>

definition bird_ibgp :: "string list \<Rightarrow> string \<Rightarrow> string \<Rightarrow> (string option \<times> string option \<times> string list) wop" where
  "bird_ibgp bird_peers_dirs ifname peer_name =
     bnd (find_first (map (\<lambda>d. path_div d (''ibgp_'' @ peer_name @ ''.conf'')) bird_peers_dirs)) (\<lambda>bird_path. case bird_path of
       None \<Rightarrow> ret (None, None, [])
     | Some p \<Rightarrow> try_except (bnd (scan_read_text p) (\<lambda>x. case parse_bird_ibgp_peer_conf x ifname of (ip, lla) \<Rightarrow> ret (ip, lla, [])))
         (\<lambda>e. case e of Dn42CtlError m \<Rightarrow> ret (None, None, [ifname @ '': '' @ m]) | _ \<Rightarrow> raise e))"

definition scan_ibgp ::
  "string \<Rightarrow> string list \<Rightarrow> (string \<rightharpoonup> BabelInterfaceParams) \<Rightarrow> string \<Rightarrow> tunnel \<Rightarrow> ScanResult wop" where
  "scan_ibgp node_id bird_peers_dirs babel ifname t =
     (case sanitize_name (List.drop (length IFNAME_PREFIX_IBGP) ifname) of
        Inl (Dn42CtlError m) \<Rightarrow> ret (skip (ifname @ '': '' @ m))
      | Inl e \<Rightarrow> raise e
      | Inr peer_name \<Rightarrow> bnd (bird_ibgp bird_peers_dirs ifname peer_name) (\<lambda>(ip, lla, ws).
          let peer_ip = (if truthy ip then ip else None);
              peer_lla = (if truthy lla \<and> tn_peer_lla t = None then lla else tn_peer_lla t);
              i = imported ''ibgp'' peer_name ifname;
              rxcost = (case babel ifname of Some b \<Rightarrow> (case bi_rxcost b of Some c \<Rightarrow> c | None \<Rightarrow> BABEL_DEFAULT_RXCOST) | None \<Rightarrow> BABEL_DEFAULT_RXCOST);
              btype = (case babel ifname of Some b \<Rightarrow> (case bi_babel_type b of Some c \<Rightarrow> c | None \<Rightarrow> BABEL_DEFAULT_TYPE) | None \<Rightarrow> BABEL_DEFAULT_TYPE) in
          bnd (as_ctl_error (get_ibgp_peer node_id peer_name)) (\<lambda>existing.
          bnd (if existing \<noteq> None then ret (no_results\<lparr> sr_conflicts := [i] \<rparr>)
               else with_public_key ifname (tn_private_key t) (\<lambda>wg_public_key.
                 bnd (bind_int (tn_listen_port t)) (\<lambda>_. bnd (bind_int rxcost) (\<lambda>_.
                 bnd (insert_or_conflict i (insert_ibgp_peer \<lparr> p_node_id = node_id, p_ifname = ifname, p_wg_private_key = tn_private_key t,
                   p_wg_public_key = wg_public_key, p_peer_public_key = tn_peer_public_key t, p_endpoint = tn_endpoint t,
                   p_local_lla = tn_local_lla t, p_peer_lla = peer_lla, p_listen_port = tn_listen_port t,
                   p_allowed_ips = tn_allowed_ips t, p_net_backend = ''networkd'', p_name = peer_name, p_babel_rxcost = rxcost,
                   p_peer_ip = peer_ip, p_has_wg = True, p_babel_type = btype, p_remote_node_id = None \<rparr>)) (\<lambda>r.
                 ret (if babel ifname = None then r\<lparr> sr_missing := [ifname] \<rparr> else r)))))) (\<lambda>r.
          ret (r\<lparr> sr_warnings := ws @ sr_warnings r \<rparr>)))))"

definition scan_interface ::
  "string \<Rightarrow> string list \<Rightarrow> string list \<Rightarrow> (string \<rightharpoonup> BabelInterfaceParams) \<Rightarrow> string \<Rightarrow> ScanResult wop" where
  "scan_interface node_id bird_peers_dirs networkd_dirs babel ifname =
     bnd (find_first (map (\<lambda>d. path_div d (ifname @ ''.netdev'')) networkd_dirs)) (\<lambda>netdev.
     bnd (find_first (map (\<lambda>d. path_div d (ifname @ ''.network'')) networkd_dirs)) (\<lambda>network.
     case (netdev, network) of
       (Some p, Some q) \<Rightarrow>
         bnd (try_except (bnd (scan_read_text p) (\<lambda>a. bnd (scan_read_text q) (\<lambda>b.
                ret (Inr (parse_networkd_netdev a, parse_networkd_network b)))))
                (\<lambda>e. case e of Dn42CtlError m \<Rightarrow> ret (Inl m) | _ \<Rightarrow> raise e)) (\<lambda>r. case r of
           Inl m \<Rightarrow> ret (skip (ifname @ '': '' @ m))
         | Inr (nd, nw) \<Rightarrow> (case tunnel_of ifname nd nw of (ws, x) \<Rightarrow>
             bnd (case x of Inl m \<Rightarrow> ret (skip m)
                  | Inr t \<Rightarrow> if startswith ifname IFNAME_PREFIX_BGP then scan_bgp node_id bird_peers_dirs ifname t
                            else scan_ibgp node_id bird_peers_dirs babel ifname t) (\<lambda>res.
             ret (res\<lparr> sr_warnings := ws @ sr_warnings res \<rparr>))))
     | _ \<Rightarrow> ret (skip (ifname @ '': no networkd configuration''))))"

fun scan_each :: "(string \<Rightarrow> ScanResult wop) \<Rightarrow> string list \<Rightarrow> ScanResult wop" where
  "scan_each f [] = ret no_results"
| "scan_each f (i # is) = bnd (f i) (\<lambda>a. bnd (scan_each f is) (\<lambda>b. ret (join_results a b)))"

definition read_babel :: "string \<Rightarrow> ((string \<rightharpoonup> BabelInterfaceParams) \<times> string list) wop" where
  "read_babel path = try_except
     (bnd (file_exists path) (\<lambda>there. if \<not> there then ret (Map.empty, [''no babel.conf: '' @ path])
        else try_except (bnd (scan_read_text path) (\<lambda>t. ret (parse_babel_conf_interface_params t, [])))
               (\<lambda>e. case e of Dn42CtlError m \<Rightarrow> ret (Map.empty, [m]) | _ \<Rightarrow> raise e)))
     (\<lambda>e. case e of OSError _ \<Rightarrow> ret (Map.empty, [''babel.conf cannot be accessed'']) | _ \<Rightarrow> raise e)"

definition closing_warnings :: "ScanResult \<Rightarrow> string list" where
  "closing_warnings r = (if sr_conflicts r \<noteq> [] then [''conflicts were skipped''] else [])
     @ (if sr_missing r \<noteq> [] then [''no rxcost for: '' @ join_with '', '' (take 8 (sr_missing r))] else [])"

definition scan_local_configs :: "apply_env \<Rightarrow> bool \<Rightarrow> AppConfig \<Rightarrow> ScanResult wop" where
  "scan_local_configs E wg_installed config =
     (if \<not> wg_installed then raise (Dn42CtlError ''scan needs wg'')
      else let bird_peers_dirs = dedup [path_str (ac_bird_peers_dir config), ''/etc/bird/peers'', ''/etc/bird6/peers''];
             networkd_dirs = dedup [path_str (ac_networkd_dir config), ''/etc/systemd/network''] in
       bnd (read_babel (path_str (ac_bird_babel_conf_path config))) (\<lambda>(babel, ws1).
       bnd (collect_stems E (map (Pair ''.netdev'') networkd_dirs @ map (Pair ''.network'') networkd_dirs)) (\<lambda>(stems, ws2).
       bnd (open_db_and_ensure_node (ac_node_id config)) (\<lambda>_. closing (
         bnd (scan_each (scan_interface (ac_node_id config) bird_peers_dirs networkd_dirs babel) (sort (remdups stems))) (\<lambda>r.
         ret (r\<lparr> sr_warnings := ws1 @ ws2 @ sr_warnings r @ closing_warnings r \<rparr>)))))))"

end
