(* ===== verification/Scan_Effects.thy ===== *)
theory Scan_Effects
  imports Scan Apply_Sample
begin

text \<open>
  What is proved of the scanner: it reads back the files that the peer services and \<open>apply\<close> write,
  and it only ever adds peers of its own node.
\<close>

section \<open>Adding peers\<close>

definition grows :: "string \<Rightarrow> database \<Rightarrow> database \<Rightarrow> bool" where
  "grows n d d' \<longleftrightarrow> peers_only n d d' \<and> (\<exists>bs. bgp_peers d' = bgp_peers d @ bs) \<and> (\<exists>is. ibgp_peers d' = ibgp_peers d @ is)"

interpretation growing: frame "grows n" for n
  by unfold_locales (auto simp: grows_def intro: peers.K_refl peers.K_trans peers.K_migrated)

definition peer_count :: "database \<Rightarrow> nat" where
  "peer_count d = length (bgp_peers d) + length (ibgp_peers d)"

text \<open>A part of a scan: it adds as many rows as it reports.\<close>

definition adds :: "string \<Rightarrow> ScanResult wop \<Rightarrow> bool" where
  "adds n m \<longleftrightarrow> outcome m
     (\<lambda>d r d'. migrated d \<longrightarrow> grows n d d' \<and> peer_count d' = peer_count d + length (sr_inserted r))
     (\<lambda>d d'. migrated d \<longrightarrow> grows n d d')"

named_theorems scanning \<open>parts of a scan\<close>

lemma adds_ret [scanning]: "sr_inserted r = [] \<Longrightarrow> adds n (ret r)"
  unfolding adds_def by (rule outcome_conseq, rule services) (auto intro: growing.K_refl)

lemma adds_raise [scanning]: "adds n (raise e)"
  unfolding adds_def by (rule outcome_conseq, rule services) (auto intro: growing.K_refl)

lemma adds_quiet:
  assumes "read_only m" and "\<And>x. adds n (f x)"
  shows "adds n (bnd m f)"
  unfolding adds_def
  by (rule outcome_conseq, rule outcome_bnd, rule outcome_quiet [OF assms(1)], rule assms(2) [unfolded adds_def]) (auto intro: growing.K_refl)

lemma adds_finish [scanning]:
  assumes "adds n m" and "\<And>r. sr_inserted (f r) = sr_inserted r"
  shows "adds n (bnd m (\<lambda>r. ret (f r)))"
  unfolding adds_def
  by (rule outcome_conseq, rule outcome_bnd, rule assms(1) [unfolded adds_def], rule services) (auto simp: assms(2))

lemma grows_rows:
  "insert_bgp_row brec now d = Inr (u, d1) \<Longrightarrow> grows (p_node_id brec) d (after_event (p_node_id brec) k now' d1)"
  "insert_ibgp_row irec now d = Inr (u, d1) \<Longrightarrow> grows (p_node_id irec) d (after_event (p_node_id irec) k now' d1)"
  "upsert_node_row n now d = Inr (u, d1) \<Longrightarrow> grows n d d1"
  using peers_only_statements(1,2) peers_only_event peers_only_node [OF peers.K_refl]
  by (auto simp: grows_def insert_bgp_row_def insert_ibgp_row_def upsert_node_row_def after_event_def Let_def split: if_splits)

lemma adds_insert [scanning]:
  assumes "outcome ins (\<lambda>d _ d'. migrated d \<longrightarrow> grows n d d' \<and> peer_count d' = Suc (peer_count d)) (\<lambda>d d'. d' = d)"
  shows "adds n (insert_or_conflict i ins)"
proof -
  let ?h = "\<lambda>e. case e of DatabaseError m \<Rightarrow> ret (no_results\<lparr> sr_conflicts := [i], sr_warnings := [im_ifname i @ '': '' @ m] \<rparr>) | _ \<Rightarrow> raise e"
  have h: "outcome (?h e) (\<lambda>d r d'. sr_inserted r = [] \<and> d' = d) (\<lambda>d d'. d' = d)" for e
    by (auto simp: outcome_def ret_def raise_def no_results_def split: exn.splits)
  show ?thesis unfolding adds_def insert_or_conflict_def
    by (rule outcome_conseq, rule outcome_try, rule outcome_bnd, rule assms, rule services, rule h)
      (auto intro: growing.K_refl simp: no_results_def)
qed

lemma adds_key [scanning]:
  assumes "\<And>p. adds n (k p)"
  shows "adds n (with_public_key ifname key k)"
  unfolding with_public_key_def
  by (rule adds_quiet) (auto intro!: read_only_try read_only_bnd read_only_helpers atomic scanning assms
      simp: skip_def no_results_def split: exn.splits sum.splits)

lemma rows_counted:
  "insert_bgp_row brec now d = Inr (u, d1) \<Longrightarrow> peer_count (after_event n k now' d1) = Suc (peer_count d)"
  "insert_ibgp_row irec now d = Inr (u, d1) \<Longrightarrow> peer_count (after_event n k now' d1) = Suc (peer_count d)"
  by (auto simp: peer_count_def insert_bgp_row_def insert_ibgp_row_def after_event_def Let_def split: if_splits)

lemma inserted_rows:
  "outcome (insert_bgp_peer brec) (\<lambda>d _ d'. migrated d \<longrightarrow> grows (p_node_id brec) d d' \<and> peer_count d' = Suc (peer_count d)) (\<lambda>d d'. d' = d)"
  "outcome (insert_ibgp_peer irec) (\<lambda>d _ d'. migrated d \<longrightarrow> grows (p_node_id irec) d d' \<and> peer_count d' = Suc (peer_count d)) (\<lambda>d d'. d' = d)"
  by (rule outcome_conseq, rule outcome_writes, auto intro: grows_rows rows_counted)
    (rule outcome_conseq, rule outcome_writes, auto intro: grows_rows rows_counted)

lemma quiet_steps:
  "read_only (read_text p)" "read_only (scan_read_text p)" "read_only (find_first ps)" "read_only (file_exists p)" "read_only (stems_in E x d)"
proof -
  have f: "read_only (read_file p)" for p by (simp add: read_only_def read_file_def)
  show r: "read_only (read_text p)" for p unfolding read_text_def by (auto intro!: read_only_bnd f atomic split: option.splits)
  show "read_only (scan_read_text p)" unfolding scan_read_text_def by (auto intro!: read_only_try r atomic split: exn.splits)
  show "read_only (find_first ps)" by (induction ps) (auto intro!: read_only_bnd fileop atomic)
  show "read_only (file_exists p)" by (simp add: read_only_def file_exists_def)
  show "read_only (stems_in E x d)" by (simp add: read_only_def stems_in_def)
qed

lemma quiet_parts:
  "read_only (bird_ibgp ds i m)" "read_only (read_babel p)" "read_only (collect_stems E xs)" "read_only (bind_int k)"
proof -
  show "read_only (bird_ibgp ds i m)"
    unfolding bird_ibgp_def by (auto intro!: read_only_bnd read_only_try quiet_steps atomic split: option.splits exn.splits prod.splits)
  show "read_only (read_babel p)"
    unfolding read_babel_def by (auto intro!: read_only_bnd read_only_try quiet_steps atomic split: exn.splits)
  show "read_only (collect_stems E xs)"
    by (induction xs) (auto intro!: read_only_bnd quiet_steps atomic split: prod.splits)
  show "read_only (bind_int k)" by (auto simp: bind_int_def intro: atomic)
qed

lemma quiet_gets: "read_only (as_ctl_error (get_bgp_peer n a))" "read_only (as_ctl_error (get_ibgp_peer n m))"
  by (auto intro!: fileop atomic)

lemmas quieting = read_only_try read_only_bnd quiet_steps quiet_parts quiet_gets atomic

lemma quiet_caught: "read_only m \<Longrightarrow> read_only (try_except (bnd m (\<lambda>x. ret (Inr x))) (\<lambda>e. case e of Dn42CtlError x \<Rightarrow> ret (Inl x) | _ \<Rightarrow> raise e))"
  by (auto intro!: quieting split: exn.splits)

lemma adds_bgp: "adds n (scan_bgp n ds ifname t)"
proof -
  have i: "adds n (insert_or_conflict i (insert_bgp_peer brec))" if "p_node_id brec = n" for i brec
    using inserted_rows(1) [of brec] that by (auto intro!: scanning)
  show ?thesis unfolding scan_bgp_def Let_def
    by (auto intro!: scanning i adds_quiet [OF quiet_steps(3)] adds_quiet [OF quiet_caught] adds_quiet [OF quiet_parts(4)] adds_quiet [OF quiet_gets(1)]
        quiet_steps simp: skip_def no_results_def split: sum.splits prod.splits option.splits)
qed

lemma adds_ibgp: "adds n (scan_ibgp n ds babel ifname t)"
proof -
  have i: "adds n (insert_or_conflict i (insert_ibgp_peer irec))" if "p_node_id irec = n" for i irec
    using inserted_rows(2) [of irec] that by (auto intro!: scanning)
  show ?thesis unfolding scan_ibgp_def Let_def
    by (auto intro!: scanning i adds_quiet [OF quiet_parts(1)] adds_quiet [OF quiet_parts(4)] adds_quiet [OF quiet_gets(2)]
        simp: skip_def no_results_def split: sum.splits prod.splits exn.splits)
qed

lemma adds_interface: "adds n (scan_interface n ds nds babel ifname)"
proof -
  have r: "read_only (try_except (bnd (scan_read_text p) (\<lambda>a. bnd (scan_read_text q) (\<lambda>b. ret (Inr (f a, g b)))))
      (\<lambda>e. case e of Dn42CtlError m \<Rightarrow> ret (Inl m) | _ \<Rightarrow> raise e))" for p q f g
    by (auto intro!: quieting split: exn.splits)
  show ?thesis unfolding scan_interface_def
    by (auto intro!: scanning adds_bgp adds_ibgp adds_quiet [OF quiet_steps(3)] adds_quiet [OF r]
        simp: skip_def no_results_def split: sum.splits prod.splits option.splits)
qed

lemma adds_each:
  assumes "\<And>i. adds n (f i)"
  shows "adds n (scan_each f is)"
proof (induction "is")
  case Nil
  then show ?case by (simp add: scanning no_results_def)
next
  case (Cons i "is")
  show ?case unfolding scan_each.simps adds_def
    by (rule outcome_conseq, rule outcome_bnd, rule assms [unfolded adds_def], rule outcome_bnd, rule Cons [unfolded adds_def], rule services)
      (auto simp: join_results_def intro: growing.K_trans growing.K_migrated)
qed

lemma adds_closing: "adds n m \<Longrightarrow> adds n (closing m)"
  unfolding adds_def by (rule services)

lemma adds_opened:
  assumes "\<And>u. adds n (f u)"
  shows "adds n (bnd (open_db_and_ensure_node n) f)"
proof -
  have "peer_count d' = peer_count d" if "upsert_node_row n now d = Inr ((), d')" for now d d'
    using that by (auto simp: peer_count_def upsert_node_row_def split: if_splits)
  then show ?thesis unfolding adds_def
    by (intro outcome_conseq [OF outcome_bnd [OF outcome_open_node assms [unfolded adds_def]]])
      (metis grows_rows(3) growing.K_trans growing.K_migrated growing.K_refl)+
qed

lemma adds_scan: "adds (ac_node_id c) (scan_local_configs E b c)"
  unfolding scan_local_configs_def Let_def
  by (auto intro!: scanning adds_each adds_interface adds_closing adds_opened adds_quiet [OF quiet_parts(2)] adds_quiet [OF quiet_parts(3)]
      split: prod.splits)

text \<open>
  C21. A scan only imports: whatever it finds in the files and whatever fails, the rows of the peer
  tables stay and new rows are rows of the node itself; of \<open>nodes\<close> only the row of this node is
  added or gets a new date, and nothing else of the database but the notifications of that
  node changes; and a scan that returns reports as many insertions as there are new rows.
\<close>

theorem scan_only_adds:
  assumes "tx w = None" and "migrated (disk w)" and "scan_local_configs E b c w = (r, w')"
  shows "tx w' = None \<and> peers_only (ac_node_id c) (disk w) (disk w')
    \<and> (\<exists>bs is. bgp_peers (disk w') = bgp_peers (disk w) @ bs \<and> ibgp_peers (disk w') = ibgp_peers (disk w) @ is
         \<and> (\<forall>x \<in> set bs. p_node_id x = ac_node_id c) \<and> (\<forall>x \<in> set is. p_node_id x = ac_node_id c)
         \<and> (\<forall>res. r = Inr res \<longrightarrow> length bs + length is = length (sr_inserted res)))"
proof -
  let ?d = "disk w" and ?d' = "disk w'"
  have o: "tx w' = None" "grows (ac_node_id c) ?d ?d'" "\<And>res. r = Inr res \<Longrightarrow> peer_count ?d' = peer_count ?d + length (sr_inserted res)"
    using spec [OF adds_scan [of c E b, unfolded adds_def outcome_def], of w] assms by (auto split: sum.splits)
  then obtain bs "is" where p: "peers_only (ac_node_id c) ?d ?d'" "bgp_peers ?d' = bgp_peers ?d @ bs" "ibgp_peers ?d' = ibgp_peers ?d @ is"
    unfolding grows_def by blast
  then have "\<forall>x \<in> set bs. p_node_id x = ac_node_id c" "\<forall>x \<in> set is. p_node_id x = ac_node_id c"
    unfolding peers_only_def confined_def by (auto simp: filter_empty_conv)
  with o p show ?thesis by (auto simp: peer_count_def)
qed

theorem scan_only_adds_witness:
  "\<exists>r w'. scan_local_configs sample_apply True sample_config (start_world history_db) = (r, w') \<and> tx w' = None
     \<and> peers_only ''n1'' history_db (disk w')"
proof -
  obtain r w' where run: "scan_local_configs sample_apply True sample_config (start_world history_db) = (r, w')" by fastforce
  have "ac_node_id sample_config = ''n1''" by (simp add: sample_config_def)
  with scan_only_adds [OF _ _ run] history_db_ok run show ?thesis by auto
qed

section \<open>Reading back\<close>

text \<open>A value that stands in a line of its own: no line breaks, no blanks at the ends, no comment signs.\<close>

definition plain_value :: "string \<Rightarrow> bool" where
  "plain_value s \<longleftrightarrow> strip s = s \<and> list_all (\<lambda>c. \<not> is_break c \<and> c \<noteq> CHR ''#'' \<and> c \<noteq> CHR '';'') s"

lemma lines_from_line: "list_all (\<lambda>c. \<not> is_break c) s \<Longrightarrow> lines_from acc (line s @ t) = (acc @ s) # lines_from [] t"
  by (induction s arbitrary: acc) (simp_all add: line_def is_break_def code_point_def)

lemma splitlines_lines: "\<forall>l \<in> set ls. list_all (\<lambda>c. \<not> is_break c) l \<Longrightarrow> splitlines (concat (map line ls)) = ls"
  unfolding splitlines_def by (induction ls) (simp_all add: lines_from_line)

text \<open>A line \<open>key=value\<close> of a key without special characters.\<close>

definition plain_key :: "string \<Rightarrow> bool" where
  "plain_key k \<longleftrightarrow> k \<noteq> [] \<and> list_all (\<lambda>c. is_alnum c) k"

lemma alnum_plain: "is_alnum c \<Longrightarrow> \<not> is_space c \<and> \<not> is_break c \<and> c \<notin> {CHR ''#'', CHR '';'', CHR ''['', CHR ''='', CHR ''/''}"
  by (auto simp: is_alnum_def is_space_def is_break_def code_point_def Let_def)

lemma ini_setting:
  assumes k: "plain_key k" and v: "plain_value v"
  shows "ini_item_of (k @ ''='' @ v) = Setting k v"
proof -
  let ?l = "k @ ''='' @ v"
  obtain c k' where ck: "k = c # k'" "is_alnum c" using k by (cases k) (auto simp: plain_key_def)
  have ks: "\<forall>x \<in> set k. is_alnum x" using k by (simp add: plain_key_def list_all_iff)
  have kstrip: "strip k = k"
    by (rule strip_trimmed) (use ck ks alnum_plain last_in_set [of k] in auto)
  have "\<not> is_space (CHR ''='')" by (simp add: is_space_def code_point_def)
  moreover have "v \<noteq> [] \<Longrightarrow> \<not> is_space (last v)" using strip_ends(2) [of v] v by (simp add: plain_value_def)
  ultimately have lstrip: "strip ?l = ?l"
    by (intro strip_trimmed) (use ck alnum_plain [OF ck(2)] in auto)
  have nc: "CHR ''#'' \<notin> set ?l" "CHR '';'' \<notin> set ?l" using ks v alnum_plain by (auto simp: plain_value_def list_all_iff)
  have "takeWhile (\<lambda>x. x \<noteq> CHR ''='') ?l = k" using ks alnum_plain by (subst takeWhile_append2) auto
  then have "partition_at (CHR ''='') ?l = (k, True, v)" by (simp add: partition_at_def)
  then show ?thesis using nc ck lstrip kstrip v alnum_plain [OF ck(2)]
    by (simp add: ini_item_of_def Let_def strip_inline_comment_def startswith_def plain_value_def)
qed

lemma words_single: "c \<noteq> [] \<Longrightarrow> list_all (\<lambda>x. \<not> is_separator x) c \<Longrightarrow> words_of c = [c]"
proof -
  assume c: "c \<noteq> []" "list_all (\<lambda>x. \<not> is_separator x) c"
  then have "dropWhile is_separator c = c" by (cases c) auto
  moreover have "takeWhile (\<lambda>x. \<not> is_separator x) c = c" "dropWhile (\<lambda>x. \<not> is_separator x) c = []"
    using c(2) by (auto simp: list_all_iff takeWhile_eq_all_conv)
  moreover have "words_of [] = []" by (simp add: words_of.simps)
  ultimately show ?thesis using c(1) by (subst words_of.simps) (simp del: dropWhile_eq_Nil_conv)
qed

lemma digits_group: "s \<noteq> [] \<Longrightarrow> \<forall>c \<in> set s. is_digit c \<Longrightarrow> digit_groups s"
  by (induction s rule: digit_groups.induct) (auto simp: is_digit_def code_point_def)

lemma py_int_show: "length (show_nat n) \<le> MAX_INT_DIGITS \<Longrightarrow> py_int (show_nat n) = Some (int n)"
proof -
  assume small: "length (show_nat n) \<le> MAX_INT_DIGITS"
  let ?s = "show_nat n"
  have d: "is_digit c \<Longrightarrow> \<not> is_space c \<and> c \<noteq> CHR ''_'' \<and> c \<noteq> CHR ''-'' \<and> c \<noteq> CHR ''+''" for c
    by (auto simp: is_digit_def is_space_def code_point_def Let_def)
  have ne: "?s \<noteq> []" by (rule show_nat_nonempty)
  then obtain c t where s: "?s = c # t" by (cases ?s) auto
  have "strip ?s = ?s" by (rule strip_trimmed) (use ne show_nat_digits [of n] d hd_in_set last_in_set in blast)
  moreover have "\<not> startswith ?s ''-''" "\<not> startswith ?s ''+''" using show_nat_digits [of n] d by (auto simp: s startswith_def)
  moreover have "filter (\<lambda>c. c \<noteq> CHR ''_'') ?s = ?s" using show_nat_digits [of n] d by (auto simp: filter_id_conv)
  ultimately show ?thesis using digits_group [OF ne show_nat_digits] small parse_show_nat [of n] by (simp add: py_int_def Let_def)
qed

definition netdev_ok :: "string \<Rightarrow> string \<Rightarrow> int \<Rightarrow> string \<Rightarrow> string \<Rightarrow> string list \<Rightarrow> bool" where
  "netdev_ok ifname key port pub endpoint ips \<longleftrightarrow> plain_value ifname \<and> plain_value key \<and> plain_value pub \<and> plain_value endpoint
     \<and> 0 \<le> port \<and> port \<le> MAX_PORT
     \<and> list_all (\<lambda>c. plain_value c \<and> list_all (\<lambda>x. \<not> is_separator x) c \<and> ipv6_network c \<noteq> None) ips"

lemma fold_allowed:
  assumes "list_all (\<lambda>c. plain_value c \<and> list_all (\<lambda>x. \<not> is_separator x) c \<and> ipv6_network c \<noteq> None) ips"
  shows "fold_settings netdev_setting ''WireGuardPeer'' (map (\<lambda>c. ''AllowedIPs='' @ c) ips) out
    = out\<lparr> nd_allowed_ips := nd_allowed_ips out @ ips \<rparr>"
  using assms
proof (induction ips arbitrary: out)
  case (Cons c ips)
  have "plain_key ''AllowedIPs''" by (simp add: plain_key_def is_alnum_def code_point_def)
  from ini_setting [OF this, of c] Cons.prems have i: "ini_item_of (''AllowedIPs='' @ c) = Setting ''AllowedIPs'' c" by simp
  have "ipv6_network [] = None" by code_simp
  with Cons.prems have "c \<noteq> []" by auto
  with Cons.prems have "words_of c = [c]" by (intro words_single) auto
  with i Cons show ?case by (simp add: netdev_setting_def)
qed simp

lemma ini_fixed:
  "ini_item_of ''[NetDev]'' = Header ''NetDev''" "ini_item_of ''[WireGuard]'' = Header ''WireGuard''"
  "ini_item_of ''[WireGuardPeer]'' = Header ''WireGuardPeer''" "ini_item_of [] = Ignored"
  "ini_item_of ''Kind=wireguard'' = Setting ''Kind'' ''wireguard''" "ini_item_of ''RouteTable=off'' = Setting ''RouteTable'' ''off''"
  "ini_item_of ''[Match]'' = Header ''Match''" "ini_item_of ''[Network]'' = Header ''Network''" "ini_item_of ''[Address]'' = Header ''Address''"
  "ini_item_of ''DHCP=no'' = Setting ''DHCP'' ''no''" "ini_item_of ''IPv6AcceptRA=false'' = Setting ''IPv6AcceptRA'' ''false''"
  "ini_item_of ''IPForward=yes'' = Setting ''IPForward'' ''yes''" "ini_item_of ''KeepConfiguration=yes'' = Setting ''KeepConfiguration'' ''yes''"
  "ini_item_of ''IPv4ReversePathFilter=no'' = Setting ''IPv4ReversePathFilter'' ''no''"
  by code_simp+

lemma plain_keys:
  "plain_key ''Name''" "plain_key ''PrivateKey''" "plain_key ''ListenPort''" "plain_key ''PublicKey''" "plain_key ''Endpoint''"
  "plain_key ''Address''" "plain_key ''Peer''" "plain_key ''AllowedIPs''"
  by code_simp+

lemmas ini_settings = plain_keys [THEN ini_setting, simplified]

lemma plain_no_break: "plain_value v \<Longrightarrow> list_all (\<lambda>c. \<not> is_break c) v"
  by (auto simp: plain_value_def list_all_iff)

lemma listen_port_text:
  assumes "0 < port" and "port \<le> MAX_PORT"
  shows "plain_value (show_int port)" and "py_int (show_int port) = Some port"
proof -
  have s: "show_int port = show_nat (nat port)" using assms by (simp add: show_int_def)
  have "nat port < 10 ^ 5" using assms by (simp add: MAX_PORT_def)
  then have "length (show_nat (nat port)) \<le> MAX_INT_DIGITS" using length_show_nat [of "nat port" 5] by (simp add: MAX_INT_DIGITS_def)
  from py_int_show [OF this] s assms show "py_int (show_int port) = Some port" by simp
  have d: "is_digit c \<Longrightarrow> \<not> is_space c \<and> \<not> is_break c \<and> c \<noteq> CHR ''#'' \<and> c \<noteq> CHR '';''" for c
    by (auto simp: is_digit_def is_space_def is_break_def code_point_def Let_def)
  have "strip (show_nat (nat port)) = show_nat (nat port)"
    by (rule strip_trimmed) (use d show_nat_digits [of "nat port"] hd_in_set last_in_set in blast)
  then show "plain_value (show_int port)" using show_nat_digits [of "nat port"] d by (auto simp: s plain_value_def list_all_iff)
qed

lemma netdev_read_back:
  assumes "netdev_ok ifname key port pub endpoint ips"
  shows "parse_networkd_netdev (render_networkd_netdev ifname key port pub endpoint ips)
    = \<lparr> nd_private_key = Some key, nd_listen_port = (if port > 0 then Some port else None), nd_peer_public_key = Some pub,
        nd_endpoint = (if endpoint \<noteq> [] then Some endpoint else None), nd_allowed_ips = ips \<rparr>"
proof -
  let ?ls = "[''[NetDev]'', ''Name='' @ ifname, ''Kind=wireguard'', [], ''[WireGuard]'', ''PrivateKey='' @ key]
       @ (if port > 0 then [''ListenPort='' @ show_int port] else [])
       @ [''RouteTable=off'', [], ''[WireGuardPeer]'', ''PublicKey='' @ pub]
       @ (if endpoint \<noteq> [] then [''Endpoint='' @ endpoint] else []) @ map (\<lambda>c. ''AllowedIPs='' @ c) ips"
  note ok = assms [unfolded netdev_ok_def]
  have "list_all (\<lambda>c. \<not> is_break c) (show_int port)" if "port > 0" using listen_port_text(1) [OF that] plain_no_break ok by blast
  moreover have "\<forall>c \<in> set ips. list_all (\<lambda>x. \<not> is_break x) c" using ok plain_no_break by (simp add: list_all_iff [of _ ips])
  ultimately have b: "\<forall>l \<in> set ?ls. list_all (\<lambda>c. \<not> is_break c) l"
    using ok plain_no_break by (auto simp: is_break_def code_point_def)
  have p: "port > 0 \<Longrightarrow> plain_value (show_int port) \<and> py_int (show_int port) = Some port" using listen_port_text ok by blast
  define tail where "tail = map (\<lambda>c. ''AllowedIPs='' @ c) ips"
  have f: "fold_settings netdev_setting ''WireGuardPeer'' tail out = out\<lparr> nd_allowed_ips := nd_allowed_ips out @ ips \<rparr>" for out
    unfolding tail_def using ok by (intro fold_allowed) blast
  show ?thesis
    unfolding parse_networkd_netdev_def render_networkd_netdev_def splitlines_lines [OF b]
    unfolding tail_def [symmetric]
    using ok p f by (auto simp: ini_fixed ini_settings netdev_setting_def)
qed

definition network_ok :: "string \<Rightarrow> string \<Rightarrow> string \<Rightarrow> bool" where
  "network_ok ifname local_lla peer_lla \<longleftrightarrow> plain_value ifname \<and> plain_value local_lla \<and> CHR ''/'' \<notin> set local_lla \<and> plain_value peer_lla"

lemma network_read_back:
  assumes "network_ok ifname local_lla peer_lla"
  shows "parse_networkd_network (render_networkd_network ifname local_lla peer_lla)
    = \<lparr> nw_local_lla = Some local_lla, nw_peer_lla = Some peer_lla \<rparr>"
proof -
  let ?ls = "[''[Match]'', ''Name='' @ ifname, [], ''[Network]'', ''DHCP=no'', ''IPv6AcceptRA=false'', ''IPForward=yes'',
      ''IPv4ReversePathFilter=no'', [], ''KeepConfiguration=yes'', [], ''[Address]'',
      ''Address='' @ local_lla @ ''/128'', ''Peer='' @ peer_lla]"
  note ok = assms [unfolded network_ok_def]
  have "strip (local_lla @ ''/128'') = local_lla @ ''/128''"
    by (rule strip_trimmed) (use ok strip_ends(1) [of local_lla] in \<open>auto simp: plain_value_def hd_append is_space_def code_point_def\<close>)
  then have a: "plain_value (local_lla @ ''/128'')" using ok by (simp add: plain_value_def is_break_def code_point_def)
  have b: "\<forall>l \<in> set ?ls. list_all (\<lambda>c. \<not> is_break c) l"
    using ok plain_no_break by (auto simp: is_break_def code_point_def)
  have "takeWhile (\<lambda>x. x \<noteq> CHR ''/'') (local_lla @ ''/128'') = local_lla" using ok by (subst takeWhile_append2) auto
  then have "fst (partition_at (CHR ''/'') (local_lla @ ''/128'')) = local_lla" by (simp add: partition_at_def)
  then show ?thesis
    unfolding parse_networkd_network_def render_networkd_network_def splitlines_lines [OF b]
    using ok a by (simp add: ini_fixed ini_settings network_setting_def)
qed

text \<open>
  C27. The scanner reads back what is written: from the two networkd files that are rendered for a
  tunnel it gets the tunnel's private key, port, link-local addresses, public key, endpoint and
  allowed prefixes again, provided the values have no line breaks, comment signs or blanks at
  their ends and the prefixes are IPv6 prefixes; only an empty list of prefixes becomes the default one.
\<close>

theorem scan_reads_rendered:
  assumes "netdev_ok ifname key port pub endpoint ips" and "network_ok ifname local_lla peer_lla" and "key \<noteq> []" and "local_lla \<noteq> []"
  shows "tunnel_of ifname (parse_networkd_netdev (render_networkd_netdev ifname key port pub endpoint ips))
      (parse_networkd_network (render_networkd_network ifname local_lla peer_lla))
    = ((if port = 0 then [ifname @ '': no ListenPort''] else []), Inr \<lparr> tn_private_key = key, tn_listen_port = port, tn_local_lla = local_lla,
        tn_peer_public_key = (if pub = [] then None else Some pub), tn_endpoint = (if endpoint = [] then None else Some endpoint),
        tn_allowed_ips = (if ips = [] then DEFAULT_ALLOWED_IPS else ips), tn_peer_lla = (if peer_lla = [] then None else Some peer_lla) \<rparr>)"
proof -
  have "strip key = key" "strip pub = pub" "strip endpoint = endpoint" "strip local_lla = local_lla" "strip peer_lla = peer_lla" "0 \<le> port"
    using assms(1,2) by (simp_all add: netdev_ok_def network_ok_def plain_value_def)
  then show ?thesis
    unfolding netdev_read_back [OF assms(1)] network_read_back [OF assms(2)]
    using assms(3,4) by (auto simp: tunnel_of_def field_text_def field_opt_def)
qed

theorem scan_reads_rendered_witness:
  "tunnel_of ''dn42_1'' (parse_networkd_netdev (render_networkd_netdev ''dn42_1'' ''a='' 51820 ''b='' ''h:1'' [''fe80::/64'']))
      (parse_networkd_network (render_networkd_network ''dn42_1'' ''fe80::1'' ''fe80::2''))
    = ([], Inr \<lparr> tn_private_key = ''a='', tn_listen_port = 51820, tn_local_lla = ''fe80::1'', tn_peer_public_key = Some ''b='',
        tn_endpoint = Some ''h:1'', tn_allowed_ips = [''fe80::/64''], tn_peer_lla = Some ''fe80::2'' \<rparr>)"
proof -
  have v: "plain_value ''dn42_1''" "plain_value ''a=''" "plain_value ''b=''" "plain_value ''h:1''" "plain_value ''fe80::1''"
    "plain_value ''fe80::2''" "plain_value ''fe80::/64''" by code_simp+
  have "list_all (\<lambda>x. \<not> is_separator x) ''fe80::/64''" by code_simp
  moreover have "ipv6_network ''fe80::/64'' \<noteq> None"
    by (simp add: ipv6_network_def split_addr_prefix_def prefix_from_string_def mask_hextets_def is_digit_def parse_nat_def digit_val_def
        eval_strings eval_ip)
  ultimately have "netdev_ok ''dn42_1'' ''a='' 51820 ''b='' ''h:1'' [''fe80::/64'']" "network_ok ''dn42_1'' ''fe80::1'' ''fe80::2''"
    using v by (simp_all add: netdev_ok_def network_ok_def MAX_PORT_def)
  from scan_reads_rendered [OF this] show ?thesis by simp
qed

end
