(* ===== verification/Browse.thy ===== *)
theory Browse
  imports Address Proposals
begin

text \<open>
  \<open>dn42ctl/services/db_browse.py\<close>: reading tables page by page with the secrets replaced. What is
  proved is that no page depends on a secret.
\<close>

section \<open>Tables as cells\<close>

text \<open>A column that holds JSON text has the decoded value as a \<open>Doc\<close>.\<close>

datatype cell = Null | Num int | Txt string | Doc json

fun opt_cell :: "string option \<Rightarrow> cell" where
  "opt_cell None = Null"
| "opt_cell (Some s) = Txt s"

definition flag :: "bool \<Rightarrow> cell" where
  "flag b = Num (if b then 1 else 0)"

type_synonym cells = "(string \<times> cell) list"

definition peer_cells :: "'a peer_record_base_scheme \<Rightarrow> cells" where
  "peer_cells r = [(''node_id'', Txt (p_node_id r)), (''ifname'', Txt (p_ifname r)), (''wg_private_key'', Txt (p_wg_private_key r)),
     (''wg_public_key'', Txt (p_wg_public_key r)), (''peer_public_key'', opt_cell (p_peer_public_key r)), (''endpoint'', opt_cell (p_endpoint r)),
     (''local_lla'', Txt (p_local_lla r)), (''peer_lla'', opt_cell (p_peer_lla r)), (''listen_port'', Num (p_listen_port r)),
     (''allowed_ips_json'', Doc (JArr (map JStr (p_allowed_ips r)))), (''net_backend'', Txt (p_net_backend r))]"

definition bgp_cells :: "int \<Rightarrow> bgp_peer_row \<Rightarrow> cells" where
  "bgp_cells i r = [(''id'', Num i), (''peer_asn'', Num (p_peer_asn r)), (''created_at'', Txt (b_created_at r)), (''updated_at'', Txt (b_updated_at r))]
     @ peer_cells r"

definition ibgp_cells :: "int \<Rightarrow> ibgp_peer_row \<Rightarrow> cells" where
  "ibgp_cells i r = [(''id'', Num i), (''name'', Txt (p_name r)), (''babel_rxcost'', Num (p_babel_rxcost r)), (''peer_ip'', opt_cell (p_peer_ip r)),
     (''has_wg'', flag (p_has_wg r)), (''babel_type'', Txt (p_babel_type r)), (''remote_node_id'', opt_cell (p_remote_node_id r)),
     (''created_at'', Txt (i_created_at r)), (''updated_at'', Txt (i_updated_at r))] @ peer_cells r"

definition managed_cells :: "ManagedNode \<Rightarrow> cells" where
  "managed_cells m = [(''node_id'', Txt (mn_node_id m)), (''name'', Txt (mn_name m)), (''api_token_hash'', opt_cell (mn_api_token_hash m)),
     (''write_policy'', Doc (JObj (map (\<lambda>(k, v). (k, JStr v)) (mn_write_policy m)))), (''enabled'', flag (mn_enabled m)),
     (''is_self'', flag (mn_is_self m)), (''last_seen_at'', opt_cell (mn_last_seen_at m)), (''created_at'', Txt (mn_created_at m)),
     (''updated_at'', Txt (mn_updated_at m)), (''endpoint_host'', opt_cell (mn_endpoint_host m)), (''own_ipv6'', opt_cell (mn_own_ipv6 m)),
     (''router_id'', opt_cell (mn_router_id m)), (''auto_peer'', flag (mn_auto_peer m))]"

definition proposal_cells :: "ConfigProposal \<Rightarrow> cells" where
  "proposal_cells p = [(''id'', Num (int (cp_id p))), (''node_id'', Txt (cp_node_id p)), (''source'', Txt (cp_source p)), (''kind'', Txt (cp_kind p)),
     (''payload_json'', Doc (JObj (cp_payload p))), (''status'', Txt (cp_status p)), (''received_at'', Txt (cp_received_at p)),
     (''decided_at'', opt_cell (cp_decided_at p)), (''message'', opt_cell (cp_message p))]"

definition report_cells :: "NodeReport \<Rightarrow> cells" where
  "report_cells p = [(''id'', Num (int (nr_id p))), (''node_id'', Txt (nr_node_id p)), (''kind'', Txt (nr_kind p)),
     (''payload_json'', Doc (JObj (nr_payload p))), (''received_at'', Txt (nr_received_at p)), (''imported_at'', opt_cell (nr_imported_at p))]"

definition revision_cells :: "ConfigRevision \<Rightarrow> cells" where
  "revision_cells r = [(''id'', Num (int (cr_id r))), (''node_id'', Txt (cr_node_id r)), (''revision'', Txt (cr_revision r)),
     (''generated_at'', Txt (cr_generated_at r)), (''payload_json'', Doc (JObj (cr_payload r)))]"

text \<open>
  \<open>SELECT * FROM table ORDER BY rowid\<close>: rows are kept in the order of their ids; the ids of peers are
  the argument \<open>ids\<close>, from the position of the row.
\<close>

definition table_rows :: "(string \<Rightarrow> nat \<Rightarrow> int) \<Rightarrow> string \<Rightarrow> database \<Rightarrow> cells list" where
  "table_rows ids t d =
     (if t = ''schema_migrations'' then map (\<lambda>v. [(''version'', Num (int v))]) (schema_migrations d)
      else if t = ''nodes'' then map (\<lambda>n. [(''node_id'', Txt (n_node_id n)), (''created_at'', Txt (n_created_at n)), (''updated_at'', Txt (n_updated_at n))]) (nodes d)
      else if t = ''bgp_peers'' then map2 (\<lambda>k r. bgp_cells (ids t k) r) [0..<length (bgp_peers d)] (bgp_peers d)
      else if t = ''ibgp_peers'' then map2 (\<lambda>k r. ibgp_cells (ids t k) r) [0..<length (ibgp_peers d)] (ibgp_peers d)
      else if t = ''managed_nodes'' then map managed_cells (managed_nodes d)
      else if t = ''config_proposals'' then map proposal_cells (config_proposals d)
      else if t = ''node_reports'' then map report_cells (node_reports d)
      else if t = ''config_revisions'' then map revision_cells (config_revisions d)
      else if t = ''node_desired_pin'' then map (\<lambda>p. [(''node_id'', Txt (dp_node_id p)), (''revision'', Txt (dp_revision p)), (''pinned_at'', Txt (dp_pinned_at p))]) (node_desired_pin d)
      else if t = ''sync_events'' then map (\<lambda>e. [(''id'', Num (int (se_id e))), (''node_id'', Txt (se_node_id e)), (''kind'', Txt (se_kind e)), (''created_at'', Txt (se_created_at e))]) (sync_events d)
      else [])"

section \<open>Pages\<close>

definition REDACTED :: string where "REDACTED = ''***''"
definition MAX_LIMIT :: int where "MAX_LIMIT = 500"

definition BROWSABLE_TABLES :: "(string \<times> string list) list" where
  "BROWSABLE_TABLES = [(''schema_migrations'', []), (''nodes'', []), (''bgp_peers'', [''wg_private_key'']), (''ibgp_peers'', [''wg_private_key'']),
     (''managed_nodes'', [''api_token_hash'']), (''config_proposals'', []), (''node_reports'', []), (''config_revisions'', [''payload_json'']),
     (''node_desired_pin'', []), (''sync_events'', [])]"

definition NODE_SCOPED_TABLES :: "string set" where
  "NODE_SCOPED_TABLES = {''bgp_peers'', ''ibgp_peers'', ''managed_nodes'', ''config_proposals'', ''node_reports'', ''config_revisions'',
     ''node_desired_pin'', ''sync_events''}"

record TablePage =
  tp_table :: string
  tp_columns :: "string list"
  tp_rows :: "cells list"
  tp_total :: nat
  tp_limit :: int
  tp_offset :: int
  tp_redacted :: "string list"

definition browsable :: "string \<Rightarrow> (string \<times> string list) result" where
  "browsable table = (case List.find (\<lambda>e. fst e = table) BROWSABLE_TABLES of
     None \<Rightarrow> Inl (Dn42CtlError ''unknown table'') | Some e \<Rightarrow> Inr e)"

fun redact_value :: "cell \<Rightarrow> cell" where
  "redact_value Null = Null"
| "redact_value _ = Txt REDACTED"

text \<open>\<open>J\<close> is the text that a JSON column has for its value.\<close>

fun cell_size :: "(json \<Rightarrow> string) \<Rightarrow> cell \<Rightarrow> nat" where
  "cell_size J Null = 0"
| "cell_size J (Num i) = length (show_int i)"
| "cell_size J (Txt s) = length s"
| "cell_size J (Doc j) = length (J j)"

definition redact_payload :: "(json \<Rightarrow> string) \<Rightarrow> cell \<Rightarrow> cell" where
  "redact_payload J v = (if v = Null then Null else Txt (''<payload: '' @ show_nat (cell_size J v) @ '' bytes>''))"

definition cell_at :: "cells \<Rightarrow> string \<Rightarrow> cell" where
  "cell_at row col = (case map_of row col of None \<Rightarrow> Null | Some v \<Rightarrow> v)"

definition page_row :: "(json \<Rightarrow> string) \<Rightarrow> string list \<Rightarrow> string list \<Rightarrow> cells \<Rightarrow> cells" where
  "page_row J redacted columns row = map (\<lambda>col. let v = cell_at row col in
     (col, if col \<in> set redacted then (if endswith col ''_json'' then redact_payload J v else redact_value v) else v)) columns"

definition clamp_limit :: "int \<Rightarrow> int" where
  "clamp_limit limit = max 1 (min limit MAX_LIMIT)"

definition selected :: "(string \<Rightarrow> nat \<Rightarrow> int) \<Rightarrow> string \<Rightarrow> string option \<Rightarrow> database \<Rightarrow> cells list" where
  "selected ids name node_id d =
     (if truthy node_id \<and> name \<in> NODE_SCOPED_TABLES then filter (\<lambda>row. cell_at row ''node_id'' = Txt (the node_id)) (table_rows ids name d)
      else table_rows ids name d)"

text \<open>A statement on a table that is not there fails like any other.\<close>

definition select_from :: "string \<Rightarrow> (database \<Rightarrow> 'a) \<Rightarrow> 'a wop" where
  "select_from name f = bnd (sql_query (\<lambda>d. if has_table d name then Some (f d) else None)) (\<lambda>r. case r of
     None \<Rightarrow> raise SqliteError | Some x \<Rightarrow> ret x)"

definition browse_table ::
  "(json \<Rightarrow> string) \<Rightarrow> (string \<Rightarrow> nat \<Rightarrow> int) \<Rightarrow> string \<Rightarrow> int \<Rightarrow> int \<Rightarrow> string option \<Rightarrow> TablePage wop" where
  "browse_table J ids table limit offset node_id =
     bnd (lift_result (browsable table)) (\<lambda>(name, redacted).
     let limit = clamp_limit limit; offset = max 0 offset in
     bnd (with_db (reraise_as is_sqlite_error Dn42CtlError (
       bnd (select_from name (\<lambda>d. length (selected ids name node_id d))) (\<lambda>total.
       bnd (if offset < 2 ^ 63 then ret () else raise OverflowError) (\<lambda>_.
       bnd (select_from name (\<lambda>d. (take (nat limit) (List.drop (nat offset) (selected ids name node_id d)), table_columns d name))) (\<lambda>(fetched, columns).
       ret (total, fetched, columns))))))) (\<lambda>(total, fetched, columns).
     ret \<lparr> tp_table = name, tp_columns = columns, tp_rows = map (page_row J redacted columns) fetched, tp_total = total,
           tp_limit = limit, tp_offset = offset, tp_redacted = redacted \<rparr>))"

fun cell_json :: "(json \<Rightarrow> string) \<Rightarrow> cell \<Rightarrow> json" where
  "cell_json J Null = JNull"
| "cell_json J (Num i) = JInt i"
| "cell_json J (Txt s) = JStr s"
| "cell_json J (Doc j) = JStr (J j)"

definition table_page_to_dict :: "(json \<Rightarrow> string) \<Rightarrow> TablePage \<Rightarrow> jdict" where
  "table_page_to_dict J page = [(''table'', JStr (tp_table page)), (''columns'', JArr (map JStr (tp_columns page))),
     (''rows'', JArr (map (\<lambda>row. JObj (map (map_prod id (cell_json J)) row)) (tp_rows page))), (''total'', JInt (int (tp_total page))),
     (''limit'', JInt (tp_limit page)), (''offset'', JInt (tp_offset page)), (''redacted'', JArr (map JStr (tp_redacted page)))]"

record TableSummary =
  ts_name :: string
  ts_rows :: nat
  ts_redacted :: "string list"

text \<open>A table that cannot be counted is left out.\<close>

fun summaries :: "(string \<Rightarrow> nat \<Rightarrow> int) \<Rightarrow> (string \<times> string list) list \<Rightarrow> TableSummary list wop" where
  "summaries ids [] = ret []"
| "summaries ids ((t, redacted) # ts) =
     bnd (try_except (bnd (select_from t (\<lambda>d. length (table_rows ids t d))) (\<lambda>n. ret [\<lparr> ts_name = t, ts_rows = n, ts_redacted = redacted \<rparr>]))
            (\<lambda>e. if is_sqlite_error e then ret [] else raise e)) (\<lambda>a.
     bnd (summaries ids ts) (\<lambda>b. ret (a @ b)))"

definition list_tables :: "(string \<Rightarrow> nat \<Rightarrow> int) \<Rightarrow> TableSummary list wop" where
  "list_tables ids = with_db (summaries ids BROWSABLE_TABLES)"

section \<open>Secrets\<close>

text \<open>Two databases that differ only in private keys, token hashes and the contents of recorded revisions of the same size.\<close>

definition same_but_secrets :: "(json \<Rightarrow> string) \<Rightarrow> database \<Rightarrow> database \<Rightarrow> bool" where
  "same_but_secrets J d d' \<longleftrightarrow>
     list_all2 (\<lambda>r r'. r\<lparr> p_wg_private_key := [] \<rparr> = r'\<lparr> p_wg_private_key := [] \<rparr>) (bgp_peers d) (bgp_peers d')
   \<and> list_all2 (\<lambda>r r'. r\<lparr> p_wg_private_key := [] \<rparr> = r'\<lparr> p_wg_private_key := [] \<rparr>) (ibgp_peers d) (ibgp_peers d')
   \<and> list_all2 (\<lambda>m m'. m\<lparr> mn_api_token_hash := None \<rparr> = m'\<lparr> mn_api_token_hash := None \<rparr>
        \<and> (mn_api_token_hash m = None \<longleftrightarrow> mn_api_token_hash m' = None)) (managed_nodes d) (managed_nodes d')
   \<and> list_all2 (\<lambda>r r'. r\<lparr> cr_payload := [] \<rparr> = r'\<lparr> cr_payload := [] \<rparr>
        \<and> length (J (JObj (cr_payload r))) = length (J (JObj (cr_payload r')))) (config_revisions d) (config_revisions d')
   \<and> db_schema d = db_schema d' \<and> schema_migrations d = schema_migrations d' \<and> nodes d = nodes d'
   \<and> config_proposals d = config_proposals d' \<and> node_reports d = node_reports d' \<and> node_desired_pin d = node_desired_pin d'
   \<and> sync_events d = sync_events d'"

text \<open>Rows that look the same on a page.\<close>

definition alike :: "(json \<Rightarrow> string) \<Rightarrow> string list \<Rightarrow> cells \<Rightarrow> cells \<Rightarrow> bool" where
  "alike J redacted a b \<longleftrightarrow> cell_at a ''node_id'' = cell_at b ''node_id'' \<and> (\<forall>columns. page_row J redacted columns a = page_row J redacted columns b)"

lemma alikeI:
  assumes "\<And>col. col \<notin> set redacted \<Longrightarrow> cell_at a col = cell_at b col" and "''node_id'' \<notin> set redacted"
    and "\<And>col. col \<in> set redacted \<Longrightarrow> (if endswith col ''_json'' then redact_payload J (cell_at a col) = redact_payload J (cell_at b col)
      else redact_value (cell_at a col) = redact_value (cell_at b col))"
  shows "alike J redacted a b"
  unfolding alike_def page_row_def Let_def using assms by (auto intro!: map_cong)

lemma alike_refl [simp]: "alike J redacted a a"
  by (simp add: alike_def)

lemma redact_opt: "redact_value (opt_cell x) = (if x = None then Null else Txt REDACTED)"
  by (cases x) simp_all

lemma not_json: "\<not> endswith ''wg_private_key'' ''_json''" "\<not> endswith ''api_token_hash'' ''_json''" "endswith ''payload_json'' ''_json''"
  by code_simp+

lemma alike_bgp:
  fixes r r' :: bgp_peer_row
  assumes "r\<lparr> p_wg_private_key := [] \<rparr> = r'\<lparr> p_wg_private_key := [] \<rparr>"
  shows "alike J [''wg_private_key''] (bgp_cells i r) (bgp_cells i r')"
proof -
  from assms have "r' = r\<lparr> p_wg_private_key := p_wg_private_key r' \<rparr>" by (cases r, cases r') simp
  then obtain k where r: "r' = r\<lparr> p_wg_private_key := k \<rparr>" by blast
  show ?thesis unfolding r by (rule alikeI) (auto simp: cell_at_def bgp_cells_def peer_cells_def not_json)
qed

lemma alike_ibgp:
  fixes r r' :: ibgp_peer_row
  assumes "r\<lparr> p_wg_private_key := [] \<rparr> = r'\<lparr> p_wg_private_key := [] \<rparr>"
  shows "alike J [''wg_private_key''] (ibgp_cells i r) (ibgp_cells i r')"
proof -
  from assms have "r' = r\<lparr> p_wg_private_key := p_wg_private_key r' \<rparr>" by (cases r, cases r') simp
  then obtain k where r: "r' = r\<lparr> p_wg_private_key := k \<rparr>" by blast
  show ?thesis unfolding r by (rule alikeI) (auto simp: cell_at_def ibgp_cells_def peer_cells_def not_json)
qed

lemma alike_managed:
  assumes "m\<lparr> mn_api_token_hash := None \<rparr> = m'\<lparr> mn_api_token_hash := None \<rparr>" and "mn_api_token_hash m = None \<longleftrightarrow> mn_api_token_hash m' = None"
  shows "alike J [''api_token_hash''] (managed_cells m) (managed_cells m')"
proof -
  from assms(1) have "m' = m\<lparr> mn_api_token_hash := mn_api_token_hash m' \<rparr>" by (cases m, cases m') simp
  then obtain h where m: "m' = m\<lparr> mn_api_token_hash := h \<rparr>" by blast
  show ?thesis using assms(2) unfolding m by (intro alikeI) (auto simp: cell_at_def managed_cells_def not_json redact_opt)
qed

lemma alike_revision:
  assumes "r\<lparr> cr_payload := [] \<rparr> = r'\<lparr> cr_payload := [] \<rparr>" and "length (J (JObj (cr_payload r))) = length (J (JObj (cr_payload r')))"
  shows "alike J [''payload_json''] (revision_cells r) (revision_cells r')"
proof -
  from assms(1) have "r' = r\<lparr> cr_payload := cr_payload r' \<rparr>" by (cases r, cases r') simp
  then obtain p where r: "r' = r\<lparr> cr_payload := p \<rparr>" by blast
  show ?thesis using assms(2) unfolding r by (intro alikeI) (auto simp: cell_at_def revision_cells_def not_json redact_payload_def)
qed

lemma alike_numbered:
  assumes "list_all2 (\<lambda>r r'. \<forall>i. P (f i r) (f i r')) xs ys"
  shows "list_all2 P (map2 (\<lambda>k r. f (g k) r) [0..<length xs] xs) (map2 (\<lambda>k r. f (g k) r) [0..<length ys] ys)"
  using assms by (auto simp: list_all2_conv_all_nth)

text \<open>The rows of a table that may be browsed look the same.\<close>

lemma tables_alike:
  assumes "same_but_secrets J d d'" and "browsable t = Inr (name, redacted)"
  shows "list_all2 (alike J redacted) (table_rows ids name d) (table_rows ids name d')"
proof -
  note same = assms(1) [unfolded same_but_secrets_def]
  have r: "list_all2 (alike J x) zs zs" for x zs by (rule list.rel_refl) simp
  have b: "list_all2 (alike J [''wg_private_key'']) (table_rows ids ''bgp_peers'' d) (table_rows ids ''bgp_peers'' d')"
  proof -
    have "list_all2 (\<lambda>r r'. \<forall>i. alike J [''wg_private_key''] (bgp_cells i r) (bgp_cells i r')) (bgp_peers d) (bgp_peers d')"
      using same by (auto elim!: list_all2_mono intro: alike_bgp)
    from alike_numbered [OF this] show ?thesis by (simp add: table_rows_def)
  qed
  have i: "list_all2 (alike J [''wg_private_key'']) (table_rows ids ''ibgp_peers'' d) (table_rows ids ''ibgp_peers'' d')"
  proof -
    have "list_all2 (\<lambda>r r'. \<forall>i. alike J [''wg_private_key''] (ibgp_cells i r) (ibgp_cells i r')) (ibgp_peers d) (ibgp_peers d')"
      using same by (auto elim!: list_all2_mono intro: alike_ibgp)
    from alike_numbered [OF this] show ?thesis by (simp add: table_rows_def)
  qed
  have m: "list_all2 (alike J [''api_token_hash'']) (table_rows ids ''managed_nodes'' d) (table_rows ids ''managed_nodes'' d')"
  proof -
    have "list_all2 (\<lambda>m m'. alike J [''api_token_hash''] (managed_cells m) (managed_cells m')) (managed_nodes d) (managed_nodes d')"
      using same by (auto elim!: list_all2_mono intro: alike_managed)
    then show ?thesis by (simp add: table_rows_def list_all2_map1 list_all2_map2)
  qed
  have c: "list_all2 (alike J [''payload_json'']) (table_rows ids ''config_revisions'' d) (table_rows ids ''config_revisions'' d')"
  proof -
    have "list_all2 (\<lambda>r r'. alike J [''payload_json''] (revision_cells r) (revision_cells r')) (config_revisions d) (config_revisions d')"
      using same by (auto elim!: list_all2_mono intro: alike_revision)
    then show ?thesis by (simp add: table_rows_def list_all2_map1 list_all2_map2)
  qed
  have o: "table_rows ids t d = table_rows ids t d'" if "t \<in> {''schema_migrations'', ''nodes'', ''config_proposals'', ''node_reports'', ''node_desired_pin'', ''sync_events''}" for t
    using that same by (auto simp: table_rows_def)
  have "\<forall>e \<in> set BROWSABLE_TABLES. list_all2 (alike J (snd e)) (table_rows ids (fst e) d) (table_rows ids (fst e) d')"
    unfolding BROWSABLE_TABLES_def using b i m c o r by simp
  moreover from assms(2) have "(name, redacted) \<in> set BROWSABLE_TABLES" by (auto simp: browsable_def find_Some_iff split: option.splits)
  ultimately show ?thesis by fastforce
qed

lemma selected_alike:
  assumes "same_but_secrets J d d'" and "browsable t = Inr (name, redacted)"
  shows "list_all2 (alike J redacted) (selected ids name n d) (selected ids name n d')"
proof -
  have "list_all2 (alike J redacted) (filter (\<lambda>r. cell_at r ''node_id'' = v) xs) (filter (\<lambda>r. cell_at r ''node_id'' = v) ys)"
    if "list_all2 (alike J redacted) xs ys" for v xs ys using that by induction (auto simp: alike_def)
  with tables_alike [OF assms] show ?thesis by (simp add: selected_def)
qed

lemma pages_alike:
  assumes "list_all2 (alike J redacted) xs ys"
  shows "map (page_row J redacted columns) (take k (List.drop m xs)) = map (page_row J redacted columns) (take k (List.drop m ys))"
proof -
  have "list_all2 (alike J redacted) (take k (List.drop m xs)) (take k (List.drop m ys))"
    using assms by (intro list_all2_takeI list_all2_dropI)
  then show ?thesis by induction (simp_all add: alike_def)
qed

text \<open>The page as a function of the database.\<close>

definition page_of ::
  "(json \<Rightarrow> string) \<Rightarrow> (string \<Rightarrow> nat \<Rightarrow> int) \<Rightarrow> string \<Rightarrow> string list \<Rightarrow> int \<Rightarrow> int \<Rightarrow> string option \<Rightarrow> database \<Rightarrow> TablePage" where
  "page_of J ids name redacted limit offset node_id d =
     \<lparr> tp_table = name, tp_columns = table_columns d name,
       tp_rows = map (page_row J redacted (table_columns d name))
         (take (nat (clamp_limit limit)) (List.drop (nat (max 0 offset)) (selected ids name node_id d))),
       tp_total = length (selected ids name node_id d), tp_limit = clamp_limit limit, tp_offset = max 0 offset, tp_redacted = redacted \<rparr>"

lemma page_of_same:
  assumes "same_but_secrets J d d'" and "browsable t = Inr (name, redacted)"
  shows "page_of J ids name redacted limit offset n d = page_of J ids name redacted limit offset n d'"
proof -
  note a = selected_alike [OF assms, of ids n]
  have "table_columns d name = table_columns d' name" using assms(1) by (simp add: same_but_secrets_def table_columns_def)
  with pages_alike [OF a] list_all2_lengthD [OF a] show ?thesis by (simp add: page_of_def)
qed

lemma outcome_select_from: "outcome (select_from t f) (\<lambda>d x d'. x = f d \<and> d' = d) (\<lambda>d d'. d' = d)"
  unfolding outcome_def select_from_def bnd_def sql_query_def by (auto simp: view_def ret_def raise_def)

lemma outcome_browse:
  "outcome (browse_table J ids t limit offset n) (\<lambda>d p d'. migrated d \<longrightarrow> d' = d \<and>
      (\<exists>name redacted. browsable t = Inr (name, redacted) \<and> p = page_of J ids name redacted limit offset n d))
     (\<lambda>d d'. migrated d \<longrightarrow> d' = d)"
  unfolding browse_table_def reraise_as_def Let_def
  by (rule outcome_migrated, rule triple_pre, (rule wp triple_try | rule triple_outcome, rule services outcome_select_from)+)
    (auto simp: page_of_def)

text \<open>
  C38. A page of \<open>browse_table\<close> tells nothing about a secret: on two databases that differ only in
  WireGuard private keys, API token hashes (with the same nodes having one) and the contents of
  recorded revisions (of the same size), it returns the same page for every table, limit, offset
  and node; browsing changes nothing, and a page has at most \<open>MAX_LIMIT\<close> rows of all that match.
\<close>

theorem browse_hides_secrets:
  assumes "tx w = None" and "tx w' = None" and "migrated (disk w)" and "migrated (disk w')"
    and "same_but_secrets J (disk w) (disk w')"
    and "browse_table J ids table limit offset n w = (Inr p, v)" and "browse_table J ids table limit offset n w' = (Inr p', v')"
  shows "p = p' \<and> disk v = disk w \<and> disk v' = disk w' \<and> length (tp_rows p) \<le> min (nat MAX_LIMIT) (tp_total p)"
proof -
  from outcomeD [OF outcome_browse assms(1,6)] assms(3) obtain name redacted where
    p: "disk v = disk w" "browsable table = Inr (name, redacted)" "p = page_of J ids name redacted limit offset n (disk w)" by auto
  from outcomeD [OF outcome_browse assms(2,7)] assms(4) p(2) have
    p': "disk v' = disk w'" "p' = page_of J ids name redacted limit offset n (disk w')" by auto
  have "length (tp_rows p) \<le> min (nat MAX_LIMIT) (tp_total p)" unfolding p(3) page_of_def clamp_limit_def MAX_LIMIT_def by simp arith
  with page_of_same [OF assms(5) p(2)] p p' show ?thesis by simp
qed

lemma total_select_from: "succeeds b (\<lambda>d. has_table d t \<and> R (f d) d) (select_from t f) R"
  unfolding select_from_def by (rule total_pre, (rule total)+) auto

lemma total_browse:
  "succeeds False (\<lambda>d. migrated d \<and> (\<exists>redacted. browsable t = Inr (t, redacted)) \<and> has_table d t \<and> offset < 2 ^ 63)
     (browse_table J ids t limit offset n) (\<lambda>_ _. True)"
  unfolding browse_table_def reraise_as_def Let_def
  by (rule total_pre, (rule total total_select_from)+) auto

text \<open>A peer row with one key and with another.\<close>

definition browsed :: "string \<Rightarrow> world" where
  "browsed key = start_world ((ready sample_db)\<lparr> db_schema := [(''schema_migrations'', [''version'']),
       (''bgp_peers'', [''id'', ''node_id'', ''peer_asn''] @ peer_columns @ [''created_at'', ''updated_at''])],
     bgp_peers := [(bgp_row_of sample_bgp ''t0'')\<lparr> p_wg_private_key := key \<rparr>] \<rparr>)"

lemma browsed_ok:
  "tx (browsed key) = None" "migrated (disk (browsed key))" "no_faults (browsed key)" "has_table (disk (browsed key)) ''bgp_peers''"
  by (simp_all add: browsed_def no_faults_def migrated_def has_table_def ready_def)

theorem browse_hides_secrets_witness:
  "\<exists>p v v'. browse_table (\<lambda>_. []) (\<lambda>_ k. int k + 1) ''bgp_peers'' 100 0 None (browsed ''secret'') = (Inr p, v)
     \<and> browse_table (\<lambda>_. []) (\<lambda>_ k. int k + 1) ''bgp_peers'' 100 0 None (browsed ''other'') = (Inr p, v')"
proof -
  let ?m = "browse_table (\<lambda>_. []) (\<lambda>_ k. int k + 1) ''bgp_peers'' 100 0 None"
  have "browsable ''bgp_peers'' = Inr (''bgp_peers'', [''wg_private_key''])" by (simp add: browsable_def BROWSABLE_TABLES_def)
  then have r: "\<exists>p v. ?m (browsed key) = (Inr p, v)" for key
    using totalD [OF total_browse browsed_ok(3,1)] browsed_ok(2,4) [of key] by (metis zero_less_numeral zero_less_power)
  obtain p v p' v' where p: "?m (browsed ''secret'') = (Inr p, v)" "?m (browsed ''other'') = (Inr p', v')" using r by meson
  have "same_but_secrets (\<lambda>_. []) (disk (browsed ''secret'')) (disk (browsed ''other''))"
    by (simp add: same_but_secrets_def browsed_def list.rel_refl ready_def sample_db_def empty_database_def)
  from browse_hides_secrets [OF browsed_ok(1) browsed_ok(1) browsed_ok(2) browsed_ok(2) this p] p show ?thesis by blast
qed

end
