(* ===== verification/Spec2Isabelle.thy ===== *)
theory Spec2Isabelle
  imports Upgrades Hub_Push Admin Autopeer Agent_Effects Scan_Effects Browse
begin

text \<open>
  A verification development of \<open>dn42ctl\<close>, which manages the BGP and iBGP peers of the nodes of
  a DN42 network. A hub keeps the peers of every node in one SQLite database, renders
  configuration files from it and pushes to every node what the node should run; nodes
  connect over websockets and send proposals and reports. File names below are relative to
  \<open>src/src/dn42ctl\<close>.

  \<^bold>\<open>The parts and how they meet.\<close> \<open>db.py\<close>, \<open>db_managed.py\<close> and \<open>migrations.py\<close> own the database:
  the peer tables, the registry of managed nodes, proposals, reports, recorded revisions, and
  a queue of change notifications that is written in the same transaction as the change. The
  services under \<open>services/\<close> check their input (\<open>validators.py\<close>, \<open>services/peer_payload.py\<close>), open
  the database, change it, and write or delete the files of a peer (\<open>render.py\<close>, \<open>services/core.py\<close>).
  \<open>ws_hub.py\<close> speaks the envelopes of \<open>ws_protocol.py\<close> with the nodes: it authenticates a
  connection against the registry, runs the proposal and report services for the frames of
  the node, and its watcher reads the queue, closes the connections of a node that lost its
  access and wakes the others, which are then sent their desired state
  (\<open>services/desired_state.py\<close>) when its fingerprint changed. On a node \<open>node_ws_agent.py\<close> keeps the
  connection, stores a pushed state in a cache (\<open>services/node_agent.py\<close>) and applies it
  (\<open>services/node_apply.py\<close>): it renders the files, replaces them, deletes the ones that are no longer
  wanted, reloads the daemons (\<open>services/reload.py\<close>) and reports to the hub. The public wizard
  (\<open>services/kioubit_auth.py\<close>, \<open>services/auto_peer.py\<close>) turns a signed identity into a proposal.

  \<^bold>\<open>Theories, definitions and sources.\<close> Definitions have the names of the source, without
  leading underscores; helpers that a definition is split into name a block of it.

  \<^item> \<open>Prelude\<close>: exceptions as values (\<open>exn\<close>), pure code that raises (\<open>result\<close>, \<open>bindR\<close>), stateful
    code (\<open>op\<close> with \<open>ret\<close>, \<open>raise\<close>, \<open>bnd\<close>, \<open>try_except\<close>, \<open>try_finally\<close>), Python's string methods.
  \<^item> \<open>Json\<close>, \<open>Json_Parse\<close>: JSON values, \<open>json.dumps\<close> and \<open>json.loads\<close>.
  \<^item> \<open>Ipaddr\<close>, \<open>Validators\<close>, \<open>Payload\<close>: \<open>ipaddress\<close> and \<open>base64\<close> as used, \<open>validators.py\<close>,
    \<open>constants.py\<close>, \<open>services/peer_payload.py\<close>.
  \<^item> \<open>Schema\<close>: the tables as records of lists of rows, the state \<open>world\<close> (durable database \<open>disk\<close>,
    open transaction \<open>tx\<close>, files, a step counter and an environment that decides which
    statement or file operation fails and what the clock, the generators and the hash return),
    SQL statements, transactions, and the triples, outcomes and well-formedness (\<open>wf_db\<close>) that
    the proofs use; the locale \<open>keyed_table\<close> has the laws of a table with a key.
  \<^item> \<open>Database\<close>, \<open>Managed\<close>, \<open>Stores\<close>: \<open>db.py\<close> and the stores of \<open>db_managed.py\<close>.
  \<^item> \<open>Migrations\<close>, \<open>Upgrades\<close>: the versions of \<open>migrations.py\<close>, the runner, \<open>Database.open\<close>.
  \<^item> \<open>Render\<close>, \<open>Peers\<close>, \<open>Names\<close>, \<open>Peer_Effects\<close>: templates, file operations and permissions
    (\<open>render.py\<close>, \<open>fs.py\<close>, \<open>file_policy.py\<close>, \<open>services/core.py\<close>, \<open>wg.py\<close>), \<open>services/bgp.py\<close>,
    \<open>services/ibgp.py\<close>.
  \<^item> \<open>Progress\<close>: the calculus of operations that return when nothing fails.
  \<^item> \<open>Desired\<close>: \<open>services/desired_state.py\<close>, \<open>services/revisions.py\<close>.
  \<^item> \<open>Frames\<close>, \<open>Proposals\<close>: the locale \<open>frame\<close> of relations that every run keeps, interpreted for
    \<open>confined n\<close>, \<open>peers_only n\<close> and \<open>node_scope n\<close>; \<open>services/proposals.py\<close>,
    \<open>services/proposal_decisions.py\<close>, \<open>services/reports.py\<close>, \<open>services/report_import.py\<close>.
  \<^item> \<open>Protocol\<close>: \<open>ws_protocol.py\<close>.
  \<^item> \<open>Registry\<close>, \<open>Hub\<close>: \<open>ws_hub.py\<close> on the state \<open>hub\<close>. The locale \<open>relying\<close> has the rules for a task
    among other tasks, \<open>hub_tasks\<close>, \<open>scoped_task\<close> and \<open>watched\<close> extend it with what the other
    tasks are relied upon to keep. \<open>Hub_Scope\<close>, \<open>Hub_Replies\<close>, \<open>Hub_Watch\<close>, \<open>Hub_Push\<close> hold what is
    proved of connections, replies, the watcher and the push path.
  \<^item> \<open>Address\<close>, \<open>Node_Config\<close>, \<open>Admin\<close>: \<open>services/node_address.py\<close>, \<open>node_config.py\<close>,
    \<open>services/node_admin.py\<close>.
  \<^item> \<open>Kioubit\<close>, \<open>Autopeer\<close>: \<open>services/kioubit_auth.py\<close>, \<open>services/auto_peer.py\<close>.
  \<^item> \<open>Config\<close>, \<open>Cache\<close>: \<open>config.py\<close>; \<open>services/node_agent.py\<close>, \<open>services/node_push.py\<close> and \<open>node_client.py\<close>, on the
    state \<open>node_state\<close>, which adds the cache files of a node to its \<open>world\<close>.
  \<^item> \<open>Apply\<close>: \<open>services/node_apply.py\<close>, \<open>services/reload.py\<close> and the templates only they use.
    \<open>Apply_Effects\<close> holds what is proved of a run, \<open>Apply_Sample\<close> a node on which it is used.
  \<^item> \<open>Agent\<close>, \<open>Agent_Effects\<close>: \<open>node_ws_agent.py\<close> on the state \<open>agent\<close>, a node with what was sent,
    printed and waited for.
  \<^item> \<open>Scan_Text\<close>, \<open>Scan\<close>, \<open>Scan_Effects\<close>: \<open>services/scan.py\<close>, with a matcher for the regular expressions
    it uses.
  \<^item> \<open>Browse\<close>: \<open>services/db_browse.py\<close>, with the rows of a table as cells under the names of its columns.

  \<^bold>\<open>What is proved.\<close> Of the database: every statement of a service may fail, and then nothing
  or everything of the change is durable, together with its notification; the queue keeps its
  newest thousand events; interrupted migrations complete. Of the registry: stored policies
  never allow unreviewed modification or deletion, rotation revokes the old token, revocation
  is announced. Of payloads and validators: what is accepted is in range and normalised, and
  endpoints and envelopes round trip. Of peers: listen ports of a node stay separate, deletion
  is database first. Of proposals and reports: a node reaches only its own rows, and changes
  need review. Of desired states: the fingerprint compared is the digest of what would be
  sent, and rollback is undone by clearing it. Of the hub: the same confinement for whole
  connections, one reply of the right kind per text frame, bounded connections per node, revocation closes
  connections, the watcher misses no event, wakeups deliver. Of addresses: an update refines
  the redirection of the mesh. Of the wizard: sessions answer once under every interleaving of
  threads, and it only ever proposes. Of a node: a run of \<open>apply\<close> that returns leaves exactly the
  rendered files under the generated names, a second run does nothing, a state that cannot be
  rendered changes no file, the daemons are reloaded exactly when the texts of their files changed, every
  run ends, and every push that the agent survives is reported truthfully; what ends the agent is proved
  as well. Of the scanner: it reads back what is rendered, and it only adds peers of its node. Of the browser: no page depends on a secret. Theorems about what the code gets wrong stand beside
  these; they have plain names and a text that says what happens.

  \<^bold>\<open>Bounds and fuel.\<close> \<open>pick_loop\<close> has the 2001 draws of the source as its count. The JSON parser has
  fuel twice the length of the text plus two, and the theory shows that a longer fuel changes
  nothing; the interpreter's recursion limit is an argument. The loops of the hub that run
  until their connection or process ends take the finite list of what they receive (frames,
  wakeups, rounds), so that a statement about every list is one about every prefix of a run.
  \<open>remove_all\<close>, \<open>words_of\<close>, \<open>finditer_from\<close> and \<open>write_loop\<close> have termination proofs over the length of the text that is left; the
  latter relies on \<open>os.write\<close> taking at least one byte of what is left. A
  connection of the agent is a list of occasions and its life a list of attempts.

  \<^bold>\<open>Concurrency.\<close> Other tasks of the hub act arbitrarily, within what a locale states, before and
  after every awaited call (\<open>pause\<close>); a service that runs in a thread is one step of the hub. Waiting for the
  lock of a socket or of the registry is part of such a pause. The pusher of a connection
  (\<open>pusher_loop\<close>) runs beside its reader: to a theorem about the reader it is one of the other tasks, and
  \<open>Hub_Scope\<close> shows that it keeps what the theorem about confinement asks of them.
  Threads of the wizard are a step relation whose steps are the sections under its lock. The
  three tasks of the agent are resumed in any order, one frame or timer at a time; a push is
  handled by one task as a whole.

  \<^bold>\<open>Files.\<close> A file has a text, a mode and a group. Opening a file for writing truncates it, and a write that fails
  leaves a beginning of the text (\<open>write_file\<close>, \<open>put_text\<close>, \<open>io_partial\<close>); the loop over \<open>os.write\<close> counts the bytes of the UTF-8
  encoding (\<open>utf8\<close>), and a file whose last bytes are half of a character has the text before it. The
  renaming of a finished temporary file is one step. A path with a null byte is refused with \<open>ValueError\<close>; output of a
  command that cannot be decoded raises one too (\<open>UNDECODABLE\<close>).

  \<^bold>\<open>Arguments.\<close> Code outside the repository is an argument of the definitions: SHA-256, ECDSA,
  the TOML reader and printer, the rounding of integers to floats, the clocks, random bytes,
  the \<open>wg\<close> program, directory listings, symbolic links, the names of temporary files, unified
  diffs, the answers of the daemons and of the HTTP server. The texts of \<open>bird.conf\<close> and of the
  placeholder for \<open>extra.conf\<close> are arguments too, since they contain characters beyond the 256 that \<open>string\<close> has;
  sizes of frames and cells are counted in characters. What a theorem relies on is a hypothesis of the theorem, and its witness
  instantiates it. Floats are rational numbers, infinities and not-a-number with exact
  arithmetic. Columns that hold JSON text hold the decoded value. Integers of rows are unbounded: what SQLite cannot
  hold is refused by the validators before, and by a step of its own in the scanner. Messages of exceptions are
  short tags.

  \<^bold>\<open>Not modelled.\<close> \<open>cli.py\<close> and \<open>api.py\<close> (argument parsing, routing and printing around the services
  above), \<open>services/show.py\<close>,
  \<open>services/system.py\<close>, \<open>services/init_sys.py\<close>, \<open>services/dummy.py\<close> (they run \<open>ip\<close>, \<open>birdc\<close>, \<open>wg\<close> and
  \<open>systemctl\<close> and format what these print), the systemd units of the ROA timer, process start-up, cancellation of
  tasks, calls that block for ever, the columns of an index, the wording of messages.
\<close>

end
